(* ===== verification/Prelude.thy ===== *)
theory Prelude
  imports Complex_Main "HOL-Library.AList" "HOL-Library.Multiset"
begin

text \<open>
  Shared vocabulary of the development: the errors the code raises, results as sums, Python
  strings (ASCII text as \<open>char list\<close>), insertion-ordered dictionaries as association lists,
  order-preserving deduplication (\<open>dict.fromkeys\<close>), instants as integer microseconds since the
  Unix epoch, and \<open>decimal.Decimal\<close> arithmetic in the default context (28 significant digits,
  half-even rounding) as functions on rational numbers.
\<close>

section \<open>Collections of facts\<close>

named_theorems dict_simps "lookup and key facts about insertion-ordered dictionaries"
named_theorems dec_simps "sign and order facts about decimal context arithmetic"

section \<open>Errors and results\<close>

text \<open>
  One constructor per exception class the modelled code raises. The string is the literal text of
  the message; values interpolated by an f-string are left out.
\<close>

datatype py_error =
    ValueError string
  | TypeError string
  | KeyError
  | RuntimeError string
  | InvalidOperation
  | ValidationError string
  | InvalidSubjectError string
  | EventBusClosedError
  | CompileError string
  | IncompatibleContractError
  | HashMismatchError
  | DuplicateRuleError
  | UnknownRuleError
  | EligibilityError string
  | InvalidAuditEventError string
  | CorruptAuditLogError string
  | WriterAlreadyActiveError
  | EOFError
  | OSError string
  | IntegrityError string
  | CancelledError
  | IndexError
  | ZeroDivisionError
  | DivisionByZero
  | AssertionError
  | OtherException string
  | OutOfFuel

type_synonym 'a result = "py_error + 'a"

fun bind_result :: "'a result \<Rightarrow> ('a \<Rightarrow> 'b result) \<Rightarrow> 'b result" where
  "bind_result (Inl e) f = Inl e"
| "bind_result (Inr x) f = f x"

lemma bind_result_Inr [simp]:
  "bind_result m f = Inr y \<longleftrightarrow> (\<exists>x. m = Inr x \<and> f x = Inr y)"
  by (cases m) auto

lemma bind_result_cong [fundef_cong]:
  "m = m' \<Longrightarrow> (\<And>x. m' = Inr x \<Longrightarrow> f x = g x) \<Longrightarrow> bind_result m f = bind_result m' g"
  by (cases m') auto

definition is_ok :: "'a result \<Rightarrow> bool" where
  "is_ok r = (case r of Inl _ \<Rightarrow> False | Inr _ \<Rightarrow> True)"

lemma is_ok_simps [simp]: "is_ok (Inr x)" "\<not> is_ok (Inl e)"
  by (simp_all add: is_ok_def)

lemma is_ok_iff: "is_ok r \<longleftrightarrow> (\<exists>x. r = Inr x)"
  by (cases r) auto

text \<open>A generator expression or a comprehension that raises at the first failing element.\<close>

fun map_result :: "('a \<Rightarrow> 'b result) \<Rightarrow> 'a list \<Rightarrow> 'b list result" where
  "map_result f [] = Inr []"
| "map_result f (x # xs) =
     bind_result (f x) (\<lambda>y. bind_result (map_result f xs) (\<lambda>ys. Inr (y # ys)))"

lemma map_result_cong [fundef_cong]:
  "xs = ys \<Longrightarrow> (\<And>x. x \<in> set ys \<Longrightarrow> f x = g x) \<Longrightarrow> map_result f xs = map_result g ys"
  by (induction xs arbitrary: ys) auto

lemma map_result_Inr:
  "map_result f xs = Inr ys \<Longrightarrow> list_all2 (\<lambda>x y. f x = Inr y) xs ys"
  by (induction xs arbitrary: ys) auto

lemma is_ok_map_result [simp]: "is_ok (map_result f xs) \<longleftrightarrow> (\<forall>x\<in>set xs. is_ok (f x))"
  by (induction xs) (auto simp: is_ok_iff)

lemma is_ok_bind_Inr: "is_ok (bind_result m (\<lambda>x. Inr (f x))) = is_ok m"
  by (cases m) simp_all

section \<open>Instants and durations\<close>

text \<open>
  A UTC instant and a \<open>timedelta\<close> are integers, in microseconds. A \<open>datetime\<close> argument whose
  zone the code checks is either naive (a wall-clock reading) or aware (an instant and the offset
  it is written with).
\<close>

type_synonym instant = int
type_synonym duration = int

datatype py_datetime = Naive int | Aware instant duration

definition seconds :: "int \<Rightarrow> duration" where "seconds n = n * 1000000"
definition minutes :: "int \<Rightarrow> duration" where "minutes n = seconds (60 * n)"
definition hours :: "int \<Rightarrow> duration" where "hours n = minutes (60 * n)"
definition days :: "int \<Rightarrow> duration" where "days n = hours (24 * n)"
definition weeks :: "int \<Rightarrow> duration" where "weeks n = days (7 * n)"

lemmas duration_defs = weeks_def days_def hours_def minutes_def seconds_def

section \<open>Strings\<close>

text \<open>Text is ASCII; the predicates are those of \<open>str\<close> restricted to ASCII characters.\<close>

definition code :: "char \<Rightarrow> nat" where "code c = of_char c"

definition isdigit :: "char \<Rightarrow> bool" where "isdigit c \<longleftrightarrow> 48 \<le> code c \<and> code c \<le> 57"
definition isupper :: "char \<Rightarrow> bool" where "isupper c \<longleftrightarrow> 65 \<le> code c \<and> code c \<le> 90"
definition islower :: "char \<Rightarrow> bool" where "islower c \<longleftrightarrow> 97 \<le> code c \<and> code c \<le> 122"
definition isalnum :: "char \<Rightarrow> bool" where "isalnum c \<longleftrightarrow> isdigit c \<or> isupper c \<or> islower c"

text \<open>\<open>str.isspace\<close> on ASCII: tab, newline, VT, FF, CR, the separators 28--31 and space.\<close>

definition isspace :: "char \<Rightarrow> bool" where
  "isspace c \<longleftrightarrow> (9 \<le> code c \<and> code c \<le> 13) \<or> (28 \<le> code c \<and> code c \<le> 32)"

definition upper_char :: "char \<Rightarrow> char" where
  "upper_char c = (if islower c then char_of (code c - 32) else c)"
definition lower_char :: "char \<Rightarrow> char" where
  "lower_char c = (if isupper c then char_of (code c + 32) else c)"

definition upper :: "string \<Rightarrow> string" where "upper s = map upper_char s"
definition lower :: "string \<Rightarrow> string" where "lower s = map lower_char s"

definition strip :: "string \<Rightarrow> string" where
  "strip s = rev (dropWhile isspace (rev (dropWhile isspace s)))"

lemmas char_class_defs = isalnum_def isdigit_def isupper_def islower_def isspace_def code_def

lemma code_char_of [simp]: "n < 256 \<Longrightarrow> code (char_of n) = n"
  by (simp add: code_def)

lemma upper_char_idem [simp]: "upper_char (upper_char c) = upper_char c"
proof (cases "islower c")
  case True
  then have "code (char_of (code c - 32)) = code c - 32"
    by (intro code_char_of) (auto simp: islower_def)
  with True have "\<not> islower (char_of (code c - 32))" by (auto simp: islower_def)
  with True show ?thesis by (simp add: upper_char_def)
qed (simp add: upper_char_def)

lemma isspace_upper_char [simp]: "isspace (upper_char c) = isspace c"
proof (cases "islower c")
  case True
  then have "97 \<le> code c" "code c \<le> 122" by (simp_all add: islower_def)
  moreover from this have "code (char_of (code c - 32)) = code c - 32"
    by (intro code_char_of) simp
  ultimately show ?thesis using True by (auto simp: upper_char_def isspace_def)
qed (simp add: upper_char_def)

lemma upper_idem [simp]: "upper (upper s) = upper s"
  by (simp add: upper_def)

lemma dropWhile_map_inv:
  "(\<And>x. P (f x) = P x) \<Longrightarrow> dropWhile P (map f xs) = map f (dropWhile P xs)"
  by (induction xs) auto

lemma strip_upper: "strip (upper s) = upper (strip s)"
  by (simp add: strip_def upper_def dropWhile_map_inv rev_map)

lemma dropWhile_id: "xs = [] \<or> \<not> P (hd xs) \<Longrightarrow> dropWhile P xs = xs"
  by (cases xs) auto

lemma dropWhile_hd: "dropWhile P xs = [] \<or> \<not> P (hd (dropWhile P xs))"
  using hd_dropWhile by blast

lemma hd_rev_dropWhile_rev:
  assumes "ys = [] \<or> \<not> P (hd ys)"
  shows "rev (dropWhile P (rev ys)) = [] \<or> \<not> P (hd (rev (dropWhile P (rev ys))))"
proof (cases "rev (dropWhile P (rev ys)) = []")
  case False
  obtain zs where zs: "rev ys = zs @ dropWhile P (rev ys)"
    by (metis takeWhile_dropWhile_id)
  then have "ys = rev (dropWhile P (rev ys)) @ rev zs"
    by (metis rev_append rev_rev_ident)
  then have "hd ys = hd (rev (dropWhile P (rev ys)))"
    using False by (metis hd_append2)
  with assms False show ?thesis by (metis rev_is_Nil_conv dropWhile.simps(1))
qed simp

lemma strip_idem [simp]: "strip (strip s) = strip s"
proof -
  let ?a = "dropWhile isspace s"
  let ?b = "rev (dropWhile isspace (rev ?a))"
  have "?b = [] \<or> \<not> isspace (hd ?b)"
    by (intro hd_rev_dropWhile_rev dropWhile_hd)
  then have "dropWhile isspace ?b = ?b" by (rule dropWhile_id)
  moreover have "dropWhile isspace (rev ?b) = rev ?b" by (simp add: dropWhile_idem)
  ultimately show ?thesis by (simp add: strip_def)
qed

text \<open>\<open>symbol.strip().upper()\<close>, the normal form of a ticker.\<close>

definition norm_symbol :: "string \<Rightarrow> string" where "norm_symbol s = upper (strip s)"

lemma norm_symbol_idem [simp]: "norm_symbol (norm_symbol s) = norm_symbol s"
  by (simp add: norm_symbol_def strip_upper)

text \<open>\<open>str.split(sep)\<close> on a one-character separator; never the empty list.\<close>

fun split_on :: "char \<Rightarrow> string \<Rightarrow> string list" where
  "split_on sep [] = [[]]"
| "split_on sep (c # cs) =
     (if c = sep then [] # split_on sep cs
      else (case split_on sep cs of [] \<Rightarrow> [[c]] | t # ts \<Rightarrow> (c # t) # ts))"

fun join_with :: "char \<Rightarrow> string list \<Rightarrow> string" where
  "join_with sep [] = []"
| "join_with sep [t] = t"
| "join_with sep (t # ts) = t @ sep # join_with sep ts"

lemma split_on_not_Nil [simp]: "split_on sep s \<noteq> []"
  by (induction s) (auto split: list.splits)

lemma split_on_no_sep: "sep \<notin> set s \<Longrightarrow> split_on sep s = [s]"
  by (induction s) auto

lemma split_on_append_sep: "sep \<notin> set t \<Longrightarrow> split_on sep (t @ sep # s) = t # split_on sep s"
  by (induction t) auto

lemma split_on_join:
  "ts \<noteq> [] \<Longrightarrow> \<forall>t\<in>set ts. sep \<notin> set t \<Longrightarrow> split_on sep (join_with sep ts) = ts"
  by (induction sep ts rule: join_with.induct) (auto simp: split_on_no_sep split_on_append_sep)

lemma join_with_Cons: "ts \<noteq> [] \<Longrightarrow> join_with sep (t # ts) = t @ sep # join_with sep ts"
  by (cases ts) auto

lemma join_with_hd: "join_with sep ((c # t) # ts) = c # join_with sep (t # ts)"
  by (cases ts) auto

lemma join_split [simp]: "join_with sep (split_on sep s) = s"
proof (induction s)
  case (Cons c cs)
  obtain t ts where ts: "split_on sep cs = t # ts" by (cases "split_on sep cs") auto
  with Cons.IH show ?case by (simp add: join_with_Cons join_with_hd)
qed simp

lemma split_on_no_sep_tokens: "t \<in> set (split_on sep s) \<Longrightarrow> sep \<notin> set t"
  by (induction s arbitrary: t) (auto split: list.splits if_splits)

section \<open>Ordered dictionaries and deduplication\<close>

text \<open>
  A Python \<open>dict\<close> keeps insertion order and updates a present key in place:
  \<^const>\<open>AList.update\<close> and \<^const>\<open>AList.delete\<close> on association lists.
\<close>

type_synonym ('k, 'v) dict = "('k \<times> 'v) list"

abbreviation dget :: "('k, 'v) dict \<Rightarrow> 'k \<Rightarrow> 'v option" where "dget d k \<equiv> map_of d k"
abbreviation dput :: "'k \<Rightarrow> 'v \<Rightarrow> ('k, 'v) dict \<Rightarrow> ('k, 'v) dict" where
  "dput k v d \<equiv> AList.update k v d"
abbreviation ddel :: "'k \<Rightarrow> ('k, 'v) dict \<Rightarrow> ('k, 'v) dict" where "ddel k d \<equiv> AList.delete k d"
abbreviation dkeys :: "('k, 'v) dict \<Rightarrow> 'k list" where "dkeys d \<equiv> map fst d"
abbreviation dvalues :: "('k, 'v) dict \<Rightarrow> 'v list" where "dvalues d \<equiv> map snd d"
abbreviation dict_wf :: "('k, 'v) dict \<Rightarrow> bool" where "dict_wf d \<equiv> distinct (dkeys d)"

lemma dget_dput [dict_simps]: "dget (dput k v d) k' = (if k' = k then Some v else dget d k')"
  by (simp add: update_conv')

lemma dict_wf_dput [dict_simps]: "dict_wf d \<Longrightarrow> dict_wf (dput k v d)"
  by (rule distinct_update)

lemma dkeys_dput [dict_simps]: "set (dkeys (dput k v d)) = insert k (set (dkeys d))"
  by (induction d) auto

lemma dget_ddel [dict_simps]: "dget (ddel k d) k' = (if k' = k then None else dget d k')"
  by (simp add: delete_conv')

lemma dget_None_keys: "dget d k = None \<longleftrightarrow> k \<notin> set (dkeys d)"
  by (simp add: map_of_eq_None_iff)

fun fromkeys :: "'a list \<Rightarrow> 'a list" where
  "fromkeys [] = []"
| "fromkeys (x # xs) = x # filter (\<lambda>y. y \<noteq> x) (fromkeys xs)"

lemma set_fromkeys [simp]: "set (fromkeys xs) = set xs"
  by (induction xs) auto

lemma distinct_fromkeys [simp]: "distinct (fromkeys xs)"
  by (induction xs) auto

lemma fromkeys_distinct: "distinct xs \<Longrightarrow> fromkeys xs = xs"
proof (induction xs)
  case (Cons x xs)
  then have "filter (\<lambda>y. y \<noteq> x) xs = xs" by (auto simp: filter_id_conv)
  with Cons show ?case by simp
qed simp

lemma fromkeys_idem [simp]: "fromkeys (fromkeys xs) = fromkeys xs"
  by (simp add: fromkeys_distinct)

text \<open>Grouping by key in first-seen order: \<open>grouped.setdefault(key, []).append(value)\<close>.\<close>

definition push_group :: "'k \<Rightarrow> 'v \<Rightarrow> ('k, 'v list) dict \<Rightarrow> ('k, 'v list) dict" where
  "push_group k v g = dput k ((case dget g k of None \<Rightarrow> [] | Some vs \<Rightarrow> vs) @ [v]) g"

definition group_by :: "('a \<Rightarrow> 'k) \<Rightarrow> 'a list \<Rightarrow> ('k, 'a list) dict" where
  "group_by key xs = foldl (\<lambda>g x. push_group (key x) x g) [] xs"

lemma dict_wf_foldl_push:
  "dict_wf g \<Longrightarrow> dict_wf (foldl (\<lambda>g x. push_group (key x) x g) g xs)"
  by (induction xs arbitrary: g) (simp_all add: push_group_def dict_simps)

lemma dict_wf_group_by [simp]: "dict_wf (group_by key xs)"
  by (simp add: group_by_def dict_wf_foldl_push)

lemma dget_foldl_push:
  "(case dget (foldl (\<lambda>g x. push_group (key x) x g) g xs) k of None \<Rightarrow> [] | Some vs \<Rightarrow> vs) =
   (case dget g k of None \<Rightarrow> [] | Some vs \<Rightarrow> vs) @ filter (\<lambda>x. key x = k) xs"
  by (induction xs arbitrary: g) (auto simp: push_group_def dict_simps)

lemma foldl_push_nonempty:
  "\<forall>k vs. dget g k = Some vs \<longrightarrow> vs \<noteq> [] \<Longrightarrow>
   dget (foldl (\<lambda>g x. push_group (key x) x g) g xs) k = Some vs \<Longrightarrow> vs \<noteq> []"
proof (induction xs arbitrary: g)
  case Nil
  then show ?case by auto
next
  case (Cons x xs)
  have "\<forall>k vs. dget (push_group (key x) x g) k = Some vs \<longrightarrow> vs \<noteq> []"
    using Cons.prems(1) by (auto simp: push_group_def dict_simps split: if_splits)
  from Cons.IH [OF this] Cons.prems(2) show ?case by simp
qed

lemma dget_group_by:
  "dget (group_by key xs) k =
     (let vs = filter (\<lambda>x. key x = k) xs in if vs = [] then None else Some vs)"
proof -
  let ?g = "foldl (\<lambda>g x. push_group (key x) x g) [] xs"
  have "(case dget ?g k of None \<Rightarrow> [] | Some vs \<Rightarrow> vs) = filter (\<lambda>x. key x = k) xs"
    using dget_foldl_push [of key "[]" xs k] by simp
  moreover have "\<And>vs. dget ?g k = Some vs \<Longrightarrow> vs \<noteq> []"
    using foldl_push_nonempty [of "[]"] by simp
  ultimately show ?thesis
    by (cases "dget ?g k") (auto simp: group_by_def Let_def)
qed

lemma set_group_by:
  "(k, vs) \<in> set (group_by key xs) \<longleftrightarrow> vs \<noteq> [] \<and> vs = filter (\<lambda>x. key x = k) xs"
proof -
  have "(k, vs) \<in> set (group_by key xs) \<longleftrightarrow> dget (group_by key xs) k = Some vs"
    using map_of_is_SomeI map_of_SomeD dict_wf_group_by by metis
  also have "\<dots> \<longleftrightarrow> vs \<noteq> [] \<and> vs = filter (\<lambda>x. key x = k) xs"
    by (auto simp: dget_group_by Let_def)
  finally show ?thesis .
qed

lemma dict_wf_push_group: "dict_wf g \<Longrightarrow> dict_wf (push_group k v g)"
  by (simp add: push_group_def dict_wf_dput)

lemma mset_push_group:
  "dict_wf g \<Longrightarrow> mset (concat (dvalues (push_group k v g))) = add_mset v (mset (concat (dvalues g)))"
proof (induction g)
  case (Cons p g)
  show ?case
  proof (cases "fst p = k")
    case True
    with Cons.prems have "AList.update k vs (p # g) = (k, vs) # g" for vs by (cases p) simp
    with True show ?thesis by (cases p) (simp add: push_group_def)
  next
    case False
    then have "push_group k v (p # g) = p # push_group k v g"
      by (cases p) (simp add: push_group_def)
    with Cons show ?thesis by simp
  qed
qed (simp add: push_group_def)

lemma mset_concat_group_by: "mset (concat (dvalues (group_by key xs))) = mset xs"
proof -
  have "mset (concat (dvalues (foldl (\<lambda>g x. push_group (key x) x g) g xs))) =
      mset (concat (dvalues g)) + mset xs" if "dict_wf g" for g
    using that
    by (induction xs arbitrary: g) (simp_all add: mset_push_group dict_wf_push_group)
  from this [of "[]"] show ?thesis by (simp add: group_by_def)
qed

section \<open>Batches\<close>

text \<open>\<open>tuple(xs[i : i + size] for i in range(0, len(xs), size))\<close> for a positive size.\<close>

function chunks :: "nat \<Rightarrow> 'a list \<Rightarrow> 'a list list" where
  "chunks n xs = (if n = 0 \<or> xs = [] then [] else take n xs # chunks n (drop n xs))"
  by pat_completeness auto
termination by (relation "measure (\<lambda>(n, xs). length xs)") auto

declare chunks.simps [simp del]

lemma concat_chunks [simp]: "0 < n \<Longrightarrow> concat (chunks n xs) = xs"
  by (induction n xs rule: chunks.induct) (subst chunks.simps, auto)

lemma chunks_bounds: "ys \<in> set (chunks n xs) \<Longrightarrow> ys \<noteq> [] \<and> length ys \<le> n"
proof (induction n xs rule: chunks.induct)
  case (1 n xs)
  then show ?case by (subst (asm) (2) chunks.simps) (auto split: if_splits)
qed

lemma chunks_member: "ys \<in> set (chunks n xs) \<Longrightarrow> set ys \<subseteq> set xs"
proof (induction n xs rule: chunks.induct)
  case (1 n xs)
  then show ?case
    by (subst (asm) (2) chunks.simps) (auto split: if_splits dest: in_set_takeD in_set_dropD)
qed

end
