(* ===== verification/Enums.thy ===== *)
theory Enums
  imports Prelude
begin

text \<open>
  The string enumerations of app/contracts/enums.py that the modelled components use. Each
  enumeration is a datatype with one constructor per member (prefixed, since several classes share
  member names), its wire value, and the member list in declaration order, which is the order
  Python iterates the class in. \<open>enum_parse\<close> is the constructor call \<open>Class(value)\<close>; the locale
  \<open>string_enum\<close> states what the wire boundary relies on (values are unique and every member is
  listed) and is interpreted for every enumeration.
\<close>

definition enum_parse :: "'a list \<Rightarrow> ('a \<Rightarrow> string) \<Rightarrow> string \<Rightarrow> 'a option" where
  "enum_parse members value s = find (\<lambda>m. value m = s) members"

locale string_enum =
  fixes members :: "'a list" and wire :: "'a \<Rightarrow> string"
  assumes members_complete: "m \<in> set members"
    and wire_distinct: "distinct (map wire members)"
begin

lemma wire_inj: "wire m = wire m' \<Longrightarrow> m = m'"
  using wire_distinct members_complete by (auto simp: distinct_map dest: inj_onD)

lemma members_distinct: "distinct members"
  using wire_distinct by (simp add: distinct_map)

lemma parse_wire: "enum_parse members wire (wire m) = Some m"
proof -
  obtain m' where m': "find (\<lambda>x. wire x = wire m) members = Some m'"
    using members_complete [of m] by (cases "find (\<lambda>x. wire x = wire m) members") (auto simp: find_None_iff)
  then have "wire m' = wire m" by (auto simp: find_Some_iff)
  with m' wire_inj show ?thesis by (auto simp: enum_parse_def)
qed

lemma parse_Some: "enum_parse members wire s = Some m \<longleftrightarrow> s = wire m"
proof
  assume "enum_parse members wire s = Some m"
  then show "s = wire m" by (auto simp: enum_parse_def find_Some_iff)
qed (simp add: parse_wire)

end

datatype market_session_kind =
    MS_PRE_MARKET | MS_REGULAR | MS_AFTER_HOURS | MS_CLOSED | MS_CONTINUOUS

primrec market_session_kind_value :: "market_session_kind \<Rightarrow> string" where
  "market_session_kind_value MS_PRE_MARKET = ''PRE_MARKET''"
| "market_session_kind_value MS_REGULAR = ''REGULAR''"
| "market_session_kind_value MS_AFTER_HOURS = ''AFTER_HOURS''"
| "market_session_kind_value MS_CLOSED = ''CLOSED''"
| "market_session_kind_value MS_CONTINUOUS = ''CONTINUOUS''"

definition market_session_kind_members :: "market_session_kind list" where
  "market_session_kind_members =
     [MS_PRE_MARKET, MS_REGULAR, MS_AFTER_HOURS,
      MS_CLOSED, MS_CONTINUOUS]"

datatype strategy_mode =
    SM_PRIMARY | SM_CANDIDATE | SM_RESEARCH | SM_DISABLED

primrec strategy_mode_value :: "strategy_mode \<Rightarrow> string" where
  "strategy_mode_value SM_PRIMARY = ''PRIMARY''"
| "strategy_mode_value SM_CANDIDATE = ''CANDIDATE''"
| "strategy_mode_value SM_RESEARCH = ''RESEARCH''"
| "strategy_mode_value SM_DISABLED = ''DISABLED''"

definition strategy_mode_members :: "strategy_mode list" where
  "strategy_mode_members =
     [SM_PRIMARY, SM_CANDIDATE, SM_RESEARCH,
      SM_DISABLED]"

datatype rule_type =
    RTY_FILTER | RTY_SIGNAL | RTY_CONFIRMATION | RTY_SCORING | RTY_RISK | RTY_SIZING | RTY_EXIT

primrec rule_type_value :: "rule_type \<Rightarrow> string" where
  "rule_type_value RTY_FILTER = ''FILTER''"
| "rule_type_value RTY_SIGNAL = ''SIGNAL''"
| "rule_type_value RTY_CONFIRMATION = ''CONFIRMATION''"
| "rule_type_value RTY_SCORING = ''SCORING''"
| "rule_type_value RTY_RISK = ''RISK''"
| "rule_type_value RTY_SIZING = ''SIZING''"
| "rule_type_value RTY_EXIT = ''EXIT''"

definition rule_type_members :: "rule_type list" where
  "rule_type_members =
     [RTY_FILTER, RTY_SIGNAL, RTY_CONFIRMATION,
      RTY_SCORING, RTY_RISK, RTY_SIZING,
      RTY_EXIT]"

datatype rule_status =
    RS_PASS | RS_FAIL | RS_NOT_APPLICABLE | RS_ERROR

primrec rule_status_value :: "rule_status \<Rightarrow> string" where
  "rule_status_value RS_PASS = ''PASS''"
| "rule_status_value RS_FAIL = ''FAIL''"
| "rule_status_value RS_NOT_APPLICABLE = ''NOT_APPLICABLE''"
| "rule_status_value RS_ERROR = ''ERROR''"

definition rule_status_members :: "rule_status list" where
  "rule_status_members =
     [RS_PASS, RS_FAIL, RS_NOT_APPLICABLE,
      RS_ERROR]"

datatype lifecycle_status =
    LC_DRAFT | LC_VALIDATED | LC_PAPER | LC_APPROVED | LC_DEPRECATED

primrec lifecycle_status_value :: "lifecycle_status \<Rightarrow> string" where
  "lifecycle_status_value LC_DRAFT = ''DRAFT''"
| "lifecycle_status_value LC_VALIDATED = ''VALIDATED''"
| "lifecycle_status_value LC_PAPER = ''PAPER''"
| "lifecycle_status_value LC_APPROVED = ''APPROVED''"
| "lifecycle_status_value LC_DEPRECATED = ''DEPRECATED''"

definition lifecycle_status_members :: "lifecycle_status list" where
  "lifecycle_status_members =
     [LC_DRAFT, LC_VALIDATED, LC_PAPER,
      LC_APPROVED, LC_DEPRECATED]"

datatype rule_trace_status =
    RT_PASS | RT_FAIL | RT_NOT_APPLICABLE | RT_ERROR | RT_SKIPPED_DEPENDENCY

primrec rule_trace_status_value :: "rule_trace_status \<Rightarrow> string" where
  "rule_trace_status_value RT_PASS = ''PASS''"
| "rule_trace_status_value RT_FAIL = ''FAIL''"
| "rule_trace_status_value RT_NOT_APPLICABLE = ''NOT_APPLICABLE''"
| "rule_trace_status_value RT_ERROR = ''ERROR''"
| "rule_trace_status_value RT_SKIPPED_DEPENDENCY = ''SKIPPED_DEPENDENCY''"

definition rule_trace_status_members :: "rule_trace_status list" where
  "rule_trace_status_members =
     [RT_PASS, RT_FAIL, RT_NOT_APPLICABLE,
      RT_ERROR, RT_SKIPPED_DEPENDENCY]"

datatype dependency_policy =
    DP_REQUIRE_PASS | DP_REQUIRE_COMPLETION

primrec dependency_policy_value :: "dependency_policy \<Rightarrow> string" where
  "dependency_policy_value DP_REQUIRE_PASS = ''REQUIRE_PASS''"
| "dependency_policy_value DP_REQUIRE_COMPLETION = ''REQUIRE_COMPLETION''"

definition dependency_policy_members :: "dependency_policy list" where
  "dependency_policy_members =
     [DP_REQUIRE_PASS, DP_REQUIRE_COMPLETION]"

datatype decision_outcome =
    DO_ACCEPTED | DO_REJECTED | DO_NO_DECISION | DO_ERROR

primrec decision_outcome_value :: "decision_outcome \<Rightarrow> string" where
  "decision_outcome_value DO_ACCEPTED = ''ACCEPTED''"
| "decision_outcome_value DO_REJECTED = ''REJECTED''"
| "decision_outcome_value DO_NO_DECISION = ''NO_DECISION''"
| "decision_outcome_value DO_ERROR = ''ERROR''"

definition decision_outcome_members :: "decision_outcome list" where
  "decision_outcome_members =
     [DO_ACCEPTED, DO_REJECTED, DO_NO_DECISION,
      DO_ERROR]"

datatype pattern_direction =
    PD_BULLISH | PD_BEARISH | PD_NEUTRAL

primrec pattern_direction_value :: "pattern_direction \<Rightarrow> string" where
  "pattern_direction_value PD_BULLISH = ''BULLISH''"
| "pattern_direction_value PD_BEARISH = ''BEARISH''"
| "pattern_direction_value PD_NEUTRAL = ''NEUTRAL''"

definition pattern_direction_members :: "pattern_direction list" where
  "pattern_direction_members =
     [PD_BULLISH, PD_BEARISH, PD_NEUTRAL]"

datatype bar_timeframe =
    TF_MINUTE_1 | TF_MINUTE_5 | TF_MINUTE_15 | TF_HOUR_1 | TF_HOUR_4 | TF_DAY_1 | TF_WEEK_1

primrec bar_timeframe_value :: "bar_timeframe \<Rightarrow> string" where
  "bar_timeframe_value TF_MINUTE_1 = ''1Min''"
| "bar_timeframe_value TF_MINUTE_5 = ''5Min''"
| "bar_timeframe_value TF_MINUTE_15 = ''15Min''"
| "bar_timeframe_value TF_HOUR_1 = ''1Hour''"
| "bar_timeframe_value TF_HOUR_4 = ''4Hour''"
| "bar_timeframe_value TF_DAY_1 = ''1Day''"
| "bar_timeframe_value TF_WEEK_1 = ''1Week''"

definition bar_timeframe_members :: "bar_timeframe list" where
  "bar_timeframe_members =
     [TF_MINUTE_1, TF_MINUTE_5, TF_MINUTE_15,
      TF_HOUR_1, TF_HOUR_4, TF_DAY_1,
      TF_WEEK_1]"

datatype analysis_horizon =
    AH_LONG_TERM | AH_DILUTION | AH_SWING | AH_INTRADAY | AH_VOLUME_STRUCTURE | AH_OPTIONS_GAMMA
  | AH_NEWS

primrec analysis_horizon_value :: "analysis_horizon \<Rightarrow> string" where
  "analysis_horizon_value AH_LONG_TERM = ''LONG_TERM''"
| "analysis_horizon_value AH_DILUTION = ''DILUTION''"
| "analysis_horizon_value AH_SWING = ''SWING''"
| "analysis_horizon_value AH_INTRADAY = ''INTRADAY''"
| "analysis_horizon_value AH_VOLUME_STRUCTURE = ''VOLUME_STRUCTURE''"
| "analysis_horizon_value AH_OPTIONS_GAMMA = ''OPTIONS_GAMMA''"
| "analysis_horizon_value AH_NEWS = ''NEWS''"

definition analysis_horizon_members :: "analysis_horizon list" where
  "analysis_horizon_members =
     [AH_LONG_TERM, AH_DILUTION, AH_SWING,
      AH_INTRADAY, AH_VOLUME_STRUCTURE, AH_OPTIONS_GAMMA,
      AH_NEWS]"

datatype analysis_verdict =
    AV_FAVORABLE | AV_WATCH | AV_CAUTION | AV_AVOID | AV_INSUFFICIENT_DATA

primrec analysis_verdict_value :: "analysis_verdict \<Rightarrow> string" where
  "analysis_verdict_value AV_FAVORABLE = ''FAVORABLE''"
| "analysis_verdict_value AV_WATCH = ''WATCH''"
| "analysis_verdict_value AV_CAUTION = ''CAUTION''"
| "analysis_verdict_value AV_AVOID = ''AVOID''"
| "analysis_verdict_value AV_INSUFFICIENT_DATA = ''INSUFFICIENT_DATA''"

definition analysis_verdict_members :: "analysis_verdict list" where
  "analysis_verdict_members =
     [AV_FAVORABLE, AV_WATCH, AV_CAUTION,
      AV_AVOID, AV_INSUFFICIENT_DATA]"

datatype trade_side =
    TS_LONG | TS_SHORT

primrec trade_side_value :: "trade_side \<Rightarrow> string" where
  "trade_side_value TS_LONG = ''LONG''"
| "trade_side_value TS_SHORT = ''SHORT''"

definition trade_side_members :: "trade_side list" where
  "trade_side_members =
     [TS_LONG, TS_SHORT]"

datatype alert_severity =
    AS_INFO | AS_WATCH | AS_ACTION | AS_CRITICAL

primrec alert_severity_value :: "alert_severity \<Rightarrow> string" where
  "alert_severity_value AS_INFO = ''INFO''"
| "alert_severity_value AS_WATCH = ''WATCH''"
| "alert_severity_value AS_ACTION = ''ACTION''"
| "alert_severity_value AS_CRITICAL = ''CRITICAL''"

definition alert_severity_members :: "alert_severity list" where
  "alert_severity_members =
     [AS_INFO, AS_WATCH, AS_ACTION,
      AS_CRITICAL]"

datatype alert_kind =
    AK_CONSENSUS | AK_LONG_BUY_ZONE | AK_SWING_SETUP
  | AK_EARLY_INTRADAY_WITHOUT_CONFIRMATION | AK_ENTRY_CONFIRMED | AK_HIGH_CONVICTION_BUY
  | AK_BEARISH_CONSENSUS | AK_SEC_WARNING | AK_ENTRY_WATCH
  | AK_ENTRY_OPPORTUNITY_PROGRESS | AK_ENTRY_OPPORTUNITY_CLOSED | AK_PORTFOLIO_PROTECT
  | AK_PORTFOLIO_FLOW_BUY | AK_LONG_PORTFOLIO_BUY | AK_PATREON_CAPS_WATCH
  | AK_PATREON_CAPS_BUY | AK_PATREON_CAPS_INVALIDATED | AK_OBV_BULLISH_DIVERGENCE
  | AK_NEWS_RISK | AK_LEVERAGED_THESIS_EARLY | AK_LEVERAGED_THESIS_BUY
  | AK_LEVERAGED_THESIS_CANCELLED

primrec alert_kind_value :: "alert_kind \<Rightarrow> string" where
  "alert_kind_value AK_CONSENSUS = ''CONSENSUS''"
| "alert_kind_value AK_LONG_BUY_ZONE = ''LONG_BUY_ZONE''"
| "alert_kind_value AK_SWING_SETUP = ''SWING_SETUP''"
| "alert_kind_value AK_EARLY_INTRADAY_WITHOUT_CONFIRMATION = ''EARLY_INTRADAY_WITHOUT_CONFIRMATION''"
| "alert_kind_value AK_ENTRY_CONFIRMED = ''ENTRY_CONFIRMED''"
| "alert_kind_value AK_HIGH_CONVICTION_BUY = ''HIGH_CONVICTION_BUY''"
| "alert_kind_value AK_BEARISH_CONSENSUS = ''BEARISH_CONSENSUS''"
| "alert_kind_value AK_SEC_WARNING = ''SEC_WARNING''"
| "alert_kind_value AK_ENTRY_WATCH = ''ENTRY_WATCH''"
| "alert_kind_value AK_ENTRY_OPPORTUNITY_PROGRESS = ''ENTRY_OPPORTUNITY_PROGRESS''"
| "alert_kind_value AK_ENTRY_OPPORTUNITY_CLOSED = ''ENTRY_OPPORTUNITY_CLOSED''"
| "alert_kind_value AK_PORTFOLIO_PROTECT = ''PORTFOLIO_PROTECT''"
| "alert_kind_value AK_PORTFOLIO_FLOW_BUY = ''PORTFOLIO_FLOW_BUY''"
| "alert_kind_value AK_LONG_PORTFOLIO_BUY = ''LONG_PORTFOLIO_BUY''"
| "alert_kind_value AK_PATREON_CAPS_WATCH = ''PATREON_CAPS_WATCH''"
| "alert_kind_value AK_PATREON_CAPS_BUY = ''PATREON_CAPS_BUY''"
| "alert_kind_value AK_PATREON_CAPS_INVALIDATED = ''PATREON_CAPS_INVALIDATED''"
| "alert_kind_value AK_OBV_BULLISH_DIVERGENCE = ''OBV_BULLISH_DIVERGENCE''"
| "alert_kind_value AK_NEWS_RISK = ''NEWS_RISK''"
| "alert_kind_value AK_LEVERAGED_THESIS_EARLY = ''LEVERAGED_THESIS_EARLY''"
| "alert_kind_value AK_LEVERAGED_THESIS_BUY = ''LEVERAGED_THESIS_BUY''"
| "alert_kind_value AK_LEVERAGED_THESIS_CANCELLED = ''LEVERAGED_THESIS_CANCELLED''"

definition alert_kind_members :: "alert_kind list" where
  "alert_kind_members =
     [AK_CONSENSUS, AK_LONG_BUY_ZONE, AK_SWING_SETUP,
      AK_EARLY_INTRADAY_WITHOUT_CONFIRMATION, AK_ENTRY_CONFIRMED, AK_HIGH_CONVICTION_BUY,
      AK_BEARISH_CONSENSUS, AK_SEC_WARNING, AK_ENTRY_WATCH,
      AK_ENTRY_OPPORTUNITY_PROGRESS, AK_ENTRY_OPPORTUNITY_CLOSED, AK_PORTFOLIO_PROTECT,
      AK_PORTFOLIO_FLOW_BUY, AK_LONG_PORTFOLIO_BUY, AK_PATREON_CAPS_WATCH,
      AK_PATREON_CAPS_BUY, AK_PATREON_CAPS_INVALIDATED, AK_OBV_BULLISH_DIVERGENCE,
      AK_NEWS_RISK, AK_LEVERAGED_THESIS_EARLY, AK_LEVERAGED_THESIS_BUY,
      AK_LEVERAGED_THESIS_CANCELLED]"

datatype entry_watch_status =
    EW_ARMED | EW_IN_ZONE | EW_EARLY_ENTRY | EW_IMPULSE_EXTENDED | EW_TRIGGERED
  | EW_POLICY_INELIGIBLE | EW_INVALIDATED | EW_EXPIRED

primrec entry_watch_status_value :: "entry_watch_status \<Rightarrow> string" where
  "entry_watch_status_value EW_ARMED = ''ARMED''"
| "entry_watch_status_value EW_IN_ZONE = ''IN_ZONE''"
| "entry_watch_status_value EW_EARLY_ENTRY = ''EARLY_ENTRY''"
| "entry_watch_status_value EW_IMPULSE_EXTENDED = ''IMPULSE_EXTENDED''"
| "entry_watch_status_value EW_TRIGGERED = ''TRIGGERED''"
| "entry_watch_status_value EW_POLICY_INELIGIBLE = ''POLICY_INELIGIBLE''"
| "entry_watch_status_value EW_INVALIDATED = ''INVALIDATED''"
| "entry_watch_status_value EW_EXPIRED = ''EXPIRED''"

definition entry_watch_status_members :: "entry_watch_status list" where
  "entry_watch_status_members =
     [EW_ARMED, EW_IN_ZONE, EW_EARLY_ENTRY,
      EW_IMPULSE_EXTENDED, EW_TRIGGERED, EW_POLICY_INELIGIBLE,
      EW_INVALIDATED, EW_EXPIRED]"

datatype entry_opportunity_status =
    EO_ARMED | EO_IN_ZONE | EO_CONFIRMING | EO_OPEN | EO_CLOSED

primrec entry_opportunity_status_value :: "entry_opportunity_status \<Rightarrow> string" where
  "entry_opportunity_status_value EO_ARMED = ''ARMED''"
| "entry_opportunity_status_value EO_IN_ZONE = ''IN_ZONE''"
| "entry_opportunity_status_value EO_CONFIRMING = ''CONFIRMING''"
| "entry_opportunity_status_value EO_OPEN = ''OPEN''"
| "entry_opportunity_status_value EO_CLOSED = ''CLOSED''"

definition entry_opportunity_status_members :: "entry_opportunity_status list" where
  "entry_opportunity_status_members =
     [EO_ARMED, EO_IN_ZONE, EO_CONFIRMING,
      EO_OPEN, EO_CLOSED]"

datatype entry_maturity =
    EM_ARMED | EM_IN_ZONE | EM_L1 | EM_L2 | EM_L3 | EM_L4

primrec entry_maturity_value :: "entry_maturity \<Rightarrow> string" where
  "entry_maturity_value EM_ARMED = ''ARMED''"
| "entry_maturity_value EM_IN_ZONE = ''IN_ZONE''"
| "entry_maturity_value EM_L1 = ''L1''"
| "entry_maturity_value EM_L2 = ''L2''"
| "entry_maturity_value EM_L3 = ''L3''"
| "entry_maturity_value EM_L4 = ''L4''"

definition entry_maturity_members :: "entry_maturity list" where
  "entry_maturity_members =
     [EM_ARMED, EM_IN_ZONE, EM_L1,
      EM_L2, EM_L3, EM_L4]"

datatype signal_family =
    SF_CORE_ENTRY | SF_CORE_RECOVERY | SF_CORE_SHORT | SF_PATREON_CAPS | SF_LONG_PORTFOLIO
  | SF_SIGNAL_FUSION | SF_PORTFOLIO_FLOW | SF_LEVERAGED_THESIS | SF_SWING_TRADE
  | SF_GERI_COUNTERTREND

primrec signal_family_value :: "signal_family \<Rightarrow> string" where
  "signal_family_value SF_CORE_ENTRY = ''CORE_ENTRY''"
| "signal_family_value SF_CORE_RECOVERY = ''CORE_RECOVERY''"
| "signal_family_value SF_CORE_SHORT = ''CORE_SHORT''"
| "signal_family_value SF_PATREON_CAPS = ''PATREON_CAPS''"
| "signal_family_value SF_LONG_PORTFOLIO = ''LONG_PORTFOLIO''"
| "signal_family_value SF_SIGNAL_FUSION = ''SIGNAL_FUSION''"
| "signal_family_value SF_PORTFOLIO_FLOW = ''PORTFOLIO_FLOW''"
| "signal_family_value SF_LEVERAGED_THESIS = ''LEVERAGED_THESIS''"
| "signal_family_value SF_SWING_TRADE = ''SWING_TRADE''"
| "signal_family_value SF_GERI_COUNTERTREND = ''GERI_COUNTERTREND''"

definition signal_family_members :: "signal_family list" where
  "signal_family_members =
     [SF_CORE_ENTRY, SF_CORE_RECOVERY, SF_CORE_SHORT,
      SF_PATREON_CAPS, SF_LONG_PORTFOLIO, SF_SIGNAL_FUSION,
      SF_PORTFOLIO_FLOW, SF_LEVERAGED_THESIS, SF_SWING_TRADE,
      SF_GERI_COUNTERTREND]"

datatype swing_trade_maturity =
    SW_ST1 | SW_ST2 | SW_ST3 | SW_ST4

primrec swing_trade_maturity_value :: "swing_trade_maturity \<Rightarrow> string" where
  "swing_trade_maturity_value SW_ST1 = ''ST1''"
| "swing_trade_maturity_value SW_ST2 = ''ST2''"
| "swing_trade_maturity_value SW_ST3 = ''ST3''"
| "swing_trade_maturity_value SW_ST4 = ''ST4''"

definition swing_trade_maturity_members :: "swing_trade_maturity list" where
  "swing_trade_maturity_members =
     [SW_ST1, SW_ST2, SW_ST3,
      SW_ST4]"

datatype countertrend_maturity =
    CT_CT0 | CT_CT1 | CT_CT2 | CT_CT3 | CT_CT4

primrec countertrend_maturity_value :: "countertrend_maturity \<Rightarrow> string" where
  "countertrend_maturity_value CT_CT0 = ''CT0''"
| "countertrend_maturity_value CT_CT1 = ''CT1''"
| "countertrend_maturity_value CT_CT2 = ''CT2''"
| "countertrend_maturity_value CT_CT3 = ''CT3''"
| "countertrend_maturity_value CT_CT4 = ''CT4''"

definition countertrend_maturity_members :: "countertrend_maturity list" where
  "countertrend_maturity_members =
     [CT_CT0, CT_CT1, CT_CT2,
      CT_CT3, CT_CT4]"

section \<open>The enumerations are well formed on the wire\<close>

interpretation market_session_kind_enum: string_enum market_session_kind_members market_session_kind_value
  by unfold_locales (auto simp: market_session_kind_members_def intro: market_session_kind.exhaust)

interpretation strategy_mode_enum: string_enum strategy_mode_members strategy_mode_value
  by unfold_locales (auto simp: strategy_mode_members_def intro: strategy_mode.exhaust)

interpretation rule_type_enum: string_enum rule_type_members rule_type_value
  by unfold_locales (auto simp: rule_type_members_def intro: rule_type.exhaust)

interpretation rule_status_enum: string_enum rule_status_members rule_status_value
  by unfold_locales (auto simp: rule_status_members_def intro: rule_status.exhaust)

interpretation lifecycle_status_enum: string_enum lifecycle_status_members lifecycle_status_value
  by unfold_locales (auto simp: lifecycle_status_members_def intro: lifecycle_status.exhaust)

interpretation rule_trace_status_enum: string_enum rule_trace_status_members rule_trace_status_value
  by unfold_locales (auto simp: rule_trace_status_members_def intro: rule_trace_status.exhaust)

interpretation dependency_policy_enum: string_enum dependency_policy_members dependency_policy_value
  by unfold_locales (auto simp: dependency_policy_members_def intro: dependency_policy.exhaust)

interpretation decision_outcome_enum: string_enum decision_outcome_members decision_outcome_value
  by unfold_locales (auto simp: decision_outcome_members_def intro: decision_outcome.exhaust)

interpretation pattern_direction_enum: string_enum pattern_direction_members pattern_direction_value
  by unfold_locales (auto simp: pattern_direction_members_def intro: pattern_direction.exhaust)

interpretation bar_timeframe_enum: string_enum bar_timeframe_members bar_timeframe_value
  by unfold_locales (auto simp: bar_timeframe_members_def intro: bar_timeframe.exhaust)

interpretation analysis_horizon_enum: string_enum analysis_horizon_members analysis_horizon_value
  by unfold_locales (auto simp: analysis_horizon_members_def intro: analysis_horizon.exhaust)

interpretation analysis_verdict_enum: string_enum analysis_verdict_members analysis_verdict_value
  by unfold_locales (auto simp: analysis_verdict_members_def intro: analysis_verdict.exhaust)

interpretation trade_side_enum: string_enum trade_side_members trade_side_value
  by unfold_locales (auto simp: trade_side_members_def intro: trade_side.exhaust)

interpretation alert_severity_enum: string_enum alert_severity_members alert_severity_value
  by unfold_locales (auto simp: alert_severity_members_def intro: alert_severity.exhaust)

interpretation alert_kind_enum: string_enum alert_kind_members alert_kind_value
  by unfold_locales (auto simp: alert_kind_members_def intro: alert_kind.exhaust)

interpretation entry_watch_status_enum: string_enum entry_watch_status_members entry_watch_status_value
  by unfold_locales (auto simp: entry_watch_status_members_def intro: entry_watch_status.exhaust)

interpretation entry_opportunity_status_enum: string_enum entry_opportunity_status_members entry_opportunity_status_value
  by unfold_locales (auto simp: entry_opportunity_status_members_def intro: entry_opportunity_status.exhaust)

interpretation entry_maturity_enum: string_enum entry_maturity_members entry_maturity_value
  by unfold_locales (auto simp: entry_maturity_members_def intro: entry_maturity.exhaust)

interpretation signal_family_enum: string_enum signal_family_members signal_family_value
  by unfold_locales (auto simp: signal_family_members_def intro: signal_family.exhaust)

interpretation swing_trade_maturity_enum: string_enum swing_trade_maturity_members swing_trade_maturity_value
  by unfold_locales (auto simp: swing_trade_maturity_members_def intro: swing_trade_maturity.exhaust)

interpretation countertrend_maturity_enum: string_enum countertrend_maturity_members countertrend_maturity_value
  by unfold_locales (auto simp: countertrend_maturity_members_def intro: countertrend_maturity.exhaust)

text \<open>
  \<open>StrategyMode(value)\<close>: the class overrides \<open>_missing_\<close>, so the retired value SHADOW of durable
  events still reads as CANDIDATE.
\<close>

definition strategy_mode_missing :: "string \<Rightarrow> strategy_mode option" where
  "strategy_mode_missing s = (if s = ''SHADOW'' then Some SM_CANDIDATE else None)"

definition parse_strategy_mode :: "string \<Rightarrow> strategy_mode result" where
  "parse_strategy_mode s =
     (case enum_parse strategy_mode_members strategy_mode_value s of
        Some m \<Rightarrow> Inr m
      | None \<Rightarrow> (case strategy_mode_missing s of
                   Some m \<Rightarrow> Inr m
                 | None \<Rightarrow> Inl (ValueError ''is not a valid StrategyMode'')))"

lemma parse_strategy_mode_cases:
  "parse_strategy_mode s = Inr m \<longleftrightarrow>
     s = strategy_mode_value m \<or> (s = ''SHADOW'' \<and> m = SM_CANDIDATE)"
proof -
  have sh: "enum_parse strategy_mode_members strategy_mode_value ''SHADOW'' = None"
    by (simp add: enum_parse_def strategy_mode_members_def)
  show ?thesis
  proof (cases "enum_parse strategy_mode_members strategy_mode_value s")
    case None
    then have "s \<noteq> strategy_mode_value m" using strategy_mode_enum.parse_wire by auto
    with None show ?thesis by (auto simp: parse_strategy_mode_def strategy_mode_missing_def)
  next
    case (Some m')
    with sh have "s \<noteq> ''SHADOW''" by auto
    moreover have "s = strategy_mode_value m'"
      using Some by (simp add: strategy_mode_enum.parse_Some)
    ultimately show ?thesis
      using Some strategy_mode_enum.wire_inj [of m m'] by (auto simp: parse_strategy_mode_def)
  qed
qed

end
