(* ===== verification/Subjects.thy ===== *)
theory Subjects
  imports Enums
begin

text \<open>
  Event subjects: the NATS validation and wildcard matching of app/event_bus/subjects.py and the
  subject builders of app/contracts/analysis_events.py, with their symbol and service tokens.
\<close>

section \<open>Validation and matching (app/event_bus/subjects.py)\<close>

definition subject_tokens :: "string \<Rightarrow> string list result" where
  "subject_tokens subject =
     (if subject = [] \<or> subject \<noteq> strip subject
      then Inl (InvalidSubjectError ''subject cannot be blank or padded'')
      else let tokens = split_on CHR ''.'' subject in
        if \<exists>t\<in>set tokens. t = [] \<or> (\<exists>c\<in>set t. isspace c)
        then Inl (InvalidSubjectError ''subject tokens must be non-empty and contain no whitespace'')
        else Inr tokens)"

definition validate_publish_subject :: "string \<Rightarrow> unit result" where
  "validate_publish_subject subject =
     bind_result (subject_tokens subject) (\<lambda>tokens.
       if ''*'' \<in> set tokens \<or> ''>'' \<in> set tokens
       then Inl (InvalidSubjectError ''publish subjects cannot contain wildcards'')
       else Inr ())"

definition validate_subscription_subject :: "string \<Rightarrow> unit result" where
  "validate_subscription_subject subject =
     bind_result (subject_tokens subject) (\<lambda>tokens.
       if ''>'' \<in> set (butlast tokens)
       then Inl (InvalidSubjectError ''the > wildcard is only valid as the last token'')
       else if \<exists>t\<in>set tokens. CHR ''*'' \<in> set t \<and> t \<noteq> ''*''
       then Inl (InvalidSubjectError ''the * wildcard must occupy a complete token'')
       else if \<exists>t\<in>set tokens. CHR ''>'' \<in> set t \<and> t \<noteq> ''>''
       then Inl (InvalidSubjectError ''the > wildcard must occupy a complete token'')
       else Inr ())"

text \<open>
  The loop of \<open>subject_matches\<close>: \<open>match_loop st n i ps\<close> has \<open>ps\<close> left of the \<open>n\<close> pattern
  tokens and stands at index \<open>i\<close> of the subject tokens \<open>st\<close>.
\<close>

fun match_loop :: "string list \<Rightarrow> nat \<Rightarrow> nat \<Rightarrow> string list \<Rightarrow> bool" where
  "match_loop st n i [] = (n = length st)"
| "match_loop st n i (p # ps) =
     (if p = ''>'' then i < length st
      else if length st \<le> i then False
      else if p \<noteq> ''*'' \<and> p \<noteq> st ! i then False
      else match_loop st n (Suc i) ps)"

definition subject_matches :: "string \<Rightarrow> string \<Rightarrow> bool" where
  "subject_matches pattern subject =
     (let pt = split_on CHR ''.'' pattern; st = split_on CHR ''.'' subject
      in match_loop st (length pt) 0 pt)"

text \<open>The wildcard semantics NATS documents, as an inductive relation on tokens.\<close>

inductive nats_match :: "string list \<Rightarrow> string list \<Rightarrow> bool" where
  nats_nil: "nats_match [] []"
| nats_tail: "nats_match [''>''] (t # ts)"
| nats_star: "nats_match ps ts \<Longrightarrow> nats_match (''*'' # ps) (t # ts)"
| nats_literal: "p \<noteq> ''*'' \<Longrightarrow> p \<noteq> ''>'' \<Longrightarrow> nats_match ps ts \<Longrightarrow> nats_match (p # ps) (p # ts)"

inductive_simps nats_match_simps: "nats_match [] ts" "nats_match (p # ps) ts"

lemma match_loop_nats:
  assumes "''>'' \<notin> set (butlast ps)" "i \<le> length st" "n = i + length ps"
  shows "match_loop st n i ps = nats_match ps (drop i st)"
  using assms
proof (induction ps arbitrary: i)
  case Nil
  then show ?case by (auto simp: nats_match_simps)
next
  case (Cons p ps)
  have tail: "''>'' \<notin> set (butlast ps)" using Cons.prems(1) by (auto split: if_splits)
  show ?case
  proof (cases "i < length st")
    case False
    with Cons.prems have "drop i st = []" by simp
    with False show ?thesis by (auto simp: nats_match_simps)
  next
    case True
    then have d: "drop i st = st ! i # drop (Suc i) st" by (rule Cons_nth_drop_Suc [symmetric])
    show ?thesis
    proof (cases "p = ''>''")
      case gt: True
      with Cons.prems(1) have "ps = []" by (cases ps) auto
      with gt True show ?thesis by (simp add: d nats_match_simps)
    next
      case False
      with True Cons.prems tail Cons.IH [of "Suc i"] show ?thesis
        by (auto simp: d nats_match_simps)
    qed
  qed
qed

lemma validate_subscription_tail:
  "validate_subscription_subject p = Inr () \<Longrightarrow> ''>'' \<notin> set (butlast (split_on CHR ''.'' p))"
  by (auto simp: validate_subscription_subject_def subject_tokens_def Let_def split: if_splits)

section \<open>Subject builders (app/contracts/analysis_events.py)\<close>

definition symbol_token :: "string \<Rightarrow> string result" where
  "symbol_token symbol =
     (let normalized = upper (strip symbol) in
      if normalized = [] \<or> 16 < length normalized \<or> \<not> isalnum (hd normalized)
         \<or> (\<exists>c\<in>set normalized. \<not> isalnum c \<and> c \<notin> set ''.-'')
      then Inl (ValueError ''symbol is not safe for an event subject'')
      else Inr (map (\<lambda>c. if c = CHR ''.'' then CHR ''_'' else c) normalized))"

definition service_token :: "string \<Rightarrow> string result" where
  "service_token service =
     (let normalized = lower (strip service) in
      if normalized = [] \<or> 64 < length normalized \<or> \<not> isalnum (hd normalized)
         \<or> (\<exists>c\<in>set normalized. \<not> isalnum c \<and> c \<notin> set ''-_'')
      then Inl (ValueError ''service is not safe for an event subject'')
      else Inr normalized)"

definition subject_for :: "string \<Rightarrow> string \<Rightarrow> string result" where
  "subject_for prefix symbol = bind_result (symbol_token symbol) (\<lambda>t. Inr (prefix @ t))"

definition market_bar_subject :: "bar_timeframe \<Rightarrow> string \<Rightarrow> string result" where
  "market_bar_subject timeframe symbol =
     subject_for (''marketbot.v1.market.bar.'' @ bar_timeframe_value timeframe @ ''.'') symbol"

definition analysis_result_subject :: "analysis_horizon \<Rightarrow> string \<Rightarrow> string result" where
  "analysis_result_subject horizon symbol =
     subject_for (''marketbot.v1.analysis.result.'' @ analysis_horizon_value horizon @ ''.'') symbol"

definition local_alert_subject :: "alert_severity \<Rightarrow> string \<Rightarrow> string result" where
  "local_alert_subject severity symbol =
     subject_for (''marketbot.v1.alert.local.'' @ alert_severity_value severity @ ''.'') symbol"

definition service_health_subject :: "string \<Rightarrow> string result" where
  "service_health_subject service =
     bind_result (service_token service) (\<lambda>t. Inr (''marketbot.v1.service.health.'' @ t))"

definition universe_changed_subject :: string where
  "universe_changed_subject = ''marketbot.v1.universe.changed.core''"

definition entry_watch_transition_subject :: "entry_watch_status \<Rightarrow> string \<Rightarrow> string result" where
  "entry_watch_transition_subject status symbol =
     subject_for (''marketbot.v1.entry-watch.transition.'' @ entry_watch_status_value status @ ''.'')
       symbol"

definition entry_opportunity_subject :: "entry_opportunity_status \<Rightarrow> string \<Rightarrow> string result" where
  "entry_opportunity_subject status symbol =
     subject_for
       (''marketbot.v1.entry-opportunity.transition.'' @ entry_opportunity_status_value status @ ''.'')
       symbol"

definition entry_signal_subject :: "signal_family \<Rightarrow> string \<Rightarrow> string result" where
  "entry_signal_subject family symbol =
     subject_for (''marketbot.v1.entry-signal.'' @ signal_family_value family @ ''.'') symbol"

definition entry_setup_assessment_subject :: "signal_family \<Rightarrow> string \<Rightarrow> string result" where
  "entry_setup_assessment_subject family symbol =
     subject_for (''marketbot.v1.entry-setup.'' @ signal_family_value family @ ''.'') symbol"

definition patreon_caps_assessment_subject :: "string \<Rightarrow> string result" where
  "patreon_caps_assessment_subject symbol =
     subject_for ''marketbot.v1.patreon-caps.assessment.'' symbol"

definition elliott_wave_assessment_subject :: "string \<Rightarrow> string result" where
  "elliott_wave_assessment_subject symbol =
     subject_for ''marketbot.v1.elliott-wave.assessment.'' symbol"

definition support_assessment_subject :: "string \<Rightarrow> string result" where
  "support_assessment_subject symbol =
     subject_for ''marketbot.v1.support-confirmation.assessment.'' symbol"

definition geri_assessment_subject :: "string \<Rightarrow> string result" where
  "geri_assessment_subject symbol = subject_for ''marketbot.v1.4hgeri.assessment.'' symbol"

definition swing_trade_assessment_subject :: "string \<Rightarrow> string result" where
  "swing_trade_assessment_subject symbol = subject_for ''marketbot.v1.swing-trade.assessment.'' symbol"

text \<open>
  \<open>getattr(maturity, "value", maturity) or "NO_THESIS"\<close>, for a maturity of the declared
  enumeration or None.
\<close>

definition swing_trade_transition_subject ::
  "swing_trade_maturity option \<Rightarrow> string \<Rightarrow> string result" where
  "swing_trade_transition_subject maturity symbol =
     (let value = (case maturity of None \<Rightarrow> ''NO_THESIS''
                   | Some m \<Rightarrow> swing_trade_maturity_value m)
      in subject_for (''marketbot.v1.swing-trade.transition.'' @ value @ ''.'') symbol)"

definition options_gamma_assessment_subject :: "string \<Rightarrow> string result" where
  "options_gamma_assessment_subject symbol =
     subject_for ''marketbot.v1.options-gamma.assessment.'' symbol"

definition leveraged_thesis_assessment_subject :: "string \<Rightarrow> string result" where
  "leveraged_thesis_assessment_subject symbol =
     subject_for ''marketbot.v1.leveraged-thesis.assessment.'' symbol"

definition fusion_assessment_subject :: "string \<Rightarrow> string result" where
  "fusion_assessment_subject symbol = subject_for ''marketbot.v1.signal-fusion.assessment.'' symbol"

definition fusion_buy_confirmed_subject :: "string \<Rightarrow> string result" where
  "fusion_buy_confirmed_subject symbol =
     subject_for ''marketbot.v1.signal-fusion.buy-confirmed.'' symbol"

definition fusion_recovery_confirmed_subject :: "string \<Rightarrow> string result" where
  "fusion_recovery_confirmed_subject symbol =
     subject_for ''marketbot.v1.signal-fusion.recovery-confirmed.'' symbol"

lemmas symbol_subject_defs =
  market_bar_subject_def analysis_result_subject_def local_alert_subject_def
  entry_watch_transition_subject_def entry_opportunity_subject_def entry_signal_subject_def
  entry_setup_assessment_subject_def patreon_caps_assessment_subject_def
  elliott_wave_assessment_subject_def support_assessment_subject_def geri_assessment_subject_def
  swing_trade_assessment_subject_def swing_trade_transition_subject_def
  options_gamma_assessment_subject_def leveraged_thesis_assessment_subject_def
  fusion_assessment_subject_def fusion_buy_confirmed_subject_def
  fusion_recovery_confirmed_subject_def

text \<open>Every subject some builder can return.\<close>

inductive built_subject :: "string \<Rightarrow> bool" where
  "market_bar_subject tf s = Inr x \<Longrightarrow> built_subject x"
| "analysis_result_subject h s = Inr x \<Longrightarrow> built_subject x"
| "local_alert_subject sev s = Inr x \<Longrightarrow> built_subject x"
| "service_health_subject s = Inr x \<Longrightarrow> built_subject x"
| "built_subject universe_changed_subject"
| "entry_watch_transition_subject ws s = Inr x \<Longrightarrow> built_subject x"
| "entry_opportunity_subject os s = Inr x \<Longrightarrow> built_subject x"
| "entry_signal_subject f s = Inr x \<Longrightarrow> built_subject x"
| "entry_setup_assessment_subject f s = Inr x \<Longrightarrow> built_subject x"
| "patreon_caps_assessment_subject s = Inr x \<Longrightarrow> built_subject x"
| "elliott_wave_assessment_subject s = Inr x \<Longrightarrow> built_subject x"
| "support_assessment_subject s = Inr x \<Longrightarrow> built_subject x"
| "geri_assessment_subject s = Inr x \<Longrightarrow> built_subject x"
| "swing_trade_assessment_subject s = Inr x \<Longrightarrow> built_subject x"
| "swing_trade_transition_subject m s = Inr x \<Longrightarrow> built_subject x"
| "options_gamma_assessment_subject s = Inr x \<Longrightarrow> built_subject x"
| "leveraged_thesis_assessment_subject s = Inr x \<Longrightarrow> built_subject x"
| "fusion_assessment_subject s = Inr x \<Longrightarrow> built_subject x"
| "fusion_buy_confirmed_subject s = Inr x \<Longrightarrow> built_subject x"
| "fusion_recovery_confirmed_subject s = Inr x \<Longrightarrow> built_subject x"

section \<open>Built subjects are publishable\<close>

text \<open>A character that no subject validation objects to.\<close>

definition plain_char :: "char \<Rightarrow> bool" where
  "plain_char c \<longleftrightarrow> \<not> isspace c \<and> c \<noteq> CHR ''.'' \<and> c \<noteq> CHR ''*'' \<and> c \<noteq> CHR ''>''"

lemma isalnum_plain: "isalnum c \<Longrightarrow> plain_char c"
  by (auto simp: plain_char_def char_class_defs)

lemma plain_literal [simp]: "plain_char CHR ''-''" "plain_char CHR ''_''"
  by (simp_all add: plain_char_def char_class_defs)

lemma symbol_char_plain:
  "isalnum c \<or> c \<in> set ''.-'' \<Longrightarrow> plain_char (if c = CHR ''.'' then CHR ''_'' else c)"
  using isalnum_plain by auto

lemma symbol_token_plain:
  assumes "symbol_token s = Inr t"
  shows "t \<noteq> []" "\<forall>c\<in>set t. plain_char c"
proof -
  let ?n = "upper (strip s)"
  have t: "t = map (\<lambda>c. if c = CHR ''.'' then CHR ''_'' else c) ?n"
    and n: "?n \<noteq> []" "\<forall>c\<in>set ?n. isalnum c \<or> c \<in> set ''.-''"
    using assms unfolding symbol_token_def Let_def by (auto split: if_splits)
  show "t \<noteq> []" using n(1) by (simp add: t)
  show "\<forall>c\<in>set t. plain_char c"
  proof
    fix c
    assume "c \<in> set t"
    then obtain d where "d \<in> set ?n" "c = (if d = CHR ''.'' then CHR ''_'' else d)"
      unfolding t set_map by blast
    with n(2) symbol_char_plain show "plain_char c" by blast
  qed
qed

lemma service_token_plain:
  assumes "service_token s = Inr t"
  shows "t \<noteq> []" "\<forall>c\<in>set t. plain_char c"
  using assms by (auto simp: service_token_def Let_def split: if_splits intro: isalnum_plain)

definition dotted_plain :: "string \<Rightarrow> bool" where
  "dotted_plain s \<longleftrightarrow> s \<noteq> [] \<and> last s = CHR ''.'' \<and>
     (\<forall>t\<in>set (split_on CHR ''.'' (butlast s)). t \<noteq> [] \<and> (\<forall>c\<in>set t. plain_char c))"

lemma dropWhile_none: "\<forall>c\<in>set s. \<not> P c \<Longrightarrow> dropWhile P s = s"
  by (cases s) auto

lemma strip_no_space: "\<forall>c\<in>set s. \<not> isspace c \<Longrightarrow> strip s = s"
  by (simp add: strip_def dropWhile_none)

lemma split_on_append_dot:
  "split_on sep (xs @ sep # ys) = split_on sep xs @ split_on sep ys"
  by (induction xs) (auto split: list.splits)

lemma set_split_on: "c \<in> set s \<Longrightarrow> c \<noteq> sep \<Longrightarrow> \<exists>t\<in>set (split_on sep s). c \<in> set t"
  by (induction s) (fastforce split: list.splits)+

lemma publishable_tokens:
  assumes s: "s \<noteq> []"
    and plain: "\<And>t. t \<in> set (split_on CHR ''.'' s) \<Longrightarrow> t \<noteq> [] \<and> (\<forall>c\<in>set t. plain_char c)"
  shows "validate_publish_subject s = Inr ()"
proof -
  have "\<not> isspace c" if "c \<in> set s" for c
  proof (cases "c = CHR ''.''")
    case True
    then show ?thesis by (simp add: char_class_defs)
  next
    case False
    with set_split_on [OF that] plain show ?thesis by (auto simp: plain_char_def)
  qed
  then have "strip s = s" by (simp add: strip_no_space)
  with s plain show ?thesis
    by (force simp: validate_publish_subject_def subject_tokens_def Let_def plain_char_def)
qed

lemma publishable_prefix_token:
  assumes "dotted_plain p" "t \<noteq> []" "\<forall>c\<in>set t. plain_char c"
  shows "validate_publish_subject (p @ t) = Inr ()"
proof -
  from assms(1) have p: "p = butlast p @ [CHR ''.'']"
    by (metis append_butlast_last_id dotted_plain_def)
  have "CHR ''.'' \<notin> set t" using assms(3) by (auto simp: plain_char_def)
  then have "split_on CHR ''.'' (p @ t) = split_on CHR ''.'' (butlast p) @ [t]"
    by (subst p) (simp add: split_on_append_dot split_on_no_sep)
  with assms show ?thesis
    by (intro publishable_tokens) (auto simp: dotted_plain_def)
qed

lemma subject_for_publishable:
  "subject_for p s = Inr x \<Longrightarrow> dotted_plain p \<Longrightarrow> validate_publish_subject x = Inr ()"
  by (auto simp: subject_for_def intro!: publishable_prefix_token dest: symbol_token_plain)

lemma marketbot_matches: "subject_matches ''marketbot.v1.>'' (''marketbot.v1.'' @ x)"
proof -
  have eq: "''marketbot.v1.'' @ x = ''marketbot'' @ CHR ''.'' # (''v1'' @ CHR ''.'' # x)" by simp
  have m: "CHR ''.'' \<notin> set ''marketbot''" and v: "CHR ''.'' \<notin> set ''v1''" by simp_all
  have "split_on CHR ''.'' (''marketbot.v1.'' @ x) = ''marketbot'' # ''v1'' # split_on CHR ''.'' x"
    unfolding eq split_on_append_sep [OF m] split_on_append_sep [OF v] ..
  then show ?thesis by (simp add: subject_matches_def Let_def)
qed

lemma subject_for_matches:
  assumes "subject_for p s = Inr x" "take 13 p = ''marketbot.v1.''"
  shows "subject_matches ''marketbot.v1.>'' x"
proof -
  obtain t where x: "x = p @ t" using assms(1) by (auto simp: subject_for_def)
  have "p = ''marketbot.v1.'' @ drop 13 p" using append_take_drop_id [of 13 p] assms(2) by simp
  then have "x = ''marketbot.v1.'' @ (drop 13 p @ t)" using x by (metis append.assoc)
  then show ?thesis by (simp only: marketbot_matches)
qed

lemma dotted_plain_value:
  assumes "dotted_plain p" "v \<noteq> []" "\<forall>c\<in>set v. plain_char c"
  shows "dotted_plain (p @ v @ ''.'')"
proof -
  from assms(1) have p: "p = butlast p @ [CHR ''.'']"
    by (metis append_butlast_last_id dotted_plain_def)
  have "CHR ''.'' \<notin> set v" using assms(3) by (auto simp: plain_char_def)
  then have "split_on CHR ''.'' (p @ v) = split_on CHR ''.'' (butlast p) @ [v]"
    by (subst p) (simp add: split_on_append_dot split_on_no_sep)
  with assms show ?thesis by (auto simp: dotted_plain_def butlast_append)
qed

lemmas plain_eval = dotted_plain_def plain_char_def isspace_def code_def

definition plain_token :: "string \<Rightarrow> bool" where
  "plain_token t \<longleftrightarrow> t \<noteq> [] \<and> (\<forall>c\<in>set t. plain_char c)"

definition routable_prefix :: "string \<Rightarrow> bool" where
  "routable_prefix p \<longleftrightarrow> dotted_plain p \<and> take 13 p = ''marketbot.v1.''"

lemma routable_value: "routable_prefix p \<Longrightarrow> plain_token v \<Longrightarrow> routable_prefix (p @ v @ ''.'')"
proof -
  assume p: "routable_prefix p" and v: "plain_token v"
  then have "take 13 (p @ v @ ''.'') = take 13 p"
    using arg_cong [of "take 13 p" _ length] by (fastforce simp: routable_prefix_def min_def split: if_splits)
  with p v dotted_plain_value show ?thesis by (simp add: routable_prefix_def plain_token_def)
qed

lemma bar_timeframe_value_plain: "plain_token (bar_timeframe_value tf)"
  by (cases tf) (simp_all add: plain_token_def plain_eval)

lemma analysis_horizon_value_plain: "plain_token (analysis_horizon_value h)"
  by (cases h) (simp_all add: plain_token_def plain_eval)

lemma alert_severity_value_plain: "plain_token (alert_severity_value sev)"
  by (cases sev) (simp_all add: plain_token_def plain_eval)

lemma entry_watch_status_value_plain: "plain_token (entry_watch_status_value ws)"
  by (cases ws) (simp_all add: plain_token_def plain_eval)

lemma entry_opportunity_status_value_plain: "plain_token (entry_opportunity_status_value os)"
  by (cases os) (simp_all add: plain_token_def plain_eval)

lemma signal_family_value_plain: "plain_token (signal_family_value f)"
  by (cases f) (simp_all add: plain_token_def plain_eval)

lemma swing_trade_maturity_value_plain: "plain_token (swing_trade_maturity_value m)"
  by (cases m) (simp_all add: plain_token_def plain_eval)

lemma swing_trade_value_plain:
  "plain_token (case m of None \<Rightarrow> ''NO_THESIS'' | Some m \<Rightarrow> swing_trade_maturity_value m)"
  using swing_trade_maturity_value_plain
  by (cases m) (simp_all add: plain_token_def plain_eval)

lemma routable_prefixes:
  "routable_prefix ''marketbot.v1.market.bar.''"
  "routable_prefix ''marketbot.v1.analysis.result.''"
  "routable_prefix ''marketbot.v1.alert.local.''"
  "routable_prefix ''marketbot.v1.service.health.''"
  "routable_prefix ''marketbot.v1.entry-watch.transition.''"
  "routable_prefix ''marketbot.v1.entry-opportunity.transition.''"
  "routable_prefix ''marketbot.v1.entry-signal.''"
  "routable_prefix ''marketbot.v1.entry-setup.''"
  "routable_prefix ''marketbot.v1.patreon-caps.assessment.''"
  "routable_prefix ''marketbot.v1.elliott-wave.assessment.''"
  "routable_prefix ''marketbot.v1.support-confirmation.assessment.''"
  "routable_prefix ''marketbot.v1.4hgeri.assessment.''"
  "routable_prefix ''marketbot.v1.swing-trade.assessment.''"
  "routable_prefix ''marketbot.v1.swing-trade.transition.''"
  "routable_prefix ''marketbot.v1.options-gamma.assessment.''"
  "routable_prefix ''marketbot.v1.leveraged-thesis.assessment.''"
  "routable_prefix ''marketbot.v1.signal-fusion.assessment.''"
  "routable_prefix ''marketbot.v1.signal-fusion.buy-confirmed.''"
  "routable_prefix ''marketbot.v1.signal-fusion.recovery-confirmed.''"
  by (simp_all add: routable_prefix_def plain_eval)

lemmas plain_values =
  bar_timeframe_value_plain analysis_horizon_value_plain alert_severity_value_plain
  entry_watch_status_value_plain entry_opportunity_status_value_plain signal_family_value_plain
  swing_trade_value_plain

lemma built_subject_cases:
  assumes "built_subject x"
  obtains (universe) "x = universe_changed_subject"
    | (token) p t where "x = p @ t" "routable_prefix p" "plain_token t"
proof -
  have sym: thesis if "subject_for p s = Inr x" "routable_prefix p" for p s
    using that symbol_token_plain token by (auto simp: subject_for_def plain_token_def)
  note facts = routable_prefixes plain_values routable_value
  from assms show thesis
  proof cases
    case (4 s)
    then obtain t where t: "service_token s = Inr t"
      and x: "''marketbot.v1.service.health.'' @ t = x"
      unfolding service_health_subject_def by (cases "service_token s") simp_all
    from service_token_plain [OF t] have "plain_token t" by (simp add: plain_token_def)
    then show ?thesis by (rule token [OF x [symmetric] routable_prefixes(4)])
  next
    case 5
    then show ?thesis by (rule universe)
  qed (unfold symbol_subject_defs Let_def, (erule sym, intro facts)+)
qed

lemma built_subject_ok:
  assumes "built_subject x"
  shows "validate_publish_subject x = Inr () \<and> subject_matches ''marketbot.v1.>'' x"
  using assms
proof (cases rule: built_subject_cases)
  case universe
  then show ?thesis by (simp add: universe_changed_subject_def) code_simp
next
  case (token p t)
  then have "p = ''marketbot.v1.'' @ drop 13 p"
    using append_take_drop_id [of 13 p] by (simp add: routable_prefix_def)
  with token(1) have "x = ''marketbot.v1.'' @ (drop 13 p @ t)" by (metis append.assoc)
  then have "subject_matches ''marketbot.v1.>'' x" by (simp only: marketbot_matches)
  with token show ?thesis
    by (simp add: publishable_prefix_token routable_prefix_def plain_token_def)
qed

section \<open>Properties\<close>

text \<open>C8: On a pattern the subscription validator accepts, the index loop of \<open>subject_matches\<close>
  decides exactly the NATS wildcard relation on dot-separated tokens.\<close>

theorem subject_matches_is_nats:
  "validate_subscription_subject p = Inr () \<Longrightarrow>
   subject_matches p s = nats_match (split_on CHR ''.'' p) (split_on CHR ''.'' s)"
  using match_loop_nats [OF validate_subscription_tail, of p 0 "split_on CHR ''.'' s"]
  by (simp add: subject_matches_def Let_def)

theorem subject_matches_is_nats_witness:
  "subject_matches ''a.*.>'' ''a.b.c.d'' \<and>
   nats_match (split_on CHR ''.'' ''a.*.>'') (split_on CHR ''.'' ''a.b.c.d'')"
proof -
  have v: "validate_subscription_subject ''a.*.>'' = Inr ()" by code_simp
  have "subject_matches ''a.*.>'' ''a.b.c.d''" by code_simp
  then show ?thesis using subject_matches_is_nats [OF v] by blast
qed

text \<open>Every subject a builder returns passes the publish validation of the bus and is routed
  to the \<open>marketbot.v1.>\<close> subscription, whatever the symbol or service text was.\<close>

theorem built_subjects_routable:
  assumes "built_subject x"
  shows "validate_publish_subject x = Inr () \<and> subject_matches ''marketbot.v1.>'' x"
  using assms by (rule built_subject_ok)

theorem built_subjects_routable_witness:
  "validate_publish_subject ''marketbot.v1.analysis.result.SWING.BRK_B'' = Inr ()"
proof -
  have "analysis_result_subject AH_SWING '' brk.b '' = Inr ''marketbot.v1.analysis.result.SWING.BRK_B''"
    by code_simp
  then have "built_subject ''marketbot.v1.analysis.result.SWING.BRK_B''"
    by (rule built_subject.intros)
  then show ?thesis using built_subjects_routable by blast
qed

text \<open>The symbol token loses nothing: two tickers with the same token are the same ticker up
  to surrounding whitespace and letter case (the dot-to-underscore rewriting cannot collide, since
  an underscore is refused).\<close>

theorem symbol_token_injective:
  assumes "symbol_token a = Inr t" "symbol_token b = Inr t"
  shows "norm_symbol a = norm_symbol b"
proof -
  let ?f = "\<lambda>c. if c = CHR ''.'' then CHR ''_'' else c"
  have inv: "t = map ?f (norm_symbol s) \<and> CHR ''_'' \<notin> set (norm_symbol s)"
    if "symbol_token s = Inr t" for s
  proof -
    let ?n = "upper (strip s)"
    have "t = map ?f ?n" "\<forall>c\<in>set ?n. isalnum c \<or> c \<in> set ''.-''"
      using that unfolding symbol_token_def Let_def by (auto split: if_splits)
    moreover have "\<not> (isalnum CHR ''_'' \<or> CHR ''_'' \<in> set ''.-'')" by code_simp
    ultimately show ?thesis unfolding norm_symbol_def by blast
  qed
  note a = inv [OF assms(1)] and b = inv [OF assms(2)]
  from a b have "map ?f (norm_symbol a) = map ?f (norm_symbol b)" by simp
  then show ?thesis
  proof (rule list.inj_map_strong [rotated])
    fix c d
    assume "c \<in> set (norm_symbol a)" "d \<in> set (norm_symbol b)" "?f c = ?f d"
    with a b show "c = d" by (metis (full_types))
  qed
qed

theorem symbol_token_injective_witness:
  "symbol_token '' brk.b'' = symbol_token ''BRK.B '' \<and> norm_symbol '' brk.b'' = norm_symbol ''BRK.B ''"
proof -
  have a: "symbol_token '' brk.b'' = Inr ''BRK_B''" by code_simp
  have b: "symbol_token ''BRK.B '' = Inr ''BRK_B''" by code_simp
  from a b symbol_token_injective [OF a b] show ?thesis by argo
qed

end
