(* ===== verification/Identifiers.thy ===== *)
theory Identifiers
  imports Prelude
begin

unbundle bit_operations_syntax

text \<open>
  Identities at the contract boundary (app/contracts/_base.py and app/common/ids.py): UUIDv7
  construction by shifting and or-ing, the version read back by \<open>uuid.UUID.version\<close>, prefixed
  identifiers, and the constrained string types of the contracts.
\<close>

section \<open>UUIDv7\<close>

type_synonym uuid = int

text \<open>\<open>UUID.version\<close>: the version nibble, defined only for the RFC 4122 variant.\<close>

definition uuid_version :: "uuid \<Rightarrow> int option" where
  "uuid_version u =
     (if u AND push_bit 63 1 \<noteq> 0 \<and> u AND push_bit 62 1 = 0
      then Some (drop_bit 76 u AND 15) else None)"

definition is_uuid7 :: "uuid \<Rightarrow> bool" where "is_uuid7 u \<longleftrightarrow> uuid_version u = Some 7"

text \<open>
  \<open>new_uuid7\<close> of the contracts: \<open>time_ns\<close> is what \<open>time.time_ns()\<close> returns and \<open>random_bits\<close>
  what \<open>secrets.randbits(74)\<close> returns.
\<close>

definition contract_uuid7 :: "int \<Rightarrow> int \<Rightarrow> uuid" where
  "contract_uuid7 time_ns random_bits =
     (let timestamp_ms = (time_ns div 1000000) AND (push_bit 48 1 - 1);
          value1 = push_bit 80 timestamp_ms;
          value2 = value1 OR push_bit 76 7;
          value3 = value2 OR push_bit 64 (drop_bit 62 random_bits AND 4095);
          value4 = value3 OR push_bit 62 2
      in value4 OR (random_bits AND (push_bit 62 1 - 1)))"

text \<open>
  \<open>new_uuid7\<close> of app/common/ids.py, with an injected clock and random source: \<open>timestamp_ms\<close> is
  the integer \<open>int(clock.now().timestamp() * 1000)\<close>, \<open>random_bits\<close> the value \<open>randbits(74)\<close>.
\<close>

definition new_uuid7 :: "int \<Rightarrow> int \<Rightarrow> uuid result" where
  "new_uuid7 timestamp_ms random_bits =
     (if \<not> (0 \<le> timestamp_ms \<and> timestamp_ms < push_bit 48 1)
      then Inl (ValueError ''UUIDv7 timestamp must fit in 48 bits'')
      else if \<not> (0 \<le> random_bits \<and> random_bits < push_bit 74 1)
      then Inl (ValueError ''randbits(74) returned a value outside the 74-bit range'')
      else let random_a = drop_bit 62 random_bits;
               random_b = random_bits AND (push_bit 62 1 - 1)
        in Inr ((((push_bit 80 timestamp_ms OR push_bit 76 7) OR push_bit 64 random_a)
                 OR push_bit 62 2) OR random_b))"

lemma or_shifted:
  fixes a b :: int
  assumes "0 \<le> b" "b < 2 ^ n"
  shows "push_bit n a OR b = a * 2 ^ n + b"
proof -
  have "take_bit n b = b" using assms by (simp add: take_bit_int_eq_self)
  then have "push_bit n a OR b = concat_bit n b a"
    by (simp add: concat_bit_def or.commute)
  also have "\<dots> = a * 2 ^ n + b"
    using \<open>take_bit n b = b\<close> by (simp add: concat_bit_eq push_bit_eq_mult)
  finally show ?thesis .
qed

definition pack7 :: "int \<Rightarrow> int \<Rightarrow> int \<Rightarrow> int" where
  "pack7 ts ra rb = ts * 2 ^ 80 + 7 * 2 ^ 76 + ra * 2 ^ 64 + 2 * 2 ^ 62 + rb"

lemma pack7_or:
  assumes ra: "0 \<le> ra" "ra < 2 ^ 12" and rb: "0 \<le> rb" "rb < 2 ^ 62"
  shows "(((push_bit 80 ts OR push_bit 76 7) OR push_bit 64 ra) OR push_bit 62 2) OR rb = pack7 ts ra rb"
proof -
  have 1: "push_bit 80 ts OR push_bit 76 7 = push_bit 76 (ts * 16 + 7)"
    using or_shifted [of "push_bit 76 7" 80 ts] by (simp add: push_bit_eq_mult)
  have 2: "push_bit 76 (ts * 16 + 7) OR push_bit 64 ra = push_bit 64 ((ts * 16 + 7) * 2 ^ 12 + ra)"
    using or_shifted [of "push_bit 64 ra" 76 "ts * 16 + 7"] ra by (simp add: push_bit_eq_mult)
  have 3: "push_bit 64 ((ts * 16 + 7) * 2 ^ 12 + ra) OR push_bit 62 2
      = push_bit 62 (((ts * 16 + 7) * 2 ^ 12 + ra) * 4 + 2)"
    using or_shifted [of "push_bit 62 2" 64 "(ts * 16 + 7) * 2 ^ 12 + ra"]
    by (simp add: push_bit_eq_mult)
  have 4: "push_bit 62 (((ts * 16 + 7) * 2 ^ 12 + ra) * 4 + 2) OR rb = pack7 ts ra rb"
    using or_shifted [OF rb, of "((ts * 16 + 7) * 2 ^ 12 + ra) * 4 + 2"] by (simp add: pack7_def)
  show ?thesis by (simp only: 1 2 3 4)
qed

lemma random_split:
  fixes r :: int
  shows "r AND (push_bit 62 1 - 1) = r mod 2 ^ 62" and "drop_bit 62 r = r div 2 ^ 62"
  using and_int_unfold [of r] take_bit_eq_mask [of 62 r] take_bit_eq_mod [of 62 r]
  by (simp_all add: mask_eq_exp_minus_1 push_bit_eq_mult drop_bit_eq_div)

lemma and_low:
  fixes r :: int
  shows "r AND 4095 = r mod 2 ^ 12" "r AND 15 = r mod 16" "r AND (push_bit 48 1 - 1) = r mod 2 ^ 48"
  using take_bit_eq_mask [of 12 r] take_bit_eq_mask [of 4 r] take_bit_eq_mask [of 48 r]
  by (simp_all add: mask_eq_exp_minus_1 push_bit_eq_mult take_bit_eq_mod)

lemma single_bit:
  fixes u :: int
  shows "u AND push_bit n 1 \<noteq> 0 \<longleftrightarrow> odd (u div 2 ^ n)"
  using and_exp_eq_0_iff_not_bit [of u n] by (simp add: push_bit_eq_mult bit_iff_odd)

lemma pack7_fields:
  assumes "0 \<le> ra" "ra < 2 ^ 12" "0 \<le> rb" "rb < 2 ^ 62"
  shows "pack7 ts ra rb div 2 ^ 62 = ((ts * 16 + 7) * 2 ^ 12 + ra) * 4 + 2"
    and "pack7 ts ra rb mod 2 ^ 62 = rb"
    and "pack7 ts ra rb div 2 ^ 64 mod 2 ^ 12 = ra"
    and "pack7 ts ra rb div 2 ^ 80 = ts"
proof -
  let ?u = "pack7 ts ra rb"
  have h: "?u = rb + (((ts * 16 + 7) * 2 ^ 12 + ra) * 4 + 2) * 2 ^ 62" by (simp add: pack7_def)
  show d: "?u div 2 ^ 62 = ((ts * 16 + 7) * 2 ^ 12 + ra) * 4 + 2"
    unfolding h using assms by (subst div_mult_self1) simp_all
  show "?u mod 2 ^ 62 = rb"
    unfolding h using assms by (subst mod_mult_self1) simp_all
  have "?u div 2 ^ 64 = (?u div 2 ^ 62) div 4" by (simp add: zdiv_zmult2_eq [symmetric])
  then have e: "?u div 2 ^ 64 = (ts * 16 + 7) * 2 ^ 12 + ra" unfolding d by simp
  have "((ts * 16 + 7) * 2 ^ 12 + ra) mod 2 ^ 12 = ra mod 2 ^ 12" by (rule mod_mult_self3)
  then show "?u div 2 ^ 64 mod 2 ^ 12 = ra" unfolding e using assms by simp
  have "?u div 2 ^ 80 = (?u div 2 ^ 64) div 2 ^ 16" by (simp add: zdiv_zmult2_eq [symmetric])
  then show "?u div 2 ^ 80 = ts" unfolding e using assms by simp
qed

lemma uuid_version_pack7:
  assumes "0 \<le> ra" "ra < 2 ^ 12" "0 \<le> rb" "rb < 2 ^ 62"
  shows "uuid_version (pack7 ts ra rb) = Some 7"
proof -
  let ?u = "pack7 ts ra rb"
  have "?u div 2 ^ 62 = ((ts * 16 + 7) * 2 ^ 12 + ra) * 4 + 2"
    using assms by (rule pack7_fields)
  moreover have "?u div 2 ^ 63 = (?u div 2 ^ 62) div 2" by (simp add: zdiv_zmult2_eq [symmetric])
  moreover have "?u div 2 ^ 76 = (?u div 2 ^ 62) div 2 ^ 14" by (simp add: zdiv_zmult2_eq [symmetric])
  ultimately have "odd (?u div 2 ^ 63)" "even (?u div 2 ^ 62)" "?u div 2 ^ 76 = ts * 16 + 7"
    using assms by simp_all
  then show ?thesis
    using single_bit [of ?u 63] single_bit [of ?u 62]
    by (simp add: uuid_version_def and_low drop_bit_eq_div)
qed

lemma contract_uuid7_pack:
  "contract_uuid7 t r = pack7 ((t div 1000000) mod 2 ^ 48) ((r div 2 ^ 62) mod 2 ^ 12) (r mod 2 ^ 62)"
  unfolding contract_uuid7_def Let_def random_split and_low by (rule pack7_or) simp_all

lemma new_uuid7_pack:
  assumes "new_uuid7 ts r = Inr u"
  shows "u = pack7 ts (r div 2 ^ 62) (r mod 2 ^ 62) \<and> 0 \<le> ts \<and> ts < 2 ^ 48 \<and> 0 \<le> r \<and> r < 2 ^ 74"
proof -
  have b: "0 \<le> ts" "ts < 2 ^ 48" "0 \<le> r" "r < 2 ^ 74"
    using assms by (auto simp: new_uuid7_def push_bit_eq_mult split: if_splits)
  then have "0 \<le> r div 2 ^ 62" "r div 2 ^ 62 < 2 ^ 12" by simp_all
  then have "(((push_bit 80 ts OR push_bit 76 7) OR push_bit 64 (r div 2 ^ 62)) OR push_bit 62 2)
      OR (r mod 2 ^ 62) = pack7 ts (r div 2 ^ 62) (r mod 2 ^ 62)"
    by (intro pack7_or) simp_all
  then have "new_uuid7 ts r = Inr (pack7 ts (r div 2 ^ 62) (r mod 2 ^ 62)) \<or> \<not> is_ok (new_uuid7 ts r)"
    unfolding new_uuid7_def Let_def random_split by (auto simp only: is_ok_simps split: if_splits)
  with assms b show ?thesis by simp
qed

text \<open>\<open>new_id\<close>: the prefix pattern and the composed identifier (\<open>str(uuid)\<close> is a parameter).\<close>

definition valid_prefix :: "string \<Rightarrow> bool" where
  "valid_prefix p \<longleftrightarrow> 2 \<le> length p \<and> length p \<le> 32 \<and> islower (hd p)
     \<and> (\<forall>c\<in>set p. islower c \<or> isdigit c)"

definition new_id :: "(uuid \<Rightarrow> string) \<Rightarrow> string \<Rightarrow> int \<Rightarrow> int \<Rightarrow> string result" where
  "new_id uuid_str prefix timestamp_ms random_bits =
     (if \<not> valid_prefix prefix
      then Inl (ValueError ''ID prefix must be 2-32 lowercase alphanumeric characters, starting with a letter'')
      else bind_result (new_uuid7 timestamp_ms random_bits)
             (\<lambda>u. Inr (prefix @ ''_'' @ uuid_str u)))"

section \<open>Constrained strings of the contracts\<close>

definition identifier_str :: "string \<Rightarrow> bool" where
  "identifier_str s \<longleftrightarrow> s \<noteq> [] \<and> length s \<le> 128 \<and> isalnum (hd s)
     \<and> (\<forall>c\<in>set (tl s). isalnum c \<or> c \<in> set ''._:/-'')"

definition numeric_part :: "string \<Rightarrow> bool" where
  "numeric_part s \<longleftrightarrow> s \<noteq> [] \<and> (\<forall>c\<in>set s. isdigit c) \<and> (hd s = CHR ''0'' \<longrightarrow> s = ''0'')"

definition semver :: "string \<Rightarrow> bool" where
  "semver s =
     (let core = takeWhile (\<lambda>c. c \<noteq> CHR ''-'') s; suffix = dropWhile (\<lambda>c. c \<noteq> CHR ''-'') s;
          parts = split_on CHR ''.'' core
      in length parts = 3 \<and> (\<forall>p\<in>set parts. numeric_part p)
         \<and> (suffix = [] \<or> (tl suffix \<noteq> [] \<and> (\<forall>c\<in>set (tl suffix). isalnum c \<or> c \<in> set ''.-''))))"

definition sha256_ref :: "string \<Rightarrow> bool" where
  "sha256_ref s \<longleftrightarrow> take 7 s = ''sha256:'' \<and> length s = 71
     \<and> (\<forall>c\<in>set (drop 7 s). isdigit c \<or> (97 \<le> code c \<and> code c \<le> 102))"

text \<open>\<open>NonEmptyStr\<close> strips first; a text of whitespace only is refused.\<close>

definition non_empty_str :: "string \<Rightarrow> bool" where "non_empty_str s \<longleftrightarrow> strip s \<noteq> []"

definition opt_all :: "('a \<Rightarrow> bool) \<Rightarrow> 'a option \<Rightarrow> bool" where
  "opt_all P x = (case x of None \<Rightarrow> True | Some y \<Rightarrow> P y)"

lemma opt_all_simps [simp]: "opt_all P None" "opt_all P (Some y) = P y"
  by (simp_all add: opt_all_def)

section \<open>Properties\<close>

text \<open>Both UUIDv7 constructors return a version-7, RFC 4122 identifier of 128 bits, and the
  injectable one keeps the millisecond timestamp and all 74 random bits recoverable.\<close>

theorem uuid7_well_formed:
  "is_uuid7 (contract_uuid7 t r0) \<and>
   (\<forall>u. new_uuid7 ts r = Inr u \<longrightarrow>
      is_uuid7 u \<and> 0 \<le> u \<and> u < 2 ^ 128 \<and> u div 2 ^ 80 = ts \<and>
      (u div 2 ^ 64 mod 2 ^ 12) * 2 ^ 62 + u mod 2 ^ 62 = r)"
proof -
  have "is_uuid7 u \<and> 0 \<le> u \<and> u < 2 ^ 128 \<and> u div 2 ^ 80 = ts \<and>
      (u div 2 ^ 64 mod 2 ^ 12) * 2 ^ 62 + u mod 2 ^ 62 = r" if "new_uuid7 ts r = Inr u" for u
  proof -
    from new_uuid7_pack [OF that]
    have u: "u = pack7 ts (r div 2 ^ 62) (r mod 2 ^ 62)"
      and b: "0 \<le> ts" "ts < 2 ^ 48" "0 \<le> r" "r < 2 ^ 74" by auto
    have ra: "0 \<le> r div 2 ^ 62" "r div 2 ^ 62 < 2 ^ 12" using b by simp_all
    have rb: "0 \<le> r mod 2 ^ 62" "r mod 2 ^ 62 < 2 ^ 62" by simp_all
    have "0 \<le> u" "u < 2 ^ 128" using b ra rb unfolding u pack7_def by simp_all
    moreover have "is_uuid7 u" using uuid_version_pack7 [OF ra rb] by (simp add: is_uuid7_def u)
    moreover have "u div 2 ^ 80 = ts" using pack7_fields(4) [OF ra rb] by (simp add: u)
    moreover have "(u div 2 ^ 64 mod 2 ^ 12) * 2 ^ 62 + u mod 2 ^ 62 = r"
      unfolding u pack7_fields(2,3) [OF ra rb] by simp
    ultimately show ?thesis by blast
  qed
  then show ?thesis
    using uuid_version_pack7 by (simp add: contract_uuid7_pack is_uuid7_def)
qed

theorem uuid7_well_formed_witness:
  "is_uuid7 (contract_uuid7 0 0) \<and>
   (\<exists>u. new_uuid7 1000 5 = Inr u \<and> is_uuid7 u \<and> u div 2 ^ 80 = 1000 \<and> u mod 2 ^ 62 = 5)"
proof -
  obtain u where u: "new_uuid7 1000 5 = Inr u" by (simp add: new_uuid7_def)
  from uuid7_well_formed [of 0 0 1000 5] u
  have w: "is_uuid7 (contract_uuid7 0 0)" "is_uuid7 u" "u div 2 ^ 80 = 1000" by blast+
  have "u mod 2 ^ 62 = 5" using new_uuid7_pack [OF u] pack7_fields(2) [of 0 5 1000] by simp
  with w u show ?thesis by blast
qed

text \<open>Identifiers sort by creation time: a later millisecond gives a larger UUID, whatever the
  random bits are.\<close>

theorem uuid7_time_ordered:
  assumes "new_uuid7 t r = Inr u" "new_uuid7 t' r' = Inr u'" "t < t'"
  shows "u < u'"
proof -
  have bound: "ts * 2 ^ 80 \<le> pack7 ts (x div 2 ^ 62) (x mod 2 ^ 62)"
    "pack7 ts (x div 2 ^ 62) (x mod 2 ^ 62) < (ts + 1) * 2 ^ 80"
    if "0 \<le> x" "x < 2 ^ 74" for ts x :: int
  proof -
    have "0 \<le> x div 2 ^ 62" "x div 2 ^ 62 < 2 ^ 12" "0 \<le> x mod 2 ^ 62" "x mod 2 ^ 62 < 2 ^ 62"
      using that by simp_all
    then show "ts * 2 ^ 80 \<le> pack7 ts (x div 2 ^ 62) (x mod 2 ^ 62)"
      "pack7 ts (x div 2 ^ 62) (x mod 2 ^ 62) < (ts + 1) * 2 ^ 80"
      unfolding pack7_def by simp_all
  qed
  from new_uuid7_pack [OF assms(1)] have "u < (t + 1) * 2 ^ 80" using bound(2) [of r t] by simp
  also have "\<dots> \<le> t' * 2 ^ 80" using assms(3) by simp
  also have "\<dots> \<le> u'" using new_uuid7_pack [OF assms(2)] bound(1) [of r' t'] by simp
  finally show ?thesis .
qed

theorem uuid7_time_ordered_witness:
  "\<exists>u u'. new_uuid7 1000 5 = Inr u \<and> new_uuid7 1001 0 = Inr u' \<and> u < u'"
proof -
  obtain u u' where u: "new_uuid7 1000 5 = Inr u" and u': "new_uuid7 1001 0 = Inr u'"
    by (simp add: new_uuid7_def)
  then have "u < u'" by (rule uuid7_time_ordered) simp
  with u u' show ?thesis by blast
qed

end
