(* ===== verification/Decimals.thy ===== *)
theory Decimals
  imports Prelude
begin

text \<open>
  \<open>decimal.Decimal\<close> in the interpreter's default context: precision 28, rounding half to even.
  A finite decimal is its rational value. An arithmetic operator computes the exact result and
  rounds it to 28 significant digits (\<open>ctx\<close>); comparisons and \<open>max\<close>/\<open>min\<close> are exact.
  \<open>quantize\<close> rounds to a fixed number of places, half away from zero, and signals
  \<open>InvalidOperation\<close> when the coefficient does not fit the precision. NaN, infinities, signed
  zeros and the exponent limits of the context (about 10 to the 999999) are outside the model.
\<close>

section \<open>Digits and exponents\<close>

fun ndigits :: "nat \<Rightarrow> nat" where
  "ndigits n = (if n < 10 then 1 else Suc (ndigits (n div 10)))"

declare ndigits.simps [simp del]

lemma ndigits_pos: "0 < ndigits n"
  by (subst ndigits.simps) simp

lemma ndigits_upper: "n < 10 ^ ndigits n"
proof (induction n rule: ndigits.induct)
  case (1 n)
  show ?case
  proof (cases "n < 10")
    case True
    then show ?thesis by (simp add: ndigits.simps [of n])
  next
    case False
    with 1 have "n div 10 < 10 ^ ndigits (n div 10)" by simp
    then have "n < 10 * 10 ^ ndigits (n div 10)" by (simp add: div_less_iff_less_mult mult.commute)
    with False show ?thesis by (simp add: ndigits.simps [of n])
  qed
qed

lemma ndigits_lower: "0 < n \<Longrightarrow> 10 ^ (ndigits n - 1) \<le> n"
proof (induction n rule: ndigits.induct)
  case (1 n)
  show ?case
  proof (cases "n < 10")
    case True
    with 1 show ?thesis by (simp add: ndigits.simps [of n])
  next
    case False
    with 1 have "10 ^ (ndigits (n div 10) - 1) \<le> n div 10" by simp
    then have "10 * 10 ^ (ndigits (n div 10) - 1) \<le> 10 * (n div 10)" by simp
    also have "\<dots> \<le> n" by simp
    finally have "10 ^ Suc (ndigits (n div 10) - 1) \<le> n" by simp
    with ndigits_pos [of "n div 10"] False show ?thesis by (simp add: ndigits.simps [of n])
  qed
qed

definition p10 :: "int \<Rightarrow> rat" where
  "p10 e = (if 0 \<le> e then 10 ^ nat e else 1 / 10 ^ nat (- e))"

lemma p10_powi: "p10 e = 10 powi e"
  by (simp add: p10_def power_int_def inverse_eq_divide power_one_over)

lemma p10_pos [simp]: "0 < p10 e"
  by (simp add: p10_def)

lemma p10_add: "p10 (a + b) = p10 a * p10 b"
  by (simp add: p10_powi power_int_add)

lemma p10_diff: "p10 (a - b) = p10 a / p10 b"
  by (simp add: p10_powi power_int_diff)

lemma p10_of_nat: "p10 (int n) = 10 ^ n"
  by (simp add: p10_def)

lemma p10_27: "p10 (a + 27) = 10 ^ 27 * p10 a" "p10 (a + 28) = 10 ^ 28 * p10 a"
proof -
  have "p10 27 = 10 ^ 27" "p10 28 = 10 ^ 28" by (simp_all add: p10_def)
  then show "p10 (a + 27) = 10 ^ 27 * p10 a" "p10 (a + 28) = 10 ^ 28 * p10 a"
    by (simp_all only: p10_add mult.commute)
qed

lemma p10_mono: "a \<le> b \<Longrightarrow> p10 a \<le> p10 b"
  by (simp add: p10_powi power_int_increasing)

text \<open>The adjusted exponent of a nonzero decimal: the power of ten of its leading digit.\<close>

definition adjusted :: "rat \<Rightarrow> int" where
  "adjusted x =
     (case quotient_of \<bar>x\<bar> of (n, d) \<Rightarrow>
        let k = int (ndigits (nat n)) - int (ndigits (nat d))
        in if p10 k \<le> \<bar>x\<bar> then k else k - 1)"

lemma adjusted_bounds:
  assumes "x \<noteq> 0"
  shows "p10 (adjusted x) \<le> \<bar>x\<bar>" and "\<bar>x\<bar> < p10 (adjusted x + 1)"
proof -
  obtain n d where nd: "quotient_of \<bar>x\<bar> = (n, d)" by fastforce
  then have d: "0 < d" by (rule quotient_of_denom_pos)
  have x: "\<bar>x\<bar> = of_int n / of_int d" using nd by (rule quotient_of_div)
  with d assms have n: "0 < n"
    by (metis abs_le_zero_iff divide_nonpos_pos linorder_not_less of_int_0_less_iff of_int_le_0_iff)
  define a where "a = ndigits (nat n)"
  define b where "b = ndigits (nat d)"
  define k where "k = int a - int b"
  have ab: "0 < a" "0 < b" by (simp_all add: a_def b_def ndigits_pos)
  have nb: "(10::rat) ^ (a - 1) \<le> of_int n" "of_int n < (10::rat) ^ a"
  proof -
    have "10 ^ (a - 1) \<le> nat n" "nat n < 10 ^ a"
      using ndigits_lower [of "nat n"] ndigits_upper [of "nat n"] n by (simp_all add: a_def)
    then have "rat_of_nat (10 ^ (a - 1)) \<le> of_nat (nat n)" "rat_of_nat (nat n) < of_nat (10 ^ a)"
      by (simp_all only: of_nat_le_iff of_nat_less_iff)
    with n show "(10::rat) ^ (a - 1) \<le> of_int n" "of_int n < (10::rat) ^ a" by simp_all
  qed
  have db: "(10::rat) ^ (b - 1) \<le> of_int d" "of_int d < (10::rat) ^ b"
  proof -
    have "10 ^ (b - 1) \<le> nat d" "nat d < 10 ^ b"
      using ndigits_lower [of "nat d"] ndigits_upper [of "nat d"] d by (simp_all add: b_def)
    then have "rat_of_nat (10 ^ (b - 1)) \<le> of_nat (nat d)" "rat_of_nat (nat d) < of_nat (10 ^ b)"
      by (simp_all only: of_nat_le_iff of_nat_less_iff)
    with d show "(10::rat) ^ (b - 1) \<le> of_int d" "of_int d < (10::rat) ^ b" by simp_all
  qed
  have up: "\<bar>x\<bar> < p10 (k + 1)"
  proof -
    have "\<bar>x\<bar> < 10 ^ a / 10 ^ (b - 1)"
      unfolding x using nb db d n by (intro frac_less) simp_all
    also have "\<dots> = p10 (int a - int (b - 1))" by (simp only: p10_diff p10_of_nat)
    also have "int a - int (b - 1) = k + 1" using ab by (simp add: k_def)
    finally show ?thesis .
  qed
  have low: "p10 (k - 1) \<le> \<bar>x\<bar>"
  proof -
    have "k - 1 = int (a - 1) - int b" using ab by (simp add: k_def)
    then have "p10 (k - 1) = 10 ^ (a - 1) / 10 ^ b" by (simp only: p10_diff p10_of_nat)
    also have "\<dots> \<le> \<bar>x\<bar>"
      unfolding x using nb db d n by (intro frac_le) simp_all
    finally show ?thesis .
  qed
  have adj: "adjusted x = (if p10 k \<le> \<bar>x\<bar> then k else k - 1)"
    by (simp add: adjusted_def nd k_def a_def b_def)
  show "p10 (adjusted x) \<le> \<bar>x\<bar>" using adj low by simp
  show "\<bar>x\<bar> < p10 (adjusted x + 1)" using adj up by simp
qed

section \<open>Rounding\<close>

definition round_half_even :: "rat \<Rightarrow> int" where
  "round_half_even x =
     (let f = \<lfloor>x\<rfloor>; r = x - of_int f
      in if r < 1 / 2 then f else if r > 1 / 2 then f + 1 else if even f then f else f + 1)"

definition round_half_up :: "rat \<Rightarrow> int" where
  "round_half_up x = (if 0 \<le> x then \<lfloor>x + 1 / 2\<rfloor> else - \<lfloor>1 / 2 - x\<rfloor>)"

lemma round_half_even_of_int [simp]: "round_half_even (of_int n) = n"
  by (simp add: round_half_even_def)

lemma round_half_even_numeral [simp]: "round_half_even (numeral n) = numeral n"
  using round_half_even_of_int [of "numeral n"] by simp

lemma round_half_even_floor:
  "\<lfloor>x\<rfloor> \<le> round_half_even x" "round_half_even x \<le> \<lfloor>x\<rfloor> + 1"
  by (simp_all add: round_half_even_def Let_def)

lemma round_half_even_mono: "x \<le> y \<Longrightarrow> round_half_even x \<le> round_half_even y"
proof (cases "\<lfloor>x\<rfloor> = \<lfloor>y\<rfloor>")
  case False
  assume "x \<le> y"
  with False have "\<lfloor>x\<rfloor> + 1 \<le> \<lfloor>y\<rfloor>" by (simp add: floor_mono order_le_neq_trans zless_imp_add1_zle)
  then show ?thesis using round_half_even_floor(2) [of x] round_half_even_floor(1) [of y] by simp
qed (auto simp: round_half_even_def Let_def)

text \<open>The context's rounding of an exact result to 28 significant digits.\<close>

definition ctx :: "rat \<Rightarrow> rat" where
  "ctx x = (if x = 0 then 0
            else let e = adjusted x - 27 in of_int (round_half_even (x / p10 e)) * p10 e)"

definition dadd :: "rat \<Rightarrow> rat \<Rightarrow> rat" where "dadd x y = ctx (x + y)"
definition dsub :: "rat \<Rightarrow> rat \<Rightarrow> rat" where "dsub x y = ctx (x - y)"
definition dmul :: "rat \<Rightarrow> rat \<Rightarrow> rat" where "dmul x y = ctx (x * y)"
definition ddiv :: "rat \<Rightarrow> rat \<Rightarrow> rat" where "ddiv x y = ctx (x / y)"

lemmas dec_op_defs = dadd_def dsub_def dmul_def ddiv_def

text \<open>\<open>sum(values, start)\<close>: a left fold, rounding at every step.\<close>

definition dsum :: "rat \<Rightarrow> rat list \<Rightarrow> rat" where "dsum start xs = foldl dadd start xs"

text \<open>\<open>x.quantize(Decimal("1e-k"), rounding=ROUND_HALF_UP)\<close>.\<close>

definition quantize :: "nat \<Rightarrow> rat \<Rightarrow> rat result" where
  "quantize k x =
     (let c = round_half_up (x * 10 ^ k)
      in if \<bar>c\<bar> < 10 ^ 28 then Inr (of_int c / 10 ^ k) else Inl InvalidOperation)"

text \<open>\<open>str(d)\<close> of a decimal quantized to \<open>k\<close> places (\<open>0 < k \<le> 6\<close>: never in exponent form).\<close>

fun digit_string :: "nat \<Rightarrow> string" where
  "digit_string n =
     (if n < 10 then [char_of (48 + n)] else digit_string (n div 10) @ [char_of (48 + n mod 10)])"

declare digit_string.simps [simp del]

definition pad_left :: "nat \<Rightarrow> string \<Rightarrow> string" where
  "pad_left k s = replicate (k - length s) CHR ''0'' @ s"

definition show_fixed :: "nat \<Rightarrow> rat \<Rightarrow> string" where
  "show_fixed k x =
     (let c = nat \<lfloor>\<bar>x\<bar> * 10 ^ k\<rfloor>
      in (if x < 0 then ''-'' else []) @ digit_string (c div 10 ^ k) @ ''.''
         @ pad_left k (digit_string (c mod 10 ^ k)))"

section \<open>Sign and order\<close>

lemma ctx_0 [simp]: "ctx 0 = 0"
  by (simp add: ctx_def)

lemma ctx_eq: "x \<noteq> 0 \<Longrightarrow>
  ctx x = of_int (round_half_even (x / p10 (adjusted x - 27))) * p10 (adjusted x - 27)"
  by (simp add: ctx_def Let_def)

lemma ctx_pos_bounds:
  assumes "0 < x"
  shows "p10 (adjusted x) \<le> ctx x" and "ctx x \<le> p10 (adjusted x + 1)"
proof -
  define e where "e = adjusted x - 27"
  have split: "p10 (adjusted x) = 10 ^ 27 * p10 e" "p10 (adjusted x + 1) = 10 ^ 28 * p10 e"
    using p10_27 [of e] by (simp_all add: e_def add.commute)
  have b: "(10::rat) ^ 27 \<le> x / p10 e" "x / p10 e \<le> (10::rat) ^ 28"
    using adjusted_bounds [of x] assms
    by (simp_all add: split pos_le_divide_eq pos_divide_le_eq del: power_numeral)
  have "10 ^ 27 \<le> round_half_even (x / p10 e)"
    using round_half_even_mono [OF b(1)] round_half_even_of_int [of "10 ^ 27"] by simp
  moreover have "round_half_even (x / p10 e) \<le> 10 ^ 28"
    using round_half_even_mono [OF b(2)] round_half_even_of_int [of "10 ^ 28"] by simp
  ultimately have "(10::rat) ^ 27 \<le> of_int (round_half_even (x / p10 e))"
    "of_int (round_half_even (x / p10 e)) \<le> (10::rat) ^ 28"
    by (metis of_int_le_iff of_int_numeral of_int_power)+
  then show "p10 (adjusted x) \<le> ctx x" "ctx x \<le> p10 (adjusted x + 1)"
    using assms by (simp_all add: ctx_eq split mult_right_mono flip: e_def)
qed

lemma ctx_pos [dec_simps]: "0 < x \<Longrightarrow> 0 < ctx x"
  using ctx_pos_bounds(1) p10_pos less_le_trans by blast

lemma ctx_neg [dec_simps]:
  assumes "x < 0"
  shows "ctx x < 0"
proof -
  define e where "e = adjusted x - 27"
  have "p10 (adjusted x) = 10 ^ 27 * p10 e"
    using p10_27 [of e] by (simp add: e_def)
  then have "x / p10 e \<le> of_int (- (10 ^ 27))"
    using adjusted_bounds(1) [of x] assms by (simp add: pos_divide_le_eq)
  then have "round_half_even (x / p10 e) \<le> - (10 ^ 27)"
    using round_half_even_mono round_half_even_of_int by metis
  then have "round_half_even (x / p10 e) < 0" by simp
  then show ?thesis using assms by (simp add: ctx_eq mult_neg_pos flip: e_def)
qed

lemma ctx_le_iff [dec_simps]: "ctx x \<le> 0 \<longleftrightarrow> x \<le> 0" "0 \<le> ctx x \<longleftrightarrow> 0 \<le> x"
  using ctx_pos [of x] ctx_neg [of x] by (cases "x = 0"; force)+

lemma ctx_less_iff [dec_simps]: "ctx x < 0 \<longleftrightarrow> x < 0" "0 < ctx x \<longleftrightarrow> 0 < x"
  using ctx_le_iff [of x] by (auto simp: not_le [symmetric])

lemma adjusted_mono:
  assumes "0 < x" "x \<le> y"
  shows "adjusted x \<le> adjusted y"
proof (rule ccontr)
  assume "\<not> adjusted x \<le> adjusted y"
  then have "p10 (adjusted y + 1) \<le> p10 (adjusted x)" by (intro p10_mono) simp
  also have "\<dots> \<le> x" using adjusted_bounds(1) [of x] assms by simp
  also have "\<dots> \<le> y" by fact
  also have "\<dots> < p10 (adjusted y + 1)" using adjusted_bounds(2) [of y] assms by simp
  finally show False by simp
qed

text \<open>Rounding is monotone on nonnegative values, across changes of magnitude too.\<close>

lemma ctx_mono:
  assumes "0 \<le> x" "x \<le> y"
  shows "ctx x \<le> ctx y"
proof (cases "x = 0")
  case True
  then show ?thesis using assms by (simp add: dec_simps)
next
  case False
  with assms have pos: "0 < x" "0 < y" by simp_all
  show ?thesis
  proof (cases "adjusted x = adjusted y")
    case True
    have "round_half_even (x / p10 (adjusted y - 27)) \<le> round_half_even (y / p10 (adjusted y - 27))"
      using assms by (intro round_half_even_mono divide_right_mono) (simp_all add: order_less_imp_le)
    then show ?thesis
      using pos True by (simp add: ctx_eq mult_right_mono order_less_imp_le)
  next
    case False
    with adjusted_mono pos(1) assms(2) have "adjusted x + 1 \<le> adjusted y" by force
    then have "ctx x \<le> p10 (adjusted y)"
      using ctx_pos_bounds(2) [OF pos(1)] p10_mono order_trans by blast
    also have "\<dots> \<le> ctx y" by (rule ctx_pos_bounds(1) [OF pos(2)])
    finally show ?thesis .
  qed
qed

lemma adjusted_unique:
  assumes "p10 a \<le> x" "x < p10 (a + 1)"
  shows "adjusted x = a"
proof (rule ccontr)
  assume n: "adjusted x \<noteq> a"
  have x: "0 < x" using assms(1) p10_pos [of a] by linarith
  note b = adjusted_bounds [of x]
  from n consider "adjusted x + 1 \<le> a" | "a + 1 \<le> adjusted x" by linarith
  then show False
  proof cases
    case 1
    from p10_mono [OF 1] b(2) assms(1) x show False by simp
  next
    case 2
    from p10_mono [OF 2] b(1) assms(2) x show False by simp
  qed
qed

text \<open>A rounded value is representable: rounding it again changes nothing.\<close>

lemma ctx_idem_pos:
  assumes "0 < x"
  shows "ctx (ctx x) = ctx x"
proof (cases "ctx x < p10 (adjusted x + 1)")
  case True
  have a: "adjusted (ctx x) = adjusted x"
    using ctx_pos_bounds(1) [OF assms] True by (rule adjusted_unique)
  define m where "m = round_half_even (x / p10 (adjusted x - 27))"
  have c: "ctx x = of_int m * p10 (adjusted x - 27)" using assms by (simp add: ctx_eq m_def)
  then have "ctx x / p10 (adjusted x - 27) = of_int m"
    using less_imp_neq [OF p10_pos [of "adjusted x - 27"]] by simp
  moreover have "ctx x \<noteq> 0" using ctx_pos [OF assms] by simp
  ultimately have "ctx (ctx x) = of_int m * p10 (adjusted x - 27)" by (simp add: ctx_eq [of "ctx x"] a)
  then show ?thesis by (simp add: c)
next
  case False
  then have c: "ctx x = p10 (adjusted x + 1)" using ctx_pos_bounds(2) [OF assms] by simp
  have a: "adjusted (p10 (adjusted x + 1)) = adjusted x + 1"
    using p10_pos [of "adjusted x + 1"] p10_add [of "adjusted x + 1" 1]
    by (intro adjusted_unique) (simp_all add: p10_of_nat [of 1, simplified])
  define e where "e = adjusted x + 1 - 27"
  have p: "p10 (adjusted x + 1) = of_int (10 ^ 27) * p10 e"
    using p10_27(1) [of e] by (simp add: e_def add.commute)
  then have "p10 (adjusted x + 1) / p10 e = of_int (10 ^ 27)"
    using less_imp_neq [OF p10_pos [of e]] by (simp del: of_int_power of_int_numeral)
  then have "round_half_even (p10 (adjusted x + 1) / p10 e) = 10 ^ 27"
    by (simp only: round_half_even_of_int)
  moreover have "p10 (adjusted x + 1) \<noteq> 0" using p10_pos [of "adjusted x + 1"] by linarith
  ultimately have "ctx (p10 (adjusted x + 1)) = of_int (10 ^ 27) * p10 e"
    unfolding ctx_eq [OF \<open>p10 (adjusted x + 1) \<noteq> 0\<close>] a by (simp only: e_def)
  then show ?thesis unfolding c p by simp
qed

lemma ctx_idem: "0 \<le> x \<Longrightarrow> ctx (ctx x) = ctx x"
  using ctx_idem_pos [of x] by (cases "x = 0") auto

lemma adjusted_1: "adjusted 1 = 0"
  by (simp add: adjusted_def ndigits.simps p10_def)

lemma ctx_1 [simp]: "ctx 1 = 1"
proof -
  have "(1::rat) / p10 (- 27) = of_int (10 ^ 27)" by (simp add: p10_def)
  then show ?thesis by (simp add: ctx_eq adjusted_1 p10_def del: of_int_power of_int_numeral)
qed

lemma dadd_nonneg [dec_simps]: "0 \<le> x \<Longrightarrow> 0 \<le> y \<Longrightarrow> 0 \<le> dadd x y"
  by (simp add: dec_op_defs dec_simps)

lemma dmul_nonneg [dec_simps]: "0 \<le> x \<Longrightarrow> 0 \<le> y \<Longrightarrow> 0 \<le> dmul x y"
  by (simp add: dec_op_defs dec_simps)

lemma dadd_mono: "0 \<le> x \<Longrightarrow> 0 \<le> y \<Longrightarrow> x \<le> x' \<Longrightarrow> y \<le> y' \<Longrightarrow> dadd x y \<le> dadd x' y'"
  by (simp add: dadd_def ctx_mono add_mono)

lemma dsum_nonneg: "0 \<le> start \<Longrightarrow> \<forall>x\<in>set xs. 0 \<le> x \<Longrightarrow> 0 \<le> dsum start xs"
  by (induction xs arbitrary: start) (simp_all add: dsum_def dec_simps)

end
