(* ===== verification/Canonical.thy ===== *)
theory Canonical
  imports Prelude "HOL-Library.List_Lexorder" "HOL-Library.Char_ord" "HOL-Library.Multiset"
begin

text \<open>
  Canonical JSON (app/common/canonical.py): the values a contract field typed \<open>Any\<close> carries, their
  normal form (object keys sorted at every depth) and the content digest. The text rendering and
  SHA-256 itself are the parameter \<open>hash\<close>, a function of the normal form.
\<close>

section \<open>Values\<close>

text \<open>
  JSON-shaped data, decimals, instants and durations. \<open>VFloat None\<close> stands for a NaN or infinite
  \<open>float\<close>, \<open>VNonFinite\<close> for a NaN or infinite \<open>Decimal\<close>.
\<close>

datatype py_value =
    VNone
  | VBool bool
  | VInt int
  | VDec rat
  | VNonFinite
  | VFloat "rat option"
  | VStr string
  | VTime instant
  | VDelta duration
  | VList "py_value list"
  | VDict "(string \<times> py_value) list"

lemma size_list_member: "x \<in> set xs \<Longrightarrow> size x < Suc (size_list size xs)"
  by (induction xs) auto

lemma size_dict_member:
  "(k, v) \<in> set kvs \<Longrightarrow> size v < Suc (size_list (size_prod (\<lambda>_. 0) size) kvs)"
  by (induction kvs) auto

section \<open>Normal form and digest\<close>

text \<open>
  \<open>canonical_json\<close>: the entries of an object are visited in key order; \<open>json.dumps\<close> refuses a
  non-finite float (\<open>allow_nan=False\<close>) and any value it cannot encode, a \<open>timedelta\<close> among them.
\<close>

function canonical_json :: "py_value \<Rightarrow> py_value result" where
  "canonical_json VNone = Inr VNone"
| "canonical_json (VBool b) = Inr (VBool b)"
| "canonical_json (VInt i) = Inr (VInt i)"
| "canonical_json (VDec d) = Inr (VDec d)"
| "canonical_json VNonFinite = Inr VNonFinite"
| "canonical_json (VFloat f) =
     (case f of None \<Rightarrow> Inl (ValueError ''Out of range float values are not JSON compliant'')
      | Some x \<Rightarrow> Inr (VFloat (Some x)))"
| "canonical_json (VStr s) = Inr (VStr s)"
| "canonical_json (VTime t) = Inr (VTime t)"
| "canonical_json (VDelta d) = Inl (TypeError ''Object of type timedelta is not JSON serializable'')"
| "canonical_json (VList vs) = bind_result (map_result canonical_json vs) (\<lambda>cs. Inr (VList cs))"
| "canonical_json (VDict kvs) =
     bind_result
       (map_result (\<lambda>kv. bind_result (canonical_json (snd kv)) (\<lambda>c. Inr (fst kv, c))) (sort_key fst kvs))
       (\<lambda>cs. Inr (VDict cs))"
  by pat_completeness auto
termination
proof (relation "measure size")
  fix kvs :: "(string \<times> py_value) list" and kv
  assume "kv \<in> set (sort_key fst kvs)"
  then have "(fst kv, snd kv) \<in> set kvs" by simp
  from size_dict_member [OF this] show "(snd kv, VDict kvs) \<in> measure size" by simp
qed (auto dest: size_list_member)

definition sha256_digest :: "(py_value \<Rightarrow> string) \<Rightarrow> py_value \<Rightarrow> string result" where
  "sha256_digest hash value = bind_result (canonical_json value) (\<lambda>c. Inr (hash c))"

lemma canonical_dict_ok:
  "is_ok (canonical_json (VDict kvs)) \<longleftrightarrow> (\<forall>kv\<in>set kvs. is_ok (canonical_json (snd kv)))"
  by (simp add: is_ok_bind_Inr)

text \<open>Two spellings of the same value: the entries of any object, at any depth, in another order.\<close>

inductive reordered :: "py_value \<Rightarrow> py_value \<Rightarrow> bool" where
  reordered_refl: "reordered v v"
| reordered_list: "list_all2 reordered vs ws \<Longrightarrow> reordered (VList vs) (VList ws)"
| reordered_dict: "distinct (map fst kvs) \<Longrightarrow> mset kvs = mset kvs' \<Longrightarrow>
    list_all2 (\<lambda>a b. fst a = fst b \<and> reordered (snd a) (snd b)) kvs' kvs'' \<Longrightarrow>
    reordered (VDict kvs) (VDict kvs'')"

lemma sort_key_perm:
  assumes "distinct (map fst kvs)" "mset kvs = mset kvs'"
  shows "sort_key fst kvs = sort_key fst kvs'"
  using assms by (intro sort_key_inj_key_eq) (simp_all add: distinct_map)

lemma insort_key_all2:
  "list_all2 (\<lambda>a b. fst a = fst b \<and> P (snd a) (snd b)) xs ys \<Longrightarrow> fst x = fst y \<Longrightarrow> P (snd x) (snd y) \<Longrightarrow>
   list_all2 (\<lambda>a b. fst a = fst b \<and> P (snd a) (snd b)) (insort_key fst x xs) (insort_key fst y ys)"
  by (induction rule: list_all2_induct) auto

lemma sort_key_all2:
  "list_all2 (\<lambda>a b. fst a = fst b \<and> P (snd a) (snd b)) xs ys \<Longrightarrow>
   list_all2 (\<lambda>a b. fst a = fst b \<and> P (snd a) (snd b)) (sort_key fst xs) (sort_key fst ys)"
  by (induction rule: list_all2_induct) (auto intro: insort_key_all2)

lemma map_result_all2:
  "list_all2 (\<lambda>x y. f x = g y) xs ys \<Longrightarrow> map_result f xs = map_result g ys"
  by (induction rule: list_all2_induct) auto

lemma reordered_canonical: "reordered v w \<Longrightarrow> canonical_json v = canonical_json w"
proof (induction rule: reordered.induct)
  case (reordered_list vs ws)
  then have "map_result canonical_json vs = map_result canonical_json ws"
    by (intro map_result_all2) (auto elim: list_all2_mono)
  then show ?case by simp
next
  case (reordered_dict kvs kvs' kvs'')
  let ?f = "\<lambda>kv. bind_result (canonical_json (snd kv)) (\<lambda>c. Inr (fst kv, c))"
  have "list_all2 (\<lambda>a b. fst a = fst b \<and> canonical_json (snd a) = canonical_json (snd b)) kvs' kvs''"
    using reordered_dict.IH by (auto elim: list_all2_mono)
  from sort_key_all2 [where P = "\<lambda>a b. canonical_json a = canonical_json b", OF this]
  have "map_result ?f (sort_key fst kvs') = map_result ?f (sort_key fst kvs'')"
    by (intro map_result_all2) (auto elim!: list_all2_mono)
  then show ?case using sort_key_perm [OF reordered_dict(1,2)] by simp
qed simp

section \<open>Properties\<close>

text \<open>C7: The content digest does not depend on the order in which the entries of an object, at any
  depth, were inserted; values it cannot encode are refused alike.\<close>

theorem digest_ignores_key_order:
  assumes "reordered v w"
  shows "sha256_digest hash v = sha256_digest hash w"
  using reordered_canonical [OF assms] by (simp add: sha256_digest_def)

theorem digest_ignores_key_order_witness:
  "\<forall>hash. sha256_digest hash (VDict [(''b'', VInt 1), (''a'', VNone)]) =
   sha256_digest hash (VDict [(''a'', VNone), (''b'', VInt 1)])"
  by (rule allI, rule digest_ignores_key_order, rule reordered_dict [where kvs' = "[(''a'', VNone), (''b'', VInt 1)]"])
    (auto intro: reordered_refl)

end
