(* ===== verification/Rule_Contracts.thy ===== *)
theory Rule_Contracts
  imports Enums Identifiers Decimals Canonical
begin

text \<open>
  The rule and strategy contracts: app/contracts/rules.py, app/contracts/strategy.py and the trace
  contracts of app/contracts/domain.py. Every model is a record. Its constructor is a function from
  the field values to a result: first the declared field constraints, then the model validator, in
  the order the code runs them. An absent optional field is None.
\<close>

section \<open>Values\<close>

record named_value =
  nv_name :: string
  nv_value :: py_value

section \<open>Rules (app/contracts/rules.py)\<close>

record event_envelope =
  ee_event_id :: uuid
  ee_event_type :: string
  ee_schema_version :: string
  ee_occurred_at :: instant
  ee_source :: string
  ee_trace_id :: "uuid option"
  ee_correlation_id :: "uuid option"
  ee_causation_id :: "uuid option"
  ee_market_session :: "market_session_kind option"
  ee_subject :: "string option"
  ee_payload :: py_value
  ee_attributes :: "named_value list"

definition make_envelope :: "event_envelope \<Rightarrow> event_envelope result" where
  "make_envelope e =
     (if \<not> (identifier_str (ee_event_type e) \<and> semver (ee_schema_version e)
            \<and> identifier_str (ee_source e) \<and> opt_all non_empty_str (ee_subject e)
            \<and> (\<forall>a\<in>set (ee_attributes e). identifier_str (nv_name a)))
      then Inl (ValidationError ''EventEnvelope'')
      else if uuid_version (ee_event_id e) \<noteq> Some 7
      then Inl (ValueError ''event_id must be a UUIDv7'')
      else Inr e)"

record rule_input_declaration =
  ri_name :: string
  ri_data_type :: string
  ri_required :: bool
  ri_description :: "string option"
  ri_unit :: "string option"

record rule_output_declaration =
  ro_name :: string
  ro_data_type :: string
  ro_description :: "string option"
  ro_unit :: "string option"

record rule_metadata =
  rm_rule_id :: string
  rm_name :: string
  rm_version :: string
  rm_rule_type :: rule_type
  rm_lifecycle_status :: lifecycle_status
  rm_description :: string
  rm_implementation_hash :: string
  rm_inputs :: "rule_input_declaration list"
  rm_outputs :: "rule_output_declaration list"
  rm_author :: "string option"
  rm_tags :: "string list"
  rm_created_at :: instant
  rm_validated_at :: "instant option"

definition validate_declarations :: "rule_metadata \<Rightarrow> rule_metadata result" where
  "validate_declarations m =
     (if \<not> distinct (map ri_name (rm_inputs m))
      then Inl (ValueError ''rule input names must be unique'')
      else if \<not> distinct (map ro_name (rm_outputs m))
      then Inl (ValueError ''rule output names must be unique'')
      else if (case rm_validated_at m of None \<Rightarrow> False | Some v \<Rightarrow> v < rm_created_at m)
      then Inl (ValueError ''validated_at cannot precede created_at'')
      else Inr m)"

record context_value =
  cv_name :: string
  cv_value :: py_value
  cv_observed_at :: "instant option"
  cv_source :: "string option"

record evaluation_context =
  ec_symbol :: string
  ec_timeframe :: string
  ec_as_of :: instant
  ec_market_session :: market_session_kind
  ec_run_id :: "string option"
  ec_trace_id :: "uuid option"
  ec_correlation_id :: "uuid option"
  ec_values :: "context_value list"

definition validate_context_values :: "evaluation_context \<Rightarrow> evaluation_context result" where
  "validate_context_values c =
     (if \<not> distinct (map cv_name (ec_values c))
      then Inl (ValueError ''evaluation context value names must be unique'') else Inr c)"

record rule_output_value =
  rv_name :: string
  rv_value :: py_value

record rule_result =
  rr_rule_id :: string
  rr_rule_version :: "string option"
  rr_status :: rule_status
  rr_evaluated_at :: instant
  rr_score :: "rat option"
  rr_reason :: "string option"
  rr_outputs :: "rule_output_value list"
  rr_error_code :: "string option"
  rr_error_message :: "string option"
  rr_duration_ms :: "rat option"

definition unit_interval :: "rat \<Rightarrow> bool" where "unit_interval x \<longleftrightarrow> 0 \<le> x \<and> x \<le> 1"

definition rule_result_fields :: "rule_result \<Rightarrow> bool" where
  "rule_result_fields r \<longleftrightarrow>
     identifier_str (rr_rule_id r) \<and> opt_all semver (rr_rule_version r)
     \<and> opt_all unit_interval (rr_score r) \<and> opt_all non_empty_str (rr_reason r)
     \<and> (\<forall>v\<in>set (rr_outputs r). identifier_str (rv_name v))
     \<and> opt_all identifier_str (rr_error_code r) \<and> opt_all non_empty_str (rr_error_message r)
     \<and> opt_all (\<lambda>d. 0 \<le> d) (rr_duration_ms r)"

definition validate_status_details :: "rule_result \<Rightarrow> rule_result result" where
  "validate_status_details r =
     (if rr_status r = RS_ERROR \<and> rr_error_message r = None
      then Inl (ValueError ''ERROR results require error_message'')
      else if rr_status r \<noteq> RS_ERROR \<and> (rr_error_code r \<noteq> None \<or> rr_error_message r \<noteq> None)
      then Inl (ValueError ''error fields are only valid for ERROR results'')
      else if \<not> distinct (map rv_name (rr_outputs r))
      then Inl (ValueError ''rule output names must be unique'')
      else Inr r)"

text \<open>The two free texts are \<open>NonEmptyStr\<close> fields: whitespace is stripped before the check.\<close>

definition strip_texts :: "rule_result \<Rightarrow> rule_result" where
  "strip_texts r = r \<lparr> rr_reason := map_option strip (rr_reason r),
     rr_error_message := map_option strip (rr_error_message r) \<rparr>"

definition make_rule_result :: "rule_result \<Rightarrow> rule_result result" where
  "make_rule_result r =
     (if \<not> rule_result_fields (strip_texts r) then Inl (ValidationError ''RuleResult'')
      else validate_status_details (strip_texts r))"

record rule_pack_manifest =
  mf_pack_id :: string
  mf_version :: string
  mf_family :: string
  mf_engine :: string
  mf_manifest_hash :: string
  mf_rules :: "rule_metadata list"
  mf_created_at :: instant
  mf_description :: "string option"

definition validate_pack_rules :: "rule_pack_manifest \<Rightarrow> rule_pack_manifest result" where
  "validate_pack_rules m =
     (if \<not> distinct (map (\<lambda>r. (rm_rule_id r, rm_version r)) (mf_rules m))
      then Inl (ValueError ''rule coordinates in a pack must be unique'') else Inr m)"

section \<open>Strategies (app/contracts/strategy.py)\<close>

record pipeline_step =
  ps_step_id :: string
  ps_rule_id :: string
  ps_rule_version :: string
  ps_depends_on :: "string list"
  ps_dependency_policy :: dependency_policy
  ps_enabled :: bool

definition pipeline_step_fields :: "pipeline_step \<Rightarrow> bool" where
  "pipeline_step_fields s \<longleftrightarrow> identifier_str (ps_step_id s) \<and> identifier_str (ps_rule_id s)
     \<and> semver (ps_rule_version s) \<and> (\<forall>d\<in>set (ps_depends_on s). identifier_str d)"

definition validate_dependencies :: "pipeline_step \<Rightarrow> pipeline_step result" where
  "validate_dependencies s =
     (if ps_step_id s \<in> set (ps_depends_on s)
      then Inl (ValueError ''a pipeline step cannot depend on itself'')
      else if \<not> distinct (ps_depends_on s)
      then Inl (ValueError ''pipeline dependencies must be unique'')
      else Inr s)"

record rule_binding =
  rb_rule_id :: string
  rb_alias :: "string option"
  rb_parameters :: "named_value list"

definition rule_binding_fields :: "rule_binding \<Rightarrow> bool" where
  "rule_binding_fields b \<longleftrightarrow> identifier_str (rb_rule_id b) \<and> opt_all identifier_str (rb_alias b)
     \<and> (\<forall>p\<in>set (rb_parameters b). identifier_str (nv_name p))"

definition validate_parameters :: "rule_binding \<Rightarrow> rule_binding result" where
  "validate_parameters b =
     (if \<not> distinct (map nv_name (rb_parameters b))
      then Inl (ValueError ''binding parameter names must be unique'') else Inr b)"

record strategy_policies =
  sp_fail_closed :: bool
  sp_stop_on_error :: bool
  sp_max_candidate_age :: "duration option"
  sp_minimum_passing_rules :: int
  sp_allow_not_applicable :: bool

definition strategy_policies_fields :: "strategy_policies \<Rightarrow> bool" where
  "strategy_policies_fields p \<longleftrightarrow>
     opt_all (\<lambda>d. 0 < d) (sp_max_candidate_age p) \<and> 0 \<le> sp_minimum_passing_rules p"

record scoring_weight =
  sw_rule_id :: string
  sw_weight :: rat

definition scoring_weight_fields :: "scoring_weight \<Rightarrow> bool" where
  "scoring_weight_fields w \<longleftrightarrow> identifier_str (sw_rule_id w) \<and> 0 < sw_weight w \<and> sw_weight w \<le> 1"

record scoring_policy =
  so_pass_threshold :: rat
  so_weights :: "scoring_weight list"
  so_require_complete_scoring :: bool

definition validate_weights :: "scoring_policy \<Rightarrow> scoring_policy result" where
  "validate_weights s =
     (if \<not> distinct (map sw_rule_id (so_weights s))
      then Inl (ValueError ''scoring rule ids must be unique'')
      else if so_weights s \<noteq> [] \<and> dsum 0 (map sw_weight (so_weights s)) \<noteq> 1
      then Inl (ValueError ''scoring weights must sum exactly to 1'')
      else Inr s)"

record strategy_spec =
  ss_strategy_id :: string
  ss_version :: string
  ss_family :: string
  ss_engine :: string
  ss_run_id :: string
  ss_mode :: strategy_mode
  ss_rule_pack_hash :: string
  ss_pipeline :: "pipeline_step list"
  ss_bindings :: "rule_binding list"
  ss_policies :: strategy_policies
  ss_scoring :: scoring_policy
  ss_description :: "string option"
  ss_tags :: "string list"

text \<open>
  The nested \<open>visit\<close> of \<open>validate_graph_and_bindings\<close>: depth-first search over a state map where
  1 marks a step on the current path and 2 a finished one. The first argument bounds the recursion
  depth; one more than the number of steps always suffices (\<open>visit_fuel\<close> below).
\<close>

fun visit_each :: "(string \<Rightarrow> (string \<rightharpoonup> nat) \<Rightarrow> (string \<rightharpoonup> nat) result) \<Rightarrow>
    string list \<Rightarrow> (string \<rightharpoonup> nat) \<Rightarrow> (string \<rightharpoonup> nat) result" where
  "visit_each f [] st = Inr st"
| "visit_each f (d # ds) st = bind_result (f d st) (visit_each f ds)"

primrec visit :: "nat \<Rightarrow> (string \<rightharpoonup> string list) \<Rightarrow> string \<Rightarrow> (string \<rightharpoonup> nat) \<Rightarrow>
    (string \<rightharpoonup> nat) result" where
  "visit 0 dependencies step_id state = Inl OutOfFuel"
| "visit (Suc n) dependencies step_id state =
     (if state step_id = Some 1
      then Inl (ValueError ''pipeline dependency graph contains a cycle'')
      else if state step_id = Some 2 then Inr state
      else (case dependencies step_id of
          None \<Rightarrow> Inl KeyError
        | Some ds \<Rightarrow> bind_result (visit_each (visit n dependencies) ds (state(step_id \<mapsto> 1)))
                       (\<lambda>state'. Inr (state'(step_id \<mapsto> 2)))))"

definition spec_dependencies :: "strategy_spec \<Rightarrow> string \<rightharpoonup> string list" where
  "spec_dependencies spec = map_of (map (\<lambda>s. (ps_step_id s, ps_depends_on s)) (ss_pipeline spec))"

definition check_acyclic :: "strategy_spec \<Rightarrow> unit result" where
  "check_acyclic spec =
     bind_result
       (visit_each (visit (Suc (length (ss_pipeline spec))) (spec_dependencies spec))
          (map ps_step_id (ss_pipeline spec)) Map.empty)
       (\<lambda>_. Inr ())"

definition validate_graph_and_bindings :: "strategy_spec \<Rightarrow> strategy_spec result" where
  "validate_graph_and_bindings spec =
     (let pipeline = ss_pipeline spec;
          step_ids = map ps_step_id pipeline;
          rule_ids = map ps_rule_id pipeline;
          binding_ids = map rb_rule_id (ss_bindings spec);
          scoring_ids = map sw_rule_id (so_weights (ss_scoring spec))
      in if \<not> distinct step_ids
      then Inl (ValueError ''pipeline step ids must be unique'')
      else if \<not> distinct rule_ids
      then Inl (ValueError ''pipeline rule ids must be unique'')
      else if \<exists>s\<in>set pipeline. \<not> set (ps_depends_on s) \<subseteq> set step_ids
      then Inl (ValueError ''unknown pipeline dependencies'')
      else bind_result (check_acyclic spec) (\<lambda>_.
        if \<not> distinct binding_ids
        then Inl (ValueError ''rule bindings must be unique'')
        else if set binding_ids \<noteq> set rule_ids
        then Inl (ValueError ''bindings must match the rules referenced by the pipeline'')
        else if \<not> set scoring_ids \<subseteq> set rule_ids
        then Inl (ValueError ''scoring may only reference pipeline rules'')
        else if int (length pipeline) < sp_minimum_passing_rules (ss_policies spec)
        then Inl (ValueError ''minimum_passing_rules exceeds pipeline length'')
        else Inr spec))"

text \<open>
  \<open>make_strategy_spec\<close>: the nested models are constructed, hence validated, before the specification.
\<close>

definition make_strategy_spec :: "strategy_spec \<Rightarrow> strategy_spec result" where
  "make_strategy_spec spec =
     (if \<not> (identifier_str (ss_strategy_id spec) \<and> semver (ss_version spec)
            \<and> identifier_str (ss_family spec) \<and> identifier_str (ss_engine spec)
            \<and> identifier_str (ss_run_id spec) \<and> sha256_ref (ss_rule_pack_hash spec)
            \<and> (\<forall>s\<in>set (ss_pipeline spec). pipeline_step_fields s \<and> is_ok (validate_dependencies s))
            \<and> (\<forall>b\<in>set (ss_bindings spec). rule_binding_fields b \<and> is_ok (validate_parameters b))
            \<and> strategy_policies_fields (ss_policies spec)
            \<and> unit_interval (so_pass_threshold (ss_scoring spec))
            \<and> (\<forall>w\<in>set (so_weights (ss_scoring spec)). scoring_weight_fields w)
            \<and> is_ok (validate_weights (ss_scoring spec))
            \<and> opt_all non_empty_str (ss_description spec)
            \<and> (\<forall>t\<in>set (ss_tags spec). identifier_str t))
      then Inl (ValidationError ''StrategySpec'')
      else validate_graph_and_bindings spec)"

definition valid_spec :: "strategy_spec \<Rightarrow> bool" where
  "valid_spec spec \<longleftrightarrow> make_strategy_spec spec = Inr spec"

text \<open>\<open>validate_primary_uniqueness\<close>: a dictionary from deployment scope to strategy id.\<close>

fun primary_scan :: "(string \<times> string \<times> string \<rightharpoonup> string) \<Rightarrow> strategy_spec list \<Rightarrow> unit result" where
  "primary_scan seen [] = Inr ()"
| "primary_scan seen (s # ss) =
     (if ss_mode s \<noteq> SM_PRIMARY then primary_scan seen ss
      else let scope = (ss_family s, ss_engine s, ss_run_id s) in
        (case seen scope of
           Some _ \<Rightarrow> Inl (ValueError ''multiple PRIMARY strategies for one scope'')
         | None \<Rightarrow> primary_scan (seen(scope \<mapsto> ss_strategy_id s)) ss))"

definition validate_primary_uniqueness :: "strategy_spec list \<Rightarrow> unit result" where
  "validate_primary_uniqueness strategies = primary_scan Map.empty strategies"

record compiled_strategy =
  cs_spec :: strategy_spec
  cs_rule_pack :: rule_pack_manifest
  cs_compiled_hash :: string
  cs_compiled_at :: instant
  cs_execution_order :: "string list"

fun position :: "string list \<Rightarrow> string \<Rightarrow> nat" where
  "position [] x = 0"
| "position (y # ys) x = (if x = y then 0 else Suc (position ys x))"

definition validate_compilation :: "compiled_strategy \<Rightarrow> compiled_strategy result" where
  "validate_compilation c =
     (let spec = cs_spec c; pack = cs_rule_pack c; order = cs_execution_order c;
          ids = fromkeys (map ps_step_id (ss_pipeline spec))
      in if ss_family spec \<noteq> mf_family pack \<or> ss_engine spec \<noteq> mf_engine pack
      then Inl (ValueError ''strategy and rule pack family/engine must match'')
      else if ss_rule_pack_hash spec \<noteq> mf_manifest_hash pack
      then Inl (ValueError ''strategy rule_pack_hash does not match manifest_hash'')
      else if \<not> (length order = length ids \<and> set order = set ids)
      then Inl (ValueError ''execution_order must contain every pipeline step exactly once'')
      else if \<exists>s\<in>set (ss_pipeline spec). \<exists>d\<in>set (ps_depends_on s).
                position order (ps_step_id s) \<le> position order d
      then Inl (ValueError ''execution_order violates pipeline dependencies'')
      else if \<not> set (map (\<lambda>s. (ps_rule_id s, ps_rule_version s)) (ss_pipeline spec))
                \<subseteq> set (map (\<lambda>r. (rm_rule_id r, rm_version r)) (mf_rules pack))
      then Inl (ValueError ''compiled strategy references exact rule coordinates absent from manifest'')
      else Inr c)"

section \<open>Traces (app/contracts/domain.py)\<close>

record rule_trace_step =
  rt_step_id :: string
  rt_rule_id :: string
  rt_status :: rule_trace_status
  rt_started_at :: instant
  rt_completed_at :: instant
  rt_result :: "rule_result option"
  rt_skipped_dependencies :: "string list"
  rt_message :: "string option"

definition validate_trace_step :: "rule_trace_step \<Rightarrow> rule_trace_step result" where
  "validate_trace_step t =
     (if rt_completed_at t < rt_started_at t
      then Inl (ValueError ''completed_at cannot precede started_at'')
      else let is_skipped = (rt_status t = RT_SKIPPED_DEPENDENCY) in
        if is_skipped \<and> rt_skipped_dependencies t = []
        then Inl (ValueError ''SKIPPED_DEPENDENCY requires skipped_dependencies'')
        else if \<not> is_skipped \<and> rt_skipped_dependencies t \<noteq> []
        then Inl (ValueError ''skipped_dependencies is only valid for SKIPPED_DEPENDENCY'')
        else if (case rt_result t of None \<Rightarrow> False | Some r \<Rightarrow> rr_rule_id r \<noteq> rt_rule_id t)
        then Inl (ValueError ''trace rule_id must match result rule_id'')
        else Inr t)"

record decision_trace =
  dt_trace_id :: uuid
  dt_correlation_id :: "uuid option"
  dt_strategy_id :: string
  dt_strategy_version :: string
  dt_compiled_strategy_hash :: "string option"
  dt_symbol :: string
  dt_started_at :: instant
  dt_completed_at :: instant
  dt_outcome :: decision_outcome
  dt_score :: "rat option"
  dt_steps :: "rule_trace_step list"
  dt_reasons :: "string list"

definition validate_trace :: "decision_trace \<Rightarrow> decision_trace result" where
  "validate_trace t =
     (if dt_completed_at t < dt_started_at t
      then Inl (ValueError ''completed_at cannot precede started_at'')
      else if \<not> distinct (map rt_step_id (dt_steps t))
      then Inl (ValueError ''decision trace step ids must be unique'')
      else if \<exists>s\<in>set (dt_steps t). rt_started_at s < dt_started_at t
                                 \<or> dt_completed_at t < rt_completed_at s
      then Inl (ValueError ''rule trace steps must fall within the decision trace interval'')
      else Inr t)"

definition make_decision_trace :: "decision_trace \<Rightarrow> decision_trace result" where
  "make_decision_trace t =
     (if \<not> opt_all unit_interval (dt_score t) then Inl (ValidationError ''DecisionTrace'')
      else validate_trace t)"

end
