(* ===== verification/Strategy_Graph.thy ===== *)
theory Strategy_Graph
  imports Rule_Contracts
begin

text \<open>
  The dependency graph of a strategy pipeline. A graph is acyclic when its nodes can be ranked so
  that every dependency ranks strictly below its dependent. The depth-first search of
  \<open>StrategySpec.validate_graph_and_bindings\<close> is shown to decide exactly that, within its bound.
\<close>

definition ranked :: "string list \<Rightarrow> (string \<Rightarrow> string list) \<Rightarrow> (string \<Rightarrow> nat) \<Rightarrow> bool" where
  "ranked nodes deps r \<longleftrightarrow> (\<forall>x\<in>set nodes. \<forall>d\<in>set (deps x). r d < r x)"

definition acyclic_deps :: "string list \<Rightarrow> (string \<Rightarrow> string list) \<Rightarrow> bool" where
  "acyclic_deps nodes deps \<longleftrightarrow> (\<exists>r. ranked nodes deps r)"

definition closed_deps :: "string list \<Rightarrow> (string \<Rightarrow> string list) \<Rightarrow> bool" where
  "closed_deps nodes deps \<longleftrightarrow> (\<forall>x\<in>set nodes. set (deps x) \<subseteq> set nodes)"

abbreviation "cycle_error \<equiv> ValueError ''pipeline dependency graph contains a cycle''"

section \<open>What a successful visit leaves behind\<close>

definition grows :: "(string \<rightharpoonup> nat) \<Rightarrow> (string \<rightharpoonup> nat) \<Rightarrow> bool" where
  "grows st st' \<longleftrightarrow> (\<forall>x. st' x = Some 1 \<longleftrightarrow> st x = Some 1) \<and> (\<forall>x. st x = Some 2 \<longrightarrow> st' x = Some 2)
     \<and> (\<forall>x. st x \<noteq> None \<longrightarrow> st' x \<noteq> None)"

lemma grows_refl [simp]: "grows st st"
  by (simp add: grows_def)

lemma grows_trans: "grows a b \<Longrightarrow> grows b c \<Longrightarrow> grows a c"
  by (auto simp: grows_def)

lemma visit_each_grows:
  assumes f: "\<And>d st st'. f d st = Inr st' \<Longrightarrow> grows st st' \<and> st' d = Some 2"
  shows "visit_each f ds st = Inr st' \<Longrightarrow> grows st st' \<and> (\<forall>d\<in>set ds. st' d = Some 2)"
proof (induction ds arbitrary: st)
  case (Cons d ds)
  then obtain st1 where 1: "f d st = Inr st1" "visit_each f ds st1 = Inr st'" by auto
  have a: "grows st st1" "st1 d = Some 2" using f [OF 1(1)] by simp_all
  have b: "grows st1 st'" "\<forall>d\<in>set ds. st' d = Some 2" using Cons.IH [OF 1(2)] by simp_all
  have "st' d = Some 2" using a(2) b(1) by (simp add: grows_def)
  with grows_trans [OF a(1) b(1)] b(2) show ?case by simp
qed simp

lemma visit_grows: "visit n D s st = Inr st' \<Longrightarrow> grows st st' \<and> st' s = Some 2"
proof (induction n arbitrary: s st st')
  case (Suc n)
  show ?case
  proof (cases "st s = Some 1 \<or> st s = Some 2")
    case True
    with Suc.prems show ?thesis by (auto split: if_splits)
  next
    case False
    with Suc.prems obtain ds st1 where 1: "D s = Some ds"
      "visit_each (visit n D) ds (st(s \<mapsto> 1)) = Inr st1" "st' = st1(s \<mapsto> 2)"
      by (auto split: option.splits)
    have "grows (st(s \<mapsto> 1)) st1"
      using visit_each_grows [OF Suc.IH 1(2)] by blast
    with False 1(3) show ?thesis by (auto simp: grows_def split: if_splits)
  qed
qed simp

lemma visit_each_visit_grows:
  "visit_each (visit n D) ds st = Inr st' \<Longrightarrow> grows st st' \<and> (\<forall>d\<in>set ds. st' d = Some 2)"
  by (rule visit_each_grows) (rule visit_grows)

section \<open>Soundness: finished steps can be ranked\<close>

definition finished_ranked :: "(string \<rightharpoonup> string list) \<Rightarrow> (string \<rightharpoonup> nat) \<Rightarrow> bool" where
  "finished_ranked D st \<longleftrightarrow> (\<exists>r :: string \<Rightarrow> nat. \<forall>x ds d.
     st x = Some 2 \<longrightarrow> D x = Some ds \<longrightarrow> d \<in> set ds \<longrightarrow> st d = Some 2 \<and> r d < r x)"

lemma member_le_sum: "(d :: 'a) \<in> set ds \<Longrightarrow> (r d :: nat) \<le> sum_list (map r ds)"
  by (induction ds) auto

lemma finished_ranked_finish:
  assumes "finished_ranked D st" "D s = Some ds" "\<forall>d\<in>set ds. st d = Some 2" "st s = Some 1"
  shows "finished_ranked D (st(s \<mapsto> 2))"
proof -
  from assms(1) obtain r :: "string \<Rightarrow> nat" where r: "\<And>x ds d. st x = Some 2 \<Longrightarrow> D x = Some ds \<Longrightarrow>
      d \<in> set ds \<Longrightarrow> st d = Some 2 \<and> r d < r x"
    by (auto simp: finished_ranked_def)
  let ?r = "r(s := Suc (sum_list (map r ds)))"
  have "(st(s \<mapsto> 2)) d = Some 2 \<and> ?r d < ?r x"
    if x: "(st(s \<mapsto> 2)) x = Some 2" and D: "D x = Some es" and d: "d \<in> set es" for x es d
  proof (cases "x = s")
    case True
    with D d assms(2) have "d \<in> set ds" by simp
    with assms(3,4) member_le_sum [of d ds r] True show ?thesis by auto
  next
    case False
    with r [of x es d] x D d assms(4) show ?thesis by auto
  qed
  then show ?thesis unfolding finished_ranked_def by blast
qed

lemma finished_ranked_start:
  assumes "finished_ranked D st" "st s \<noteq> Some 2"
  shows "finished_ranked D (st(s \<mapsto> 1))"
proof -
  from assms(1) obtain r :: "string \<Rightarrow> nat" where r: "\<And>x ds d. st x = Some 2 \<Longrightarrow> D x = Some ds \<Longrightarrow>
      d \<in> set ds \<Longrightarrow> st d = Some 2 \<and> r d < r x"
    by (auto simp: finished_ranked_def)
  have "(st(s \<mapsto> 1)) d = Some 2 \<and> r d < r x"
    if "(st(s \<mapsto> 1)) x = Some 2" "D x = Some es" "d \<in> set es" for x es d
    using r [of x es d] that assms(2) by (auto split: if_splits)
  then show ?thesis unfolding finished_ranked_def by blast
qed

lemma visit_each_inv:
  "visit_each f ds st = Inr st' \<Longrightarrow> P st \<Longrightarrow>
   (\<And>d st st'. f d st = Inr st' \<Longrightarrow> P st \<Longrightarrow> P st') \<Longrightarrow> P st'"
  by (induction ds arbitrary: st) auto

lemma visit_finished_ranked:
  "visit n D s st = Inr st' \<Longrightarrow> finished_ranked D st \<Longrightarrow> finished_ranked D st'"
proof (induction n arbitrary: s st st')
  case (Suc n)
  show ?case
  proof (cases "st s = Some 1 \<or> st s = Some 2")
    case True
    with Suc.prems show ?thesis by (auto split: if_splits)
  next
    case False
    with Suc.prems obtain ds st1 where 1: "D s = Some ds"
      "visit_each (visit n D) ds (st(s \<mapsto> 1)) = Inr st1" "st' = st1(s \<mapsto> 2)"
      by (auto split: option.splits)
    have g: "grows (st(s \<mapsto> 1)) st1" "\<forall>d\<in>set ds. st1 d = Some 2"
      using visit_each_visit_grows [OF 1(2)] by simp_all
    have "finished_ranked D (st(s \<mapsto> 1))"
      using Suc.prems(2) False by (intro finished_ranked_start) simp_all
    from visit_each_inv [where P = "finished_ranked D", OF 1(2) this] Suc.IH
    have "finished_ranked D st1" by blast
    moreover have "st1 s = Some 1" using g(1) by (simp add: grows_def)
    ultimately show ?thesis
      unfolding 1(3) using 1(1) g(2) by (intro finished_ranked_finish [of D st1 s ds])
  qed
qed simp

section \<open>Completeness and the recursion bound\<close>

definition unmarked :: "string list \<Rightarrow> (string \<rightharpoonup> nat) \<Rightarrow> nat" where
  "unmarked nodes st = card {x \<in> set nodes. st x = None}"

lemma unmarked_grows: "grows st st' \<Longrightarrow> unmarked nodes st' \<le> unmarked nodes st"
  unfolding unmarked_def by (rule card_mono) (auto simp: grows_def)

lemma unmarked_mark: "s \<in> set nodes \<Longrightarrow> st s = None \<Longrightarrow> unmarked nodes (st(s \<mapsto> v)) < unmarked nodes st"
  unfolding unmarked_def by (rule psubset_card_mono) auto

text \<open>States of the search hold no mark but 1 and 2.\<close>

definition marks_ok :: "(string \<rightharpoonup> nat) \<Rightarrow> bool" where
  "marks_ok st \<longleftrightarrow> (\<forall>x. st x = None \<or> st x = Some 1 \<or> st x = Some 2)"

lemma visit_marks_ok: "visit n D s st = Inr st' \<Longrightarrow> marks_ok st \<Longrightarrow> marks_ok st'"
proof (induction n arbitrary: s st st')
  case (Suc n)
  show ?case
  proof (cases "st s = Some 1 \<or> st s = Some 2")
    case True
    with Suc.prems show ?thesis by (auto split: if_splits)
  next
    case False
    with Suc.prems obtain ds st1 where 1:
      "visit_each (visit n D) ds (st(s \<mapsto> 1)) = Inr st1" "st' = st1(s \<mapsto> 2)"
      by (auto split: option.splits)
    have "marks_ok (st(s \<mapsto> 1))" using Suc.prems(2) by (simp add: marks_ok_def)
    from visit_each_inv [where P = marks_ok, OF 1(1) this] Suc.IH have "marks_ok st1" by blast
    then show ?thesis by (simp add: marks_ok_def 1(2))
  qed
qed simp

lemma visit_each_error:
  assumes f: "\<And>d st. d \<in> set ds \<Longrightarrow> Q st \<Longrightarrow>
      (case f d st of Inl e \<Rightarrow> e = err | Inr st' \<Rightarrow> Q st')"
  shows "Q st \<Longrightarrow> case visit_each f ds st of Inl e \<Rightarrow> e = err | Inr st' \<Rightarrow> True"
  using f
proof (induction ds arbitrary: st)
  case (Cons d ds)
  show ?case
  proof (cases "f d st")
    case (Inl e)
    with Cons.prems(2) [of d st] Cons.prems(1) show ?thesis by simp
  next
    case (Inr st1)
    with Cons.prems(2) [of d st] Cons.prems(1) have "Q st1" by simp
    with Cons.IH [of st1] Cons.prems(2) Inr show ?thesis by simp
  qed
qed simp

lemma visit_fuel:
  assumes closed: "\<And>x. x \<in> set nodes \<Longrightarrow> \<exists>ds. D x = Some ds \<and> set ds \<subseteq> set nodes"
  shows "s \<in> set nodes \<Longrightarrow> marks_ok st \<Longrightarrow> unmarked nodes st < n \<Longrightarrow>
    (case visit n D s st of Inl e \<Rightarrow> e = cycle_error | Inr st' \<Rightarrow> True)"
proof (induction n arbitrary: s st)
  case (Suc n)
  show ?case
  proof (cases "st s = Some 1 \<or> st s = Some 2")
    case False
    with Suc.prems have none: "st s = None" by (auto simp: marks_ok_def)
    obtain ds where ds: "D s = Some ds" "set ds \<subseteq> set nodes" using closed Suc.prems(1) by blast
    let ?Q = "\<lambda>st. marks_ok st \<and> unmarked nodes st < n"
    have "?Q (st(s \<mapsto> 1))"
      using unmarked_mark [of s nodes st 1] Suc.prems none by (simp add: marks_ok_def)
    moreover have "case visit n D d st of Inl e \<Rightarrow> e = cycle_error | Inr st' \<Rightarrow> ?Q st'"
      if "d \<in> set ds" "?Q st" for d st
      using Suc.IH [of d st] that ds visit_marks_ok [of n D d st] visit_grows [of n D d st]
        unmarked_grows [of st _ nodes] by (fastforce split: sum.splits)
    ultimately have "case visit_each (visit n D) ds (st(s \<mapsto> 1)) of Inl e \<Rightarrow> e = cycle_error | Inr st' \<Rightarrow> True"
      by (intro visit_each_error [where Q = ?Q]) auto
    with False ds none show ?thesis by (auto split: sum.splits)
  qed auto
qed simp

lemma visit_each_succeeds:
  assumes f: "\<And>d st. d \<in> set ds \<Longrightarrow> Q st \<Longrightarrow> \<exists>st'. f d st = Inr st' \<and> Q st'"
  shows "Q st \<Longrightarrow> \<exists>st'. visit_each f ds st = Inr st'"
  using f
proof (induction ds arbitrary: st)
  case (Cons d ds)
  from Cons.prems(2) [of d st] Cons.prems(1) obtain st1 where "f d st = Inr st1" "Q st1" by auto
  with Cons.IH [of st1] Cons.prems(2) show ?case by auto
qed simp

lemma visit_succeeds:
  assumes closed: "\<And>x. x \<in> set nodes \<Longrightarrow> \<exists>ds. D x = Some ds \<and> set ds \<subseteq> set nodes"
    and rank: "\<And>x ds d. x \<in> set nodes \<Longrightarrow> D x = Some ds \<Longrightarrow> d \<in> set ds \<Longrightarrow> r d < (r x :: nat)"
  shows "s \<in> set nodes \<Longrightarrow> marks_ok st \<Longrightarrow> unmarked nodes st < n \<Longrightarrow>
    \<forall>x. st x = Some 1 \<longrightarrow> r s < r x \<Longrightarrow> \<exists>st'. visit n D s st = Inr st'"
proof (induction n arbitrary: s st)
  case (Suc n)
  have n1: "st s \<noteq> Some 1" using Suc.prems(4) by auto
  show ?case
  proof (cases "st s = Some 2")
    case False
    with n1 Suc.prems have none: "st s = None" by (auto simp: marks_ok_def)
    obtain ds where ds: "D s = Some ds" "set ds \<subseteq> set nodes" using closed Suc.prems(1) by blast
    let ?Q = "\<lambda>u. marks_ok u \<and> unmarked nodes u < n \<and> grows (st(s \<mapsto> 1)) u"
    have "?Q (st(s \<mapsto> 1))"
      using unmarked_mark [of s nodes st 1] Suc.prems none by (simp add: marks_ok_def)
    moreover have "\<exists>u'. visit n D d u = Inr u' \<and> ?Q u'" if d: "d \<in> set ds" and u: "?Q u" for d u
    proof -
      have "\<forall>x. u x = Some 1 \<longrightarrow> r d < r x"
      proof (intro allI impI)
        fix x
        assume "u x = Some 1"
        with u have "(st(s \<mapsto> 1)) x = Some 1" by (simp add: grows_def)
        with Suc.prems(4) rank [OF Suc.prems(1) ds(1) d] show "r d < r x"
          by (metis fun_upd_other order_less_trans)
      qed
      then obtain u' where u': "visit n D d u = Inr u'" using Suc.IH [of d u] d ds u by auto
      then have "grows u u'" "marks_ok u'" using visit_grows visit_marks_ok u by blast+
      with u u' unmarked_grows [of u u' nodes] show ?thesis by (auto intro: grows_trans)
    qed
    ultimately have "\<exists>u. visit_each (visit n D) ds (st(s \<mapsto> 1)) = Inr u"
      by (intro visit_each_succeeds [where Q = ?Q]) auto
    with False n1 ds none show ?thesis by auto
  qed simp
qed simp

section \<open>The validator decides acyclicity\<close>

definition step_deps :: "strategy_spec \<Rightarrow> string \<Rightarrow> string list" where
  "step_deps spec x = (case spec_dependencies spec x of None \<Rightarrow> [] | Some ds \<Rightarrow> ds)"

abbreviation step_ids :: "strategy_spec \<Rightarrow> string list" where
  "step_ids spec \<equiv> map ps_step_id (ss_pipeline spec)"

lemma spec_dependencies_step:
  "distinct (step_ids spec) \<Longrightarrow> s \<in> set (ss_pipeline spec) \<Longrightarrow>
   spec_dependencies spec (ps_step_id s) = Some (ps_depends_on s)"
  unfolding spec_dependencies_def by (rule map_of_is_SomeI) (auto simp: comp_def)

lemma step_deps_step [simp]:
  "distinct (step_ids spec) \<Longrightarrow> s \<in> set (ss_pipeline spec) \<Longrightarrow> step_deps spec (ps_step_id s) = ps_depends_on s"
  by (simp add: step_deps_def spec_dependencies_step)

lemma check_acyclic_correct:
  assumes dist: "distinct (step_ids spec)"
    and known: "\<forall>s\<in>set (ss_pipeline spec). set (ps_depends_on s) \<subseteq> set (step_ids spec)"
  shows "check_acyclic spec =
    (if acyclic_deps (step_ids spec) (step_deps spec) then Inr () else Inl cycle_error)"
proof -
  let ?N = "step_ids spec" and ?D = "spec_dependencies spec"
  let ?n = "Suc (length (ss_pipeline spec))"
  have closed: "\<exists>ds. ?D x = Some ds \<and> set ds \<subseteq> set ?N" if "x \<in> set ?N" for x
    using that known spec_dependencies_step [OF dist] by force
  have un: "unmarked ?N st < ?n" for st
  proof -
    have "unmarked ?N st \<le> card (set ?N)" unfolding unmarked_def by (rule card_mono) auto
    also have "\<dots> \<le> length (ss_pipeline spec)" using card_length [of ?N] by simp
    finally show ?thesis by simp
  qed
  have ok0: "marks_ok Map.empty" by (simp add: marks_ok_def)
  have err: "case visit_each (visit ?n ?D) ?N Map.empty of Inl e \<Rightarrow> e = cycle_error | Inr st' \<Rightarrow> True"
  proof (rule visit_each_error [where Q = marks_ok])
    fix d st
    assume "d \<in> set ?N" "marks_ok st"
    with visit_fuel [where nodes = ?N and D = ?D and s = d and st = st and n = ?n]
      closed un visit_marks_ok
    show "case visit ?n ?D d st of Inl e \<Rightarrow> e = cycle_error | Inr st' \<Rightarrow> marks_ok st'"
      by (cases "visit ?n ?D d st") (auto simp del: visit.simps)
  qed (rule ok0)
  have sound: "acyclic_deps ?N (step_deps spec)" if acc: "visit_each (visit ?n ?D) ?N Map.empty = Inr st" for st
  proof -
    have fin: "\<forall>d\<in>set ?N. st d = Some 2"
      using visit_each_visit_grows [OF acc] by simp
    have "finished_ranked ?D Map.empty" by (simp add: finished_ranked_def)
    from visit_each_inv [where P = "finished_ranked ?D", OF acc this] visit_finished_ranked
    have "finished_ranked ?D st" by blast
    with fin obtain r :: "string \<Rightarrow> nat" where
      r: "\<And>x ds d. x \<in> set ?N \<Longrightarrow> ?D x = Some ds \<Longrightarrow> d \<in> set ds \<Longrightarrow> r d < r x"
      unfolding finished_ranked_def by blast
    have "ranked ?N (step_deps spec) r"
      unfolding ranked_def using r closed by (fastforce simp: step_deps_def)
    then show ?thesis unfolding acyclic_deps_def by blast
  qed
  have complete: "\<exists>st. visit_each (visit ?n ?D) ?N Map.empty = Inr st"
    if "acyclic_deps ?N (step_deps spec)"
  proof -
    from that obtain r where r: "ranked ?N (step_deps spec) r" by (auto simp: acyclic_deps_def)
    have rank: "r d < r x" if "x \<in> set ?N" "?D x = Some ds" "d \<in> set ds" for x ds d
      using r that unfolding ranked_def step_deps_def by force
    let ?Q = "\<lambda>st. marks_ok st \<and> (\<forall>x. st x \<noteq> Some 1)"
    show ?thesis
    proof (rule visit_each_succeeds [where Q = ?Q])
      fix d st
      assume d: "d \<in> set ?N" and q: "?Q st"
      then obtain st' where "visit ?n ?D d st = Inr st'"
        using visit_succeeds [where nodes = ?N and D = ?D and r = r and s = d and st = st and n = ?n]
          closed rank un by blast
      with q visit_marks_ok visit_grows show "\<exists>st'. visit ?n ?D d st = Inr st' \<and> ?Q st'"
        unfolding grows_def by blast
    qed (simp add: ok0)
  qed
  show ?thesis
    using err sound complete
    by (cases "visit_each (visit ?n ?D) ?N Map.empty") (auto simp: check_acyclic_def)
qed

lemma valid_spec_facts:
  assumes "valid_spec spec"
  shows "distinct (step_ids spec)" "distinct (map ps_rule_id (ss_pipeline spec))"
    "closed_deps (step_ids spec) (step_deps spec)" "acyclic_deps (step_ids spec) (step_deps spec)"
    "\<forall>s\<in>set (ss_pipeline spec). set (ps_depends_on s) \<subseteq> set (step_ids spec)"
    "\<forall>s\<in>set (ss_pipeline spec). distinct (ps_depends_on s)"
    "is_ok (validate_weights (ss_scoring spec))"
    "\<forall>w\<in>set (so_weights (ss_scoring spec)). scoring_weight_fields w"
    "set (map rb_rule_id (ss_bindings spec)) = set (map ps_rule_id (ss_pipeline spec))"
    "\<forall>s\<in>set (ss_pipeline spec). pipeline_step_fields s"
proof -
  from assms have g: "validate_graph_and_bindings spec = Inr spec"
    and f: "\<forall>s\<in>set (ss_pipeline spec). is_ok (validate_dependencies s)"
      "is_ok (validate_weights (ss_scoring spec))"
      "\<forall>w\<in>set (so_weights (ss_scoring spec)). scoring_weight_fields w"
      "\<forall>s\<in>set (ss_pipeline spec). pipeline_step_fields s"
    by (simp_all add: valid_spec_def make_strategy_spec_def split: if_splits)
  show d: "distinct (step_ids spec)" and "distinct (map ps_rule_id (ss_pipeline spec))"
    and k: "\<forall>s\<in>set (ss_pipeline spec). set (ps_depends_on s) \<subseteq> set (step_ids spec)"
    and "set (map rb_rule_id (ss_bindings spec)) = set (map ps_rule_id (ss_pipeline spec))"
    using g by (auto simp: validate_graph_and_bindings_def Let_def split: if_splits)
  have "check_acyclic spec = Inr ()"
    using g by (auto simp: validate_graph_and_bindings_def Let_def split: if_splits)
  with check_acyclic_correct [OF d k] show "acyclic_deps (step_ids spec) (step_deps spec)"
    by (auto split: if_splits)
  show "closed_deps (step_ids spec) (step_deps spec)" using k d by (auto simp: closed_deps_def)
  show "\<forall>s\<in>set (ss_pipeline spec). distinct (ps_depends_on s)"
    using f(1) by (auto simp: validate_dependencies_def split: if_splits)
  show "is_ok (validate_weights (ss_scoring spec))"
    "\<forall>w\<in>set (so_weights (ss_scoring spec)). scoring_weight_fields w"
    "\<forall>s\<in>set (ss_pipeline spec). pipeline_step_fields s"
    by (fact f)+
qed

section \<open>Properties\<close>

text \<open>C3: On a pipeline with unique step ids and known dependencies, the depth-first search accepts
  exactly the acyclic graphs and reports every other one as a cycle; its recursion bound is never
  reached.\<close>

theorem cycle_check_decides_acyclicity:
  assumes "distinct (step_ids spec)"
    and "\<forall>s\<in>set (ss_pipeline spec). set (ps_depends_on s) \<subseteq> set (step_ids spec)"
  shows "check_acyclic spec =
    (if acyclic_deps (step_ids spec) (step_deps spec) then Inr () else Inl cycle_error)"
  using assms by (rule check_acyclic_correct)

definition demo_step :: "string \<Rightarrow> string list \<Rightarrow> pipeline_step" where
  "demo_step i ds = \<lparr> ps_step_id = i, ps_rule_id = ''r-'' @ i, ps_rule_version = ''1.0.0'',
     ps_depends_on = ds, ps_dependency_policy = DP_REQUIRE_PASS, ps_enabled = True \<rparr>"

definition demo_spec :: "pipeline_step list \<Rightarrow> strategy_spec" where
  "demo_spec steps =
     \<lparr> ss_strategy_id = ''demo'', ss_version = ''1.0.0'', ss_family = ''core'', ss_engine = ''synthetic'',
       ss_run_id = ''run-1'', ss_mode = SM_PRIMARY,
       ss_rule_pack_hash = ''sha256:'' @ replicate 64 CHR ''a'', ss_pipeline = steps,
       ss_bindings = map (\<lambda>s. \<lparr> rb_rule_id = ps_rule_id s, rb_alias = None, rb_parameters = [] \<rparr>) steps,
       ss_policies = \<lparr> sp_fail_closed = True, sp_stop_on_error = True, sp_max_candidate_age = None,
         sp_minimum_passing_rules = 1, sp_allow_not_applicable = True \<rparr>,
       ss_scoring = \<lparr> so_pass_threshold = 1 / 2,
         so_weights = [\<lparr> sw_rule_id = ''r-a'', sw_weight = 1 \<rparr>], so_require_complete_scoring = True \<rparr>,
       ss_description = None, ss_tags = [] \<rparr>"

theorem cycle_check_decides_acyclicity_witness:
  "check_acyclic (demo_spec [demo_step ''a'' [''b''], demo_step ''b'' [''a'']]) = Inl cycle_error \<and>
   \<not> acyclic_deps [''a'', ''b''] (step_deps (demo_spec [demo_step ''a'' [''b''], demo_step ''b'' [''a'']]))"
proof -
  let ?s = "demo_spec [demo_step ''a'' [''b''], demo_step ''b'' [''a'']]"
  have e: "check_acyclic ?s = Inl cycle_error"
    by (simp add: check_acyclic_def demo_spec_def demo_step_def spec_dependencies_def)
  have "check_acyclic ?s = (if acyclic_deps (step_ids ?s) (step_deps ?s) then Inr () else Inl cycle_error)"
    by (rule cycle_check_decides_acyclicity) (simp_all add: demo_spec_def demo_step_def)
  with e show ?thesis by (auto simp: demo_spec_def demo_step_def split: if_splits)
qed

end
