(* ===== verification/Topological_Order.thy ===== *)
theory Topological_Order
  imports Strategy_Graph
begin

text \<open>
  \<open>_stable_topological_order\<close> of app/strategy_runtime/compiler.py: Kahn's algorithm with the ready
  steps kept in declaration order. The specification is a list schedule: every position holds the
  earliest declared step whose dependencies all stand before it.
\<close>

section \<open>The algorithm\<close>

definition step_position :: "strategy_spec \<Rightarrow> string \<Rightarrow> nat" where
  "step_position spec x =
     (case map_of (rev (zip (step_ids spec) [0..<length (ss_pipeline spec)])) x of
        Some i \<Rightarrow> i | None \<Rightarrow> 0)"

definition incoming_counts :: "strategy_spec \<Rightarrow> string \<Rightarrow> int" where
  "incoming_counts spec x =
     (case map_of (rev (map (\<lambda>s. (ps_step_id s, int (length (ps_depends_on s)))) (ss_pipeline spec))) x of
        Some n \<Rightarrow> n | None \<Rightarrow> 0)"

definition dependents_of :: "strategy_spec \<Rightarrow> string \<Rightarrow> string list" where
  "dependents_of spec x =
     concat (map (\<lambda>s. map (\<lambda>_. ps_step_id s) (filter (\<lambda>d. d = x) (ps_depends_on s))) (ss_pipeline spec))"

text \<open>The inner loop: one dependent at a time loses an incoming edge and may become ready.\<close>

fun relax :: "(string \<Rightarrow> nat) \<Rightarrow> string list \<Rightarrow> (string \<Rightarrow> int) \<Rightarrow> string list \<Rightarrow>
    (string \<Rightarrow> int) \<times> string list" where
  "relax pos [] incoming ready = (incoming, ready)"
| "relax pos (d # ds) incoming ready =
     (let incoming' = incoming (d := incoming d - 1) in
      relax pos ds incoming' (if incoming' d = 0 then sort_key pos (ready @ [d]) else ready))"

text \<open>
  The outer loop. The bound counts iterations; one more than the number of steps is enough, as each
  step is popped at most once.
\<close>

fun kahn :: "nat \<Rightarrow> (string \<Rightarrow> nat) \<Rightarrow> (string \<Rightarrow> string list) \<Rightarrow> (string \<Rightarrow> int) \<Rightarrow> string list \<Rightarrow>
    string list \<Rightarrow> string list result" where
  "kahn n pos dependents incoming [] ordered = Inr ordered"
| "kahn 0 pos dependents incoming (step_id # ready) ordered = Inl OutOfFuel"
| "kahn (Suc n) pos dependents incoming (step_id # ready) ordered =
     (let (incoming', ready') = relax pos (dependents step_id) incoming ready
      in kahn n pos dependents incoming' ready' (ordered @ [step_id]))"

definition stable_topological_order :: "strategy_spec \<Rightarrow> string list result" where
  "stable_topological_order spec =
     (let ids = fromkeys (step_ids spec); incoming = incoming_counts spec in
      if \<exists>s\<in>set (ss_pipeline spec). \<not> set (ps_depends_on s) \<subseteq> set ids then Inl KeyError
      else bind_result
        (kahn (Suc (length (ss_pipeline spec))) (step_position spec) (dependents_of spec) incoming
           (sort_key (step_position spec) (filter (\<lambda>x. incoming x = 0) ids)) [])
        (\<lambda>ordered.
           if length ordered \<noteq> length ids
           then Inl (CompileError ''pipeline dependency graph contains a cycle'')
           else Inr ordered))"

section \<open>The specification\<close>

definition schedulable :: "string list \<Rightarrow> (string \<Rightarrow> string list) \<Rightarrow> string list \<Rightarrow> string \<Rightarrow> bool" where
  "schedulable nodes deps before x \<longleftrightarrow> x \<in> set nodes \<and> x \<notin> set before \<and> set (deps x) \<subseteq> set before"

definition list_schedule ::
    "string list \<Rightarrow> (string \<Rightarrow> string list) \<Rightarrow> (string \<Rightarrow> nat) \<Rightarrow> string list \<Rightarrow> bool" where
  "list_schedule nodes deps pos ordered \<longleftrightarrow>
     (\<forall>i < length ordered. schedulable nodes deps (take i ordered) (ordered ! i) \<and>
        (\<forall>x. schedulable nodes deps (take i ordered) x \<longrightarrow> pos (ordered ! i) \<le> pos x))"

lemma list_schedule_Nil [simp]: "list_schedule nodes deps pos []"
  by (simp add: list_schedule_def)

lemma list_schedule_snoc [simp]:
  "list_schedule nodes deps pos (xs @ [s]) \<longleftrightarrow>
     list_schedule nodes deps pos xs \<and> schedulable nodes deps xs s \<and>
     (\<forall>x. schedulable nodes deps xs x \<longrightarrow> pos s \<le> pos x)"
  by (auto simp: list_schedule_def nth_append less_Suc_eq)

lemma list_schedule_closed:
  "list_schedule nodes deps pos xs \<Longrightarrow> x \<in> set xs \<Longrightarrow> x \<in> set nodes \<and> set (deps x) \<subseteq> set xs"
proof (induction xs rule: rev_induct)
  case (snoc y xs)
  then show ?case by (auto simp: schedulable_def)
qed simp

lemma list_schedule_distinct: "list_schedule nodes deps pos xs \<Longrightarrow> distinct xs"
  by (induction xs rule: rev_induct) (auto simp: schedulable_def)

lemma list_schedule_dep_before:
  assumes "list_schedule nodes deps pos xs" "i < length xs" "d \<in> set (deps (xs ! i))"
  shows "\<exists>j < i. xs ! j = d"
proof -
  from assms have "d \<in> set (take i xs)" by (auto simp: list_schedule_def schedulable_def)
  then show ?thesis using assms(2) by (auto simp: in_set_conv_nth)
qed

section \<open>The loop invariant\<close>

definition kahn_inv :: "string list \<Rightarrow> (string \<Rightarrow> string list) \<Rightarrow> (string \<Rightarrow> nat) \<Rightarrow> (string \<Rightarrow> int) \<Rightarrow>
    string list \<Rightarrow> string list \<Rightarrow> bool" where
  "kahn_inv nodes deps pos incoming ready ordered \<longleftrightarrow>
     list_schedule nodes deps pos ordered \<and>
     (\<forall>x\<in>set nodes. incoming x = int (card (set (deps x) - set ordered))) \<and>
     distinct ready \<and> (\<forall>x. x \<in> set ready \<longleftrightarrow> schedulable nodes deps ordered x) \<and>
     sorted (map pos ready)"

lemma relax_correct:
  assumes "distinct ds" "sorted (map pos ready)" "distinct ready"
    "\<forall>d\<in>set ds. incoming d = 1 \<longrightarrow> d \<notin> set ready"
    "relax pos ds incoming ready = (incoming', ready')"
  shows "(\<forall>x. incoming' x = (if x \<in> set ds then incoming x - 1 else incoming x)) \<and>
     sorted (map pos ready') \<and> distinct ready' \<and>
     set ready' = set ready \<union> {d \<in> set ds. incoming d = 1}"
  using assms
proof (induction ds arbitrary: incoming ready)
  case (Cons d ds)
  let ?inc = "incoming (d := incoming d - 1)"
  let ?ready = "if incoming d = 1 then sort_key pos (ready @ [d]) else ready"
  have 1: "relax pos ds ?inc ?ready = (incoming', ready')" using Cons.prems(5) by (simp add: Let_def)
  have 2: "sorted (map pos ?ready)" using Cons.prems(2) by simp
  have 3: "distinct ?ready" using Cons.prems(3,4) by simp
  have 4: "\<forall>x\<in>set ds. ?inc x = 1 \<longrightarrow> x \<notin> set ?ready" using Cons.prems(1,4) by auto
  have 5: "distinct ds" "d \<notin> set ds" using Cons.prems(1) by simp_all
  have 6: "set ready' = set ?ready \<union> {x \<in> set ds. ?inc x = 1}"
    and 7: "\<forall>x. incoming' x = (if x \<in> set ds then ?inc x - 1 else ?inc x)"
    and 8: "sorted (map pos ready')" "distinct ready'"
    using Cons.IH [OF 5(1) 2 3 4 1] by blast+
  have "set ready' = set ready \<union> {x \<in> set (d # ds). incoming x = 1}"
    unfolding 6 using 5(2) by (cases "incoming d = 1") auto
  moreover have "\<forall>x. incoming' x = (if x \<in> set (d # ds) then incoming x - 1 else incoming x)"
    using 7 5(2) by simp
  ultimately show ?case using 8 by blast
qed simp

lemma card_1_member: "s \<in> A \<Longrightarrow> card A = 1 \<longleftrightarrow> A = {s}"
  by (auto simp: card_1_singleton_iff)

lemma card_Diff_insert_int:
  "finite A \<Longrightarrow> s \<in> A \<Longrightarrow> int (card (A - {s})) = int (card A) - 1"
  by (metis card_Suc_Diff1 of_nat_Suc add_diff_cancel_left')

lemma kahn_inv_step:
  assumes inv: "kahn_inv nodes deps pos incoming (s # ready) ordered"
    and dep: "distinct (dependents s)" "set (dependents s) = {t \<in> set nodes. s \<in> set (deps t)}"
    and r: "relax pos (dependents s) incoming ready = (incoming', ready')"
  shows "kahn_inv nodes deps pos incoming' ready' (ordered @ [s])"
proof -
  note i = inv [unfolded kahn_inv_def]
  from i have s: "schedulable nodes deps ordered s" and ls: "list_schedule nodes deps pos ordered"
    and inc: "\<And>x. x \<in> set nodes \<Longrightarrow> incoming x = int (card (set (deps x) - set ordered))"
    and rdy: "\<And>x. schedulable nodes deps ordered x \<longleftrightarrow> x = s \<or> x \<in> set ready"
    and d: "distinct ready" "s \<notin> set ready" "sorted (map pos ready)" "\<forall>x\<in>set ready. pos s \<le> pos x"
    by auto
  have s': "s \<in> set nodes" "s \<notin> set ordered" "set (deps s) \<subseteq> set ordered"
    using s by (auto simp: schedulable_def)
  have card1: "incoming t = 1 \<longleftrightarrow> set (deps t) - set ordered = {s}" if "t \<in> set (dependents s)" for t
  proof -
    have "t \<in> set nodes" "s \<in> set (deps t) - set ordered" using that dep(2) s'(2) by auto
    then show ?thesis using inc [of t] card_1_member [of s "set (deps t) - set ordered"] by simp
  qed
  have fresh: "\<forall>t\<in>set (dependents s). incoming t = 1 \<longrightarrow> t \<notin> set ready"
    using dep(2) rdy s'(2) by (auto simp: schedulable_def)
  from relax_correct [OF dep(1) d(3,1) fresh r]
  have out: "\<And>x. incoming' x = (if x \<in> set (dependents s) then incoming x - 1 else incoming x)"
    "sorted (map pos ready')" "distinct ready'"
    "set ready' = set ready \<union> {t \<in> set (dependents s). incoming t = 1}" by auto
  have "incoming' x = int (card (set (deps x) - set (ordered @ [s])))" if x: "x \<in> set nodes" for x
  proof (cases "s \<in> set (deps x)")
    case True
    have "set (deps x) - set (ordered @ [s]) = set (deps x) - set ordered - {s}" by auto
    moreover have "s \<in> set (deps x) - set ordered" using True s'(2) by simp
    moreover have "incoming' x = incoming x - 1" using True x dep(2) out(1) [of x] by simp
    ultimately show ?thesis using inc [OF x]
      using card_Diff_insert_int [of "set (deps x) - set ordered" s] 
      by (metis (no_types, lifting) Diff_iff finite_Diff List.finite_set)
  next
    case False
    then have "set (deps x) - set (ordered @ [s]) = set (deps x) - set ordered" by auto
    with False x inc [OF x] dep(2) out(1) show ?thesis by simp
  qed
  moreover have "x \<in> set ready' \<longleftrightarrow> schedulable nodes deps (ordered @ [s]) x" for x
  proof (cases "x \<in> set nodes \<and> s \<in> set (deps x)")
    case True
    have no: "x \<notin> set ordered"
      using list_schedule_closed [OF ls, of x] True s'(2) by auto
    have "x \<noteq> s" using True s'(2,3) by auto
    moreover have "x \<notin> set ready" using True rdy [of x] s'(2) by (auto simp: schedulable_def)
    moreover have "x \<in> set (dependents s)" using True dep(2) by simp
    moreover from this have "incoming x = 1 \<longleftrightarrow> set (deps x) \<subseteq> insert s (set ordered)"
      using card1 [of x] True s'(2) by auto
    ultimately show ?thesis using True no out(4) by (simp add: schedulable_def)
  next
    case False
    then have "x \<notin> set (dependents s)" using dep(2) by auto
    moreover have "schedulable nodes deps (ordered @ [s]) x \<longleftrightarrow> schedulable nodes deps ordered x \<and> x \<noteq> s"
      using False by (auto simp: schedulable_def)
    ultimately show ?thesis using out(4) rdy [of x] d(2) by auto
  qed
  moreover have "list_schedule nodes deps pos (ordered @ [s])"
    using ls s rdy d(4) by auto
  ultimately show ?thesis unfolding kahn_inv_def using out(2,3) by blast
qed

lemma list_schedule_complete:
  assumes "list_schedule nodes deps pos ordered" "\<And>x. \<not> schedulable nodes deps ordered x"
    and "acyclic_deps nodes deps" "closed_deps nodes deps"
  shows "set ordered = set nodes"
proof (rule ccontr)
  assume "set ordered \<noteq> set nodes"
  moreover have sub: "set ordered \<subseteq> set nodes" using list_schedule_closed [OF assms(1)] by auto
  ultimately have ex: "\<exists>x. x \<in> set nodes - set ordered" by auto
  obtain r where r: "ranked nodes deps r" using assms(3) by (auto simp: acyclic_deps_def)
  obtain x where x: "x \<in> set nodes - set ordered" "\<And>y. y \<in> set nodes - set ordered \<Longrightarrow> r x \<le> r y"
    using ex ex_has_least_nat [of "\<lambda>x. x \<in> set nodes - set ordered" _ r] by blast
  have "set (deps x) \<subseteq> set ordered"
  proof
    fix d
    assume d: "d \<in> set (deps x)"
    then have "r d < r x" "d \<in> set nodes" using r x(1) assms(4) by (auto simp: ranked_def closed_deps_def)
    then show "d \<in> set ordered" using x(2) [of d] by auto
  qed
  with x(1) assms(2) [of x] show False by (simp add: schedulable_def)
qed

lemma kahn_correct:
  assumes acyc: "acyclic_deps nodes deps" and closed: "closed_deps nodes deps"
    and dep: "\<And>s. s \<in> set nodes \<Longrightarrow> distinct (dependents s)"
      "\<And>s. s \<in> set nodes \<Longrightarrow> set (dependents s) = {t \<in> set nodes. s \<in> set (deps t)}"
  shows "kahn_inv nodes deps pos incoming ready ordered \<Longrightarrow> card (set nodes) < n + length ordered \<Longrightarrow>
    \<exists>res. kahn n pos dependents incoming ready ordered = Inr res \<and>
      list_schedule nodes deps pos res \<and> set res = set nodes"
proof (induction n arbitrary: incoming ready ordered)
  case 0
  then have ls: "list_schedule nodes deps pos ordered" by (simp add: kahn_inv_def)
  then have "set ordered \<subseteq> set nodes" using list_schedule_closed by blast
  then have "length ordered \<le> card (set nodes)"
    using distinct_card [OF list_schedule_distinct [OF ls]] card_mono [of "set nodes" "set ordered"] by simp
  with 0 show ?case by simp
next
  case (Suc n)
  show ?case
  proof (cases ready)
    case Nil
    with Suc.prems have "list_schedule nodes deps pos ordered" "\<And>x. \<not> schedulable nodes deps ordered x"
      by (simp_all add: kahn_inv_def)
    from list_schedule_complete [OF this acyc closed] this Nil show ?thesis by simp
  next
    case (Cons s rest)
    obtain incoming' ready' where r: "relax pos (dependents s) incoming rest = (incoming', ready')"
      by (cases "relax pos (dependents s) incoming rest")
    have s: "s \<in> set nodes" using Suc.prems(1) Cons by (auto simp: kahn_inv_def schedulable_def)
    have "kahn_inv nodes deps pos incoming' ready' (ordered @ [s])"
      using kahn_inv_step [where dependents = dependents and s = s, OF _ dep(1) [OF s] dep(2) [OF s] r] Suc.prems(1) Cons by simp
    from Suc.IH [OF this] Suc.prems(2) r Cons show ?thesis by simp
  qed
qed

section \<open>The order of a valid specification\<close>

lemma map_of_zip_rev:
  "distinct xs \<Longrightarrow> map_of (rev (zip xs ys)) = map_of (zip xs ys)"
  by (rule map_of_inject_set [THEN iffD2]) (auto simp: rev_map [symmetric] map_fst_zip_take distinct_take)

lemma map_of_rev_distinct: "distinct (map fst kvs) \<Longrightarrow> map_of (rev kvs) = map_of kvs"
  by (rule map_of_inject_set [THEN iffD2]) (auto simp: rev_map [symmetric])

lemma incoming_counts_step:
  assumes "distinct (step_ids spec)" "s \<in> set (ss_pipeline spec)"
  shows "incoming_counts spec (ps_step_id s) = int (length (ps_depends_on s))"
proof -
  let ?kvs = "map (\<lambda>s. (ps_step_id s, int (length (ps_depends_on s)))) (ss_pipeline spec)"
  have d: "distinct (map fst ?kvs)" using assms(1) by (simp add: comp_def)
  have "map_of ?kvs (ps_step_id s) = Some (int (length (ps_depends_on s)))"
    using d assms(2) by (intro map_of_is_SomeI) auto
  then show ?thesis unfolding incoming_counts_def map_of_rev_distinct [OF d] by simp
qed

lemma map_filter_eq:
  "distinct ds \<Longrightarrow> map (\<lambda>_. y) (filter (\<lambda>d. d = x) ds) = (if x \<in> set ds then [y] else [])"
  by (induction ds) (auto simp: filter_empty_conv)

lemma concat_map_if: "concat (map (\<lambda>s. if P s then [f s] else []) xs) = map f (filter P xs)"
  by (induction xs) auto

lemma dependents_of_facts:
  assumes "distinct (step_ids spec)" "\<forall>s\<in>set (ss_pipeline spec). distinct (ps_depends_on s)"
  shows "distinct (dependents_of spec x)"
    "set (dependents_of spec x) = {t \<in> set (step_ids spec). x \<in> set (step_deps spec t)}"
proof -
  have one: "map (\<lambda>_. ps_step_id s) (filter (\<lambda>d. d = x) (ps_depends_on s)) =
      (if x \<in> set (ps_depends_on s) then [ps_step_id s] else [])" if "s \<in> set (ss_pipeline spec)" for s
    using assms(2) that by (intro map_filter_eq) simp
  have "dependents_of spec x = concat (map (\<lambda>s. if x \<in> set (ps_depends_on s) then [ps_step_id s] else []) (ss_pipeline spec))"
    unfolding dependents_of_def by (intro arg_cong [where f = concat] map_cong refl one)
  also have "\<dots> = map ps_step_id (filter (\<lambda>s. x \<in> set (ps_depends_on s)) (ss_pipeline spec))"
    by (rule concat_map_if)
  finally have e: "dependents_of spec x = map ps_step_id (filter (\<lambda>s. x \<in> set (ps_depends_on s)) (ss_pipeline spec))" .
  show "distinct (dependents_of spec x)" unfolding e using assms(1) by (rule distinct_map_filter)
  show "set (dependents_of spec x) = {t \<in> set (step_ids spec). x \<in> set (step_deps spec t)}"
    unfolding e using assms(1) by auto
qed

lemma stable_topological_order_correct:
  assumes "valid_spec spec"
  shows "\<exists>ordered. stable_topological_order spec = Inr ordered \<and> set ordered = set (step_ids spec) \<and>
     list_schedule (step_ids spec) (step_deps spec) (step_position spec) ordered"
proof -
  let ?N = "step_ids spec" and ?D = "step_deps spec" and ?pos = "step_position spec"
  let ?inc = "incoming_counts spec"
  note v = valid_spec_facts [OF assms]
  let ?ready = "sort_key ?pos (filter (\<lambda>x. ?inc x = 0) ?N)"
  have inc: "?inc x = int (card (set (?D x)))" if "x \<in> set ?N" for x
    using that v(1,6) incoming_counts_step [OF v(1)] by (auto simp: distinct_card)
  have "kahn_inv ?N ?D ?pos ?inc ?ready []"
    using v(1) inc by (auto simp: kahn_inv_def schedulable_def)
  moreover have "card (set ?N) < Suc (length (ss_pipeline spec)) + length []"
    using card_length [of ?N] by simp
  ultimately obtain res where res:
    "kahn (Suc (length (ss_pipeline spec))) ?pos (dependents_of spec) ?inc ?ready [] = Inr res"
    "list_schedule ?N ?D ?pos res" "set res = set ?N"
    using kahn_correct [OF v(4,3) dependents_of_facts [OF v(1,6)]] by blast
  have "length res = length ?N"
    using res(3) distinct_card [OF list_schedule_distinct [OF res(2)]] distinct_card [OF v(1)] by simp
  with res v(5) show ?thesis
    by (simp add: stable_topological_order_def Let_def fromkeys_distinct [OF v(1)])
qed

section \<open>Properties\<close>

text \<open>C1: For every specification the contract accepts, the compiler finds an execution order: a
  permutation of the pipeline in which each position holds the earliest declared step whose
  dependencies all come before it. The loop bound is never reached and no cycle is reported.\<close>

theorem execution_order_is_list_schedule:
  assumes "valid_spec spec"
  shows "\<exists>ordered. stable_topological_order spec = Inr ordered \<and>
     mset ordered = mset (step_ids spec) \<and>
     list_schedule (step_ids spec) (step_deps spec) (step_position spec) ordered"
proof -
  from stable_topological_order_correct [OF assms] obtain ordered where
    o: "stable_topological_order spec = Inr ordered" "set ordered = set (step_ids spec)"
      "list_schedule (step_ids spec) (step_deps spec) (step_position spec) ordered" by blast
  have "mset ordered = mset (step_ids spec)"
    using o(2) list_schedule_distinct [OF o(3)] valid_spec_facts(1) [OF assms]
    by (metis set_eq_iff_mset_eq_distinct)
  with o show ?thesis by blast
qed

definition diamond :: strategy_spec where
  "diamond = demo_spec [demo_step ''d'' [''b'', ''c''], demo_step ''a'' [], demo_step ''c'' [''a''],
     demo_step ''b'' [''a'']]"

lemma diamond_valid: "valid_spec diamond"
  by (simp add: valid_spec_def make_strategy_spec_def diamond_def demo_spec_def demo_step_def
      validate_graph_and_bindings_def check_acyclic_def spec_dependencies_def identifier_str_def semver_def
      numeric_part_def sha256_ref_def validate_dependencies_def validate_parameters_def
      pipeline_step_fields_def rule_binding_fields_def
      strategy_policies_fields_def unit_interval_def scoring_weight_fields_def validate_weights_def
      dsum_def dadd_def Let_def char_class_defs)

theorem execution_order_is_list_schedule_witness:
  "stable_topological_order diamond = Inr [''a'', ''c'', ''b'', ''d''] \<and>
   mset [''a'', ''c'', ''b'', ''d''] = mset (step_ids diamond)"
proof -
  have "stable_topological_order diamond = Inr [''a'', ''c'', ''b'', ''d'']"
    by (simp add: stable_topological_order_def diamond_def demo_spec_def demo_step_def
        incoming_counts_def dependents_of_def step_position_def Let_def)
  with execution_order_is_list_schedule [OF diamond_valid] show ?thesis by auto
qed

end
