(* ===== verification/Rule_Registry.thy ===== *)
theory Rule_Registry
  imports Rule_Contracts
begin

text \<open>
  The in-process rule registry (app/rule_registry): exact references, manifest hashing, atomic
  registration, lookup, the lifecycle eligibility matrix and run snapshots. SHA-256 over canonical
  JSON is the parameter \<open>digest\<close>, a function of the hashed payload.
\<close>

section \<open>Values (models.py)\<close>

datatype runtime_environment = ENV_LIVE | ENV_PAPER | ENV_RESEARCH

record rule_reference =
  ref_rule_id :: string
  ref_version :: string

text \<open>The version of a reference may carry build metadata after a plus sign; the contract's may not.\<close>

definition registry_version :: "string \<Rightarrow> bool" where
  "registry_version s =
     (let core = takeWhile (\<lambda>c. c \<noteq> CHR ''+'') s; build = dropWhile (\<lambda>c. c \<noteq> CHR ''+'') s
      in semver core
         \<and> (build = [] \<or> (tl build \<noteq> [] \<and> (\<forall>c\<in>set (tl build). isalnum c \<or> c \<in> set ''.-''))))"

definition parse_reference :: "string \<Rightarrow> rule_reference result" where
  "parse_reference value =
     (let rid = takeWhile (\<lambda>c. c \<noteq> CHR ''@'') value; rest = dropWhile (\<lambda>c. c \<noteq> CHR ''@'') value
      in if rest \<noteq> [] \<and> identifier_str rid \<and> registry_version (tl rest)
         then Inr \<lparr> ref_rule_id = rid, ref_version = tl rest \<rparr>
         else Inl (ValueError ''rule reference must use exact rule_id@semver syntax''))"

definition reference_str :: "rule_reference \<Rightarrow> string" where
  "reference_str r = ref_rule_id r @ ''@'' @ ref_version r"

record registry_provider =
  rp_provider_id :: string
  rp_contract_version :: string
  rp_manifest :: rule_pack_manifest

record resolved_rule =
  rs_reference :: rule_reference
  rs_metadata :: rule_metadata
  rs_provider_id :: string
  rs_manifest_hash :: string
  rs_warnings :: "string list"

record registry_snapshot =
  sn_run_id :: string
  sn_rules :: "resolved_rule list"
  sn_snapshot_hash :: string

definition snapshot_payload :: "string \<Rightarrow> resolved_rule list \<Rightarrow> py_value" where
  "snapshot_payload run_id rules = VDict
     [(''run_id'', VStr run_id),
      (''rules'', VList (map (\<lambda>r. VDict
         [(''reference'', VStr (reference_str (rs_reference r))),
          (''implementation_hash'', VStr (rm_implementation_hash (rs_metadata r))),
          (''manifest_hash'', VStr (rs_manifest_hash r))]) rules))]"

definition make_snapshot :: "(py_value \<Rightarrow> string) \<Rightarrow> string \<Rightarrow> resolved_rule list \<Rightarrow> registry_snapshot" where
  "make_snapshot digest run_id rules =
     \<lparr> sn_run_id = run_id, sn_rules = rules,
       sn_snapshot_hash = ''sha256:'' @ digest (snapshot_payload run_id rules) \<rparr>"

section \<open>Manifest hashing (hashing.py)\<close>

definition opt_value :: "('a \<Rightarrow> py_value) \<Rightarrow> 'a option \<Rightarrow> py_value" where
  "opt_value f x = (case x of None \<Rightarrow> VNone | Some y \<Rightarrow> f y)"

definition dump_input :: "rule_input_declaration \<Rightarrow> py_value" where
  "dump_input i = VDict [(''name'', VStr (ri_name i)), (''data_type'', VStr (ri_data_type i)),
     (''required'', VBool (ri_required i)), (''description'', opt_value VStr (ri_description i)),
     (''unit'', opt_value VStr (ri_unit i))]"

definition dump_output :: "rule_output_declaration \<Rightarrow> py_value" where
  "dump_output i = VDict [(''name'', VStr (ro_name i)), (''data_type'', VStr (ro_data_type i)),
     (''description'', opt_value VStr (ro_description i)), (''unit'', opt_value VStr (ro_unit i))]"

definition dump_metadata :: "rule_metadata \<Rightarrow> py_value" where
  "dump_metadata m = VDict [(''rule_id'', VStr (rm_rule_id m)), (''name'', VStr (rm_name m)),
     (''version'', VStr (rm_version m)), (''rule_type'', VStr (rule_type_value (rm_rule_type m))),
     (''lifecycle_status'', VStr (lifecycle_status_value (rm_lifecycle_status m))),
     (''description'', VStr (rm_description m)),
     (''implementation_hash'', VStr (rm_implementation_hash m)),
     (''inputs'', VList (map dump_input (rm_inputs m))),
     (''outputs'', VList (map dump_output (rm_outputs m))),
     (''author'', opt_value VStr (rm_author m)), (''tags'', VList (map VStr (rm_tags m))),
     (''created_at'', VTime (rm_created_at m)),
     (''validated_at'', opt_value VTime (rm_validated_at m))]"

text \<open>\<open>model_dump\<close> of the manifest without its \<open>manifest_hash\<close> entry.\<close>

definition manifest_payload :: "rule_pack_manifest \<Rightarrow> py_value" where
  "manifest_payload m = VDict [(''pack_id'', VStr (mf_pack_id m)), (''version'', VStr (mf_version m)),
     (''family'', VStr (mf_family m)), (''engine'', VStr (mf_engine m)),
     (''rules'', VList (map dump_metadata (mf_rules m))), (''created_at'', VTime (mf_created_at m)),
     (''description'', opt_value VStr (mf_description m))]"

definition calculate_manifest_hash :: "(py_value \<Rightarrow> string) \<Rightarrow> rule_pack_manifest \<Rightarrow> string" where
  "calculate_manifest_hash digest m = ''sha256:'' @ digest (manifest_payload m)"

section \<open>The registry (registry.py)\<close>

type_synonym registry = "(rule_reference, resolved_rule) dict"

definition compatible_contract_versions :: "string list" where
  "compatible_contract_versions = [''1'', ''1.0.0'']"

definition metadata_reference :: "rule_metadata \<Rightarrow> rule_reference" where
  "metadata_reference m = \<lparr> ref_rule_id = rm_rule_id m, ref_version = rm_version m \<rparr>"

definition resolved_of :: "registry_provider \<Rightarrow> rule_metadata \<Rightarrow> resolved_rule" where
  "resolved_of p m = \<lparr> rs_reference = metadata_reference m, rs_metadata = m,
     rs_provider_id = rp_provider_id p, rs_manifest_hash = mf_manifest_hash (rp_manifest p),
     rs_warnings = [] \<rparr>"

text \<open>The loop over the manifest's rules; \<open>pending\<close> is filled before the index is touched.\<close>

fun collect_pending :: "registry_provider \<Rightarrow> registry \<Rightarrow> (rule_reference \<times> resolved_rule) list \<Rightarrow>
    rule_metadata list \<Rightarrow> (rule_reference \<times> resolved_rule) list result" where
  "collect_pending p rules pending [] = Inr pending"
| "collect_pending p rules pending (m # ms) =
     (let reference = metadata_reference m in
      if reference \<in> set (dkeys rules) \<or> (\<exists>item\<in>set pending. fst item = reference)
      then Inl DuplicateRuleError
      else collect_pending p rules (pending @ [(reference, resolved_of p m)]) ms)"

definition register :: "(py_value \<Rightarrow> string) \<Rightarrow> registry_provider \<Rightarrow> registry \<Rightarrow> registry result" where
  "register digest p rules =
     (if rp_contract_version p \<notin> set compatible_contract_versions then Inl IncompatibleContractError
      else if mf_manifest_hash (rp_manifest p) \<noteq> calculate_manifest_hash digest (rp_manifest p)
      then Inl HashMismatchError
      else bind_result (collect_pending p rules [] (mf_rules (rp_manifest p)))
             (\<lambda>pending. Inr (foldl (\<lambda>d item. dput (fst item) (snd item) d) rules pending)))"

datatype reference_arg = RefText string | RefValue rule_reference

definition resolve :: "registry \<Rightarrow> reference_arg \<Rightarrow> resolved_rule result" where
  "resolve rules reference =
     bind_result (case reference of RefText s \<Rightarrow> parse_reference s | RefValue r \<Rightarrow> Inr r)
       (\<lambda>parsed. case dget rules parsed of Some r \<Rightarrow> Inr r | None \<Rightarrow> Inl UnknownRuleError)"

definition eligibility_warning ::
    "lifecycle_status \<Rightarrow> strategy_mode \<Rightarrow> runtime_environment \<Rightarrow> bool \<Rightarrow> string option result" where
  "eligibility_warning status mode environment allow_deprecated_replay =
     (if status = LC_DEPRECATED
      then (if allow_deprecated_replay then Inr (Some ''DEPRECATED rule enabled for explicit replay'')
            else Inl (EligibilityError ''DEPRECATED rules require explicit replay''))
      else if mode = SM_DISABLED
      then Inl (EligibilityError ''DISABLED strategies cannot resolve eligible rules'')
      else
        let allowed =
          (if mode = SM_PRIMARY
           then (if environment = ENV_LIVE then status = LC_APPROVED
                 else environment = ENV_PAPER \<and> status \<in> {LC_PAPER, LC_APPROVED})
           else if mode = SM_CANDIDATE then status \<in> {LC_VALIDATED, LC_PAPER, LC_APPROVED}
           else status \<in> {LC_DRAFT, LC_VALIDATED, LC_PAPER, LC_APPROVED})
        in if \<not> allowed then Inl (EligibilityError ''status is not eligible for mode in environment'')
           else if mode = SM_RESEARCH \<and> status = LC_DRAFT
           then Inr (Some ''DRAFT rule enabled for RESEARCH only'')
           else Inr None)"

definition resolve_eligible ::
    "registry \<Rightarrow> strategy_mode \<Rightarrow> runtime_environment \<Rightarrow> bool \<Rightarrow> reference_arg \<Rightarrow> resolved_rule result" where
  "resolve_eligible rules mode environment allow_deprecated_replay reference =
     bind_result (resolve rules reference) (\<lambda>resolved.
       bind_result
         (eligibility_warning (rm_lifecycle_status (rs_metadata resolved)) mode environment
            allow_deprecated_replay)
         (\<lambda>warning. Inr (case warning of None \<Rightarrow> resolved | Some w \<Rightarrow> resolved \<lparr> rs_warnings := [w] \<rparr>)))"

definition snapshot ::
    "(py_value \<Rightarrow> string) \<Rightarrow> registry \<Rightarrow> string \<Rightarrow> reference_arg list \<Rightarrow> strategy_mode \<Rightarrow>
     runtime_environment \<Rightarrow> bool \<Rightarrow> registry_snapshot result" where
  "snapshot digest rules run_id references mode environment allow_deprecated_replay =
     bind_result
       (map_result (resolve_eligible rules mode environment allow_deprecated_replay) references)
       (\<lambda>rs. Inr (make_snapshot digest run_id rs))"

section \<open>Lemmas\<close>

text \<open>Every entry stands under its own coordinate.\<close>

definition registry_ok :: "registry \<Rightarrow> bool" where
  "registry_ok rules \<longleftrightarrow> dict_wf rules \<and>
     (\<forall>k r. dget rules k = Some r \<longrightarrow> rs_reference r = k \<and> metadata_reference (rs_metadata r) = k)"

definition manifest_references :: "registry_provider \<Rightarrow> rule_reference list" where
  "manifest_references p = map metadata_reference (mf_rules (rp_manifest p))"

abbreviation pending_of :: "registry_provider \<Rightarrow> rule_metadata list \<Rightarrow> (rule_reference \<times> resolved_rule) list" where
  "pending_of p ms \<equiv> map (\<lambda>m. (metadata_reference m, resolved_of p m)) ms"

lemma collect_pending_eq:
  "distinct (map metadata_reference done) \<Longrightarrow>
   set (map metadata_reference done) \<inter> set (dkeys rules) = {} \<Longrightarrow>
   collect_pending p rules (pending_of p done) ms =
     (if distinct (map metadata_reference (done @ ms)) \<and>
         set (map metadata_reference ms) \<inter> set (dkeys rules) = {}
      then Inr (pending_of p (done @ ms)) else Inl DuplicateRuleError)"
proof (induction ms arbitrary: "done")
  case (Cons m ms)
  show ?case
  proof (cases "metadata_reference m \<in> set (dkeys rules) \<or> metadata_reference m \<in> metadata_reference ` set done")
    case True
    then show ?thesis by (auto simp: Let_def)
  next
    case False
    then have "\<not> (\<exists>item\<in>set (pending_of p done). fst item = metadata_reference m)"
      by (metis (no_types, lifting) False fst_conv image_eqI list.set_map imageE)
    with False Cons.IH [of "done @ [m]"] Cons.prems show ?thesis by (simp add: Let_def) blast?
  qed
qed simp

lemma dget_update_all:
  "distinct (map fst items) \<Longrightarrow>
   dget (foldl (\<lambda>d item. dput (fst item) (snd item) d) d items) k =
     (case dget items k of Some v \<Rightarrow> Some v | None \<Rightarrow> dget d k)"
proof (induction items arbitrary: d)
  case (Cons item items)
  then have "dget items (fst item) = None" by (simp add: map_of_eq_None_iff)
  with Cons show ?case by (cases item) (auto simp: dict_simps split: option.splits)
qed simp

lemma dict_wf_update_all:
  "dict_wf d \<Longrightarrow> dict_wf (foldl (\<lambda>d item. dput (fst item) (snd item) d) d items)"
  by (induction items arbitrary: d) (simp_all add: dict_wf_dput)

lemma dget_pending:
  "distinct (map metadata_reference ms) \<Longrightarrow>
   dget (pending_of p ms) k =
     (case find (\<lambda>m. metadata_reference m = k) ms of Some m \<Rightarrow> Some (resolved_of p m) | None \<Rightarrow> None)"
  by (induction ms) auto

lemma register_Inr:
  "register digest p rules = Inr rules' \<longleftrightarrow>
     rp_contract_version p \<in> set compatible_contract_versions \<and>
     mf_manifest_hash (rp_manifest p) = calculate_manifest_hash digest (rp_manifest p) \<and>
     distinct (manifest_references p) \<and> set (manifest_references p) \<inter> set (dkeys rules) = {} \<and>
     rules' = foldl (\<lambda>d item. dput (fst item) (snd item) d) rules
                (pending_of p (mf_rules (rp_manifest p)))"
  using collect_pending_eq [of "[]" rules p "mf_rules (rp_manifest p)"]
  by (auto simp: register_def manifest_references_def)

lemma find_key: "distinct (map f xs) \<Longrightarrow> x \<in> set xs \<Longrightarrow> find (\<lambda>y. f y = f x) xs = Some x"
  by (induction xs) (auto simp: image_iff)

lemma takeWhile_not_in: "c \<notin> set s \<Longrightarrow> takeWhile (\<lambda>x. x \<noteq> c) (s @ c # t) = s"
  by (induction s) auto

lemma dropWhile_not_in: "c \<notin> set s \<Longrightarrow> dropWhile (\<lambda>x. x \<noteq> c) (s @ c # t) = c # t"
  by (induction s) auto

lemma register_lookup:
  assumes "register digest p rules = Inr rules'"
  shows "dget rules' k = (case find (\<lambda>m. metadata_reference m = k) (mf_rules (rp_manifest p)) of
      Some m \<Rightarrow> Some (resolved_of p m) | None \<Rightarrow> dget rules k)"
proof -
  let ?ms = "mf_rules (rp_manifest p)"
  from assms have d: "distinct (map metadata_reference ?ms)"
    and e: "rules' = foldl (\<lambda>d item. dput (fst item) (snd item) d) rules (pending_of p ?ms)"
    by (simp_all add: register_Inr manifest_references_def)
  show ?thesis
    unfolding e using d dget_update_all [of "pending_of p ?ms" rules k] dget_pending [OF d, of p k]
    by (auto simp: o_def split: option.splits)
qed

lemma register_registry_ok:
  assumes "registry_ok rules" "register digest p rules = Inr rules'"
  shows "registry_ok rules'"
proof -
  have "dict_wf rules'"
    using assms dict_wf_update_all by (auto simp: register_Inr registry_ok_def)
  then show ?thesis
    using assms(1) unfolding registry_ok_def register_lookup [OF assms(2)]
    by (auto simp: resolved_of_def find_Some_iff split: option.splits)
qed

lemma eligibility_approved:
  "eligibility_warning status mode environment replay = Inr w \<Longrightarrow>
   (status = LC_DEPRECATED \<longrightarrow> replay \<and> w \<noteq> None) \<and>
   (status = LC_DRAFT \<longrightarrow> mode = SM_RESEARCH \<and> w \<noteq> None) \<and>
   (status \<noteq> LC_DEPRECATED \<longrightarrow> mode \<noteq> SM_DISABLED) \<and>
   (mode = SM_PRIMARY \<longrightarrow> status = LC_APPROVED \<or> status = LC_DEPRECATED \<or>
      status = LC_PAPER \<and> environment = ENV_PAPER)"
  by (cases status; cases mode; cases environment)
    (auto simp: eligibility_warning_def Let_def split: if_splits)

lemma resolve_Inr:
  "resolve rules a = Inr r \<longleftrightarrow>
     (\<exists>k. (case a of RefText s \<Rightarrow> parse_reference s | RefValue v \<Rightarrow> Inr v) = Inr k \<and> dget rules k = Some r)"
  by (auto simp: resolve_def split: reference_arg.splits option.splits)

section \<open>Properties\<close>

text \<open>C4: Registration is all or nothing. It succeeds exactly when the contract version is supported,
  the manifest hashes to its declared digest and no coordinate of the pack is taken or repeated;
  then every rule of the pack resolves to its own metadata, every other lookup is unchanged, and the
  index still holds each rule under its own coordinate.\<close>

theorem register_atomic:
  assumes "registry_ok rules"
  shows "(is_ok (register digest p rules) \<longleftrightarrow>
      rp_contract_version p \<in> set compatible_contract_versions \<and>
      mf_manifest_hash (rp_manifest p) = calculate_manifest_hash digest (rp_manifest p) \<and>
      distinct (manifest_references p) \<and> set (manifest_references p) \<inter> set (dkeys rules) = {}) \<and>
    (\<forall>rules'. register digest p rules = Inr rules' \<longrightarrow>
      registry_ok rules' \<and>
      (\<forall>m\<in>set (mf_rules (rp_manifest p)). resolve rules' (RefValue (metadata_reference m)) = Inr (resolved_of p m)) \<and>
      (\<forall>k. k \<notin> set (manifest_references p) \<longrightarrow> resolve rules' (RefValue k) = resolve rules (RefValue k)))"
    (is "?ok \<and> (\<forall>rules'. _ \<longrightarrow> ?post rules')")
proof (rule conjI)
  show ?ok by (auto simp: is_ok_iff register_Inr)
next
  have "?post rules'" if r: "register digest p rules = Inr rules'" for rules'
  proof -
    let ?ms = "mf_rules (rp_manifest p)"
    from r have d: "distinct (map metadata_reference ?ms)"
      by (simp add: register_Inr manifest_references_def)
    note look = register_lookup [OF r]
    have "registry_ok rules'" using register_registry_ok [OF assms r] .
    moreover note find_key [OF d]
    moreover have "find (\<lambda>m. metadata_reference m = k) ?ms = None" if "k \<notin> set (manifest_references p)" for k
      using that by (auto simp: manifest_references_def find_None_iff)
    ultimately show ?thesis by (simp add: resolve_def look)
  qed
  then show "\<forall>rules'. register digest p rules = Inr rules' \<longrightarrow> ?post rules'" by blast
qed

definition demo_rule :: "lifecycle_status \<Rightarrow> rule_metadata" where
  "demo_rule status = \<lparr> rm_rule_id = ''r-a'', rm_name = ''A'', rm_version = ''1.0.0'',
     rm_rule_type = RTY_SIGNAL, rm_lifecycle_status = status, rm_description = ''d'',
     rm_implementation_hash = ''sha256:'' @ replicate 64 CHR ''b'', rm_inputs = [], rm_outputs = [],
     rm_author = None, rm_tags = [], rm_created_at = 0, rm_validated_at = None \<rparr>"

definition demo_provider :: "lifecycle_status \<Rightarrow> registry_provider" where
  "demo_provider status = \<lparr> rp_provider_id = ''pack@1.0.0'', rp_contract_version = ''1'',
     rp_manifest = \<lparr> mf_pack_id = ''pack'', mf_version = ''1.0.0'', mf_family = ''core'',
       mf_engine = ''synthetic'', mf_manifest_hash = ''sha256:'' @ replicate 64 CHR ''a'',
       mf_rules = [demo_rule status], mf_created_at = 0, mf_description = None \<rparr> \<rparr>"

definition demo_digest :: "py_value \<Rightarrow> string" where
  "demo_digest v = replicate 64 CHR ''a''"

definition demo_registry :: "lifecycle_status \<Rightarrow> registry" where
  "demo_registry status = [(metadata_reference (demo_rule status), resolved_of (demo_provider status) (demo_rule status))]"

lemma demo_register: "register demo_digest (demo_provider s) [] = Inr (demo_registry s)"
  by (simp add: register_def demo_provider_def calculate_manifest_hash_def demo_digest_def
      compatible_contract_versions_def demo_registry_def)

theorem register_atomic_witness:
  "registry_ok (demo_registry LC_APPROVED) \<and>
   resolve (demo_registry LC_APPROVED) (RefValue (metadata_reference (demo_rule LC_APPROVED))) =
     Inr (resolved_of (demo_provider LC_APPROVED) (demo_rule LC_APPROVED))"
proof -
  have "registry_ok []" by (simp add: registry_ok_def)
  from register_atomic [OF this, of demo_digest "demo_provider LC_APPROVED"] demo_register [of LC_APPROVED]
  show ?thesis by (simp add: demo_provider_def)
qed

text \<open>C5: Eligibility holds for every rule of a run: a snapshot resolves the requested references in
  order to rules of the registry, and for a PRIMARY strategy in the LIVE environment each of them is
  APPROVED, unless deprecated replay was asked for explicitly, and then the rule carries a warning.\<close>

theorem snapshot_eligible:
  assumes "snapshot digest rules run_id refs mode environment replay = Inr s"
  shows "sn_run_id s = run_id \<and> length (sn_rules s) = length refs \<and>
    (\<forall>i < length refs. \<exists>r. resolve rules (refs ! i) = Inr r \<and>
       rs_metadata (sn_rules s ! i) = rs_metadata r \<and> rs_reference (sn_rules s ! i) = rs_reference r \<and>
       (let status = rm_lifecycle_status (rs_metadata r) in
         (mode = SM_PRIMARY \<and> environment = ENV_LIVE \<longrightarrow>
            status = LC_APPROVED \<or> status = LC_DEPRECATED \<and> replay \<and> rs_warnings (sn_rules s ! i) \<noteq> []) \<and>
         (status = LC_DRAFT \<longrightarrow> mode = SM_RESEARCH \<and> rs_warnings (sn_rules s ! i) \<noteq> [])))"
proof -
  from assms obtain rs where rs: "map_result (resolve_eligible rules mode environment replay) refs = Inr rs"
    and s: "s = make_snapshot digest run_id rs" by (auto simp: snapshot_def)
  from map_result_Inr [OF rs] have all: "list_all2 (\<lambda>a r. resolve_eligible rules mode environment replay a = Inr r) refs rs" .
  have each: "\<exists>r. resolve rules a = Inr r \<and> rs_metadata r' = rs_metadata r \<and> rs_reference r' = rs_reference r \<and>
       (let status = rm_lifecycle_status (rs_metadata r) in
         (mode = SM_PRIMARY \<and> environment = ENV_LIVE \<longrightarrow>
            status = LC_APPROVED \<or> status = LC_DEPRECATED \<and> replay \<and> rs_warnings r' \<noteq> []) \<and>
         (status = LC_DRAFT \<longrightarrow> mode = SM_RESEARCH \<and> rs_warnings r' \<noteq> []))"
    if "resolve_eligible rules mode environment replay a = Inr r'" for a r'
  proof -
    from that obtain r w where r: "resolve rules a = Inr r"
      and w: "eligibility_warning (rm_lifecycle_status (rs_metadata r)) mode environment replay = Inr w"
      and r': "r' = (case w of None \<Rightarrow> r | Some x \<Rightarrow> r \<lparr> rs_warnings := [x] \<rparr>)"
      by (auto simp: resolve_eligible_def)
    from eligibility_approved [OF w] r r' show ?thesis
      by (cases w) (auto simp: Let_def)
  qed
  show ?thesis
    using all each by (auto simp: s make_snapshot_def list_all2_conv_all_nth)
qed

theorem snapshot_eligible_witness:
  "\<exists>s. snapshot demo_digest (demo_registry LC_APPROVED) ''run-1''
      [RefValue (metadata_reference (demo_rule LC_APPROVED))] SM_PRIMARY ENV_LIVE False = Inr s \<and>
    length (sn_rules s) = 1"
proof -
  obtain s where s: "snapshot demo_digest (demo_registry LC_APPROVED) ''run-1''
      [RefValue (metadata_reference (demo_rule LC_APPROVED))] SM_PRIMARY ENV_LIVE False = Inr s"
    by (simp add: snapshot_def resolve_eligible_def resolve_def demo_registry_def eligibility_warning_def
        resolved_of_def demo_rule_def)
  from snapshot_eligible [OF s] s show ?thesis by auto
qed

text \<open>Printing an exact reference and parsing it back returns it, for every rule id the contracts
  accept and every registry version.\<close>

theorem reference_roundtrip:
  assumes "identifier_str (ref_rule_id r)" "registry_version (ref_version r)"
  shows "parse_reference (reference_str r) = Inr r"
proof -
  have "CHR ''@'' \<notin> set (ref_rule_id r)"
    using assms(1) by (cases "ref_rule_id r") (auto simp: identifier_str_def char_class_defs)
  then have "takeWhile (\<lambda>c. c \<noteq> CHR ''@'') (reference_str r) = ref_rule_id r"
    "dropWhile (\<lambda>c. c \<noteq> CHR ''@'') (reference_str r) = CHR ''@'' # ref_version r"
    unfolding reference_str_def by (simp_all add: takeWhile_not_in dropWhile_not_in)
  with assms show ?thesis by (simp add: parse_reference_def Let_def)
qed

theorem reference_roundtrip_witness:
  "parse_reference ''rules/rsi@1.2.0-rc.1+build.7'' = Inr \<lparr> ref_rule_id = ''rules/rsi'', ref_version = ''1.2.0-rc.1+build.7'' \<rparr>"
  using reference_roundtrip [of "\<lparr> ref_rule_id = ''rules/rsi'', ref_version = ''1.2.0-rc.1+build.7'' \<rparr>"]
  by (simp add: reference_str_def identifier_str_def registry_version_def semver_def numeric_part_def
      Let_def char_class_defs)

end
