(* ===== verification/Strategy_Compiler.thy ===== *)
theory Strategy_Compiler
  imports Topological_Order Rule_Registry
begin

text \<open>
  The strategy compiler (app/strategy_runtime/compiler.py, models.py, ports.py): parameter binding,
  one node per step in execution order, the plan digests and the compiled contract. Rule packs are
  outside: a registration's parameter model is given by the functions it validates with, and a
  provider by its manifest and its lookup (None is a \<open>LookupError\<close>). The type variable is the type
  of validated parameter objects.
\<close>

section \<open>Ports and values (ports.py, models.py)\<close>

text \<open>
  One field of a parameter model: whether it is required, and its strict JSON adapter. The model:
  its strict validation of a whole JSON object, dumped again (\<open>rg_validate_json\<close>), and its
  validation of resolved parameters at run time (\<open>rg_model_validate\<close>).
\<close>

record field_spec =
  fd_required :: bool
  fd_validate_json :: "py_value \<Rightarrow> py_value result"

record 'p registration =
  rg_metadata :: rule_metadata
  rg_fields :: "(string \<times> field_spec) list"
  rg_validate_json :: "(string, py_value) dict \<Rightarrow> (string, py_value) dict result"
  rg_model_validate :: "(string, py_value) dict \<Rightarrow> 'p result"

record 'p provider =
  pv_manifest :: rule_pack_manifest
  pv_resolve :: "string \<Rightarrow> string \<Rightarrow> 'p registration option"

datatype parameter = Plain py_value | DynamicOutput string string

record 'p compiled_node =
  cn_step_id :: string
  cn_rule_id :: string
  cn_reference :: string
  cn_version :: string
  cn_depends_on :: "string list"
  cn_dependency_policy :: string
  cn_enabled :: bool
  cn_provider_id :: string
  cn_parameters :: "(string, parameter) dict"
  cn_registration :: "'p registration"

record 'p compiled_plan =
  cp_contract :: compiled_strategy
  cp_definition_hash :: string
  cp_plan_hash :: string
  cp_snapshot_hash :: string
  cp_nodes :: "'p compiled_node list"

definition dict_of :: "('k \<times> 'v) list \<Rightarrow> ('k, 'v) dict" where
  "dict_of kvs = foldl (\<lambda>d kv. dput (fst kv) (snd kv) d) [] kvs"

section \<open>Digest payloads\<close>

definition dump_pipeline_step :: "pipeline_step \<Rightarrow> py_value" where
  "dump_pipeline_step s = VDict [(''step_id'', VStr (ps_step_id s)), (''rule_id'', VStr (ps_rule_id s)),
     (''rule_version'', VStr (ps_rule_version s)), (''depends_on'', VList (map VStr (ps_depends_on s))),
     (''dependency_policy'', VStr (dependency_policy_value (ps_dependency_policy s))),
     (''enabled'', VBool (ps_enabled s))]"

definition dump_binding :: "rule_binding \<Rightarrow> py_value" where
  "dump_binding b = VDict [(''rule_id'', VStr (rb_rule_id b)), (''alias'', opt_value VStr (rb_alias b)),
     (''parameters'', VList (map (\<lambda>p. VDict [(''name'', VStr (nv_name p)), (''value'', nv_value p)])
        (rb_parameters b)))]"

definition dump_policies :: "strategy_policies \<Rightarrow> py_value" where
  "dump_policies p = VDict [(''fail_closed'', VBool (sp_fail_closed p)),
     (''stop_on_error'', VBool (sp_stop_on_error p)),
     (''max_candidate_age'', opt_value VDelta (sp_max_candidate_age p)),
     (''minimum_passing_rules'', VInt (sp_minimum_passing_rules p)),
     (''allow_not_applicable'', VBool (sp_allow_not_applicable p))]"

definition dump_scoring :: "scoring_policy \<Rightarrow> py_value" where
  "dump_scoring s = VDict [(''pass_threshold'', VDec (so_pass_threshold s)),
     (''weights'', VList (map (\<lambda>w. VDict [(''rule_id'', VStr (sw_rule_id w)), (''weight'', VDec (sw_weight w))])
        (so_weights s))),
     (''require_complete_scoring'', VBool (so_require_complete_scoring s))]"

text \<open>\<open>_definition_payload\<close>: the whole specification but its \<open>run_id\<close>.\<close>

definition definition_payload :: "strategy_spec \<Rightarrow> py_value" where
  "definition_payload spec = VDict [(''strategy_id'', VStr (ss_strategy_id spec)),
     (''version'', VStr (ss_version spec)), (''family'', VStr (ss_family spec)),
     (''engine'', VStr (ss_engine spec)), (''mode'', VStr (strategy_mode_value (ss_mode spec))),
     (''rule_pack_hash'', VStr (ss_rule_pack_hash spec)),
     (''pipeline'', VList (map dump_pipeline_step (ss_pipeline spec))),
     (''bindings'', VList (map dump_binding (ss_bindings spec))),
     (''policies'', dump_policies (ss_policies spec)), (''scoring'', dump_scoring (ss_scoring spec)),
     (''description'', opt_value VStr (ss_description spec)), (''tags'', VList (map VStr (ss_tags spec)))]"

definition dump_parameter :: "parameter \<Rightarrow> py_value" where
  "dump_parameter p = (case p of Plain v \<Rightarrow> v
     | DynamicOutput s x \<Rightarrow> VDict [(''step_id'', VStr s), (''output_name'', VStr x)])"

definition plan_payload :: "string \<Rightarrow> 'p compiled_node list \<Rightarrow> py_value" where
  "plan_payload definition_hash nodes = VDict
     [(''strategy_definition_hash'', VStr definition_hash),
      (''rules'', VList (map (\<lambda>n. VDict
         [(''step_id'', VStr (cn_step_id n)), (''reference'', VStr (cn_reference n)),
          (''implementation_hash'', VStr (rm_implementation_hash (rg_metadata (cn_registration n)))),
          (''parameters'', VDict (map (\<lambda>kv. (fst kv, dump_parameter (snd kv))) (cn_parameters n))),
          (''depends_on'', VList (map VStr (cn_depends_on n))),
          (''dependency_policy'', VStr (cn_dependency_policy n)),
          (''enabled'', VBool (cn_enabled n))]) nodes))]"

definition compiler_digest :: "(py_value \<Rightarrow> string) \<Rightarrow> py_value \<Rightarrow> string result" where
  "compiler_digest hash value = bind_result (sha256_digest hash value) (\<lambda>d. Inr (''sha256:'' @ d))"

section \<open>Parameters\<close>

text \<open>
  The pattern \<open>${steps.<step>.outputs.<output>}\<close>. Both groups may contain \<open>.outputs.\<close>; the first
  is greedy, so the longest step id that leaves a match is taken.
\<close>

definition dynamic_prefix :: string where "dynamic_prefix = ''${steps.''"
definition dynamic_infix :: string where "dynamic_infix = ''.outputs.''"

definition split_dynamic :: "string \<Rightarrow> nat \<Rightarrow> bool" where
  "split_dynamic body i \<longleftrightarrow> identifier_str (take i body) \<and>
     take (length dynamic_infix) (drop i body) = dynamic_infix \<and>
     identifier_str (drop (i + length dynamic_infix) body)"

definition match_dynamic :: "string \<Rightarrow> (string \<times> string) option" where
  "match_dynamic value =
     (if take (length dynamic_prefix) value = dynamic_prefix \<and> value \<noteq> [] \<and> last value = CHR ''}''
         \<and> length dynamic_prefix < length value
      then let body = butlast (drop (length dynamic_prefix) value) in
        map_option (\<lambda>i. (take i body, drop (i + length dynamic_infix) body))
          (find (split_dynamic body) (rev [0..<Suc (length body)]))
      else None)"

text \<open>\<open>_strict_json\<close>: only its refusals matter here; the bytes go to the parameter model.\<close>

function strict_json :: "py_value \<Rightarrow> unit result" where
  "strict_json (VFloat f) = Inl (ValueError ''floating-point rule parameters are not allowed'')"
| "strict_json VNonFinite = Inl (ValueError ''non-finite Decimal rule parameters are not allowed'')"
| "strict_json (VDict kvs) = bind_result (map_result (\<lambda>kv. strict_json (snd kv)) kvs) (\<lambda>_. Inr ())"
| "strict_json (VList vs) = bind_result (map_result strict_json vs) (\<lambda>_. Inr ())"
| "strict_json VNone = Inr ()"
| "strict_json (VBool b) = Inr ()"
| "strict_json (VInt i) = Inr ()"
| "strict_json (VDec d) = Inr ()"
| "strict_json (VStr s) = Inr ()"
| "strict_json (VTime t) = Inr ()"
| "strict_json (VDelta d) = Inr ()"
  by pat_completeness auto
termination
proof (relation "measure size")
  fix kvs :: "(string \<times> py_value) list" and kv
  assume "kv \<in> set kvs"
  then have "(fst kv, snd kv) \<in> set kvs" by simp
  from size_dict_member [OF this] show "(snd kv, VDict kvs) \<in> measure size" by simp
qed (auto dest: size_list_member)

fun prepare_parameters :: "string list \<Rightarrow> (string \<Rightarrow> 'p compiled_node option) \<Rightarrow> (string, py_value) dict \<Rightarrow>
    (string, parameter) dict result" where
  "prepare_parameters deps compiled [] = Inr []"
| "prepare_parameters deps compiled ((name, value) # raw) =
     bind_result
       (case (case value of VStr s \<Rightarrow> match_dynamic s | _ \<Rightarrow> None) of
          None \<Rightarrow> Inr (Plain value)
        | Some (source_step, output_name) \<Rightarrow>
            if source_step \<notin> set deps
            then Inl (CompileError ''dynamic binding source must be a declared dependency'')
            else (case compiled source_step of
                None \<Rightarrow> Inl (CompileError ''dynamic binding source must be compiled earlier'')
              | Some source_node \<Rightarrow>
                  if output_name \<notin> ro_name ` set (rm_outputs (rg_metadata (cn_registration source_node)))
                  then Inl (CompileError ''dynamic binding output is not declared'')
                  else Inr (DynamicOutput source_step output_name)))
       (\<lambda>p. bind_result (prepare_parameters deps compiled raw) (\<lambda>ps. Inr ((name, p) # ps)))"

definition is_dynamic :: "parameter \<Rightarrow> bool" where
  "is_dynamic p = (case p of Plain _ \<Rightarrow> False | DynamicOutput _ _ \<Rightarrow> True)"

definition plain_value :: "parameter \<Rightarrow> py_value" where
  "plain_value p = (case p of Plain v \<Rightarrow> v | DynamicOutput _ _ \<Rightarrow> VNone)"

definition adapt_parameter :: "(string \<times> field_spec) list \<Rightarrow> string \<times> parameter \<Rightarrow> (string \<times> parameter) result" where
  "adapt_parameter declared np =
     (case snd np of
        DynamicOutput _ _ \<Rightarrow> Inr np
      | Plain v \<Rightarrow> bind_result (strict_json v) (\<lambda>_.
          (case map_of declared (fst np) of
             None \<Rightarrow> Inl KeyError
           | Some field \<Rightarrow> bind_result (fd_validate_json field v) (\<lambda>w. Inr (fst np, Plain w)))))"

definition compile_parameters :: "(string, py_value) dict \<Rightarrow> 'p registration \<Rightarrow> string list \<Rightarrow>
    (string \<Rightarrow> 'p compiled_node option) \<Rightarrow> (string, parameter) dict result" where
  "compile_parameters raw registration step_dependencies compiled_by_step =
     bind_result (prepare_parameters step_dependencies compiled_by_step raw) (\<lambda>prepared.
       if \<not> (\<exists>np\<in>set prepared. is_dynamic (snd np))
       then
         (let plain = map (\<lambda>np. (fst np, plain_value (snd np))) prepared in
          bind_result (strict_json (VDict plain)) (\<lambda>_.
            bind_result (rg_validate_json registration plain) (\<lambda>d.
              Inr (map (\<lambda>kv. (fst kv, Plain (snd kv))) d))))
       else
         (let declared = rg_fields registration in
          if \<not> set (dkeys prepared) \<subseteq> set (map fst declared) \<or>
             (\<exists>f\<in>set declared. fd_required (snd f) \<and> fst f \<notin> set (dkeys prepared))
          then Inl (CompileError ''invalid parameters'')
          else map_result (adapt_parameter declared) prepared))"

section \<open>compile\<close>

text \<open>\<open>CompileError\<close> is a \<open>ValueError\<close>, so the handler around parameter binding rewraps it too.\<close>

definition wrap_parameter_error :: "py_error \<Rightarrow> py_error" where
  "wrap_parameter_error e =
     (case e of ValidationError _ \<Rightarrow> CompileError ''invalid parameters for exact rule''
      | TypeError _ \<Rightarrow> CompileError ''invalid parameters for exact rule''
      | ValueError _ \<Rightarrow> CompileError ''invalid parameters for exact rule''
      | CompileError _ \<Rightarrow> CompileError ''invalid parameters for exact rule''
      | _ \<Rightarrow> e)"

fun map_error :: "(py_error \<Rightarrow> py_error) \<Rightarrow> 'a result \<Rightarrow> 'a result" where
  "map_error f (Inl e) = Inl (f e)"
| "map_error f (Inr x) = Inr x"

fun index_snapshot :: "(string \<times> string, resolved_rule) dict \<Rightarrow> resolved_rule list \<Rightarrow>
    (string \<times> string, resolved_rule) dict result" where
  "index_snapshot d [] = Inr d"
| "index_snapshot d (r # rs) =
     (let coordinate = (rm_rule_id (rs_metadata r), rm_version (rs_metadata r)) in
      if coordinate \<in> set (dkeys d)
      then Inl (CompileError ''duplicate exact rule coordinate in snapshot'')
      else index_snapshot (dput coordinate r d) rs)"

definition node_of :: "'p compiled_node list \<Rightarrow> string \<Rightarrow> 'p compiled_node option" where
  "node_of nodes i = map_of (rev (map (\<lambda>n. (cn_step_id n, n)) nodes)) i"

text \<open>One iteration of the loop: the node of a step and the manifest of its provider.\<close>

definition compile_step :: "strategy_spec \<Rightarrow> (string \<times> string, resolved_rule) dict \<Rightarrow>
    (string \<Rightarrow> 'p provider option) \<Rightarrow> 'p compiled_node list \<Rightarrow> string \<Rightarrow>
    ('p compiled_node \<times> rule_pack_manifest) result" where
  "compile_step spec by_coordinate providers nodes step_id =
     (case find (\<lambda>s. ps_step_id s = step_id) (ss_pipeline spec) of
        None \<Rightarrow> Inl (RuntimeError ''StopIteration'')
      | Some step \<Rightarrow>
        (case dget by_coordinate (ps_rule_id step, ps_rule_version step) of
           None \<Rightarrow> Inl (CompileError ''exact rule is absent from snapshot'')
         | Some resolved \<Rightarrow>
           if rs_manifest_hash resolved \<noteq> ss_rule_pack_hash spec
           then Inl (CompileError ''rule belongs to a different rule pack'')
           else (case providers (rs_provider_id resolved) of
               None \<Rightarrow> Inl (CompileError ''provider cannot resolve exact rule'')
             | Some provider \<Rightarrow>
               (case pv_resolve provider (ref_rule_id (rs_reference resolved)) (ref_version (rs_reference resolved)) of
                  None \<Rightarrow> Inl (CompileError ''provider cannot resolve exact rule'')
                | Some registration \<Rightarrow>
                  if mf_manifest_hash (pv_manifest provider) \<noteq> ss_rule_pack_hash spec
                  then Inl (CompileError ''provider manifest does not match strategy rule_pack_hash'')
                  else if rg_metadata registration \<noteq> rs_metadata resolved
                  then Inl (CompileError ''provider metadata drift'')
                  else (case map_of (rev (map (\<lambda>b. (rb_rule_id b, b)) (ss_bindings spec))) (ps_rule_id step) of
                      None \<Rightarrow> Inl KeyError
                    | Some binding \<Rightarrow>
                      bind_result
                        (map_error wrap_parameter_error
                          (compile_parameters
                             (dict_of (map (\<lambda>p. (nv_name p, nv_value p)) (rb_parameters binding)))
                             registration (ps_depends_on step) (node_of nodes)))
                        (\<lambda>parameters. Inr
                          (\<lparr> cn_step_id = ps_step_id step, cn_rule_id = ps_rule_id step,
                             cn_reference = reference_str (rs_reference resolved),
                             cn_version = ref_version (rs_reference resolved),
                             cn_depends_on = ps_depends_on step,
                             cn_dependency_policy = dependency_policy_value (ps_dependency_policy step),
                             cn_enabled = ps_enabled step, cn_provider_id = rs_provider_id resolved,
                             cn_parameters = parameters, cn_registration = registration \<rparr>,
                           pv_manifest provider)))))))"

fun compile_steps :: "strategy_spec \<Rightarrow> (string \<times> string, resolved_rule) dict \<Rightarrow>
    (string \<Rightarrow> 'p provider option) \<Rightarrow> 'p compiled_node list \<Rightarrow> rule_pack_manifest option \<Rightarrow>
    string list \<Rightarrow> ('p compiled_node list \<times> rule_pack_manifest option) result" where
  "compile_steps spec by_coordinate providers nodes selected [] = Inr (nodes, selected)"
| "compile_steps spec by_coordinate providers nodes selected (step_id # order) =
     bind_result (compile_step spec by_coordinate providers nodes step_id) (\<lambda>(node, manifest).
       compile_steps spec by_coordinate providers (nodes @ [node]) (Some manifest) order)"

definition compile :: "(py_value \<Rightarrow> string) \<Rightarrow> instant \<Rightarrow> strategy_spec \<Rightarrow> registry_snapshot \<Rightarrow>
    (string \<Rightarrow> 'p provider option) \<Rightarrow> 'p compiled_plan result" where
  "compile hash now spec snap providers =
     (if sn_run_id snap \<noteq> ss_run_id spec
      then Inl (CompileError ''strategy run_id does not match registry snapshot'')
      else
        bind_result (stable_topological_order spec) (\<lambda>order.
        bind_result (index_snapshot [] (sn_rules snap)) (\<lambda>by_coordinate.
        bind_result (compile_steps spec by_coordinate providers [] None order) (\<lambda>(nodes, selected).
          case selected of
            None \<Rightarrow> Inl (CompileError ''strategy pipeline cannot be empty'')
          | Some manifest \<Rightarrow>
            bind_result (compiler_digest hash (definition_payload spec)) (\<lambda>definition_hash.
            bind_result (compiler_digest hash (plan_payload definition_hash nodes)) (\<lambda>compiled_hash.
            bind_result
              (validate_compilation \<lparr> cs_spec = spec, cs_rule_pack = manifest, cs_compiled_hash = compiled_hash,
                 cs_compiled_at = now, cs_execution_order = order \<rparr>) (\<lambda>contract.
              Inr \<lparr> cp_contract = contract, cp_definition_hash = definition_hash,
                    cp_plan_hash = compiled_hash, cp_snapshot_hash = sn_snapshot_hash snap,
                    cp_nodes = nodes \<rparr>)))))))"

section \<open>Lemmas\<close>

lemma prepare_dynamic:
  "prepare_parameters deps compiled raw = Inr ps \<Longrightarrow> (name, DynamicOutput s x) \<in> set ps \<Longrightarrow>
   s \<in> set deps \<and> (\<exists>src. compiled s = Some src \<and> x \<in> ro_name ` set (rm_outputs (rg_metadata (cn_registration src))))"
  by (induction deps compiled raw arbitrary: ps rule: prepare_parameters.induct)
    (auto split: option.splits if_splits prod.splits)

lemma adapt_dynamic:
  "map_result (adapt_parameter declared) prepared = Inr ps \<Longrightarrow> (name, DynamicOutput s x) \<in> set ps \<Longrightarrow>
   (name, DynamicOutput s x) \<in> set prepared"
  by (induction prepared arbitrary: ps) (auto simp: adapt_parameter_def split: parameter.splits option.splits)

lemma compile_parameters_dynamic:
  assumes "compile_parameters raw registration deps compiled = Inr ps" "(name, DynamicOutput s x) \<in> set ps"
  shows "s \<in> set deps \<and>
    (\<exists>src. compiled s = Some src \<and> x \<in> ro_name ` set (rm_outputs (rg_metadata (cn_registration src))))"
proof -
  from assms(1) obtain prepared where p: "prepare_parameters deps compiled raw = Inr prepared"
    by (auto simp: compile_parameters_def)
  have "(name, DynamicOutput s x) \<in> set prepared"
    using assms p by (auto simp: compile_parameters_def Let_def dest: adapt_dynamic split: if_splits)
  with prepare_dynamic [OF p] show ?thesis by blast
qed

lemma index_snapshot_sound:
  "index_snapshot d rs = Inr d' \<Longrightarrow> dget d' k = Some r \<Longrightarrow>
   dget d k = Some r \<or> r \<in> set rs \<and> k = (rm_rule_id (rs_metadata r), rm_version (rs_metadata r))"
proof (induction d rs rule: index_snapshot.induct)
  case (2 d r' rs)
  then show ?case by (fastforce simp: Let_def dict_simps split: if_splits)
qed simp

definition node_compiled_from :: "strategy_spec \<Rightarrow> (string \<times> string, resolved_rule) dict \<Rightarrow>
    'p compiled_node list \<Rightarrow> 'p compiled_node \<Rightarrow> bool" where
  "node_compiled_from spec by_coordinate before n \<longleftrightarrow>
     (\<exists>step\<in>set (ss_pipeline spec). ps_step_id step = cn_step_id n \<and> ps_rule_id step = cn_rule_id n \<and>
        ps_depends_on step = cn_depends_on n \<and> ps_enabled step = cn_enabled n \<and>
        dependency_policy_value (ps_dependency_policy step) = cn_dependency_policy n \<and>
        (\<exists>r. dget by_coordinate (ps_rule_id step, ps_rule_version step) = Some r \<and>
           rs_manifest_hash r = ss_rule_pack_hash spec \<and> rg_metadata (cn_registration n) = rs_metadata r \<and>
           cn_version n = ref_version (rs_reference r))) \<and>
     (\<forall>name s x. (name, DynamicOutput s x) \<in> set (cn_parameters n) \<longrightarrow>
        s \<in> set (cn_depends_on n) \<and>
        (\<exists>src\<in>set before. cn_step_id src = s \<and> x \<in> ro_name ` set (rm_outputs (rg_metadata (cn_registration src)))))"

lemma node_of_SomeD: "node_of nodes s = Some n \<Longrightarrow> n \<in> set nodes \<and> cn_step_id n = s"
  by (auto simp: node_of_def dest!: map_of_SomeD)

lemma map_error_Inr: "map_error f m = Inr y \<longleftrightarrow> m = Inr y"
  by (cases m) auto

lemma validate_compilation_Inr:
  "validate_compilation c = Inr c' \<longleftrightarrow> c' = c \<and> validate_compilation c = Inr c"
  by (auto simp: validate_compilation_def Let_def split: if_splits)

lemma compile_step_sound:
  assumes "compile_step spec by_coordinate providers nodes step_id = Inr (n, m)"
  shows "cn_step_id n = step_id \<and> node_compiled_from spec by_coordinate nodes n"
proof -
  note u = assms [unfolded compile_step_def]
  obtain step where s: "find (\<lambda>s. ps_step_id s = step_id) (ss_pipeline spec) = Some step"
    using u by (auto split: option.splits)
  obtain r where r: "dget by_coordinate (ps_rule_id step, ps_rule_version step) = Some r"
      "rs_manifest_hash r = ss_rule_pack_hash spec"
    using u s by (auto split: option.splits if_splits)
  obtain pv where pv: "providers (rs_provider_id r) = Some pv"
    using u s r by (auto split: option.splits)
  obtain reg where reg: "pv_resolve pv (ref_rule_id (rs_reference r)) (ref_version (rs_reference r)) = Some reg"
      "rg_metadata reg = rs_metadata r"
    using u s r pv by (auto split: option.splits if_splits)
  obtain b where b: "map_of (rev (map (\<lambda>b. (rb_rule_id b, b)) (ss_bindings spec))) (ps_rule_id step) = Some b"
    using u s r pv reg by (auto split: option.splits if_splits)
  obtain ps where ps: "compile_parameters (dict_of (map (\<lambda>p. (nv_name p, nv_value p)) (rb_parameters b)))
       reg (ps_depends_on step) (node_of nodes) = Inr ps"
    and n: "n = \<lparr> cn_step_id = ps_step_id step, cn_rule_id = ps_rule_id step,
       cn_reference = reference_str (rs_reference r), cn_version = ref_version (rs_reference r),
       cn_depends_on = ps_depends_on step,
       cn_dependency_policy = dependency_policy_value (ps_dependency_policy step),
       cn_enabled = ps_enabled step, cn_provider_id = rs_provider_id r,
       cn_parameters = ps, cn_registration = reg \<rparr>"
    using u s r pv reg b by (auto simp: map_error_Inr split: if_splits)
  from s have "step \<in> set (ss_pipeline spec)" "ps_step_id step = step_id"
    by (auto simp: find_Some_iff)
  moreover have "\<forall>name s x. (name, DynamicOutput s x) \<in> set ps \<longrightarrow> s \<in> set (ps_depends_on step) \<and>
      (\<exists>src\<in>set nodes. cn_step_id src = s \<and> x \<in> ro_name ` set (rm_outputs (rg_metadata (cn_registration src))))"
    using compile_parameters_dynamic [OF ps] node_of_SomeD by blast
  ultimately show ?thesis using r reg(2) by (auto simp: n node_compiled_from_def)
qed

lemma compile_steps_sound:
  "compile_steps spec by_coordinate providers nodes selected order = Inr (nodes', selected') \<Longrightarrow>
   \<exists>new. nodes' = nodes @ new \<and> map cn_step_id new = order \<and>
     (\<forall>i<length new. node_compiled_from spec by_coordinate (nodes @ take i new) (new ! i))"
proof (induction order arbitrary: nodes selected)
  case (Cons i order)
  from Cons.prems obtain n m where
    s: "compile_step spec by_coordinate providers nodes i = Inr (n, m)"
    and r: "compile_steps spec by_coordinate providers (nodes @ [n]) (Some m) order = Inr (nodes', selected')"
    by auto
  from Cons.IH [OF r] obtain new where new: "nodes' = nodes @ n # new" "map cn_step_id new = order"
    "\<forall>j<length new. node_compiled_from spec by_coordinate (nodes @ n # take j new) (new ! j)" by auto
  have "node_compiled_from spec by_coordinate (nodes @ take j (n # new)) ((n # new) ! j)"
    if "j < length (n # new)" for j
    using that new(3) compile_step_sound [OF s] by (cases j) auto
  with new compile_step_sound [OF s] show ?case by (intro exI [of _ "n # new"]) simp
qed simp

lemma compile_Inr:
  assumes "compile hash now spec snap providers = Inr plan"
  obtains by_coordinate manifest where
    "index_snapshot [] (sn_rules snap) = Inr by_coordinate"
    "stable_topological_order spec = Inr (cs_execution_order (cp_contract plan))"
    "compile_steps spec by_coordinate providers [] None (cs_execution_order (cp_contract plan)) =
       Inr (cp_nodes plan, Some manifest)"
    "cs_spec (cp_contract plan) = spec"
    "validate_compilation (cp_contract plan) = Inr (cp_contract plan)"
    "is_ok (canonical_json (definition_payload spec))"
proof -
  note u = assms [unfolded compile_def]
  obtain order by_c where o: "stable_topological_order spec = Inr order"
    and i: "index_snapshot [] (sn_rules snap) = Inr by_c"
    using u by (auto split: if_splits)
  obtain nodes manifest where st: "compile_steps spec by_c providers [] None order = Inr (nodes, Some manifest)"
    using u o i by (auto split: if_splits option.splits)
  obtain h1 h2 where c: "compiler_digest hash (definition_payload spec) = Inr h1"
      "compiler_digest hash (plan_payload h1 nodes) = Inr h2"
    using u o i st by (auto split: if_splits)
  let ?contract = "\<lparr> cs_spec = spec, cs_rule_pack = manifest, cs_compiled_hash = h2,
    cs_compiled_at = now, cs_execution_order = order \<rparr>"
  have k: "validate_compilation ?contract = Inr (cp_contract plan)" "cp_nodes plan = nodes"
    using u o i st c by (auto split: if_splits)
  then have e: "cp_contract plan = ?contract" using validate_compilation_Inr by blast
  have "is_ok (canonical_json (definition_payload spec))"
    using c(1) by (auto simp: compiler_digest_def sha256_digest_def is_ok_iff)
  moreover have "compile_steps spec by_c providers [] None (cs_execution_order (cp_contract plan)) =
       Inr (cp_nodes plan, Some manifest)" unfolding e using st k(2) by simp
  moreover have "validate_compilation (cp_contract plan) = Inr (cp_contract plan)" using k(1) e by simp
  moreover have "stable_topological_order spec = Inr (cs_execution_order (cp_contract plan))"
    using o by (simp add: e)
  moreover have "cs_spec (cp_contract plan) = spec" by (simp add: e)
  ultimately show ?thesis using that i by blast
qed

lemma compile_node_facts:
  assumes "compile hash now spec snap providers = Inr plan" "n \<in> set (cp_nodes plan)"
  shows "\<exists>step\<in>set (ss_pipeline spec). \<exists>r\<in>set (sn_rules snap).
     ps_step_id step = cn_step_id n \<and> ps_rule_id step = cn_rule_id n \<and> ps_depends_on step = cn_depends_on n \<and>
     rg_metadata (cn_registration n) = rs_metadata r \<and> rs_manifest_hash r = ss_rule_pack_hash spec \<and>
     rm_rule_id (rs_metadata r) = ps_rule_id step \<and> rm_version (rs_metadata r) = ps_rule_version step \<and>
     cn_version n = ref_version (rs_reference r)"
proof -
  obtain by_c manifest where c: "index_snapshot [] (sn_rules snap) = Inr by_c"
    "compile_steps spec by_c providers [] None (cs_execution_order (cp_contract plan)) =
       Inr (cp_nodes plan, Some manifest)"
    using compile_Inr [OF assms(1)] by metis
  from assms(2) obtain i where "i < length (cp_nodes plan)" "cp_nodes plan ! i = n" by (auto simp: in_set_conv_nth)
  with compile_steps_sound [OF c(2)] have "node_compiled_from spec by_c (take i (cp_nodes plan)) n" by auto
  then show ?thesis unfolding node_compiled_from_def using index_snapshot_sound [OF c(1)] by fastforce
qed

lemma compile_node_order:
  assumes "valid_spec spec" "compile hash now spec snap providers = Inr plan"
  shows "list_schedule (step_ids spec) (step_deps spec) (step_position spec) (map cn_step_id (cp_nodes plan))"
    "mset (map cn_step_id (cp_nodes plan)) = mset (step_ids spec)"
    "distinct (map cn_step_id (cp_nodes plan))"
    "cs_spec (cp_contract plan) = spec"
proof -
  let ?ids = "map cn_step_id (cp_nodes plan)"
  obtain by_c manifest where c:
    "stable_topological_order spec = Inr (cs_execution_order (cp_contract plan))"
    "compile_steps spec by_c providers [] None (cs_execution_order (cp_contract plan)) =
       Inr (cp_nodes plan, Some manifest)" "cs_spec (cp_contract plan) = spec"
    using compile_Inr [OF assms(2)] by metis
  from compile_steps_sound [OF c(2)] have ids: "?ids = cs_execution_order (cp_contract plan)" by auto
  from stable_topological_order_correct [OF assms(1)] c(1)
  have "set ?ids = set (step_ids spec)"
    and l: "list_schedule (step_ids spec) (step_deps spec) (step_position spec) ?ids"
    unfolding ids by auto
  moreover from list_schedule_distinct [OF l] show "distinct ?ids" .
  ultimately show "mset ?ids = mset (step_ids spec)"
    using valid_spec_facts(1) [OF assms(1)] by (metis set_eq_iff_mset_eq_distinct)
  show "cs_spec (cp_contract plan) = spec" by (fact c(3))
  show "list_schedule (step_ids spec) (step_deps spec) (step_position spec) ?ids" by (fact l)
qed

section \<open>Properties\<close>

text \<open>C2: A compiled plan runs the pipeline and nothing else: its nodes are the steps in a list
  schedule, each bound to the registration whose metadata the run snapshot fixed for the step's exact
  rule coordinate in the declared rule pack; a parameter taken from another step's output names a
  declared dependency that is compiled earlier and declares that output.\<close>

theorem compiled_plan_sound:
  assumes "valid_spec spec" "compile hash now spec snap providers = Inr plan"
  shows "list_schedule (step_ids spec) (step_deps spec) (step_position spec) (map cn_step_id (cp_nodes plan)) \<and>
    mset (map cn_step_id (cp_nodes plan)) = mset (step_ids spec) \<and>
    (\<forall>n\<in>set (cp_nodes plan). \<exists>step\<in>set (ss_pipeline spec). \<exists>r\<in>set (sn_rules snap).
       ps_step_id step = cn_step_id n \<and> ps_rule_id step = cn_rule_id n \<and> ps_depends_on step = cn_depends_on n \<and>
       rg_metadata (cn_registration n) = rs_metadata r \<and> rs_manifest_hash r = ss_rule_pack_hash spec \<and>
       rm_rule_id (rs_metadata r) = ps_rule_id step \<and> rm_version (rs_metadata r) = ps_rule_version step) \<and>
    (\<forall>i < length (cp_nodes plan). \<forall>name s x.
       (name, DynamicOutput s x) \<in> set (cn_parameters (cp_nodes plan ! i)) \<longrightarrow>
       s \<in> set (cn_depends_on (cp_nodes plan ! i)) \<and>
       (\<exists>j < i. cn_step_id (cp_nodes plan ! j) = s \<and>
          x \<in> ro_name ` set (rm_outputs (rg_metadata (cn_registration (cp_nodes plan ! j))))))"
proof -
  let ?nodes = "cp_nodes plan"
  obtain by_c manifest where
    "compile_steps spec by_c providers [] None (cs_execution_order (cp_contract plan)) =
       Inr (cp_nodes plan, Some manifest)"
    using compile_Inr [OF assms(2)] by metis
  from compile_steps_sound [OF this]
  have from_: "\<forall>i<length ?nodes. node_compiled_from spec by_c (take i ?nodes) (?nodes ! i)" by auto
  have dyn: "s \<in> set (cn_depends_on (?nodes ! i)) \<and> (\<exists>j < i. cn_step_id (?nodes ! j) = s \<and>
      x \<in> ro_name ` set (rm_outputs (rg_metadata (cn_registration (?nodes ! j)))))"
    if i: "i < length ?nodes" and d: "(name, DynamicOutput s x) \<in> set (cn_parameters (?nodes ! i))" for i name s x
  proof -
    from from_ i d obtain src where "s \<in> set (cn_depends_on (?nodes ! i))" "src \<in> set (take i ?nodes)"
      "cn_step_id src = s" "x \<in> ro_name ` set (rm_outputs (rg_metadata (cn_registration src)))"
      unfolding node_compiled_from_def by blast
    then show ?thesis using i by (auto simp: in_set_conv_nth)
  qed
  with compile_node_order [OF assms] compile_node_facts [OF assms(2)] show ?thesis by blast
qed

text \<open>A two-step strategy whose second step reads an output of the first.\<close>

definition demo_meta :: "string \<Rightarrow> rule_metadata" where
  "demo_meta i = (demo_rule LC_APPROVED)
     \<lparr> rm_rule_id := ''r-'' @ i,
       rm_outputs := [\<lparr> ro_name = ''rsi'', ro_data_type = ''decimal'', ro_description = None, ro_unit = None \<rparr>] \<rparr>"

definition demo_manifest :: rule_pack_manifest where
  "demo_manifest = (rp_manifest (demo_provider LC_APPROVED)) \<lparr> mf_rules := [demo_meta ''a'', demo_meta ''b''] \<rparr>"

definition demo_registration :: "string \<Rightarrow> unit registration" where
  "demo_registration i = \<lparr> rg_metadata = demo_meta i,
     rg_fields = [(''level'', \<lparr> fd_required = True, fd_validate_json = (\<lambda>v. Inr v) \<rparr>)],
     rg_validate_json = (\<lambda>d. Inr d), rg_model_validate = (\<lambda>_. Inr ()) \<rparr>"

definition demo_providers :: "string \<Rightarrow> unit provider option" where
  "demo_providers i = (if i = ''pack@1.0.0'' then Some \<lparr> pv_manifest = demo_manifest,
     pv_resolve = (\<lambda>rid v. if v \<noteq> ''1.0.0'' then None
        else if rid = ''r-a'' then Some (demo_registration ''a'')
        else if rid = ''r-b'' then Some (demo_registration ''b'') else None) \<rparr> else None)"

definition demo_snapshot :: registry_snapshot where
  "demo_snapshot = make_snapshot demo_digest ''run-1''
     (map (resolved_of ((demo_provider LC_APPROVED) \<lparr> rp_manifest := demo_manifest \<rparr>)) (mf_rules demo_manifest))"

definition pair_spec :: strategy_spec where
  "pair_spec = (demo_spec [demo_step ''b'' [''a''], demo_step ''a'' []])
     \<lparr> ss_bindings := [\<lparr> rb_rule_id = ''r-a'', rb_alias = None, rb_parameters = [] \<rparr>,
         \<lparr> rb_rule_id = ''r-b'', rb_alias = None,
           rb_parameters = [\<lparr> nv_name = ''level'', nv_value = VStr ''${steps.a.outputs.rsi}'' \<rparr>] \<rparr>] \<rparr>"

lemmas spec_eval =
  valid_spec_def make_strategy_spec_def demo_spec_def demo_step_def validate_graph_and_bindings_def
  check_acyclic_def spec_dependencies_def identifier_str_def semver_def numeric_part_def sha256_ref_def
  validate_dependencies_def validate_parameters_def pipeline_step_fields_def rule_binding_fields_def
  strategy_policies_fields_def unit_interval_def
  scoring_weight_fields_def validate_weights_def dsum_def dadd_def char_class_defs

lemma pair_valid: "valid_spec pair_spec"
  by (simp add: pair_spec_def spec_eval Let_def insert_commute)

definition pair_node :: "string \<Rightarrow> string list \<Rightarrow> (string, parameter) dict \<Rightarrow> unit compiled_node" where
  "pair_node i deps ps = \<lparr> cn_step_id = i, cn_rule_id = ''r-'' @ i, cn_reference = ''r-'' @ i @ ''@1.0.0'',
     cn_version = ''1.0.0'', cn_depends_on = deps, cn_dependency_policy = ''REQUIRE_PASS'', cn_enabled = True,
     cn_provider_id = ''pack@1.0.0'', cn_parameters = ps, cn_registration = demo_registration i \<rparr>"

lemma match_dynamic_demo: "match_dynamic ''${steps.a.outputs.rsi}'' = Some (''a'', ''rsi'')"
  by (simp add: match_dynamic_def dynamic_prefix_def dynamic_infix_def split_dynamic_def identifier_str_def
      char_class_defs Let_def upt_rec)

lemma compile_succeeds:
  assumes "sn_run_id snap = ss_run_id spec" "stable_topological_order spec = Inr order"
    "index_snapshot [] (sn_rules snap) = Inr by_c"
    "compile_steps spec by_c providers [] None order = Inr (nodes, Some manifest)"
    "is_ok (canonical_json (definition_payload spec))" "\<And>h. is_ok (canonical_json (plan_payload h nodes))"
    "\<And>h. is_ok (validate_compilation \<lparr> cs_spec = spec, cs_rule_pack = manifest, cs_compiled_hash = h,
       cs_compiled_at = now, cs_execution_order = order \<rparr>)"
  shows "\<exists>plan. compile hash now spec snap providers = Inr plan \<and> cp_nodes plan = nodes \<and>
     cs_spec (cp_contract plan) = spec"
proof -
  obtain h1 where h1: "compiler_digest hash (definition_payload spec) = Inr h1"
    using assms(5) by (auto simp: compiler_digest_def sha256_digest_def is_ok_iff)
  obtain h2 where h2: "compiler_digest hash (plan_payload h1 nodes) = Inr h2"
    using assms(6) [of h1] by (auto simp: compiler_digest_def sha256_digest_def is_ok_iff)
  let ?c = "\<lparr> cs_spec = spec, cs_rule_pack = manifest, cs_compiled_hash = h2,
       cs_compiled_at = now, cs_execution_order = order \<rparr>"
  have "validate_compilation ?c = Inr ?c"
    using assms(7) [of h2] validate_compilation_Inr unfolding is_ok_iff by metis
  with h1 h2 assms(1-4) show ?thesis by (simp add: compile_def)
qed

lemma pair_order: "stable_topological_order pair_spec = Inr [''a'', ''b'']"
  by (simp add: pair_spec_def stable_topological_order_def demo_spec_def demo_step_def
      incoming_counts_def dependents_of_def step_position_def Let_def)

definition pair_index :: "(string \<times> string, resolved_rule) dict" where
  "pair_index = map (\<lambda>r. ((rm_rule_id (rs_metadata r), rm_version (rs_metadata r)), r)) (sn_rules demo_snapshot)"

lemma pair_index: "index_snapshot [] (sn_rules demo_snapshot) = Inr pair_index"
  by (simp add: pair_index_def demo_snapshot_def make_snapshot_def demo_manifest_def demo_meta_def
      demo_rule_def resolved_of_def)

lemmas pair_eval = pair_index_def demo_snapshot_def make_snapshot_def demo_manifest_def demo_provider_def
  resolved_of_def metadata_reference_def demo_providers_def reference_str_def

definition pair_nodes :: "unit compiled_node list" where
  "pair_nodes = [pair_node ''a'' [] [], pair_node ''b'' [''a''] [(''level'', DynamicOutput ''a'' ''rsi'')]]"

lemma pair_steps: "compile_steps pair_spec pair_index demo_providers [] None [''a'', ''b''] = Inr (pair_nodes, Some demo_manifest)"
  by (simp add: compile_step_def pair_spec_def demo_spec_def demo_step_def pair_eval demo_registration_def
      demo_meta_def demo_rule_def compile_parameters_def dict_of_def match_dynamic_demo node_of_def
      is_dynamic_def adapt_parameter_def pair_nodes_def pair_node_def Let_def)

lemmas payload_eval = definition_payload_def dump_policies_def dump_pipeline_step_def dump_binding_def
  dump_scoring_def plan_payload_def dump_parameter_def opt_value_def canonical_dict_ok is_ok_bind_Inr

lemma pair_compiles:
  "\<exists>plan. compile demo_digest 0 pair_spec demo_snapshot demo_providers = Inr plan \<and> cp_nodes plan = pair_nodes \<and>
     cs_spec (cp_contract plan) = pair_spec"
proof (rule compile_succeeds [OF _ pair_order pair_index pair_steps])
  show "sn_run_id demo_snapshot = ss_run_id pair_spec"
    by (simp add: demo_snapshot_def make_snapshot_def pair_spec_def demo_spec_def)
  show "is_ok (canonical_json (definition_payload pair_spec))"
    by (simp add: payload_eval pair_spec_def demo_spec_def demo_step_def del: canonical_json.simps(11) map_result.simps)
  show "is_ok (canonical_json (plan_payload h pair_nodes))" for h
    by (simp add: payload_eval pair_nodes_def pair_node_def del: canonical_json.simps(11) map_result.simps)
  show "is_ok (validate_compilation \<lparr> cs_spec = pair_spec, cs_rule_pack = demo_manifest, cs_compiled_hash = h,
       cs_compiled_at = 0, cs_execution_order = [''a'', ''b''] \<rparr>)" for h
    by (simp add: validate_compilation_def pair_spec_def demo_spec_def demo_step_def demo_manifest_def
        demo_provider_def demo_meta_def demo_rule_def Let_def insert_commute)
qed

theorem compiled_plan_sound_witness:
  "\<exists>plan. compile demo_digest 0 pair_spec demo_snapshot demo_providers = Inr plan \<and>
     mset (map cn_step_id (cp_nodes plan)) = mset (step_ids pair_spec) \<and>
     (''level'', DynamicOutput ''a'' ''rsi'') \<in> set (cn_parameters (cp_nodes plan ! 1))"
proof -
  obtain plan where p: "compile demo_digest 0 pair_spec demo_snapshot demo_providers = Inr plan"
    "cp_nodes plan = pair_nodes" using pair_compiles by blast
  from compiled_plan_sound [OF pair_valid p(1)] have "mset (map cn_step_id (cp_nodes plan)) = mset (step_ids pair_spec)"
    by blast
  with p show ?thesis by (auto simp: pair_nodes_def pair_node_def)
qed

text \<open>C6: A strategy that sets \<open>max_candidate_age\<close> never compiles: the definition digest meets a
  \<open>timedelta\<close>, which canonical JSON cannot encode.\<close>

theorem max_candidate_age_never_compiles:
  assumes "sp_max_candidate_age (ss_policies spec) = Some age"
  shows "\<not> is_ok (compile hash now spec snap providers)"
proof
  assume "is_ok (compile hash now spec snap providers)"
  then obtain plan where p: "compile hash now spec snap providers = Inr plan" by (auto simp: is_ok_iff)
  have "is_ok (canonical_json (definition_payload spec))" using compile_Inr [OF p] by metis
  moreover have "\<not> is_ok (canonical_json (dump_policies (ss_policies spec)))"
    unfolding dump_policies_def canonical_dict_ok using assms by (simp add: opt_value_def)
  then have "\<not> is_ok (canonical_json (definition_payload spec))"
    unfolding definition_payload_def canonical_dict_ok by simp
  ultimately show False by simp
qed

definition aged_spec :: strategy_spec where
  "aged_spec = pair_spec \<lparr> ss_policies := (ss_policies pair_spec) \<lparr> sp_max_candidate_age := Some (minutes 15) \<rparr> \<rparr>"

theorem max_candidate_age_never_compiles_witness:
  "valid_spec aged_spec \<and> \<not> is_ok (compile demo_digest 0 aged_spec demo_snapshot demo_providers)"
proof
  show "valid_spec aged_spec"
    by (simp add: aged_spec_def pair_spec_def spec_eval Let_def insert_commute duration_defs)
  show "\<not> is_ok (compile demo_digest 0 aged_spec demo_snapshot demo_providers)"
    by (rule max_candidate_age_never_compiles [where age = "minutes 15"]) (simp add: aged_spec_def)
qed

end
