(* ===== verification/Rule_Runner.thy ===== *)
theory Rule_Runner
  imports Strategy_Compiler
begin

text \<open>
  Hard process isolation of rule execution (app/strategy_runtime/subprocess_runner.py). The child
  process, the pipe and the monotonic clock are outside: what the parent observes of them is a
  \<open>worker_run\<close>, and the waiting loops read it one observation per iteration. Times are
  microseconds of \<open>time.monotonic\<close>.
\<close>

section \<open>Observations\<close>

text \<open>
  An exception of the parent: \<open>run\<close> catches \<open>OSError\<close>, \<open>TypeError\<close> and \<open>ValueError\<close> (here their text
  \<open>Class: message\<close>), and lets every other class escape.
\<close>

datatype raised = Caught string | Escaping string

text \<open>
  What \<open>receiver.recv()\<close> delivers. A closed pipe polls as ready and raises \<open>EOFError\<close>; unpickling what
  was sent may raise anything.
\<close>

datatype worker_message =
    MStarted
  | MResult rule_result
  | MException string string
  | MOtherTuple
  | MNotTuple
  | MEof
  | MRaises raised

text \<open>One iteration of the start loop: the clock at its head, \<open>poll(0.01)\<close>, \<open>is_alive\<close>.\<close>

record start_observation =
  so_now :: int
  so_polled :: bool
  so_alive :: bool

text \<open>
  One iteration of the execution loop: \<open>poll(0.005)\<close>, \<open>is_alive\<close>, the poll after the child was
  joined, the clock, and the resident memory (None when \<open>psutil\<close> fails or the child has no pid).
\<close>

record wait_observation =
  wo_polled :: bool
  wo_alive :: bool
  wo_polled_after :: bool
  wo_now :: int
  wo_rss :: "int option"

record worker_run =
  wk_started :: int
  wk_spawn_error :: "raised option"
  wk_start_deadline_base :: int
  wk_start :: "start_observation list"
  wk_handshake :: worker_message
  wk_execution_started :: int
  wk_wait :: "wait_observation list"
  wk_polled_final :: bool
  wk_message :: worker_message
  wk_finished :: int

record runner =
  rn_timeout :: int
  rn_max_rss :: "int option"

definition make_runner :: "int \<Rightarrow> int option \<Rightarrow> runner result" where
  "make_runner timeout max_rss =
     (if timeout \<le> 0 then Inl (ValueError ''timeout_seconds must be positive'')
      else if (case max_rss of None \<Rightarrow> False | Some m \<Rightarrow> m \<le> 0)
      then Inl (ValueError ''max_rss_bytes must be positive'')
      else Inr \<lparr> rn_timeout = timeout, rn_max_rss = max_rss \<rparr>)"

section \<open>The waiting loops\<close>

type_synonym failure = "string \<times> string"

text \<open>
  \<open>_wait_for_start\<close>; the handshake message is received when a poll succeeds. What \<open>run\<close> catches it reports
  with the code of a startup failure.
\<close>

fun wait_for_start :: "int \<Rightarrow> worker_message \<Rightarrow> start_observation list \<Rightarrow> failure option result" where
  "wait_for_start deadline handshake [] = Inl OutOfFuel"
| "wait_for_start deadline handshake (s # rest) =
     (if deadline \<le> so_now s then Inr (Some (''WORKER_START'', ''worker startup handshake timed out''))
      else if so_polled s then
        (case handshake of
           MEof \<Rightarrow> Inl EOFError
         | MRaises (Escaping name) \<Rightarrow> Inl (OtherException name)
         | MRaises (Caught why) \<Rightarrow> Inr (Some (''WORKER_START'', why))
         | MStarted \<Rightarrow> Inr None
         | _ \<Rightarrow> Inr (Some (''WORKER_START'', ''worker sent output before its start handshake'')))
      else if \<not> so_alive s then Inr (Some (''WORKER_START'', ''worker exited during startup''))
      else wait_for_start deadline handshake rest)"

text \<open>\<open>_wait\<close>: the result of \<open>None\<close> is that a message can be received.\<close>

fun wait_result :: "runner \<Rightarrow> int \<Rightarrow> wait_observation list \<Rightarrow> failure option result" where
  "wait_result cfg started [] = Inl OutOfFuel"
| "wait_result cfg started (w # rest) =
     (if wo_polled w then Inr None
      else if \<not> wo_alive w then
        Inr (if wo_polled_after w then None else Some (''WORKER_EXIT'', ''worker exited without output''))
      else if rn_timeout cfg \<le> wo_now w - started then
        Inr (Some (''RULE_TIMEOUT'', ''rule exceeded hard execution timeout''))
      else (case (rn_max_rss cfg, wo_rss w) of
          (Some limit, Some rss) \<Rightarrow>
            if limit < rss then Inr (Some (''RSS_LIMIT'', ''rule exceeded resident memory limit''))
            else wait_result cfg started rest
        | _ \<Rightarrow> wait_result cfg started rest))"

section \<open>run\<close>

definition runner_error :: "evaluation_context \<Rightarrow> string \<Rightarrow> string \<Rightarrow> failure \<Rightarrow> int \<Rightarrow> int \<Rightarrow> rule_result result" where
  "runner_error context rule_id rule_version failure started now =
     make_rule_result
       \<lparr> rr_rule_id = rule_id, rr_rule_version = Some rule_version, rr_status = RS_ERROR,
          rr_evaluated_at = ec_as_of context, rr_score = None, rr_reason = Some (snd failure),
          rr_outputs = [], rr_error_code = Some (fst failure), rr_error_message = Some (snd failure),
          rr_duration_ms = Some (of_int (now - started) / 1000) \<rparr>"

definition run_rule :: "runner \<Rightarrow> worker_run \<Rightarrow> evaluation_context \<Rightarrow> string \<Rightarrow> string \<Rightarrow> rule_result result" where
  "run_rule cfg w context rule_id rule_version =
     (let error = (\<lambda>failure. runner_error context rule_id rule_version failure (wk_started w) (wk_finished w)) in
      case wk_spawn_error w of
        Some (Caught why) \<Rightarrow> error (''WORKER_START'', why)
      | Some (Escaping name) \<Rightarrow> Inl (OtherException name)
      | None \<Rightarrow>
        bind_result
          (wait_for_start (wk_start_deadline_base w + seconds 10) (wk_handshake w) (wk_start w))
          (\<lambda>startup_failure. case startup_failure of
             Some f \<Rightarrow> error f
           | None \<Rightarrow>
             bind_result (wait_result cfg (wk_execution_started w) (wk_wait w))
               (\<lambda>failure. case failure of
                  Some f \<Rightarrow> error f
                | None \<Rightarrow>
                  if \<not> wk_polled_final w then error (''WORKER_EXIT'', ''worker exited without output'')
                  else (case wk_message w of
                      MEof \<Rightarrow> Inl EOFError
                    | MRaises (Escaping name) \<Rightarrow> Inl (OtherException name)
                    | MRaises (Caught why) \<Rightarrow> error (''WORKER_START'', why)
                    | MNotTuple \<Rightarrow> error (''INVALID_OUTPUT'', ''worker returned an invalid envelope'')
                    | MException name detail \<Rightarrow>
                        error (''RULE_EXCEPTION'', if detail \<noteq> [] then name @ '': '' @ detail else name)
                    | MResult output \<Rightarrow>
                        if rr_rule_id output \<noteq> rule_id \<or> rr_rule_version output \<noteq> Some rule_version
                        then error (''INVALID_OUTPUT'', ''rule result identity does not match compiled rule'')
                        else Inr output
                    | _ \<Rightarrow> error (''INVALID_OUTPUT'', ''rule must return RuleResult'')))))"

section \<open>Lemmas\<close>

text \<open>
  What Python guarantees of a worker report: an exception class has a name, its text is not blank, and a
  clock does not run backwards.
\<close>

fun caught_texts_ok :: "raised \<Rightarrow> bool" where
  "caught_texts_ok (Caught why) = non_empty_str why"
| "caught_texts_ok (Escaping name) = True"

fun message_ok :: "worker_message \<Rightarrow> bool" where
  "message_ok (MException name detail) = (non_empty_str name \<and> non_empty_str (name @ '': '' @ detail))"
| "message_ok (MResult r) = (make_rule_result r = Inr r)"
| "message_ok (MRaises x) = caught_texts_ok x"
| "message_ok _ = True"

definition worker_wf :: "worker_run \<Rightarrow> bool" where
  "worker_wf w \<longleftrightarrow> wk_started w \<le> wk_finished w \<and> opt_all caught_texts_ok (wk_spawn_error w) \<and>
     message_ok (wk_handshake w) \<and> message_ok (wk_message w)"

text \<open>The exceptions that end \<open>run\<close>: the \<open>EOFError\<close> of a closed pipe, and what it does not catch.\<close>

definition escapes :: "worker_run \<Rightarrow> py_error \<Rightarrow> bool" where
  "escapes w e \<longleftrightarrow> e = EOFError \<and> (wk_handshake w = MEof \<or> wk_message w = MEof) \<or>
     (\<exists>name. e = OtherException name \<and> (wk_spawn_error w = Some (Escaping name) \<or>
        wk_handshake w = MRaises (Escaping name) \<or> wk_message w = MRaises (Escaping name)))"

text \<open>
  The course of a rule that answered: the process started, its handshake was the first thing received and
  came in time, and later, within the time and memory limits, its result with the identity asked for.
\<close>

definition handshaken :: "worker_run \<Rightarrow> bool" where
  "handshaken w \<longleftrightarrow> wk_spawn_error w = None \<and> wk_handshake w = MStarted \<and>
     (\<exists>waiting s rest. wk_start w = waiting @ s # rest \<and> so_polled s \<and> (\<forall>x\<in>set waiting. \<not> so_polled x \<and> so_alive x) \<and>
        (\<forall>x\<in>set (waiting @ [s]). so_now x < wk_start_deadline_base w + seconds 10))"

definition over_memory :: "runner \<Rightarrow> wait_observation \<Rightarrow> bool" where
  "over_memory cfg x \<longleftrightarrow> (\<exists>limit\<in>set_option (rn_max_rss cfg). \<exists>rss\<in>set_option (wo_rss x). limit < rss)"

definition answered :: "runner \<Rightarrow> worker_run \<Rightarrow> bool" where
  "answered cfg w \<longleftrightarrow> wk_polled_final w \<and>
     (\<exists>waiting x rest. wk_wait w = waiting @ x # rest \<and> (wo_polled x \<or> \<not> wo_alive x \<and> wo_polled_after x) \<and>
        (\<forall>y\<in>set waiting. \<not> wo_polled y \<and> wo_alive y \<and> wo_now y - wk_execution_started w < rn_timeout cfg \<and>
           \<not> over_memory cfg y))"

definition delivered :: "runner \<Rightarrow> worker_run \<Rightarrow> string \<Rightarrow> string \<Rightarrow> rule_result \<Rightarrow> bool" where
  "delivered cfg w rid v r \<longleftrightarrow> handshaken w \<and> answered cfg w \<and> wk_message w = MResult r \<and>
     rr_rule_id r = rid \<and> rr_rule_version r = Some v"

text \<open>The loops end once the clock passes their limit.\<close>

lemmas report_splits = worker_message.splits raised.splits option.splits

lemma wait_for_start_ends:
  "s \<in> set obs \<Longrightarrow> deadline \<le> so_now s \<Longrightarrow> wait_for_start deadline handshake obs \<noteq> Inl OutOfFuel"
  by (induction deadline handshake obs rule: wait_for_start.induct) (auto split: report_splits)

lemma wait_result_ends:
  "w \<in> set obs \<Longrightarrow> rn_timeout cfg \<le> wo_now w - started \<Longrightarrow> wait_result cfg started obs \<noteq> Inl OutOfFuel"
  by (induction cfg started obs rule: wait_result.induct) (auto split: option.splits)

lemma wait_for_start_cases:
  "wait_for_start deadline handshake obs = Inl e \<Longrightarrow> e = OutOfFuel \<or> e = EOFError \<and> handshake = MEof \<or>
     (\<exists>name. e = OtherException name \<and> handshake = MRaises (Escaping name))"
  by (induction deadline handshake obs rule: wait_for_start.induct) (auto split: report_splits if_splits)

lemma wait_result_cases: "wait_result cfg started obs = Inl e \<Longrightarrow> e = OutOfFuel"
  by (induction cfg started obs rule: wait_result.induct) (auto split: option.splits if_splits)

text \<open>The loops end without a failure exactly on the courses described above.\<close>

lemma wait_for_start_None:
  "wait_for_start deadline handshake obs = Inr None \<longleftrightarrow> handshake = MStarted \<and>
     (\<exists>waiting s rest. obs = waiting @ s # rest \<and> so_polled s \<and> (\<forall>x\<in>set waiting. \<not> so_polled x \<and> so_alive x) \<and>
        (\<forall>x\<in>set (waiting @ [s]). so_now x < deadline))" (is "_ \<longleftrightarrow> _ \<and> ?course obs")
proof (induction obs)
  case (Cons s obs)
  have course: "?course (s # obs) \<longleftrightarrow> so_now s < deadline \<and> (so_polled s \<or> \<not> so_polled s \<and> so_alive s \<and> ?course obs)"
  proof
    assume "?course (s # obs)"
    then obtain waiting x rest where w: "s # obs = waiting @ x # rest" "so_polled x"
      "\<forall>y\<in>set waiting. \<not> so_polled y \<and> so_alive y" "\<forall>y\<in>set (waiting @ [x]). so_now y < deadline" by blast
    show "so_now s < deadline \<and> (so_polled s \<or> \<not> so_polled s \<and> so_alive s \<and> ?course obs)"
      using w by (cases waiting) auto
  next
    assume r: "so_now s < deadline \<and> (so_polled s \<or> \<not> so_polled s \<and> so_alive s \<and> ?course obs)"
    show "?course (s # obs)"
    proof (cases "so_polled s")
      case True
      with r show ?thesis by (intro exI [of _ "[]"]) auto
    next
      case False
      with r obtain waiting x rest where "obs = waiting @ x # rest" "so_polled x"
        "\<forall>y\<in>set waiting. \<not> so_polled y \<and> so_alive y" "\<forall>y\<in>set (waiting @ [x]). so_now y < deadline" "so_alive s" by blast
      with r False show ?thesis by (intro exI [of _ "s # waiting"]) auto
    qed
  qed
  show ?case unfolding course using Cons.IH by (auto split: report_splits)
qed simp

lemma wait_result_None:
  "wait_result cfg started obs = Inr None \<longleftrightarrow>
     (\<exists>waiting x rest. obs = waiting @ x # rest \<and> (wo_polled x \<or> \<not> wo_alive x \<and> wo_polled_after x) \<and>
        (\<forall>y\<in>set waiting. \<not> wo_polled y \<and> wo_alive y \<and> wo_now y - started < rn_timeout cfg \<and> \<not> over_memory cfg y))"
  (is "_ \<longleftrightarrow> ?course obs")
proof (induction obs)
  case (Cons x obs)
  have course: "?course (x # obs) \<longleftrightarrow> (wo_polled x \<or> \<not> wo_alive x \<and> wo_polled_after x) \<or>
      \<not> wo_polled x \<and> wo_alive x \<and> wo_now x - started < rn_timeout cfg \<and> \<not> over_memory cfg x \<and> ?course obs"
  proof
    assume "?course (x # obs)"
    then obtain waiting s rest where w: "x # obs = waiting @ s # rest" "wo_polled s \<or> \<not> wo_alive s \<and> wo_polled_after s"
      "\<forall>y\<in>set waiting. \<not> wo_polled y \<and> wo_alive y \<and> wo_now y - started < rn_timeout cfg \<and> \<not> over_memory cfg y" by blast
    show "(wo_polled x \<or> \<not> wo_alive x \<and> wo_polled_after x) \<or>
      \<not> wo_polled x \<and> wo_alive x \<and> wo_now x - started < rn_timeout cfg \<and> \<not> over_memory cfg x \<and> ?course obs"
      using w by (cases waiting) auto
  next
    assume "(wo_polled x \<or> \<not> wo_alive x \<and> wo_polled_after x) \<or>
      \<not> wo_polled x \<and> wo_alive x \<and> wo_now x - started < rn_timeout cfg \<and> \<not> over_memory cfg x \<and> ?course obs"
    then consider "wo_polled x \<or> \<not> wo_alive x \<and> wo_polled_after x"
      | waiting s rest where "obs = waiting @ s # rest" "wo_polled s \<or> \<not> wo_alive s \<and> wo_polled_after s"
        "\<forall>y\<in>set (x # waiting). \<not> wo_polled y \<and> wo_alive y \<and> wo_now y - started < rn_timeout cfg \<and> \<not> over_memory cfg y"
      by auto
    then show "?course (x # obs)"
    proof cases
      case 1
      then show ?thesis by (intro exI [of _ "[]"]) auto
    next
      case 2
      then show ?thesis by (intro exI [of _ "x # waiting"]) auto
    qed
  qed
  show ?case unfolding course using Cons.IH by (auto simp: over_memory_def split: option.splits)
qed simp

lemma handshaken_iff:
  "handshaken w \<longleftrightarrow> wk_spawn_error w = None \<and>
     wait_for_start (wk_start_deadline_base w + seconds 10) (wk_handshake w) (wk_start w) = Inr None"
  unfolding handshaken_def wait_for_start_None by blast

lemma answered_iff:
  "answered cfg w \<longleftrightarrow> wk_polled_final w \<and> wait_result cfg (wk_execution_started w) (wk_wait w) = Inr None"
  unfolding answered_def wait_result_None by blast

definition failure_ok :: "failure \<Rightarrow> bool" where
  "failure_ok f \<longleftrightarrow> identifier_str (fst f) \<and> non_empty_str (snd f)"

lemmas text_eval = failure_ok_def identifier_str_def non_empty_str_def strip_def char_class_defs

lemma failure_texts:
  "failure_ok (''WORKER_START'', ''worker startup handshake timed out'')"
  "failure_ok (''WORKER_START'', ''worker sent output before its start handshake'')"
  "failure_ok (''WORKER_START'', ''worker exited during startup'')"
  "failure_ok (''WORKER_EXIT'', ''worker exited without output'')"
  "failure_ok (''RULE_TIMEOUT'', ''rule exceeded hard execution timeout'')"
  "failure_ok (''RSS_LIMIT'', ''rule exceeded resident memory limit'')"
  "failure_ok (''INVALID_OUTPUT'', ''worker returned an invalid envelope'')"
  "failure_ok (''INVALID_OUTPUT'', ''rule result identity does not match compiled rule'')"
  "failure_ok (''INVALID_OUTPUT'', ''rule must return RuleResult'')"
  by (simp_all add: text_eval)

lemma caught_failure: "non_empty_str why \<Longrightarrow> failure_ok (''WORKER_START'', why)"
  by (simp add: failure_ok_def identifier_str_def char_class_defs)

lemma wait_for_start_failure:
  "wait_for_start deadline handshake obs = Inr (Some f) \<Longrightarrow> message_ok handshake \<Longrightarrow> failure_ok f"
proof (induction deadline handshake obs rule: wait_for_start.induct)
  case (2 deadline handshake s rest)
  then show ?case
    using failure_texts(1-3) by (auto intro: caught_failure split: report_splits if_splits)
qed simp

lemma wait_result_failure:
  "wait_result cfg started obs = Inr (Some f) \<Longrightarrow> failure_ok f"
proof (induction cfg started obs rule: wait_result.induct)
  case (2 cfg started w rest)
  then show ?case
    using failure_texts(4-6) by (simp split: option.splits if_splits)
qed simp

lemma runner_error_ok:
  assumes "identifier_str rid" "semver v" "failure_ok f" "started \<le> now"
  shows "\<exists>r. runner_error context rid v f started now = Inr r \<and> rr_status r = RS_ERROR \<and>
    rr_rule_id r = rid \<and> rr_rule_version r = Some v \<and> make_rule_result r = Inr r"
  using assms
  by (auto simp: runner_error_def make_rule_result_def strip_texts_def rule_result_fields_def
      validate_status_details_def failure_ok_def non_empty_str_def)

lemma message_failure_ok:
  "message_ok (MException name detail) \<Longrightarrow>
   failure_ok (''RULE_EXCEPTION'', if detail \<noteq> [] then name @ '': '' @ detail else name)"
  by (simp add: failure_ok_def identifier_str_def char_class_defs)

text \<open>How a run ends: with the result delivered, with a failure, or with an exception that escapes.\<close>

lemma run_rule_cases:
  assumes wf: "worker_wf w"
    and start: "\<exists>s\<in>set (wk_start w). wk_start_deadline_base w + seconds 10 \<le> so_now s"
    and exec: "\<exists>x\<in>set (wk_wait w). rn_timeout cfg \<le> wo_now x - wk_execution_started w"
  obtains (result) r where "delivered cfg w rid v r" "run_rule cfg w context rid v = Inr r" "make_rule_result r = Inr r"
    | (failure) f where "\<And>r. \<not> delivered cfg w rid v r" "failure_ok f"
        "run_rule cfg w context rid v = runner_error context rid v f (wk_started w) (wk_finished w)"
    | (escape) e where "\<And>r. \<not> delivered cfg w rid v r" "run_rule cfg w context rid v = Inl e" "escapes w e"
proof -
  let ?start = "wait_for_start (wk_start_deadline_base w + seconds 10) (wk_handshake w) (wk_start w)"
  let ?wait = "wait_result cfg (wk_execution_started w) (wk_wait w)"
  note run = run_rule_def [of cfg w "context" rid v, unfolded Let_def]
  note handshake = handshaken_iff [of w] and answer = answered_iff [of cfg w]
  have texts: "opt_all caught_texts_ok (wk_spawn_error w)" "message_ok (wk_handshake w)" "message_ok (wk_message w)"
    using wf by (simp_all add: worker_wf_def)
  have "?wait \<noteq> Inl OutOfFuel" using wait_result_ends exec by blast
  then obtain outcome where wait: "?wait = Inr outcome" using wait_result_cases by (cases ?wait) auto
  consider (spawn) x where "wk_spawn_error w = Some x"
    | (unstarted) e where "wk_spawn_error w = None" "?start = Inl e"
    | (refused) f where "wk_spawn_error w = None" "?start = Inr (Some f)"
    | (ended) f where "handshaken w" "?wait = Inr (Some f)"
    | (silent) "handshaken w" "?wait = Inr None" "\<not> wk_polled_final w"
    | (message) "handshaken w" "answered cfg w"
    using wait handshake answer by (metis option.exhaust sum.exhaust)
  then show thesis
  proof cases
    case spawn
    then have none: "\<not> delivered cfg w rid v r" for r by (simp add: delivered_def handshake)
    show ?thesis
    proof (cases x)
      case (Caught why)
      with spawn none texts(1) show ?thesis
        by (intro failure [of "(''WORKER_START'', why)"]) (simp_all add: run caught_failure)
    next
      case (Escaping name)
      with spawn none show ?thesis by (intro escape [of "OtherException name"]) (simp_all add: run escapes_def)
    qed
  next
    case unstarted
    then have "\<not> delivered cfg w rid v r" for r by (simp add: delivered_def handshake)
    moreover have "e \<noteq> OutOfFuel" using unstarted(2) wait_for_start_ends start by blast
    ultimately show ?thesis using unstarted wait_for_start_cases [OF unstarted(2)]
      by (intro escape [of e]) (auto simp: run escapes_def)
  next
    case refused
    then have "\<not> delivered cfg w rid v r" for r by (simp add: delivered_def handshake)
    with refused show ?thesis using wait_for_start_failure [OF refused(2) texts(2)] by (intro failure [of f]) (simp_all add: run)
  next
    case ended
    then have "\<not> delivered cfg w rid v r" for r by (simp add: delivered_def answer)
    with ended handshake show ?thesis using wait_result_failure [OF ended(2)] by (intro failure [of f]) (simp_all add: run)
  next
    case silent
    then have "\<not> delivered cfg w rid v r" for r by (simp add: delivered_def answer)
    with silent handshake show ?thesis using failure_texts(4) by (intro failure) (simp_all add: run)
  next
    case message
    note seen = message handshake answer
    show ?thesis
    proof (cases "wk_message w")
      case (MResult r)
      show ?thesis
      proof (cases "rr_rule_id r = rid \<and> rr_rule_version r = Some v")
        case True
        with seen MResult texts(3) show ?thesis by (intro result [of r]) (simp_all add: run delivered_def)
      next
        case False
        then have "\<not> delivered cfg w rid v r'" for r' using MResult by (auto simp: delivered_def)
        moreover have "run_rule cfg w context rid v = runner_error context rid v
            (''INVALID_OUTPUT'', ''rule result identity does not match compiled rule'') (wk_started w) (wk_finished w)"
          using seen MResult False by (auto simp: run)
        ultimately show ?thesis using failure failure_texts(8) by blast
      qed
    next
      case (MException name detail)
      then show ?thesis using seen message_failure_ok texts(3)
        by (intro failure [of "(''RULE_EXCEPTION'', if detail \<noteq> [] then name @ '': '' @ detail else name)"])
          (auto simp: run delivered_def)
    next
      case (MRaises x)
      then have none: "\<not> delivered cfg w rid v r" for r by (simp add: delivered_def)
      show ?thesis
      proof (cases x)
        case (Caught why)
        with seen MRaises none texts(3) show ?thesis
          by (intro failure [of "(''WORKER_START'', why)"]) (simp_all add: run caught_failure)
      next
        case (Escaping name)
        with seen MRaises none show ?thesis by (intro escape [of "OtherException name"]) (simp_all add: run escapes_def)
      qed
    next
      case MEof
      then show ?thesis using seen by (intro escape [of EOFError]) (auto simp: run delivered_def escapes_def)
    next
      case MNotTuple
      then show ?thesis using seen failure_texts(7) by (intro failure) (auto simp: run delivered_def)
    qed (use seen failure_texts(9) in \<open>auto simp: run delivered_def intro!: failure\<close>)
  qed
qed

section \<open>Properties\<close>

text \<open>C12: A rule run ends, and fails closed: once the clock passes the start limit and the execution limit, it
  returns the rule's own result exactly when the rule delivered it (a process that started, a handshake in
  time, and a result of the requested identity within the time and memory limits). In every other case it
  returns a valid ERROR result of the requested identity, or an exception escapes: the \<open>EOFError\<close> of a pipe
  found closed, or one that starting the process or unpickling a message raised outside \<open>OSError\<close>,
  \<open>TypeError\<close> and \<open>ValueError\<close>.\<close>

theorem runner_fails_closed:
  assumes wf: "worker_wf w" and ids: "identifier_str rid" "semver v"
    and start: "\<exists>s\<in>set (wk_start w). wk_start_deadline_base w + seconds 10 \<le> so_now s"
    and exec: "\<exists>x\<in>set (wk_wait w). rn_timeout cfg \<le> wo_now x - wk_execution_started w"
  shows "if \<exists>r. delivered cfg w rid v r
     then \<exists>r. delivered cfg w rid v r \<and> run_rule cfg w context rid v = Inr r
     else (\<exists>r. run_rule cfg w context rid v = Inr r \<and> rr_status r = RS_ERROR \<and> rr_rule_id r = rid \<and>
            rr_rule_version r = Some v \<and> make_rule_result r = Inr r) \<or>
          (\<exists>e. run_rule cfg w context rid v = Inl e \<and> escapes w e)"
  using wf start exec
proof (cases rule: run_rule_cases [of w cfg rid v "context"])
  case (failure f)
  from wf have "wk_started w \<le> wk_finished w" by (simp add: worker_wf_def)
  from runner_error_ok [OF ids failure(2) this, of "context"] failure show ?thesis by auto
qed auto

definition demo_context :: evaluation_context where
  "demo_context = \<lparr> ec_symbol = ''NVDA'', ec_timeframe = ''1m'', ec_as_of = 0, ec_market_session = MS_REGULAR,
     ec_run_id = None, ec_trace_id = None, ec_correlation_id = None, ec_values = [] \<rparr>"

definition demo_result :: "string \<Rightarrow> rule_status \<Rightarrow> rat option \<Rightarrow> rule_result" where
  "demo_result rid status score = \<lparr> rr_rule_id = rid, rr_rule_version = Some ''1.0.0'', rr_status = status,
     rr_evaluated_at = 0, rr_score = score, rr_reason = None, rr_outputs = [], rr_error_code = None,
     rr_error_message = None, rr_duration_ms = None \<rparr>"

definition demo_run :: "worker_message \<Rightarrow> worker_message \<Rightarrow> worker_run" where
  "demo_run handshake message = \<lparr> wk_started = 0, wk_spawn_error = None, wk_start_deadline_base = 0,
     wk_start = [\<lparr> so_now = 0, so_polled = False, so_alive = True \<rparr>,
       \<lparr> so_now = 20000, so_polled = True, so_alive = True \<rparr>,
       \<lparr> so_now = seconds 11, so_polled = False, so_alive = True \<rparr>],
     wk_handshake = handshake, wk_execution_started = 30000,
     wk_wait = [\<lparr> wo_polled = False, wo_alive = True, wo_polled_after = False, wo_now = 40000, wo_rss = None \<rparr>,
       \<lparr> wo_polled = True, wo_alive = True, wo_polled_after = False, wo_now = 50000, wo_rss = Some 7 \<rparr>,
       \<lparr> wo_polled = False, wo_alive = True, wo_polled_after = False, wo_now = seconds 9, wo_rss = None \<rparr>],
     wk_polled_final = True, wk_message = message, wk_finished = 60000 \<rparr>"

lemma demo_result_valid:
  "make_rule_result (demo_result ''r-a'' RS_PASS (Some (3 / 4))) = Inr (demo_result ''r-a'' RS_PASS (Some (3 / 4)))"
  by (simp add: demo_result_def make_rule_result_def strip_texts_def rule_result_fields_def
      validate_status_details_def identifier_str_def semver_def numeric_part_def unit_interval_def
      char_class_defs Let_def)

theorem runner_fails_closed_witness:
  "\<exists>r. run_rule \<lparr> rn_timeout = seconds 1, rn_max_rss = None \<rparr>
      (demo_run MStarted (MResult (demo_result ''r-a'' RS_PASS (Some (3 / 4))))) demo_context ''r-a'' ''1.0.0'' = Inr r \<and>
    rr_status r = RS_PASS"
proof -
  let ?w = "demo_run MStarted (MResult (demo_result ''r-a'' RS_PASS (Some (3 / 4))))"
  let ?cfg = "\<lparr> rn_timeout = seconds 1, rn_max_rss = None \<rparr>"
  have "worker_wf ?w" by (simp add: worker_wf_def demo_run_def demo_result_valid)
  moreover have "identifier_str ''r-a''" "semver ''1.0.0''"
    by (simp_all add: identifier_str_def semver_def numeric_part_def char_class_defs)
  moreover have "\<exists>s\<in>set (wk_start ?w). wk_start_deadline_base ?w + seconds 10 \<le> so_now s"
    by (simp add: demo_run_def seconds_def)
  moreover have "\<exists>x\<in>set (wk_wait ?w). rn_timeout ?cfg \<le> wo_now x - wk_execution_started ?w"
    by (simp add: demo_run_def seconds_def)
  ultimately have run: "if \<exists>r. delivered ?cfg ?w ''r-a'' ''1.0.0'' r
     then \<exists>r. delivered ?cfg ?w ''r-a'' ''1.0.0'' r \<and> run_rule ?cfg ?w demo_context ''r-a'' ''1.0.0'' = Inr r
     else (\<exists>r. run_rule ?cfg ?w demo_context ''r-a'' ''1.0.0'' = Inr r \<and> rr_status r = RS_ERROR \<and> rr_rule_id r = ''r-a'' \<and>
            rr_rule_version r = Some ''1.0.0'' \<and> make_rule_result r = Inr r) \<or>
          (\<exists>e. run_rule ?cfg ?w demo_context ''r-a'' ''1.0.0'' = Inl e \<and> escapes ?w e)"
    by (rule runner_fails_closed)
  have "handshaken ?w \<and> answered ?cfg ?w"
    by (simp add: handshaken_iff answered_iff demo_run_def seconds_def)
  then have "delivered ?cfg ?w ''r-a'' ''1.0.0'' (demo_result ''r-a'' RS_PASS (Some (3 / 4)))"
    by (simp add: delivered_def demo_run_def demo_result_def)
  with run show ?thesis by (auto simp: delivered_def demo_run_def demo_result_def)
qed

text \<open>A child that dies before its handshake is not reported as an ERROR result: the closed pipe
  polls as ready, the receive raises \<open>EOFError\<close>, and no handler of \<open>run\<close> catches it.\<close>

theorem dead_worker_escapes:
  assumes "wk_spawn_error w = None" "wk_handshake w = MEof" "wk_start w = before @ s # rest" "so_polled s"
    "\<forall>x\<in>set before. \<not> so_polled x \<and> so_alive x"
    "\<forall>x\<in>set (before @ [s]). so_now x < wk_start_deadline_base w + seconds 10"
  shows "run_rule cfg w context rid v = Inl EOFError"
proof -
  have "wait_for_start deadline MEof (before @ s # rest) = Inl EOFError"
    if "\<forall>x\<in>set before. \<not> so_polled x \<and> so_alive x" "\<forall>x\<in>set (before @ [s]). so_now x < deadline" for deadline
    using that assms(4) by (induction before) auto
  then show ?thesis using assms by (simp add: run_rule_def)
qed

theorem dead_worker_escapes_witness:
  "run_rule \<lparr> rn_timeout = seconds 1, rn_max_rss = None \<rparr> (demo_run MEof MEof) demo_context ''r-a'' ''1.0.0'' = Inl EOFError"
  by (rule dead_worker_escapes [where before = "[\<lparr> so_now = 0, so_polled = False, so_alive = True \<rparr>]"
        and s = "\<lparr> so_now = 20000, so_polled = True, so_alive = True \<rparr>"
        and rest = "[\<lparr> so_now = seconds 11, so_polled = False, so_alive = True \<rparr>]"])
    (simp_all add: demo_run_def seconds_def)

end
