(* ===== verification/Strategy_Runtime.thy ===== *)
theory Strategy_Runtime
  imports Rule_Runner
begin

text \<open>
  Policy-aware, fail-closed execution of compiled plans (app/strategy_runtime/runtime.py). The clock is
  the sequence of instants it returns; every call advances a counter. SHA-256, \<open>uuid5\<close> and \<open>str(UUID)\<close>
  are parameters, and so is what each worker process reports for a step and its parameters.
\<close>

section \<open>Environment and results\<close>

record 'p runtime_env =
  en_hash :: "py_value \<Rightarrow> string"
  en_uuid5 :: "string \<Rightarrow> uuid"
  en_uuid_str :: "uuid \<Rightarrow> string"
  en_clock :: "nat \<Rightarrow> instant"
  en_runner :: runner
  en_worker :: "string \<Rightarrow> 'p \<Rightarrow> worker_run"

record execution_result =
  ex_execution_id :: uuid
  ex_trace :: decision_trace
  ex_audit_confirmed :: bool
  ex_eligible :: bool

definition dump_context :: "(uuid \<Rightarrow> string) \<Rightarrow> evaluation_context \<Rightarrow> py_value" where
  "dump_context uuid_str c = VDict [(''symbol'', VStr (ec_symbol c)), (''timeframe'', VStr (ec_timeframe c)),
     (''as_of'', VTime (ec_as_of c)),
     (''market_session'', VStr (market_session_kind_value (ec_market_session c))),
     (''run_id'', opt_value VStr (ec_run_id c)),
     (''trace_id'', opt_value (\<lambda>u. VStr (uuid_str u)) (ec_trace_id c)),
     (''correlation_id'', opt_value (\<lambda>u. VStr (uuid_str u)) (ec_correlation_id c)),
     (''values'', VList (map (\<lambda>v. VDict [(''name'', VStr (cv_name v)), (''value'', cv_value v),
        (''observed_at'', opt_value VTime (cv_observed_at v)), (''source'', opt_value VStr (cv_source v))])
        (ec_values c)))]"

definition idempotent_id :: "'p runtime_env \<Rightarrow> string \<Rightarrow> 'p compiled_plan \<Rightarrow> evaluation_context \<Rightarrow> uuid result" where
  "idempotent_id env kind plan c =
     bind_result (sha256_digest (en_hash env) (dump_context (en_uuid_str env) c)) (\<lambda>context_hash.
       Inr (en_uuid5 env (''marketbot:'' @ kind @ '':'' @ cp_plan_hash plan @ '':'' @ context_hash)))"

section \<open>Decisions\<close>

fun resolve_parameters :: "(string, parameter) dict \<Rightarrow> (string, rule_result) dict \<Rightarrow>
    string + (string, py_value) dict" where
  "resolve_parameters [] results = Inr []"
| "resolve_parameters ((name, value) # ps) results =
     (case (case value of
              Plain v \<Rightarrow> Inr v
            | DynamicOutput step_id output_name \<Rightarrow>
              (case dget results step_id of
                 None \<Rightarrow> Inl ''source step has no result''
               | Some source \<Rightarrow>
                 (case map_of (rev (map (\<lambda>o'. (rv_name o', rv_value o')) (rr_outputs source))) output_name of
                    None \<Rightarrow> Inl ''source output is missing''
                  | Some v \<Rightarrow> Inr v))) of
        Inl missing \<Rightarrow> Inl missing
      | Inr v \<Rightarrow> (case resolve_parameters ps results of
                    Inl missing \<Rightarrow> Inl missing
                  | Inr resolved \<Rightarrow> Inr ((name, v) # resolved)))"

definition input_error :: "'p compiled_node \<Rightarrow> evaluation_context \<Rightarrow> string \<Rightarrow> string \<Rightarrow> rule_result result" where
  "input_error node c error_code message =
     make_rule_result
       \<lparr> rr_rule_id = cn_rule_id node, rr_rule_version = Some (cn_version node), rr_status = RS_ERROR,
          rr_evaluated_at = ec_as_of c, rr_score = None, rr_reason = Some message, rr_outputs = [],
          rr_error_code = Some error_code, rr_error_message = Some message, rr_duration_ms = None \<rparr>"

definition skipped_dependencies :: "string list \<Rightarrow> string \<Rightarrow> (string, rule_result) dict \<Rightarrow> string list" where
  "skipped_dependencies dependency_ids policy results =
     (if policy = dependency_policy_value DP_REQUIRE_PASS
      then filter (\<lambda>d. case dget results d of None \<Rightarrow> True | Some r \<Rightarrow> rr_status r \<noteq> RS_PASS) dependency_ids
      else filter (\<lambda>d. dget results d = None) dependency_ids)"

text \<open>The latest result of each rule, over the plan's nodes.\<close>

definition latest_by_rule :: "'p compiled_node list \<Rightarrow> (string, rule_result) dict \<Rightarrow> (string, rule_result) dict" where
  "latest_by_rule nodes results =
     foldl (\<lambda>d n. case dget results (cn_step_id n) of None \<Rightarrow> d | Some r \<Rightarrow> dput (cn_rule_id n) r d) [] nodes"

text \<open>The scoring loop; None is the early return on an incomplete score.\<close>

fun score_loop :: "bool \<Rightarrow> (string, rule_result) dict \<Rightarrow> rat \<Rightarrow> scoring_weight list \<Rightarrow> rat option" where
  "score_loop require latest weighted [] = Some weighted"
| "score_loop require latest weighted (w # ws) =
     (case Option.bind (dget latest (sw_rule_id w)) rr_score of
        None \<Rightarrow> if require then None else score_loop require latest weighted ws
      | Some s \<Rightarrow> score_loop require latest (dadd weighted (dmul s (sw_weight w))) ws)"

definition decide :: "'p compiled_plan \<Rightarrow> (string, rule_result) dict \<Rightarrow>
    decision_outcome \<times> rat option \<times> string list" where
  "decide plan results =
     (let spec = cs_spec (cp_contract plan); policies = ss_policies spec; values = dvalues results in
      if \<exists>r\<in>set values. rr_status r = RS_ERROR then
        (if ss_mode spec = SM_PRIMARY \<and> sp_fail_closed policies then DO_ERROR else DO_NO_DECISION, None,
         [''one or more rules ended in ERROR''])
      else if \<exists>r\<in>set values. rr_status r = RS_FAIL then
        (DO_REJECTED, Some 0, [''one or more rules failed''])
      else if \<not> sp_allow_not_applicable policies \<and> (\<exists>r\<in>set values. rr_status r = RS_NOT_APPLICABLE) then
        (DO_REJECTED, None, [''NOT_APPLICABLE is forbidden by policy''])
      else if int (length (filter (\<lambda>r. rr_status r = RS_PASS) values)) < sp_minimum_passing_rules policies then
        (DO_REJECTED, None, [''minimum passing rule count was not met''])
      else
        (case score_loop (so_require_complete_scoring (ss_scoring spec))
                (latest_by_rule (cp_nodes plan) results) 0 (so_weights (ss_scoring spec)) of
           None \<Rightarrow> (DO_NO_DECISION, None, [''scoring result is incomplete''])
         | Some weighted \<Rightarrow>
             if weighted < so_pass_threshold (ss_scoring spec)
             then (DO_REJECTED, Some weighted, [''weighted score is below threshold''])
             else (DO_ACCEPTED, Some weighted, [''all strategy policies passed''])))"

section \<open>The execution loop\<close>

record loop_state =
  ls_tick :: nat
  ls_results :: "(string, rule_result) dict"
  ls_traces :: "rule_trace_step list"
  ls_stopped :: bool

definition trace_status_of :: "rule_status \<Rightarrow> rule_trace_status result" where
  "trace_status_of s =
     (case enum_parse rule_trace_status_members rule_trace_status_value (rule_status_value s) of
        Some t \<Rightarrow> Inr t
      | None \<Rightarrow> Inl (ValueError ''is not a valid RuleTraceStatus''))"

definition is_parameter_error :: "py_error \<Rightarrow> bool" where
  "is_parameter_error e =
     (case e of ValidationError _ \<Rightarrow> True | TypeError _ \<Rightarrow> True | ValueError _ \<Rightarrow> True
      | CompileError _ \<Rightarrow> True | _ \<Rightarrow> False)"

definition evaluate_node :: "'p runtime_env \<Rightarrow> evaluation_context \<Rightarrow> (string, rule_result) dict \<Rightarrow>
    'p compiled_node \<Rightarrow> rule_result result" where
  "evaluate_node env c results node =
     (if \<not> cn_enabled node then
        make_rule_result
          \<lparr> rr_rule_id = cn_rule_id node, rr_rule_version = Some (cn_version node),
             rr_status = RS_NOT_APPLICABLE, rr_evaluated_at = ec_as_of c, rr_score = None,
             rr_reason = Some ''pipeline step is disabled'', rr_outputs = [], rr_error_code = None,
             rr_error_message = None, rr_duration_ms = None \<rparr>
      else
        (case resolve_parameters (cn_parameters node) results of
           Inl missing \<Rightarrow> input_error node c ''RULE_INPUT_MISSING'' missing
         | Inr resolved \<Rightarrow>
           (case rg_model_validate (cn_registration node) resolved of
              Inl e \<Rightarrow>
                if is_parameter_error e
                then input_error node c ''RULE_INPUT_INVALID'' ''resolved rule parameters are invalid''
                else Inl e
            | Inr parameters \<Rightarrow>
                run_rule (en_runner env) (en_worker env (cn_step_id node) parameters) c
                  (cn_rule_id node) (cn_version node))))"

definition skipped_now :: "'p compiled_node \<Rightarrow> loop_state \<Rightarrow> string list" where
  "skipped_now node st =
     (let skipped = skipped_dependencies (cn_depends_on node) (cn_dependency_policy node) (ls_results st)
      in if ls_stopped st
         then (if skipped \<noteq> [] then skipped
               else if cn_depends_on node \<noteq> [] then cn_depends_on node else [''prior_error''])
         else skipped)"

definition run_node :: "'p runtime_env \<Rightarrow> 'p compiled_plan \<Rightarrow> evaluation_context \<Rightarrow> 'p compiled_node \<Rightarrow>
    loop_state \<Rightarrow> loop_state result" where
  "run_node env plan c node st =
     (let node_started = en_clock env (ls_tick st); completed = en_clock env (Suc (ls_tick st));
          skipped = skipped_now node st
      in if skipped \<noteq> [] then
           bind_result (validate_trace_step
             \<lparr> rt_step_id = cn_step_id node, rt_rule_id = cn_rule_id node, rt_status = RT_SKIPPED_DEPENDENCY,
                rt_started_at = node_started, rt_completed_at = completed, rt_result = None,
                rt_skipped_dependencies = skipped,
                rt_message = Some ''dependency policy prevented execution'' \<rparr>)
             (\<lambda>t. Inr (st \<lparr> ls_tick := ls_tick st + 2, ls_traces := ls_traces st @ [t] \<rparr>))
         else
           bind_result (evaluate_node env c (ls_results st) node) (\<lambda>result.
           bind_result (trace_status_of (rr_status result)) (\<lambda>status.
           bind_result (validate_trace_step
             \<lparr> rt_step_id = cn_step_id node, rt_rule_id = cn_rule_id node, rt_status = status,
                rt_started_at = node_started, rt_completed_at = completed, rt_result = Some result,
                rt_skipped_dependencies = [], rt_message = None \<rparr>)
             (\<lambda>t. Inr (st \<lparr> ls_tick := ls_tick st + 2, ls_results := dput (cn_step_id node) result (ls_results st),
                 ls_traces := ls_traces st @ [t],
                 ls_stopped := ls_stopped st \<or> (rr_status result = RS_ERROR \<and>
                    sp_stop_on_error (ss_policies (cs_spec (cp_contract plan)))) \<rparr>)))))"

fun run_nodes :: "'p runtime_env \<Rightarrow> 'p compiled_plan \<Rightarrow> evaluation_context \<Rightarrow> 'p compiled_node list \<Rightarrow>
    loop_state \<Rightarrow> loop_state result" where
  "run_nodes env plan c [] st = Inr st"
| "run_nodes env plan c (n # ns) st = bind_result (run_node env plan c n st) (run_nodes env plan c ns)"

text \<open>The audit sink confirms a trace, refuses it, or raises (None).\<close>

definition execute :: "'p runtime_env \<Rightarrow> 'p compiled_plan \<Rightarrow> evaluation_context \<Rightarrow>
    (decision_trace \<Rightarrow> bool option) \<Rightarrow> execution_result result" where
  "execute env plan c confirm =
     bind_result (idempotent_id env ''execution'' plan c) (\<lambda>execution_id.
     bind_result (idempotent_id env ''trace'' plan c) (\<lambda>trace_id.
       let started_at = en_clock env 0; spec = cs_spec (cp_contract plan);
           make_trace = (\<lambda>completed outcome score steps reasons. make_decision_trace
             \<lparr> dt_trace_id = trace_id, dt_correlation_id = ec_correlation_id c,
                dt_strategy_id = ss_strategy_id spec, dt_strategy_version = ss_version spec,
                dt_compiled_strategy_hash = Some (cp_plan_hash plan), dt_symbol = ec_symbol c,
                dt_started_at = started_at, dt_completed_at = completed, dt_outcome = outcome,
                dt_score = score, dt_steps = steps, dt_reasons = reasons \<rparr>)
       in if ss_mode spec = SM_DISABLED then
            bind_result (make_trace (en_clock env 1) DO_NO_DECISION None [] [''strategy mode is DISABLED''])
              (\<lambda>t. Inr \<lparr> ex_execution_id = execution_id, ex_trace = t, ex_audit_confirmed = False, ex_eligible = False \<rparr>)
          else
            bind_result (run_nodes env plan c (cp_nodes plan)
                \<lparr> ls_tick = 1, ls_results = [], ls_traces = [], ls_stopped = False \<rparr>) (\<lambda>st.
            case decide plan (ls_results st) of (outcome, score, reasons) \<Rightarrow>
            bind_result (make_trace (en_clock env (ls_tick st)) outcome score (ls_traces st) reasons) (\<lambda>t.
              let audit_confirmed = (if ss_mode spec = SM_PRIMARY
                    then (case confirm t of Some b \<Rightarrow> b | None \<Rightarrow> False) else False)
              in Inr \<lparr> ex_execution_id = execution_id, ex_trace = t, ex_audit_confirmed = audit_confirmed,
                   ex_eligible = (ss_mode spec = SM_PRIMARY \<and> outcome = DO_ACCEPTED \<and> audit_confirmed) \<rparr>))))"

section \<open>Lemmas on the loop\<close>

lemma trace_status_of_simps [simp]:
  "trace_status_of RS_PASS = Inr RT_PASS" "trace_status_of RS_FAIL = Inr RT_FAIL"
  "trace_status_of RS_NOT_APPLICABLE = Inr RT_NOT_APPLICABLE" "trace_status_of RS_ERROR = Inr RT_ERROR"
  by (simp_all add: trace_status_of_def enum_parse_def rule_trace_status_members_def)

lemma trace_status_of_inj:
  "trace_status_of s = Inr t \<Longrightarrow> (t = RT_PASS \<longleftrightarrow> s = RS_PASS) \<and> (t = RT_FAIL \<longleftrightarrow> s = RS_FAIL) \<and>
     (t = RT_ERROR \<longleftrightarrow> s = RS_ERROR) \<and> t \<noteq> RT_SKIPPED_DEPENDENCY"
  by (cases s) auto

definition results_of :: "rule_trace_step list \<Rightarrow> (string, rule_result) dict" where
  "results_of ts = List.map_filter (\<lambda>t. map_option (Pair (rt_step_id t)) (rt_result t)) ts"

lemma results_of_simps [simp]:
  "results_of [] = []"
  "results_of (ts @ [t]) = results_of ts @ (case rt_result t of None \<Rightarrow> [] | Some r \<Rightarrow> [(rt_step_id t, r)])"
  by (auto simp: results_of_def map_filter_def split: option.splits)

lemma results_of_member: "(d, r) \<in> set (results_of ts) \<longleftrightarrow> (\<exists>t\<in>set ts. rt_step_id t = d \<and> rt_result t = Some r)"
  by (induction ts rule: rev_induct) (auto split: option.splits)

lemma dput_fresh: "k \<notin> set (dkeys d) \<Longrightarrow> dput k v d = d @ [(k, v)]"
  by (induction d) auto

text \<open>What a step that ran must find before it.\<close>

definition gate :: "bool \<Rightarrow> rule_trace_step list \<Rightarrow> 'p compiled_node \<Rightarrow> bool" where
  "gate stop before node \<longleftrightarrow>
     (stop \<longrightarrow> (\<forall>t\<in>set before. rt_status t \<noteq> RT_ERROR)) \<and>
     (\<forall>d\<in>set (cn_depends_on node). \<exists>t\<in>set before. rt_step_id t = d \<and> rt_status t \<noteq> RT_SKIPPED_DEPENDENCY \<and>
        (cn_dependency_policy node = dependency_policy_value DP_REQUIRE_PASS \<longrightarrow> rt_status t = RT_PASS))"

definition trace_consistent :: "rule_trace_step \<Rightarrow> bool" where
  "trace_consistent t \<longleftrightarrow>
     (case rt_result t of None \<Rightarrow> rt_status t = RT_SKIPPED_DEPENDENCY
      | Some r \<Rightarrow> trace_status_of (rr_status r) = Inr (rt_status t))"

definition loop_inv :: "bool \<Rightarrow> 'p compiled_node list \<Rightarrow> loop_state \<Rightarrow> bool" where
  "loop_inv stop past st \<longleftrightarrow>
     map rt_step_id (ls_traces st) = map cn_step_id past \<and> ls_results st = results_of (ls_traces st) \<and>
     ls_stopped st = (stop \<and> (\<exists>t\<in>set (ls_traces st). rt_status t = RT_ERROR)) \<and>
     (\<forall>t\<in>set (ls_traces st). trace_consistent t) \<and>
     (\<forall>i<length past. rt_status (ls_traces st ! i) \<noteq> RT_SKIPPED_DEPENDENCY \<longleftrightarrow>
        gate stop (take i (ls_traces st)) (past ! i))"

abbreviation stop_policy :: "'p compiled_plan \<Rightarrow> bool" where
  "stop_policy plan \<equiv> sp_stop_on_error (ss_policies (cs_spec (cp_contract plan)))"

lemma validate_trace_step_id: "validate_trace_step t = Inr t' \<Longrightarrow> t' = t"
  by (auto simp: validate_trace_step_def Let_def split: if_splits)

lemma run_node_ids:
  "run_node env plan c node st = Inr st' \<Longrightarrow>
   map rt_step_id (ls_traces st') = map rt_step_id (ls_traces st) @ [cn_step_id node]"
  by (auto simp: run_node_def Let_def dest!: validate_trace_step_id split: if_splits)

lemma run_nodes_ids:
  "run_nodes env plan c nodes st = Inr st' \<Longrightarrow>
   map rt_step_id (ls_traces st') = map rt_step_id (ls_traces st) @ map cn_step_id nodes"
  by (induction nodes arbitrary: st) (auto dest: run_node_ids)

lemma not_skipped_gate:
  assumes "skipped_dependencies (cn_depends_on node) (cn_dependency_policy node) (results_of ts) = []"
    and "\<forall>t\<in>set ts. trace_consistent t" and "\<not> (stop \<and> (\<exists>t\<in>set ts. rt_status t = RT_ERROR))"
  shows "gate stop ts node"
proof -
  have "\<exists>t\<in>set ts. rt_step_id t = d \<and> rt_status t \<noteq> RT_SKIPPED_DEPENDENCY \<and>
      (cn_dependency_policy node = dependency_policy_value DP_REQUIRE_PASS \<longrightarrow> rt_status t = RT_PASS)"
    if d: "d \<in> set (cn_depends_on node)" for d
  proof -
    from assms(1) d obtain r where r: "dget (results_of ts) d = Some r"
      "cn_dependency_policy node = dependency_policy_value DP_REQUIRE_PASS \<longrightarrow> rr_status r = RS_PASS"
      by (auto simp: skipped_dependencies_def filter_empty_conv split: if_splits option.splits)
    from map_of_SomeD [OF r(1)] obtain t where t: "t \<in> set ts" "rt_step_id t = d" "rt_result t = Some r"
      by (auto simp: results_of_member)
    with assms(2) have "trace_status_of (rr_status r) = Inr (rt_status t)" by (auto simp: trace_consistent_def)
    with trace_status_of_inj [OF this] r(2) t show ?thesis by auto
  qed
  with assms(3) show ?thesis by (auto simp: gate_def)
qed

lemma results_of_keys: "distinct (map rt_step_id ts) \<Longrightarrow> dict_wf (results_of ts)"
proof (induction ts rule: rev_induct)
  case (snoc t ts)
  then have "rt_step_id t \<notin> rt_step_id ` set ts" by simp
  then have "rt_step_id t \<notin> set (dkeys (results_of ts))" by (auto simp: results_of_member) (metis imageI)
  with snoc show ?case by (auto split: option.splits)
qed simp

lemma gate_not_skipped:
  assumes "gate stop ts node" "\<forall>t\<in>set ts. trace_consistent t" "distinct (map rt_step_id ts)"
  shows "skipped_dependencies (cn_depends_on node) (cn_dependency_policy node) (results_of ts) = []"
    "\<not> (stop \<and> (\<exists>t\<in>set ts. rt_status t = RT_ERROR))"
proof -
  have "\<exists>r. dget (results_of ts) d = Some r \<and>
      (cn_dependency_policy node = dependency_policy_value DP_REQUIRE_PASS \<longrightarrow> rr_status r = RS_PASS)"
    if d: "d \<in> set (cn_depends_on node)" for d
  proof -
    obtain t where t: "t \<in> set ts" "rt_step_id t = d" "rt_status t \<noteq> RT_SKIPPED_DEPENDENCY"
      "cn_dependency_policy node = dependency_policy_value DP_REQUIRE_PASS \<longrightarrow> rt_status t = RT_PASS"
      using assms(1) d unfolding gate_def by blast
    obtain r where r: "rt_result t = Some r" "trace_status_of (rr_status r) = Inr (rt_status t)"
      using assms(2) t(1,3) by (cases "rt_result t") (auto simp: trace_consistent_def)
    have "(d, r) \<in> set (results_of ts)" using t(1,2) r(1) by (auto simp: results_of_member)
    then have "dget (results_of ts) d = Some r" using results_of_keys [OF assms(3)] by simp
    with t(4) trace_status_of_inj [OF r(2)] show ?thesis by auto
  qed
  then show "skipped_dependencies (cn_depends_on node) (cn_dependency_policy node) (results_of ts) = []"
    by (force simp: skipped_dependencies_def filter_empty_conv)
  show "\<not> (stop \<and> (\<exists>t\<in>set ts. rt_status t = RT_ERROR))" using assms(1) by (auto simp: gate_def)
qed

lemma loop_inv_snoc:
  assumes "loop_inv stop past st" "trace_consistent t" "rt_step_id t = cn_step_id node"
    "rt_status t \<noteq> RT_SKIPPED_DEPENDENCY \<longleftrightarrow> gate stop (ls_traces st) node"
    "ls_traces st' = ls_traces st @ [t]" "ls_results st' = results_of (ls_traces st @ [t])"
    "ls_stopped st' = (ls_stopped st \<or> stop \<and> rt_status t = RT_ERROR)"
  shows "loop_inv stop (past @ [node]) st'"
proof -
  have len: "length (ls_traces st) = length past"
    using assms(1) unfolding loop_inv_def by (metis length_map)
  then show ?thesis
    using assms unfolding loop_inv_def by (auto simp: nth_append less_Suc_eq)
qed

lemma run_node_inv:
  assumes inv: "loop_inv (stop_policy plan) past st" and fresh: "distinct (map cn_step_id (past @ [node]))"
    and r: "run_node env plan c node st = Inr st'"
  shows "loop_inv (stop_policy plan) (past @ [node]) st'"
proof -
  let ?ts = "ls_traces st"
  from inv have i: "ls_results st = results_of ?ts" "\<forall>t\<in>set ?ts. trace_consistent t"
    "ls_stopped st = (stop_policy plan \<and> (\<exists>t\<in>set ?ts. rt_status t = RT_ERROR))"
    "map rt_step_id ?ts = map cn_step_id past" by (auto simp: loop_inv_def)
  have ids: "distinct (map rt_step_id ?ts)" "cn_step_id node \<notin> set (map rt_step_id ?ts)" using fresh i(4) by simp_all
  from ids(2) have new: "cn_step_id node \<notin> set (dkeys (results_of ?ts))"
    using results_of_member [of "cn_step_id node" _ ?ts] by force
  show ?thesis
  proof (cases "skipped_now node st = []")
    case False
    let ?t = "\<lparr> rt_step_id = cn_step_id node, rt_rule_id = cn_rule_id node, rt_status = RT_SKIPPED_DEPENDENCY,
      rt_started_at = en_clock env (ls_tick st), rt_completed_at = en_clock env (Suc (ls_tick st)),
      rt_result = None, rt_skipped_dependencies = skipped_now node st,
      rt_message = Some ''dependency policy prevented execution'' \<rparr>"
    have "\<not> gate (stop_policy plan) ?ts node"
    proof
      assume "gate (stop_policy plan) ?ts node"
      from gate_not_skipped [OF this i(2) ids(1)] have "skipped_now node st = []"
        by (simp only: skipped_now_def Let_def i(1,3) if_False)
      with False show False by simp
    qed
    moreover have "ls_traces st' = ?ts @ [?t]" "ls_results st' = ls_results st" "ls_stopped st' = ls_stopped st"
      using r False by (auto simp: run_node_def Let_def dest!: validate_trace_step_id)
    ultimately show ?thesis
      by (intro loop_inv_snoc [OF inv, of ?t]) (use i in \<open>auto simp: trace_consistent_def\<close>)
  next
    case True
    then have nst: "\<not> ls_stopped st" and
      nsk: "skipped_dependencies (cn_depends_on node) (cn_dependency_policy node) (results_of ?ts) = []"
      by (auto simp: skipped_now_def i(1) Let_def split: if_splits)
    obtain result where result: "evaluate_node env c (ls_results st) node = Inr result"
      using r True by (auto simp: run_node_def Let_def)
    obtain status where status: "trace_status_of (rr_status result) = Inr status"
      using r True result by (auto simp: run_node_def Let_def)
    define t where "t = \<lparr> rt_step_id = cn_step_id node, rt_rule_id = cn_rule_id node, rt_status = status,
      rt_started_at = en_clock env (ls_tick st), rt_completed_at = en_clock env (Suc (ls_tick st)),
      rt_result = Some result, rt_skipped_dependencies = [], rt_message = None \<rparr>"
    have "ls_traces st' = ?ts @ [t]" "ls_results st' = dput (cn_step_id node) result (ls_results st)"
      "ls_stopped st' = (ls_stopped st \<or> rr_status result = RS_ERROR \<and> stop_policy plan)"
      using r True result status by (auto simp: run_node_def Let_def t_def dest!: validate_trace_step_id)
    moreover have "rt_result t = Some result" "trace_status_of (rr_status result) = Inr (rt_status t)"
      "rt_step_id t = cn_step_id node" using status by (simp_all add: t_def)
    ultimately have t: "rt_result t = Some result" "trace_status_of (rr_status result) = Inr (rt_status t)"
      "rt_step_id t = cn_step_id node" "ls_traces st' = ?ts @ [t]"
      "ls_results st' = dput (cn_step_id node) result (ls_results st)"
      "ls_stopped st' = (ls_stopped st \<or> rr_status result = RS_ERROR \<and> stop_policy plan)" by auto
    show ?thesis
    proof (rule loop_inv_snoc [OF inv, of t])
      show "rt_status t \<noteq> RT_SKIPPED_DEPENDENCY \<longleftrightarrow> gate (stop_policy plan) ?ts node"
        using not_skipped_gate [OF nsk i(2)] nst i(3) trace_status_of_inj [OF t(2)] by blast
      show "ls_results st' = results_of (?ts @ [t])" using t new by (simp add: i(1) dput_fresh)
      show "ls_stopped st' = (ls_stopped st \<or> stop_policy plan \<and> rt_status t = RT_ERROR)"
        using t(6) trace_status_of_inj [OF t(2)] by blast
    qed (use t in \<open>auto simp: trace_consistent_def\<close>)
  qed
qed

lemma run_nodes_inv:
  "run_nodes env plan c nodes st = Inr st' \<Longrightarrow> loop_inv (stop_policy plan) past st \<Longrightarrow>
   distinct (map cn_step_id (past @ nodes)) \<Longrightarrow> loop_inv (stop_policy plan) (past @ nodes) st'"
proof (induction nodes arbitrary: past st)
  case (Cons n nodes)
  from Cons.prems(1) obtain st1 where 1: "run_node env plan c n st = Inr st1"
    "run_nodes env plan c nodes st1 = Inr st'" by auto
  have "loop_inv (stop_policy plan) (past @ [n]) st1"
    using Cons.prems(3) by (intro run_node_inv [OF Cons.prems(2) _ 1(1)]) auto
  from Cons.IH [OF 1(2) this] Cons.prems(3) show ?case by simp
qed simp

lemma validate_trace_facts:
  "make_decision_trace t = Inr t' \<Longrightarrow> t' = t \<and> distinct (map rt_step_id (dt_steps t)) \<and> opt_all unit_interval (dt_score t)"
  by (auto simp: make_decision_trace_def validate_trace_def split: if_splits)

lemma execute_run:
  assumes "execute env plan c confirm = Inr res"
    and "ss_mode (cs_spec (cp_contract plan)) \<noteq> SM_DISABLED"
  obtains st where "run_nodes env plan c (cp_nodes plan)
      \<lparr> ls_tick = 1, ls_results = [], ls_traces = [], ls_stopped = False \<rparr> = Inr st"
    "loop_inv (stop_policy plan) (cp_nodes plan) st" "dt_steps (ex_trace res) = ls_traces st"
    "decide plan (ls_results st) = (dt_outcome (ex_trace res), dt_score (ex_trace res), dt_reasons (ex_trace res))"
    "ex_audit_confirmed res = (ss_mode (cs_spec (cp_contract plan)) = SM_PRIMARY \<and> confirm (ex_trace res) = Some True)"
    "ex_eligible res = (ss_mode (cs_spec (cp_contract plan)) = SM_PRIMARY \<and>
        dt_outcome (ex_trace res) = DO_ACCEPTED \<and> ex_audit_confirmed res)"
    "opt_all unit_interval (dt_score (ex_trace res))"
proof -
  let ?st0 = "\<lparr> ls_tick = 1, ls_results = [], ls_traces = [], ls_stopped = False \<rparr>"
  note e = assms(1) [unfolded execute_def]
  obtain st where st: "run_nodes env plan c (cp_nodes plan) ?st0 = Inr st"
    using e assms(2) by (auto simp: Let_def split: if_splits)
  obtain outcome score reasons where d: "decide plan (ls_results st) = (outcome, score, reasons)"
    by (cases "decide plan (ls_results st)")
  have t: "dt_steps (ex_trace res) = ls_traces st" "dt_outcome (ex_trace res) = outcome"
    "dt_score (ex_trace res) = score" "dt_reasons (ex_trace res) = reasons"
    "distinct (map rt_step_id (ls_traces st))"
    "ex_audit_confirmed res = (ss_mode (cs_spec (cp_contract plan)) = SM_PRIMARY \<and> confirm (ex_trace res) = Some True)"
    "ex_eligible res = (ss_mode (cs_spec (cp_contract plan)) = SM_PRIMARY \<and> outcome = DO_ACCEPTED \<and> ex_audit_confirmed res)"
    "opt_all unit_interval (dt_score (ex_trace res))"
    using e assms(2) st d by (auto simp: Let_def dest!: validate_trace_facts split: if_splits option.splits)
  have "distinct (map cn_step_id (cp_nodes plan))"
    using t(5) run_nodes_ids [OF st] by simp
  then have "loop_inv (stop_policy plan) ([] @ cp_nodes plan) st"
    by (intro run_nodes_inv [OF st]) (simp_all add: loop_inv_def)
  with that [OF st] t d show ?thesis by simp
qed

section \<open>Lemmas on the decision\<close>

text \<open>The weighted score of a set of results, None where a required one is missing.\<close>

definition weighted_score :: "'p compiled_plan \<Rightarrow> (string, rule_result) dict \<Rightarrow> rat option" where
  "weighted_score plan results =
     score_loop (so_require_complete_scoring (ss_scoring (cs_spec (cp_contract plan))))
       (latest_by_rule (cp_nodes plan) results) 0 (so_weights (ss_scoring (cs_spec (cp_contract plan))))"

lemma decide_accepted:
  "fst (decide plan results) = DO_ACCEPTED \<longleftrightarrow>
     (\<forall>r\<in>set (dvalues results). rr_status r \<noteq> RS_ERROR) \<and> (\<forall>r\<in>set (dvalues results). rr_status r \<noteq> RS_FAIL) \<and>
     (sp_allow_not_applicable (ss_policies (cs_spec (cp_contract plan))) \<or>
        (\<forall>r\<in>set (dvalues results). rr_status r \<noteq> RS_NOT_APPLICABLE)) \<and>
     sp_minimum_passing_rules (ss_policies (cs_spec (cp_contract plan))) \<le>
       int (length (filter (\<lambda>r. rr_status r = RS_PASS) (dvalues results))) \<and>
     (\<exists>x. weighted_score plan results = Some x \<and> so_pass_threshold (ss_scoring (cs_spec (cp_contract plan))) \<le> x)"
  "fst (decide plan results) = DO_ACCEPTED \<Longrightarrow> fst (snd (decide plan results)) = weighted_score plan results"
  unfolding decide_def Let_def weighted_score_def [symmetric]
  by (cases "weighted_score plan results"; force split: if_splits)+

lemma passing_count:
  "\<forall>t\<in>set ts. trace_consistent t \<Longrightarrow>
   length (filter (\<lambda>r. rr_status r = RS_PASS) (dvalues (results_of ts))) =
   length (filter (\<lambda>t. rt_status t = RT_PASS) ts)"
proof (induction ts rule: rev_induct)
  case (snoc t ts)
  then have "trace_consistent t" by simp
  with snoc show ?case using trace_status_of_inj [of _ "rt_status t"]
    by (auto simp: trace_consistent_def split: option.splits)
qed simp

lemma traced_statuses:
  assumes "\<forall>t\<in>set ts. trace_consistent t" "trace_status_of s = Inr s'"
  shows "(\<forall>r\<in>set (dvalues (results_of ts)). rr_status r \<noteq> s) \<longleftrightarrow> (\<forall>t\<in>set ts. rt_status t \<noteq> s')"
  using assms
proof (induction ts rule: rev_induct)
  case (snoc t ts)
  have "rt_status t = s' \<longleftrightarrow> (\<exists>r. rt_result t = Some r \<and> rr_status r = s)"
  proof (cases "rt_result t")
    case None
    with snoc.prems show ?thesis by (cases s) (auto simp: trace_consistent_def)
  next
    case (Some r)
    with snoc.prems have "trace_status_of (rr_status r) = Inr (rt_status t)" by (simp add: trace_consistent_def)
    with snoc.prems(2) Some show ?thesis by (cases s; cases "rr_status r") auto
  qed
  with snoc show ?case by (cases "rt_result t") auto
qed simp

text \<open>Weights of at most 28 significant digits that sum to one keep the score in the unit interval.\<close>

lemma score_loop_bounds:
  "score_loop require latest s ws = Some out \<Longrightarrow> 0 \<le> s \<Longrightarrow> s \<le> a \<Longrightarrow> ctx a = a \<Longrightarrow>
   \<forall>w\<in>set ws. 0 \<le> sw_weight w \<and> ctx (sw_weight w) = sw_weight w \<Longrightarrow>
   (\<And>k r x. dget latest k = Some r \<Longrightarrow> rr_score r = Some x \<Longrightarrow> unit_interval x) \<Longrightarrow>
   0 \<le> out \<and> out \<le> dsum a (map sw_weight ws)"
proof (induction require latest s ws arbitrary: a rule: score_loop.induct)
  case (2 require latest s w ws)
  have w: "0 \<le> sw_weight w" "ctx (sw_weight w) = sw_weight w" using "2.prems"(5) by simp_all
  have a': "ctx (dadd a (sw_weight w)) = dadd a (sw_weight w)"
    using "2.prems"(2,3) w(1) by (simp add: dadd_def ctx_idem)
  show ?case
  proof (cases "Option.bind (dget latest (sw_rule_id w)) rr_score")
    case None
    have "a \<le> dadd a (sw_weight w)"
      using ctx_mono [of a "a + sw_weight w"] "2.prems"(2-4) w(1) by (simp add: dadd_def)
    with "2.prems"(3) have "s \<le> dadd a (sw_weight w)" by simp
    moreover have n: "\<not> require" "score_loop require latest s ws = Some out"
      using None "2.prems"(1) by (auto split: if_splits)
    ultimately show ?thesis
      using "2.IH"(1) [OF None n "2.prems"(2) _ a' _ "2.prems"(6)] "2.prems"(5) by (simp add: dsum_def)
  next
    case (Some x)
    then have "unit_interval x" using "2.prems"(6) by (auto split: bind_splits)
    then have x: "0 \<le> x" "x \<le> 1" by (simp_all add: unit_interval_def)
    have "dmul x (sw_weight w) \<le> sw_weight w"
      using ctx_mono [of "x * sw_weight w" "sw_weight w"] x w by (simp add: dmul_def mult_left_le_one_le)
    then have "dadd s (dmul x (sw_weight w)) \<le> dadd a (sw_weight w)"
      using "2.prems"(2,3) x w by (intro dadd_mono) (simp_all add: dmul_nonneg)
    moreover have "0 \<le> dadd s (dmul x (sw_weight w))"
      using "2.prems"(2) x w by (simp add: dadd_nonneg dmul_nonneg)
    moreover have "score_loop require latest (dadd s (dmul x (sw_weight w))) ws = Some out"
      using Some "2.prems"(1) by simp
    ultimately show ?thesis
      using "2.IH"(2) [OF Some _ _ _ a' _ "2.prems"(6)] "2.prems"(5) by (simp add: dsum_def)
  qed
qed (simp add: dsum_def)

lemma latest_by_rule_sound:
  assumes "dget (latest_by_rule nodes results) k = Some r"
  shows "r \<in> set (dvalues results)"
proof -
  have "dget (foldl (\<lambda>d n. case dget results (cn_step_id n) of None \<Rightarrow> d | Some r \<Rightarrow> dput (cn_rule_id n) r d) d nodes) k = Some r \<Longrightarrow>
     dget d k = Some r \<or> r \<in> set (dvalues results)" for d
  proof (induction nodes arbitrary: d)
    case (Cons n nodes)
    show ?case
    proof (cases "dget results (cn_step_id n)")
      case None
      with Cons show ?thesis by simp
    next
      case (Some r')
      from map_of_SomeD [OF Some] have "r' \<in> set (dvalues results)" by force
      with Cons.IH [of "dput (cn_rule_id n) r' d"] Cons.prems Some show ?thesis
        by (auto simp: dict_simps split: if_splits)
    qed
  qed simp
  from this [of "[]"] assms show ?thesis by (simp add: latest_by_rule_def)
qed

lemma decide_score:
  assumes v: "valid_spec (cs_spec (cp_contract plan))"
    and w: "\<forall>w\<in>set (so_weights (ss_scoring (cs_spec (cp_contract plan)))). ctx (sw_weight w) = sw_weight w"
    and r: "\<forall>r\<in>set (dvalues results). make_rule_result r = Inr r"
    and d: "decide plan results = (outcome, score, reasons)"
  shows "opt_all unit_interval score"
proof -
  let ?s = "ss_scoring (cs_spec (cp_contract plan))"
  have unit: "unit_interval x" if "dget (latest_by_rule (cp_nodes plan) results) k = Some r" "rr_score r = Some x" for k r x
    using that r latest_by_rule_sound [OF that(1)]
    by (auto simp: make_rule_result_def rule_result_fields_def strip_texts_def split: if_splits)
  have "unit_interval x" if "score_loop req (latest_by_rule (cp_nodes plan) results) 0 (so_weights ?s) = Some x" for x req
  proof -
    have "\<forall>w\<in>set (so_weights ?s). 0 \<le> sw_weight w \<and> ctx (sw_weight w) = sw_weight w"
      using w valid_spec_facts(8) [OF v] by (simp add: scoring_weight_fields_def order_less_imp_le)
    then have "0 \<le> x \<and> x \<le> dsum 0 (map sw_weight (so_weights ?s))"
      using score_loop_bounds [OF that _ _ _ _ unit, of 0] by simp
    moreover have "so_weights ?s = [] \<or> dsum 0 (map sw_weight (so_weights ?s)) = 1"
      using valid_spec_facts(7) [OF v] by (auto simp: validate_weights_def split: if_splits)
    ultimately show ?thesis by (auto simp: unit_interval_def dsum_def)
  qed
  then have loop: "opt_all unit_interval (score_loop req (latest_by_rule (cp_nodes plan) results) 0 (so_weights ?s))" for req
    by (cases "score_loop req (latest_by_rule (cp_nodes plan) results) 0 (so_weights ?s)") auto
  have "unit_interval 0" by (simp add: unit_interval_def)
  moreover define l where
    "l = score_loop (so_require_complete_scoring ?s) (latest_by_rule (cp_nodes plan) results) 0 (so_weights ?s)"
  ultimately show ?thesis
    using d loop [of "so_require_complete_scoring ?s"]
    unfolding decide_def Let_def l_def [symmetric]
    by (cases l) (auto split: if_splits)
qed

section \<open>Execution ends with a trace\<close>

text \<open>
  What the runtime relies on outside: worker reports that end, parameter models that raise validation
  errors only, and a clock that does not run backwards. A worker may still let an exception escape.
\<close>

definition worker_ends :: "runner \<Rightarrow> worker_run \<Rightarrow> bool" where
  "worker_ends cfg w \<longleftrightarrow> worker_wf w \<and>
     (\<exists>s\<in>set (wk_start w). wk_start_deadline_base w + seconds 10 \<le> so_now s) \<and>
     (\<exists>x\<in>set (wk_wait w). rn_timeout cfg \<le> wo_now x - wk_execution_started w)"

definition env_ok :: "'p runtime_env \<Rightarrow> 'p compiled_plan \<Rightarrow> bool" where
  "env_ok env plan \<longleftrightarrow>
     (\<forall>s p. worker_ends (en_runner env) (en_worker env s p)) \<and>
     (\<forall>n\<in>set (cp_nodes plan). \<forall>ps e. rg_model_validate (cn_registration n) ps = Inl e \<longrightarrow> is_parameter_error e) \<and>
     (\<forall>i j. i \<le> j \<longrightarrow> en_clock env i \<le> en_clock env j)"

definition escaped :: "'p runtime_env \<Rightarrow> 'p compiled_node list \<Rightarrow> py_error \<Rightarrow> bool" where
  "escaped env nodes e \<longleftrightarrow> (\<exists>n\<in>set nodes. \<exists>p. escapes (en_worker env (cn_step_id n) p) e)"

lemma input_error_ok:
  assumes "identifier_str (cn_rule_id n)" "semver (cn_version n)" "identifier_str ec" "non_empty_str m"
  shows "\<exists>r. input_error n c ec m = Inr r \<and> rr_rule_id r = cn_rule_id n \<and> make_rule_result r = Inr r"
  using assms
  by (auto simp: input_error_def make_rule_result_def strip_texts_def rule_result_fields_def
      validate_status_details_def non_empty_str_def)

lemma resolve_missing_text:
  "resolve_parameters ps results = Inl m \<Longrightarrow> m = ''source step has no result'' \<or> m = ''source output is missing''"
  by (induction ps results rule: resolve_parameters.induct) (auto split: parameter.splits option.splits sum.splits)

lemma runtime_texts:
  "non_empty_str ''source step has no result''" "non_empty_str ''source output is missing''"
  "non_empty_str ''resolved rule parameters are invalid''" "non_empty_str ''pipeline step is disabled''"
  "identifier_str ''RULE_INPUT_MISSING''" "identifier_str ''RULE_INPUT_INVALID''"
  by (simp_all add: text_eval)

lemma evaluate_node_ok:
  assumes ids: "identifier_str (cn_rule_id n)" "semver (cn_version n)"
    and w: "\<And>p. worker_ends (en_runner env) (en_worker env (cn_step_id n) p)"
    and m: "\<And>ps e. rg_model_validate (cn_registration n) ps = Inl e \<Longrightarrow> is_parameter_error e"
  shows "(\<exists>r. evaluate_node env c results n = Inr r \<and> rr_rule_id r = cn_rule_id n \<and> make_rule_result r = Inr r) \<or>
    (\<exists>e. evaluate_node env c results n = Inl e \<and> escaped env [n] e)"
proof (cases "cn_enabled n")
  case False
  then show ?thesis using ids runtime_texts(4)
    by (auto simp: evaluate_node_def make_rule_result_def strip_texts_def rule_result_fields_def
        validate_status_details_def non_empty_str_def)
next
  case True
  show ?thesis
  proof (cases "resolve_parameters (cn_parameters n) results")
    case (Inl missing)
    then have "non_empty_str missing" using resolve_missing_text runtime_texts(1,2) by blast
    with input_error_ok [OF ids runtime_texts(5) this, of c] True Inl show ?thesis by (simp add: evaluate_node_def)
  next
    case res: (Inr resolved)
    show ?thesis
    proof (cases "rg_model_validate (cn_registration n) resolved")
      case (Inl e)
      with m input_error_ok [OF ids runtime_texts(6,3), of c] True res show ?thesis
        by (simp add: evaluate_node_def)
    next
      case (Inr p)
      let ?w = "en_worker env (cn_step_id n) p"
      from w [of p] have e: "worker_wf ?w"
        "\<exists>s\<in>set (wk_start ?w). wk_start_deadline_base ?w + seconds 10 \<le> so_now s"
        "\<exists>x\<in>set (wk_wait ?w). rn_timeout (en_runner env) \<le> wo_now x - wk_execution_started ?w"
        by (simp_all add: worker_ends_def)
      from True res Inr have node: "evaluate_node env c results n =
          run_rule (en_runner env) ?w c (cn_rule_id n) (cn_version n)" by (simp add: evaluate_node_def)
      from e show ?thesis
      proof (cases rule: run_rule_cases [of ?w "en_runner env" "cn_rule_id n" "cn_version n" c])
        case (result r)
        then show ?thesis by (auto simp: node delivered_def)
      next
        case (failure f)
        from e(1) have "wk_started ?w \<le> wk_finished ?w" by (simp add: worker_wf_def)
        from runner_error_ok [OF ids failure(2) this, of c] failure(3) show ?thesis by (auto simp: node)
      next
        case (escape e)
        then show ?thesis by (auto simp: node escaped_def)
      qed
    qed
  qed
qed

definition timed :: "'p runtime_env \<Rightarrow> loop_state \<Rightarrow> bool" where
  "timed env st \<longleftrightarrow>
     (\<forall>t\<in>set (ls_traces st). en_clock env 0 \<le> rt_started_at t \<and> rt_completed_at t \<le> en_clock env (ls_tick st)) \<and>
     (\<forall>r\<in>set (dvalues (ls_results st)). make_rule_result r = Inr r)"

lemma dvalues_dput: "set (dvalues (dput k v d)) \<subseteq> insert v (set (dvalues d))"
  by (induction d) auto

lemma run_node_total:
  assumes ev: "(\<exists>r. evaluate_node env c (ls_results st) n = Inr r \<and> rr_rule_id r = cn_rule_id n \<and> make_rule_result r = Inr r)
      \<or> (\<exists>e. evaluate_node env c (ls_results st) n = Inl e \<and> escaped env [n] e)"
    and mono: "\<And>i j. i \<le> j \<Longrightarrow> en_clock env i \<le> en_clock env j" and t: "timed env st"
  shows "(\<exists>st'. run_node env plan c n st = Inr st' \<and> timed env st') \<or>
    (\<exists>e. run_node env plan c n st = Inl e \<and> escaped env [n] e)"
proof -
  have le: "en_clock env (ls_tick st) \<le> en_clock env (Suc (ls_tick st))"
    "en_clock env 0 \<le> en_clock env (ls_tick st)"
    "en_clock env (Suc (ls_tick st)) \<le> en_clock env (ls_tick st + 2)" using mono by simp_all
  have later: "x \<le> en_clock env (ls_tick st) \<Longrightarrow> x \<le> en_clock env (ls_tick st + 2)" for x
    using le by linarith
  show ?thesis
  proof (cases "skipped_now n st = []")
    case False
    then show ?thesis using t le later
      by (auto simp: run_node_def Let_def validate_trace_step_def timed_def)
  next
    case ran: True
    consider r where "evaluate_node env c (ls_results st) n = Inr r" "rr_rule_id r = cn_rule_id n" "make_rule_result r = Inr r"
      | e where "evaluate_node env c (ls_results st) n = Inl e" "escaped env [n] e"
      using ev by blast
    then show ?thesis
    proof cases
      case 1
      obtain status where s: "trace_status_of (rr_status r) = Inr status" by (cases "rr_status r") auto
      with trace_status_of_inj have ns: "status \<noteq> RT_SKIPPED_DEPENDENCY" by blast
      have "\<forall>x\<in>set (dvalues (dput (cn_step_id n) r (ls_results st))). make_rule_result x = Inr x"
        using dvalues_dput [of "cn_step_id n" r "ls_results st"] 1(3) t unfolding timed_def by blast
      with ran show ?thesis using t le later 1 s ns
        by (auto simp: run_node_def Let_def validate_trace_step_def timed_def)
    next
      case 2
      with ran show ?thesis by (simp add: run_node_def Let_def)
    qed
  qed
qed

lemma run_nodes_total:
  assumes ev: "\<And>n results. n \<in> set nodes \<Longrightarrow>
      (\<exists>r. evaluate_node env c results n = Inr r \<and> rr_rule_id r = cn_rule_id n \<and> make_rule_result r = Inr r)
      \<or> (\<exists>e. evaluate_node env c results n = Inl e \<and> escaped env [n] e)"
    and mono: "\<And>i j. i \<le> j \<Longrightarrow> en_clock env i \<le> en_clock env j"
  shows "timed env st \<Longrightarrow> (\<exists>st'. run_nodes env plan c nodes st = Inr st' \<and> timed env st') \<or>
    (\<exists>e. run_nodes env plan c nodes st = Inl e \<and> escaped env nodes e)"
  using ev
proof (induction nodes arbitrary: st)
  case (Cons n nodes)
  have "(\<exists>st1. run_node env plan c n st = Inr st1 \<and> timed env st1) \<or>
      (\<exists>e. run_node env plan c n st = Inl e \<and> escaped env [n] e)"
    using Cons.prems(2) by (intro run_node_total mono Cons.prems(1)) simp_all
  then consider st1 where "run_node env plan c n st = Inr st1" "timed env st1"
    | e where "run_node env plan c n st = Inl e" "escaped env [n] e" by blast
  then show ?case
  proof cases
    case 1
    with Cons.IH [OF 1(2)] Cons.prems(2) show ?thesis by (auto simp: escaped_def)
  next
    case 2
    then show ?thesis by (auto simp: escaped_def)
  qed
qed simp

lemma idempotent_id_ok:
  "is_ok (canonical_json (dump_context (en_uuid_str env) c)) \<Longrightarrow> \<exists>u. idempotent_id env kind plan c = Inr u"
  by (auto simp: idempotent_id_def sha256_digest_def is_ok_iff)

lemma execute_total:
  assumes v: "valid_spec (cs_spec (cp_contract plan))"
    and w: "\<forall>w\<in>set (so_weights (ss_scoring (cs_spec (cp_contract plan)))). ctx (sw_weight w) = sw_weight w"
    and d: "distinct (map cn_step_id (cp_nodes plan))"
    and ids: "\<forall>n\<in>set (cp_nodes plan). identifier_str (cn_rule_id n) \<and> semver (cn_version n)"
    and env: "env_ok env plan" and c: "is_ok (canonical_json (dump_context (en_uuid_str env) c))"
  shows "is_ok (execute env plan c confirm) \<or>
    (\<exists>e. execute env plan c confirm = Inl e \<and> escaped env (cp_nodes plan) e)"
proof -
  let ?st0 = "\<lparr> ls_tick = 1, ls_results = [], ls_traces = [], ls_stopped = False \<rparr>"
  from env have mono: "\<And>i j. i \<le> j \<Longrightarrow> en_clock env i \<le> en_clock env j" by (simp add: env_ok_def)
  have ev: "(\<exists>r. evaluate_node env c results n = Inr r \<and> rr_rule_id r = cn_rule_id n \<and> make_rule_result r = Inr r) \<or>
      (\<exists>e. evaluate_node env c results n = Inl e \<and> escaped env [n] e)" if "n \<in> set (cp_nodes plan)" for n results
    using that ids env by (intro evaluate_node_ok) (auto simp: env_ok_def)
  obtain u v where uv: "idempotent_id env ''execution'' plan c = Inr u" "idempotent_id env ''trace'' plan c = Inr v"
    using idempotent_id_ok [OF c] by metis
  have forward: "\<not> en_clock env 1 < en_clock env 0" using mono by (simp add: not_less)
  show ?thesis
  proof (cases "ss_mode (cs_spec (cp_contract plan)) = SM_DISABLED")
    case True
    then have "is_ok (execute env plan c confirm)"
      using uv forward by (simp add: execute_def Let_def make_decision_trace_def validate_trace_def)
    then show ?thesis ..
  next
    case enabled: False
    have "timed env ?st0" by (simp add: timed_def)
    from run_nodes_total [where env = env and c = c and plan = plan and nodes = "cp_nodes plan", OF ev mono this]
    consider st where "run_nodes env plan c (cp_nodes plan) ?st0 = Inr st" "timed env st"
      | e where "run_nodes env plan c (cp_nodes plan) ?st0 = Inl e" "escaped env (cp_nodes plan) e" by auto
    then show ?thesis
    proof cases
      case st: 1
      obtain outcome score reasons where o: "decide plan (ls_results st) = (outcome, score, reasons)"
        by (cases "decide plan (ls_results st)")
      have "opt_all unit_interval score"
        using decide_score [OF v w _ o] st(2) by (simp add: timed_def)
      moreover have "distinct (map rt_step_id (ls_traces st))" using run_nodes_ids [OF st(1)] d by simp
      moreover have "\<not> (\<exists>t\<in>set (ls_traces st). rt_started_at t < en_clock env 0 \<or> en_clock env (ls_tick st) < rt_completed_at t)"
        using st(2) by (auto simp: timed_def not_less)
      moreover have "\<not> en_clock env (ls_tick st) < en_clock env 0" using mono by (simp add: not_less)
      ultimately have "is_ok (execute env plan c confirm)"
        using st(1) o uv enabled by (simp add: execute_def Let_def make_decision_trace_def validate_trace_def)
      then show ?thesis ..
    next
      case 2
      then show ?thesis using enabled uv by (auto simp: execute_def Let_def)
    qed
  qed
qed

section \<open>Properties\<close>

text \<open>C9: An execution is actionable exactly when it should be: its strategy is PRIMARY, the audit sink confirmed
  its trace, and the traced steps satisfy the strategy's policies (no ERROR, no FAIL, NOT_APPLICABLE only
  where allowed, the required number of PASS, and a weighted score of their results at the threshold). The
  trace of an actionable execution is ACCEPTED with that score, which is at most one.\<close>

theorem actionable_only_when_confirmed:
  assumes "execute env plan c confirm = Inr res"
  shows "(ex_eligible res \<longleftrightarrow>
      ss_mode (cs_spec (cp_contract plan)) = SM_PRIMARY \<and> confirm (ex_trace res) = Some True \<and>
      (\<forall>t\<in>set (dt_steps (ex_trace res)). rt_status t \<noteq> RT_ERROR) \<and>
      (\<forall>t\<in>set (dt_steps (ex_trace res)). rt_status t \<noteq> RT_FAIL) \<and>
      (sp_allow_not_applicable (ss_policies (cs_spec (cp_contract plan))) \<or>
         (\<forall>t\<in>set (dt_steps (ex_trace res)). rt_status t \<noteq> RT_NOT_APPLICABLE)) \<and>
      sp_minimum_passing_rules (ss_policies (cs_spec (cp_contract plan))) \<le>
        int (length (filter (\<lambda>t. rt_status t = RT_PASS) (dt_steps (ex_trace res)))) \<and>
      (\<exists>x. weighted_score plan (results_of (dt_steps (ex_trace res))) = Some x \<and>
         so_pass_threshold (ss_scoring (cs_spec (cp_contract plan))) \<le> x)) \<and>
    (ex_eligible res \<longrightarrow> dt_outcome (ex_trace res) = DO_ACCEPTED \<and>
      dt_score (ex_trace res) = weighted_score plan (results_of (dt_steps (ex_trace res))) \<and>
      (\<exists>x. dt_score (ex_trace res) = Some x \<and> x \<le> 1))"
proof (cases "ss_mode (cs_spec (cp_contract plan)) = SM_DISABLED")
  case True
  with assms have "\<not> ex_eligible res" by (auto simp: execute_def Let_def)
  with True show ?thesis by simp
next
  case False
  obtain st where st: "loop_inv (stop_policy plan) (cp_nodes plan) st" "dt_steps (ex_trace res) = ls_traces st"
    "decide plan (ls_results st) = (dt_outcome (ex_trace res), dt_score (ex_trace res), dt_reasons (ex_trace res))"
    "ex_audit_confirmed res = (ss_mode (cs_spec (cp_contract plan)) = SM_PRIMARY \<and> confirm (ex_trace res) = Some True)"
    "ex_eligible res = (ss_mode (cs_spec (cp_contract plan)) = SM_PRIMARY \<and>
        dt_outcome (ex_trace res) = DO_ACCEPTED \<and> ex_audit_confirmed res)"
    "opt_all unit_interval (dt_score (ex_trace res))"
    using execute_run [OF assms False] by metis
  then have i: "ls_results st = results_of (ls_traces st)" "\<forall>t\<in>set (ls_traces st). trace_consistent t"
    by (auto simp: loop_inv_def)
  note dec = decide_accepted [of plan "results_of (ls_traces st)"]
  have out: "fst (decide plan (results_of (ls_traces st))) = dt_outcome (ex_trace res)"
    "fst (snd (decide plan (results_of (ls_traces st)))) = dt_score (ex_trace res)" by (simp_all add: st(3) i(1) [symmetric])
  note traced = traced_statuses [OF i(2), of RS_ERROR RT_ERROR] traced_statuses [OF i(2), of RS_FAIL RT_FAIL]
    traced_statuses [OF i(2), of RS_NOT_APPLICABLE RT_NOT_APPLICABLE] passing_count [OF i(2)]
  have accepted: "dt_outcome (ex_trace res) = DO_ACCEPTED \<longleftrightarrow>
      (\<forall>t\<in>set (ls_traces st). rt_status t \<noteq> RT_ERROR) \<and> (\<forall>t\<in>set (ls_traces st). rt_status t \<noteq> RT_FAIL) \<and>
      (sp_allow_not_applicable (ss_policies (cs_spec (cp_contract plan))) \<or>
         (\<forall>t\<in>set (ls_traces st). rt_status t \<noteq> RT_NOT_APPLICABLE)) \<and>
      sp_minimum_passing_rules (ss_policies (cs_spec (cp_contract plan))) \<le>
        int (length (filter (\<lambda>t. rt_status t = RT_PASS) (ls_traces st))) \<and>
      (\<exists>x. weighted_score plan (results_of (ls_traces st)) = Some x \<and>
         so_pass_threshold (ss_scoring (cs_spec (cp_contract plan))) \<le> x)"
    using dec(1) traced unfolding out(1) by simp
  moreover have "dt_score (ex_trace res) = weighted_score plan (results_of (ls_traces st))" if "ex_eligible res"
    using dec(2) that st(5) unfolding out by blast
  ultimately show ?thesis using st(2,4-6) by (auto simp: unit_interval_def)
qed

text \<open>The two-step strategy of the compiler, run by workers whose rules pass.\<close>

definition passing_result :: "string \<Rightarrow> rule_result" where
  "passing_result rid = (demo_result rid RS_PASS (Some 1))
     \<lparr> rr_outputs := [\<lparr> rv_name = ''rsi'', rv_value = VDec 50 \<rparr>] \<rparr>"

definition demo_env :: "unit runtime_env" where
  "demo_env = \<lparr> en_hash = demo_digest, en_uuid5 = (\<lambda>_. 7), en_uuid_str = (\<lambda>_. ''u''), en_clock = int,
     en_runner = \<lparr> rn_timeout = seconds 1, rn_max_rss = None \<rparr>,
     en_worker = (\<lambda>s _. demo_run MStarted (MResult (passing_result (if s = ''a'' then ''r-a'' else ''r-b'')))) \<rparr>"

lemma passing_result_valid:
  "make_rule_result (passing_result ''r-a'') = Inr (passing_result ''r-a'')"
  "make_rule_result (passing_result ''r-b'') = Inr (passing_result ''r-b'')"
  by (simp_all add: passing_result_def demo_result_def make_rule_result_def strip_texts_def
      rule_result_fields_def validate_status_details_def identifier_str_def semver_def numeric_part_def
      unit_interval_def char_class_defs Let_def)

lemma demo_worker_ends: "worker_ends (en_runner demo_env) (en_worker demo_env s p)"
  by (simp add: worker_ends_def worker_wf_def demo_env_def demo_run_def passing_result_valid seconds_def)

lemma passing_ids:
  "rr_rule_id (passing_result rid) = rid" "rr_rule_version (passing_result rid) = Some ''1.0.0''"
  "rr_status (passing_result rid) = RS_PASS" "rr_score (passing_result rid) = Some 1"
  "rr_outputs (passing_result rid) = [\<lparr> rv_name = ''rsi'', rv_value = VDec 50 \<rparr>]"
  by (simp_all add: passing_result_def demo_result_def)

lemma demo_worker_runs:
  "run_rule (en_runner demo_env) (en_worker demo_env ''a'' p) c ''r-a'' ''1.0.0'' = Inr (passing_result ''r-a'')"
  "run_rule (en_runner demo_env) (en_worker demo_env ''b'' p) c ''r-b'' ''1.0.0'' = Inr (passing_result ''r-b'')"
  by (simp_all add: run_rule_def demo_env_def demo_run_def passing_ids seconds_def)

lemma demo_context_hashes: "is_ok (canonical_json (dump_context f demo_context))"
  unfolding dump_context_def canonical_dict_ok by (simp add: demo_context_def opt_value_def)

definition demo_steps :: "rule_trace_step list" where
  "demo_steps =
     [\<lparr> rt_step_id = ''a'', rt_rule_id = ''r-a'', rt_status = RT_PASS, rt_started_at = 1, rt_completed_at = 2,
        rt_result = Some (passing_result ''r-a''), rt_skipped_dependencies = [], rt_message = None \<rparr>,
      \<lparr> rt_step_id = ''b'', rt_rule_id = ''r-b'', rt_status = RT_PASS, rt_started_at = 3, rt_completed_at = 4,
        rt_result = Some (passing_result ''r-b''), rt_skipped_dependencies = [], rt_message = None \<rparr>]"

lemma demo_clock: "en_clock demo_env n = int n"
  by (simp add: demo_env_def)

lemma demo_nodes_run:
  "run_nodes demo_env plan c pair_nodes \<lparr> ls_tick = 1, ls_results = [], ls_traces = [], ls_stopped = False \<rparr> =
   Inr \<lparr> ls_tick = 5, ls_results = [(''a'', passing_result ''r-a''), (''b'', passing_result ''r-b'')],
     ls_traces = demo_steps, ls_stopped = False \<rparr>"
  by (simp add: pair_nodes_def run_node_def evaluate_node_def skipped_now_def skipped_dependencies_def
      pair_node_def demo_worker_runs demo_registration_def passing_ids validate_trace_step_def demo_clock
      demo_steps_def Let_def)

lemma pair_decides:
  assumes "cs_spec (cp_contract plan) = pair_spec" "cp_nodes plan = pair_nodes"
  shows "decide plan [(''a'', passing_result ''r-a''), (''b'', passing_result ''r-b'')] =
    (DO_ACCEPTED, Some 1, [''all strategy policies passed''])"
  by (simp add: decide_def assms pair_spec_def demo_spec_def passing_ids latest_by_rule_def pair_nodes_def
      pair_node_def dadd_def dmul_def Let_def)

lemma demo_executes:
  assumes "cs_spec (cp_contract plan) = pair_spec" "cp_nodes plan = pair_nodes"
  shows "\<exists>res. execute demo_env plan demo_context (\<lambda>_. Some True) = Inr res \<and> ex_eligible res \<and>
    dt_steps (ex_trace res) = demo_steps"
proof -
  obtain u v where "idempotent_id demo_env ''execution'' plan demo_context = Inr u"
    "idempotent_id demo_env ''trace'' plan demo_context = Inr v"
    using idempotent_id_ok [OF demo_context_hashes] by metis
  moreover have "ss_mode pair_spec = SM_PRIMARY" by (simp add: pair_spec_def demo_spec_def)
  moreover have "unit_interval 1" by (simp add: unit_interval_def)
  ultimately show ?thesis
    using demo_nodes_run [of plan demo_context] pair_decides [OF assms]
    by (simp add: execute_def assms make_decision_trace_def validate_trace_def demo_clock demo_steps_def Let_def)
qed

theorem actionable_only_when_confirmed_witness:
  "\<exists>plan res. compile demo_digest 0 pair_spec demo_snapshot demo_providers = Inr plan \<and>
     execute demo_env plan demo_context (\<lambda>_. Some True) = Inr res \<and> ex_eligible res \<and>
     dt_outcome (ex_trace res) = DO_ACCEPTED"
proof -
  obtain plan where p: "compile demo_digest 0 pair_spec demo_snapshot demo_providers = Inr plan"
    "cp_nodes plan = pair_nodes" "cs_spec (cp_contract plan) = pair_spec" using pair_compiles by blast
  from demo_executes [OF p(3,2)] obtain res where
    r: "execute demo_env plan demo_context (\<lambda>_. Some True) = Inr res" "ex_eligible res" by blast
  from actionable_only_when_confirmed [OF r(1)] p(1) r show ?thesis by blast
qed

text \<open>C10: The trace follows the plan and its policies: it lists the plan's steps in order, and a step is
  executed, and not skipped, exactly when every dependency was executed before it (and passed, where the
  policy is REQUIRE_PASS) and, under stop_on_error, no step before it ended in ERROR.\<close>

theorem trace_respects_policies:
  assumes "execute env plan c confirm = Inr res" "ss_mode (cs_spec (cp_contract plan)) \<noteq> SM_DISABLED"
  shows "map rt_step_id (dt_steps (ex_trace res)) = map cn_step_id (cp_nodes plan) \<and>
    (\<forall>i < length (cp_nodes plan). rt_status (dt_steps (ex_trace res) ! i) \<noteq> RT_SKIPPED_DEPENDENCY \<longleftrightarrow>
       gate (stop_policy plan) (take i (dt_steps (ex_trace res))) (cp_nodes plan ! i))"
proof -
  obtain st where "loop_inv (stop_policy plan) (cp_nodes plan) st" "dt_steps (ex_trace res) = ls_traces st"
    using execute_run [OF assms] by metis
  then show ?thesis by (simp add: loop_inv_def)
qed

theorem trace_respects_policies_witness:
  "\<exists>plan res. compile demo_digest 0 pair_spec demo_snapshot demo_providers = Inr plan \<and>
     execute demo_env plan demo_context (\<lambda>_. Some True) = Inr res \<and>
     map rt_step_id (dt_steps (ex_trace res)) = [''a'', ''b''] \<and> rt_status (dt_steps (ex_trace res) ! 1) = RT_PASS"
proof -
  obtain plan where p: "compile demo_digest 0 pair_spec demo_snapshot demo_providers = Inr plan"
    "cp_nodes plan = pair_nodes" "cs_spec (cp_contract plan) = pair_spec" using pair_compiles by blast
  from demo_executes [OF p(3,2)] obtain res where
    r: "execute demo_env plan demo_context (\<lambda>_. Some True) = Inr res" "dt_steps (ex_trace res) = demo_steps" by blast
  have "ss_mode (cs_spec (cp_contract plan)) \<noteq> SM_DISABLED" by (simp add: p(3) pair_spec_def demo_spec_def)
  from trace_respects_policies [OF r(1) this] p r show ?thesis
    by (auto simp: pair_nodes_def pair_node_def demo_steps_def)
qed

text \<open>C11: Whatever compiles can be executed: for a valid strategy with weights of at most 28 digits,
  compiled against a registry snapshot, \<open>execute\<close> returns a result (so every trace step, rule result and
  score it builds passes its contract), unless an exception escapes a rule's worker (C12), and then it
  raises that one; given workers that answer, die or time out, parameter models that raise validation
  errors only, a clock that does not run backwards and a context that can be hashed.\<close>

theorem compiled_execution_returns:
  assumes v: "valid_spec spec" and w: "\<forall>w\<in>set (so_weights (ss_scoring spec)). ctx (sw_weight w) = sw_weight w"
    and p: "compile hash now spec snap providers = Inr plan"
    and r: "\<forall>r\<in>set (sn_rules snap). rs_reference r = metadata_reference (rs_metadata r)"
    and env: "env_ok env plan" and c: "is_ok (canonical_json (dump_context (en_uuid_str env) c))"
  shows "is_ok (execute env plan c confirm) \<or>
    (\<exists>e n p. execute env plan c confirm = Inl e \<and> n \<in> set (cp_nodes plan) \<and> escapes (en_worker env (cn_step_id n) p) e)"
proof -
  have "is_ok (execute env plan c confirm) \<or>
    (\<exists>e. execute env plan c confirm = Inl e \<and> escaped env (cp_nodes plan) e)"
  proof (rule execute_total [OF _ _ _ _ env c])
    note o = compile_node_order [OF v p]
    show "valid_spec (cs_spec (cp_contract plan))" using v o(4) by simp
    show "\<forall>w\<in>set (so_weights (ss_scoring (cs_spec (cp_contract plan)))). ctx (sw_weight w) = sw_weight w"
      using w o(4) by simp
    show "distinct (map cn_step_id (cp_nodes plan))" by (fact o(3))
    show "\<forall>n\<in>set (cp_nodes plan). identifier_str (cn_rule_id n) \<and> semver (cn_version n)"
      using compile_node_facts [OF p] r valid_spec_facts(10) [OF v]
      by (fastforce simp: metadata_reference_def pipeline_step_fields_def)
  qed
  then show ?thesis unfolding escaped_def by blast
qed

theorem compiled_execution_returns_witness:
  "\<exists>plan. compile demo_digest 0 pair_spec demo_snapshot demo_providers = Inr plan \<and>
     is_ok (execute demo_env plan demo_context (\<lambda>_. None))"
proof -
  obtain plan where p: "compile demo_digest 0 pair_spec demo_snapshot demo_providers = Inr plan"
    "cp_nodes plan = pair_nodes" using pair_compiles by blast
  have "env_ok demo_env plan"
    using demo_worker_ends by (simp add: env_ok_def demo_clock p(2) pair_nodes_def pair_node_def demo_registration_def)
  moreover have "\<forall>w\<in>set (so_weights (ss_scoring pair_spec)). ctx (sw_weight w) = sw_weight w"
    by (simp add: pair_spec_def demo_spec_def)
  moreover have "\<forall>r\<in>set (sn_rules demo_snapshot). rs_reference r = metadata_reference (rs_metadata r)"
    by (simp add: demo_snapshot_def make_snapshot_def resolved_of_def)
  ultimately have "is_ok (execute demo_env plan demo_context (\<lambda>_. None)) \<or>
      (\<exists>e n p. execute demo_env plan demo_context (\<lambda>_. None) = Inl e \<and> n \<in> set (cp_nodes plan) \<and>
         escapes (en_worker demo_env (cn_step_id n) p) e)"
    by (intro compiled_execution_returns [OF pair_valid _ p(1)] demo_context_hashes)
  then have "is_ok (execute demo_env plan demo_context (\<lambda>_. None))"
    by (auto simp: escapes_def demo_env_def demo_run_def)
  with p(1) show ?thesis by blast
qed

end
