(* ===== verification/Event_Bus.thy ===== *)
theory Event_Bus
  imports Subjects Rule_Contracts Canonical "HOL-Library.Multiset"
begin

text \<open>
  The in-process event bus (app/event_bus/memory.py) with its delivery options
  (app/contracts/event_bus.py) and its codec (codec.py). A step is what happens between two suspension
  points of the event loop: a publication or a subscription schedules its deliveries without suspending,
  while a delivery suspends when it calls its handler and after it, so anything else may happen in
  between, also publications and subscriptions by the handler itself. How a handler ends is left open at
  every attempt. A synchronous bus runs the deliveries inside \<open>publish\<close> and \<open>subscribe\<close>; such a call is a
  list of deliveries still to make, one of which may be under way.

  Three fields record what the code forgets: the accepted publications, how long that list was when a
  subscriber joined, and how finished deliveries ended.
\<close>

section \<open>Codec\<close>

text \<open>Pydantic's \<open>model_dump\<close> and \<open>model_validate_json\<close> of the envelope.\<close>

record envelope_codec =
  ev_dump :: "event_envelope \<Rightarrow> py_value"
  ev_parse :: "py_value \<Rightarrow> event_envelope option"

definition encode_envelope :: "envelope_codec \<Rightarrow> event_envelope \<Rightarrow> py_value result" where
  "encode_envelope ev e = canonical_json (ev_dump ev e)"

definition decode_envelope :: "envelope_codec \<Rightarrow> py_value \<Rightarrow> event_envelope result" where
  "decode_envelope ev payload =
     (case ev_parse ev payload of None \<Rightarrow> Inl (ValidationError ''EventEnvelope'') | Some e \<Rightarrow> Inr e)"

section \<open>State\<close>

record subscription_options =
  op_durable_name :: "string option"
  op_replay_all :: bool
  op_replay_latest :: bool
  op_max_deliver :: int
  op_ack_wait :: rat
  op_redelivery_delay :: rat
  op_max_ack_pending :: "int option"

definition make_options :: "subscription_options \<Rightarrow> subscription_options result" where
  "make_options o' =
     (if (case op_durable_name o' of None \<Rightarrow> False | Some n \<Rightarrow> strip n = [])
      then Inl (ValueError ''durable_name cannot be blank'')
      else if op_replay_all o' \<and> op_replay_latest o'
      then Inl (ValueError ''replay_all and replay_latest_per_subject are mutually exclusive'')
      else if op_max_deliver o' < 1 then Inl (ValueError ''max_deliver must be at least one'')
      else if op_ack_wait o' \<le> 0 then Inl (ValueError ''ack_wait_seconds must be positive'')
      else if op_redelivery_delay o' < 0 then Inl (ValueError ''redelivery_delay_seconds cannot be negative'')
      else if (case op_max_ack_pending o' of None \<Rightarrow> False | Some n \<Rightarrow> n < 1)
      then Inl (ValueError ''max_ack_pending must be positive'')
      else Inr o')"

record subscriber =
  su_subject :: string
  su_options :: subscription_options
  su_active :: bool

text \<open>A handler returns, raises an \<open>Exception\<close>, or is ended by another \<open>BaseException\<close> (a cancellation).\<close>

datatype handler_reply = Accepted | Failed | Broken

text \<open>A delivery: the replies to its attempts so far, and whether the handler is running.\<close>

record delivery =
  de_subscriber :: nat
  de_payload :: py_value
  de_replies :: "handler_reply list"
  de_running :: bool

text \<open>What a synchronous call still iterates over.\<close>

datatype deliveries_left =
    ToSubscribers string py_value "nat list"
  | ReplayFrom nat string nat
  | ReplayLatest nat "py_value list"

record bus_call =
  ca_left :: deliveries_left
  ca_current :: "delivery option"

record bus =
  bs_retain_history :: bool
  bs_deduplicate :: bool
  bs_synchronous :: bool
  bs_subscribers :: "subscriber list"
  bs_history :: "(string \<times> py_value) list"
  bs_published_ids :: "uuid list"
  bs_tasks :: "delivery list"
  bs_calls :: "bus_call list"
  bs_closing :: bool
  bs_closed :: bool
  bs_accepted :: "(string \<times> py_value) list"
  bs_joined :: "nat list"
  bs_settled :: "(nat \<times> py_value \<times> handler_reply list) list"

definition new_bus :: "string \<Rightarrow> bool \<Rightarrow> bool \<Rightarrow> bool \<Rightarrow> bus result" where
  "new_bus prefix retain_history deduplicate synchronous =
     bind_result (validate_publish_subject prefix) (\<lambda>_.
       Inr \<lparr> bs_retain_history = retain_history, bs_deduplicate = deduplicate, bs_synchronous = synchronous,
             bs_subscribers = [], bs_history = [], bs_published_ids = [], bs_tasks = [], bs_calls = [],
             bs_closing = False, bs_closed = False, bs_accepted = [], bs_joined = [], bs_settled = [] \<rparr>)"

section \<open>Delivery\<close>

definition max_deliver :: "bus \<Rightarrow> nat \<Rightarrow> nat" where
  "max_deliver b i = nat (op_max_deliver (su_options (bs_subscribers b ! i)))"

text \<open>
  One step of \<open>_deliver\<close>: it gives up, calls the handler, or takes the handler's reply and goes on to the
  next attempt. Decoding is inside the same \<open>try\<close>, so a payload that cannot be decoded fails the attempt.
\<close>

datatype progress = Ongoing delivery | Settled "nat \<times> py_value \<times> handler_reply list"

definition deliver_step :: "envelope_codec \<Rightarrow> handler_reply \<Rightarrow> bus \<Rightarrow> delivery \<Rightarrow> progress" where
  "deliver_step ev r b d =
     (if \<not> de_running d then
        if max_deliver b (de_subscriber d) \<le> length (de_replies d) \<or> \<not> su_active (bs_subscribers b ! de_subscriber d)
        then Settled (de_subscriber d, de_payload d, de_replies d)
        else Ongoing (d \<lparr> de_running := True \<rparr>)
      else
        let reply = (if is_ok (decode_envelope ev (de_payload d)) then r else Failed); replies = de_replies d @ [reply]
        in if reply = Failed \<and> length replies < max_deliver b (de_subscriber d)
           then Ongoing (d \<lparr> de_replies := replies, de_running := False \<rparr>)
           else Settled (de_subscriber d, de_payload d, replies))"

definition new_delivery :: "nat \<times> py_value \<Rightarrow> delivery" where
  "new_delivery x = \<lparr> de_subscriber = fst x, de_payload = snd x, de_replies = [], de_running = False \<rparr>"

text \<open>\<open>_schedule_delivery\<close>, and one step of the \<open>k\<close>-th pending task.\<close>

definition schedule :: "(nat \<times> py_value) list \<Rightarrow> bus \<Rightarrow> bus" where
  "schedule ds b = b \<lparr> bs_tasks := bs_tasks b @ map new_delivery ds \<rparr>"

definition settle :: "nat \<times> py_value \<times> handler_reply list \<Rightarrow> bus \<Rightarrow> bus" where
  "settle x b = b \<lparr> bs_settled := bs_settled b @ [x] \<rparr>"

definition run_task :: "envelope_codec \<Rightarrow> nat \<Rightarrow> handler_reply \<Rightarrow> bus \<Rightarrow> bus" where
  "run_task ev k r b =
     (case deliver_step ev r b (bs_tasks b ! k) of
        Ongoing d \<Rightarrow> b \<lparr> bs_tasks := (bs_tasks b) [k := d] \<rparr>
      | Settled x \<Rightarrow> settle x (b \<lparr> bs_tasks := take k (bs_tasks b) @ drop (Suc k) (bs_tasks b) \<rparr>))"

definition matches :: "bus \<Rightarrow> string \<Rightarrow> nat \<Rightarrow> bool" where
  "matches b subject i \<longleftrightarrow> su_active (bs_subscribers b ! i) \<and> subject_matches (su_subject (bs_subscribers b ! i)) subject"

definition matching :: "bus \<Rightarrow> string \<Rightarrow> nat list" where
  "matching b subject = filter (matches b subject) [0..<length (bs_subscribers b)]"

section \<open>Synchronous calls\<close>

text \<open>
  One turn of the loops of \<open>_deliver_to_matching\<close> and \<open>subscribe\<close>: a delivery to make, if any, and what is
  left. The replay of the whole history iterates the live list, so it also reaches what is appended
  while a handler runs.
\<close>

fun next_turn :: "bus \<Rightarrow> deliveries_left \<Rightarrow> (nat \<times> py_value) option \<times> deliveries_left option" where
  "next_turn b (ToSubscribers subject payload []) = (None, None)"
| "next_turn b (ToSubscribers subject payload (i # is)) =
     (if matches b subject i then Some (i, payload) else None, Some (ToSubscribers subject payload is))"
| "next_turn b (ReplayFrom i pattern n) =
     (if length (bs_history b) \<le> n then (None, None)
      else (if subject_matches pattern (fst (bs_history b ! n)) then Some (i, snd (bs_history b ! n)) else None,
            Some (ReplayFrom i pattern (Suc n))))"
| "next_turn b (ReplayLatest i []) = (None, None)"
| "next_turn b (ReplayLatest i (payload # ps)) = (Some (i, payload), Some (ReplayLatest i ps))"

definition replace_call :: "nat \<Rightarrow> bus_call option \<Rightarrow> bus \<Rightarrow> bus" where
  "replace_call k c b =
     b \<lparr> bs_calls := (case c of None \<Rightarrow> take k (bs_calls b) @ drop (Suc k) (bs_calls b) | Some c \<Rightarrow> (bs_calls b) [k := c]) \<rparr>"

text \<open>A handler ended by a \<open>BaseException\<close> ends the whole call.\<close>

definition run_call :: "envelope_codec \<Rightarrow> nat \<Rightarrow> handler_reply \<Rightarrow> bus \<Rightarrow> bus" where
  "run_call ev k r b =
     (let c = bs_calls b ! k in
      case ca_current c of
        None \<Rightarrow>
          (case next_turn b (ca_left c) of
             (delivery, None) \<Rightarrow> replace_call k None b
           | (delivery, Some left) \<Rightarrow>
               replace_call k (Some \<lparr> ca_left = left, ca_current = map_option new_delivery delivery \<rparr>) b)
      | Some d \<Rightarrow>
          (case deliver_step ev r b d of
             Ongoing d' \<Rightarrow> replace_call k (Some (c \<lparr> ca_current := Some d' \<rparr>)) b
           | Settled x \<Rightarrow>
               settle x (replace_call k (if Broken \<in> set (snd (snd x)) then None else Some (c \<lparr> ca_current := None \<rparr>)) b)))"

definition start_call :: "deliveries_left \<Rightarrow> bus \<Rightarrow> bus" where
  "start_call left b = b \<lparr> bs_calls := bs_calls b @ [\<lparr> ca_left = left, ca_current = None \<rparr>] \<rparr>"

section \<open>Operations\<close>

text \<open>The identifier is recorded before the envelope is encoded.\<close>

definition publish :: "envelope_codec \<Rightarrow> string \<Rightarrow> event_envelope \<Rightarrow> bus \<Rightarrow> unit result \<times> bus" where
  "publish ev subject e b =
     (if bs_closed b then (Inl EventBusClosedError, b)
      else case validate_publish_subject subject of Inl err \<Rightarrow> (Inl err, b)
      | Inr _ \<Rightarrow>
        if bs_deduplicate b \<and> ee_event_id e \<in> set (bs_published_ids b) then (Inr (), b)
        else
          let b1 = (if bs_deduplicate b then b \<lparr> bs_published_ids := bs_published_ids b @ [ee_event_id e] \<rparr> else b)
          in case encode_envelope ev e of Inl err \<Rightarrow> (Inl err, b1)
             | Inr payload \<Rightarrow>
                let b2 = (if bs_retain_history b then b1 \<lparr> bs_history := bs_history b1 @ [(subject, payload)] \<rparr> else b1);
                    b3 = b2 \<lparr> bs_accepted := bs_accepted b2 @ [(subject, payload)] \<rparr>
                in (Inr (),
                    if bs_synchronous b3 then start_call (ToSubscribers subject payload [0..<length (bs_subscribers b3)]) b3
                    else schedule (map (\<lambda>i. (i, payload)) (matching b3 subject)) b3))"

text \<open>The last event of each matching subject, and the replays of a subscription.\<close>

definition latest_payloads :: "string \<Rightarrow> (string \<times> py_value) list \<Rightarrow> py_value list" where
  "latest_payloads pattern history =
     dvalues (foldl (\<lambda>d h. dput (fst h) (snd h) d) [] (filter (\<lambda>h. subject_matches pattern (fst h)) history))"

definition replayed :: "subscription_options \<Rightarrow> string \<Rightarrow> (string \<times> py_value) list \<Rightarrow> py_value list" where
  "replayed o' pattern history =
     (if op_replay_all o' then map snd (filter (\<lambda>h. subject_matches pattern (fst h)) history)
      else if op_replay_latest o' then latest_payloads pattern history
      else [])"

definition subscribe :: "string \<Rightarrow> subscription_options \<Rightarrow> bus \<Rightarrow> nat result \<times> bus" where
  "subscribe pattern o' b =
     (if bs_closed b then (Inl EventBusClosedError, b)
      else case validate_subscription_subject pattern of Inl err \<Rightarrow> (Inl err, b)
      | Inr _ \<Rightarrow>
        let i = length (bs_subscribers b);
            b1 = b \<lparr> bs_subscribers := bs_subscribers b @ [\<lparr> su_subject = pattern, su_options = o', su_active = True \<rparr>],
                     bs_joined := bs_joined b @ [length (bs_accepted b)] \<rparr>
        in (Inr i,
            if \<not> bs_synchronous b then schedule (map (Pair i) (replayed o' pattern (bs_history b1))) b1
            else if op_replay_all o' then start_call (ReplayFrom i pattern 0) b1
            else if op_replay_latest o' then start_call (ReplayLatest i (latest_payloads pattern (bs_history b1))) b1
            else b1))"

definition unsubscribe :: "nat \<Rightarrow> bus \<Rightarrow> bus" where
  "unsubscribe i b = b \<lparr> bs_subscribers := (bs_subscribers b) [i := (bs_subscribers b ! i) \<lparr> su_active := False \<rparr>] \<rparr>"

text \<open>\<open>join\<close> returns once no task is left.\<close>

definition join_returns :: "bus \<Rightarrow> bool" where "join_returns b \<longleftrightarrow> bs_tasks b = []"

text \<open>\<open>close\<close> deactivates every subscriber, joins, and then closes the bus.\<close>

definition begin_close :: "bus \<Rightarrow> bus" where
  "begin_close b =
     (if bs_closed b then b
      else b \<lparr> bs_subscribers := map (\<lambda>s. s \<lparr> su_active := False \<rparr>) (bs_subscribers b), bs_closing := True \<rparr>)"

definition end_close :: "bus \<Rightarrow> bus" where
  "end_close b = (if bs_closing b \<and> join_returns b then b \<lparr> bs_closed := True \<rparr> else b)"

section \<open>The step relation\<close>

inductive bus_step :: "envelope_codec \<Rightarrow> bus \<Rightarrow> bus \<Rightarrow> bool" for ev where
  step_publish: "bus_step ev b (snd (publish ev subject e b))"
| step_subscribe: "make_options o' = Inr o' \<Longrightarrow> bus_step ev b (snd (subscribe pattern o' b))"
| step_unsubscribe: "i < length (bs_subscribers b) \<Longrightarrow> bus_step ev b (unsubscribe i b)"
| step_task: "k < length (bs_tasks b) \<Longrightarrow> bus_step ev b (run_task ev k r b)"
| step_call: "k < length (bs_calls b) \<Longrightarrow> bus_step ev b (run_call ev k r b)"
| step_begin_close: "bus_step ev b (begin_close b)"
| step_end_close: "bus_step ev b (end_close b)"

inductive_cases bus_stepE: "bus_step ev b b'"

inductive reachable_bus :: "envelope_codec \<Rightarrow> bus \<Rightarrow> bool" for ev where
  reach_new: "new_bus prefix retain deduplicate synchronous = Inr b \<Longrightarrow> reachable_bus ev b"
| reach_step: "reachable_bus ev b \<Longrightarrow> bus_step ev b b' \<Longrightarrow> reachable_bus ev b'"

text \<open>Steps of the pending deliveries alone.\<close>

inductive task_step :: "envelope_codec \<Rightarrow> bus \<Rightarrow> bus \<Rightarrow> bool" for ev where
  "k < length (bs_tasks b) \<Longrightarrow> task_step ev b (run_task ev k r b)"

section \<open>What is owed to a subscriber\<close>

text \<open>
  The payloads a subscriber has a claim to: the replays it asked for, of what was retained when it joined,
  and every later publication its pattern matches, each as often as it was accepted.
\<close>

definition owed :: "bus \<Rightarrow> nat \<Rightarrow> py_value list" where
  "owed b i =
     (let su = bs_subscribers b ! i; n = bs_joined b ! i in
      replayed (su_options su) (su_subject su) (if bs_retain_history b then take n (bs_accepted b) else []) @
      map snd (filter (\<lambda>h. subject_matches (su_subject su) (fst h)) (drop n (bs_accepted b))))"

text \<open>The deliveries made to a subscriber, finished or pending.\<close>

definition made :: "bus \<Rightarrow> (nat \<times> py_value) list" where
  "made b = map (\<lambda>d. (de_subscriber d, de_payload d)) (bs_tasks b) @ map (\<lambda>(i, p, rs). (i, p)) (bs_settled b)"

definition made_to :: "bus \<Rightarrow> nat \<Rightarrow> py_value list" where
  "made_to b i = map snd (filter (\<lambda>x. fst x = i) (made b))"

text \<open>A finished delivery: accepted or broken at its last attempt, or failed as often as allowed.\<close>

definition concluded :: "nat \<Rightarrow> handler_reply list \<Rightarrow> bool" where
  "concluded limit rs \<longleftrightarrow> rs \<noteq> [] \<and> length rs \<le> limit \<and> set (butlast rs) \<subseteq> {Failed} \<and>
     (last rs = Failed \<longrightarrow> length rs = limit)"

definition settled_ok :: "bus \<Rightarrow> bool" where
  "settled_ok b \<longleftrightarrow>
     (\<forall>(i, p, rs)\<in>set (bs_settled b). concluded (max_deliver b i) rs \<or> set rs \<subseteq> {Failed} \<and> \<not> su_active (bs_subscribers b ! i)) \<and>
     (\<forall>d\<in>set (bs_tasks b). set (de_replies d) \<subseteq> {Failed} \<and> length (de_replies d) < max_deliver b (de_subscriber d))"

definition bus_inv :: "bus \<Rightarrow> bool" where
  "bus_inv b \<longleftrightarrow> bs_calls b = [] \<and> \<not> bs_synchronous b \<and> length (bs_joined b) = length (bs_subscribers b) \<and>
     (\<forall>n\<in>set (bs_joined b). n \<le> length (bs_accepted b)) \<and>
     bs_history b = (if bs_retain_history b then bs_accepted b else []) \<and>
     (\<forall>su\<in>set (bs_subscribers b). make_options (su_options su) = Inr (su_options su)) \<and>
     (\<forall>x\<in>set (made b). fst x < length (bs_subscribers b)) \<and>
     (\<forall>i < length (bs_subscribers b). mset (made_to b i) \<subseteq># mset (owed b i) \<and>
        (su_active (bs_subscribers b ! i) \<longrightarrow> mset (made_to b i) = mset (owed b i))) \<and>
     settled_ok b"

section \<open>Deliveries keep the invariant\<close>

lemma mset_take_drop_nth:
  assumes "k < length xs"
  shows "mset xs = add_mset (xs ! k) (mset (take k xs @ drop (Suc k) xs))"
  by (subst id_take_nth_drop [OF assms]) simp

lemma mset_made_schedule: "mset (made (schedule ds b)) = mset (made b) + mset ds"
  by (simp add: made_def schedule_def new_delivery_def comp_def)

lemma mset_made_to: "mset (made_to b i) = image_mset snd (filter_mset (\<lambda>x. fst x = i) (mset (made b)))"
  by (simp add: made_to_def mset_filter)

lemma mset_made_to_schedule:
  "mset (made_to (schedule ds b) i) = mset (made_to b i) + mset (map snd (filter (\<lambda>x. fst x = i) ds))"
  by (simp add: mset_made_to mset_made_schedule)

text \<open>What a step of a pending delivery leaves alone.\<close>

lemma run_task_base:
  "bs_subscribers (run_task ev k r b) = bs_subscribers b" "bs_joined (run_task ev k r b) = bs_joined b"
  "bs_accepted (run_task ev k r b) = bs_accepted b" "bs_history (run_task ev k r b) = bs_history b"
  "bs_calls (run_task ev k r b) = bs_calls b" "bs_retain_history (run_task ev k r b) = bs_retain_history b"
  "bs_deduplicate (run_task ev k r b) = bs_deduplicate b" "bs_synchronous (run_task ev k r b) = bs_synchronous b"
  "bs_published_ids (run_task ev k r b) = bs_published_ids b"
  by (simp_all add: run_task_def settle_def split: progress.split)

lemma deliver_step_same:
  "deliver_step ev r b d = Ongoing d' \<Longrightarrow> de_subscriber d' = de_subscriber d \<and> de_payload d' = de_payload d"
  "deliver_step ev r b d = Settled x \<Longrightarrow> fst x = de_subscriber d \<and> fst (snd x) = de_payload d"
  by (auto simp: deliver_step_def Let_def split: if_splits)

lemma mset_made_run_task:
  assumes "k < length (bs_tasks b)"
  shows "mset (made (run_task ev k r b)) = mset (made b)"
proof (cases "deliver_step ev r b (bs_tasks b ! k)")
  case (Ongoing d)
  let ?f = "\<lambda>d. (de_subscriber d, de_payload d)"
  have "map ?f ((bs_tasks b) [k := d]) = map ?f (bs_tasks b)"
    using deliver_step_same(1) [OF Ongoing] by (simp add: map_update list_update_same_conv assms)
  then show ?thesis by (simp add: made_def run_task_def Ongoing flip: mset_map)
next
  case (Settled x)
  have "(\<lambda>(i, p, rs). (i, p)) x = (de_subscriber (bs_tasks b ! k), de_payload (bs_tasks b ! k))"
    using deliver_step_same(2) [OF Settled] by (simp add: case_prod_unfold)
  then show ?thesis
    using mset_take_drop_nth [OF assms] by (simp add: made_def run_task_def Settled settle_def)
qed

lemma concluded_snoc:
  "set rs \<subseteq> {Failed} \<Longrightarrow> length rs < limit \<Longrightarrow> r \<noteq> Failed \<or> Suc (length rs) = limit \<Longrightarrow> concluded limit (rs @ [r])"
  by (auto simp: concluded_def)

lemma settled_ok_run_task:
  assumes ok: "settled_ok b" and k: "k < length (bs_tasks b)"
  shows "settled_ok (run_task ev k r b)"
proof -
  define d where "d = bs_tasks b ! k"
  have d: "set (de_replies d) \<subseteq> {Failed}" "length (de_replies d) < max_deliver b (de_subscriber d)"
    using ok k unfolding settled_ok_def d_def by simp_all
  have max: "max_deliver (run_task ev k r b) i = max_deliver b i" for i
    by (simp add: max_deliver_def run_task_base)
  show ?thesis
  proof (cases "deliver_step ev r b d")
    case (Ongoing d')
    then have "set (de_replies d') \<subseteq> {Failed} \<and> length (de_replies d') < max_deliver b (de_subscriber d')"
      using d by (auto simp: deliver_step_def Let_def split: if_splits)
    moreover have "bs_tasks (run_task ev k r b) = (bs_tasks b) [k := d']" "bs_settled (run_task ev k r b) = bs_settled b"
      using Ongoing by (simp_all add: run_task_def d_def)
    ultimately show ?thesis
      using ok set_update_subset_insert [of "bs_tasks b" k d']
      unfolding settled_ok_def max run_task_base by (metis (no_types, lifting) insert_iff subsetD)
  next
    case (Settled x)
    obtain i payload rs where x: "x = (i, payload, rs)" by (cases x)
    have "concluded (max_deliver b i) rs \<or> set rs \<subseteq> {Failed} \<and> \<not> su_active (bs_subscribers b ! i)"
    proof (cases "de_running d")
      case False
      with Settled d show ?thesis by (auto simp: deliver_step_def x split: if_splits)
    next
      case True
      define reply where "reply = (if is_ok (decode_envelope ev (de_payload d)) then r else Failed)"
      have "i = de_subscriber d" "rs = de_replies d @ [reply]"
        and "reply \<noteq> Failed \<or> \<not> Suc (length (de_replies d)) < max_deliver b (de_subscriber d)"
        using Settled True unfolding deliver_step_def Let_def reply_def [symmetric] x by (simp_all split: if_splits)
      then show ?thesis using concluded_snoc [OF d, of reply] d(2) by auto
    qed
    moreover have "bs_tasks (run_task ev k r b) = take k (bs_tasks b) @ drop (Suc k) (bs_tasks b)"
      "bs_settled (run_task ev k r b) = bs_settled b @ [x]"
      using Settled by (simp_all add: run_task_def d_def settle_def)
    ultimately show ?thesis
      using ok unfolding settled_ok_def max run_task_base by (auto simp: x dest: in_set_takeD in_set_dropD)
  qed
qed

lemma owed_cong:
  assumes "bs_joined b' = bs_joined b" "bs_accepted b' = bs_accepted b" "bs_retain_history b' = bs_retain_history b"
    "su_options (bs_subscribers b' ! i) = su_options (bs_subscribers b ! i)"
    "su_subject (bs_subscribers b' ! i) = su_subject (bs_subscribers b ! i)"
  shows "owed b' i = owed b i"
  unfolding owed_def Let_def assms ..

lemma bus_inv_run_task:
  assumes inv: "bus_inv b" and k: "k < length (bs_tasks b)"
  shows "bus_inv (run_task ev k r b)"
proof -
  note same = mset_made_run_task [OF k, of ev r]
  have "set (made (run_task ev k r b)) = set (made b)" using mset_eq_setD [OF same] .
  moreover have "mset (made_to (run_task ev k r b) i) = mset (made_to b i)" for i by (simp add: mset_made_to same)
  moreover have "owed (run_task ev k r b) i = owed b i" for i by (rule owed_cong) (simp_all add: run_task_base)
  moreover have "settled_ok (run_task ev k r b)" using inv k settled_ok_run_task by (simp add: bus_inv_def)
  ultimately show ?thesis using inv by (simp add: bus_inv_def run_task_base)
qed

section \<open>Operations keep the invariant\<close>

lemma settled_ok_schedule:
  assumes "settled_ok b" "\<forall>x\<in>set ds. 0 < max_deliver b (fst x)"
  shows "settled_ok (schedule ds b)"
  using assms by (auto simp: settled_ok_def schedule_def max_deliver_def new_delivery_def)

lemma max_deliver_positive:
  "\<forall>su\<in>set (bs_subscribers b). make_options (su_options su) = Inr (su_options su) \<Longrightarrow> i < length (bs_subscribers b) \<Longrightarrow>
   0 < max_deliver b i"
  using nth_mem [of i "bs_subscribers b"] by (fastforce simp: max_deliver_def make_options_def split: if_splits)

text \<open>A scheduled publication: every existing subscriber whose pattern matches is owed it, the active ones get it.\<close>

lemma filter_matching:
  "map snd (filter (\<lambda>x. fst x = i) (map (\<lambda>i. (i, payload)) (matching b subject))) =
     (if i < length (bs_subscribers b) \<and> matches b subject i then [payload] else [])"
proof -
  have "filter (\<lambda>j. matches b subject j \<and> j = i) [0..<n] = (if i < n \<and> matches b subject i then [i] else [])" for n
    by (induction n) (auto simp: less_Suc_eq)
  then have "filter (\<lambda>j. j = i) (matching b subject) = (if i < length (bs_subscribers b) \<and> matches b subject i then [i] else [])"
    by (simp add: matching_def)
  moreover have "map snd (filter (\<lambda>x. fst x = i) (map (\<lambda>i. (i, payload)) js)) = map (\<lambda>_. payload) (filter (\<lambda>j. j = i) js)" for js
    by (induction js) auto
  ultimately show ?thesis by simp
qed

lemma bus_inv_accept:
  assumes inv: "bus_inv b" and subs: "bs_subscribers b' = bs_subscribers b" "bs_joined b' = bs_joined b"
    "bs_tasks b' = bs_tasks b" "bs_settled b' = bs_settled b" "bs_calls b' = bs_calls b"
    "bs_synchronous b' = bs_synchronous b" "bs_retain_history b' = bs_retain_history b"
    and acc: "bs_accepted b' = bs_accepted b @ [(subject, payload)]"
    and hist: "bs_history b' = (if bs_retain_history b then bs_history b @ [(subject, payload)] else bs_history b)"
  shows "bus_inv (schedule (map (\<lambda>i. (i, payload)) (matching b' subject)) b')"
proof -
  let ?ds = "map (\<lambda>i. (i, payload)) (matching b' subject)"
  have made: "made b' = made b" "made_to b' i = made_to b i" for i by (simp_all add: made_def made_to_def subs)
  have owed: "owed (schedule ?ds b') i = owed b i @
      (if subject_matches (su_subject (bs_subscribers b ! i)) subject then [payload] else [])"
    if "i < length (bs_subscribers b)" for i
  proof -
    have "bs_joined b ! i \<le> length (bs_accepted b)" using inv that by (simp add: bus_inv_def)
    then show ?thesis by (simp add: owed_def schedule_def subs acc Let_def)
  qed
  have got: "mset (made_to (schedule ?ds b') i) = mset (made_to b i) + (if matches b subject i then {#payload#} else {#})"
    if "i < length (bs_subscribers b)" for i
    using that filter_matching [of i payload b' subject]
    by (simp add: mset_made_to_schedule made matches_def subs)
  have "mset (made_to (schedule ?ds b') i) \<subseteq># mset (owed (schedule ?ds b') i) \<and>
      (su_active (bs_subscribers b ! i) \<longrightarrow> mset (made_to (schedule ?ds b') i) = mset (owed (schedule ?ds b') i))"
    if i: "i < length (bs_subscribers b)" for i
  proof -
    have "mset (made_to b i) \<subseteq># mset (owed b i)" "su_active (bs_subscribers b ! i) \<longrightarrow> mset (made_to b i) = mset (owed b i)"
      using inv i by (simp_all add: bus_inv_def)
    moreover from this have "mset (made_to b i) \<subseteq># mset (owed b i) + {#payload#}"
      by (intro subset_mset.add_increasing2) simp_all
    ultimately show ?thesis unfolding got [OF i] owed [OF i] mset_append by (auto simp: matches_def)
  qed
  moreover have "\<forall>x\<in>set ?ds. 0 < max_deliver b' (fst x)"
    using inv max_deliver_positive [of b'] by (auto simp: bus_inv_def subs matching_def)
  then have "settled_ok (schedule ?ds b')"
    using inv by (intro settled_ok_schedule) (simp_all add: bus_inv_def settled_ok_def subs max_deliver_def)
  moreover have "\<forall>x\<in>set (made (schedule ?ds b')). fst x < length (bs_subscribers b)"
    using inv mset_eq_setD [OF mset_made_schedule [of ?ds b', folded mset_append]]
    by (auto simp: bus_inv_def made matching_def subs)
  ultimately show ?thesis
    using inv by (auto simp: bus_inv_def schedule_def subs acc hist)
qed

lemma bus_inv_cong:
  assumes "bs_calls b' = bs_calls b" "bs_synchronous b' = bs_synchronous b" "bs_joined b' = bs_joined b"
    "bs_subscribers b' = bs_subscribers b" "bs_accepted b' = bs_accepted b" "bs_history b' = bs_history b"
    "bs_retain_history b' = bs_retain_history b" "bs_tasks b' = bs_tasks b" "bs_settled b' = bs_settled b"
  shows "bus_inv b' \<longleftrightarrow> bus_inv b"
  unfolding bus_inv_def made_to_def made_def owed_def settled_ok_def max_deliver_def Let_def assms ..

lemma bus_inv_publish: "bus_inv b \<Longrightarrow> bus_inv (snd (publish ev subject e b))"
proof -
  assume inv: "bus_inv b"
  have ids: "bus_inv (b \<lparr> bs_published_ids := ids \<rparr>)" for ids
    using inv by (subst bus_inv_cong) simp_all
  show ?thesis
  proof (cases "bs_closed b \<or> \<not> is_ok (validate_publish_subject subject) \<or>
      bs_deduplicate b \<and> ee_event_id e \<in> set (bs_published_ids b) \<or> \<not> is_ok (encode_envelope ev e)")
    case True
    with inv ids show ?thesis by (auto simp: publish_def Let_def is_ok_iff split: sum.splits)
  next
    case False
    then obtain payload where payload: "encode_envelope ev e = Inr payload" by (auto simp: is_ok_iff)
    define b1 where "b1 = (if bs_deduplicate b then b \<lparr> bs_published_ids := bs_published_ids b @ [ee_event_id e] \<rparr> else b)"
    define b2 where "b2 = (if bs_retain_history b then b1 \<lparr> bs_history := bs_history b1 @ [(subject, payload)] \<rparr> else b1)"
    define b3 where "b3 = b2 \<lparr> bs_accepted := bs_accepted b2 @ [(subject, payload)] \<rparr>"
    have "bus_inv (schedule (map (\<lambda>i. (i, payload)) (matching b3 subject)) b3)"
      by (rule bus_inv_accept [OF inv, of _ subject]) (simp_all add: b1_def b2_def b3_def)
    moreover have "snd (publish ev subject e b) = schedule (map (\<lambda>i. (i, payload)) (matching b3 subject)) b3"
    proof -
      have "validate_publish_subject subject = Inr ()" using False by (simp add: is_ok_iff)
      moreover have "(bs_deduplicate b \<and> ee_event_id e \<in> set (bs_published_ids b)) = False" using False by blast
      moreover have "bs_closed b = False" "bs_synchronous b3 = False" using False inv by (simp_all add: bus_inv_def b3_def b2_def b1_def)
      ultimately show ?thesis
        unfolding publish_def Let_def b1_def [symmetric] b2_def [symmetric] b3_def [symmetric] payload
        by (simp only: if_False sum.case snd_conv b2_def [symmetric] b3_def [symmetric])
    qed
    ultimately show ?thesis by simp
  qed
qed

lemma bus_inv_new: "new_bus prefix retain deduplicate False = Inr b \<Longrightarrow> bus_inv b"
  by (auto simp: new_bus_def bus_inv_def made_def settled_ok_def)

lemma bus_inv_subscribe:
  assumes inv: "bus_inv b" and o': "make_options o' = Inr o'"
  shows "bus_inv (snd (subscribe pattern o' b))"
proof (cases "bs_closed b \<or> \<not> is_ok (validate_subscription_subject pattern)")
  case True
  with inv show ?thesis by (auto simp: subscribe_def is_ok_def split: sum.splits)
next
  case False
  define n where "n = length (bs_subscribers b)"
  define su where "su = \<lparr> su_subject = pattern, su_options = o', su_active = True \<rparr>"
  define b1 where "b1 = b \<lparr> bs_subscribers := bs_subscribers b @ [su], bs_joined := bs_joined b @ [length (bs_accepted b)] \<rparr>"
  define ps where "ps = replayed o' pattern (bs_history b)"
  define b' where "b' = schedule (map (Pair n) ps) b1"
  have result: "snd (subscribe pattern o' b) = b'"
    using False inv
    by (simp add: subscribe_def Let_def b'_def b1_def ps_def n_def su_def bus_inv_def is_ok_def split: sum.splits)
  have b1: "bs_subscribers b1 = bs_subscribers b @ [su]" "bs_joined b1 = bs_joined b @ [length (bs_accepted b)]"
    "bs_accepted b1 = bs_accepted b" "bs_history b1 = bs_history b" "bs_retain_history b1 = bs_retain_history b"
    "made b1 = made b" "bs_tasks b1 = bs_tasks b" "bs_settled b1 = bs_settled b" "bs_calls b1 = bs_calls b"
    "bs_synchronous b1 = bs_synchronous b" "made_to b1 i = made_to b i" for i
    by (simp_all add: b1_def made_def made_to_def)
  have base: "bs_subscribers b' = bs_subscribers b @ [su]" "bs_joined b' = bs_joined b @ [length (bs_accepted b)]"
    "bs_accepted b' = bs_accepted b" "bs_history b' = bs_history b" "bs_retain_history b' = bs_retain_history b"
    "bs_calls b' = bs_calls b" "bs_synchronous b' = bs_synchronous b"
    by (simp_all add: b'_def schedule_def b1)
  have joined: "length (bs_joined b) = n" "\<forall>x\<in>set (made b). fst x < n"
    and options: "\<forall>su\<in>set (bs_subscribers b). make_options (su_options su) = Inr (su_options su)"
    and history: "bs_history b = (if bs_retain_history b then bs_accepted b else [])"
    using inv by (simp_all add: bus_inv_def n_def)
  have got: "mset (made_to b' i) = mset (made_to b i) + (if i = n then mset ps else {#})" for i
    by (simp add: b'_def mset_made_to_schedule b1 filter_map comp_def)
  have none: "made_to b n = []" using joined(2) by (auto simp: made_to_def filter_empty_conv)
  have old: "owed b' i = owed b i" if "i < n" for i
    using that joined(1) by (simp add: owed_def base n_def nth_append Let_def)
  have new: "owed b' n = ps" using joined(1) history by (simp add: owed_def base n_def nth_append ps_def su_def Let_def)
  have "mset (made_to b' i) \<subseteq># mset (owed b' i) \<and> (su_active (bs_subscribers b' ! i) \<longrightarrow> mset (made_to b' i) = mset (owed b' i))"
    if "i < length (bs_subscribers b')" for i
  proof (cases "i = n")
    case True
    show ?thesis unfolding True got new none by simp
  next
    case False
    with that have i: "i < n" by (simp add: base n_def)
    then show ?thesis using inv False unfolding got old [OF i] by (simp add: bus_inv_def base n_def nth_append)
  qed
  moreover have "settled_ok b'" unfolding b'_def
  proof (rule settled_ok_schedule)
    have "max_deliver b1 i = max_deliver b i" "su_active (bs_subscribers b1 ! i) = su_active (bs_subscribers b ! i)" if "i < n" for i
      using that by (simp_all add: max_deliver_def b1 nth_append n_def)
    moreover have "\<forall>d\<in>set (bs_tasks b). de_subscriber d < n" "\<forall>(i, p, rs)\<in>set (bs_settled b). i < n"
      using joined(2) by (force simp: made_def)+
    ultimately show "settled_ok b1" using inv unfolding bus_inv_def settled_ok_def b1(7,8) by fastforce
    show "\<forall>x\<in>set (map (Pair n) ps). 0 < max_deliver b1 (fst x)"
      using max_deliver_positive [of b1 n] o' options by (auto simp: b1 n_def su_def)
  qed
  moreover have "\<forall>x\<in>set (made b'). fst x < Suc n"
    using joined(2) mset_eq_setD [OF mset_made_schedule [of "map (Pair n) ps" b1, folded mset_append]]
    unfolding b'_def by (auto simp: b1)
  ultimately have "bus_inv b'"
    using inv o' unfolding bus_inv_def base by (auto simp: n_def su_def)
  then show ?thesis by (simp add: result)
qed

lemma bus_inv_deactivate:
  assumes inv: "bus_inv b" and len: "length subs = length (bs_subscribers b)"
    and subs: "\<And>i. i < length subs \<Longrightarrow> su_subject (subs ! i) = su_subject (bs_subscribers b ! i) \<and>
       su_options (subs ! i) = su_options (bs_subscribers b ! i) \<and> (su_active (subs ! i) \<longrightarrow> su_active (bs_subscribers b ! i))"
  shows "bus_inv (b \<lparr> bs_subscribers := subs \<rparr>)"
proof -
  let ?b = "b \<lparr> bs_subscribers := subs \<rparr>"
  have made: "made ?b = made b" "made_to ?b i = made_to b i" for i by (simp_all add: made_def made_to_def)
  have owed: "owed ?b i = owed b i" if "i < length subs" for i by (rule owed_cong) (simp_all add: subs [OF that])
  have max: "max_deliver ?b i = max_deliver b i" if "i < length subs" for i by (simp add: max_deliver_def subs [OF that])
  have lt: "\<forall>x\<in>set (made b). fst x < length subs" using inv by (simp add: bus_inv_def len)
  then have "\<forall>d\<in>set (bs_tasks b). de_subscriber d < length subs" "\<forall>(i, p, rs)\<in>set (bs_settled b). i < length subs"
    by (force simp: made_def)+
  then have "settled_ok ?b" using inv max subs unfolding bus_inv_def settled_ok_def by fastforce
  moreover have "\<forall>su\<in>set subs. make_options (su_options su) = Inr (su_options su)"
  proof
    fix su assume "su \<in> set subs"
    then obtain i where i: "i < length subs" "su = subs ! i" by (auto simp: in_set_conv_nth)
    then have "bs_subscribers b ! i \<in> set (bs_subscribers b)" using len by simp
    then show "make_options (su_options su) = Inr (su_options su)" using inv subs [OF i(1)] i(2) by (auto simp: bus_inv_def)
  qed
  ultimately show ?thesis
    using inv owed subs lt unfolding bus_inv_def made by (simp add: len)
qed

lemma bus_inv_step: "bus_step ev b b' \<Longrightarrow> bus_inv b \<Longrightarrow> bus_inv b'"
proof (elim bus_stepE)
  fix i assume inv: "bus_inv b" and i: "i < length (bs_subscribers b)" and b': "b' = unsubscribe i b"
  show "bus_inv b'" unfolding b' unsubscribe_def
    using i by (intro bus_inv_deactivate [OF inv]) (auto simp: nth_list_update)
next
  fix k r assume "bus_inv b" "k < length (bs_calls b)"
  then show "bus_inv b'" by (simp add: bus_inv_def)
next
  assume inv: "bus_inv b" and b': "b' = begin_close b"
  have "bus_inv (b \<lparr> bs_subscribers := map (\<lambda>s. s \<lparr> su_active := False \<rparr>) (bs_subscribers b) \<rparr>)"
    by (intro bus_inv_deactivate [OF inv]) simp_all
  then have "bus_inv (b \<lparr> bs_subscribers := map (\<lambda>s. s \<lparr> su_active := False \<rparr>) (bs_subscribers b), bs_closing := True \<rparr>)"
    by (subst bus_inv_cong) simp_all
  with inv b' show "bus_inv b'" by (simp add: begin_close_def)
next
  assume inv: "bus_inv b" and b': "b' = end_close b"
  have "bus_inv (b \<lparr> bs_closed := True \<rparr>)" using inv by (subst bus_inv_cong) simp_all
  with inv b' show "bus_inv b'" by (simp add: end_close_def)
qed (auto intro: bus_inv_publish bus_inv_subscribe bus_inv_run_task)

section \<open>What a publication does\<close>

lemma publish_accepts:
  assumes "\<not> bs_closed b" "\<not> bs_synchronous b" "validate_publish_subject subject = Inr ()"
    and "\<not> (bs_deduplicate b \<and> ee_event_id e \<in> set (bs_published_ids b))" "encode_envelope ev e = Inr payload"
  shows "fst (publish ev subject e b) = Inr ()"
    and "bs_accepted (snd (publish ev subject e b)) = bs_accepted b @ [(subject, payload)]"
    and "bs_published_ids (snd (publish ev subject e b)) =
      (if bs_deduplicate b then bs_published_ids b @ [ee_event_id e] else bs_published_ids b)"
    and "i < length (bs_subscribers b) \<Longrightarrow>
      mset (made_to (snd (publish ev subject e b)) i) = mset (made_to b i) + (if matches b subject i then {#payload#} else {#})"
proof -
  define b1 where "b1 = (if bs_deduplicate b then b \<lparr> bs_published_ids := bs_published_ids b @ [ee_event_id e] \<rparr> else b)"
  define b2 where "b2 = (if bs_retain_history b then b1 \<lparr> bs_history := bs_history b1 @ [(subject, payload)] \<rparr> else b1)"
  define b3 where "b3 = b2 \<lparr> bs_accepted := bs_accepted b2 @ [(subject, payload)] \<rparr>"
  note base = b1_def b2_def b3_def
  have "bs_closed b = False" "bs_synchronous b3 = False" "(bs_deduplicate b \<and> ee_event_id e \<in> set (bs_published_ids b)) = False"
    using assms by (simp_all add: base)
  then have p: "publish ev subject e b = (Inr (), schedule (map (\<lambda>i. (i, payload)) (matching b3 subject)) b3)"
    unfolding publish_def Let_def b1_def [symmetric] assms(3,5)
    by (simp only: if_False sum.case b2_def [symmetric] b3_def [symmetric])
  show "fst (publish ev subject e b) = Inr ()" by (simp add: p)
  show "bs_accepted (snd (publish ev subject e b)) = bs_accepted b @ [(subject, payload)]"
    by (simp add: p schedule_def base)
  show "bs_published_ids (snd (publish ev subject e b)) =
      (if bs_deduplicate b then bs_published_ids b @ [ee_event_id e] else bs_published_ids b)"
    by (simp add: p schedule_def base)
  assume "i < length (bs_subscribers b)"
  then have "i < length (bs_subscribers b3)" "made_to b3 i = made_to b i" "matches b3 subject i = matches b subject i"
    by (simp_all add: base made_to_def made_def matches_def)
  then show "mset (made_to (snd (publish ev subject e b)) i) = mset (made_to b i) + (if matches b subject i then {#payload#} else {#})"
    unfolding p snd_conv mset_made_to_schedule filter_matching by simp
qed

lemma publish_refuses:
  assumes "bs_closed b \<or> \<not> is_ok (validate_publish_subject subject) \<or>
    bs_deduplicate b \<and> ee_event_id e \<in> set (bs_published_ids b) \<or> \<not> is_ok (encode_envelope ev e)"
  shows "bs_accepted (snd (publish ev subject e b)) = bs_accepted b"
    and "set (bs_published_ids b) \<subseteq> set (bs_published_ids (snd (publish ev subject e b)))"
  using assms by (auto simp: publish_def Let_def is_ok_iff split: sum.splits)

text \<open>
  An envelope that cannot be encoded raises with its identifier recorded: publishing the identifier again
  returns and reaches nobody.
\<close>

lemma failed_encoding_blocks_retry:
  assumes "encode_envelope ev e = Inl err" "\<not> bs_closed b" "validate_publish_subject subject = Inr ()"
    and "bs_deduplicate b" "ee_event_id e \<notin> set (bs_published_ids b)" "ee_event_id e' = ee_event_id e"
  shows "fst (publish ev subject e b) = Inl err"
    and "publish ev subject e' (snd (publish ev subject e b)) = (Inr (), snd (publish ev subject e b))"
  using assms by (simp_all add: publish_def Let_def)

section \<open>Deduplication\<close>

text \<open>The event identifier of a payload; an encoding that keeps it is what deduplication relies on.\<close>

definition payload_id :: "envelope_codec \<Rightarrow> py_value \<Rightarrow> uuid option" where
  "payload_id ev payload = (case decode_envelope ev payload of Inl _ \<Rightarrow> None | Inr e \<Rightarrow> Some (ee_event_id e))"

definition keeps_ids :: "envelope_codec \<Rightarrow> bool" where
  "keeps_ids ev \<longleftrightarrow> (\<forall>e payload. encode_envelope ev e = Inr payload \<longrightarrow> payload_id ev payload = Some (ee_event_id e))"

definition ids_inv :: "envelope_codec \<Rightarrow> bus \<Rightarrow> bool" where
  "ids_inv ev b \<longleftrightarrow> distinct (map (\<lambda>h. payload_id ev (snd h)) (bs_accepted b)) \<and>
     (\<forall>h\<in>set (bs_accepted b). payload_id ev (snd h) \<in> Some ` set (bs_published_ids b))"

lemma ids_inv_publish:
  assumes inv: "ids_inv ev b" and "keeps_ids ev" "bs_deduplicate b" "\<not> bs_synchronous b"
  shows "ids_inv ev (snd (publish ev subject e b))"
proof (cases "bs_closed b \<or> \<not> is_ok (validate_publish_subject subject) \<or>
    bs_deduplicate b \<and> ee_event_id e \<in> set (bs_published_ids b) \<or> \<not> is_ok (encode_envelope ev e)")
  case True
  note same = publish_refuses [OF this]
  show ?thesis using inv image_mono [OF same(2), of Some] unfolding ids_inv_def same(1) by blast
next
  case False
  then obtain payload where "encode_envelope ev e = Inr payload" by (auto simp: is_ok_iff)
  moreover have "validate_publish_subject subject = Inr ()" using False by (simp add: is_ok_iff)
  ultimately have "bs_accepted (snd (publish ev subject e b)) = bs_accepted b @ [(subject, payload)]"
    "bs_published_ids (snd (publish ev subject e b)) = bs_published_ids b @ [ee_event_id e]"
    and "payload_id ev payload = Some (ee_event_id e)"
    using publish_accepts(2,3) [of b subject e ev payload] False assms by (auto simp: keeps_ids_def)
  then show ?thesis using inv False assms(3) unfolding ids_inv_def by force
qed

lemma other_ops_accepted:
  "bs_accepted (snd (subscribe pattern o' b)) = bs_accepted b"
  "bs_published_ids (snd (subscribe pattern o' b)) = bs_published_ids b"
  "bs_accepted (run_call ev k r b) = bs_accepted b" "bs_published_ids (run_call ev k r b) = bs_published_ids b"
  by (auto simp: subscribe_def schedule_def start_call_def Let_def run_call_def replace_call_def settle_def
      split: sum.split option.split prod.split progress.split)

lemma flags_step:
  "bus_step ev b b' \<Longrightarrow> bs_deduplicate b' = bs_deduplicate b \<and> bs_synchronous b' = bs_synchronous b"
  by (erule bus_stepE) (auto simp: publish_def subscribe_def unsubscribe_def run_task_def run_call_def replace_call_def settle_def
      schedule_def start_call_def begin_close_def end_close_def Let_def split: sum.split option.split prod.split progress.split)

lemma ids_inv_step:
  assumes "bus_step ev b b'" "ids_inv ev b" "keeps_ids ev" "bs_deduplicate b" "\<not> bs_synchronous b"
  shows "ids_inv ev b'"
  using assms(1)
proof (rule bus_stepE)
  fix subject e assume "b' = snd (publish ev subject e b)"
  with assms show ?thesis by (simp add: ids_inv_publish)
next
  fix k r assume "b' = run_task ev k r b"
  with assms show ?thesis by (simp add: ids_inv_def run_task_base)
qed (use assms(2) in \<open>simp_all add: ids_inv_def other_ops_accepted unsubscribe_def begin_close_def end_close_def\<close>)

lemma reachable_async:
  "reachable_bus ev b \<Longrightarrow> \<not> bs_synchronous b \<Longrightarrow> bus_inv b \<and> (keeps_ids ev \<and> bs_deduplicate b \<longrightarrow> ids_inv ev b)"
proof (induction rule: reachable_bus.induct)
  case (reach_new prefix retain deduplicate synchronous b)
  then have "synchronous = False" "bs_accepted b = []" by (auto simp: new_bus_def)
  with reach_new show ?case using bus_inv_new by (simp add: ids_inv_def)
next
  case (reach_step b b')
  then show ?case using bus_inv_step ids_inv_step flags_step by metis
qed

text \<open>What is owed is part of what was accepted, so no identifier is owed twice.\<close>

lemma mset_dvalues_dput: "mset (dvalues (dput k v d)) \<subseteq># add_mset v (mset (dvalues d))"
  by (induction d) auto

lemma mset_latest:
  "mset (dvalues (foldl (\<lambda>d h. dput (fst h) (snd h) d) d hs)) \<subseteq># mset (dvalues d) + mset (map snd hs)"
proof (induction hs arbitrary: d)
  case (Cons h hs)
  have "mset (dvalues (dput (fst h) (snd h) d)) + mset (map snd hs) \<subseteq># add_mset (snd h) (mset (dvalues d)) + mset (map snd hs)"
    by (intro subset_mset.add_right_mono mset_dvalues_dput)
  with subset_mset.order_trans [OF Cons.IH] show ?case by simp
qed simp

lemma mset_map_filter: "mset (map f (filter P xs)) \<subseteq># mset (map f xs)"
  by (simp add: mset_filter image_mset_subseteq_mono)

lemma mset_replayed: "mset (replayed o' pattern history) \<subseteq># mset (map snd history)"
proof -
  let ?seen = "filter (\<lambda>h. subject_matches pattern (fst h)) history"
  have seen: "mset (map snd ?seen) \<subseteq># mset (map snd history)" by (rule mset_map_filter)
  have "mset (latest_payloads pattern history) \<subseteq># mset (map snd ?seen)"
    unfolding latest_payloads_def using mset_latest [of "[]" ?seen] by simp
  from subset_mset.order_trans [OF this seen] seen show ?thesis by (simp add: replayed_def)
qed

lemma mset_owed: "mset (owed b i) \<subseteq># mset (map snd (bs_accepted b))"
proof -
  let ?n = "bs_joined b ! i"
  let ?su = "bs_subscribers b ! i"
  have "mset (replayed (su_options ?su) (su_subject ?su) (if bs_retain_history b then take ?n (bs_accepted b) else []))
      \<subseteq># mset (map snd (take ?n (bs_accepted b)))"
    using mset_replayed [of "su_options ?su" "su_subject ?su" "take ?n (bs_accepted b)"]
      mset_replayed [of "su_options ?su" "su_subject ?su" "[]"] by simp
  then have "mset (owed b i) \<subseteq># mset (map snd (take ?n (bs_accepted b))) + mset (map snd (drop ?n (bs_accepted b)))"
    unfolding owed_def Let_def mset_append by (intro subset_mset.add_mono mset_map_filter)
  also have "\<dots> = mset (map snd (bs_accepted b))"
    by (metis append_take_drop_id map_append mset_append)
  finally show ?thesis .
qed

lemma distinct_submset: "mset xs \<subseteq># mset ys \<Longrightarrow> distinct ys \<Longrightarrow> distinct xs"
  by (metis distinct_append mset_append mset_eq_imp_distinct_iff ex_mset subset_mset.add_diff_inverse)

lemma owed_ids:
  assumes "ids_inv ev b" "mset xs \<subseteq># mset (owed b i)"
  shows "distinct (map (payload_id ev) xs)"
proof -
  have "mset (map (payload_id ev) xs) \<subseteq># mset (map (payload_id ev) (map snd (bs_accepted b)))"
    using image_mset_subseteq_mono [OF subset_mset.order_trans [OF assms(2) mset_owed], of "payload_id ev"]
    unfolding mset_map .
  then show ?thesis using assms(1) distinct_submset by (fastforce simp: ids_inv_def comp_def)
qed

section \<open>Every delivery ends\<close>

definition remaining :: "bus \<Rightarrow> nat" where
  "remaining b = sum_list (map (\<lambda>d. Suc (2 * (max_deliver b (de_subscriber d) - length (de_replies d)) +
     (if de_running d then 0 else 1))) (bs_tasks b))"

lemma remaining_run_task:
  assumes "k < length (bs_tasks b)"
  shows "remaining (run_task ev k r b) < remaining b"
proof -
  define f where "f d = Suc (2 * (max_deliver b (de_subscriber d) - length (de_replies d)) + (if de_running d then 0 else 1))" for d :: delivery
  have max: "max_deliver (run_task ev k r b) i = max_deliver b i" for i by (simp add: max_deliver_def run_task_base)
  have sums: "remaining (run_task ev k r b) = sum_list (map f (bs_tasks (run_task ev k r b)))" "remaining b = sum_list (map f (bs_tasks b))"
    by (simp_all only: remaining_def max f_def [abs_def])
  have split: "sum_list (map f (bs_tasks b)) =
      sum_list (map f (take k (bs_tasks b))) + f (bs_tasks b ! k) + sum_list (map f (drop (Suc k) (bs_tasks b)))"
    by (subst (1) id_take_nth_drop [OF assms]) simp
  show ?thesis
  proof (cases "deliver_step ev r b (bs_tasks b ! k)")
    case (Ongoing d)
    then have "f d < f (bs_tasks b ! k)" by (auto simp: deliver_step_def f_def Let_def split: if_splits)
    then show ?thesis unfolding sums split using assms Ongoing by (simp add: run_task_def upd_conv_take_nth_drop)
  next
    case (Settled x)
    then show ?thesis unfolding sums split by (simp add: run_task_def settle_def f_def)
  qed
qed

lemma task_steps_remaining: "(task_step ev ^^ n) b b' \<Longrightarrow> n + remaining b' \<le> remaining b"
proof (induction n arbitrary: b')
  case (Suc n)
  then obtain b1 where "(task_step ev ^^ n) b b1" "task_step ev b1 b'" by auto
  from this(2) have "remaining b' < remaining b1" by (cases rule: task_step.cases) (simp add: remaining_run_task)
  with Suc.IH [OF \<open>(task_step ev ^^ n) b b1\<close>] show ?case by simp
qed simp

text \<open>The finished deliveries of a subscriber.\<close>

definition settled_of :: "bus \<Rightarrow> nat \<Rightarrow> (py_value \<times> handler_reply list) list" where
  "settled_of b i = map snd (filter (\<lambda>x. fst x = i) (bs_settled b))"

lemma made_when_joined: "join_returns b \<Longrightarrow> made_to b i = map fst (settled_of b i)"
  by (simp add: join_returns_def made_to_def made_def settled_of_def filter_map comp_def case_prod_unfold)

lemma settled_concluded:
  assumes "bus_inv b" "su_active (bs_subscribers b ! i)" "(payload, rs) \<in> set (settled_of b i)"
  shows "concluded (max_deliver b i) rs"
  using assms by (fastforce simp: bus_inv_def settled_ok_def settled_of_def)

section \<open>Properties\<close>

text \<open>C13: On the default (asynchronous) bus, under any interleaving of publications, subscriptions,
  unsubscriptions, closing and the steps of pending deliveries, by handlers too: (1) a subscriber is given
  only payloads it is owed (the replays it asked for and the later publications its pattern matches), each
  at most as often as it was accepted, and an active subscriber is given exactly these; (2) with
  deduplication and an encoding that keeps event identifiers, no subscriber is given two deliveries of one
  event; (3) publishing a new valid event is accepted and adds one delivery for each active matching
  subscriber and none for others; (4) publishing a known identifier changes nothing.\<close>

theorem bus_delivers_once:
  assumes "reachable_bus ev b" "\<not> bs_synchronous b" "i < length (bs_subscribers b)"
  shows "mset (made_to b i) \<subseteq># mset (owed b i) \<and>
    (su_active (bs_subscribers b ! i) \<longrightarrow> mset (made_to b i) = mset (owed b i)) \<and>
    (bs_deduplicate b \<and> keeps_ids ev \<longrightarrow> distinct (map (payload_id ev) (made_to b i))) \<and>
    (\<forall>subject e payload. \<not> bs_closed b \<and> validate_publish_subject subject = Inr () \<and> encode_envelope ev e = Inr payload \<and>
       \<not> (bs_deduplicate b \<and> ee_event_id e \<in> set (bs_published_ids b)) \<longrightarrow>
       fst (publish ev subject e b) = Inr () \<and>
       mset (made_to (snd (publish ev subject e b)) i) =
         mset (made_to b i) + (if matches b subject i then {#payload#} else {#})) \<and>
    (\<forall>subject e. \<not> bs_closed b \<and> validate_publish_subject subject = Inr () \<and>
       bs_deduplicate b \<and> ee_event_id e \<in> set (bs_published_ids b) \<longrightarrow> publish ev subject e b = (Inr (), b))"
proof -
  have inv: "bus_inv b" and ids: "keeps_ids ev \<and> bs_deduplicate b \<longrightarrow> ids_inv ev b"
    using reachable_async [OF assms(1,2)] by blast+
  have owed: "mset (made_to b i) \<subseteq># mset (owed b i)" "su_active (bs_subscribers b ! i) \<longrightarrow> mset (made_to b i) = mset (owed b i)"
    using inv assms(3) by (simp_all add: bus_inv_def)
  moreover have "bs_deduplicate b \<and> keeps_ids ev \<longrightarrow> distinct (map (payload_id ev) (made_to b i))"
    using ids owed_ids [OF _ owed(1)] by blast
  moreover have "fst (publish ev subject e b) = Inr () \<and>
      mset (made_to (snd (publish ev subject e b)) i) = mset (made_to b i) + (if matches b subject i then {#payload#} else {#})"
    if "\<not> bs_closed b \<and> validate_publish_subject subject = Inr () \<and> encode_envelope ev e = Inr payload \<and>
       \<not> (bs_deduplicate b \<and> ee_event_id e \<in> set (bs_published_ids b))" for subject e payload
    using publish_accepts(1,4) [of b subject e ev payload] that assms(2,3) by blast
  ultimately show ?thesis by (auto simp: publish_def)
qed

text \<open>C14: Nothing is lost or left waiting on the default (asynchronous) bus: from any reachable state the
  pending deliveries can make at most \<open>remaining\<close> steps, in any order and with any replies, and while
  \<open>join\<close> does not return one of them can step; once \<open>join\<close> returns, everything an active subscriber is
  owed has a finished delivery, and each was tried until the handler accepted it (or was ended by a
  cancellation) or had failed \<open>max_deliver\<close> times.\<close>

theorem bus_join_settles:
  assumes "reachable_bus ev b" "\<not> bs_synchronous b" "(task_step ev ^^ n) b b'"
  shows "n \<le> remaining b \<and> (\<not> join_returns b' \<longrightarrow> (\<exists>b''. task_step ev b' b'')) \<and>
    (join_returns b' \<longrightarrow> (\<forall>i < length (bs_subscribers b'). su_active (bs_subscribers b' ! i) \<longrightarrow>
       mset (map fst (settled_of b' i)) = mset (owed b' i) \<and>
       (\<forall>(payload, rs)\<in>set (settled_of b' i). concluded (max_deliver b' i) rs)))"
proof -
  have steps: "(task_step ev ^^ n) b b' \<Longrightarrow> reachable_bus ev b' \<and> \<not> bs_synchronous b'" for n b'
  proof (induction n arbitrary: b')
    case (Suc n)
    then obtain b1 where "reachable_bus ev b1" "\<not> bs_synchronous b1" "task_step ev b1 b'" by auto
    then show ?case by (auto elim!: task_step.cases intro: reach_step step_task simp: run_task_base)
  qed (use assms(1,2) in simp)
  then have inv: "bus_inv b'" using assms(3) reachable_async by blast
  have "\<exists>b''. task_step ev b' b''" if "\<not> join_returns b'"
    using that task_step.intros [of 0 b'] by (auto simp: join_returns_def)
  moreover have "mset (map fst (settled_of b' i)) = mset (owed b' i) \<and> (\<forall>(payload, rs)\<in>set (settled_of b' i). concluded (max_deliver b' i) rs)"
    if "join_returns b'" "i < length (bs_subscribers b')" "su_active (bs_subscribers b' ! i)" for i
    using inv made_when_joined [OF that(1), of i] settled_concluded [OF inv that(3)] that(2,3) by (auto simp: bus_inv_def)
  ultimately show ?thesis using task_steps_remaining [OF assms(3)] by auto
qed

section \<open>A run\<close>

definition demo_options :: subscription_options where
  "demo_options = \<lparr> op_durable_name = None, op_replay_all = True, op_replay_latest = False, op_max_deliver = 2,
     op_ack_wait = 30, op_redelivery_delay = 1 / 10, op_max_ack_pending = None \<rparr>"

definition demo_event :: "uuid \<Rightarrow> event_envelope" where
  "demo_event u = \<lparr> ee_event_id = u, ee_event_type = ''bar'', ee_schema_version = ''1.0.0'', ee_occurred_at = 0,
     ee_source = ''test'', ee_trace_id = None, ee_correlation_id = None, ee_causation_id = None,
     ee_market_session = None, ee_subject = None, ee_payload = VNone, ee_attributes = [] \<rparr>"

definition bus_codec :: envelope_codec where
  "bus_codec = \<lparr> ev_dump = (\<lambda>e. VInt (ee_event_id e)),
     ev_parse = (\<lambda>v. case v of VInt n \<Rightarrow> Some (demo_event n) | _ \<Rightarrow> None) \<rparr>"

definition empty_bus :: bus where
  "empty_bus = (case new_bus ''marketbot'' True True False of Inr b \<Rightarrow> b)"

text \<open>Two publications of one event around a subscription that replays, and the handler called once.\<close>

definition demo_bus :: bus where
  "demo_bus = run_task bus_codec 0 Accepted (snd (publish bus_codec ''m.x'' (demo_event 1)
     (snd (subscribe ''m.>'' demo_options (snd (publish bus_codec ''m.x'' (demo_event 1) empty_bus))))))"

text \<open>The handler refuses the first attempt and accepts the second.\<close>

definition demo_end :: bus where
  "demo_end = run_task bus_codec 0 Accepted (run_task bus_codec 0 Accepted (run_task bus_codec 0 Failed demo_bus))"

lemma demo_reachable: "reachable_bus bus_codec demo_bus"
proof -
  have "new_bus ''marketbot'' True True False = Inr empty_bus" by code_simp
  moreover have "make_options demo_options = Inr demo_options" by code_simp
  moreover have "0 < length (bs_tasks (snd (publish bus_codec ''m.x'' (demo_event 1)
     (snd (subscribe ''m.>'' demo_options (snd (publish bus_codec ''m.x'' (demo_event 1) empty_bus)))))))" by code_simp
  ultimately show ?thesis unfolding demo_bus_def by (intro reach_step [OF _ step_task] reach_step [OF _ step_publish]
    reach_step [OF _ step_subscribe] reach_new)
qed

lemma bus_demo_steps: "(task_step bus_codec ^^ 3) demo_bus demo_end"
proof -
  have "0 < length (bs_tasks demo_bus)" "0 < length (bs_tasks (run_task bus_codec 0 Failed demo_bus))"
    "0 < length (bs_tasks (run_task bus_codec 0 Accepted (run_task bus_codec 0 Failed demo_bus)))" by code_simp+
  then show ?thesis unfolding demo_end_def numeral_3_eq_3 by (auto intro!: relcomppI task_step.intros)
qed

lemma demo_keeps_ids: "keeps_ids bus_codec"
  by (auto simp: keeps_ids_def payload_id_def encode_envelope_def decode_envelope_def bus_codec_def demo_event_def)

theorem bus_delivers_once_witness:
  "reachable_bus bus_codec demo_bus \<and> keeps_ids bus_codec \<and> bs_deduplicate demo_bus \<and>
   mset (made_to demo_bus 0) = mset (owed demo_bus 0) \<and> distinct (map (payload_id bus_codec) (made_to demo_bus 0)) \<and>
   owed demo_bus 0 = [VInt 1]"
proof -
  have facts: "\<not> bs_synchronous demo_bus" "0 < length (bs_subscribers demo_bus)" "bs_deduplicate demo_bus"
    "su_active (bs_subscribers demo_bus ! 0)" "owed demo_bus 0 = [VInt 1]" by code_simp+
  from bus_delivers_once [OF demo_reachable facts(1,2)] facts demo_reachable demo_keeps_ids show ?thesis by blast
qed

theorem bus_join_settles_witness:
  "join_returns demo_end \<and> settled_of demo_end 0 = [(VInt 1, [Failed, Accepted])] \<and>
   mset (map fst (settled_of demo_end 0)) = mset (owed demo_end 0) \<and> concluded (max_deliver demo_end 0) [Failed, Accepted]"
proof -
  have facts: "\<not> bs_synchronous demo_bus" "0 < length (bs_subscribers demo_end)" "join_returns demo_end"
    "su_active (bs_subscribers demo_end ! 0)" "settled_of demo_end 0 = [(VInt 1, [Failed, Accepted])]" by code_simp+
  from bus_join_settles [OF demo_reachable facts(1) bus_demo_steps] facts(2-5) show ?thesis by auto
qed

end
