(* ===== verification/Bus_Maintenance.thy ===== *)
theory Bus_Maintenance
  imports Subjects "HOL-Library.List_Lexorder" "HOL-Library.Char_ord"
begin

text \<open>
  Maintenance of the JetStream transport: cleanup of orphaned consumers
  (app/event_bus/consumer_maintenance.py) and the purge of retained market bars
  (app/event_bus/stream_maintenance.py). The JetStream manager is outside: its consumer listing is
  a function from an offset to a page, its deletion a function from a name to success.
\<close>

section \<open>Orphaned consumers\<close>

record consumer_info =
  ci_name :: string
  ci_created :: instant
  ci_push_bound :: "bool option"

record cleanup_summary =
  cl_scanned :: int
  cl_candidates :: "string list"
  cl_deleted :: "string list"

text \<open>The paging loop; it does not return when every page is full.\<close>

partial_function (option) collect_consumers ::
    "(nat \<Rightarrow> consumer_info list) \<Rightarrow> nat \<Rightarrow> consumer_info list \<Rightarrow> consumer_info list option" where
  "collect_consumers consumers_info offset consumers =
     (let page = consumers_info offset; consumers' = consumers @ page in
      if length page < 256 then Some consumers'
      else collect_consumers consumers_info (offset + length page) consumers')"

definition superseded_prefixes :: "string list" where
  "superseded_prefixes = [''marketbot-leveraged-thesis-source-v1-'', ''marketbot-leveraged-thesis-source-v13-'']"

definition starts_with :: "string \<Rightarrow> string \<Rightarrow> bool" where
  "starts_with p s \<longleftrightarrow> take (length p) s = p"

definition is_cleanup_candidate :: "string \<Rightarrow> bool" where
  "is_cleanup_candidate name \<longleftrightarrow> starts_with ''mb_'' name \<or> (\<exists>p\<in>set superseded_prefixes. starts_with p name)"

definition cleanup_orphan_consumers :: "(nat \<Rightarrow> consumer_info list) \<Rightarrow> (string \<Rightarrow> bool) \<Rightarrow> instant \<Rightarrow> duration \<Rightarrow>
    bool \<Rightarrow> cleanup_summary option" where
  "cleanup_orphan_consumers consumers_info delete_consumer now minimum_age apply_it =
     Option.bind (collect_consumers consumers_info 0 []) (\<lambda>consumers.
       let cutoff = now - minimum_age;
           candidates = sort (map ci_name (filter (\<lambda>c. is_cleanup_candidate (ci_name c)
             \<and> ci_push_bound c \<noteq> Some True \<and> ci_created c \<le> cutoff) consumers));
           deleted = (if apply_it then filter delete_consumer candidates else [])
       in Some \<lparr> cl_scanned = int (length consumers), cl_candidates = candidates, cl_deleted = deleted \<rparr>)"

section \<open>Retained market bars\<close>

record purge_summary =
  pu_subject :: string
  pu_messages_before :: int
  pu_messages_after :: int
  pu_applied :: bool

text \<open>
  The manager's operations on its state: the message counts of the subjects a filter selects, and the
  purge of a filter.
\<close>

definition matching_message_count :: "(string \<times> int) list option \<Rightarrow> int" where
  "matching_message_count subjects = sum_list (map snd (case subjects of None \<Rightarrow> [] | Some d \<Rightarrow> d))"

definition purge_retained_market_bars :: "('m \<Rightarrow> string \<Rightarrow> (string \<times> int) list option) \<Rightarrow>
    ('m \<Rightarrow> string \<Rightarrow> 'm) \<Rightarrow> string \<Rightarrow> bool \<Rightarrow> 'm \<Rightarrow> (purge_summary \<times> 'm) result" where
  "purge_retained_market_bars stream_info purge_stream prefix apply_it m =
     (let subject = prefix @ ''.v1.market.bar.>'' in
      bind_result (validate_subscription_subject subject) (\<lambda>_.
        let before = matching_message_count (stream_info m subject);
            m' = (if apply_it then purge_stream m subject else m);
            after = (if apply_it then matching_message_count (stream_info m' subject) else before)
        in Inr (\<lparr> pu_subject = subject, pu_messages_before = before, pu_messages_after = after,
                  pu_applied = apply_it \<rparr>, m')))"

section \<open>A stream as JetStream documents it\<close>

text \<open>Messages by subject; a filter selects the subjects it matches, a purge removes their messages.\<close>

locale stream_manager =
  fixes stream_info :: "'m \<Rightarrow> string \<Rightarrow> (string \<times> int) list option"
    and purge_stream :: "'m \<Rightarrow> string \<Rightarrow> 'm"
    and retained :: "'m \<Rightarrow> string \<Rightarrow> int"
  assumes info_count: "matching_message_count (stream_info m p) = retained m p"
    and purge_all: "retained (purge_stream m p) p = 0"
begin

lemma purge_reports_truth:
  assumes "purge_retained_market_bars stream_info purge_stream prefix apply_it m = Inr (s, m')"
  shows "pu_messages_before s = retained m (pu_subject s) \<and> pu_messages_after s = retained m' (pu_subject s) \<and>
    (apply_it \<longrightarrow> m' = purge_stream m (pu_subject s) \<and> pu_messages_after s = 0) \<and> (\<not> apply_it \<longrightarrow> m' = m)"
  using assms by (auto simp: purge_retained_market_bars_def Let_def info_count purge_all split: if_splits)

end

text \<open>The reference stream: the list of retained subjects, one entry per message.\<close>

definition list_info :: "string list \<Rightarrow> string \<Rightarrow> (string \<times> int) list option" where
  "list_info ms p = Some (map (\<lambda>s. (s, 1)) (filter (subject_matches p) ms))"

definition list_purge :: "string list \<Rightarrow> string \<Rightarrow> string list" where
  "list_purge ms p = filter (\<lambda>s. \<not> subject_matches p s) ms"

interpretation bar_stream: stream_manager list_info list_purge
    "\<lambda>ms p. int (length (filter (subject_matches p) ms))"
  by unfold_locales
    (simp_all add: matching_message_count_def list_info_def list_purge_def comp_def sum_list_triv)

section \<open>Lemmas\<close>

lemma collect_pages:
  "(\<And>i. consumers_info i = take 256 (drop i cs)) \<Longrightarrow> offset \<le> length cs \<Longrightarrow> consumers = take offset cs \<Longrightarrow>
   collect_consumers consumers_info offset consumers = Some cs"
proof (induction "length cs - offset" arbitrary: offset consumers rule: less_induct)
  case less
  let ?page = "take 256 (drop offset cs)"
  have app: "take offset cs @ ?page = take (offset + 256) cs" by (simp add: take_add)
  show ?case
  proof (cases "length ?page < 256")
    case True
    then have "length cs \<le> offset + 256" by simp
    with True app less.prems show ?thesis by (simp add: collect_consumers.simps [of _ offset] Let_def)
  next
    case False
    then have "length ?page = 256" "offset + 256 \<le> length cs" by simp_all
    moreover have "collect_consumers consumers_info (offset + 256) (take (offset + 256) cs) = Some cs"
      using less.hyps [of "offset + 256"] less.prems(1) calculation(2) by simp
    ultimately show ?thesis using app less.prems by (simp add: collect_consumers.simps [of _ offset] Let_def)
  qed
qed

section \<open>Properties\<close>

text \<open>The consumer cleanup reads every page and touches only orphans: against a manager that lists
  256 consumers per page, its candidates are, sorted, exactly the names with a stale prefix whose
  consumer is unbound and at least the minimum age old; a dry run deletes nothing and an applied run
  only candidates.\<close>

theorem cleanup_only_orphans:
  assumes "\<And>i. consumers_info i = take 256 (drop i cs)"
  shows "\<exists>s. cleanup_orphan_consumers consumers_info delete_consumer now minimum_age apply_it = Some s \<and>
    cl_scanned s = int (length cs) \<and> sorted (cl_candidates s) \<and>
    (\<forall>n. n \<in> set (cl_candidates s) \<longleftrightarrow>
       (\<exists>c\<in>set cs. ci_name c = n \<and> is_cleanup_candidate n \<and> ci_push_bound c \<noteq> Some True \<and>
          minimum_age \<le> now - ci_created c)) \<and>
    set (cl_deleted s) \<subseteq> set (cl_candidates s) \<and> (\<not> apply_it \<longrightarrow> cl_deleted s = [])"
proof -
  have "collect_consumers consumers_info 0 [] = Some cs" using assms by (intro collect_pages) simp_all
  then show ?thesis by (auto simp: cleanup_orphan_consumers_def Let_def)
qed

definition demo_consumers :: "consumer_info list" where
  "demo_consumers = [\<lparr> ci_name = ''mb_old'', ci_created = 0, ci_push_bound = Some False \<rparr>,
     \<lparr> ci_name = ''mb_live'', ci_created = 0, ci_push_bound = Some True \<rparr>,
     \<lparr> ci_name = ''portfolio'', ci_created = 0, ci_push_bound = None \<rparr>]"

theorem cleanup_only_orphans_witness:
  "\<exists>s. cleanup_orphan_consumers (\<lambda>i. take 256 (drop i demo_consumers)) (\<lambda>_. True) (hours 1) (minutes 10) True = Some s \<and>
     ''mb_old'' \<in> set (cl_candidates s) \<and> ''mb_live'' \<notin> set (cl_candidates s) \<and> ''portfolio'' \<notin> set (cl_candidates s)"
proof -
  let ?page = "\<lambda>i. take 256 (drop i demo_consumers)"
  obtain s where s: "cleanup_orphan_consumers ?page (\<lambda>_. True) (hours 1) (minutes 10) True = Some s"
    "\<forall>n. n \<in> set (cl_candidates s) \<longleftrightarrow>
       (\<exists>c\<in>set demo_consumers. ci_name c = n \<and> is_cleanup_candidate n \<and> ci_push_bound c \<noteq> Some True \<and>
          minutes 10 \<le> hours 1 - ci_created c)"
    using cleanup_only_orphans [of ?page demo_consumers "\<lambda>_. True" "hours 1" "minutes 10" True] by blast
  have "''mb_old'' \<in> set (cl_candidates s)" "''mb_live'' \<notin> set (cl_candidates s)" "''portfolio'' \<notin> set (cl_candidates s)"
    unfolding s(2) [rule_format]
    by (simp_all add: demo_consumers_def is_cleanup_candidate_def superseded_prefixes_def starts_with_def duration_defs)
  with s(1) show ?thesis by blast
qed

text \<open>The market-bar purge reports what it did: the counts are those of the stream before and after,
  an applied purge leaves no market bar and every other message, and a dry run leaves the stream alone.\<close>

theorem purge_removes_only_bars:
  assumes "purge_retained_market_bars list_info list_purge prefix apply_it ms = Inr (s, ms')"
  shows "pu_messages_before s = int (length (filter (subject_matches (prefix @ ''.v1.market.bar.>'')) ms)) \<and>
    pu_messages_after s = int (length (filter (subject_matches (prefix @ ''.v1.market.bar.>'')) ms')) \<and>
    ms' = (if apply_it then filter (\<lambda>m. \<not> subject_matches (prefix @ ''.v1.market.bar.>'') m) ms else ms)"
proof -
  have "pu_subject s = prefix @ ''.v1.market.bar.>''"
    using assms by (auto simp only: purge_retained_market_bars_def Let_def bind_result_Inr sum.inject prod.inject
      purge_summary.simps)
  with bar_stream.purge_reports_truth [OF assms] show ?thesis by (simp add: list_purge_def)
qed

theorem purge_removes_only_bars_witness:
  "\<exists>s. purge_retained_market_bars list_info list_purge ''mb'' True [''mb.v1.market.bar.1m.X'', ''mb.v1.alert.X''] =
      Inr (s, [''mb.v1.alert.X''])"
proof -
  obtain s ms' where r: "purge_retained_market_bars list_info list_purge ''mb'' True
      [''mb.v1.market.bar.1m.X'', ''mb.v1.alert.X''] = Inr (s, ms')"
    by (simp add: purge_retained_market_bars_def validate_subscription_subject_def subject_tokens_def strip_def
        isspace_def code_def Let_def)
  from purge_removes_only_bars [OF r] have "ms' = [''mb.v1.alert.X'']" by (simp add: subject_matches_def)
  with r show ?thesis by blast
qed

end
