(* ===== verification/Market_Session.thy ===== *)
theory Market_Session
  imports Rule_Contracts
begin

text \<open>
  Market bars (the MarketBar contract of app/contracts/market_analysis.py) and the US-equity session
  policy (app/common/market_session.py). The time-zone database is outside: a \<open>zone\<close> gives the UTC
  offset of New York at an instant and of a wall-clock reading. A wall-clock reading is an integer of
  microseconds, counted like an instant, so its day number and time of day are quotient and remainder.
\<close>

section \<open>Bars\<close>

record market_bar =
  mb_symbol :: string
  mb_timeframe :: bar_timeframe
  mb_timestamp :: instant
  mb_open :: rat
  mb_high :: rat
  mb_low :: rat
  mb_close :: rat
  mb_volume :: rat
  mb_trade_count :: "int option"
  mb_vwap :: "rat option"
  mb_source :: string
  mb_feed :: string
  mb_is_final :: bool

definition market_bar_fields :: "market_bar \<Rightarrow> bool" where
  "market_bar_fields b \<longleftrightarrow> identifier_str (mb_symbol b) \<and> 0 < mb_open b \<and> 0 < mb_high b \<and> 0 < mb_low b
     \<and> 0 < mb_close b \<and> 0 \<le> mb_volume b \<and> opt_all (\<lambda>n. 0 \<le> n) (mb_trade_count b)
     \<and> opt_all (\<lambda>v. 0 < v) (mb_vwap b) \<and> identifier_str (mb_source b) \<and> identifier_str (mb_feed b)"

definition make_bar :: "market_bar \<Rightarrow> market_bar result" where
  "make_bar b =
     (if \<not> market_bar_fields b then Inl (ValidationError ''MarketBar'')
      else if mb_high b < max (mb_open b) (max (mb_low b) (mb_close b))
      then Inl (ValueError ''high must be greater than or equal to all OHLC prices'')
      else if min (mb_open b) (min (mb_high b) (mb_close b)) < mb_low b
      then Inl (ValueError ''low must be less than or equal to all OHLC prices'')
      else Inr b)"

definition valid_bar :: "market_bar \<Rightarrow> bool" where "valid_bar b \<longleftrightarrow> make_bar b = Inr b"

lemma valid_bar_iff:
  "valid_bar b \<longleftrightarrow> market_bar_fields b \<and> mb_low b \<le> mb_open b \<and> mb_low b \<le> mb_close b \<and>
     mb_open b \<le> mb_high b \<and> mb_close b \<le> mb_high b \<and> mb_low b \<le> mb_high b"
  by (auto simp: valid_bar_def make_bar_def)

section \<open>Sessions\<close>

record zone =
  zn_offset :: "instant \<Rightarrow> duration"
  zn_local_offset :: "int \<Rightarrow> duration"

definition local_of :: "zone \<Rightarrow> instant \<Rightarrow> int" where "local_of z t = t + zn_offset z t"
definition utc_of :: "zone \<Rightarrow> int \<Rightarrow> instant" where "utc_of z w = w - zn_local_offset z w"

definition day_of :: "int \<Rightarrow> int" where "day_of w = w div days 1"
definition time_of_day :: "int \<Rightarrow> duration" where "time_of_day w = w mod days 1"

text \<open>Day 0 is 1970-01-01, a Thursday; Monday is 0.\<close>

definition weekday :: "int \<Rightarrow> int" where "weekday w = (day_of w + 3) mod 7"

definition regular_open :: duration where "regular_open = hours 9 + minutes 30"
definition regular_close :: duration where "regular_close = hours 16"

definition intraday_timeframes :: "bar_timeframe list" where
  "intraday_timeframes = [TF_MINUTE_1, TF_MINUTE_5, TF_MINUTE_15, TF_HOUR_1, TF_HOUR_4]"

definition session_at :: "zone \<Rightarrow> instant \<Rightarrow> market_session_kind" where
  "session_at z t =
     (let w = local_of z t in
      if 5 \<le> weekday w then MS_CLOSED
      else if time_of_day w < regular_open then MS_PRE_MARKET
      else if time_of_day w < regular_close then MS_REGULAR
      else MS_AFTER_HOURS)"

definition market_session :: "zone \<Rightarrow> py_datetime \<Rightarrow> market_session_kind result" where
  "market_session z v =
     (case v of Naive _ \<Rightarrow> Inl (ValueError ''market-session timestamp must be timezone-aware'')
      | Aware t _ \<Rightarrow> Inr (session_at z t))"

definition is_regular_session :: "zone \<Rightarrow> instant \<Rightarrow> bool" where
  "is_regular_session z t \<longleftrightarrow> session_at z t = MS_REGULAR"

definition is_intraday_analysis_session :: "zone \<Rightarrow> instant \<Rightarrow> bool \<Rightarrow> bool" where
  "is_intraday_analysis_session z t include_extended_hours =
     (let session = session_at z t in
      if include_extended_hours then session \<in> {MS_PRE_MARKET, MS_REGULAR, MS_AFTER_HOURS}
      else session = MS_REGULAR)"

definition is_regular_session_close_minute :: "zone \<Rightarrow> instant \<Rightarrow> bool" where
  "is_regular_session_close_minute z t \<longleftrightarrow>
     is_regular_session z t \<and> hours 15 + minutes 59 \<le> time_of_day (local_of z t)"

definition requires_regular_session :: "bar_timeframe \<Rightarrow> bool" where
  "requires_regular_session tf \<longleftrightarrow> tf \<in> set intraday_timeframes"

definition is_regular_analytical_bar :: "zone \<Rightarrow> market_bar \<Rightarrow> bool" where
  "is_regular_analytical_bar z b \<longleftrightarrow>
     \<not> requires_regular_session (mb_timeframe b) \<or> is_regular_session z (mb_timestamp b)"

definition analytical_storage_limit :: "bar_timeframe \<Rightarrow> int \<Rightarrow> int result" where
  "analytical_storage_limit tf analytical_limit =
     (if analytical_limit < 1 then Inl (ValueError ''analytical bar limit must be positive'')
      else Inr (if tf \<in> set intraday_timeframes then analytical_limit * 3 else analytical_limit))"

definition is_completed_daily_bar :: "zone \<Rightarrow> market_bar \<Rightarrow> py_datetime \<Rightarrow> bool result" where
  "is_completed_daily_bar z b as_of =
     (if mb_timeframe b \<noteq> TF_DAY_1 then Inl (ValueError ''completed-daily check requires a 1Day bar'')
      else (case as_of of
          Naive _ \<Rightarrow> Inl (ValueError ''daily completion boundary must be timezone-aware'')
        | Aware t _ \<Rightarrow> Inr (day_of (local_of z (mb_timestamp b)) < day_of (local_of z t))))"

text \<open>A concrete zone for evaluation: New York in winter, five hours behind UTC.\<close>

definition eastern_standard :: zone where
  "eastern_standard = \<lparr> zn_offset = (\<lambda>_. - hours 5), zn_local_offset = (\<lambda>_. - hours 5) \<rparr>"

section \<open>Lemmas\<close>

lemma time_of_day_bounds: "0 \<le> time_of_day w" "time_of_day w < days 1"
  by (simp_all add: time_of_day_def duration_defs)

lemma close_minute_regular:
  "is_regular_session_close_minute z t \<longleftrightarrow>
     is_regular_session z t \<and> regular_close - minutes 1 \<le> time_of_day (local_of z t)"
  by (auto simp: is_regular_session_close_minute_def regular_close_def duration_defs)

lemma session_at_cases:
  "session_at z t = MS_REGULAR \<longleftrightarrow> weekday (local_of z t) < 5 \<and>
     regular_open \<le> time_of_day (local_of z t) \<and> time_of_day (local_of z t) < regular_close"
  "session_at z t = MS_CLOSED \<longleftrightarrow> 5 \<le> weekday (local_of z t)"
  by (auto simp: session_at_def Let_def)

end
