(* ===== verification/Bar_Normalizer.thy ===== *)
theory Bar_Normalizer
  imports Market_Session Subjects
begin

text \<open>
  Historical bars of the provider turned into bar events (\<open>rest_bar\<close> of
  app/alpaca_market_data/normalizer.py). A wire record is a decoded JSON object. What the Python
  library computes on its texts is a parameter: \<open>Decimal(str(value))\<close>, \<open>int(str(value))\<close>,
  \<open>datetime.fromisoformat\<close>, the float product behind the millisecond stamp, and the SHA-256 integer
  of the sorted JSON text of an identity.
\<close>

section \<open>Wire values\<close>

datatype number = Finite rat | NotFinite

record wire_library =
  wl_decimal :: "py_value \<Rightarrow> number option"
  wl_int :: "py_value \<Rightarrow> int option"
  wl_fromisoformat :: "string \<Rightarrow> py_datetime option"
  wl_timestamp_ms :: "instant \<Rightarrow> int"
  wl_digest_int :: "py_value \<Rightarrow> int"

definition raw_get :: "(string, py_value) dict \<Rightarrow> string \<Rightarrow> py_value" where
  "raw_get raw key = (case dget raw key of None \<Rightarrow> VNone | Some v \<Rightarrow> v)"

text \<open>\<open>_timestamp\<close>; a trailing Z is written as an offset first.\<close>

definition timestamp :: "wire_library \<Rightarrow> py_value \<Rightarrow> instant result" where
  "timestamp lib value =
     (case value of
        VStr s \<Rightarrow>
          if s = [] then Inl (ValueError ''Alpaca message requires timestamp t'')
          else
            let normalized = (if last s = CHR ''Z'' then butlast s @ ''+00:00'' else s) in
            (case wl_fromisoformat lib normalized of
               None \<Rightarrow> Inl (ValueError ''Invalid isoformat string'')
             | Some (Naive _) \<Rightarrow> Inl (ValueError ''Alpaca timestamps must be timezone-aware'')
             | Some (Aware t _) \<Rightarrow> Inr t)
      | _ \<Rightarrow> Inl (ValueError ''Alpaca message requires timestamp t''))"

text \<open>\<open>Decimal(_decimal_text(value))\<close>: the fixed-point text parses back to the same number.\<close>

definition decimal_text :: "wire_library \<Rightarrow> py_value \<Rightarrow> number result" where
  "decimal_text lib value =
     (case value of
        VNone \<Rightarrow> Inl (ValueError ''Alpaca numeric field is missing or invalid'')
      | VBool _ \<Rightarrow> Inl (ValueError ''Alpaca numeric field is missing or invalid'')
      | _ \<Rightarrow> (case wl_decimal lib value of
                None \<Rightarrow> Inl (ValueError ''Alpaca numeric field is invalid'')
              | Some d \<Rightarrow> Inr d))"

definition trade_count_of :: "wire_library \<Rightarrow> py_value \<Rightarrow> int option result" where
  "trade_count_of lib value =
     (case value of
        VNone \<Rightarrow> Inr None
      | VBool _ \<Rightarrow> Inl (ValueError ''Alpaca bar trade count must be an integer'')
      | _ \<Rightarrow> (case wl_int lib value of
                None \<Rightarrow> Inl (ValueError ''invalid literal for int() with base 10'')
              | Some n \<Rightarrow> (case wl_decimal lib value of
                    None \<Rightarrow> Inl InvalidOperation
                  | Some d \<Rightarrow> if d = Finite (of_int n) then Inr (Some n)
                      else Inl (ValueError ''Alpaca bar trade count must be an integer''))))"

section \<open>Bars\<close>

definition finite_field :: "number \<Rightarrow> rat result" where
  "finite_field d = (case d of Finite q \<Rightarrow> Inr q | NotFinite \<Rightarrow> Inl (ValidationError ''MarketBar''))"

definition parse_timeframe :: "string \<Rightarrow> bar_timeframe result" where
  "parse_timeframe s =
     (case enum_parse bar_timeframe_members bar_timeframe_value s of
        None \<Rightarrow> Inl (ValueError ''is not a valid BarTimeframe'') | Some tf \<Rightarrow> Inr tf)"

definition optional_decimal :: "wire_library \<Rightarrow> py_value \<Rightarrow> number option result" where
  "optional_decimal lib value =
     (if value = VNone then Inr None else bind_result (decimal_text lib value) (\<lambda>d. Inr (Some d)))"

definition optional_field :: "number option \<Rightarrow> rat option result" where
  "optional_field d =
     (case d of None \<Rightarrow> Inr None | Some v \<Rightarrow> bind_result (finite_field v) (\<lambda>q. Inr (Some q)))"

definition market_bar_of :: "wire_library \<Rightarrow> (string, py_value) dict \<Rightarrow> string \<Rightarrow> string \<Rightarrow> string \<Rightarrow> bool \<Rightarrow>
    market_bar result" where
  "market_bar_of lib raw symbol feed timeframe is_final =
     bind_result (trade_count_of lib (raw_get raw ''n'')) (\<lambda>trade_count.
     bind_result (decimal_text lib (raw_get raw ''v'')) (\<lambda>volume.
     bind_result (optional_decimal lib (raw_get raw ''vw'')) (\<lambda>raw_vwap.
       let vwap = (if raw_vwap = Some (Finite 0) \<and> volume = Finite 0 \<and> trade_count \<in> {None, Some 0}
                   then None else raw_vwap) in
     bind_result (parse_timeframe timeframe) (\<lambda>tf.
     bind_result (timestamp lib (raw_get raw ''t'')) (\<lambda>t.
     bind_result (decimal_text lib (raw_get raw ''o'')) (\<lambda>op.
     bind_result (decimal_text lib (raw_get raw ''h'')) (\<lambda>hi.
     bind_result (decimal_text lib (raw_get raw ''l'')) (\<lambda>lo.
     bind_result (decimal_text lib (raw_get raw ''c'')) (\<lambda>cl.
     bind_result (finite_field op) (\<lambda>op.
     bind_result (finite_field hi) (\<lambda>hi.
     bind_result (finite_field lo) (\<lambda>lo.
     bind_result (finite_field cl) (\<lambda>cl.
     bind_result (finite_field volume) (\<lambda>vol.
     bind_result (optional_field vwap) (\<lambda>vw.
       make_bar \<lparr> mb_symbol = symbol, mb_timeframe = tf, mb_timestamp = t, mb_open = op, mb_high = hi,
         mb_low = lo, mb_close = cl, mb_volume = vol, mb_trade_count = trade_count, mb_vwap = vw,
         mb_source = ''alpaca'', mb_feed = feed, mb_is_final = is_final \<rparr>)))))))))))))))"

section \<open>Publications\<close>

text \<open>\<open>_stable_uuid7\<close>: the low 74 bits of the digest, so the same content has the same identifier.\<close>

definition stable_uuid7 :: "wire_library \<Rightarrow> instant \<Rightarrow> py_value \<Rightarrow> uuid" where
  "stable_uuid7 lib occurred_at identity =
     (let timestamp_ms = wl_timestamp_ms lib occurred_at AND (push_bit 48 1 - 1);
          random_bits = wl_digest_int lib identity AND (push_bit 74 1 - 1);
          value1 = push_bit 80 timestamp_ms;
          value2 = value1 OR push_bit 76 7;
          value3 = value2 OR push_bit 64 (drop_bit 62 random_bits AND 4095);
          value4 = value3 OR push_bit 62 2
      in value4 OR (random_bits AND (push_bit 62 1 - 1)))"

definition bar_value :: "market_bar \<Rightarrow> py_value" where
  "bar_value b = VDict [(''symbol'', VStr (mb_symbol b)),
     (''timeframe'', VStr (bar_timeframe_value (mb_timeframe b))), (''timestamp'', VTime (mb_timestamp b)),
     (''open'', VDec (mb_open b)), (''high'', VDec (mb_high b)), (''low'', VDec (mb_low b)),
     (''close'', VDec (mb_close b)), (''volume'', VDec (mb_volume b)),
     (''trade_count'', (case mb_trade_count b of None \<Rightarrow> VNone | Some n \<Rightarrow> VInt n)),
     (''vwap'', (case mb_vwap b of None \<Rightarrow> VNone | Some q \<Rightarrow> VDec q)),
     (''source'', VStr (mb_source b)), (''feed'', VStr (mb_feed b)), (''is_final'', VBool (mb_is_final b))]"

text \<open>A publication, with the typed payload of its envelope beside it.\<close>

record publication =
  pb_subject :: string
  pb_envelope :: event_envelope
  pb_bar :: market_bar

definition bar_publication :: "wire_library \<Rightarrow> string \<Rightarrow> string \<Rightarrow> string \<Rightarrow> string \<Rightarrow> instant \<Rightarrow> market_bar \<Rightarrow>
    py_value \<Rightarrow> publication result" where
  "bar_publication lib feed subject event_type symbol occurred_at payload identity =
     bind_result (make_envelope
       \<lparr> ee_event_id = stable_uuid7 lib occurred_at identity, ee_event_type = event_type,
          ee_schema_version = ''1.0.0'', ee_occurred_at = occurred_at, ee_source = ''alpaca_market_data'',
          ee_trace_id = None, ee_correlation_id = None, ee_causation_id = None, ee_market_session = None,
          ee_subject = Some symbol, ee_payload = bar_value payload,
          ee_attributes = [\<lparr> nv_name = ''provider'', nv_value = VStr ''alpaca'' \<rparr>,
            \<lparr> nv_name = ''feed'', nv_value = VStr feed \<rparr>] \<rparr>)
       (\<lambda>e. Inr \<lparr> pb_subject = subject, pb_envelope = e, pb_bar = payload \<rparr>)"

definition rest_bar :: "wire_library \<Rightarrow> string \<Rightarrow> string \<Rightarrow> string \<Rightarrow> (string, py_value) dict \<Rightarrow>
    publication result" where
  "rest_bar lib feed symbol timeframe raw =
     bind_result (timestamp lib (raw_get raw ''t'')) (\<lambda>occurred_at.
     bind_result (market_bar_of lib raw symbol feed timeframe True) (\<lambda>payload.
     bind_result (market_bar_subject (mb_timeframe payload) symbol) (\<lambda>subject.
       bar_publication lib feed subject ''market.bar.received'' symbol occurred_at payload
         (VDict [(''bar'', VDict raw), (''feed'', VStr feed), (''timeframe'', VStr timeframe)]))))"

section \<open>Lemmas\<close>

lemma stable_uuid7_contract:
  "stable_uuid7 lib t v =
     contract_uuid7 (wl_timestamp_ms lib t * 1000000) (wl_digest_int lib v AND (push_bit 74 1 - 1))"
  by (simp add: stable_uuid7_def contract_uuid7_def Let_def)

lemma make_bar_Inr: "make_bar b = Inr b' \<Longrightarrow> b' = b \<and> valid_bar b'"
  by (auto simp: make_bar_def valid_bar_def split: if_splits)

lemma parse_timeframe_Inr: "parse_timeframe s = Inr tf \<Longrightarrow> bar_timeframe_value tf = s"
  by (auto simp: parse_timeframe_def enum_parse_def find_Some_iff split: option.splits)

lemma parse_timeframe_value [simp]: "parse_timeframe (bar_timeframe_value tf) = Inr tf"
  by (cases tf) (simp_all add: parse_timeframe_def enum_parse_def bar_timeframe_members_def)

lemma market_bar_of_Inr:
  assumes "market_bar_of lib raw symbol feed timeframe is_final = Inr b"
  shows "valid_bar b \<and> mb_symbol b = symbol \<and> bar_timeframe_value (mb_timeframe b) = timeframe \<and>
     timestamp lib (raw_get raw ''t'') = Inr (mb_timestamp b) \<and> mb_feed b = feed \<and>
     mb_source b = ''alpaca'' \<and> mb_is_final b = is_final"
  using assms unfolding market_bar_of_def Let_def
  by (auto dest!: make_bar_Inr parse_timeframe_Inr)

lemma rest_bar_Inr:
  assumes "rest_bar lib feed symbol timeframe raw = Inr p"
  shows "valid_bar (pb_bar p)" "mb_symbol (pb_bar p) = symbol"
    "bar_timeframe_value (mb_timeframe (pb_bar p)) = timeframe"
    "timestamp lib (raw_get raw ''t'') = Inr (mb_timestamp (pb_bar p))" "mb_is_final (pb_bar p)"
    "market_bar_subject (mb_timeframe (pb_bar p)) symbol = Inr (pb_subject p)"
    "is_uuid7 (ee_event_id (pb_envelope p))"
    "ee_occurred_at (pb_envelope p) = mb_timestamp (pb_bar p)"
    "ee_payload (pb_envelope p) = bar_value (pb_bar p)"
  using assms unfolding rest_bar_def bar_publication_def
  by (auto dest!: market_bar_of_Inr simp: make_envelope_def is_uuid7_def split: if_splits)

section \<open>Property\<close>

text \<open>Only well-formed bars leave the normalizer: a published historical bar satisfies the OHLC
  contract, carries the requested symbol and timeframe and the record's timestamp as its own and as the
  event's, is final, has a UUIDv7 identifier that is determined by the instant and the record alone, and
  its subject is a routable one.\<close>

theorem rest_bar_well_formed:
  assumes "rest_bar lib feed symbol timeframe raw = Inr p"
  shows "valid_bar (pb_bar p) \<and> mb_symbol (pb_bar p) = symbol \<and>
    bar_timeframe_value (mb_timeframe (pb_bar p)) = timeframe \<and> mb_is_final (pb_bar p) \<and>
    timestamp lib (raw_get raw ''t'') = Inr (mb_timestamp (pb_bar p)) \<and>
    ee_occurred_at (pb_envelope p) = mb_timestamp (pb_bar p) \<and>
    ee_payload (pb_envelope p) = bar_value (pb_bar p) \<and> is_uuid7 (ee_event_id (pb_envelope p)) \<and>
    ee_event_id (pb_envelope p) = stable_uuid7 lib (mb_timestamp (pb_bar p))
      (VDict [(''bar'', VDict raw), (''feed'', VStr feed), (''timeframe'', VStr timeframe)]) \<and>
    is_ok (validate_publish_subject (pb_subject p))"
proof -
  have "is_ok (validate_publish_subject (pb_subject p))"
    using built_subject_ok [OF built_subject.intros(1) [OF rest_bar_Inr(6) [OF assms]]] by simp
  moreover have "ee_event_id (pb_envelope p) = stable_uuid7 lib (mb_timestamp (pb_bar p))
      (VDict [(''bar'', VDict raw), (''feed'', VStr feed), (''timeframe'', VStr timeframe)])"
    using assms unfolding rest_bar_def bar_publication_def
    by (auto dest!: market_bar_of_Inr simp: make_envelope_def split: if_splits)
  ultimately show ?thesis using rest_bar_Inr [OF assms] by blast
qed

text \<open>A library for evaluation: it reads integers and decimals only, and knows one timestamp.\<close>

definition demo_library :: wire_library where
  "demo_library = \<lparr> wl_decimal = (\<lambda>v. case v of VDec q \<Rightarrow> Some (Finite q) | VInt n \<Rightarrow> Some (Finite (of_int n)) | _ \<Rightarrow> None),
     wl_int = (\<lambda>v. case v of VInt n \<Rightarrow> Some n | _ \<Rightarrow> None),
     wl_fromisoformat = (\<lambda>s. if s = ''1970-01-01T00:00:01+00:00'' then Some (Aware (seconds 1) 0) else None),
     wl_timestamp_ms = (\<lambda>t. t div 1000), wl_digest_int = (\<lambda>_. 42) \<rparr>"

definition demo_record :: "(string, py_value) dict" where
  "demo_record = [(''t'', VStr ''1970-01-01T00:00:01Z''), (''o'', VDec 10), (''h'', VDec 12), (''l'', VDec 9),
     (''c'', VDec 11), (''v'', VInt 0), (''vw'', VDec 0), (''n'', VInt 0)]"

theorem rest_bar_well_formed_witness:
  "\<exists>p. rest_bar demo_library ''iex'' ''AAPL'' ''1Min'' demo_record = Inr p \<and> valid_bar (pb_bar p) \<and>
     mb_vwap (pb_bar p) = None"
proof -
  let ?r = "rest_bar demo_library ''iex'' ''AAPL'' ''1Min'' demo_record"
  have "is_ok ?r" by code_simp
  then obtain p where p: "?r = Inr p" by (auto simp: is_ok_iff)
  have "(case ?r of Inr p \<Rightarrow> mb_vwap (pb_bar p) = None | Inl _ \<Rightarrow> False)" by code_simp
  with p have "mb_vwap (pb_bar p) = None" by simp
  with rest_bar_well_formed [OF p] p show ?thesis by blast
qed

end
