(* ===== verification/Bar_Store.thy ===== *)
theory Bar_Store
  imports Market_Session
begin

text \<open>
  The shared cache of historical bars (app/integration/market_bar_repository.py over the table
  \<open>market_bars\<close> of app/persistence/models.py): coverage, upsert, prune and load. The table is a
  dictionary from the primary key to the stored row; each SQL statement of the repository is a function
  on it. The locale \<open>bar_repository\<close> is what the synchronization service relies on.
\<close>

section \<open>Table\<close>

type_synonym bar_key = "string \<times> bar_timeframe \<times> instant"

record stored_row =
  sr_bar :: market_bar
  sr_downloaded_at :: instant

type_synonym bar_table = "(bar_key, stored_row) dict"

record bar_coverage =
  bc_count :: nat
  bc_latest :: "instant option"
  bc_downloaded_at :: "instant option"

definition bar_key :: "market_bar \<Rightarrow> bar_key" where
  "bar_key b = (mb_symbol b, mb_timeframe b, mb_timestamp b)"

text \<open>\<open>Numeric(28, 8)\<close> keeps eight decimals; the amounts of a bar are not negative.\<close>

definition numeric8 :: "rat \<Rightarrow> rat" where "numeric8 q = of_int (round_half_up (q * 10 ^ 8)) / 10 ^ 8"

definition bar_columns :: "market_bar \<Rightarrow> market_bar" where
  "bar_columns b = b \<lparr> mb_open := numeric8 (mb_open b), mb_high := numeric8 (mb_high b),
     mb_low := numeric8 (mb_low b), mb_close := numeric8 (mb_close b), mb_volume := numeric8 (mb_volume b),
     mb_vwap := map_option numeric8 (mb_vwap b) \<rparr>"

text \<open>A row the columns can hold: twenty digits before the point, and a 64-bit trade count.\<close>

definition columns_fit :: "market_bar \<Rightarrow> bool" where
  "columns_fit b \<longleftrightarrow>
     (\<forall>q\<in>set ([mb_open b, mb_high b, mb_low b, mb_close b, mb_volume b] @ (case mb_vwap b of None \<Rightarrow> [] | Some v \<Rightarrow> [v])).
        numeric8 q < 10 ^ 20) \<and>
     (case mb_trade_count b of None \<Rightarrow> True | Some n \<Rightarrow> n < 2 ^ 63)"

text \<open>The check constraint on the timeframe column.\<close>

definition stored_timeframes :: "bar_timeframe list" where
  "stored_timeframes = [TF_MINUTE_1, TF_MINUTE_15, TF_HOUR_1, TF_DAY_1, TF_WEEK_1]"

section \<open>Operations\<close>

definition distinct_symbols :: "string list \<Rightarrow> string list result" where
  "distinct_symbols symbols =
     (let normalized = fromkeys (map norm_symbol symbols) in
      if normalized = [] \<or> [] \<in> set normalized
      then Inl (ValueError ''at least one non-blank symbol is required'') else Inr normalized)"

definition series_rows :: "bar_table \<Rightarrow> string \<Rightarrow> bar_timeframe \<Rightarrow> (bar_key \<times> stored_row) list" where
  "series_rows table symbol tf = filter (\<lambda>p. fst (fst p) = symbol \<and> fst (snd (fst p)) = tf) table"

definition list_max :: "instant list \<Rightarrow> instant option" where
  "list_max ts = (if ts = [] then None else Some (Max (set ts)))"

definition symbol_coverage :: "bar_table \<Rightarrow> string \<Rightarrow> bar_timeframe \<Rightarrow> bar_coverage" where
  "symbol_coverage table symbol tf =
     (let rows = series_rows table symbol tf in
      \<lparr> bc_count = length rows, bc_latest = list_max (map (\<lambda>p. snd (snd (fst p))) rows),
         bc_downloaded_at = list_max (map (\<lambda>p. sr_downloaded_at (snd p)) rows) \<rparr>)"

definition coverage :: "bar_table \<Rightarrow> string list \<Rightarrow> bar_timeframe \<Rightarrow> (string, bar_coverage) dict result" where
  "coverage table symbols tf =
     bind_result (distinct_symbols symbols) (\<lambda>normalized.
       Inr (map (\<lambda>s. (s, symbol_coverage table s tf)) normalized))"

definition write_bar :: "instant \<Rightarrow> bar_table \<Rightarrow> market_bar \<Rightarrow> bar_table" where
  "write_bar now table b = dput (bar_key b) \<lparr> sr_bar = bar_columns b, sr_downloaded_at = now \<rparr> table"

text \<open>One transaction: a row the columns or the check constraint refuse rolls all of them back.\<close>

definition upsert :: "instant \<Rightarrow> market_bar list \<Rightarrow> bar_table \<Rightarrow> (nat \<times> bar_table) result" where
  "upsert now bars table =
     (if \<exists>b\<in>set bars. mb_timeframe b \<notin> set stored_timeframes
      then Inl (RuntimeError ''violates check constraint timeframe'')
      else if \<exists>b\<in>set bars. \<not> columns_fit b then Inl (RuntimeError ''value out of range'')
      else Inr (length bars, foldl (write_bar now) table bars))"

definition newest :: "nat \<Rightarrow> (bar_key \<times> stored_row) list \<Rightarrow> instant set" where
  "newest keep rows = set (take keep (rev (sort (map (\<lambda>p. snd (snd (fst p))) rows))))"

definition prune :: "bar_timeframe \<Rightarrow> int \<Rightarrow> bar_table \<Rightarrow> (nat \<times> bar_table) result" where
  "prune tf keep table =
     (if keep < 1 then Inl (ValueError ''keep_per_symbol must be positive'')
      else if tf \<notin> set stored_timeframes then Inl (RuntimeError ''unsupported market-bar timeframe'')
      else
        let kept = filter (\<lambda>p. fst (snd (fst p)) = tf \<longrightarrow>
              snd (snd (fst p)) \<in> newest (nat keep) (series_rows table (fst (fst p)) tf)) table
        in Inr (length table - length kept, kept))"

definition load_latest :: "zone \<Rightarrow> bar_table \<Rightarrow> string list \<Rightarrow> bar_timeframe \<Rightarrow> int \<Rightarrow> bool \<Rightarrow>
    market_bar list result" where
  "load_latest z table symbols tf limit_per_symbol regular_session_only =
     (if limit_per_symbol < 1 then Inl (ValueError ''limit_per_symbol must be positive'')
      else bind_result (distinct_symbols symbols) (\<lambda>normalized.
        map_result make_bar (concat (map (\<lambda>s.
          let rows = filter (\<lambda>p. regular_session_only \<longrightarrow> session_at z (snd (snd (fst p))) = MS_REGULAR)
                (series_rows table s tf);
              ascending = sort_key mb_timestamp (map (\<lambda>p. sr_bar (snd p)) rows)
          in drop (length ascending - nat limit_per_symbol) ascending) normalized))))"

section \<open>Repository interface\<close>

locale bar_repository =
  fixes stored :: "'s \<Rightarrow> bar_key \<Rightarrow> bool"
    and covered :: "'s \<Rightarrow> string \<Rightarrow> bar_timeframe \<Rightarrow> bar_coverage"
    and written :: "instant \<Rightarrow> market_bar list \<Rightarrow> 's \<Rightarrow> 's"
  assumes stored_written: "stored (written now bars s) k \<longleftrightarrow> stored s k \<or> k \<in> bar_key ` set bars"
    and covered_count: "0 < bc_count (covered s symb tf) \<longleftrightarrow> (\<exists>t. stored s (symb, tf, t))"
    and covered_bound: "stored s (symb, tf, t) \<Longrightarrow> \<exists>l. bc_latest (covered s symb tf) = Some l \<and> t \<le> l"
    and covered_stored: "bc_latest (covered s symb tf) = Some l \<Longrightarrow> stored s (symb, tf, l)"
begin

lemma written_covers:
  assumes "b \<in> set bars"
  shows "0 < bc_count (covered (written now bars s) (mb_symbol b) (mb_timeframe b)) \<and>
    (\<exists>l. bc_latest (covered (written now bars s) (mb_symbol b) (mb_timeframe b)) = Some l \<and> mb_timestamp b \<le> l)"
proof -
  have "stored (written now bars s) (mb_symbol b, mb_timeframe b, mb_timestamp b)"
    using assms stored_written by (force simp: bar_key_def)
  then show ?thesis using covered_bound covered_count by blast
qed

lemma latest_grows:
  assumes "bc_latest (covered s symb tf) = Some l"
  shows "\<exists>l'. bc_latest (covered (written now bars s) symb tf) = Some l' \<and> l \<le> l'"
  using covered_bound covered_stored [OF assms] stored_written by blast

lemma latest_unchanged:
  assumes "\<And>b. b \<in> set bars \<Longrightarrow> (mb_symbol b, mb_timeframe b) \<noteq> (symb, tf)"
  shows "bc_latest (covered (written now bars s) symb tf) = bc_latest (covered s symb tf)"
proof -
  have same: "stored (written now bars s) (symb, tf, t) = stored s (symb, tf, t)" for t
    using assms stored_written by (auto simp: bar_key_def)
  show ?thesis
  proof (cases "bc_latest (covered s symb tf)")
    case None
    have "bc_latest (covered (written now bars s) symb tf) \<noteq> Some l" for l
    proof
      assume "bc_latest (covered (written now bars s) symb tf) = Some l"
      then have "stored s (symb, tf, l)" using covered_stored same by blast
      with covered_bound None show False by fastforce
    qed
    with None show ?thesis by (metis option.exhaust)
  next
    case (Some l)
    obtain l' where l': "bc_latest (covered (written now bars s) symb tf) = Some l'" "l \<le> l'"
      using latest_grows [OF Some] by blast
    then have "stored s (symb, tf, l')" using covered_stored same by blast
    with covered_bound Some have "l' \<le> l" by fastforce
    with l' Some show ?thesis by simp
  qed
qed

end

section \<open>The table provides it\<close>

definition row_stored :: "bar_table \<Rightarrow> bar_key \<Rightarrow> bool" where
  "row_stored table k \<longleftrightarrow> k \<in> set (dkeys table)"

definition rows_written :: "instant \<Rightarrow> market_bar list \<Rightarrow> bar_table \<Rightarrow> bar_table" where
  "rows_written now bars table = foldl (write_bar now) table bars"

lemma keys_rows_written: "set (dkeys (rows_written now bars table)) = set (dkeys table) \<union> bar_key ` set bars"
  unfolding rows_written_def
  by (induction bars arbitrary: table) (auto simp: write_bar_def dkeys_dput [simplified])

lemma dict_wf_rows_written: "dict_wf table \<Longrightarrow> dict_wf (rows_written now bars table)"
  unfolding rows_written_def
  by (induction bars arbitrary: table) (simp_all add: write_bar_def dict_simps)

lemma list_max_Some:
  "list_max ts = Some l \<longleftrightarrow> l \<in> set ts \<and> (\<forall>t\<in>set ts. t \<le> l)"
  by (auto simp: list_max_def intro: Max_eqI [symmetric] split: if_splits)
    (metis Max_eqI List.finite_set)+

lemma series_rows_keys:
  "t \<in> set (map (\<lambda>p. snd (snd (fst p))) (series_rows table symb tf)) \<longleftrightarrow> (symb, tf, t) \<in> set (dkeys table)"
  by (force simp: series_rows_def)

interpretation bar_rows: bar_repository row_stored symbol_coverage rows_written
proof
  fix now bars and s :: bar_table and k :: bar_key and symb tf t l
  show "row_stored (rows_written now bars s) k \<longleftrightarrow> row_stored s k \<or> k \<in> bar_key ` set bars"
    using keys_rows_written [of now bars s] by (auto simp: row_stored_def)
  have ex: "series_rows s symb tf \<noteq> [] \<longleftrightarrow> (\<exists>t. (symb, tf, t) \<in> set (dkeys s))"
    using series_rows_keys [of _ s symb tf] by (metis (no_types, lifting) list.map_disc_iff list.set_intros(1) empty_iff list.exhaust list.set(1))
  then show "0 < bc_count (symbol_coverage s symb tf) \<longleftrightarrow> (\<exists>t. row_stored s (symb, tf, t))"
    by (simp add: symbol_coverage_def row_stored_def Let_def)
  show "row_stored s (symb, tf, t) \<Longrightarrow> \<exists>l. bc_latest (symbol_coverage s symb tf) = Some l \<and> t \<le> l"
    using series_rows_keys [of t s symb tf]
    by (auto simp: symbol_coverage_def row_stored_def list_max_def Let_def intro: Max_ge)
  show "bc_latest (symbol_coverage s symb tf) = Some l \<Longrightarrow> row_stored s (symb, tf, l)"
    using series_rows_keys [of l s symb tf]
    by (simp add: symbol_coverage_def row_stored_def list_max_Some Let_def)
qed

section \<open>Pruning\<close>

lemma series_times_distinct:
  assumes "dict_wf table"
  shows "distinct (map (\<lambda>p. snd (snd (fst p))) (series_rows table symb tf))"
  using assms
proof (induction table)
  case (Cons p table)
  have "snd (snd (fst p)) \<notin> set (map (\<lambda>p. snd (snd (fst p))) (series_rows table symb tf))"
    if "fst (fst p) = symb" "fst (snd (fst p)) = tf"
  proof -
    have "(symb, tf, snd (snd (fst p))) = fst p" using that by (simp add: prod_eq_iff)
    moreover have "fst p \<notin> set (dkeys table)" using Cons.prems by simp
    ultimately show ?thesis unfolding series_rows_keys by argo
  qed
  with Cons show ?case by (simp add: series_rows_def)
qed (simp add: series_rows_def)

lemma newest_facts:
  fixes rows :: "(bar_key \<times> stored_row) list"
  defines "ts \<equiv> map (\<lambda>p. snd (snd (fst p))) rows"
  assumes "distinct ts"
  shows "newest keep rows \<subseteq> set ts" "card (newest keep rows) = min keep (length rows)"
    "t \<in> newest keep rows \<Longrightarrow> u \<in> set ts - newest keep rows \<Longrightarrow> u < t"
proof -
  let ?d = "rev (sort ts)"
  have new: "newest keep rows = set (take keep ?d)" by (simp add: newest_def ts_def)
  have d: "distinct ?d" "set ?d = set ts" "length ?d = length rows"
    using assms(2) by (simp_all add: ts_def)
  show "newest keep rows \<subseteq> set ts" unfolding new d(2) [symmetric] by (rule set_take_subset)
  show "card (newest keep rows) = min keep (length rows)"
    unfolding new using d by (simp add: distinct_card min.commute)
  assume "t \<in> newest keep rows" and u: "u \<in> set ts - newest keep rows"
  then obtain i where i: "i < keep" "i < length ?d" "t = ?d ! i"
    unfolding new by (auto simp: in_set_conv_nth)
  from u have "u \<in> set ?d" "u \<notin> set (take keep ?d)" by (auto simp: new d(2))
  then have "u \<in> set (drop keep ?d)" by (metis Un_iff append_take_drop_id set_append)
  then obtain j where "j < length (drop keep ?d)" "u = drop keep ?d ! j"
    by (metis in_set_conv_nth)
  then have j: "keep + j < length ?d" "u = ?d ! (keep + j)"
    by simp_all
  have "u \<le> t"
    unfolding i(3) j(2)
    by (rule sorted_rev_nth_mono) (use i j in \<open>simp_all\<close>)
  moreover have "u \<noteq> t"
    unfolding i(3) j(2) using d(1) i j by (simp add: nth_eq_iff_index_eq)
  ultimately show "u < t" by simp
qed

lemma series_rows_filter:
  "series_rows (filter (\<lambda>p. fst (snd (fst p)) = tf \<longrightarrow> Q (fst (fst p)) (snd (snd (fst p)))) table) symb tf' =
     (if tf' = tf then filter (\<lambda>p. Q symb (snd (snd (fst p)))) (series_rows table symb tf')
      else series_rows table symb tf')"
  by (auto simp: series_rows_def intro!: filter_cong)

lemma prune_Inr:
  assumes "prune tf keep table = Inr (removed, table')"
  shows "1 \<le> keep" "table' = filter (\<lambda>p. fst (snd (fst p)) = tf \<longrightarrow>
      snd (snd (fst p)) \<in> newest (nat keep) (series_rows table (fst (fst p)) tf)) table"
    "removed = length table - length table'"
  using assms by (auto simp: prune_def Let_def split: if_splits)

lemma length_filter_times:
  assumes "distinct (map f rows)" "S \<subseteq> set (map f rows)"
  shows "length (filter (\<lambda>p. f p \<in> S) rows) = card S"
proof -
  have "distinct (map f (filter (\<lambda>p. f p \<in> S) rows))"
    using assms(1) by (rule distinct_map_filter)
  moreover have "set (map f (filter (\<lambda>p. f p \<in> S) rows)) = S" using assms(2) by auto
  ultimately show ?thesis by (metis distinct_card length_map)
qed

text \<open>C17: Pruning keeps exactly the newest bars: every series of the pruned timeframe ends up with its
  \<open>keep\<close> newest rows (or all of them), every dropped row is older than every kept one of its series, the
  rows of other timeframes stay as they are and the returned count is the number of rows dropped.\<close>

theorem prune_keeps_newest:
  assumes "dict_wf table" "prune tf keep table = Inr (removed, table')"
  shows "length (series_rows table' symb tf) = min (nat keep) (length (series_rows table symb tf)) \<and>
    (\<forall>p\<in>set (series_rows table symb tf) - set (series_rows table' symb tf).
       \<forall>q\<in>set (series_rows table' symb tf). snd (snd (fst p)) < snd (snd (fst q))) \<and>
    (tf' \<noteq> tf \<longrightarrow> series_rows table' symb tf' = series_rows table symb tf') \<and>
    removed + length table' = length table"
proof -
  let ?time = "\<lambda>p :: bar_key \<times> stored_row. snd (snd (fst p))"
  let ?rows = "series_rows table symb tf" and ?N = "\<lambda>s. newest (nat keep) (series_rows table s tf)"
  note t' = prune_Inr [OF assms(2)]
  have D: "distinct (map ?time ?rows)" by (rule series_times_distinct [OF assms(1)])
  note facts = newest_facts [OF D, where keep = "nat keep"]
  have rows': "series_rows table' symb tf = filter (\<lambda>p. ?time p \<in> ?N symb) ?rows"
    unfolding t'(2) by (subst series_rows_filter [of tf "\<lambda>s t. t \<in> ?N s"]) simp
  have "length (series_rows table' symb tf) = card (?N symb)"
    unfolding rows' using D facts(1) by (rule length_filter_times)
  moreover have "\<forall>p\<in>set ?rows - set (series_rows table' symb tf). \<forall>q\<in>set (series_rows table' symb tf). ?time p < ?time q"
    unfolding rows' using facts(3) by auto
  moreover have "tf' \<noteq> tf \<Longrightarrow> series_rows table' symb tf' = series_rows table symb tf'"
    unfolding t'(2) by (subst series_rows_filter [of tf "\<lambda>s t. t \<in> ?N s"]) simp
  moreover have "length table' \<le> length table" unfolding t'(2) by (rule length_filter_le)
  ultimately show ?thesis using facts(2) t'(3) by simp
qed

definition demo_bar :: "string \<Rightarrow> bar_timeframe \<Rightarrow> instant \<Rightarrow> market_bar" where
  "demo_bar s tf t = \<lparr> mb_symbol = s, mb_timeframe = tf, mb_timestamp = t, mb_open = 10, mb_high = 12,
     mb_low = 9, mb_close = 11, mb_volume = 5, mb_trade_count = None, mb_vwap = None, mb_source = ''alpaca'',
     mb_feed = ''iex'', mb_is_final = True \<rparr>"

theorem prune_keeps_newest_witness:
  "\<exists>table'. prune TF_DAY_1 1 (rows_written 9 [demo_bar ''A'' TF_DAY_1 2, demo_bar ''A'' TF_DAY_1 1,
       demo_bar ''A'' TF_WEEK_1 1] []) = Inr (1, table') \<and> length (series_rows table' ''A'' TF_DAY_1) = 1"
proof -
  let ?t = "rows_written 9 [demo_bar ''A'' TF_DAY_1 2, demo_bar ''A'' TF_DAY_1 1, demo_bar ''A'' TF_WEEK_1 1] []"
  let ?r = "prune TF_DAY_1 1 ?t"
  have wf: "dict_wf ?t" by (simp add: dict_wf_rows_written)
  have "is_ok ?r" by code_simp
  then obtain n t' where r: "?r = Inr (n, t')" by (cases ?r) auto
  have "(case ?r of Inr p \<Rightarrow> fst p = 1 | Inl _ \<Rightarrow> False)" by code_simp
  with r have n: "n = 1" by simp
  have "length (series_rows ?t ''A'' TF_DAY_1) = 2" by code_simp
  with prune_keeps_newest [OF wf r, of "''A''" TF_WEEK_1] r n show ?thesis by simp
qed

end
