(* ===== verification/Bar_Download.thy ===== *)
theory Bar_Download
  imports Bar_Store
begin

text \<open>
  The paged download of historical bars (\<open>fetch_bars\<close> and \<open>_get\<close> of app/alpaca_market_data/rest.py).
  The HTTP transport is a parameter: what the provider replies to the n-th request of a query. The query
  keeps its boundaries as instants; their text is the transport's.
\<close>

section \<open>Client\<close>

type_synonym wire_record = "(string, py_value) dict"

record bar_client =
  cl_feed :: string
  cl_adjustment :: string
  cl_max_pages :: int

record bar_query =
  bq_adjustment :: string
  bq_end :: instant
  bq_feed :: string
  bq_limit :: int
  bq_start :: instant
  bq_symbols :: "string list"
  bq_timeframe :: string
  bq_page_token :: "string option"

text \<open>\<open>scheme\<close> and \<open>hostname\<close> are the parts \<open>urlsplit\<close> finds in the base URL.\<close>

definition make_client :: "string \<Rightarrow> string \<Rightarrow> string \<Rightarrow> string option \<Rightarrow> string \<Rightarrow> string \<Rightarrow> int \<Rightarrow>
    bar_client result" where
  "make_client api_key_id api_secret_key scheme hostname feed adjustment max_pages =
     (if strip api_key_id = [] \<or> strip api_secret_key = []
      then Inl (ValueError ''Alpaca credentials cannot be blank'')
      else if scheme \<noteq> ''https'' \<or> hostname \<noteq> Some ''data.alpaca.markets''
      then Inl (ValueError ''Alpaca REST client must use the Stock Market Data endpoint'')
      else if max_pages < 1 then Inl (ValueError ''max_pages must be positive'')
      else if adjustment \<notin> {''raw'', ''split'', ''dividend'', ''all''}
      then Inl (ValueError ''unsupported Alpaca bar adjustment'')
      else Inr \<lparr> cl_feed = feed, cl_adjustment = adjustment, cl_max_pages = max_pages \<rparr>)"

text \<open>A reply: the status code, and the decoded body unless it is not JSON.\<close>

datatype reply = TransportFailure | Reply int "py_value option"

definition reply_payload :: "reply \<Rightarrow> (string, py_value) dict result" where
  "reply_payload r =
     (case r of
        TransportFailure \<Rightarrow> Inl (RuntimeError ''Alpaca market-data request failed'')
      | Reply status body \<Rightarrow>
          if status < 200 \<or> 300 \<le> status
          then Inl (RuntimeError ''Alpaca market-data request failed with HTTP status'')
          else (case body of
              None \<Rightarrow> Inl (RuntimeError ''Alpaca market-data response is not JSON'')
            | Some (VDict payload) \<Rightarrow> Inr payload
            | Some _ \<Rightarrow> Inl (RuntimeError ''Alpaca market-data response must be an object'')))"

section \<open>Pages\<close>

definition wire_dict :: "py_value \<Rightarrow> wire_record result" where
  "wire_dict v = (case v of VDict d \<Rightarrow> Inr d | _ \<Rightarrow> Inl (RuntimeError ''Alpaca bar record is malformed''))"

definition symbol_records :: "string \<times> py_value \<Rightarrow> (string \<times> wire_record list) result" where
  "symbol_records p =
     (case snd p of
        VList records \<Rightarrow> bind_result (map_result wire_dict records) (\<lambda>ds. Inr (fst p, ds))
      | _ \<Rightarrow> Inl (RuntimeError ''Alpaca bars response is malformed''))"

definition payload_get :: "(string, py_value) dict \<Rightarrow> string \<Rightarrow> py_value" where
  "payload_get d key = (case dget d key of None \<Rightarrow> VNone | Some v \<Rightarrow> v)"

definition page_bars :: "(string, py_value) dict \<Rightarrow> (string \<times> wire_record list) list result" where
  "page_bars payload =
     (case payload_get payload ''bars'' of
        VDict raw_bars \<Rightarrow> map_result symbol_records raw_bars
      | _ \<Rightarrow> Inl (RuntimeError ''Alpaca bars response has no bars object''))"

definition page_token :: "(string, py_value) dict \<Rightarrow> string option result" where
  "page_token payload =
     (case payload_get payload ''next_page_token'' of
        VNone \<Rightarrow> Inr None
      | VStr token \<Rightarrow> if token = [] then Inl (RuntimeError ''Alpaca next page token is malformed'')
                     else Inr (Some token)
      | _ \<Rightarrow> Inl (RuntimeError ''Alpaca next page token is malformed''))"

type_synonym bar_page = "(string \<times> wire_record list) list \<times> string option"

definition read_page :: "reply \<Rightarrow> bar_page result" where
  "read_page r =
     bind_result (reply_payload r) (\<lambda>payload.
     bind_result (page_bars payload) (\<lambda>bars.
     bind_result (page_token payload) (\<lambda>token. Inr (bars, token))))"

text \<open>\<open>collected.setdefault(symbol, []).append(record)\<close> for every record of a page.\<close>

definition records_for :: "(string, wire_record list) dict \<Rightarrow> string \<Rightarrow> wire_record list" where
  "records_for d s = (case dget d s of None \<Rightarrow> [] | Some rs \<Rightarrow> rs)"

definition collect_page :: "(string, wire_record list) dict \<Rightarrow> (string \<times> wire_record list) list \<Rightarrow>
    (string, wire_record list) dict" where
  "collect_page collected bars =
     foldl (\<lambda>d p. dput (fst p) (records_for d (fst p) @ snd p) d) collected bars"

primrec fetch_pages :: "(nat \<Rightarrow> bar_query \<Rightarrow> reply) \<Rightarrow> nat \<Rightarrow> nat \<Rightarrow> bar_query \<Rightarrow>
    (string, wire_record list) dict \<Rightarrow> (string, wire_record list) dict result \<times> nat" where
  "fetch_pages get 0 tick q collected =
     (Inl (RuntimeError ''Alpaca bars pagination exceeded max_pages''), tick)"
| "fetch_pages get (Suc pages) tick q collected =
     (case read_page (get tick q) of
        Inl e \<Rightarrow> (Inl e, Suc tick)
      | Inr page \<Rightarrow>
          let collected' = collect_page collected (fst page) in
          (case snd page of
             None \<Rightarrow> (Inr collected', Suc tick)
           | Some token \<Rightarrow> fetch_pages get pages (Suc tick) (q \<lparr> bq_page_token := Some token \<rparr>) collected'))"

definition bar_query_of :: "bar_client \<Rightarrow> string list \<Rightarrow> string \<Rightarrow> instant \<Rightarrow> instant \<Rightarrow> int \<Rightarrow> bar_query" where
  "bar_query_of client normalized_symbols timeframe start end_at limit =
     \<lparr> bq_adjustment = cl_adjustment client, bq_end = end_at, bq_feed = cl_feed client, bq_limit = limit,
        bq_start = start, bq_symbols = normalized_symbols, bq_timeframe = timeframe, bq_page_token = None \<rparr>"

definition fetch_bars :: "bar_client \<Rightarrow> (nat \<Rightarrow> bar_query \<Rightarrow> reply) \<Rightarrow> nat \<Rightarrow> string list \<Rightarrow> string \<Rightarrow> instant \<Rightarrow>
    instant \<Rightarrow> int \<Rightarrow> (string, wire_record list) dict result \<times> nat" where
  "fetch_bars client get tick symbols timeframe start end_at limit =
     (case distinct_symbols symbols of
        Inl e \<Rightarrow> (Inl e, tick)
      | Inr normalized \<Rightarrow>
          if end_at \<le> start then (Inl (ValueError ''bar end must be later than start''), tick)
          else if \<not> (1 \<le> limit \<and> limit \<le> 10000)
          then (Inl (ValueError ''limit must be between 1 and 10000''), tick)
          else fetch_pages get (nat (cl_max_pages client)) tick
                 (bar_query_of client normalized timeframe start end_at limit)
                 (map (\<lambda>s. (s, [])) normalized))"

section \<open>Lemmas\<close>

text \<open>A run of pages: each is the reply to the query with the previous page's token, the last has none.\<close>

fun page_run :: "(nat \<Rightarrow> bar_query \<Rightarrow> reply) \<Rightarrow> nat \<Rightarrow> bar_query \<Rightarrow> bar_page list \<Rightarrow> bool" where
  "page_run get tick q [] = False"
| "page_run get tick q (p # ps) \<longleftrightarrow> read_page (get tick q) = Inr p \<and>
     (case snd p of
        None \<Rightarrow> ps = []
      | Some token \<Rightarrow> page_run get (Suc tick) (q \<lparr> bq_page_token := Some token \<rparr>) ps)"

definition page_records :: "string \<Rightarrow> bar_page \<Rightarrow> wire_record list" where
  "page_records s p = concat (map snd (filter (\<lambda>b. fst b = s) (fst p)))"

lemma records_for_collect:
  "records_for (collect_page d (fst p)) s = records_for d s @ page_records s p"
proof -
  have "records_for (collect_page d bars) s = records_for d s @ concat (map snd (filter (\<lambda>b. fst b = s) bars))" for bars
    unfolding collect_page_def
    by (induction bars arbitrary: d) (auto simp: records_for_def dict_simps)
  then show ?thesis by (simp add: page_records_def)
qed

lemma fetch_pages_Inr:
  assumes "fetch_pages get n tick q d = (Inr c, tick')"
  shows "\<exists>ps. page_run get tick q ps \<and> length ps \<le> n \<and> tick' = tick + length ps \<and>
    (\<forall>s. records_for c s = records_for d s @ concat (map (page_records s) ps))"
  using assms
proof (induction n arbitrary: tick q d)
  case (Suc n)
  then obtain p where p: "read_page (get tick q) = Inr p"
    by (auto split: sum.splits)
  show ?case
  proof (cases "snd p")
    case None
    with Suc.prems p have "c = collect_page d (fst p)" "tick' = Suc tick" by (simp_all add: Let_def)
    with p None show ?thesis
      by (intro exI [of _ "[p]"]) (simp add: records_for_collect)
  next
    case (Some token)
    with Suc.prems p have "fetch_pages get n (Suc tick) (q \<lparr> bq_page_token := Some token \<rparr>)
        (collect_page d (fst p)) = (Inr c, tick')" by (simp add: Let_def)
    from Suc.IH [OF this] obtain ps where
      "page_run get (Suc tick) (q \<lparr> bq_page_token := Some token \<rparr>) ps" "length ps \<le> n"
      "tick' = Suc tick + length ps"
      "\<forall>s. records_for c s = records_for (collect_page d (fst p)) s @ concat (map (page_records s) ps)"
      by blast
    with p Some show ?thesis
      by (intro exI [of _ "p # ps"]) (simp add: records_for_collect)
  qed
qed simp

lemma page_run_fetches:
  "page_run get tick q ps \<Longrightarrow> length ps \<le> n \<Longrightarrow> is_ok (fst (fetch_pages get n tick q d))"
proof (induction n arbitrary: tick q ps d)
  case 0
  then show ?case by (cases ps) auto
next
  case (Suc n)
  then obtain p ps' where ps: "ps = p # ps'" by (cases ps) auto
  with Suc show ?case
    by (cases "snd p") (auto simp: Let_def)
qed

lemma distinct_symbols_Inr:
  "distinct_symbols symbols = Inr ns \<Longrightarrow>
     ns = fromkeys (map norm_symbol symbols) \<and> ns \<noteq> [] \<and> [] \<notin> set ns"
  by (auto simp: distinct_symbols_def Let_def split: if_splits)

lemma records_for_empty: "records_for (map (\<lambda>s. (s, [])) ns) s = []"
  by (induction ns) (auto simp: records_for_def)

section \<open>Property\<close>

text \<open>A download is complete or fails: with valid arguments it succeeds exactly when the provider's
  pages, followed token by token, end within \<open>max_pages\<close>, and it then holds for every symbol the records of
  all these pages in their order.\<close>

theorem fetch_bars_complete:
  fixes client :: bar_client and timeframe :: string
  assumes "distinct_symbols symbols = Inr normalized" "start < end_at" "1 \<le> limit" "limit \<le> 10000"
  defines "q \<equiv> bar_query_of client normalized timeframe start end_at limit"
  shows "(is_ok (fst (fetch_bars client get tick symbols timeframe start end_at limit)) \<longleftrightarrow>
      (\<exists>ps. page_run get tick q ps \<and> length ps \<le> nat (cl_max_pages client))) \<and>
    (\<forall>c tick'. fetch_bars client get tick symbols timeframe start end_at limit = (Inr c, tick') \<longrightarrow>
      (\<exists>ps. page_run get tick q ps \<and> tick' = tick + length ps \<and>
        (\<forall>s. records_for c s = concat (map (page_records s) ps))))"
proof -
  let ?n = "nat (cl_max_pages client)" and ?d = "map (\<lambda>s. (s, [])) normalized"
  have run: "fetch_bars client get tick symbols timeframe start end_at limit = fetch_pages get ?n tick q ?d"
    using assms(1-4) by (simp add: fetch_bars_def q_def)
  have "\<exists>ps. page_run get tick q ps \<and> length ps \<le> ?n" if "is_ok (fst (fetch_pages get ?n tick q ?d))"
    using that fetch_pages_Inr [of get ?n tick q ?d] by (metis is_ok_iff prod.collapse)
  with page_run_fetches [of get tick q _ ?n ?d] fetch_pages_Inr [of get ?n tick q ?d] show ?thesis
    unfolding run by (auto simp: records_for_empty)
qed

definition demo_get :: "nat \<Rightarrow> bar_query \<Rightarrow> reply" where
  "demo_get n q = (if n = 0
     then Reply 200 (Some (VDict [(''bars'', VDict [(''A'', VList [VDict [(''o'', VInt 1)]])]), (''next_page_token'', VStr ''x'')]))
     else Reply 200 (Some (VDict [(''bars'', VDict [(''A'', VList [VDict [(''o'', VInt 2)]])]), (''next_page_token'', VNone)])))"

definition demo_client :: bar_client where
  "demo_client = \<lparr> cl_feed = ''iex'', cl_adjustment = ''split'', cl_max_pages = 2 \<rparr>"

theorem fetch_bars_complete_witness:
  "\<exists>c. fetch_bars demo_client demo_get 0 [''a''] ''1Day'' 0 5 100 = (Inr c, 2) \<and>
     length (records_for c ''A'') = 2 \<and>
     (\<exists>ps. page_run demo_get 0 (bar_query_of demo_client [''A''] ''1Day'' 0 5 100) ps)"
proof -
  let ?r = "fetch_bars demo_client demo_get 0 [''a''] ''1Day'' 0 5 100"
  have "distinct_symbols [''a''] = Inr [''A'']" by code_simp
  note facts = fetch_bars_complete [OF this, of 0 5 100 demo_client demo_get 0 "''1Day''"]
  have "is_ok (fst ?r)" by code_simp
  then obtain c t where r: "?r = (Inr c, t)" by (cases ?r) (auto simp: is_ok_iff)
  have "snd ?r = 2 \<and> (case fst ?r of Inr c \<Rightarrow> length (records_for c ''A'') = 2 | Inl _ \<Rightarrow> False)" by code_simp
  with r facts show ?thesis by auto
qed

end
