(* ===== verification/Market_History.thy ===== *)
theory Market_History
  imports Bar_Normalizer Bar_Download
begin

text \<open>
  The central synchronization service for historical bars (app/market_history_engine/service.py with the
  contracts of app/contracts/market_history.py). The state of a synchronization is the number of HTTP
  requests made so far and the bar table; an exception leaves what was already stored. The provider's
  replies, the database clock, fresh identifiers and the library functions of the normalizer are
  parameters.
\<close>

section \<open>Contracts\<close>

datatype history_status = HS_READY | HS_ERROR

record requirement =
  rq_timeframe :: bar_timeframe
  rq_lookback :: duration
  rq_max_bars :: int

record history_request =
  hq_request_id :: uuid
  hq_engine_id :: string
  hq_symbols :: "string list"
  hq_requirements :: "requirement list"
  hq_requested_at :: instant
  hq_force_refresh :: bool
  hq_premarket :: bool
  hq_after_hours :: bool

record history_response =
  hp_request_id :: uuid
  hp_status :: history_status
  hp_synced_through :: instant
  hp_persisted_bars :: int
  hp_error :: "string option"

definition make_requirement :: "requirement \<Rightarrow> requirement result" where
  "make_requirement r =
     (if 0 < rq_lookback r \<and> 1 \<le> rq_max_bars r \<and> rq_max_bars r \<le> 10000 then Inr r
      else Inl (ValidationError ''MarketHistoryRequirement''))"

definition make_request :: "history_request \<Rightarrow> history_request result" where
  "make_request q =
     (let q' = q \<lparr> hq_symbols := fromkeys (map norm_symbol (hq_symbols q)) \<rparr> in
      if \<not> (identifier_str (hq_engine_id q') \<and> hq_symbols q' \<noteq> [] \<and> hq_requirements q' \<noteq> []
            \<and> (\<forall>s\<in>set (hq_symbols q'). identifier_str s))
      then Inl (ValidationError ''MarketHistoryRequest'')
      else if uuid_version (hq_request_id q') \<noteq> Some 7
      then Inl (ValueError ''request_id must be a UUIDv7'')
      else if \<not> distinct (map rq_timeframe (hq_requirements q'))
      then Inl (ValueError ''requirements must contain unique timeframes'')
      else Inr q')"

definition make_response :: "history_response \<Rightarrow> history_response result" where
  "make_response p =
     (if \<not> (0 \<le> hp_persisted_bars p \<and> opt_all non_empty_str (hp_error p))
      then Inl (ValidationError ''MarketHistoryResponse'')
      else if hp_status p = HS_ERROR \<and> hp_error p = None
      then Inl (ValueError ''error response requires an error message'')
      else if hp_status p = HS_READY \<and> hp_error p \<noteq> None
      then Inl (ValueError ''ready response cannot contain an error'')
      else Inr p)"

definition valid_request :: "history_request \<Rightarrow> bool" where
  "valid_request q \<longleftrightarrow> make_request q = Inr q \<and> (\<forall>r\<in>set (hq_requirements q). make_requirement r = Inr r)"

section \<open>What to fetch\<close>

definition minimum_retention :: "bar_timeframe \<rightharpoonup> int" where
  "minimum_retention = map_of [(TF_MINUTE_1, 750), (TF_MINUTE_15, 250), (TF_HOUR_1, 650), (TF_DAY_1, 650),
     (TF_WEEK_1, 500)]"

definition overlap :: "bar_timeframe \<Rightarrow> duration result" where
  "overlap tf =
     (case map_of [(TF_MINUTE_1, minutes 2), (TF_MINUTE_15, minutes 30), (TF_HOUR_1, hours 2),
        (TF_DAY_1, days 2), (TF_WEEK_1, days 14)] tf of
        None \<Rightarrow> Inl KeyError | Some d \<Rightarrow> Inr d)"

definition no_coverage :: bar_coverage where
  "no_coverage = \<lparr> bc_count = 0, bc_latest = None, bc_downloaded_at = None \<rparr>"

definition symbol_sync_start :: "bar_coverage \<Rightarrow> requirement \<Rightarrow> instant \<Rightarrow> instant result" where
  "symbol_sync_start item req as_of =
     (if bc_count item = 0 then Inr (as_of - rq_lookback req)
      else (case bc_latest item of
          None \<Rightarrow> Inr (as_of - rq_lookback req)
        | Some latest \<Rightarrow> bind_result (overlap (rq_timeframe req)) (\<lambda>d. Inr (latest - d))))"

definition batches :: "string list \<Rightarrow> nat \<Rightarrow> string list list" where
  "batches symbols size' = chunks size' (fromkeys (map norm_symbol symbols))"

definition intraday_minutes :: "bar_timeframe \<rightharpoonup> int" where
  "intraday_minutes = map_of [(TF_MINUTE_1, 1), (TF_MINUTE_5, 5), (TF_MINUTE_15, 15)]"

definition is_current :: "bar_coverage \<Rightarrow> bar_timeframe \<Rightarrow> instant \<Rightarrow> duration \<Rightarrow> bool" where
  "is_current item tf as_of freshness \<longleftrightarrow>
     (let threshold = as_of - freshness;
          tail_threshold = (case intraday_minutes tf of
              Some m \<Rightarrow> as_of - min freshness (minutes (m + 2)) | None \<Rightarrow> threshold) in
      0 < bc_count item \<and>
      (case (bc_latest item, bc_downloaded_at item) of
         (Some latest, Some downloaded) \<Rightarrow> threshold \<le> downloaded \<and> tail_threshold \<le> max latest downloaded
       | _ \<Rightarrow> False))"

definition coverage_get :: "(string, bar_coverage) dict \<Rightarrow> string \<Rightarrow> bar_coverage" where
  "coverage_get cov s = (case dget cov s of None \<Rightarrow> no_coverage | Some item \<Rightarrow> item)"

definition stale_symbols :: "string list \<Rightarrow> (string, bar_coverage) dict \<Rightarrow> bar_timeframe \<Rightarrow> instant \<Rightarrow>
    duration \<Rightarrow> bool \<Rightarrow> string list" where
  "stale_symbols symbols cov tf as_of freshness force_refresh =
     filter (\<lambda>s. \<not> (\<not> force_refresh \<and> is_current (coverage_get cov s) tf as_of freshness))
       (fromkeys (map norm_symbol symbols))"

definition pending_sync_batches :: "string list \<Rightarrow> (string, bar_coverage) dict \<Rightarrow> requirement \<Rightarrow> instant \<Rightarrow>
    duration \<Rightarrow> nat \<Rightarrow> bool \<Rightarrow> (string list \<times> instant) list result" where
  "pending_sync_batches symbols cov req as_of freshness batch_size force_refresh =
     bind_result (map_result (\<lambda>s. bind_result (symbol_sync_start (coverage_get cov s) req as_of)
                                    (\<lambda>start. Inr (start, s)))
                    (stale_symbols symbols cov (rq_timeframe req) as_of freshness force_refresh)) (\<lambda>starts.
       Inr (concat (map (\<lambda>g. map (\<lambda>b. (b, fst g)) (batches (map snd (snd g)) batch_size))
              (group_by fst starts))))"

definition weekly_bar_is_complete :: "zone \<Rightarrow> instant \<Rightarrow> instant \<Rightarrow> bool" where
  "weekly_bar_is_complete z timestamp' as_of =
     (let local = local_of z timestamp';
          week_start = day_of local - weekday local;
          completion = days (week_start + 5)
      in completion \<le> local_of z as_of)"

section \<open>Synchronization\<close>

record world =
  wd_client :: bar_client
  wd_get :: "nat \<Rightarrow> bar_query \<Rightarrow> reply"
  wd_library :: wire_library
  wd_feed :: string
  wd_zone :: zone
  wd_now :: "nat \<Rightarrow> instant"

record sync_state =
  st_tick :: nat
  st_table :: bar_table

type_synonym 'a sync = "sync_state \<Rightarrow> 'a result \<times> sync_state"

definition and_then :: "'a sync \<Rightarrow> ('a \<Rightarrow> 'b sync) \<Rightarrow> 'b sync" where
  "and_then m f = (\<lambda>st. case m st of (Inl e, st') \<Rightarrow> (Inl e, st') | (Inr x, st') \<Rightarrow> f x st')"

definition pure :: "'a result \<Rightarrow> 'a sync" where "pure r = (\<lambda>st. (r, st))"

definition download :: "world \<Rightarrow> string list \<Rightarrow> string \<Rightarrow> instant \<Rightarrow> instant \<Rightarrow>
    (string, wire_record list) dict sync" where
  "download w symbols timeframe start end_at = (\<lambda>st.
     case fetch_bars (wd_client w) (wd_get w) (st_tick st) symbols timeframe start end_at 10000 of
       (r, tick) \<Rightarrow> (r, st \<lparr> st_tick := tick \<rparr>))"

definition store_bars :: "world \<Rightarrow> market_bar list \<Rightarrow> nat sync" where
  "store_bars w bars = (\<lambda>st.
     case upsert (wd_now w (st_tick st)) bars (st_table st) of
       Inl e \<Rightarrow> (Inl e, st) | Inr (n, table) \<Rightarrow> (Inr n, st \<lparr> st_table := table \<rparr>))"

definition normalize_symbol :: "world \<Rightarrow> (string, wire_record list) dict \<Rightarrow> requirement \<Rightarrow> instant \<Rightarrow> string \<Rightarrow>
    market_bar list result" where
  "normalize_symbol w raw req as_of symbol =
     bind_result (analytical_storage_limit (rq_timeframe req) (rq_max_bars req)) (\<lambda>storage_limit.
       let all = records_for raw symbol; records = drop (length all - nat storage_limit) all in
       bind_result (map_result (\<lambda>record'. rest_bar (wd_library w) (wd_feed w) symbol
                                 (bar_timeframe_value (rq_timeframe req)) record') records) (\<lambda>pubs.
         Inr (filter (\<lambda>b. \<not> (mb_timeframe b = TF_WEEK_1 \<and>
                            \<not> weekly_bar_is_complete (wd_zone w) (mb_timestamp b) as_of)) (map pb_bar pubs))))"

definition normalize_bars :: "world \<Rightarrow> (string, wire_record list) dict \<Rightarrow> string list \<Rightarrow> requirement \<Rightarrow>
    instant \<Rightarrow> market_bar list result" where
  "normalize_bars w raw batch req as_of =
     bind_result (map_result (normalize_symbol w raw req as_of) batch) (\<lambda>bars. Inr (concat bars))"

definition sync_batch :: "world \<Rightarrow> history_request \<Rightarrow> requirement \<Rightarrow> string list \<times> instant \<Rightarrow> nat sync" where
  "sync_batch w q req b =
     and_then (download w (fst b) (bar_timeframe_value (rq_timeframe req)) (snd b) (hq_requested_at q)) (\<lambda>raw.
     and_then (pure (normalize_bars w raw (fst b) req (hq_requested_at q))) (\<lambda>bars.
       store_bars w bars))"

fun sync_batches :: "world \<Rightarrow> history_request \<Rightarrow> requirement \<Rightarrow> (string list \<times> instant) list \<Rightarrow> nat sync" where
  "sync_batches w q req [] = pure (Inr 0)"
| "sync_batches w q req (b # bs) =
     and_then (sync_batch w q req b) (\<lambda>n. and_then (sync_batches w q req bs) (\<lambda>m. pure (Inr (n + m))))"

definition sync_requirement :: "world \<Rightarrow> duration \<Rightarrow> nat \<Rightarrow> history_request \<Rightarrow> requirement \<Rightarrow> nat sync" where
  "sync_requirement w freshness batch_size q req = (\<lambda>st.
     and_then (pure (bind_result (coverage (st_table st) (hq_symbols q) (rq_timeframe req)) (\<lambda>cov.
         pending_sync_batches (hq_symbols q) cov req (hq_requested_at q) freshness batch_size
           (hq_force_refresh q)))) (sync_batches w q req) st)"

fun sync_requirements :: "world \<Rightarrow> duration \<Rightarrow> nat \<Rightarrow> history_request \<Rightarrow> requirement list \<Rightarrow> nat sync" where
  "sync_requirements w freshness batch_size q [] = pure (Inr 0)"
| "sync_requirements w freshness batch_size q (r # rs) =
     and_then (sync_requirement w freshness batch_size q r) (\<lambda>n.
     and_then (sync_requirements w freshness batch_size q rs) (\<lambda>m. pure (Inr (n + m))))"

definition sync_request :: "world \<Rightarrow> duration \<Rightarrow> nat \<Rightarrow> history_request \<Rightarrow> nat sync" where
  "sync_request w freshness batch_size q = sync_requirements w freshness batch_size q (hq_requirements q)"

section \<open>Service\<close>

record service =
  sv_batch_size :: nat
  sv_freshness :: duration
  sv_registered :: "(string, history_request) dict"

definition make_service :: "int \<Rightarrow> duration \<Rightarrow> service result" where
  "make_service batch_size freshness =
     (if batch_size < 1 then Inl (ValueError ''batch_size must be positive'')
      else if freshness \<le> 0 then Inl (ValueError ''freshness must be positive'')
      else Inr \<lparr> sv_batch_size = nat batch_size, sv_freshness = freshness, sv_registered = [] \<rparr>)"

definition widen :: "requirement \<Rightarrow> requirement \<Rightarrow> requirement" where
  "widen existing item = \<lparr> rq_timeframe = rq_timeframe item,
     rq_lookback = max (rq_lookback existing) (rq_lookback item),
     rq_max_bars = max (rq_max_bars existing) (rq_max_bars item) \<rparr>"

text \<open>The shared loop of both merges: one requirement per key, widened by every later one. The
  constructor accepts every widening of requirements it accepted, so it is run once at the end.\<close>

definition merge_requirement :: "'k \<Rightarrow> requirement \<Rightarrow> ('k, requirement) dict \<Rightarrow> ('k, requirement) dict" where
  "merge_requirement k item d =
     dput k (case dget d k of None \<Rightarrow> item | Some existing \<Rightarrow> widen existing item) d"

definition merge_requirements :: "('k \<times> requirement) list \<Rightarrow> ('k, requirement) dict \<Rightarrow>
    ('k, requirement) dict" where
  "merge_requirements items d = foldl (\<lambda>d p. merge_requirement (fst p) (snd p) d) d items"

definition merge_engine_request :: "uuid \<Rightarrow> history_request \<Rightarrow> history_request \<Rightarrow> history_request result" where
  "merge_engine_request fresh_id previous current =
     (let requirements = merge_requirements (map (\<lambda>r. (rq_timeframe r, r)) (hq_requirements current))
            (foldl (\<lambda>d r. dput (rq_timeframe r) r d) [] (hq_requirements previous))
      in bind_result (map_result make_requirement (dvalues requirements)) (\<lambda>rs.
         make_request \<lparr> hq_request_id = fresh_id, hq_engine_id = hq_engine_id current,
           hq_symbols = fromkeys (hq_symbols previous @ hq_symbols current), hq_requirements = rs,
           hq_requested_at = hq_requested_at current, hq_force_refresh = False, hq_premarket = False,
           hq_after_hours = False \<rparr>))"

text \<open>Decimal digits of the index in the identifier of a refresh request.\<close>

definition refresh_engine_id :: "nat \<Rightarrow> string" where
  "refresh_engine_id index = ''market-history-hourly-'' @ digit_string index"

definition request_items :: "history_request list \<Rightarrow> ((string \<times> bar_timeframe) \<times> requirement) list" where
  "request_items requests =
     concat (map (\<lambda>q. concat (map (\<lambda>s. map (\<lambda>r. ((s, rq_timeframe r), r)) (hq_requirements q)) (hq_symbols q)))
       requests)"

definition refresh_request :: "instant \<Rightarrow> (nat \<Rightarrow> uuid) \<Rightarrow>
    nat \<times> (bar_timeframe \<times> duration \<times> int) \<times> ((string \<times> bar_timeframe) \<times> requirement) list \<Rightarrow>
    history_request result" where
  "refresh_request as_of fresh_id g =
     (case g of (index, (tf, lookback, max_bars), items) \<Rightarrow>
        bind_result (make_requirement \<lparr> rq_timeframe = tf, rq_lookback = lookback, rq_max_bars = max_bars \<rparr>) (\<lambda>r.
          make_request \<lparr> hq_request_id = fresh_id index, hq_engine_id = refresh_engine_id index,
            hq_symbols = map (\<lambda>p. fst (fst p)) items, hq_requirements = [r], hq_requested_at = as_of,
            hq_force_refresh = False, hq_premarket = False, hq_after_hours = False \<rparr>))"

definition refresh_requests :: "(nat \<Rightarrow> uuid) \<Rightarrow> history_request list \<Rightarrow> instant \<Rightarrow> history_request list result" where
  "refresh_requests fresh_id requests as_of =
     (let per_symbol = merge_requirements (request_items requests) [];
          grouped = group_by (\<lambda>p. (snd (fst p), rq_lookback (snd p), rq_max_bars (snd p))) per_symbol
      in map_result (refresh_request as_of fresh_id) (zip [1..<Suc (length grouped)] grouped))"

definition ready_response :: "history_request \<Rightarrow> instant \<Rightarrow> nat \<Rightarrow> history_response result" where
  "ready_response q through persisted =
     make_response \<lparr> hp_request_id = hq_request_id q, hp_status = HS_READY, hp_synced_through = through,
       hp_persisted_bars = int persisted, hp_error = None \<rparr>"

text \<open>\<open>ensure\<close> registers the request, unless it is a forced repair, before it synchronizes.\<close>

definition registered_after :: "uuid \<Rightarrow> history_request \<Rightarrow> service \<Rightarrow> service result" where
  "registered_after fresh_id q sv =
     (if hq_force_refresh q then Inr sv
      else bind_result (case dget (sv_registered sv) (hq_engine_id q) of
               None \<Rightarrow> Inr q | Some previous \<Rightarrow> merge_engine_request fresh_id previous q)
             (\<lambda>merged. Inr (sv \<lparr> sv_registered := dput (hq_engine_id q) merged (sv_registered sv) \<rparr>)))"

definition ensure :: "world \<Rightarrow> uuid \<Rightarrow> history_request \<Rightarrow> service \<times> sync_state \<Rightarrow>
    history_response result \<times> service \<times> sync_state" where
  "ensure w fresh_id q s =
     (case registered_after fresh_id q (fst s) of
        Inl e \<Rightarrow> (Inl e, s)
      | Inr sv \<Rightarrow>
          (case sync_request w (sv_freshness sv) (sv_batch_size sv) q (snd s) of
             (Inl e, st) \<Rightarrow> (Inl e, sv, st)
           | (Inr n, st) \<Rightarrow> (ready_response q (hq_requested_at q) n, sv, st)))"

fun refresh_each :: "world \<Rightarrow> service \<Rightarrow> instant \<Rightarrow> history_request list \<Rightarrow> history_response list sync" where
  "refresh_each w sv as_of [] = pure (Inr [])"
| "refresh_each w sv as_of (q # qs) =
     and_then (sync_request w (sv_freshness sv) (sv_batch_size sv) q) (\<lambda>n.
     and_then (pure (ready_response q as_of n)) (\<lambda>p.
     and_then (refresh_each w sv as_of qs) (\<lambda>ps. pure (Inr (p # ps)))))"

definition refresh_registered :: "world \<Rightarrow> (nat \<Rightarrow> uuid) \<Rightarrow> service \<Rightarrow> instant \<Rightarrow> history_response list sync" where
  "refresh_registered w fresh_id sv as_of =
     (if sv_registered sv = [] then pure (Inr [])
      else and_then (pure (refresh_requests fresh_id (dvalues (sv_registered sv)) as_of))
             (refresh_each w sv as_of))"

text \<open>The first loop of \<open>retention_limits\<close>, over every registered requirement.\<close>

fun required_bars :: "requirement list \<Rightarrow> (bar_timeframe, int) dict \<Rightarrow> (bar_timeframe, int) dict result" where
  "required_bars [] required = Inr required"
| "required_bars (r # rs) required =
     bind_result (analytical_storage_limit (rq_timeframe r) (rq_max_bars r)) (\<lambda>limit.
       required_bars rs (dput (rq_timeframe r)
         (max (case dget required (rq_timeframe r) of None \<Rightarrow> 0 | Some n \<Rightarrow> n) limit) required))"

definition retention_limits :: "service \<Rightarrow> (bar_timeframe, int) dict result" where
  "retention_limits sv =
     bind_result (required_bars (concat (map hq_requirements (dvalues (sv_registered sv)))) []) (\<lambda>required.
       map_result (\<lambda>(tf, count). case minimum_retention tf of
           None \<Rightarrow> Inl KeyError
         | Some least \<Rightarrow> Inr (tf, max least (count + max 50 (count div 4)))) required)"

section \<open>Lemmas on batches\<close>

lemma map_result_keeps:
  assumes "map_result f xs = Inr ys" "\<And>x y. x \<in> set xs \<Longrightarrow> f x = Inr y \<Longrightarrow> g y = h x"
  shows "map g ys = map h xs"
  using assms by (induction xs arbitrary: ys) auto

lemma pending_Inr:
  assumes "pending_sync_batches symbols cov req as_of freshness batch_size force = Inr bs"
  obtains starts where
    "map_result (\<lambda>s. bind_result (symbol_sync_start (coverage_get cov s) req as_of) (\<lambda>t. Inr (t, s)))
       (stale_symbols symbols cov (rq_timeframe req) as_of freshness force) = Inr starts"
    "bs = concat (map (\<lambda>g. map (\<lambda>b. (b, fst g)) (batches (map snd (snd g)) batch_size)) (group_by fst starts))"
    "map snd starts = stale_symbols symbols cov (rq_timeframe req) as_of freshness force"
    "\<And>t s. (t, s) \<in> set starts \<Longrightarrow> symbol_sync_start (coverage_get cov s) req as_of = Inr t"
proof -
  let ?f = "\<lambda>s. bind_result (symbol_sync_start (coverage_get cov s) req as_of) (\<lambda>t. Inr (t, s))"
  obtain starts where starts: "map_result ?f (stale_symbols symbols cov (rq_timeframe req) as_of freshness force) = Inr starts"
    "bs = concat (map (\<lambda>g. map (\<lambda>b. (b, fst g)) (batches (map snd (snd g)) batch_size)) (group_by fst starts))"
    using assms by (auto simp: pending_sync_batches_def)
  have "map snd starts = map id (stale_symbols symbols cov (rq_timeframe req) as_of freshness force)"
    using starts(1) by (rule map_result_keeps) auto
  moreover have "symbol_sync_start (coverage_get cov s) req as_of = Inr t" if "(t, s) \<in> set starts" for t s
    using map_result_Inr [OF starts(1)] that by (auto simp: list_all2_conv_all_nth in_set_conv_nth)
  ultimately show thesis using starts that by simp
qed

lemma stale_symbols_normal:
  "distinct (stale_symbols symbols cov tf as_of freshness force)"
  "s \<in> set (stale_symbols symbols cov tf as_of freshness force) \<Longrightarrow> norm_symbol s = s"
  by (auto simp: stale_symbols_def)

lemma batches_normal:
  assumes "distinct ss" "\<forall>s\<in>set ss. norm_symbol s = s"
  shows "batches ss n = chunks n ss"
proof -
  have "map norm_symbol ss = ss" using assms(2) by (simp add: map_idI)
  with assms(1) show ?thesis by (simp add: batches_def fromkeys_distinct)
qed

text \<open>Each group holds normal, distinct symbols, so batching only cuts it.\<close>

lemma group_batches:
  assumes "map snd starts = ss" "distinct ss" "\<forall>s\<in>set ss. norm_symbol s = s" "g \<in> set (group_by fst starts)"
  shows "batches (map snd (snd g)) n = chunks n (map snd (snd g))"
    "snd g = filter (\<lambda>p. fst p = fst g) starts"
proof -
  show g: "snd g = filter (\<lambda>p. fst p = fst g) starts"
    using assms(4) set_group_by [of "fst g" "snd g" fst starts] by simp
  have "distinct (map snd (snd g))"
    unfolding g using assms(1,2) by (simp add: distinct_map_filter)
  moreover have "\<forall>s\<in>set (map snd (snd g)). norm_symbol s = s" using assms(1,3) g by force
  ultimately show "batches (map snd (snd g)) n = chunks n (map snd (snd g))" by (rule batches_normal)
qed

lemma map_fst_concat:
  "concat (map fst (concat (map (\<lambda>g. map (\<lambda>b. (b, t g)) (f g)) gs))) = concat (map (\<lambda>g. concat (f g)) gs)"
  by (induction gs) (simp_all add: comp_def)

lemma pending_concat:
  assumes "pending_sync_batches symbols cov req as_of freshness batch_size force = Inr bs" "0 < batch_size"
  shows "mset (concat (map fst bs)) = mset (stale_symbols symbols cov (rq_timeframe req) as_of freshness force)"
proof -
  let ?ss = "stale_symbols symbols cov (rq_timeframe req) as_of freshness force"
  obtain starts where st: "bs = concat (map (\<lambda>g. map (\<lambda>b. (b, fst g)) (batches (map snd (snd g)) batch_size)) (group_by fst starts))"
      "map snd starts = ?ss"
    by (rule pending_Inr [OF assms(1)])
  have normal: "\<forall>s\<in>set ?ss. norm_symbol s = s" "distinct ?ss" by (simp_all add: stale_symbols_normal)
  have "concat (map fst bs) = concat (map (\<lambda>g. concat (batches (map snd (snd g)) batch_size)) (group_by fst starts))"
    unfolding st(1) map_fst_concat by simp
  also have "\<dots> = concat (map (\<lambda>g. map snd (snd g)) (group_by fst starts))"
    using group_batches(1) [OF st(2) normal(2,1)] assms(2)
    by (intro arg_cong [of _ _ concat] map_cong) simp_all
  also have "\<dots> = map snd (concat (dvalues (group_by fst starts)))" by (simp add: map_concat comp_def)
  finally have "mset (concat (map fst bs)) = image_mset snd (mset (concat (dvalues (group_by fst starts))))"
    by simp
  then show ?thesis using st(2) by (metis mset_concat_group_by mset_map)
qed

lemma pending_member:
  assumes "pending_sync_batches symbols cov req as_of freshness batch_size force = Inr bs" "(b, t) \<in> set bs"
  shows "b \<noteq> [] \<and> length b \<le> batch_size \<and>
    (\<forall>s\<in>set b. symbol_sync_start (coverage_get cov s) req as_of = Inr t \<and>
       s \<in> set (stale_symbols symbols cov (rq_timeframe req) as_of freshness force))"
proof -
  let ?ss = "stale_symbols symbols cov (rq_timeframe req) as_of freshness force"
  obtain starts where st: "bs = concat (map (\<lambda>g. map (\<lambda>b. (b, fst g)) (batches (map snd (snd g)) batch_size)) (group_by fst starts))"
      "map snd starts = ?ss" "\<And>t s. (t, s) \<in> set starts \<Longrightarrow> symbol_sync_start (coverage_get cov s) req as_of = Inr t"
    using pending_Inr [OF assms(1)] that by blast
  have normal: "\<forall>s\<in>set ?ss. norm_symbol s = s" "distinct ?ss" by (simp_all add: stale_symbols_normal)
  from assms(2) st(1) obtain g where g: "g \<in> set (group_by fst starts)" "t = fst g"
      "b \<in> set (batches (map snd (snd g)) batch_size)" by auto
  note gb = group_batches [OF st(2) normal(2,1) g(1)]
  from g(3) have b: "b \<in> set (chunks batch_size (map snd (snd g)))" unfolding gb(1) .
  have "\<forall>s\<in>set b. (t, s) \<in> set starts" using chunks_member [OF b] gb(2) g(2) by auto
  moreover have "s \<in> set ?ss" if "(t, s) \<in> set starts" for s
    using that unfolding st(2) [symmetric] by force
  ultimately show ?thesis using chunks_bounds [OF b] st(3) by blast
qed

section \<open>Lemmas on runs\<close>

lemma and_then_Inr:
  "and_then m f st = (Inr y, st') \<longleftrightarrow> (\<exists>x st1. m st = (Inr x, st1) \<and> f x st1 = (Inr y, st'))"
  by (auto simp: and_then_def split: prod.splits sum.splits)

lemma pure_Inr [simp]: "pure r st = (Inr y, st') \<longleftrightarrow> r = Inr y \<and> st' = st"
  by (auto simp: pure_def)

lemma map_result_member: "map_result f xs = Inr ys \<Longrightarrow> y \<in> set ys \<Longrightarrow> \<exists>x\<in>set xs. f x = Inr y"
  by (induction xs arbitrary: ys) auto

lemma normalize_bars_member:
  assumes "normalize_bars w raw batch req as_of = Inr bars" "b \<in> set bars"
  shows "valid_bar b \<and> mb_symbol b \<in> set batch \<and> mb_timeframe b = rq_timeframe req \<and>
    (mb_timeframe b = TF_WEEK_1 \<longrightarrow> weekly_bar_is_complete (wd_zone w) (mb_timestamp b) as_of)"
proof -
  from assms obtain lists where "map_result (normalize_symbol w raw req as_of) batch = Inr lists" "b \<in> set (concat lists)"
    by (auto simp: normalize_bars_def)
  then obtain symbol out where out: "symbol \<in> set batch" "normalize_symbol w raw req as_of symbol = Inr out" "b \<in> set out"
    using map_result_member by (metis set_concat UN_E)
  then obtain pubs records where pubs: "map_result (\<lambda>record'. rest_bar (wd_library w) (wd_feed w) symbol
        (bar_timeframe_value (rq_timeframe req)) record') records = Inr pubs" "b \<in> set (map pb_bar pubs)"
      "mb_timeframe b = TF_WEEK_1 \<longrightarrow> weekly_bar_is_complete (wd_zone w) (mb_timestamp b) as_of"
    by (auto simp: normalize_symbol_def Let_def)
  then obtain p r where p: "rest_bar (wd_library w) (wd_feed w) symbol (bar_timeframe_value (rq_timeframe req)) r = Inr p"
      "b = pb_bar p" using map_result_member [OF pubs(1)] pubs(2) by (metis (no_types, lifting) image_iff list.set_map)
  have "mb_timeframe b = rq_timeframe req"
    using rest_bar_Inr(3) [OF p(1)] unfolding p(2) by (rule bar_timeframe_enum.wire_inj)
  with rest_bar_Inr(1,2) [OF p(1)] p(2) out(1) pubs(3) show ?thesis by simp
qed

section \<open>What a synchronization writes\<close>

inductive writes :: "(market_bar \<Rightarrow> bool) \<Rightarrow> bar_table \<Rightarrow> bar_table \<Rightarrow> bool" for P where
  writes_refl: "writes P t t"
| writes_step: "writes P t t' \<Longrightarrow> \<forall>b\<in>set bars. P b \<Longrightarrow> writes P t (rows_written now bars t')"

lemma writes_trans: "writes P t' t'' \<Longrightarrow> writes P t t' \<Longrightarrow> writes P t t''"
  by (induction rule: writes.induct) (auto intro: writes.intros)

lemma writes_mono: "writes P t t' \<Longrightarrow> (\<And>b. P b \<Longrightarrow> Q b) \<Longrightarrow> writes Q t t'"
  by (induction rule: writes.induct) (auto intro: writes.intros)

lemma writes_latest:
  "writes P t t' \<Longrightarrow> bc_latest (symbol_coverage t s tf) = Some l \<Longrightarrow>
     \<exists>l'. bc_latest (symbol_coverage t' s tf) = Some l' \<and> l \<le> l'"
proof (induction rule: writes.induct)
  case (writes_step t t' bars now)
  then show ?case using bar_rows.latest_grows by (meson order_trans)
qed simp

lemma writes_other_series:
  assumes "writes P t t'" "\<And>b. P b \<Longrightarrow> (mb_symbol b, mb_timeframe b) \<noteq> (s, tf)"
  shows "bc_latest (symbol_coverage t' s tf) = bc_latest (symbol_coverage t s tf)"
  using assms by (induction rule: writes.induct) (auto simp: bar_rows.latest_unchanged)

lemma dget_rows_written:
  "dget (rows_written now bars t) k = Some row \<Longrightarrow> dget t k = Some row \<or>
     (\<exists>b\<in>set bars. bar_key b = k \<and> sr_bar row = bar_columns b)"
  unfolding rows_written_def
proof (induction bars arbitrary: t)
  case (Cons b bars)
  from Cons.IH [of "write_bar now t b"] Cons.prems show ?case
    by (auto simp: write_bar_def dict_simps split: if_splits)
qed simp

lemma writes_rows:
  "writes P t t' \<Longrightarrow> dget t' k = Some row \<Longrightarrow> dget t k = Some row \<or>
     (\<exists>b. P b \<and> bar_key b = k \<and> sr_bar row = bar_columns b)"
  by (induction rule: writes.induct) (blast dest: dget_rows_written)+

definition fetched_for :: "world \<Rightarrow> instant \<Rightarrow> string list \<Rightarrow> bar_timeframe list \<Rightarrow> market_bar \<Rightarrow> bool" where
  "fetched_for w as_of symbols tfs b \<longleftrightarrow> valid_bar b \<and> mb_symbol b \<in> set symbols \<and> mb_timeframe b \<in> set tfs \<and>
     (mb_timeframe b = TF_WEEK_1 \<longrightarrow> weekly_bar_is_complete (wd_zone w) (mb_timestamp b) as_of)"

text \<open>A run that writes such bars only, whether it ends well or not.\<close>

definition run_writes :: "(market_bar \<Rightarrow> bool) \<Rightarrow> 'a sync \<Rightarrow> bool" where
  "run_writes P m \<longleftrightarrow> (\<forall>st. writes P (st_table st) (st_table (snd (m st))))"

lemma run_writes_pure [simp]: "run_writes P (pure r)"
  by (simp add: run_writes_def pure_def writes_refl)

lemma run_writes_and_then:
  assumes "run_writes P m" "\<And>st x st'. m st = (Inr x, st') \<Longrightarrow> run_writes P (f x)"
  shows "run_writes P (and_then m f)"
  unfolding run_writes_def
proof
  fix st
  obtain r st1 where m: "m st = (r, st1)" by (cases "m st")
  with assms(1) have one: "writes P (st_table st) (st_table st1)" by (metis run_writes_def snd_conv)
  show "writes P (st_table st) (st_table (snd (and_then m f st)))"
  proof (cases r)
    case (Inr x)
    with assms(2) m have "writes P (st_table st1) (st_table (snd (f x st1)))"
      by (simp add: run_writes_def)
    with one Inr m show ?thesis by (simp add: and_then_def writes_trans)
  qed (use m one in \<open>simp add: and_then_def\<close>)
qed

lemma run_writes_download [simp]: "run_writes P (download w symbols timeframe start end_at)"
  by (simp add: run_writes_def download_def writes_refl split: prod.splits)

lemma run_writes_store: "\<forall>b\<in>set bars. P b \<Longrightarrow> run_writes P (store_bars w bars)"
  unfolding run_writes_def store_bars_def upsert_def
  by (auto simp: writes_refl rows_written_def [symmetric] intro: writes.intros split: sum.splits if_splits)

lemma run_writes_batch:
  assumes "set (fst b) \<subseteq> set symbols" "rq_timeframe req \<in> set tfs"
  shows "run_writes (fetched_for w (hq_requested_at q) symbols tfs) (sync_batch w q req b)"
  unfolding sync_batch_def
proof (intro run_writes_and_then run_writes_download run_writes_pure)
  fix raw bars st st'
  assume "pure (normalize_bars w raw (fst b) req (hq_requested_at q)) st = (Inr bars, st')"
  then have n: "normalize_bars w raw (fst b) req (hq_requested_at q) = Inr bars" by simp
  show "run_writes (fetched_for w (hq_requested_at q) symbols tfs) (store_bars w bars)"
    using normalize_bars_member [OF n] assms by (intro run_writes_store) (auto simp: fetched_for_def)
qed

lemma run_writes_batches:
  assumes "\<forall>b\<in>set bs. set (fst b) \<subseteq> set symbols" "rq_timeframe req \<in> set tfs"
  shows "run_writes (fetched_for w (hq_requested_at q) symbols tfs) (sync_batches w q req bs)"
  using assms(1)
  by (induction bs) (auto intro!: run_writes_and_then run_writes_batch assms(2))

abbreviation request_symbols :: "history_request \<Rightarrow> string list" where
  "request_symbols q \<equiv> fromkeys (map norm_symbol (hq_symbols q))"

lemma run_writes_requirement:
  assumes "rq_timeframe req \<in> set tfs"
  shows "run_writes (fetched_for w (hq_requested_at q) (request_symbols q) tfs)
    (sync_requirement w freshness batch_size q req)"
proof -
  let ?P = "fetched_for w (hq_requested_at q) (request_symbols q) tfs"
  have "writes ?P (st_table st) (st_table (snd (sync_requirement w freshness batch_size q req st)))" for st
  proof -
    let ?r = "bind_result (coverage (st_table st) (hq_symbols q) (rq_timeframe req)) (\<lambda>cov.
         pending_sync_batches (hq_symbols q) cov req (hq_requested_at q) freshness batch_size (hq_force_refresh q))"
    have "run_writes ?P (and_then (pure ?r) (sync_batches w q req))"
    proof (intro run_writes_and_then run_writes_pure)
      fix st0 bs st1
      assume "pure ?r st0 = (Inr bs, st1)"
      then obtain cov where pend: "pending_sync_batches (hq_symbols q) cov req (hq_requested_at q) freshness
          batch_size (hq_force_refresh q) = Inr bs" by auto
      have "set (fst b) \<subseteq> set (request_symbols q)" if "b \<in> set bs" for b
        using pending_member [OF pend, of "fst b" "snd b"] that by (auto simp: stale_symbols_def)
      then show "run_writes ?P (sync_batches w q req bs)" using assms by (intro run_writes_batches) auto
    qed
    then show ?thesis by (simp add: run_writes_def sync_requirement_def)
  qed
  then show ?thesis by (simp add: run_writes_def)
qed

lemma run_writes_requirements:
  "set (map rq_timeframe rs) \<subseteq> set tfs \<Longrightarrow>
   run_writes (fetched_for w (hq_requested_at q) (request_symbols q) tfs)
     (sync_requirements w freshness batch_size q rs)"
  by (induction rs) (auto intro!: run_writes_and_then run_writes_requirement)

lemma sync_request_writes:
  "writes (fetched_for w (hq_requested_at q) (request_symbols q) (map rq_timeframe (hq_requirements q)))
     (st_table st) (st_table (snd (sync_request w freshness batch_size q st)))"
  using run_writes_requirements [of "hq_requirements q" "map rq_timeframe (hq_requirements q)"]
  by (simp add: run_writes_def sync_request_def)

section \<open>Nothing to do\<close>

lemma dget_coverage:
  assumes "coverage table symbols tf = Inr cov" "s \<in> set (fromkeys (map norm_symbol symbols))"
  shows "coverage_get cov s = symbol_coverage table s tf"
proof -
  from assms(1) have "cov = map (\<lambda>s. (s, symbol_coverage table s tf)) (fromkeys (map norm_symbol symbols))"
    by (auto simp: coverage_def dest: distinct_symbols_Inr)
  with assms(2) have "dget cov s = Some (symbol_coverage table s tf)" by (simp add: map_of_map_restrict restrict_map_def)
  then show ?thesis by (simp add: coverage_get_def)
qed

lemma sync_requirement_current:
  assumes "\<not> hq_force_refresh q" "distinct_symbols (hq_symbols q) = Inr ns"
    "\<forall>s\<in>set ns. is_current (symbol_coverage (st_table st) s (rq_timeframe req)) (rq_timeframe req)
       (hq_requested_at q) freshness"
  shows "sync_requirement w freshness batch_size q req st = (Inr 0, st)"
proof -
  have ns: "ns = fromkeys (map norm_symbol (hq_symbols q))" using distinct_symbols_Inr [OF assms(2)] by simp
  obtain cov where cov: "coverage (st_table st) (hq_symbols q) (rq_timeframe req) = Inr cov"
    using assms(2) by (simp add: coverage_def)
  have "stale_symbols (hq_symbols q) cov (rq_timeframe req) (hq_requested_at q) freshness (hq_force_refresh q) = []"
    unfolding stale_symbols_def filter_empty_conv using assms(1,3) dget_coverage [OF cov] ns by auto
  then have "pending_sync_batches (hq_symbols q) cov req (hq_requested_at q) freshness batch_size
      (hq_force_refresh q) = Inr []" by (simp add: pending_sync_batches_def group_by_def)
  with cov show ?thesis by (simp add: sync_requirement_def and_then_def pure_def)
qed

end
