(* ===== verification/History_Service.thy ===== *)
theory History_Service
  imports Market_History
begin

text \<open>
  What the history service (Market_History) guarantees: which symbols a synchronization fetches, what it
  may write, what the registry of engine requests keeps, what the hourly refresh asks for and how much
  the retention policy keeps.
\<close>

section \<open>Merging requirements\<close>

lemma keys_dget: "k \<in> set (dkeys d) \<longleftrightarrow> dget d k \<noteq> None"
  by (simp only: dget_None_keys not_not)

definition requirements_for :: "'k \<Rightarrow> ('k \<times> requirement) list \<Rightarrow> ('k, requirement) dict \<Rightarrow> requirement list" where
  "requirements_for k items d =
     (case dget d k of None \<Rightarrow> [] | Some r \<Rightarrow> [r]) @ map snd (filter (\<lambda>p. fst p = k) items)"

definition widest :: "requirement list \<Rightarrow> requirement option" where
  "widest rs = (case rs of [] \<Rightarrow> None | r # rs' \<Rightarrow> Some (foldl widen r rs'))"

lemma dget_merge_requirements:
  "dget (merge_requirements items d) k = widest (requirements_for k items d)"
proof (induction items arbitrary: d)
  case (Cons p items)
  let ?d = "merge_requirement (fst p) (snd p) d"
  have "widest (requirements_for k items ?d) = widest (requirements_for k (p # items) d)"
    by (auto simp: requirements_for_def merge_requirement_def dict_simps widest_def split: option.splits)
  with Cons [of ?d] show ?case by (simp add: merge_requirements_def)
qed (simp add: merge_requirements_def requirements_for_def widest_def split: option.splits)

lemma dict_wf_merge_requirements: "dict_wf d \<Longrightarrow> dict_wf (merge_requirements items d)"
  unfolding merge_requirements_def
  by (induction items arbitrary: d) (simp_all add: merge_requirement_def dict_wf_dput)

lemma widen_sel:
  "rq_timeframe (widen a b) = rq_timeframe b" "rq_lookback (widen a b) = max (rq_lookback a) (rq_lookback b)"
  "rq_max_bars (widen a b) = max (rq_max_bars a) (rq_max_bars b)"
  by (simp_all add: widen_def)

lemma foldl_widen:
  "rq_lookback (foldl widen r rs) = Max (rq_lookback ` set (r # rs))"
  "rq_max_bars (foldl widen r rs) = Max (rq_max_bars ` set (r # rs))"
  "rq_timeframe (foldl widen r rs) = rq_timeframe (last (r # rs))"
proof (induction rs arbitrary: r)
  case (Cons x rs)
  {
    case 1
    show ?case
      by (cases "rs = []") (simp_all add: Cons(1) widen_sel max.assoc)
  next
    case 2
    show ?case
      by (cases "rs = []") (simp_all add: Cons(2) widen_sel max.assoc)
  next
    case 3
    show ?case by (simp add: Cons(3) widen_sel)
  }
qed simp_all

lemma widest_None: "widest rs \<noteq> None \<longleftrightarrow> rs \<noteq> []"
  by (simp add: widest_def split: list.splits)

lemma widest_Some:
  assumes "widest rs = Some r"
  shows "rs \<noteq> []" "rq_lookback r = Max (rq_lookback ` set rs)" "rq_max_bars r = Max (rq_max_bars ` set rs)"
    "rq_timeframe r \<in> rq_timeframe ` set rs"
proof -
  from assms obtain x xs where rs: "rs = x # xs" "r = foldl widen x xs"
    by (auto simp: widest_def split: list.splits)
  then show "rs \<noteq> []" "rq_lookback r = Max (rq_lookback ` set rs)" "rq_max_bars r = Max (rq_max_bars ` set rs)"
    by (simp_all only: foldl_widen) simp
  show "rq_timeframe r \<in> rq_timeframe ` set rs"
    unfolding rs foldl_widen(3) by (intro imageI last_in_set) simp
qed

lemma widest_covers:
  assumes "widest rs = Some r" "x \<in> set rs"
  shows "rq_lookback x \<le> rq_lookback r" "rq_max_bars x \<le> rq_max_bars r"
  using widest_Some [OF assms(1)] assms(2) by simp_all

definition requirement_ok :: "requirement \<Rightarrow> bool" where
  "requirement_ok r \<longleftrightarrow> 0 < rq_lookback r \<and> 1 \<le> rq_max_bars r \<and> rq_max_bars r \<le> 10000"

lemma make_requirement_Inr: "make_requirement r = Inr r' \<longleftrightarrow> r' = r \<and> requirement_ok r"
  by (auto simp: make_requirement_def requirement_ok_def)

lemma widest_ok:
  assumes "widest rs = Some r" "\<forall>x\<in>set rs. requirement_ok x"
  shows "requirement_ok r"
proof -
  note w = widest_Some [OF assms(1)]
  have "rq_lookback r \<in> rq_lookback ` set rs" "rq_max_bars r \<in> rq_max_bars ` set rs"
    unfolding w(2,3) using w(1) by (intro Max_in; simp)+
  with assms(2) show ?thesis by (auto simp: requirement_ok_def)
qed

lemma valid_request_facts:
  assumes "valid_request q"
  shows "fromkeys (map norm_symbol (hq_symbols q)) = hq_symbols q" "hq_symbols q \<noteq> []"
    "distinct (hq_symbols q)" "\<forall>s\<in>set (hq_symbols q). norm_symbol s = s \<and> identifier_str s"
    "hq_requirements q \<noteq> []" "distinct (map rq_timeframe (hq_requirements q))"
    "\<forall>r\<in>set (hq_requirements q). requirement_ok r" "identifier_str (hq_engine_id q)" "is_uuid7 (hq_request_id q)"
proof -
  let ?q = "q \<lparr> hq_symbols := fromkeys (map norm_symbol (hq_symbols q)) \<rparr>"
  have q: "?q = q" "identifier_str (hq_engine_id q)" "hq_symbols ?q \<noteq> []" "hq_requirements q \<noteq> []"
      "\<forall>s\<in>set (hq_symbols ?q). identifier_str s" "uuid_version (hq_request_id q) = Some 7"
      "distinct (map rq_timeframe (hq_requirements q))"
    and r: "\<forall>r\<in>set (hq_requirements q). make_requirement r = Inr r"
    using assms by (auto simp: valid_request_def make_request_def Let_def split: if_splits)
  show s: "fromkeys (map norm_symbol (hq_symbols q)) = hq_symbols q" using arg_cong [OF q(1), of hq_symbols] by simp
  show "hq_symbols q \<noteq> []" "distinct (hq_symbols q)"
    "hq_requirements q \<noteq> []" "distinct (map rq_timeframe (hq_requirements q))"
    "identifier_str (hq_engine_id q)" using q s by (metis distinct_fromkeys, simp_all) (metis distinct_fromkeys)
  show "\<forall>r\<in>set (hq_requirements q). requirement_ok r" using r by (simp add: make_requirement_Inr)
  show "is_uuid7 (hq_request_id q)" using q(6) by (simp add: is_uuid7_def)
  have "norm_symbol s = s" if "s \<in> set (hq_symbols q)" for s
    using that s by (metis (no_types, lifting) imageE list.set_map norm_symbol_idem set_fromkeys)
  with q(5) s show "\<forall>s\<in>set (hq_symbols q). norm_symbol s = s \<and> identifier_str s" by simp
qed

section \<open>The registry of requests\<close>

definition covers :: "history_request \<Rightarrow> history_request \<Rightarrow> bool" where
  "covers m q \<longleftrightarrow> set (hq_symbols q) \<subseteq> set (hq_symbols m) \<and>
     (\<forall>r\<in>set (hq_requirements q). \<exists>r'\<in>set (hq_requirements m). rq_timeframe r' = rq_timeframe r \<and>
        rq_lookback r \<le> rq_lookback r' \<and> rq_max_bars r \<le> rq_max_bars r')"

lemma dput_new: "k \<notin> set (dkeys d) \<Longrightarrow> dput k v d = d @ [(k, v)]"
  by (induction d) auto

lemma foldl_dput_distinct:
  "distinct (dkeys d @ map f rs) \<Longrightarrow> foldl (\<lambda>d r. dput (f r) r d) d rs = d @ map (\<lambda>r. (f r, r)) rs"
proof (induction rs arbitrary: d)
  case (Cons r rs)
  then have "dput (f r) r d = d @ [(f r, r)]" by (intro dput_new) auto
  with Cons show ?case by simp
qed simp

definition merged_requirements :: "requirement list \<Rightarrow> requirement list \<Rightarrow> (bar_timeframe, requirement) dict" where
  "merged_requirements previous current =
     merge_requirements (map (\<lambda>r. (rq_timeframe r, r)) current)
       (foldl (\<lambda>d r. dput (rq_timeframe r) r d) [] previous)"

lemma merged_requirements_facts:
  assumes "distinct (map rq_timeframe previous)" "\<forall>r\<in>set previous \<union> set current. requirement_ok r"
  defines "d \<equiv> merged_requirements previous current"
  shows "dict_wf d" "\<And>tf r. dget d tf = Some r \<Longrightarrow> requirement_ok r \<and> rq_timeframe r = tf"
    "\<And>x. x \<in> set previous \<union> set current \<Longrightarrow> \<exists>r. dget d (rq_timeframe x) = Some r \<and>
       rq_lookback x \<le> rq_lookback r \<and> rq_max_bars x \<le> rq_max_bars r"
proof -
  let ?items = "map (\<lambda>r. (rq_timeframe r, r)) current" and ?d0 = "map (\<lambda>r. (rq_timeframe r, r)) previous"
  have d: "d = merge_requirements ?items ?d0"
    using foldl_dput_distinct [of "[]" rq_timeframe previous] assms(1)
    by (simp add: d_def merged_requirements_def)
  have wf0: "dict_wf ?d0" using assms(1) by (simp add: comp_def)
  then show "dict_wf d" unfolding d by (rule dict_wf_merge_requirements)
  have old: "dget ?d0 tf = Some r \<longleftrightarrow> r \<in> set previous \<and> rq_timeframe r = tf" for tf r
    using wf0 by (subst map_of_eq_Some_iff) auto
  have mem: "r \<in> set (requirements_for tf ?items ?d0) \<longleftrightarrow> r \<in> set previous \<union> set current \<and> rq_timeframe r = tf" for tf r
  proof -
    have "r \<in> set (requirements_for tf ?items ?d0) \<longleftrightarrow> dget ?d0 tf = Some r \<or> (r \<in> set current \<and> rq_timeframe r = tf)"
      by (auto simp: requirements_for_def image_iff split: option.splits)
    then show ?thesis using old by blast
  qed
  show "requirement_ok r \<and> rq_timeframe r = tf" if "dget d tf = Some r" for tf r
  proof -
    from that have w: "widest (requirements_for tf ?items ?d0) = Some r"
      unfolding d dget_merge_requirements .
    have "rq_timeframe r = tf" using widest_Some(4) [OF w] mem by auto
    moreover have "requirement_ok r" using w mem assms(2) by (intro widest_ok [OF w]) blast
    ultimately show ?thesis by simp
  qed
  show "\<exists>r. dget d (rq_timeframe x) = Some r \<and> rq_lookback x \<le> rq_lookback r \<and> rq_max_bars x \<le> rq_max_bars r"
    if "x \<in> set previous \<union> set current" for x
  proof -
    have x: "x \<in> set (requirements_for (rq_timeframe x) ?items ?d0)" using mem that by blast
    then obtain r where w: "widest (requirements_for (rq_timeframe x) ?items ?d0) = Some r"
      by (cases "requirements_for (rq_timeframe x) ?items ?d0") (auto simp: widest_def)
    with widest_covers [OF w x] show ?thesis unfolding d dget_merge_requirements by blast
  qed
qed

lemma map_result_id: "\<forall>x\<in>set xs. f x = Inr x \<Longrightarrow> map_result f xs = Inr xs"
  by (induction xs) auto

lemma merge_engine_request_ok:
  assumes p: "valid_request p" and q: "valid_request q" and u: "is_uuid7 fresh_id"
  shows "\<exists>m. merge_engine_request fresh_id p q = Inr m \<and> valid_request m \<and>
    hq_engine_id m = hq_engine_id q \<and> covers m p \<and> covers m q"
proof -
  note vp = valid_request_facts [OF p] and vq = valid_request_facts [OF q]
  let ?d = "merged_requirements (hq_requirements p) (hq_requirements q)"
  let ?symbols = "fromkeys (hq_symbols p @ hq_symbols q)"
  have ok: "\<forall>r\<in>set (hq_requirements p) \<union> set (hq_requirements q). requirement_ok r"
    using vp(7) vq(7) by blast
  note d = merged_requirements_facts [OF vp(6) ok]
  have oks: "r \<in> set (dvalues ?d) \<Longrightarrow> requirement_ok r" for r
    using d(1,2) by (metis (no_types, lifting) imageE list.set_map map_of_is_SomeI prod.collapse)
  have tfs: "map rq_timeframe (dvalues ?d) = dkeys ?d"
    using d(1,2) by (simp add: map_eq_conv comp_def)
  have nonempty: "dvalues ?d \<noteq> []"
  proof -
    obtain x where "x \<in> set (hq_requirements p)" using vp(5) by (cases "hq_requirements p") auto
    then show ?thesis using d(3) [of x] by auto
  qed
  let ?m = "\<lparr> hq_request_id = fresh_id, hq_engine_id = hq_engine_id q, hq_symbols = ?symbols,
     hq_requirements = dvalues ?d, hq_requested_at = hq_requested_at q, hq_force_refresh = False,
     hq_premarket = False, hq_after_hours = False \<rparr>"
  have normal: "fromkeys (map norm_symbol ?symbols) = ?symbols"
  proof -
    have "map norm_symbol ?symbols = ?symbols" using vp(4) vq(4) by (intro map_idI) auto
    then show ?thesis by simp
  qed
  have "?symbols \<noteq> []" using vp(2) by (metis append_is_Nil_conv set_empty set_fromkeys)
  moreover have "\<forall>s\<in>set ?symbols. identifier_str s" using vp(4) vq(4) by auto
  moreover have "distinct (map rq_timeframe (dvalues ?d))" using d(1) unfolding tfs .
  ultimately have "make_request ?m = Inr ?m"
    using normal vq(8) nonempty u by (simp add: make_request_def is_uuid7_def)
  moreover have "map_result make_requirement (dvalues ?d) = Inr (dvalues ?d)"
    using oks by (intro map_result_id) (simp add: make_requirement_Inr)
  ultimately have "merge_engine_request fresh_id p q = Inr ?m" "valid_request ?m"
    using oks by (simp_all add: merge_engine_request_def merged_requirements_def valid_request_def make_requirement_Inr)
  moreover have "covers ?m x" if "x = p \<or> x = q" for x
  proof -
    have "\<exists>r'\<in>set (dvalues ?d). rq_timeframe r' = rq_timeframe r \<and> rq_lookback r \<le> rq_lookback r' \<and>
        rq_max_bars r \<le> rq_max_bars r'" if "r \<in> set (hq_requirements p) \<union> set (hq_requirements q)" for r
      using d(3) [OF that] d(2) by (metis map_of_SomeD image_eqI list.set_map snd_conv)
    with that show ?thesis by (auto simp: covers_def)
  qed
  ultimately show ?thesis by auto
qed

text \<open>Every registered request is a valid one, under its own engine.\<close>

definition requests_ok :: "(string, history_request) dict \<Rightarrow> bool" where
  "requests_ok d \<longleftrightarrow> dict_wf d \<and> (\<forall>e q. dget d e = Some q \<longrightarrow> valid_request q \<and> hq_engine_id q = e)"

lemma registered_after_ok:
  assumes "valid_request q" "requests_ok (sv_registered sv)" "is_uuid7 fresh_id"
  shows "\<exists>sv'. registered_after fresh_id q sv = Inr sv' \<and> requests_ok (sv_registered sv') \<and>
    (hq_force_refresh q \<longrightarrow> sv' = sv) \<and>
    (\<not> hq_force_refresh q \<longrightarrow> (\<exists>m. sv_registered sv' = dput (hq_engine_id q) m (sv_registered sv) \<and> covers m q \<and>
       (\<forall>p. dget (sv_registered sv) (hq_engine_id q) = Some p \<longrightarrow> covers m p)))"
proof (cases "hq_force_refresh q")
  case False
  let ?old = "dget (sv_registered sv) (hq_engine_id q)"
  obtain m where m: "(case ?old of None \<Rightarrow> Inr q | Some previous \<Rightarrow> merge_engine_request fresh_id previous q) = Inr m"
      "valid_request m" "hq_engine_id m = hq_engine_id q" "covers m q" "\<forall>p. ?old = Some p \<longrightarrow> covers m p"
  proof (cases ?old)
    case None
    with that [of q] assms(1) show ?thesis by (auto simp: covers_def)
  next
    case (Some p)
    then have "valid_request p" using assms(2) by (simp add: requests_ok_def)
    from merge_engine_request_ok [OF this assms(1,3)] Some that show ?thesis by auto
  qed
  let ?sv = "sv \<lparr> sv_registered := dput (hq_engine_id q) m (sv_registered sv) \<rparr>"
  have "registered_after fresh_id q sv = Inr ?sv" using False m(1) by (simp add: registered_after_def)
  moreover have "requests_ok (sv_registered ?sv)"
    using assms(2) m(2,3) by (auto simp: requests_ok_def dict_wf_dput dget_dput split: if_splits)
  ultimately show ?thesis using False m(4,5) by (intro exI [of _ ?sv]) auto
qed (use assms in \<open>simp add: registered_after_def\<close>)

lemma ensure_service:
  "registered_after fresh_id q sv = Inr sv' \<Longrightarrow> fst (snd (ensure w fresh_id q (sv, st))) = sv'"
  by (auto simp: ensure_def split: prod.splits sum.splits)

section \<open>The hourly refresh\<close>

abbreviation request_pairs :: "history_request \<Rightarrow> (string \<times> bar_timeframe) list" where
  "request_pairs q \<equiv> map (\<lambda>s. (s, rq_timeframe (hd (hq_requirements q)))) (hq_symbols q)"

lemma request_items_mem:
  "((s, tf), r) \<in> set (request_items requests) \<longleftrightarrow>
     rq_timeframe r = tf \<and> (\<exists>q\<in>set requests. s \<in> set (hq_symbols q) \<and> r \<in> set (hq_requirements q))"
  by (force simp: request_items_def)

lemma refresh_request_Inr:
  assumes "refresh_request as_of fresh_id (n, key, items) = Inr q"
    "\<forall>p\<in>set items. norm_symbol (fst (fst p)) = fst (fst p) \<and> snd (fst p) = fst key" "distinct (map fst items)"
  shows "hq_symbols q = map (\<lambda>p. fst (fst p)) items" "hq_requested_at q = as_of" "\<not> hq_force_refresh q"
    "hq_requirements q = [\<lparr> rq_timeframe = fst key, rq_lookback = fst (snd key), rq_max_bars = snd (snd key) \<rparr>]"
    "request_pairs q = map fst items"
proof -
  have pairs: "map fst items = map (\<lambda>s. (s, fst key)) (map (\<lambda>p. fst (fst p)) items)"
    unfolding map_map by (rule map_cong) (use assms(2) in \<open>simp_all add: prod_eq_iff\<close>)
  with assms(3) have "distinct (map (\<lambda>p. fst (fst p)) items)" by (metis distinct_map)
  moreover have "map norm_symbol (map (\<lambda>p. fst (fst p)) items) = map (\<lambda>p. fst (fst p)) items"
    using assms(2) by (intro map_idI) auto
  ultimately have f: "fromkeys (map norm_symbol (map (\<lambda>p. fst (fst p)) items)) = map (\<lambda>p. fst (fst p)) items"
    by (simp only: fromkeys_distinct)
  show q: "hq_symbols q = map (\<lambda>p. fst (fst p)) items" "hq_requested_at q = as_of" "\<not> hq_force_refresh q"
    "hq_requirements q = [\<lparr> rq_timeframe = fst key, rq_lookback = fst (snd key), rq_max_bars = snd (snd key) \<rparr>]"
    using assms(1) f
    by (auto simp: refresh_request_def make_request_def Let_def make_requirement_Inr split: if_splits prod.splits)
  show "request_pairs q = map fst items" unfolding pairs by (simp add: q(1,4))
qed

lemma map_zip_snd: "length ns = length gs \<Longrightarrow> map (\<lambda>z. f (snd z)) (zip ns gs) = map f gs"
  by (induction ns gs rule: list_induct2) simp_all

lemma set_zip_snd: "z \<in> set (zip ns gs) \<Longrightarrow> snd z \<in> set gs"
  by (metis prod.collapse set_zip_rightD)

lemma refresh_requests_Inr:
  assumes valid: "\<forall>q\<in>set requests. valid_request q"
    and ok: "refresh_requests fresh_id requests as_of = Inr out"
  defines "d \<equiv> merge_requirements (request_items requests) []"
  shows "mset (concat (map request_pairs out)) = mset (dkeys d)"
    "\<And>q. q \<in> set out \<Longrightarrow> \<exists>r. hq_requirements q = [r] \<and> hq_requested_at q = as_of \<and> \<not> hq_force_refresh q \<and>
       (\<forall>s\<in>set (hq_symbols q). \<exists>r'. dget d (s, rq_timeframe r) = Some r' \<and> rq_lookback r = rq_lookback r' \<and>
          rq_max_bars r = rq_max_bars r')"
proof -
  let ?key = "\<lambda>p :: (string \<times> bar_timeframe) \<times> requirement. (snd (fst p), rq_lookback (snd p), rq_max_bars (snd p))"
  let ?g = "group_by ?key d"
  have wf: "dict_wf d" unfolding d_def by (rule dict_wf_merge_requirements) simp
  have mem: "dget d k = Some r \<longleftrightarrow> (k, r) \<in> set d" for k r using wf by simp
  have normal: "norm_symbol (fst (fst p)) = fst (fst p)" if p: "p \<in> set d" for p
  proof -
    obtain s tf r where p': "p = ((s, tf), r)" by (metis prod.collapse)
    with p have "widest (requirements_for (s, tf) (request_items requests) []) = Some r"
      using mem unfolding d_def dget_merge_requirements by blast
    from widest_Some(1) [OF this] have "filter (\<lambda>p. fst p = (s, tf)) (request_items requests) \<noteq> []"
      by (simp add: requirements_for_def)
    then obtain x where "((s, tf), x) \<in> set (request_items requests)"
      unfolding filter_empty_conv by (metis prod.collapse)
    then obtain q where "q \<in> set requests" "s \<in> set (hq_symbols q)" unfolding request_items_mem by blast
    with valid valid_request_facts(4) p' show ?thesis by fastforce
  qed
  have group: "snd g = filter (\<lambda>p. ?key p = fst g) d" if "g \<in> set ?g" for g
    using that set_group_by [of "fst g" "snd g" ?key d] by simp
  have items: "\<forall>p\<in>set (snd g). norm_symbol (fst (fst p)) = fst (fst p) \<and> snd (fst p) = fst (fst g)"
      "distinct (map fst (snd g))" if "g \<in> set ?g" for g
    using group [OF that] normal wf by (auto simp: distinct_map_filter) (metis fst_conv)
  from ok have r: "map_result (refresh_request as_of fresh_id) (zip [1..<Suc (length ?g)] ?g) = Inr out"
    by (simp add: refresh_requests_def d_def Let_def)
  have "map request_pairs out = map (\<lambda>z. map fst (snd (snd z))) (zip [1..<Suc (length ?g)] ?g)"
    using r
  proof (rule map_result_keeps)
    fix z q
    assume z: "z \<in> set (zip [1..<Suc (length ?g)] ?g)" "refresh_request as_of fresh_id z = Inr q"
    then have "snd z \<in> set ?g" by (intro set_zip_snd)
    from refresh_request_Inr(5) [OF _ items [OF this], of as_of fresh_id "fst z" q] z(2)
    show "request_pairs q = map fst (snd (snd z))" by simp
  qed
  also have "\<dots> = map (\<lambda>g. map fst (snd g)) ?g" by (rule map_zip_snd) (simp del: upt_Suc)
  finally have "concat (map request_pairs out) = map fst (concat (dvalues ?g))" by (simp add: map_concat comp_def)
  then have "mset (concat (map request_pairs out)) = image_mset fst (mset (concat (dvalues ?g)))" by simp
  then show "mset (concat (map request_pairs out)) = mset (dkeys d)" by (simp add: mset_concat_group_by)
  fix q
  assume "q \<in> set out"
  then obtain z where z: "z \<in> set (zip [1..<Suc (length ?g)] ?g)" "refresh_request as_of fresh_id z = Inr q"
    using map_result_member [OF r] by blast
  then have g: "snd z \<in> set ?g" by (intro set_zip_snd)
  have z': "refresh_request as_of fresh_id (fst z, fst (snd z), snd (snd z)) = Inr q" using z(2) by simp
  note q = refresh_request_Inr [OF z' items [OF g]]
  have "\<exists>r'. dget d (s, fst (fst (snd z))) = Some r' \<and> fst (snd (fst (snd z))) = rq_lookback r' \<and>
      snd (snd (fst (snd z))) = rq_max_bars r'" if s: "s \<in> set (hq_symbols q)" for s
  proof -
    from s q(1) obtain p where p: "p \<in> set (snd (snd z))" "s = fst (fst p)" by auto
    with group [OF g] have "p \<in> set d" "?key p = fst (snd z)" by auto
    with p(2) mem show ?thesis by (metis fst_conv prod.collapse snd_conv)
  qed
  then show "\<exists>r. hq_requirements q = [r] \<and> hq_requested_at q = as_of \<and> \<not> hq_force_refresh q \<and>
       (\<forall>s\<in>set (hq_symbols q). \<exists>r'. dget d (s, rq_timeframe r) = Some r' \<and> rq_lookback r = rq_lookback r' \<and>
          rq_max_bars r = rq_max_bars r')"
    using q(2-4) by simp
qed

section \<open>Properties\<close>

text \<open>C16: Batching neither loses nor repeats a symbol: the pending batches hold every stale symbol exactly
  once, each batch is non-empty and no longer than the batch size, and every symbol of a batch starts its
  download at the instant of the batch.\<close>

theorem pending_batches_partition:
  assumes "pending_sync_batches symbols cov req as_of freshness batch_size force = Inr bs" "0 < batch_size"
  shows "mset (concat (map fst bs)) = mset (stale_symbols symbols cov (rq_timeframe req) as_of freshness force) \<and>
    distinct (concat (map fst bs)) \<and>
    (\<forall>b\<in>set bs. fst b \<noteq> [] \<and> length (fst b) \<le> batch_size \<and>
      (\<forall>s\<in>set (fst b). symbol_sync_start (coverage_get cov s) req as_of = Inr (snd b)))"
proof -
  note m = pending_concat [OF assms]
  then have "distinct (concat (map fst bs))"
    using stale_symbols_normal(1) mset_eq_imp_distinct_iff by blast
  moreover have "fst b \<noteq> [] \<and> length (fst b) \<le> batch_size \<and>
      (\<forall>s\<in>set (fst b). symbol_sync_start (coverage_get cov s) req as_of = Inr (snd b))" if "b \<in> set bs" for b
    using pending_member [OF assms(1), of "fst b" "snd b"] that by auto
  ultimately show ?thesis using m by blast
qed

definition demo_requirement :: requirement where
  "demo_requirement = \<lparr> rq_timeframe = TF_DAY_1, rq_lookback = days 10, rq_max_bars = 20 \<rparr>"

theorem pending_batches_partition_witness:
  "\<exists>bs. pending_sync_batches [''a'', ''B '', ''c'', ''A''] [] demo_requirement 0 (hours 1) 2 False = Inr bs \<and>
     length bs = 2 \<and> distinct (concat (map fst bs))"
proof -
  let ?r = "pending_sync_batches [''a'', ''B '', ''c'', ''A''] [] demo_requirement 0 (hours 1) 2 False"
  have "is_ok ?r" by code_simp
  then obtain bs where bs: "?r = Inr bs" by (auto simp: is_ok_iff)
  have "(case ?r of Inr bs \<Rightarrow> length bs = 2 | Inl _ \<Rightarrow> False)" by code_simp
  with pending_batches_partition [OF bs] bs show ?thesis by simp
qed

text \<open>C15: A synchronization, whether it succeeds or an error stops it half way, only writes rows that hold a
  valid bar of a requested symbol and timeframe, its amounts rounded to the eight decimals of the columns,
  and never a weekly bar of an unfinished week; the newest stored bar of a series never gets older and
  every series that was not requested keeps its newest bar.\<close>

theorem sync_only_extends:
  assumes "sync_request w freshness batch_size q st = (r, st')"
  defines "P \<equiv> fetched_for w (hq_requested_at q) (fromkeys (map norm_symbol (hq_symbols q)))
     (map rq_timeframe (hq_requirements q))"
  shows "(\<forall>k row. dget (st_table st') k = Some row \<longrightarrow> dget (st_table st) k = Some row \<or>
      (\<exists>b. P b \<and> bar_key b = k \<and> sr_bar row = bar_columns b)) \<and>
    (\<forall>s tf l. bc_latest (symbol_coverage (st_table st) s tf) = Some l \<longrightarrow>
      (\<exists>l'. bc_latest (symbol_coverage (st_table st') s tf) = Some l' \<and> l \<le> l')) \<and>
    (\<forall>s tf. s \<notin> norm_symbol ` set (hq_symbols q) \<or> tf \<notin> rq_timeframe ` set (hq_requirements q) \<longrightarrow>
      bc_latest (symbol_coverage (st_table st') s tf) = bc_latest (symbol_coverage (st_table st) s tf))"
proof -
  have run: "writes P (st_table st) (st_table st')"
    using sync_request_writes [of w q st freshness batch_size] assms by simp
  have "bc_latest (symbol_coverage (st_table st') s tf) = bc_latest (symbol_coverage (st_table st) s tf)"
    if "s \<notin> norm_symbol ` set (hq_symbols q) \<or> tf \<notin> rq_timeframe ` set (hq_requirements q)" for s tf
    using run by (rule writes_other_series) (use that in \<open>auto simp: P_def fetched_for_def\<close>)
  with writes_rows [OF run] writes_latest [OF run] show ?thesis by blast
qed

text \<open>Nothing is fetched twice: when every requested series is current and the request is no forced
  repair, the synchronization sends no request to the provider, writes nothing and reports no bars.\<close>

theorem current_series_not_fetched:
  assumes "\<not> hq_force_refresh q" "valid_request q"
    "\<forall>s\<in>set (hq_symbols q). \<forall>r\<in>set (hq_requirements q).
       is_current (symbol_coverage (st_table st) s (rq_timeframe r)) (rq_timeframe r) (hq_requested_at q) freshness"
  shows "sync_request w freshness batch_size q st = (Inr 0, st)"
proof -
  note q = valid_request_facts [OF assms(2)]
  have "[] \<notin> set (hq_symbols q)" using q(4) by (auto simp: identifier_str_def)
  then have ns: "distinct_symbols (hq_symbols q) = Inr (hq_symbols q)"
    using q(1,2) by (simp add: distinct_symbols_def)
  have "sync_requirements w freshness batch_size q rs st = (Inr 0, st)" if "set rs \<subseteq> set (hq_requirements q)" for rs
    using that
  proof (induction rs)
    case (Cons r rs)
    then have "sync_requirement w freshness batch_size q r st = (Inr 0, st)"
      using assms(1,3) by (intro sync_requirement_current [OF _ ns]) auto
    with Cons show ?case by (simp add: and_then_def pure_def)
  qed (simp add: pure_def)
  then show ?thesis by (simp add: sync_request_def)
qed

section \<open>Evaluation\<close>

definition demo_request :: "bool \<Rightarrow> history_request" where
  "demo_request force = \<lparr> hq_request_id = contract_uuid7 0 0, hq_engine_id = ''swing'', hq_symbols = [''AAPL''],
     hq_requirements = [demo_requirement], hq_requested_at = days 20, hq_force_refresh = force,
     hq_premarket = False, hq_after_hours = False \<rparr>"

definition demo_world :: world where
  "demo_world = \<lparr> wd_client = demo_client,
     wd_get = (\<lambda>_ _. Reply 200 (Some (VDict [(''bars'', VDict [(''AAPL'', VList [VDict demo_record])])]))),
     wd_library = demo_library, wd_feed = ''iex'', wd_zone = eastern_standard, wd_now = (\<lambda>_. days 20) \<rparr>"

definition demo_start :: sync_state where "demo_start = \<lparr> st_tick = 0, st_table = [] \<rparr>"

lemma demo_request_valid: "valid_request (demo_request force)"
  by (cases force) (code_simp, code_simp)

theorem sync_only_extends_witness:
  "\<exists>st'. sync_request demo_world (hours 1) 5 (demo_request False) demo_start = (Inr 1, st') \<and>
     (\<exists>row. dget (st_table st') (''AAPL'', TF_DAY_1, seconds 1) = Some row \<and>
       (\<exists>b. valid_bar b \<and> sr_bar row = bar_columns b))"
proof -
  let ?r = "sync_request demo_world (hours 1) 5 (demo_request False) demo_start"
  obtain r st' where r: "?r = (r, st')" by (cases ?r)
  have "(case fst ?r of Inr n \<Rightarrow> n = 1 | Inl _ \<Rightarrow> False)" by code_simp
  with r have "r = Inr 1" by (auto split: sum.splits)
  have "dget (st_table (snd ?r)) (''AAPL'', TF_DAY_1, seconds 1) \<noteq> None" by code_simp
  then obtain row where row: "dget (st_table st') (''AAPL'', TF_DAY_1, seconds 1) = Some row" using r by auto
  moreover have "dget (st_table demo_start) (''AAPL'', TF_DAY_1, seconds 1) = None" by (simp add: demo_start_def)
  ultimately have "\<exists>b. valid_bar b \<and> sr_bar row = bar_columns b"
    using sync_only_extends [OF r, THEN conjunct1] unfolding fetched_for_def by fastforce
  with r row \<open>r = Inr 1\<close> show ?thesis by auto
qed

theorem current_series_not_fetched_witness:
  "\<exists>st. st_table st \<noteq> [] \<and> sync_request demo_world (hours 1) 5 (demo_request False) st = (Inr 0, st)"
proof -
  let ?st = "\<lparr> st_tick = 0, st_table = rows_written (days 20) [demo_bar ''AAPL'' TF_DAY_1 (days 19)] [] \<rparr>"
  have f: "\<not> hq_force_refresh (demo_request False)" by (simp add: demo_request_def)
  have c: "\<forall>s\<in>set (hq_symbols (demo_request False)). \<forall>r\<in>set (hq_requirements (demo_request False)).
      is_current (symbol_coverage (st_table ?st) s (rq_timeframe r)) (rq_timeframe r)
        (hq_requested_at (demo_request False)) (hours 1)" by code_simp
  have "st_table ?st \<noteq> []" by code_simp
  with current_series_not_fetched [OF f demo_request_valid c] show ?thesis by blast
qed

text \<open>The registry follows the engines: after \<open>ensure\<close> the registered request of the engine covers the
  symbols, lookbacks and bar counts of this request and of the one registered before, no other engine's
  request changes, a forced repair registers nothing, and every registered request stays valid, whatever
  the synchronization did.\<close>

theorem ensure_registers:
  assumes "valid_request q" "requests_ok (sv_registered sv)" "is_uuid7 fresh_id"
    "ensure w fresh_id q (sv, st) = (r, sv', st')"
  shows "requests_ok (sv_registered sv') \<and> (hq_force_refresh q \<longrightarrow> sv' = sv) \<and>
    (\<not> hq_force_refresh q \<longrightarrow> (\<exists>m. dget (sv_registered sv') (hq_engine_id q) = Some m \<and> covers m q \<and>
       (\<forall>p. dget (sv_registered sv) (hq_engine_id q) = Some p \<longrightarrow> covers m p))) \<and>
    (\<forall>e. e \<noteq> hq_engine_id q \<longrightarrow> dget (sv_registered sv') e = dget (sv_registered sv) e)"
proof -
  obtain sv1 where sv1: "registered_after fresh_id q sv = Inr sv1" "requests_ok (sv_registered sv1)"
      "hq_force_refresh q \<longrightarrow> sv1 = sv"
      "\<not> hq_force_refresh q \<longrightarrow> (\<exists>m. sv_registered sv1 = dput (hq_engine_id q) m (sv_registered sv) \<and> covers m q \<and>
         (\<forall>p. dget (sv_registered sv) (hq_engine_id q) = Some p \<longrightarrow> covers m p))"
    using registered_after_ok [OF assms(1-3)] by blast
  have "sv' = sv1" using ensure_service [OF sv1(1), of w st] assms(4) by simp
  with sv1(2-4) show ?thesis by (cases "hq_force_refresh q") (auto simp: dget_dput)
qed

theorem ensure_registers_witness:
  "\<exists>r sv' st' m. ensure demo_world (contract_uuid7 0 1) (demo_request False)
     (\<lparr> sv_batch_size = 5, sv_freshness = hours 1, sv_registered = [(''swing'', demo_request False)] \<rparr>, demo_start)
       = (r, sv', st') \<and> dget (sv_registered sv') ''swing'' = Some m \<and> covers m (demo_request False)"
proof -
  let ?sv = "\<lparr> sv_batch_size = 5, sv_freshness = hours 1, sv_registered = [(''swing'', demo_request False)] \<rparr>"
  have reg: "requests_ok (sv_registered ?sv)"
    using demo_request_valid by (simp add: requests_ok_def demo_request_def)
  have u: "is_uuid7 (contract_uuid7 0 1)" by code_simp
  obtain r sv' st' where e: "ensure demo_world (contract_uuid7 0 1) (demo_request False) (?sv, demo_start) = (r, sv', st')"
    by (metis prod_cases3)
  from ensure_registers [OF demo_request_valid reg u e] have
    "\<exists>m. dget (sv_registered sv') ''swing'' = Some m \<and> covers m (demo_request False)"
    by (simp add: demo_request_def)
  with e show ?thesis by blast
qed

text \<open>The hourly refresh asks for exactly what is registered: every pair of a registered symbol and
  timeframe occurs in exactly one refresh request, no other pair does, and the request asks for the largest
  lookback and bar count any engine registered for the pair, as of the refresh instant.\<close>

theorem refresh_covers_registered:
  assumes "\<forall>q\<in>set requests. valid_request q" "refresh_requests fresh_id requests as_of = Inr out"
  shows "distinct (concat (map request_pairs out)) \<and>
    set (concat (map request_pairs out)) = fst ` set (request_items requests) \<and>
    (\<forall>q\<in>set out. \<exists>r. hq_requirements q = [r] \<and> hq_requested_at q = as_of \<and> \<not> hq_force_refresh q \<and>
       (\<forall>s\<in>set (hq_symbols q). let rs = {x. ((s, rq_timeframe r), x) \<in> set (request_items requests)} in
          rq_lookback r = Max (rq_lookback ` rs) \<and> rq_max_bars r = Max (rq_max_bars ` rs)))"
proof -
  let ?d = "merge_requirements (request_items requests) []"
  note r = refresh_requests_Inr [OF assms]
  have wf: "dict_wf ?d" by (rule dict_wf_merge_requirements) simp
  have keys: "dget ?d k \<noteq> None \<longleftrightarrow> k \<in> fst ` set (request_items requests)" for k
    unfolding dget_merge_requirements widest_None by (auto simp: requirements_for_def filter_empty_conv)
  have "set (dkeys ?d) = fst ` set (request_items requests)" by (intro set_eqI) (simp only: keys_dget keys)
  moreover have "distinct (concat (map request_pairs out))" "set (concat (map request_pairs out)) = set (dkeys ?d)"
    using wf mset_eq_imp_distinct_iff [OF r(1)] mset_eq_setD [OF r(1)] by blast+
  moreover have "\<exists>r. hq_requirements q = [r] \<and> hq_requested_at q = as_of \<and> \<not> hq_force_refresh q \<and>
       (\<forall>s\<in>set (hq_symbols q). let rs = {x. ((s, rq_timeframe r), x) \<in> set (request_items requests)} in
          rq_lookback r = Max (rq_lookback ` rs) \<and> rq_max_bars r = Max (rq_max_bars ` rs))" if q: "q \<in> set out" for q
  proof -
    obtain r where req: "hq_requirements q = [r]" "hq_requested_at q = as_of" "\<not> hq_force_refresh q"
      and max: "\<And>s. s \<in> set (hq_symbols q) \<Longrightarrow> \<exists>r'. dget ?d (s, rq_timeframe r) = Some r' \<and>
        rq_lookback r = rq_lookback r' \<and> rq_max_bars r = rq_max_bars r'"
      using r(2) [OF q] by blast
    have "rq_lookback r = Max (rq_lookback ` {x. ((s, rq_timeframe r), x) \<in> set (request_items requests)}) \<and>
        rq_max_bars r = Max (rq_max_bars ` {x. ((s, rq_timeframe r), x) \<in> set (request_items requests)})"
      if s: "s \<in> set (hq_symbols q)" for s
    proof -
      let ?rs = "requirements_for (s, rq_timeframe r) (request_items requests) []"
      obtain r' where r': "widest ?rs = Some r'" "rq_lookback r = rq_lookback r'" "rq_max_bars r = rq_max_bars r'"
        using max [OF s] unfolding dget_merge_requirements by blast
      have "set ?rs = {x. ((s, rq_timeframe r), x) \<in> set (request_items requests)}"
        by (force simp: requirements_for_def)
      with widest_Some(2,3) [OF r'(1)] r'(2,3) show ?thesis by simp
    qed
    with req show ?thesis by (auto simp: Let_def)
  qed
  ultimately show ?thesis by blast
qed

theorem refresh_covers_registered_witness:
  "\<exists>q. refresh_requests (\<lambda>n. contract_uuid7 0 (int n)) [demo_request False,
       demo_request False \<lparr> hq_engine_id := ''intraday'', hq_requirements := [demo_requirement \<lparr> rq_lookback := days 30 \<rparr>] \<rparr>]
       (days 21) = Inr [q] \<and> request_pairs q = [(''AAPL'', TF_DAY_1)] \<and> distinct (request_pairs q)"
proof -
  let ?qs = "[demo_request False, demo_request False \<lparr> hq_engine_id := ''intraday'',
     hq_requirements := [demo_requirement \<lparr> rq_lookback := days 30 \<rparr>] \<rparr>]"
  let ?r = "refresh_requests (\<lambda>n. contract_uuid7 0 (int n)) ?qs (days 21)"
  have valid: "\<forall>q\<in>set ?qs. valid_request q" by code_simp
  have "(case ?r of Inr [q] \<Rightarrow> request_pairs q = [(''AAPL'', TF_DAY_1)] | _ \<Rightarrow> False)" by code_simp
  then obtain q where q: "?r = Inr [q]" "request_pairs q = [(''AAPL'', TF_DAY_1)]"
    by (auto split: sum.splits list.splits)
  from refresh_covers_registered [OF valid q(1)] q show ?thesis by simp
qed

section \<open>Retention\<close>

abbreviation registered_requirements :: "service \<Rightarrow> requirement list" where
  "registered_requirements sv \<equiv> concat (map hq_requirements (dvalues (sv_registered sv)))"

definition storage :: "requirement \<Rightarrow> int" where
  "storage r = (if rq_timeframe r \<in> set intraday_timeframes then rq_max_bars r * 3 else rq_max_bars r)"

lemma required_bars_ok:
  assumes "\<forall>r\<in>set rs. requirement_ok r"
  shows "\<exists>d'. required_bars rs d = Inr d' \<and>
    (\<forall>tf. (dget d' tf \<noteq> None) = (dget d tf \<noteq> None \<or> tf \<in> rq_timeframe ` set rs)) \<and>
    (\<forall>tf n. dget d tf = Some n \<longrightarrow> (\<exists>n'. dget d' tf = Some n' \<and> n \<le> n')) \<and>
    (\<forall>r\<in>set rs. \<exists>n. dget d' (rq_timeframe r) = Some n \<and> storage r \<le> n) \<and> (dict_wf d \<longrightarrow> dict_wf d')"
  using assms
proof (induction rs arbitrary: d)
  case (Cons r rs)
  let ?n = "max (case dget d (rq_timeframe r) of None \<Rightarrow> 0 | Some n \<Rightarrow> n) (storage r)"
  let ?d = "dput (rq_timeframe r) ?n d"
  have "analytical_storage_limit (rq_timeframe r) (rq_max_bars r) = Inr (storage r)"
    using Cons.prems by (simp add: analytical_storage_limit_def storage_def requirement_ok_def)
  then have step: "required_bars (r # rs) d = required_bars rs ?d" by simp
  obtain d' where d': "required_bars rs ?d = Inr d'"
    "\<forall>tf. (dget d' tf \<noteq> None) = (dget ?d tf \<noteq> None \<or> tf \<in> rq_timeframe ` set rs)"
    "\<And>tf n. dget ?d tf = Some n \<Longrightarrow> \<exists>n'. dget d' tf = Some n' \<and> n \<le> n'"
    "\<forall>r\<in>set rs. \<exists>n. dget d' (rq_timeframe r) = Some n \<and> storage r \<le> n" "dict_wf ?d \<longrightarrow> dict_wf d'"
    using Cons.IH [of ?d] Cons.prems by auto
  have grows: "\<exists>n'. dget d' tf = Some n' \<and> n \<le> n'" if "dget d tf = Some n" for tf n
    using that d'(3) [of tf n] d'(3) [of "rq_timeframe r" ?n]
    by (cases "tf = rq_timeframe r") (auto simp: dget_dput)
  have "\<exists>n. dget d' (rq_timeframe r) = Some n \<and> storage r \<le> n"
    using d'(3) [of "rq_timeframe r" ?n] by (auto simp: dget_dput)
  with step d'(1,2,4,5) grows show ?case
    by (intro exI [of _ d']) (auto simp: dget_dput dict_wf_dput)
qed simp

lemma minimum_retention_dom: "minimum_retention tf \<noteq> None \<longleftrightarrow> tf \<in> set stored_timeframes"
  by (cases tf) (simp_all add: minimum_retention_def stored_timeframes_def)

definition limit_of :: "bar_timeframe \<times> int \<Rightarrow> (bar_timeframe \<times> int) result" where
  "limit_of = (\<lambda>(tf, count). case minimum_retention tf of
     None \<Rightarrow> Inl KeyError | Some least \<Rightarrow> Inr (tf, max least (count + max 50 (count div 4))))"

lemma limits_Inr:
  "map_result limit_of d = Inr limits \<Longrightarrow> dget limits tf =
     map_option (\<lambda>count. max (the (minimum_retention tf)) (count + max 50 (count div 4))) (dget d tf)"
  by (induction d arbitrary: limits) (auto simp: limit_of_def split: option.splits)

text \<open>The retention policy never drops what an engine needs: if every registered timeframe has a table,
  a limit is computed for exactly the registered timeframes and it exceeds the storage every engine asked
  for by at least 50 bars and is not below the fixed minimum; a registered 5Min or 4Hour requirement, which
  the request contract accepts, makes it fail with a KeyError instead.\<close>

theorem retention_keeps_enough:
  assumes "requests_ok (sv_registered sv)"
  shows "(is_ok (retention_limits sv) \<longleftrightarrow>
      (\<forall>r\<in>set (registered_requirements sv). rq_timeframe r \<in> set stored_timeframes)) \<and>
    (\<forall>limits. retention_limits sv = Inr limits \<longrightarrow>
      (\<forall>tf. dget limits tf \<noteq> None \<longleftrightarrow> tf \<in> rq_timeframe ` set (registered_requirements sv)) \<and>
      (\<forall>r\<in>set (registered_requirements sv). \<exists>n least. dget limits (rq_timeframe r) = Some n \<and>
         storage r + 50 \<le> n \<and> minimum_retention (rq_timeframe r) = Some least \<and> least \<le> n))"
proof -
  let ?rs = "registered_requirements sv"
  have ok: "\<forall>r\<in>set ?rs. requirement_ok r"
  proof -
    have "\<forall>q\<in>set (dvalues (sv_registered sv)). valid_request q"
      using assms by (auto simp: requests_ok_def)
    then show ?thesis using valid_request_facts(7) by auto
  qed
  obtain d where d: "required_bars ?rs [] = Inr d"
      and dom: "\<forall>tf. (dget d tf \<noteq> None) = (dget ([] :: (bar_timeframe, int) dict) tf \<noteq> None \<or> tf \<in> rq_timeframe ` set ?rs)"
      and enough: "\<forall>r\<in>set ?rs. \<exists>n. dget d (rq_timeframe r) = Some n \<and> storage r \<le> n"
    using required_bars_ok [OF ok, of "[]"] by blast
  have keys: "dget d tf \<noteq> None \<longleftrightarrow> tf \<in> rq_timeframe ` set ?rs" for tf using dom by simp
  have run: "retention_limits sv = map_result limit_of d"
    unfolding retention_limits_def d limit_of_def by simp
  have "is_ok (limit_of p) \<longleftrightarrow> fst p \<in> set stored_timeframes" for p
    using minimum_retention_dom [of "fst p"] by (cases p) (auto simp: limit_of_def is_ok_def split: option.splits)
  then have "is_ok (retention_limits sv) \<longleftrightarrow> (\<forall>tf\<in>set (dkeys d). tf \<in> set stored_timeframes)"
    by (simp add: run)
  moreover have "set (dkeys d) = rq_timeframe ` set ?rs"
    by (intro set_eqI) (simp only: keys_dget keys)
  ultimately have is_ok: "is_ok (retention_limits sv) \<longleftrightarrow> (\<forall>r\<in>set ?rs. rq_timeframe r \<in> set stored_timeframes)"
    by (simp only: ball_simps)
  have "\<exists>n least. dget limits (rq_timeframe r) = Some n \<and> storage r + 50 \<le> n \<and>
      minimum_retention (rq_timeframe r) = Some least \<and> least \<le> n"
    if l: "map_result limit_of d = Inr limits" and r: "r \<in> set ?rs" for limits r
  proof -
    have "is_ok (retention_limits sv)" using l run by simp
    with is_ok r have "rq_timeframe r \<in> set stored_timeframes" by blast
    then obtain least where least: "minimum_retention (rq_timeframe r) = Some least"
      using minimum_retention_dom by blast
    obtain n where n: "dget d (rq_timeframe r) = Some n" "storage r \<le> n" using enough r by blast
    then show ?thesis using limits_Inr [OF l, of "rq_timeframe r"] least by auto
  qed
  moreover have "dget limits tf \<noteq> None \<longleftrightarrow> tf \<in> rq_timeframe ` set ?rs"
    if l: "map_result limit_of d = Inr limits" for limits tf
    unfolding limits_Inr [OF l] using keys by simp
  ultimately show ?thesis using is_ok run by simp
qed

theorem retention_keeps_enough_witness:
  "\<exists>limits. retention_limits \<lparr> sv_batch_size = 5, sv_freshness = hours 1,
       sv_registered = [(''swing'', demo_request False)] \<rparr> = Inr limits \<and> dget limits TF_DAY_1 \<noteq> None"
proof -
  let ?sv = "\<lparr> sv_batch_size = 5, sv_freshness = hours 1, sv_registered = [(''swing'', demo_request False)] \<rparr>"
  have reg: "requests_ok (sv_registered ?sv)"
    using demo_request_valid by (simp add: requests_ok_def demo_request_def)
  have "registered_requirements ?sv = [demo_requirement]" by (simp add: demo_request_def)
  with retention_keeps_enough [OF reg] show ?thesis
    by (auto simp: is_ok_iff demo_requirement_def stored_timeframes_def)
qed

end
