(* ===== verification/Bar_Aggregator.thy ===== *)
theory Bar_Aggregator
  imports Market_Session
begin

text \<open>
  Aggregation of completed bars into larger timeframes (app/integration/bar_aggregator.py): minute bars
  into 5Min, 15Min and 1Hour buckets, on the next bucket or as soon as a bucket is complete, daily bars
  from the minutes or quarters of a regular session, and four-hour bars from its quarters. A dictionary
  entry that is set to a list and then popped is never seen in between, so both steps are one update.
\<close>

section \<open>Buckets\<close>

definition target_minutes :: "bar_timeframe \<rightharpoonup> int" where
  "target_minutes = map_of [(TF_MINUTE_5, 5), (TF_MINUTE_15, 15), (TF_HOUR_1, 60)]"

text \<open>\<open>timestamp.replace(minute=..., second=0, microsecond=0)\<close> on a UTC timestamp.\<close>

definition bucket_start :: "instant \<Rightarrow> int \<Rightarrow> instant" where
  "bucket_start t m =
     (let hour_start = t - t mod hours 1; minute = (t mod hours 1) div minutes 1
      in hour_start + minutes ((minute div m) * m))"

definition target_start :: "bar_timeframe \<Rightarrow> instant \<Rightarrow> instant" where
  "target_start target t = bucket_start t (the (target_minutes target))"

section \<open>Aggregation\<close>

text \<open>\<open>bar.vwap or bar.close\<close>: a zero average counts as none.\<close>

definition typical_price :: "market_bar \<Rightarrow> rat" where
  "typical_price b = (case mb_vwap b of None \<Rightarrow> mb_close b | Some v \<Rightarrow> if v = 0 then mb_close b else v)"

definition aggregate :: "market_bar list \<Rightarrow> bar_timeframe \<Rightarrow> instant \<Rightarrow> market_bar result" where
  "aggregate bars tf t =
     (if bars = [] then Inl IndexError
      else
        let total_volume = dsum 0 (map mb_volume bars);
            vwap = (if 0 < total_volume
              then ddiv (dsum 0 (map (\<lambda>b. dmul (typical_price b) (mb_volume b)) bars)) total_volume
              else mb_close (last bars));
            counts = List.map_filter mb_trade_count bars
        in make_bar \<lparr> mb_symbol = mb_symbol (hd bars), mb_timeframe = tf, mb_timestamp = t,
             mb_open = mb_open (hd bars), mb_high = Max (set (map mb_high bars)),
             mb_low = Min (set (map mb_low bars)), mb_close = mb_close (last bars),
             mb_volume = total_volume, mb_trade_count = (if counts = [] then None else Some (sum_list counts)),
             mb_vwap = Some vwap, mb_source = ''marketbot-aggregator'', mb_feed = mb_feed (hd bars),
             mb_is_final = True \<rparr>)"

section \<open>Minute aggregator\<close>

record minute_aggregator =
  ma_targets :: "bar_timeframe list"
  ma_emit_on_complete :: bool
  ma_accepted :: "market_session_kind list"
  ma_pending :: "(string \<times> bar_timeframe, market_bar list) dict"
  ma_latest :: "(string, instant) dict"

definition make_aggregator :: "bar_timeframe list \<Rightarrow> market_session_kind list option \<Rightarrow> bool \<Rightarrow>
    minute_aggregator result" where
  "make_aggregator targets accepted_sessions emit_on_complete =
     (if targets = [] \<or> \<not> distinct targets
      then Inl (ValueError ''aggregation targets must be non-empty and unique'')
      else if \<exists>target\<in>set targets. target_minutes target = None
      then Inl (ValueError ''only 5Min, 15Min and 1Hour aggregation is supported'')
      else
        let accepted = (case accepted_sessions of Some a \<Rightarrow> a | None \<Rightarrow> [MS_REGULAR])
        in if accepted = [] then Inl (ValueError ''accepted sessions must be non-empty'')
           else Inr \<lparr> ma_targets = targets, ma_emit_on_complete = emit_on_complete, ma_accepted = accepted,
                  ma_pending = [], ma_latest = [] \<rparr>)"

type_synonym pending = "(string \<times> bar_timeframe, market_bar list) dict"

text \<open>What one target does with the bar, in the mode that waits for the next bucket.\<close>

definition add_target :: "zone \<Rightarrow> market_session_kind list \<Rightarrow> market_bar \<Rightarrow> bar_timeframe \<Rightarrow> pending \<Rightarrow>
    (market_bar list \<times> pending) result" where
  "add_target z accepted bar target pending =
     (let key = (mb_symbol bar, target) in
      case dget pending key of
        None \<Rightarrow> Inr ([], dput key [bar] pending)
      | Some bars \<Rightarrow>
          let start = target_start target (mb_timestamp bar);
              current_start = target_start target (mb_timestamp (hd bars))
          in if session_at z (mb_timestamp (hd bars)) \<noteq> session_at z (mb_timestamp bar) then
               bind_result (aggregate bars target current_start) (\<lambda>b. Inr ([b], dput key [bar] pending))
             else if day_of (mb_timestamp (last bars)) \<noteq> day_of (mb_timestamp bar) then
               Inr ([], dput key [bar] pending)
             else if start < current_start then Inr ([], pending)
             else if start = current_start then Inr ([], dput key (bars @ [bar]) pending)
             else if session_at z current_start \<in> set accepted then
               bind_result (aggregate bars target current_start) (\<lambda>b. Inr ([b], dput key [bar] pending))
             else Inr ([], dput key [bar] pending))"

definition flush_target :: "zone \<Rightarrow> market_session_kind list \<Rightarrow> string \<Rightarrow> bar_timeframe \<Rightarrow> pending \<Rightarrow>
    (market_bar list \<times> pending) result" where
  "flush_target z accepted symbol target pending =
     (let key = (symbol, target) in
      case dget pending key of
        None \<Rightarrow> Inr ([], pending)
      | Some bars \<Rightarrow>
          let start = target_start target (mb_timestamp (hd bars))
          in if session_at z start \<in> set accepted
             then bind_result (aggregate bars target start) (\<lambda>b. Inr ([b], ddel key pending))
             else Inr ([], ddel key pending))"

text \<open>What one target does with the bar, in the mode that emits a complete bucket at once.\<close>

definition complete_target :: "market_bar \<Rightarrow> bar_timeframe \<Rightarrow> pending \<Rightarrow> (market_bar list \<times> pending) result" where
  "complete_target bar target pending =
     (let m = the (target_minutes target); key = (mb_symbol bar, target);
          start = bucket_start (mb_timestamp bar) m;
          old = (case dget pending key of None \<Rightarrow> [] | Some bars \<Rightarrow> bars);
          current = (if old \<noteq> [] \<and> bucket_start (mb_timestamp (hd old)) m \<noteq> start then [] else old);
          bars = (if current = [] \<or> mb_timestamp (last current) < mb_timestamp bar then current @ [bar] else current)
      in if int (length bars) = m \<and>
            (\<forall>i\<in>{..<length bars}. mb_timestamp (bars ! i) = start + minutes (int i))
         then bind_result (aggregate bars target start) (\<lambda>b. Inr ([b], ddel key pending))
         else Inr ([], dput key bars pending))"

fun each_target :: "(bar_timeframe \<Rightarrow> pending \<Rightarrow> (market_bar list \<times> pending) result) \<Rightarrow> bar_timeframe list \<Rightarrow>
    pending \<Rightarrow> (market_bar list \<times> pending) result" where
  "each_target f [] pending = Inr ([], pending)"
| "each_target f (target # targets) pending =
     bind_result (f target pending) (\<lambda>(out, pending').
     bind_result (each_target f targets pending') (\<lambda>(out', pending''). Inr (out @ out', pending'')))"

definition with_pending :: "minute_aggregator \<Rightarrow> (market_bar list \<times> pending) result \<Rightarrow>
    (market_bar list \<times> minute_aggregator) result" where
  "with_pending agg r = bind_result r (\<lambda>(out, pending). Inr (out, agg \<lparr> ma_pending := pending \<rparr>))"

definition add_complete :: "zone \<Rightarrow> market_bar \<Rightarrow> minute_aggregator \<Rightarrow>
    (market_bar list \<times> minute_aggregator) result" where
  "add_complete z bar agg =
     (if (case dget (ma_latest agg) (mb_symbol bar) of None \<Rightarrow> False | Some previous \<Rightarrow> mb_timestamp bar \<le> previous)
      then Inr ([], agg)
      else
        let agg' = agg \<lparr> ma_latest := dput (mb_symbol bar) (mb_timestamp bar) (ma_latest agg) \<rparr>
        in if session_at z (mb_timestamp bar) \<notin> set (ma_accepted agg)
           then Inr ([], agg' \<lparr> ma_pending := foldl (\<lambda>d target. ddel (mb_symbol bar, target) d)
                  (ma_pending agg) (ma_targets agg) \<rparr>)
           else with_pending agg' (each_target (complete_target bar) (ma_targets agg) (ma_pending agg)))"

definition add_minute :: "zone \<Rightarrow> market_bar \<Rightarrow> minute_aggregator \<Rightarrow>
    (market_bar list \<times> minute_aggregator) result" where
  "add_minute z bar agg =
     (if mb_timeframe bar \<noteq> TF_MINUTE_1
      then Inl (ValueError ''aggregation input must use 1Min timeframe'')
      else if \<not> mb_is_final bar then Inr ([], agg)
      else if ma_emit_on_complete agg then add_complete z bar agg
      else if session_at z (mb_timestamp bar) \<notin> set (ma_accepted agg)
      then with_pending agg (each_target (flush_target z (ma_accepted agg) (mb_symbol bar)) (ma_targets agg) (ma_pending agg))
      else with_pending agg (each_target (add_target z (ma_accepted agg) bar) (ma_targets agg) (ma_pending agg)))"

section \<open>Session aggregators\<close>

record daily_window =
  dw_first :: market_bar
  dw_last :: market_bar
  dw_high :: rat
  dw_low :: rat
  dw_volume :: rat
  dw_weighted :: rat
  dw_trade_count :: "int option"

definition open_window :: "market_bar \<Rightarrow> daily_window" where
  "open_window b = \<lparr> dw_first = b, dw_last = b, dw_high = mb_high b, dw_low = mb_low b,
     dw_volume = dadd 0 (mb_volume b), dw_weighted = dadd 0 (dmul (typical_price b) (mb_volume b)),
     dw_trade_count = mb_trade_count b \<rparr>"

definition append_window :: "daily_window \<Rightarrow> market_bar \<Rightarrow> daily_window" where
  "append_window w b = \<lparr> dw_first = dw_first w, dw_last = b, dw_high = max (dw_high w) (mb_high b),
     dw_low = min (dw_low w) (mb_low b), dw_volume = dadd (dw_volume w) (mb_volume b),
     dw_weighted = dadd (dw_weighted w) (dmul (typical_price b) (mb_volume b)),
     dw_trade_count = (case mb_trade_count b of None \<Rightarrow> dw_trade_count w
       | Some n \<Rightarrow> Some ((case dw_trade_count w of None \<Rightarrow> 0 | Some m \<Rightarrow> m) + n)) \<rparr>"

definition complete_window :: "daily_window \<Rightarrow> instant \<Rightarrow> market_bar result" where
  "complete_window w t =
     make_bar \<lparr> mb_symbol = mb_symbol (dw_first w), mb_timeframe = TF_DAY_1, mb_timestamp = t,
       mb_open = mb_open (dw_first w), mb_high = dw_high w, mb_low = dw_low w, mb_close = mb_close (dw_last w),
       mb_volume = dw_volume w, mb_trade_count = dw_trade_count w,
       mb_vwap = Some (if 0 < dw_volume w then ddiv (dw_weighted w) (dw_volume w) else mb_close (dw_last w)),
       mb_source = ''marketbot-aggregator'', mb_feed = mb_feed (dw_first w), mb_is_final = True \<rparr>"

text \<open>Midnight of the New York day of an instant, and an instant of that day by its wall-clock time.\<close>

definition local_at :: "zone \<Rightarrow> instant \<Rightarrow> duration \<Rightarrow> instant" where
  "local_at z t time' = utc_of z (days (day_of (local_of z t)) + time')"

definition local_time :: "zone \<Rightarrow> instant \<Rightarrow> duration" where "local_time z t = time_of_day (local_of z t)"
definition local_day :: "zone \<Rightarrow> instant \<Rightarrow> int" where "local_day z t = day_of (local_of z t)"

definition add_daily :: "zone \<Rightarrow> market_bar \<Rightarrow> (string, daily_window) dict \<Rightarrow>
    (market_bar option \<times> (string, daily_window) dict) result" where
  "add_daily z bar pending =
     (if mb_timeframe bar \<noteq> TF_MINUTE_1
      then Inl (ValueError ''daily aggregation input must use 1Min timeframe'')
      else if \<not> mb_is_final bar \<or> \<not> is_regular_session z (mb_timestamp bar) then Inr (None, pending)
      else
        let t = mb_timestamp bar;
            window = (case dget pending (mb_symbol bar) of
                None \<Rightarrow> open_window bar
              | Some w \<Rightarrow> if local_day z (mb_timestamp (dw_last w)) \<noteq> local_day z t then open_window bar
                         else append_window w bar)
        in if local_time z t \<noteq> hours 15 + minutes 59 then Inr (None, dput (mb_symbol bar) window pending)
           else if local_time z (mb_timestamp (dw_first window)) \<noteq> regular_open
           then Inr (None, ddel (mb_symbol bar) pending)
           else bind_result (complete_window window (local_at z t 0)) (\<lambda>b.
                  Inr (Some b, ddel (mb_symbol bar) pending)))"

definition four_hour_segment :: "duration \<Rightarrow> duration \<times> nat" where
  "four_hour_segment time' =
     (if time' < hours 13 + minutes 30 then (hours 9 + minutes 30, 16) else (hours 13 + minutes 30, 10))"

definition add_four_hour :: "zone \<Rightarrow> market_bar \<Rightarrow> (string \<times> instant, market_bar list) dict \<Rightarrow>
    (market_bar list \<times> (string \<times> instant, market_bar list) dict) result" where
  "add_four_hour z bar pending =
     (if mb_timeframe bar \<noteq> TF_MINUTE_15
      then Inl (ValueError ''four-hour aggregation input must use 15Min timeframe'')
      else if \<not> mb_is_final bar \<or> \<not> is_regular_session z (mb_timestamp bar) then Inr ([], pending)
      else
        let segment = four_hour_segment (local_time z (mb_timestamp bar));
            start = local_at z (mb_timestamp bar) (fst segment);
            key = (mb_symbol bar, start);
            old = (case dget pending key of None \<Rightarrow> [] | Some bars \<Rightarrow> bars)
        in if old \<noteq> [] \<and> mb_timestamp bar \<le> mb_timestamp (last old) then Inr ([], pending)
           else let bars = old @ [bar] in
             if length bars < snd segment then Inr ([], dput key bars pending)
             else if length bars \<noteq> snd segment then Inr ([], ddel key pending)
             else bind_result (aggregate bars TF_HOUR_4 start) (\<lambda>b. Inr ([b], ddel key pending)))"

definition add_fifteen :: "zone \<Rightarrow> market_bar \<Rightarrow> (string, market_bar list) dict \<Rightarrow>
    (market_bar option \<times> (string, market_bar list) dict) result" where
  "add_fifteen z bar pending =
     (if mb_timeframe bar \<noteq> TF_MINUTE_15 \<or> \<not> mb_is_final bar then Inr (None, pending)
      else if \<not> is_regular_session z (mb_timestamp bar) then Inr (None, pending)
      else
        let t = mb_timestamp bar;
            old = (case dget pending (mb_symbol bar) of None \<Rightarrow> [] | Some bars \<Rightarrow> bars);
            current = (if old \<noteq> [] \<and> local_day z (mb_timestamp (hd old)) \<noteq> local_day z t then [] else old);
            bars = (if current = [] \<or> mb_timestamp (last current) < t then current @ [bar] else current);
            start = local_at z t (hours 9 + minutes 30)
        in if length bars \<noteq> 26 \<or> (\<exists>i\<in>{..<length bars}. mb_timestamp (bars ! i) \<noteq> start + minutes (15 * int i))
           then Inr (None, dput (mb_symbol bar) bars pending)
           else bind_result (aggregate bars TF_DAY_1 (local_at z t 0)) (\<lambda>b.
                  Inr (Some b, ddel (mb_symbol bar) pending)))"

end
