(* ===== verification/Aggregator_Laws.thy ===== *)
theory Aggregator_Laws
  imports Bar_Aggregator
begin

text \<open>
  What the bar aggregators guarantee: the aggregate of valid bars is a valid bar, the running statistics
  of a daily window give the same bar as the batch aggregation, and every bar the minute aggregator emits
  is the aggregate of bars it received, of one symbol, session and bucket.
\<close>

section \<open>Sums\<close>

lemma dsum_pos:
  assumes "0 \<le> a" "\<forall>x\<in>set xs. 0 \<le> x" "0 < a \<or> (\<exists>x\<in>set xs. 0 < x)"
  shows "0 < dsum a xs"
  using assms
proof (induction xs arbitrary: a)
  case (Cons x xs)
  have "0 \<le> dadd a x" using Cons.prems(1,2) by (simp add: dadd_nonneg)
  moreover have "0 < dadd a x \<or> (\<exists>x\<in>set xs. 0 < x)"
    using Cons.prems by (auto simp: dadd_def ctx_pos add_pos_nonneg add_nonneg_pos)
  ultimately show ?case using Cons.IH [of "dadd a x"] Cons.prems(2) by (simp add: dsum_def)
qed (simp add: dsum_def)

lemma dsum_zero: "\<forall>x\<in>set xs. x = 0 \<Longrightarrow> dsum 0 xs = 0"
  by (induction xs) (simp_all add: dsum_def dadd_def)

lemma dsum_pos_member: "\<forall>x\<in>set xs. 0 \<le> x \<Longrightarrow> 0 < dsum 0 xs \<Longrightarrow> \<exists>x\<in>set xs. 0 < x"
  using dsum_zero [of xs] by force

section \<open>The aggregate of valid bars\<close>

lemma valid_bar_facts:
  assumes "valid_bar b"
  shows "0 < mb_open b" "0 < mb_low b" "0 < mb_high b" "0 < mb_close b" "0 \<le> mb_volume b"
    "mb_low b \<le> mb_open b" "mb_open b \<le> mb_high b" "mb_low b \<le> mb_close b" "mb_close b \<le> mb_high b"
    "mb_low b \<le> mb_high b" "identifier_str (mb_symbol b)" "identifier_str (mb_feed b)"
    "opt_all (\<lambda>n. 0 \<le> n) (mb_trade_count b)" "0 < typical_price b"
  using assms by (auto simp: valid_bar_iff market_bar_fields_def typical_price_def split: option.splits)

definition volume_price :: "market_bar list \<Rightarrow> rat" where
  "volume_price bars = (let total = dsum 0 (map mb_volume bars) in
     if 0 < total then ddiv (dsum 0 (map (\<lambda>b. dmul (typical_price b) (mb_volume b)) bars)) total
     else mb_close (last bars))"

definition aggregate_bar :: "market_bar list \<Rightarrow> bar_timeframe \<Rightarrow> instant \<Rightarrow> market_bar" where
  "aggregate_bar bars tf t = \<lparr> mb_symbol = mb_symbol (hd bars), mb_timeframe = tf, mb_timestamp = t,
     mb_open = mb_open (hd bars), mb_high = Max (set (map mb_high bars)), mb_low = Min (set (map mb_low bars)),
     mb_close = mb_close (last bars), mb_volume = dsum 0 (map mb_volume bars),
     mb_trade_count = (if List.map_filter mb_trade_count bars = [] then None
       else Some (sum_list (List.map_filter mb_trade_count bars))),
     mb_vwap = Some (volume_price bars), mb_source = ''marketbot-aggregator'', mb_feed = mb_feed (hd bars),
     mb_is_final = True \<rparr>"

lemma aggregate_eq:
  "bars \<noteq> [] \<Longrightarrow> aggregate bars tf t = make_bar (aggregate_bar bars tf t)"
  by (simp add: aggregate_def aggregate_bar_def volume_price_def Let_def)

lemma volume_price_pos:
  assumes "bars \<noteq> []" "\<forall>b\<in>set bars. valid_bar b"
  shows "0 < volume_price bars"
proof (cases "0 < dsum 0 (map mb_volume bars)")
  case True
  have "\<forall>x\<in>set (map mb_volume bars). 0 \<le> x" using assms(2) valid_bar_facts(5) by auto
  from dsum_pos_member [OF this True] obtain b where b: "b \<in> set bars" "0 < mb_volume b" by auto
  have "\<forall>x\<in>set (map (\<lambda>b. dmul (typical_price b) (mb_volume b)) bars). 0 \<le> x"
    using assms(2) valid_bar_facts(5) less_imp_le [OF valid_bar_facts(14)] by (auto intro: dmul_nonneg)
  moreover have "0 < dmul (typical_price b) (mb_volume b)"
    using b assms(2) valid_bar_facts(14) by (simp add: dmul_def ctx_pos)
  ultimately have "0 < dsum 0 (map (\<lambda>b. dmul (typical_price b) (mb_volume b)) bars)"
    using b(1) by (intro dsum_pos) auto
  with True show ?thesis by (simp add: volume_price_def ddiv_def ctx_pos)
next
  case False
  with assms valid_bar_facts(4) show ?thesis by (simp add: volume_price_def)
qed

lemma trade_count_nonneg:
  assumes "\<forall>b\<in>set bars. valid_bar b"
  shows "0 \<le> sum_list (List.map_filter mb_trade_count bars)"
proof (rule sum_list_nonneg)
  fix n
  assume "n \<in> set (List.map_filter mb_trade_count bars)"
  then obtain b where "b \<in> set bars" "mb_trade_count b = Some n" by (auto simp: List.map_filter_def)
  with assms valid_bar_facts(13) [of b] show "0 \<le> n" by simp
qed

lemma aggregator_source: "identifier_str ''marketbot-aggregator''"
  by code_simp

lemma aggregate_bar_valid:
  assumes "bars \<noteq> []" "\<forall>b\<in>set bars. valid_bar b"
  shows "valid_bar (aggregate_bar bars tf t)"
proof -
  have h: "hd bars \<in> set bars" and l: "last bars \<in> set bars" using assms(1) by simp_all
  have hi: "mb_high b \<le> Max (set (map mb_high bars))" and lo: "Min (set (map mb_low bars)) \<le> mb_low b"
    if "b \<in> set bars" for b using that by simp_all
  have pos: "0 < Min (set (map mb_low bars))" using assms valid_bar_facts(2) by (subst Min_gr_iff) auto
  have open': "mb_open (hd bars) \<le> Max (set (map mb_high bars))" "Min (set (map mb_low bars)) \<le> mb_open (hd bars)"
    using hi [OF h] lo [OF h] valid_bar_facts(6,7) assms(2) h by (meson order_trans)+
  have close: "mb_close (last bars) \<le> Max (set (map mb_high bars))" "Min (set (map mb_low bars)) \<le> mb_close (last bars)"
    using hi [OF l] lo [OF l] valid_bar_facts(8,9) assms(2) l by (meson order_trans)+
  have order: "Min (set (map mb_low bars)) \<le> Max (set (map mb_high bars))" using close by linarith
  have "0 \<le> dsum 0 (map mb_volume bars)" using assms(2) valid_bar_facts(5) by (intro dsum_nonneg) auto
  then show ?thesis
    using assms(2) h pos open' close order volume_price_pos [OF assms] trade_count_nonneg [OF assms(2)]
      valid_bar_facts(1,11,12) [of "hd bars"] valid_bar_facts(4) [of "last bars"] l aggregator_source
    by (simp add: valid_bar_iff market_bar_fields_def aggregate_bar_def)
qed

lemma aggregate_valid:
  "bars \<noteq> [] \<Longrightarrow> \<forall>b\<in>set bars. valid_bar b \<Longrightarrow> aggregate bars tf t = Inr (aggregate_bar bars tf t)"
  using aggregate_bar_valid [of bars tf t] by (simp add: aggregate_eq valid_bar_def)

section \<open>Daily windows\<close>

lemma map_filter_snoc: "List.map_filter f (xs @ [x]) = List.map_filter f xs @ (case f x of None \<Rightarrow> [] | Some y \<Rightarrow> [y])"
  by (simp add: List.map_filter_def split: option.splits)

lemma append_window_sel:
  "dw_first (append_window w b) = dw_first w" "dw_last (append_window w b) = b"
  "dw_high (append_window w b) = max (dw_high w) (mb_high b)" "dw_low (append_window w b) = min (dw_low w) (mb_low b)"
  "dw_volume (append_window w b) = dadd (dw_volume w) (mb_volume b)"
  "dw_weighted (append_window w b) = dadd (dw_weighted w) (dmul (typical_price b) (mb_volume b))"
  "dw_trade_count (append_window w b) = (case mb_trade_count b of None \<Rightarrow> dw_trade_count w
     | Some n \<Rightarrow> Some ((case dw_trade_count w of None \<Rightarrow> 0 | Some m \<Rightarrow> m) + n))"
  by (simp_all add: append_window_def)

lemma Max_Min_snoc:
  fixes a x :: rat
  assumes "finite A"
  shows "max (Max (insert a A)) x = max a (Max (insert x A))" "min (Min (insert a A)) x = min a (Min (insert x A))"
  using assms by (cases "A = {}"; simp add: max.commute max.left_commute min.commute min.left_commute)+

lemma window_statistics:
  "let w = foldl append_window (open_window b) bs; bars = b # bs in
   dw_first w = b \<and> dw_last w = last bars \<and> dw_high w = Max (set (map mb_high bars)) \<and>
   dw_low w = Min (set (map mb_low bars)) \<and> dw_volume w = dsum 0 (map mb_volume bars) \<and>
   dw_weighted w = dsum 0 (map (\<lambda>b. dmul (typical_price b) (mb_volume b)) bars) \<and>
   dw_trade_count w = (if List.map_filter mb_trade_count bars = [] then None
     else Some (sum_list (List.map_filter mb_trade_count bars)))"
proof (induction bs rule: rev_induct)
  case Nil
  show ?case by (simp add: open_window_def dsum_def List.map_filter_def split: option.splits)
next
  case (snoc x bs)
  let ?w = "foldl append_window (open_window b) bs"
  define c where "c = List.map_filter mb_trade_count (b # bs)"
  have mf: "List.map_filter mb_trade_count (b # bs @ [x]) =
      c @ (case mb_trade_count x of None \<Rightarrow> [] | Some n \<Rightarrow> [n])"
    unfolding c_def using map_filter_snoc [of mb_trade_count "b # bs" x] by simp
  note w = snoc [unfolded Let_def, folded c_def]
  have fold: "foldl append_window (open_window b) (bs @ [x]) = append_window ?w x" by simp
  have "dw_trade_count ?w = (if c = [] then None else Some (sum_list c))" using w by simp
  then have "dw_trade_count (append_window ?w x) = (if List.map_filter mb_trade_count (b # bs @ [x]) = [] then None
      else Some (sum_list (List.map_filter mb_trade_count (b # bs @ [x]))))"
    unfolding mf by (simp add: append_window_sel split: option.splits)
  moreover have "dw_volume (append_window ?w x) = dsum 0 (map mb_volume (b # bs @ [x]))"
    "dw_weighted (append_window ?w x) = dsum 0 (map (\<lambda>b. dmul (typical_price b) (mb_volume b)) (b # bs @ [x]))"
    "dw_high (append_window ?w x) = Max (set (map mb_high (b # bs @ [x])))"
    "dw_low (append_window ?w x) = Min (set (map mb_low (b # bs @ [x])))"
    using w by (simp_all add: append_window_sel dsum_def Max_Min_snoc)
  ultimately show ?case using w unfolding Let_def fold by (simp only: append_window_sel) simp
qed

lemma window_is_aggregate:
  "complete_window (foldl append_window (open_window b) bs) t = aggregate (b # bs) TF_DAY_1 t"
  using window_statistics [of b bs]
  by (simp add: aggregate_eq complete_window_def aggregate_bar_def volume_price_def Let_def)

section \<open>Buckets\<close>

lemma bucket_start_bounds:
  assumes "0 < m"
  shows "bucket_start t m \<le> t" "t < bucket_start t m + minutes m"
proof -
  define h where "h = t mod hours 1"
  define k where "k = h div minutes 1"
  have m1: "minutes n = n * 60000000" for n by (simp add: duration_defs)
  have k: "k * 60000000 \<le> h" "h < k * 60000000 + 60000000" unfolding k_def m1 by presburger+
  have d: "k div m * m \<le> k" "k < k div m * m + m"
    using div_mult_mod_eq [of k m] pos_mod_bound [OF assms, of k] pos_mod_sign [OF assms, of k] by linarith+
  have "bucket_start t m = t - h + minutes (k div m * m)"
    by (simp add: bucket_start_def Let_def h_def k_def)
  with k d show "bucket_start t m \<le> t" "t < bucket_start t m + minutes m"
    unfolding m1 by linarith+
qed

lemma target_minutes_pos: "target_minutes target = Some m \<Longrightarrow> 0 < m"
  by (cases target) (auto simp: target_minutes_def)

section \<open>What is pending\<close>

definition group_ok :: "zone \<Rightarrow> minute_aggregator \<Rightarrow> market_bar set \<Rightarrow> string \<Rightarrow> bar_timeframe \<Rightarrow> market_bar list \<Rightarrow> bool" where
  "group_ok z agg R s target bars \<longleftrightarrow> target \<in> set (ma_targets agg) \<and> bars \<noteq> [] \<and> set bars \<subseteq> R \<and>
     (\<forall>b\<in>set bars. valid_bar b \<and> mb_symbol b = s \<and> session_at z (mb_timestamp b) \<in> set (ma_accepted agg) \<and>
        (\<not> ma_emit_on_complete agg \<longrightarrow> session_at z (mb_timestamp b) = session_at z (mb_timestamp (hd bars))) \<and>
        target_start target (mb_timestamp b) = target_start target (mb_timestamp (hd bars)))"

definition pending_ok :: "zone \<Rightarrow> minute_aggregator \<Rightarrow> market_bar set \<Rightarrow> pending \<Rightarrow> bool" where
  "pending_ok z agg R pending \<longleftrightarrow>
     (\<forall>s target bars. dget pending (s, target) = Some bars \<longrightarrow> group_ok z agg R s target bars)"

definition emitted_ok :: "zone \<Rightarrow> minute_aggregator \<Rightarrow> market_bar set \<Rightarrow> market_bar \<Rightarrow> bool" where
  "emitted_ok z agg R b \<longleftrightarrow> (\<exists>bars. group_ok z agg R (mb_symbol b) (mb_timeframe b) bars \<and>
     mb_timestamp b = target_start (mb_timeframe b) (mb_timestamp (hd bars)) \<and>
     b = aggregate_bar bars (mb_timeframe b) (mb_timestamp b) \<and>
     (ma_emit_on_complete agg \<longrightarrow> int (length bars) = the (target_minutes (mb_timeframe b)) \<and>
        (\<forall>i<length bars. mb_timestamp (bars ! i) = mb_timestamp b + minutes (int i))))"

lemma pending_okD: "pending_ok z agg R pending \<Longrightarrow> dget pending (s, target) = Some bars \<Longrightarrow> group_ok z agg R s target bars"
  by (simp add: pending_ok_def)

lemma pending_ok_dput:
  "pending_ok z agg R pending \<Longrightarrow> group_ok z agg R s target bars \<Longrightarrow> pending_ok z agg R (dput (s, target) bars pending)"
  by (simp add: pending_ok_def dget_dput)

lemma pending_ok_ddel: "pending_ok z agg R pending \<Longrightarrow> pending_ok z agg R (ddel key pending)"
  by (simp add: pending_ok_def dget_ddel)

lemma group_ok_single:
  "target \<in> set (ma_targets agg) \<Longrightarrow> valid_bar b \<Longrightarrow> b \<in> R \<Longrightarrow> session_at z (mb_timestamp b) \<in> set (ma_accepted agg) \<Longrightarrow>
   group_ok z agg R (mb_symbol b) target [b]"
  by (simp add: group_ok_def)

lemma group_ok_snoc:
  assumes "group_ok z agg R (mb_symbol b) target bars" "valid_bar b" "b \<in> R"
    "session_at z (mb_timestamp b) \<in> set (ma_accepted agg)"
    "target_start target (mb_timestamp b) = target_start target (mb_timestamp (hd bars))"
    "\<not> ma_emit_on_complete agg \<longrightarrow> session_at z (mb_timestamp b) = session_at z (mb_timestamp (hd bars))"
  shows "group_ok z agg R (mb_symbol b) target (bars @ [b])"
proof -
  have "bars \<noteq> []" using assms(1) by (simp add: group_ok_def)
  then have hd: "hd (bars @ [b]) = hd bars" "bars @ [b] \<noteq> []" "set (bars @ [b]) = insert b (set bars)" by simp_all
  show ?thesis using assms unfolding group_ok_def hd by blast
qed

lemma group_aggregate:
  assumes "group_ok z agg R s target bars"
  shows "aggregate bars target t = Inr (aggregate_bar bars target t)" "mb_symbol (aggregate_bar bars target t) = s"
proof -
  have g: "bars \<noteq> []" "\<forall>b\<in>set bars. valid_bar b \<and> mb_symbol b = s"
    using assms unfolding group_ok_def by blast+
  then show "aggregate bars target t = Inr (aggregate_bar bars target t)"
    "mb_symbol (aggregate_bar bars target t) = s" by (simp_all add: aggregate_valid aggregate_bar_def)
qed

lemma emitted_group:
  assumes "group_ok z agg R s target bars" "t = target_start target (mb_timestamp (hd bars))"
    "ma_emit_on_complete agg \<longrightarrow> int (length bars) = the (target_minutes target) \<and>
       (\<forall>i<length bars. mb_timestamp (bars ! i) = t + minutes (int i))"
  shows "emitted_ok z agg R (aggregate_bar bars target t)"
  unfolding emitted_ok_def using assms group_aggregate(2) [OF assms(1)]
  by (intro exI [of _ bars]) (simp add: aggregate_bar_def)

section \<open>Each step keeps it\<close>

definition step_ok :: "zone \<Rightarrow> minute_aggregator \<Rightarrow> market_bar set \<Rightarrow> (market_bar list \<times> pending) result \<Rightarrow> bool" where
  "step_ok z agg R r \<longleftrightarrow> (\<exists>out pending. r = Inr (out, pending) \<and> pending_ok z agg R pending \<and>
     (\<forall>b\<in>set out. emitted_ok z agg R b))"

lemma step_okI:
  "pending_ok z agg R pending \<Longrightarrow> \<forall>b\<in>set out. emitted_ok z agg R b \<Longrightarrow> step_ok z agg R (Inr (out, pending))"
  by (simp add: step_ok_def)

lemma step_ok_emit:
  assumes "group_ok z agg R s target bars" "t = target_start target (mb_timestamp (hd bars))"
    "ma_emit_on_complete agg \<longrightarrow> int (length bars) = the (target_minutes target) \<and>
       (\<forall>i<length bars. mb_timestamp (bars ! i) = t + minutes (int i))" "pending_ok z agg R pending"
  shows "step_ok z agg R (bind_result (aggregate bars target t) (\<lambda>b. Inr ([b], pending)))"
  using emitted_group [OF assms(1-3)] assms(4) group_aggregate(1) [OF assms(1)] by (simp add: step_ok_def)

lemma each_target_ok:
  assumes "\<And>target pending. target \<in> set targets \<Longrightarrow> pending_ok z agg R pending \<Longrightarrow> step_ok z agg R (f target pending)"
    "pending_ok z agg R pending"
  shows "step_ok z agg R (each_target f targets pending)"
  using assms
proof (induction targets arbitrary: pending)
  case (Cons target targets)
  from Cons.prems(1) [of target pending] Cons.prems(2) obtain out p where
    p: "f target pending = Inr (out, p)" "pending_ok z agg R p" "\<forall>b\<in>set out. emitted_ok z agg R b"
    by (auto simp: step_ok_def)
  from Cons.IH [OF _ p(2)] Cons.prems(1) obtain out' p' where
    "each_target f targets p = Inr (out', p')" "pending_ok z agg R p'" "\<forall>b\<in>set out'. emitted_ok z agg R b"
    by (auto simp: step_ok_def)
  with p show ?case by (auto simp: step_ok_def)
qed (simp add: step_ok_def)

lemma add_target_ok:
  assumes "\<not> ma_emit_on_complete agg" "target \<in> set (ma_targets agg)" "valid_bar bar" "bar \<in> R"
    "session_at z (mb_timestamp bar) \<in> set (ma_accepted agg)" "pending_ok z agg R pending"
  shows "step_ok z agg R (add_target z (ma_accepted agg) bar target pending)"
proof -
  note single = group_ok_single [OF assms(2-5)]
  note fresh = pending_ok_dput [OF assms(6) single]
  show ?thesis
  proof (cases "dget pending (mb_symbol bar, target)")
    case None
    with fresh show ?thesis by (simp add: add_target_def step_okI)
  next
    case (Some bars)
    note group = pending_okD [OF assms(6) Some]
    have emit: "step_ok z agg R (bind_result (aggregate bars target (target_start target (mb_timestamp (hd bars))))
        (\<lambda>b. Inr ([b], dput (mb_symbol bar, target) [bar] pending)))"
      using group fresh assms(1) by (intro step_ok_emit) simp_all
    have grow: "step_ok z agg R (Inr ([], dput (mb_symbol bar, target) (bars @ [bar]) pending))"
      if "session_at z (mb_timestamp (hd bars)) = session_at z (mb_timestamp bar)"
        "target_start target (mb_timestamp bar) = target_start target (mb_timestamp (hd bars))"
      using group assms(3-6) that by (intro step_okI pending_ok_dput group_ok_snoc) simp_all
    show ?thesis
      unfolding add_target_def Let_def Some option.case using emit grow fresh assms(6)
      by (simp add: step_okI)
  qed
qed

lemma flush_target_ok:
  assumes "\<not> ma_emit_on_complete agg" "pending_ok z agg R pending"
  shows "step_ok z agg R (flush_target z (ma_accepted agg) s target pending)"
proof (cases "dget pending (s, target)")
  case None
  with assms show ?thesis by (simp add: flush_target_def step_okI)
next
  case (Some bars)
  have "step_ok z agg R (bind_result (aggregate bars target (target_start target (mb_timestamp (hd bars))))
      (\<lambda>b. Inr ([b], ddel (s, target) pending)))"
    using pending_okD [OF assms(2) Some] pending_ok_ddel [OF assms(2)] assms(1) by (intro step_ok_emit) simp_all
  with pending_ok_ddel [OF assms(2)] show ?thesis
    unfolding flush_target_def Let_def Some option.case by (simp add: step_okI)
qed

lemma complete_target_ok:
  assumes "ma_emit_on_complete agg" "target \<in> set (ma_targets agg)" "valid_bar bar" "bar \<in> R"
    "session_at z (mb_timestamp bar) \<in> set (ma_accepted agg)" "pending_ok z agg R pending"
  shows "step_ok z agg R (complete_target bar target pending)"
proof -
  let ?m = "the (target_minutes target)" and ?key = "(mb_symbol bar, target)"
  let ?start = "target_start target (mb_timestamp bar)"
  define old where "old = (case dget pending ?key of None \<Rightarrow> [] | Some bars \<Rightarrow> bars)"
  define current where "current = (if old \<noteq> [] \<and> target_start target (mb_timestamp (hd old)) \<noteq> ?start then [] else old)"
  define bars where "bars = (if current = [] \<or> mb_timestamp (last current) < mb_timestamp bar then current @ [bar] else current)"
  have old: "old = [] \<or> group_ok z agg R (mb_symbol bar) target old"
    using pending_okD [OF assms(6)] by (auto simp: old_def split: option.splits)
  then have cur: "current = [] \<or> group_ok z agg R (mb_symbol bar) target current \<and>
      target_start target (mb_timestamp (hd current)) = ?start"
    by (auto simp: current_def)
  have group: "group_ok z agg R (mb_symbol bar) target bars \<and> target_start target (mb_timestamp (hd bars)) = ?start"
  proof (cases "current = []")
    case True
    with group_ok_single [OF assms(2-5)] show ?thesis by (simp add: bars_def)
  next
    case False
    with cur have c: "group_ok z agg R (mb_symbol bar) target current"
        "target_start target (mb_timestamp (hd current)) = ?start" by simp_all
    have "group_ok z agg R (mb_symbol bar) target (current @ [bar])"
      using assms(1) c(2) by (intro group_ok_snoc [OF c(1) assms(3-5)]) simp_all
    with c False show ?thesis by (simp add: bars_def)
  qed
  have run: "complete_target bar target pending =
      (if int (length bars) = ?m \<and> (\<forall>i\<in>{..<length bars}. mb_timestamp (bars ! i) = ?start + minutes (int i))
       then bind_result (aggregate bars target ?start) (\<lambda>b. Inr ([b], ddel ?key pending))
       else Inr ([], dput ?key bars pending))"
    unfolding complete_target_def Let_def target_start_def [symmetric] old_def [symmetric]
      current_def [symmetric] bars_def [symmetric] by (rule refl)
  show ?thesis
  proof (cases "int (length bars) = ?m \<and> (\<forall>i\<in>{..<length bars}. mb_timestamp (bars ! i) = ?start + minutes (int i))")
    case True
    then show ?thesis unfolding run if_P [OF True] using group pending_ok_ddel [OF assms(6)]
      by (intro step_ok_emit [where s = "mb_symbol bar"]) simp_all
  next
    case False
    then show ?thesis unfolding run if_not_P [OF False] using group pending_ok_dput [OF assms(6)]
      by (intro step_okI) simp_all
  qed
qed

lemma group_ok_mono: "group_ok z agg R s target bars \<Longrightarrow> R \<subseteq> R' \<Longrightarrow> group_ok z agg R' s target bars"
  unfolding group_ok_def by blast

lemma pending_ok_mono: "pending_ok z agg R pending \<Longrightarrow> R \<subseteq> R' \<Longrightarrow> pending_ok z agg R' pending"
  unfolding pending_ok_def using group_ok_mono by blast

lemma emitted_ok_mono: "emitted_ok z agg R b \<Longrightarrow> R \<subseteq> R' \<Longrightarrow> emitted_ok z agg R' b"
  unfolding emitted_ok_def using group_ok_mono by blast

lemma same_config:
  assumes "ma_targets agg' = ma_targets agg" "ma_accepted agg' = ma_accepted agg"
    "ma_emit_on_complete agg' = ma_emit_on_complete agg"
  shows "pending_ok z agg' R = pending_ok z agg R" "emitted_ok z agg' R = emitted_ok z agg R"
  using assms by (simp_all add: fun_eq_iff pending_ok_def emitted_ok_def group_ok_def)

lemma pending_ok_ddel_all:
  "pending_ok z agg R pending \<Longrightarrow> pending_ok z agg R (foldl (\<lambda>d target. ddel (s, target) d) pending targets)"
  by (induction targets arbitrary: pending) (simp_all add: pending_ok_ddel)

definition agg_ok :: "zone \<Rightarrow> market_bar set \<Rightarrow> minute_aggregator \<Rightarrow> bool" where
  "agg_ok z R agg \<longleftrightarrow> pending_ok z agg R (ma_pending agg)"

abbreviation same_settings :: "minute_aggregator \<Rightarrow> minute_aggregator \<Rightarrow> bool" where
  "same_settings agg agg' \<equiv> ma_targets agg' = ma_targets agg \<and> ma_accepted agg' = ma_accepted agg \<and>
     ma_emit_on_complete agg' = ma_emit_on_complete agg"

lemma with_pending_ok:
  assumes "step_ok z agg R r" "same_settings agg agg1"
  shows "\<exists>out agg'. with_pending agg1 r = Inr (out, agg') \<and> agg_ok z R agg' \<and> same_settings agg agg' \<and>
    (\<forall>b\<in>set out. emitted_ok z agg R b)"
proof -
  from assms(1) obtain out p where p: "r = Inr (out, p)" "pending_ok z agg R p" "\<forall>b\<in>set out. emitted_ok z agg R b"
    by (auto simp: step_ok_def)
  let ?agg = "agg1 \<lparr> ma_pending := p \<rparr>"
  have "agg_ok z R ?agg" using p(2) same_config(1) [of ?agg agg z R] assms(2) by (simp add: agg_ok_def)
  with p assms(2) show ?thesis by (auto simp: with_pending_def)
qed

lemma add_minute_ok:
  assumes "mb_timeframe bar = TF_MINUTE_1" "valid_bar bar" "bar \<in> R" "agg_ok z R agg"
  shows "\<exists>out agg'. add_minute z bar agg = Inr (out, agg') \<and> agg_ok z R agg' \<and> same_settings agg agg' \<and>
    (\<forall>b\<in>set out. emitted_ok z agg R b)"
proof -
  have p: "pending_ok z agg R (ma_pending agg)" using assms(4) by (simp add: agg_ok_def)
  let ?open = "session_at z (mb_timestamp bar) \<in> set (ma_accepted agg)"
  consider (skip) "\<not> mb_is_final bar" | (complete) "mb_is_final bar" "ma_emit_on_complete agg"
    | (closed) "mb_is_final bar" "\<not> ma_emit_on_complete agg" "\<not> ?open"
    | (waiting) "mb_is_final bar" "\<not> ma_emit_on_complete agg" ?open by blast
  then show ?thesis
  proof cases
    case skip
    with assms show ?thesis by (simp add: add_minute_def)
  next
    case complete
    let ?late = "case dget (ma_latest agg) (mb_symbol bar) of None \<Rightarrow> False | Some previous \<Rightarrow> mb_timestamp bar \<le> previous"
    let ?agg = "agg \<lparr> ma_latest := dput (mb_symbol bar) (mb_timestamp bar) (ma_latest agg) \<rparr>"
    have run: "add_minute z bar agg = (if ?late then Inr ([], agg) else if \<not> ?open
        then Inr ([], ?agg \<lparr> ma_pending := foldl (\<lambda>d target. ddel (mb_symbol bar, target) d) (ma_pending agg) (ma_targets agg) \<rparr>)
        else with_pending ?agg (each_target (complete_target bar) (ma_targets agg) (ma_pending agg)))"
      using assms(1) complete by (simp add: add_minute_def add_complete_def Let_def)
    let ?closed = "?agg \<lparr> ma_pending := foldl (\<lambda>d target. ddel (mb_symbol bar, target) d) (ma_pending agg) (ma_targets agg) \<rparr>"
    have closed: "agg_ok z R ?closed"
      using pending_ok_ddel_all [OF p] same_config(1) [of ?closed agg z R] by (simp add: agg_ok_def)
    have "step_ok z agg R (each_target (complete_target bar) (ma_targets agg) (ma_pending agg))" if ?open
      using complete_target_ok [OF complete(2) _ assms(2,3) that] p by (intro each_target_ok)
    then have open': "?open \<Longrightarrow> \<exists>out agg'. with_pending ?agg (each_target (complete_target bar) (ma_targets agg) (ma_pending agg)) = Inr (out, agg') \<and>
        agg_ok z R agg' \<and> same_settings agg agg' \<and> (\<forall>b\<in>set out. emitted_ok z agg R b)"
      by (rule with_pending_ok) simp_all
    show ?thesis
    proof (cases ?late)
      case True
      with assms(4) show ?thesis unfolding run by simp
    next
      case False
      then show ?thesis unfolding run using closed open' by (cases ?open) simp_all
    qed
  next
    case closed
    have "step_ok z agg R (each_target (flush_target z (ma_accepted agg) (mb_symbol bar)) (ma_targets agg) (ma_pending agg))"
      using flush_target_ok [OF closed(2)] p by (intro each_target_ok)
    from with_pending_ok [OF this, of agg] closed assms(1) show ?thesis by (simp add: add_minute_def)
  next
    case waiting
    have "step_ok z agg R (each_target (add_target z (ma_accepted agg) bar) (ma_targets agg) (ma_pending agg))"
      using add_target_ok [OF waiting(2) _ assms(2,3) waiting(3)] p by (intro each_target_ok)
    from with_pending_ok [OF this, of agg] waiting assms(1) show ?thesis by (simp add: add_minute_def)
  qed
qed

text \<open>A run over a feed of bars.\<close>

fun add_minutes :: "zone \<Rightarrow> market_bar list \<Rightarrow> minute_aggregator \<Rightarrow> (market_bar list \<times> minute_aggregator) result" where
  "add_minutes z [] agg = Inr ([], agg)"
| "add_minutes z (b # bs) agg =
     bind_result (add_minute z b agg) (\<lambda>(out, agg'). bind_result (add_minutes z bs agg') (\<lambda>(out', agg'').
       Inr (out @ out', agg'')))"

lemma add_minutes_ok:
  assumes "\<forall>b\<in>set bars. mb_timeframe b = TF_MINUTE_1 \<and> valid_bar b \<and> b \<in> R" "agg_ok z R agg"
  shows "\<exists>out agg'. add_minutes z bars agg = Inr (out, agg') \<and> (\<forall>b\<in>set out. emitted_ok z agg R b)"
  using assms
proof (induction bars arbitrary: agg)
  case (Cons b bars)
  obtain out agg1 where one: "add_minute z b agg = Inr (out, agg1)" "agg_ok z R agg1" "same_settings agg agg1"
      "\<forall>b\<in>set out. emitted_ok z agg R b"
    using add_minute_ok [of b R z agg] Cons.prems by auto
  obtain out' agg' where rest: "add_minutes z bars agg1 = Inr (out', agg')" "\<forall>b\<in>set out'. emitted_ok z agg1 R b"
    using Cons.IH [OF _ one(2)] Cons.prems(1) by auto
  have "emitted_ok z agg1 R = emitted_ok z agg R" using one(3) by (intro same_config(2)) simp_all
  with one rest show ?case by auto
qed simp

lemma make_aggregator_Inr:
  "make_aggregator targets accepted at_once = Inr agg \<Longrightarrow> ma_targets agg = targets \<and> ma_pending agg = [] \<and>
     ma_emit_on_complete agg = at_once \<and>
     ma_accepted agg = (case accepted of Some a \<Rightarrow> a | None \<Rightarrow> [MS_REGULAR]) \<and>
     (\<forall>t\<in>set targets. target_minutes t \<noteq> None)"
  by (auto simp: make_aggregator_def Let_def split: if_splits)

section \<open>Properties\<close>

text \<open>C18: The minute aggregator never fails on valid minute bars and never invents data: every bar it emits
  is valid and is the aggregate (first open, highest high, lowest low, last close, summed volume) of bars it
  received, of one symbol and of accepted sessions, all within the bucket that starts at the bar's timestamp;
  in the mode that emits on completion they are exactly the consecutive minutes of the bucket, otherwise
  they belong to one session.\<close>

theorem minute_aggregation_sound:
  assumes "make_aggregator targets accepted at_once = Inr agg"
    "\<forall>b\<in>set bars. mb_timeframe b = TF_MINUTE_1 \<and> valid_bar b"
  shows "\<exists>out agg'. add_minutes z bars agg = Inr (out, agg') \<and> (\<forall>b\<in>set out. valid_bar b \<and>
    mb_timeframe b \<in> set targets \<and>
    (\<exists>used m. set used \<subseteq> set bars \<and> target_minutes (mb_timeframe b) = Some m \<and>
       b = aggregate_bar used (mb_timeframe b) (mb_timestamp b) \<and>
       (\<forall>u\<in>set used. mb_symbol u = mb_symbol b \<and> mb_timestamp b \<le> mb_timestamp u \<and>
          mb_timestamp u < mb_timestamp b + minutes m \<and> session_at z (mb_timestamp u) \<in> set (ma_accepted agg)) \<and>
       (if at_once then map mb_timestamp used = map (\<lambda>i. mb_timestamp b + minutes (int i)) [0..<nat m]
        else \<forall>u\<in>set used. session_at z (mb_timestamp u) = session_at z (mb_timestamp (hd used)))))"
proof -
  note agg = make_aggregator_Inr [OF assms(1)]
  have "agg_ok z (set bars) agg" using agg by (simp add: agg_ok_def pending_ok_def)
  then obtain out agg' where out: "add_minutes z bars agg = Inr (out, agg')" "\<forall>b\<in>set out. emitted_ok z agg (set bars) b"
    using add_minutes_ok [of bars "set bars"] assms(2) by blast
  have "valid_bar b \<and> mb_timeframe b \<in> set targets \<and> (\<exists>used m. set used \<subseteq> set bars \<and>
       target_minutes (mb_timeframe b) = Some m \<and> b = aggregate_bar used (mb_timeframe b) (mb_timestamp b) \<and>
       (\<forall>u\<in>set used. mb_symbol u = mb_symbol b \<and> mb_timestamp b \<le> mb_timestamp u \<and>
          mb_timestamp u < mb_timestamp b + minutes m \<and> session_at z (mb_timestamp u) \<in> set (ma_accepted agg)) \<and>
       (if at_once then map mb_timestamp used = map (\<lambda>i. mb_timestamp b + minutes (int i)) [0..<nat m]
        else \<forall>u\<in>set used. session_at z (mb_timestamp u) = session_at z (mb_timestamp (hd used))))"
    if b: "b \<in> set out" for b
  proof -
    from out(2) b obtain used where used: "group_ok z agg (set bars) (mb_symbol b) (mb_timeframe b) used"
        "mb_timestamp b = target_start (mb_timeframe b) (mb_timestamp (hd used))"
        "b = aggregate_bar used (mb_timeframe b) (mb_timestamp b)"
        "at_once \<longrightarrow> int (length used) = the (target_minutes (mb_timeframe b)) \<and>
          (\<forall>i<length used. mb_timestamp (used ! i) = mb_timestamp b + minutes (int i))"
      using agg unfolding emitted_ok_def by blast
    then have g: "mb_timeframe b \<in> set targets" "used \<noteq> []" "set used \<subseteq> set bars"
      "\<forall>u\<in>set used. valid_bar u \<and> mb_symbol u = mb_symbol b \<and> session_at z (mb_timestamp u) \<in> set (ma_accepted agg) \<and>
         (\<not> at_once \<longrightarrow> session_at z (mb_timestamp u) = session_at z (mb_timestamp (hd used))) \<and>
         target_start (mb_timeframe b) (mb_timestamp u) = mb_timestamp b"
      using agg unfolding group_ok_def by metis+
    obtain m where m: "target_minutes (mb_timeframe b) = Some m" using agg g(1) by blast
    have bounds: "mb_timestamp b \<le> mb_timestamp u \<and> mb_timestamp u < mb_timestamp b + minutes m" if "u \<in> set used" for u
      using bucket_start_bounds [OF target_minutes_pos [OF m], of "mb_timestamp u"] g(4) that m
      by (auto simp: target_start_def)
    have "valid_bar b" using aggregate_bar_valid [OF g(2)] g(4) used(3) by metis
    moreover have "map mb_timestamp used = map (\<lambda>i. mb_timestamp b + minutes (int i)) [0..<nat m]" if at_once
      using used(4) that m by (intro nth_equalityI) auto
    moreover have "(if at_once then map mb_timestamp used = map (\<lambda>i. mb_timestamp b + minutes (int i)) [0..<nat m]
        else \<forall>u\<in>set used. session_at z (mb_timestamp u) = session_at z (mb_timestamp (hd used)))"
      unfolding if_bool_eq_conj using calculation(2) g(4) by blast
    ultimately show ?thesis using g m bounds used(3) by blast
  qed
  with out(1) show ?thesis by blast
qed

definition minute_bar :: "int \<Rightarrow> market_bar" where
  "minute_bar n = \<lparr> mb_symbol = ''A'', mb_timeframe = TF_MINUTE_1, mb_timestamp = days 4 + hours 15 + minutes n,
     mb_open = 10, mb_high = 12, mb_low = 9, mb_close = 11, mb_volume = 5, mb_trade_count = Some 2,
     mb_vwap = Some 10, mb_source = ''alpaca'', mb_feed = ''iex'', mb_is_final = True \<rparr>"

theorem minute_aggregation_sound_witness:
  "\<exists>out agg'. add_minutes eastern_standard (map minute_bar [0, 1, 2, 3, 4])
     \<lparr> ma_targets = [TF_MINUTE_5], ma_emit_on_complete = True, ma_accepted = [MS_REGULAR], ma_pending = [], ma_latest = [] \<rparr>
       = Inr (out, agg') \<and> length out = 1 \<and> (\<forall>b\<in>set out. valid_bar b \<and> mb_timeframe b = TF_MINUTE_5)"
proof -
  let ?agg = "\<lparr> ma_targets = [TF_MINUTE_5], ma_emit_on_complete = True, ma_accepted = [MS_REGULAR], ma_pending = [], ma_latest = [] \<rparr>"
  have agg: "make_aggregator [TF_MINUTE_5] None True = Inr ?agg" by code_simp
  have bars: "\<forall>b\<in>set (map minute_bar [0, 1, 2, 3, 4]). mb_timeframe b = TF_MINUTE_1 \<and> valid_bar b" by code_simp
  have "(case add_minutes eastern_standard (map minute_bar [0, 1, 2, 3, 4]) ?agg of
      Inr p \<Rightarrow> length (fst p) = 1 | Inl _ \<Rightarrow> False)" by code_simp
  with minute_aggregation_sound [OF agg bars, of eastern_standard] show ?thesis by auto
qed

text \<open>C19: Streaming equals batch: the running statistics a daily window keeps while minutes arrive complete
  to exactly the bar the batch aggregation of the same minutes gives, decimal rounding included.\<close>

theorem daily_window_is_aggregate:
  "complete_window (foldl append_window (open_window b) bs) t = aggregate (b # bs) TF_DAY_1 t"
  by (rule window_is_aggregate)

end
