(* ===== verification/Bar_Series.thy ===== *)
theory Bar_Series
  imports Market_Session
begin

text \<open>
  The bounded in-memory bar history of the analytical engines (app/integration/market_bar_store.py), without
  the shared cache process. A series is a list of bars; \<open>bisect_left\<close> on it is the number of leading bars
  before the timestamp.
\<close>

section \<open>Store\<close>

record bar_history =
  bh_capacity :: nat
  bh_series :: "(string \<times> bar_timeframe, market_bar list) dict"

definition make_history :: "int \<Rightarrow> bar_history result" where
  "make_history capacity_per_series =
     (if capacity_per_series < 1 then Inl (ValueError ''capacity_per_series must be positive'')
      else Inr \<lparr> bh_capacity = nat capacity_per_series, bh_series = [] \<rparr>)"

definition bisect_left :: "market_bar list \<Rightarrow> instant \<Rightarrow> nat" where
  "bisect_left series t = length (takeWhile (\<lambda>b. mb_timestamp b < t) series)"

definition add_to_series :: "nat \<Rightarrow> market_bar \<Rightarrow> market_bar list \<Rightarrow> market_bar list" where
  "add_to_series capacity bar series =
     (let series' =
        (if series = [] \<or> mb_timestamp (last series) < mb_timestamp bar then series @ [bar]
         else if mb_timestamp bar = mb_timestamp (last series) then series[length series - 1 := bar]
         else let index = bisect_left series (mb_timestamp bar) in
           if index < length series \<and> mb_timestamp (series ! index) = mb_timestamp bar then series[index := bar]
           else take index series @ bar # drop index series)
      in drop (length series' - capacity) series')"

definition add_bar :: "market_bar \<Rightarrow> bar_history \<Rightarrow> bar_history" where
  "add_bar bar h =
     (let key = (upper (mb_symbol bar), mb_timeframe bar);
          series = (case dget (bh_series h) key of None \<Rightarrow> [] | Some s \<Rightarrow> s)
      in h \<lparr> bh_series := dput key (add_to_series (bh_capacity h) bar series) (bh_series h) \<rparr>)"

definition history :: "bar_history \<Rightarrow> string \<Rightarrow> bar_timeframe \<Rightarrow> int option \<Rightarrow> bool \<Rightarrow> market_bar list result" where
  "history h symbol tf limit final_only =
     (if (case limit of None \<Rightarrow> False | Some n \<Rightarrow> n < 1) then Inl (ValueError ''limit must be positive'')
      else
        let series = (case dget (bh_series h) (upper symbol, tf) of None \<Rightarrow> [] | Some s \<Rightarrow> s);
            oks = (if final_only then filter mb_is_final series else series)
        in Inr (case limit of None \<Rightarrow> oks | Some n \<Rightarrow> drop (length oks - nat n) oks))"

definition retain_symbols :: "string list \<Rightarrow> bar_history \<Rightarrow> bar_history" where
  "retain_symbols symbols h =
     h \<lparr> bh_series := filter (\<lambda>p. fst (fst p) \<in> set (map upper symbols)) (bh_series h) \<rparr>"

section \<open>Insertion\<close>

abbreviation by_time :: "market_bar list \<Rightarrow> bool" where
  "by_time series \<equiv> sorted_wrt (\<lambda>a b. mb_timestamp a < mb_timestamp b) series"

text \<open>Insertion into an unbounded series: the bar replaces the one with its timestamp, if any.\<close>

definition put :: "market_bar \<Rightarrow> market_bar list \<Rightarrow> market_bar list" where
  "put bar series = takeWhile (\<lambda>b. mb_timestamp b < mb_timestamp bar) series @ bar #
     dropWhile (\<lambda>b. mb_timestamp b \<le> mb_timestamp bar) series"

definition newest_bars :: "nat \<Rightarrow> 'a list \<Rightarrow> 'a list" where
  "newest_bars n xs = drop (length xs - n) xs"

lemma put_Cons:
  "put bar (b # series) =
     (if mb_timestamp b < mb_timestamp bar then b # put bar series
      else if mb_timestamp b = mb_timestamp bar then bar # dropWhile (\<lambda>b. mb_timestamp b \<le> mb_timestamp bar) series
      else bar # b # series)"
  by (auto simp: put_def)

lemma dropWhile_above: "\<forall>b\<in>set series. t < mb_timestamp b \<Longrightarrow> dropWhile (\<lambda>b. mb_timestamp b \<le> t) series = series"
  by (cases series) auto

lemma put_sorted:
  "by_time series \<Longrightarrow> by_time (put bar series)"
  "by_time series \<Longrightarrow> mb_timestamp ` set (put bar series) = insert (mb_timestamp bar) (mb_timestamp ` set series)"
  "by_time series \<Longrightarrow> b \<in> set (put bar series) \<Longrightarrow> b = bar \<or> (b \<in> set series \<and> mb_timestamp b \<noteq> mb_timestamp bar)"
proof (induction series)
  case (Cons x series)
  {
    case 1
    then have "mb_timestamp ` set (put bar series) = insert (mb_timestamp bar) (mb_timestamp ` set series)"
      using Cons.IH(2) by simp
    then have "\<forall>b\<in>set (put bar series). mb_timestamp b = mb_timestamp bar \<or> mb_timestamp b \<in> mb_timestamp ` set series"
      by blast
    with 1 Cons.IH(1) show ?case by (fastforce simp: put_Cons dropWhile_above)
  next
    case 2
    with Cons.IH(2) show ?case by (auto simp: put_Cons dropWhile_above)
  next
    case 3
    with Cons.IH(3) show ?case by (auto simp: put_Cons dropWhile_above split: if_splits)
  }
qed (simp_all add: put_def)

lemma put_append:
  "by_time (a @ s) \<Longrightarrow> put bar (a @ s) =
     (if \<forall>b\<in>set a. mb_timestamp b < mb_timestamp bar then a @ put bar s else put bar a @ s)"
proof (induction a)
  case (Cons x a)
  then show ?case by (auto simp: put_Cons dropWhile_above)
qed simp

lemma length_put: "by_time s \<Longrightarrow> length s \<le> length (put bar s) \<and> length (put bar s) \<le> Suc (length s)"
  by (induction s) (auto simp: put_Cons dropWhile_above, simp add: put_def)

lemma bisect_put:
  assumes "by_time s"
  shows "put bar s = (let i = bisect_left s (mb_timestamp bar) in
    if i < length s \<and> mb_timestamp (s ! i) = mb_timestamp bar then s[i := bar] else take i s @ bar # drop i s)"
  using assms
proof (induction s)
  case (Cons x s)
  then show ?case by (auto simp: put_Cons bisect_left_def Let_def dropWhile_above)
qed (simp add: put_def bisect_left_def)

lemma put_last:
  assumes "by_time s" "\<forall>b\<in>set s. mb_timestamp b < mb_timestamp bar"
  shows "put bar s = s @ [bar]"
  using put_append [of s "[]" bar] assms by (simp add: put_def)

lemma add_to_series_put:
  assumes "by_time s"
  shows "add_to_series n bar s = newest_bars n (put bar s)"
proof -
  consider (new) "s = [] \<or> mb_timestamp (last s) < mb_timestamp bar"
    | (same) "s \<noteq> []" "mb_timestamp bar = mb_timestamp (last s)"
    | (old) "s \<noteq> []" "mb_timestamp bar < mb_timestamp (last s)" by force
  then show ?thesis
  proof cases
    case new
    have "\<forall>b\<in>set s. mb_timestamp b < mb_timestamp bar"
    proof (cases "s = []")
      case False
      then have "s = butlast s @ [last s]" by simp
      then have "\<forall>b\<in>set (butlast s). mb_timestamp b < mb_timestamp (last s)" "set s = insert (last s) (set (butlast s))"
        using assms by (metis sorted_wrt_append list.set_intros(1), metis Un_insert_right append.right_neutral list.simps(15) set_append set_empty sup_bot.right_neutral list.set(1))
      with new False show ?thesis by fastforce
    qed simp
    with new put_last [OF assms] show ?thesis by (simp add: add_to_series_def newest_bars_def)
  next
    case same
    then obtain a x where s: "s = a @ [x]" by (metis append_butlast_last_id)
    with assms same(2) have "put bar s = a @ [bar]"
      using put_append [of a "[x]" bar] by (simp add: sorted_wrt_append put_def)
    with s same show ?thesis by (simp add: add_to_series_def newest_bars_def)
  next
    case old
    then show ?thesis using bisect_put [OF assms, of bar]
      by (simp add: add_to_series_def newest_bars_def Let_def)
  qed
qed

lemma newest_bars_suffix: "\<exists>a. xs = a @ newest_bars n xs" "length (newest_bars n xs) \<le> n"
  by (metis append_take_drop_id newest_bars_def) (simp add: newest_bars_def)

lemma newest_bars_append: "n \<le> length s \<Longrightarrow> newest_bars n (a @ s) = newest_bars n s"
  by (simp add: newest_bars_def)

text \<open>Trimming before or after an insertion makes no difference.\<close>

lemma newest_put:
  assumes "by_time full" "0 < n"
  shows "newest_bars n (put bar (newest_bars n full)) = newest_bars n (put bar full)"
proof (cases "length full \<le> n")
  case True
  then show ?thesis by (simp add: newest_bars_def)
next
  case False
  define a where "a = take (length full - n) full"
  define s where "s = newest_bars n full"
  have full: "full = a @ s" by (simp add: a_def s_def newest_bars_def)
  have len: "length s = n" using False by (simp add: s_def newest_bars_def)
  have "by_time s" "by_time a" using assms(1) full by (simp_all add: sorted_wrt_append)
  show ?thesis
  proof (cases "\<forall>b\<in>set a. mb_timestamp b < mb_timestamp bar")
    case True
    then have "put bar full = a @ put bar s" using put_append assms(1) full by metis
    moreover have "n \<le> length (put bar s)" using length_put [OF \<open>by_time s\<close>, of bar] len by simp
    ultimately show ?thesis by (simp add: newest_bars_append s_def)
  next
    case False
    then obtain b where b: "b \<in> set a" "mb_timestamp bar \<le> mb_timestamp b" by (meson not_le)
    have "\<forall>c\<in>set s. mb_timestamp bar < mb_timestamp c"
      using b assms(1) full by (force simp: sorted_wrt_append)
    then have "put bar s = bar # s" by (cases s) (auto simp: put_def)
    moreover have "put bar full = put bar a @ s" using False put_append assms(1) full by metis
    moreover have "newest_bars n (bar # s) = s" "newest_bars n s = s" using len by (simp_all add: newest_bars_def)
    ultimately show ?thesis unfolding s_def [symmetric] using len by (simp add: newest_bars_append)
  qed
qed

section \<open>A series is the newest writes\<close>

definition last_write :: "market_bar list \<Rightarrow> instant \<Rightarrow> market_bar" where
  "last_write bars t = last (filter (\<lambda>b. mb_timestamp b = t) bars)"

lemma last_write_snoc:
  "last_write (bars @ [b]) t = (if mb_timestamp b = t then b else last_write bars t)"
  by (simp add: last_write_def)

lemma foldl_put:
  "by_time (foldl (\<lambda>s b. put b s) [] bars) \<and>
   mb_timestamp ` set (foldl (\<lambda>s b. put b s) [] bars) = mb_timestamp ` set bars \<and>
   (\<forall>b\<in>set (foldl (\<lambda>s b. put b s) [] bars). b = last_write bars (mb_timestamp b))"
proof (induction bars rule: rev_induct)
  case (snoc b bars)
  let ?s = "foldl (\<lambda>s b. put b s) [] bars"
  have sorted: "by_time ?s" using snoc by blast
  have "c = last_write (bars @ [b]) (mb_timestamp c)" if "c \<in> set (put b ?s)" for c
    using put_sorted(3) [OF sorted that] snoc by (auto simp: last_write_snoc)
  then show ?case using put_sorted(1,2) [OF sorted, of b] snoc by simp
qed simp

lemma series_unique:
  assumes "by_time s" "mb_timestamp ` set s = T" "\<forall>b\<in>set s. b = f (mb_timestamp b)"
  shows "s = map f (sorted_list_of_set T)"
proof -
  have "sorted_wrt (<) (map mb_timestamp s)" using assms(1) by (simp add: sorted_wrt_map)
  moreover have "set (map mb_timestamp s) = T" using assms(2) by simp
  ultimately have "map mb_timestamp s = sorted_list_of_set T"
    by (metis List.finite_set sorted_list_of_set.idem_if_sorted_distinct strict_sorted_iff sorted_list_of_set_unique)
  moreover have "s = map (\<lambda>b. f (mb_timestamp b)) s" using assms(3) by (simp add: map_idI)
  ultimately show ?thesis by (metis (no_types, lifting) map_map comp_def map_eq_conv)
qed

definition key_of :: "market_bar \<Rightarrow> string \<times> bar_timeframe" where
  "key_of b = (upper (mb_symbol b), mb_timeframe b)"

lemma fold_newest:
  assumes "0 < n"
  shows "foldl (\<lambda>s b. add_to_series n b s) [] bars = newest_bars n (foldl (\<lambda>s b. put b s) [] bars)"
proof (induction bars rule: rev_induct)
  case (snoc b bars)
  let ?full = "foldl (\<lambda>s b. put b s) [] bars"
  have full: "by_time ?full" using foldl_put by blast
  then have "by_time (newest_bars n ?full)"
    using newest_bars_suffix(1) [of ?full n] by (metis sorted_wrt_append)
  then show ?case using snoc newest_put [OF full assms] by (simp add: add_to_series_put)
qed (simp add: newest_bars_def)

lemma series_of_adds:
  "(case dget (bh_series (foldl (\<lambda>h b. add_bar b h) h bars)) key of None \<Rightarrow> [] | Some s \<Rightarrow> s) =
     foldl (\<lambda>s b. add_to_series (bh_capacity h) b s)
       (case dget (bh_series h) key of None \<Rightarrow> [] | Some s \<Rightarrow> s) (filter (\<lambda>b. key_of b = key) bars)"
proof (induction bars arbitrary: h)
  case (Cons b bars)
  have "bh_capacity (add_bar b h) = bh_capacity h" by (simp add: add_bar_def Let_def)
  moreover have "(case dget (bh_series (add_bar b h)) key of None \<Rightarrow> [] | Some s \<Rightarrow> s) =
      (let s = (case dget (bh_series h) key of None \<Rightarrow> [] | Some s \<Rightarrow> s) in
       if key_of b = key then add_to_series (bh_capacity h) b s else s)"
    by (auto simp: add_bar_def key_of_def Let_def dget_dput)
  ultimately show ?case using Cons [of "add_bar b h"] by simp
qed simp

section \<open>Property\<close>

text \<open>C20: The bounded history is the newest part of everything that was added: in whatever order and however
  often bars arrive, the history of a symbol and timeframe holds, in time order, the last write of each of the
  \<open>capacity\<close> latest distinct timestamps added for it; a limit returns the newest of these.\<close>

theorem history_is_newest_writes:
  fixes symbol :: string and tf :: bar_timeframe and bars :: "market_bar list"
  assumes "make_history capacity = Inr h" "case limit of None \<Rightarrow> True | Some n \<Rightarrow> 1 \<le> n"
  defines "added \<equiv> filter (\<lambda>b. key_of b = (upper symbol, tf)) bars"
  shows "history (foldl (\<lambda>h b. add_bar b h) h bars) symbol tf limit False =
    Inr (map (last_write added) (newest_bars (nat (case limit of None \<Rightarrow> capacity | Some n \<Rightarrow> min n capacity))
      (sorted_list_of_set (mb_timestamp ` set added))))"
proof -
  let ?h = "foldl (\<lambda>h b. add_bar b h) h bars"
  have h: "bh_capacity h = nat capacity" "bh_series h = []" "1 \<le> capacity"
    using assms(1) by (auto simp: make_history_def split: if_splits)
  let ?full = "foldl (\<lambda>s b. put b s) [] added"
  have "(case dget (bh_series ?h) (upper symbol, tf) of None \<Rightarrow> [] | Some s \<Rightarrow> s) = newest_bars (nat capacity) ?full"
    using series_of_adds [of h bars "(upper symbol, tf)"] h fold_newest [of "nat capacity"] by (simp add: added_def)
  moreover have "?full = map (last_write added) (sorted_list_of_set (mb_timestamp ` set added))"
    using foldl_put [of added] by (intro series_unique) blast+
  moreover have "newest_bars n (map f xs) = map f (newest_bars n xs)" for n and f :: "instant \<Rightarrow> market_bar" and xs
    by (simp add: newest_bars_def drop_map)
  moreover have "newest_bars (nat n) (newest_bars (nat capacity) xs) = newest_bars (nat (min n capacity)) xs"
    for n and xs :: "instant list"
  proof -
    have "newest_bars a (newest_bars b xs) = newest_bars (min a b) xs" for a b
      by (cases "a \<le> b") (simp_all add: newest_bars_def, intro arg_cong [of _ _ "\<lambda>k. drop k xs"], arith)
    then show ?thesis by (simp add: min_def nat_mono)
  qed
  ultimately show ?thesis using assms(2) unfolding history_def newest_bars_def [symmetric]
    by (auto simp: Let_def split: option.splits)
qed

definition quote :: "instant \<Rightarrow> rat \<Rightarrow> market_bar" where
  "quote t p = \<lparr> mb_symbol = ''A'', mb_timeframe = TF_DAY_1, mb_timestamp = t, mb_open = p, mb_high = p, mb_low = p,
     mb_close = p, mb_volume = 1, mb_trade_count = None, mb_vwap = None, mb_source = ''s'', mb_feed = ''f'', mb_is_final = True \<rparr>"

theorem history_is_newest_writes_witness:
  "history (foldl (\<lambda>h b. add_bar b h) \<lparr> bh_capacity = 2, bh_series = [] \<rparr> [quote 3 1, quote 1 1, quote 2 5, quote 3 7])
     ''a'' TF_DAY_1 None False = Inr [quote 2 5, quote 3 7]"
proof -
  let ?bars = "[quote 3 1, quote 1 1, quote 2 5, quote 3 7]"
  have h: "make_history 2 = Inr \<lparr> bh_capacity = 2, bh_series = [] \<rparr>" by code_simp
  have added: "filter (\<lambda>b. key_of b = (upper ''a'', TF_DAY_1)) ?bars = ?bars" by code_simp
  have set: "sorted_list_of_set (mb_timestamp ` set ?bars) = [1, 2, 3]" by code_simp
  have "map (last_write ?bars) (newest_bars (nat 2) [1, 2, 3]) = [quote 2 5, quote 3 7]"
    by (simp add: newest_bars_def last_write_def quote_def)
  with history_is_newest_writes [OF h, of None ?bars "''a''" TF_DAY_1] show ?thesis
    unfolding added set by simp
qed

end
