(* ===== verification/Watch_Contracts.thy ===== *)
theory Watch_Contracts
  imports Rule_Contracts
begin

text \<open>
  The data of the entry watcher: the AnalysisResult contract (app/contracts/market_analysis.py), the
  EntryWatchTransition contract (app/contracts/entry_watch.py), the EntryWatch of
  app/entry_watcher/models.py and the watcher's policy (app/entry_watcher/engine.py).
\<close>

section \<open>Analysis results\<close>

record analysis_result =
  ar_analysis_id :: uuid
  ar_engine_id :: string
  ar_engine_version :: string
  ar_symbol :: string
  ar_horizon :: analysis_horizon
  ar_as_of :: instant
  ar_verdict :: analysis_verdict
  ar_direction :: pattern_direction
  ar_score :: rat
  ar_confidence :: rat
  ar_reasons :: "string list"
  ar_metrics :: "named_value list"
  ar_source_event_ids :: "uuid list"
  ar_context_hash :: string

definition analysis_result_fields :: "analysis_result \<Rightarrow> bool" where
  "analysis_result_fields r \<longleftrightarrow> identifier_str (ar_engine_id r) \<and> semver (ar_engine_version r)
     \<and> identifier_str (ar_symbol r) \<and> 0 \<le> ar_score r \<and> ar_score r \<le> 100 \<and> unit_interval (ar_confidence r)
     \<and> ar_reasons r \<noteq> [] \<and> (\<forall>s\<in>set (ar_reasons r). non_empty_str s)
     \<and> (\<forall>m\<in>set (ar_metrics r). identifier_str (nv_name m)) \<and> sha256_ref (ar_context_hash r)"

definition make_analysis_result :: "analysis_result \<Rightarrow> analysis_result result" where
  "make_analysis_result r =
     (if \<not> analysis_result_fields r then Inl (ValidationError ''AnalysisResult'')
      else if uuid_version (ar_analysis_id r) \<noteq> Some 7 then Inl (ValueError ''analysis_id must be a UUIDv7'')
      else if \<not> distinct (map nv_name (ar_metrics r)) then Inl (ValueError ''metrics must be unique by name'')
      else if \<not> distinct (ar_source_event_ids r) then Inl (ValueError ''source_event_ids must be unique'')
      else Inr (r \<lparr> ar_reasons := map strip (ar_reasons r) \<rparr>))"

definition valid_analysis :: "analysis_result \<Rightarrow> bool" where
  "valid_analysis r \<longleftrightarrow> make_analysis_result r = Inr r"

section \<open>Watches and transitions\<close>

definition active_statuses :: "entry_watch_status list" where
  "active_statuses = [EW_ARMED, EW_IN_ZONE, EW_EARLY_ENTRY, EW_IMPULSE_EXTENDED]"

record entry_watch =
  wa_watch_id :: uuid
  wa_symbol :: string
  wa_status :: entry_watch_status
  wa_armed_at :: instant
  wa_updated_at :: instant
  wa_expires_at :: instant
  wa_zone_low :: rat
  wa_zone_high :: rat
  wa_invalidation :: rat
  wa_original_price :: rat
  wa_current_price :: rat
  wa_correction_target_percent :: rat
  wa_source_analysis_id :: uuid
  wa_source_context_hash :: string
  wa_anchor_snapshot :: "(string, py_value) dict"
  wa_terminal_at :: "instant option"

definition make_watch :: "entry_watch \<Rightarrow> entry_watch result" where
  "make_watch w =
     (if \<not> (0 < wa_zone_low w \<and> 0 < wa_zone_high w \<and> 0 < wa_invalidation w \<and> 0 < wa_original_price w
            \<and> 0 < wa_current_price w \<and> 0 \<le> wa_correction_target_percent w)
      then Inl (ValidationError ''EntryWatch'')
      else if uuid_version (wa_watch_id w) \<noteq> Some 7 \<or> uuid_version (wa_source_analysis_id w) \<noteq> Some 7
      then Inl (ValueError ''watch identity must use UUIDv7'')
      else if wa_zone_low w \<le> wa_invalidation w \<or> wa_zone_high w < wa_zone_low w
      then Inl (ValueError ''entry levels must satisfy invalidation < low <= high'')
      else if wa_updated_at w < wa_armed_at w \<or> wa_expires_at w \<le> wa_armed_at w
      then Inl (ValueError ''entry watch timestamps are out of order'')
      else
        let terminal = wa_status w \<in> {EW_TRIGGERED, EW_POLICY_INELIGIBLE, EW_INVALIDATED, EW_EXPIRED}
        in if terminal \<noteq> (wa_terminal_at w \<noteq> None)
           then Inl (ValueError ''terminal_at must match terminal status'')
           else Inr w)"

record watch_transition =
  tr_transition_id :: uuid
  tr_watch_id :: uuid
  tr_symbol :: string
  tr_previous_status :: "entry_watch_status option"
  tr_status :: entry_watch_status
  tr_occurred_at :: instant
  tr_zone_low :: rat
  tr_zone_high :: rat
  tr_invalidation :: rat
  tr_current_price :: rat
  tr_entry_invalidation :: "rat option"
  tr_entry_target :: "rat option"
  tr_watch_expires_at :: instant
  tr_reasons :: "string list"
  tr_horizons :: "analysis_horizon list"
  tr_source_analysis_ids :: "uuid list"

definition watch_transition_fields :: "watch_transition \<Rightarrow> bool" where
  "watch_transition_fields t \<longleftrightarrow> identifier_str (tr_symbol t) \<and> 0 < tr_zone_low t \<and> 0 < tr_zone_high t
     \<and> 0 < tr_invalidation t \<and> 0 < tr_current_price t \<and> opt_all (\<lambda>p. 0 < p) (tr_entry_invalidation t)
     \<and> opt_all (\<lambda>p. 0 < p) (tr_entry_target t) \<and> tr_reasons t \<noteq> [] \<and> (\<forall>s\<in>set (tr_reasons t). non_empty_str s)
     \<and> tr_horizons t \<noteq> [] \<and> tr_source_analysis_ids t \<noteq> []"

definition make_transition :: "watch_transition \<Rightarrow> watch_transition result" where
  "make_transition t =
     (if \<not> watch_transition_fields t then Inl (ValidationError ''EntryWatchTransition'')
      else if uuid_version (tr_transition_id t) \<noteq> Some 7 \<or> uuid_version (tr_watch_id t) \<noteq> Some 7
      then Inl (ValueError ''transition_id and watch_id must be UUIDv7'')
      else if \<exists>u\<in>set (tr_source_analysis_ids t). uuid_version u \<noteq> Some 7
      then Inl (ValueError ''source_analysis_ids must contain UUIDv7 values'')
      else if tr_zone_low t \<le> tr_invalidation t \<or> tr_zone_high t < tr_zone_low t
      then Inl (ValueError ''entry watch levels must satisfy invalidation < low <= high'')
      else if \<not> opt_all (\<lambda>p. p < tr_current_price t) (tr_entry_invalidation t)
      then Inl (ValueError ''entry invalidation must be below current price'')
      else if \<not> opt_all (\<lambda>p. tr_current_price t < p) (tr_entry_target t)
      then Inl (ValueError ''entry target must be above current price'')
      else if tr_status t \<noteq> EW_EXPIRED \<and> tr_watch_expires_at t < tr_occurred_at t
      then Inl (ValueError ''watch_expires_at cannot precede occurred_at'')
      else if tr_previous_status t = Some (tr_status t)
      then Inl (ValueError ''a transition must change status'')
      else if \<not> distinct (tr_horizons t) then Inl (ValueError ''horizons must be unique'')
      else if \<not> distinct (tr_source_analysis_ids t)
      then Inl (ValueError ''source_analysis_ids must be unique'')
      else Inr (t \<lparr> tr_reasons := map strip (tr_reasons t) \<rparr>))"

section \<open>Policy\<close>

record watcher_policy =
  po_ttl :: duration
  po_rearm_cooldown :: duration
  po_max_ages :: "analysis_horizon \<rightharpoonup> duration"
  po_continuation_grace :: duration
  po_continuation_max_percent :: rat
  po_continuation_max_atr :: rat
  po_continuation_fallback_percent :: rat
  po_continuation_min_reward_risk :: rat
  po_trigger_rearm_cooldown :: duration

definition default_max_ages :: "analysis_horizon \<rightharpoonup> duration" where
  "default_max_ages = map_of [(AH_NEWS, days 7), (AH_OPTIONS_GAMMA, minutes 60), (AH_VOLUME_STRUCTURE, days 14),
     (AH_LONG_TERM, days 7), (AH_DILUTION, hours 24), (AH_SWING, hours 8), (AH_INTRADAY, minutes 30)]"

definition default_policy :: watcher_policy where
  "default_policy = \<lparr> po_ttl = weeks 8, po_rearm_cooldown = days 14, po_max_ages = default_max_ages,
     po_continuation_grace = hours 72, po_continuation_max_percent = 4, po_continuation_max_atr = 75 / 100,
     po_continuation_fallback_percent = 2, po_continuation_min_reward_risk = 2,
     po_trigger_rearm_cooldown = minutes 30 \<rparr>"

definition make_policy :: "watcher_policy \<Rightarrow> watcher_policy result" where
  "make_policy p =
     (if po_ttl p \<le> 0 then Inl (ValueError ''entry watch ttl must be positive'')
      else if po_rearm_cooldown p \<le> 0 then Inl (ValueError ''entry watch rearm cooldown must be positive'')
      else if \<exists>h\<in>set analysis_horizon_members. po_max_ages p h = None
      then Inl (ValueError ''entry watch policy must configure every horizon'')
      else if \<exists>h\<in>set analysis_horizon_members. \<exists>d\<in>set_option (po_max_ages p h). d \<le> 0
      then Inl (ValueError ''entry watch freshness must be positive'')
      else if po_continuation_grace p \<le> 0
      then Inl (ValueError ''entry continuation grace must be positive'')
      else if po_trigger_rearm_cooldown p \<le> 0
      then Inl (ValueError ''trigger rearm cooldown must be positive'')
      else if po_continuation_max_percent p \<le> 0 \<or> po_continuation_max_atr p \<le> 0 \<or>
              po_continuation_fallback_percent p \<le> 0 \<or> po_continuation_min_reward_risk p \<le> 0
      then Inl (ValueError ''entry continuation limits must be positive'')
      else if po_continuation_max_percent p < po_continuation_fallback_percent p
      then Inl (ValueError ''fallback continuation percent cannot exceed the hard cap'')
      else Inr p)"

section \<open>Lemmas\<close>

lemma valid_analysis_facts:
  assumes "valid_analysis r"
  shows "identifier_str (ar_symbol r)" "is_uuid7 (ar_analysis_id r)" "distinct (map nv_name (ar_metrics r))"
  using assms by (auto simp: valid_analysis_def make_analysis_result_def analysis_result_fields_def is_uuid7_def
      split: if_splits)

lemma active_statuses_iff:
  "s \<in> set active_statuses \<longleftrightarrow> s \<notin> {EW_TRIGGERED, EW_POLICY_INELIGIBLE, EW_INVALIDATED, EW_EXPIRED}"
  by (cases s) (simp_all add: active_statuses_def)

definition watch_ok :: "entry_watch \<Rightarrow> bool" where
  "watch_ok w \<longleftrightarrow> 0 < wa_invalidation w \<and> wa_invalidation w < wa_zone_low w \<and> wa_zone_low w \<le> wa_zone_high w \<and>
     0 < wa_current_price w \<and> 0 < wa_original_price w \<and> 0 \<le> wa_correction_target_percent w \<and>
     wa_armed_at w \<le> wa_updated_at w \<and> wa_armed_at w < wa_expires_at w \<and>
     is_uuid7 (wa_watch_id w) \<and> is_uuid7 (wa_source_analysis_id w) \<and>
     (wa_terminal_at w \<noteq> None \<longleftrightarrow> wa_status w \<notin> set active_statuses)"

lemma make_watch_iff: "make_watch w = Inr w' \<longleftrightarrow> w' = w \<and> watch_ok w"
  unfolding make_watch_def watch_ok_def Let_def active_statuses_iff is_uuid7_def
  by (auto split: if_splits)

end
