(* ===== verification/Watch_Store.thy ===== *)
theory Watch_Store
  imports Watch_Contracts
begin

text \<open>
  The persistence port of the entry watcher (app/entry_watcher/ports.py) and its in-memory provider
  (app/entry_watcher/memory.py). The port is a record of operations over a store state of any type,
  so that the engine is written against the port; the locale \<open>entry_watch_store\<close> states what the
  engine relies on, and the in-memory store is its interpretation.
\<close>

section \<open>The port\<close>

record 's watch_store =
  ws_load_active :: "'s \<Rightarrow> string \<Rightarrow> entry_watch option"
  ws_load_latest :: "'s \<Rightarrow> string \<Rightarrow> entry_watch option"
  ws_create :: "entry_watch \<Rightarrow> watch_transition \<Rightarrow> 's \<Rightarrow> 's result"
  ws_transition :: "entry_watch \<Rightarrow> watch_transition \<Rightarrow> 's \<Rightarrow> 's result"
  ws_update_anchor :: "entry_watch \<Rightarrow> 's \<Rightarrow> 's result"

abbreviation watch_active :: "entry_watch \<Rightarrow> bool" where
  "watch_active w \<equiv> wa_status w \<in> set active_statuses"

section \<open>The in-memory store\<close>

record memory_store =
  ms_watches :: "(uuid, entry_watch) dict"
  ms_transitions :: "watch_transition list"

definition empty_store :: memory_store where
  "empty_store = \<lparr> ms_watches = [], ms_transitions = [] \<rparr>"

text \<open>\<open>max(matches, key=...)\<close> keeps the first of the greatest.\<close>

fun first_max :: "('a \<Rightarrow> int) \<Rightarrow> 'a list \<Rightarrow> 'a option" where
  "first_max key [] = None"
| "first_max key (x # xs) =
     (case first_max key xs of None \<Rightarrow> Some x | Some y \<Rightarrow> if key x < key y then Some y else Some x)"

definition load_active_watch :: "memory_store \<Rightarrow> string \<Rightarrow> entry_watch option" where
  "load_active_watch m symbol =
     (let normalized = norm_symbol symbol in
      first_max wa_armed_at
        (filter (\<lambda>w. wa_symbol w = normalized \<and> wa_status w \<in> set active_statuses) (dvalues (ms_watches m))))"

definition load_latest_watch :: "memory_store \<Rightarrow> string \<Rightarrow> entry_watch option" where
  "load_latest_watch m symbol =
     (let normalized = norm_symbol symbol in
      first_max wa_updated_at (filter (\<lambda>w. wa_symbol w = normalized) (dvalues (ms_watches m))))"

definition put_watch :: "entry_watch \<Rightarrow> watch_transition list \<Rightarrow> memory_store \<Rightarrow> memory_store" where
  "put_watch w ts m =
     m \<lparr> ms_watches := dput (wa_watch_id w) w (ms_watches m), ms_transitions := ms_transitions m @ ts \<rparr>"

definition create_watch :: "entry_watch \<Rightarrow> watch_transition \<Rightarrow> memory_store \<Rightarrow> memory_store result" where
  "create_watch w t m =
     (if load_active_watch m (wa_symbol w) \<noteq> None
      then Inl (RuntimeError ''active entry watch already exists'')
      else Inr (put_watch w [t] m))"

definition transition_watch :: "entry_watch \<Rightarrow> watch_transition \<Rightarrow> memory_store \<Rightarrow> memory_store result" where
  "transition_watch w t m =
     (case dget (ms_watches m) (wa_watch_id w) of
        None \<Rightarrow> Inl (RuntimeError ''entry watch does not exist'')
      | Some existing \<Rightarrow>
          if tr_previous_status t \<noteq> Some (wa_status existing)
          then Inl (RuntimeError ''entry watch transition is stale'')
          else Inr (put_watch w [t] m))"

definition update_anchor_snapshot :: "entry_watch \<Rightarrow> memory_store \<Rightarrow> memory_store result" where
  "update_anchor_snapshot w m =
     (case dget (ms_watches m) (wa_watch_id w) of
        None \<Rightarrow> Inl (RuntimeError ''entry watch does not exist'')
      | Some existing \<Rightarrow>
          if wa_status existing \<noteq> wa_status w
          then Inl (RuntimeError ''entry watch snapshot update is stale'')
          else Inr (put_watch w [] m))"

definition memory_ops :: "memory_store watch_store" where
  "memory_ops = \<lparr> ws_load_active = load_active_watch, ws_load_latest = load_latest_watch, ws_create = create_watch,
     ws_transition = transition_watch, ws_update_anchor = update_anchor_snapshot \<rparr>"

section \<open>The contract of a store\<close>

text \<open>
  \<open>watches\<close> is the content of a store by identity, \<open>journal\<close> the transitions it recorded, oldest
  first, and \<open>invar\<close> what its operations keep.
\<close>

locale entry_watch_store =
  fixes ops :: "'s watch_store"
    and watches :: "'s \<Rightarrow> uuid \<rightharpoonup> entry_watch"
    and journal :: "'s \<Rightarrow> watch_transition list"
    and invar :: "'s \<Rightarrow> bool"
  assumes active_found: "invar s \<Longrightarrow> ws_load_active ops s symbol = Some w \<Longrightarrow>
        watches s (wa_watch_id w) = Some w \<and> wa_symbol w = norm_symbol symbol \<and> watch_active w"
    and no_active: "invar s \<Longrightarrow> ws_load_active ops s symbol = None \<Longrightarrow> watches s i = Some w \<Longrightarrow>
        wa_symbol w = norm_symbol symbol \<Longrightarrow> \<not> watch_active w"
    and latest_found: "invar s \<Longrightarrow> ws_load_latest ops s symbol = Some w \<Longrightarrow>
        watches s (wa_watch_id w) = Some w \<and> wa_symbol w = norm_symbol symbol"
    and latest_greatest: "invar s \<Longrightarrow> watches s i = Some v \<Longrightarrow> wa_symbol v = norm_symbol symbol \<Longrightarrow>
        \<exists>w. ws_load_latest ops s symbol = Some w \<and> wa_updated_at v \<le> wa_updated_at w"
    and created: "invar s \<Longrightarrow> ws_create ops w t s = Inr s' \<Longrightarrow>
        invar s' \<and> watches s' = (watches s)(wa_watch_id w \<mapsto> w) \<and> journal s' = journal s @ [t]"
    and create_vacant: "invar s \<Longrightarrow> ws_create ops w t s = Inr s' \<Longrightarrow>
        ws_load_active ops s (wa_symbol w) = None"
    and transitioned: "invar s \<Longrightarrow> ws_transition ops w t s = Inr s' \<Longrightarrow>
        invar s' \<and> watches s' = (watches s)(wa_watch_id w \<mapsto> w) \<and> journal s' = journal s @ [t]"
    and transition_current: "invar s \<Longrightarrow> ws_transition ops w t s = Inr s' \<Longrightarrow>
        \<exists>old. watches s (wa_watch_id w) = Some old \<and> tr_previous_status t = Some (wa_status old)"

section \<open>The in-memory store satisfies it\<close>

definition store_wf :: "memory_store \<Rightarrow> bool" where
  "store_wf m \<longleftrightarrow> dict_wf (ms_watches m) \<and> (\<forall>(i, w)\<in>set (ms_watches m). wa_watch_id w = i)"

lemma first_max_None [simp]: "first_max key xs = None \<longleftrightarrow> xs = []"
  by (cases xs) (auto split: option.splits)

lemma first_max_mem: "first_max key xs = Some y \<Longrightarrow> y \<in> set xs \<and> (\<forall>x\<in>set xs. key x \<le> key y)"
  by (induction xs arbitrary: y) (force split: option.splits if_splits)+

lemma store_wf_mem:
  "store_wf m \<Longrightarrow> w \<in> set (dvalues (ms_watches m)) \<longleftrightarrow> dget (ms_watches m) (wa_watch_id w) = Some w"
  unfolding store_wf_def by (force simp: image_iff dest: map_of_SomeD)

lemma store_wf_empty: "store_wf empty_store"
  by (simp add: store_wf_def empty_store_def)

lemma store_wf_key: "store_wf m \<Longrightarrow> dget (ms_watches m) i = Some w \<Longrightarrow> wa_watch_id w = i"
  unfolding store_wf_def by (auto dest: map_of_SomeD)

lemma put_watch_view:
  "dget (ms_watches (put_watch w ts m)) = (dget (ms_watches m))(wa_watch_id w \<mapsto> w)"
  "ms_transitions (put_watch w ts m) = ms_transitions m @ ts"
  by (simp_all add: put_watch_def update_conv' fun_upd_def)

lemma store_wf_put:
  assumes "store_wf m"
  shows "store_wf (put_watch w ts m)"
proof -
  have wf: "dict_wf (ms_watches (put_watch w ts m))"
    using assms unfolding store_wf_def put_watch_def by (simp add: dict_simps)
  have "wa_watch_id v = i" if "(i, v) \<in> set (ms_watches (put_watch w ts m))" for i v
  proof -
    from that wf have "dget (ms_watches (put_watch w ts m)) i = Some v" by simp
    then show ?thesis using store_wf_key [OF assms] by (simp add: put_watch_view split: if_splits)
  qed
  with wf show ?thesis unfolding store_wf_def by blast
qed

lemma load_active_Some:
  assumes "store_wf m" "load_active_watch m symbol = Some w"
  shows "dget (ms_watches m) (wa_watch_id w) = Some w \<and> wa_symbol w = norm_symbol symbol \<and> watch_active w"
  using first_max_mem [OF assms(2) [unfolded load_active_watch_def Let_def]] store_wf_mem [OF assms(1), of w]
  by simp

lemma load_active_None:
  assumes "store_wf m" "load_active_watch m symbol = None" "dget (ms_watches m) i = Some w"
    and "wa_symbol w = norm_symbol symbol"
  shows "\<not> watch_active w"
proof -
  have "w \<in> set (dvalues (ms_watches m))"
    using assms(1,3) store_wf_mem store_wf_key by metis
  with assms(2,4) show ?thesis by (auto simp: load_active_watch_def filter_empty_conv)
qed

lemma load_latest_Some:
  assumes "store_wf m" "load_latest_watch m symbol = Some w"
  shows "dget (ms_watches m) (wa_watch_id w) = Some w \<and> wa_symbol w = norm_symbol symbol"
  using first_max_mem [OF assms(2) [unfolded load_latest_watch_def Let_def]] store_wf_mem [OF assms(1), of w]
  by simp

lemma load_latest_greatest:
  assumes "store_wf m" "dget (ms_watches m) i = Some v" "wa_symbol v = norm_symbol symbol"
  shows "\<exists>w. load_latest_watch m symbol = Some w \<and> wa_updated_at v \<le> wa_updated_at w"
proof -
  let ?ws = "filter (\<lambda>w. wa_symbol w = norm_symbol symbol) (dvalues (ms_watches m))"
  have v: "v \<in> set ?ws"
    using assms store_wf_mem [OF assms(1), of v] store_wf_key [OF assms(1,2)] by simp
  then have "?ws \<noteq> []" by (metis empty_iff empty_set)
  then obtain w where w: "first_max wa_updated_at ?ws = Some w"
    by (meson first_max_None not_None_eq)
  with v show ?thesis using first_max_mem [OF w] by (auto simp: load_latest_watch_def)
qed

interpretation memory: entry_watch_store memory_ops "\<lambda>m. dget (ms_watches m)" ms_transitions store_wf
  by unfold_locales
    (auto simp: memory_ops_def create_watch_def transition_watch_def put_watch_view store_wf_put
      load_active_Some load_active_None load_latest_Some load_latest_greatest
      split: if_splits option.splits)

end
