(* ===== verification/Decimal_Text.thy ===== *)
theory Decimal_Text
  imports Decimals Canonical
begin

text \<open>
  \<open>Decimal(text)\<close> for finite numerals and the conversion \<open>_decimal\<close> the engines apply to a metric.
  The texts of infinities and NaNs (and a metric that is a non-finite \<open>Decimal\<close>) are outside the model
  of finite decimals: they convert to None here.
\<close>

definition digits_value :: "string \<Rightarrow> nat" where
  "digits_value s = foldl (\<lambda>n c. 10 * n + (code c - 48)) 0 s"

definition split_sign :: "string \<Rightarrow> bool \<times> string" where
  "split_sign s = (case s of c # cs \<Rightarrow> if c = CHR ''-'' then (True, cs) else if c = CHR ''+'' then (False, cs)
                                     else (False, s) | [] \<Rightarrow> (False, []))"

definition exponent_of_text :: "string \<Rightarrow> int option" where
  "exponent_of_text s =
     (case s of [] \<Rightarrow> Some 0
      | c # cs \<Rightarrow>
          if c \<noteq> CHR ''e'' \<and> c \<noteq> CHR ''E'' then None
          else (let (neg, ds) = split_sign cs
                in if ds = [] \<or> \<not> list_all isdigit ds then None
                   else Some (if neg then - int (digits_value ds) else int (digits_value ds))))"

text \<open>Surrounding white space and underscores are dropped; one of the digit groups may be empty.\<close>

definition decimal_of_text :: "string \<Rightarrow> rat option" where
  "decimal_of_text text =
     (let (neg, s) = split_sign (filter (\<lambda>c. c \<noteq> CHR ''_'') (strip text));
          whole = takeWhile isdigit s;
          rest = dropWhile isdigit s;
          dotted = (case rest of c # cs \<Rightarrow> c = CHR ''.'' | [] \<Rightarrow> False);
          frac = (if dotted then takeWhile isdigit (tl rest) else []);
          after = (if dotted then dropWhile isdigit (tl rest) else rest)
      in if whole = [] \<and> frac = [] then None
         else map_option
           (\<lambda>e. (if neg then - 1 else 1) * of_nat (digits_value (whole @ frac)) * p10 (e - int (length frac)))
           (exponent_of_text after))"

text \<open>\<open>_decimal\<close>: a \<open>bool\<close> is an \<open>int\<close> in Python.\<close>

fun py_decimal :: "py_value \<Rightarrow> rat option" where
  "py_decimal (VDec d) = Some d"
| "py_decimal (VStr s) = decimal_of_text s"
| "py_decimal (VInt i) = Some (of_int i)"
| "py_decimal (VBool b) = Some (if b then 1 else 0)"
| "py_decimal _ = None"

text \<open>\<open>x / y\<close> of the context: division by zero raises.\<close>

definition decimal_div :: "rat \<Rightarrow> rat \<Rightarrow> rat result" where
  "decimal_div x y =
     (if y \<noteq> 0 then Inr (ddiv x y) else if x = 0 then Inl InvalidOperation else Inl DivisionByZero)"

text \<open>\<open>value in {...}\<close> over text members: a list or an object is not hashable.\<close>

fun in_texts :: "py_value option \<Rightarrow> string list \<Rightarrow> bool result" where
  "in_texts (Some (VStr s)) texts = Inr (s \<in> set texts)"
| "in_texts (Some (VList _)) texts = Inl (TypeError ''unhashable type'')"
| "in_texts (Some (VDict _)) texts = Inl (TypeError ''unhashable type'')"
| "in_texts _ texts = Inr False"

lemma in_texts_True: "in_texts v texts = Inr True \<longleftrightarrow> (\<exists>s. v = Some (VStr s) \<and> s \<in> set texts)"
  by (induction v texts rule: in_texts.induct) auto

end
