(* ===== verification/Watch_Rules.thy ===== *)
theory Watch_Rules
  imports Watch_Contracts Decimal_Text "HOL-Library.Product_Lexorder"
begin

text \<open>
  What the entry watcher reads from the analyses of a symbol: metrics, the current price, the
  invalidation and the confirmation rules of the first three versions (app/entry_watcher/engine.py,
  v2.py and v3.py). A version is a record of the methods its class overrides.
\<close>

type_synonym analyses = "(analysis_horizon, analysis_result) dict"

section \<open>Metrics\<close>

definition metrics :: "analysis_result \<Rightarrow> (string, py_value) dict" where
  "metrics r = foldl (\<lambda>d m. dput (nv_name m) (nv_value m) d) [] (ar_metrics r)"

definition metric :: "analysis_result \<Rightarrow> string \<Rightarrow> py_value option" where
  "metric r name = dget (metrics r) name"

definition decimal_metric :: "analysis_result \<Rightarrow> string \<Rightarrow> rat option" where
  "decimal_metric r name = Option.bind (metric r name) py_decimal"

fun first_some :: "('a \<Rightarrow> 'b option) \<Rightarrow> 'a list \<Rightarrow> 'b option" where
  "first_some f [] = None"
| "first_some f (x # xs) = (case f x of Some y \<Rightarrow> Some y | None \<Rightarrow> first_some f xs)"

definition latest_decimal_metric :: "analyses \<Rightarrow> string list \<Rightarrow> analysis_horizon list \<Rightarrow> rat option" where
  "latest_decimal_metric analyses names horizons =
     first_some (\<lambda>h. case dget analyses h of None \<Rightarrow> None | Some r \<Rightarrow> first_some (decimal_metric r) names) horizons"

section \<open>Current price\<close>

primrec price_priority :: "analysis_horizon \<Rightarrow> int" where
  "price_priority AH_NEWS = - 3"
| "price_priority AH_OPTIONS_GAMMA = - 2"
| "price_priority AH_VOLUME_STRUCTURE = - 1"
| "price_priority AH_LONG_TERM = 0"
| "price_priority AH_DILUTION = 1"
| "price_priority AH_SWING = 2"
| "price_priority AH_INTRADAY = 3"

definition price_candidates :: "analyses \<Rightarrow> (instant \<times> int \<times> rat) list" where
  "price_candidates analyses =
     concat (map (\<lambda>(h, r). case decimal_metric r ''reference_price'' of
                    None \<Rightarrow> [] | Some p \<Rightarrow> [(ar_as_of r, price_priority h, p)]) analyses)"

definition current_price_observation :: "analyses \<Rightarrow> (instant \<times> rat) option" where
  "current_price_observation analyses =
     (case price_candidates analyses of [] \<Rightarrow> None
      | c # cs \<Rightarrow> (let (seen, _, price) = foldl max c cs in Some (seen, price)))"

definition current_price :: "analyses \<Rightarrow> rat option" where
  "current_price analyses = map_option snd (current_price_observation analyses)"

text \<open>\<open>self._current_price(latest) or active.current_price\<close>: zero is falsy.\<close>

definition price_or :: "rat option \<Rightarrow> rat \<Rightarrow> rat" where
  "price_or p fallback = (case p of Some q \<Rightarrow> if q = 0 then fallback else q | None \<Rightarrow> fallback)"

section \<open>Freshness\<close>

definition required :: "analysis_horizon list" where
  "required = [AH_LONG_TERM, AH_SWING, AH_INTRADAY]"

text \<open>The three required analyses, None when one is missing or stale. A validated policy configures
  the age of every horizon.\<close>

definition age_limit :: "watcher_policy \<Rightarrow> analysis_horizon \<Rightarrow> duration" where
  "age_limit policy h = (case po_max_ages policy h of Some d \<Rightarrow> d | None \<Rightarrow> 0)"

definition fresh_core ::
  "watcher_policy \<Rightarrow> analyses \<Rightarrow> instant \<Rightarrow> (analysis_result \<times> analysis_result \<times> analysis_result) option" where
  "fresh_core policy analyses now =
     (case (dget analyses AH_LONG_TERM, dget analyses AH_SWING, dget analyses AH_INTRADAY) of
        (Some long, Some swing, Some intraday) \<Rightarrow>
          if \<exists>(h, r)\<in>set (zip required [long, swing, intraday]). age_limit policy h < now - ar_as_of r
          then None else Some (long, swing, intraday)
      | _ \<Rightarrow> None)"

section \<open>Confirmation\<close>

definition swing_confirmations :: "string list" where
  "swing_confirmations = [''breakout'', ''pullback'']"

definition intraday_confirmations :: "string list" where
  "intraday_confirmations = [''bullish_breakout'', ''bullish_vwap_reclaim'', ''bullish_entry_confirmation'']"

definition guarded :: "bool \<Rightarrow> bool result \<Rightarrow> bool result" where
  "guarded b r = (if b then r else Inr False)"

definition all_of :: "bool result list \<Rightarrow> bool result" where
  "all_of rs = foldr (\<lambda>r acc. bind_result r (\<lambda>b. guarded b acc)) rs (Inr True)"

definition bullish :: "analysis_result \<Rightarrow> bool" where
  "bullish r \<longleftrightarrow> ar_direction r = PD_BULLISH"

definition long_agrees :: "analysis_result \<Rightarrow> bool" where
  "long_agrees r \<longleftrightarrow> bullish r \<and> ar_verdict r \<notin> {AV_AVOID, AV_INSUFFICIENT_DATA}"

definition favorable :: "analysis_result \<Rightarrow> bool" where
  "favorable r \<longleftrightarrow> bullish r \<and> ar_verdict r = AV_FAVORABLE"

definition confirmed_v1 :: "watcher_policy \<Rightarrow> analyses \<Rightarrow> instant \<Rightarrow> bool result" where
  "confirmed_v1 policy analyses now =
     (case fresh_core policy analyses now of None \<Rightarrow> Inr False
      | Some (long, swing, intraday) \<Rightarrow>
          all_of [Inr (long_agrees long), Inr (favorable swing),
                  in_texts (metric swing ''classification'') swing_confirmations, Inr (favorable intraday)])"

text \<open>\<open>quality is None or quality in {"standard", "strong"}\<close>; a metric whose value is None counts as absent.\<close>

definition absent :: "py_value option \<Rightarrow> bool" where
  "absent v \<longleftrightarrow> v = None \<or> v = Some VNone"

definition quality_ok :: "analysis_result \<Rightarrow> bool result" where
  "quality_ok intraday =
     (let quality = metric intraday ''confirmation_quality'' in
      if absent quality then Inr True else in_texts quality [''standard'', ''strong''])"

definition confirmed_v2 :: "watcher_policy \<Rightarrow> analyses \<Rightarrow> instant \<Rightarrow> bool result" where
  "confirmed_v2 policy analyses now =
     (case fresh_core policy analyses now of None \<Rightarrow> Inr False
      | Some (long, swing, intraday) \<Rightarrow>
          bind_result (quality_ok intraday) (\<lambda>quality.
            all_of [Inr (long_agrees long), Inr (favorable swing),
                    in_texts (metric swing ''classification'') swing_confirmations, Inr (favorable intraday),
                    in_texts (metric intraday ''setup'') intraday_confirmations, Inr quality]))"

definition gates_pass :: "analyses \<Rightarrow> bool" where
  "gates_pass analyses \<longleftrightarrow>
     (\<exists>swing\<in>set_option (dget analyses AH_SWING). metric swing ''anchored_vwap_gate_passed'' = Some (VBool True)) \<and>
     (\<exists>intraday\<in>set_option (dget analyses AH_INTRADAY). metric intraday ''confirmation_gate_passed'' = Some (VBool True))"

definition confirmed_v3 :: "watcher_policy \<Rightarrow> analyses \<Rightarrow> instant \<Rightarrow> bool result" where
  "confirmed_v3 policy analyses now =
     bind_result (confirmed_v2 policy analyses now) (\<lambda>ok. Inr (ok \<and> gates_pass analyses))"

text \<open>The continuation of version 3 also accepts a cautious or extended swing; \<open>quality in {None, ...}\<close>
  is tested near the end of the conjunction.\<close>

definition relaxed_swing :: "analysis_result \<Rightarrow> bool" where
  "relaxed_swing swing \<longleftrightarrow> bullish swing \<and> ar_verdict swing \<in> {AV_FAVORABLE, AV_CAUTION}"

definition metric_is_true :: "analysis_result \<Rightarrow> string \<Rightarrow> bool" where
  "metric_is_true r name \<longleftrightarrow> metric r name = Some (VBool True)"

definition continuation_confirmed_v3 :: "watcher_policy \<Rightarrow> analyses \<Rightarrow> instant \<Rightarrow> bool result" where
  "continuation_confirmed_v3 policy analyses now =
     bind_result (confirmed_v2 policy analyses now) (\<lambda>ok.
       if ok then Inr (gates_pass analyses)
       else (case fresh_core policy analyses now of None \<Rightarrow> Inr False
         | Some (long, swing, intraday) \<Rightarrow>
             all_of [Inr (long_agrees long), Inr (relaxed_swing swing),
                     in_texts (metric swing ''classification'') [''breakout'', ''pullback'', ''extended''],
                     Inr (metric_is_true swing ''anchored_vwap_gate_passed''), Inr (favorable intraday),
                     in_texts (metric intraday ''setup'') intraday_confirmations,
                     quality_ok intraday, Inr (metric_is_true intraday ''confirmation_gate_passed'')]))"

section \<open>Invalidation and reasons\<close>

definition long_structure_broken :: "analysis_result \<Rightarrow> bool" where
  "long_structure_broken r \<longleftrightarrow>
     ar_horizon r = AH_LONG_TERM \<and> (ar_verdict r = AV_AVOID \<or> ar_direction r = PD_BEARISH)"

definition invalidation_reason_v1 :: "entry_watch \<Rightarrow> analysis_result \<Rightarrow> rat \<Rightarrow> string option" where
  "invalidation_reason_v1 w r price =
     (if long_structure_broken r then Some ''long_structure_invalidated''
      else if price \<le> wa_invalidation w then Some ''original_invalidation_breached'' else None)"

text \<open>Version 2 only trusts a long-term close that is a \<open>Decimal\<close>.\<close>

definition strict_decimal_metric :: "analysis_result \<Rightarrow> string \<Rightarrow> rat option" where
  "strict_decimal_metric r name = (case metric r name of Some (VDec d) \<Rightarrow> Some d | _ \<Rightarrow> None)"

definition invalidation_reason_v2 :: "entry_watch \<Rightarrow> analysis_result \<Rightarrow> rat \<Rightarrow> string option" where
  "invalidation_reason_v2 w r price =
     (if long_structure_broken r then Some ''long_structure_invalidated''
      else if ar_horizon r = AH_LONG_TERM \<and>
              (\<exists>close\<in>set_option (strict_decimal_metric r ''reference_price''). close \<le> wa_invalidation w)
      then Some ''original_invalidation_breached_on_long_close'' else None)"

definition dilution_warning :: "analyses \<Rightarrow> string" where
  "dilution_warning analyses =
     (case dget analyses AH_DILUTION of None \<Rightarrow> ''dilution_warning:unavailable''
      | Some r \<Rightarrow> if ar_verdict r = AV_INSUFFICIENT_DATA then ''dilution_warning:unavailable''
                  else ''dilution_warning:'' @ lower (analysis_verdict_value (ar_verdict r)))"

definition confirmation_reasons_v1 :: "analyses \<Rightarrow> string list" where
  "confirmation_reasons_v1 analyses = [''multi_horizon_entry_confirmed'', dilution_warning analyses]"

definition confirmation_reasons_v2 :: "analyses \<Rightarrow> string list" where
  "confirmation_reasons_v2 analyses = [''regime_aware_entry_confirmed'', dilution_warning analyses]"

section \<open>Versions\<close>

record watcher_rules =
  wr_version :: string
  wr_confirmed :: "watcher_policy \<Rightarrow> analyses \<Rightarrow> instant \<Rightarrow> bool result"
  wr_continuation_confirmed :: "watcher_policy \<Rightarrow> analyses \<Rightarrow> instant \<Rightarrow> bool result"
  wr_invalidation_reason :: "entry_watch \<Rightarrow> analysis_result \<Rightarrow> rat \<Rightarrow> string option"
  wr_confirmation_reasons :: "analyses \<Rightarrow> string list"

definition rules_v1 :: watcher_rules where
  "rules_v1 = \<lparr> wr_version = ''1.0.0'', wr_confirmed = confirmed_v1, wr_continuation_confirmed = confirmed_v1,
     wr_invalidation_reason = invalidation_reason_v1, wr_confirmation_reasons = confirmation_reasons_v1 \<rparr>"

definition rules_v2 :: watcher_rules where
  "rules_v2 = \<lparr> wr_version = ''2.0.0'', wr_confirmed = confirmed_v2, wr_continuation_confirmed = confirmed_v2,
     wr_invalidation_reason = invalidation_reason_v2, wr_confirmation_reasons = confirmation_reasons_v2 \<rparr>"

definition rules_v3 :: watcher_rules where
  "rules_v3 = \<lparr> wr_version = ''3.0.0'', wr_confirmed = confirmed_v3,
     wr_continuation_confirmed = continuation_confirmed_v3,
     wr_invalidation_reason = invalidation_reason_v2, wr_confirmation_reasons = confirmation_reasons_v2 \<rparr>"

end
