(* ===== verification/Entry_Watcher.thy ===== *)
theory Entry_Watcher
  imports Watch_Store Watch_Rules
begin

text \<open>
  The state machine of app/entry_watcher/engine.py over any store of the port: ingestion of one
  analysis, arming, transitions and the bounded continuation after a touch of the zone. The texts of
  instants, of decimals with their written exponent, of durations and of non-finite decimals are given
  by a codec. The identities a call draws from \<open>id_factory\<close> and \<open>new_uuid7\<close> are arguments.
\<close>

section \<open>Texts of the interpreter\<close>

record watch_codec =
  cx_isoformat :: "instant \<Rightarrow> string"
  cx_fromisoformat :: "string \<Rightarrow> py_datetime option"
  cx_decimal :: "rat \<Rightarrow> string"
  cx_duration :: "duration \<Rightarrow> string"
  cx_non_finite :: string

function json_value :: "watch_codec \<Rightarrow> py_value \<Rightarrow> py_value" where
  "json_value c (VDec d) = VStr (cx_decimal c d)"
| "json_value c VNonFinite = VStr (cx_non_finite c)"
| "json_value c (VTime t) = VStr (cx_isoformat c t)"
| "json_value c (VDelta d) = VStr (cx_duration c d)"
| "json_value c (VDict kvs) = VDict (map (\<lambda>kv. (fst kv, json_value c (snd kv))) kvs)"
| "json_value c (VList vs) = VList (map (json_value c) vs)"
| "json_value c VNone = VNone"
| "json_value c (VBool b) = VBool b"
| "json_value c (VInt i) = VInt i"
| "json_value c (VFloat f) = VFloat f"
| "json_value c (VStr s) = VStr s"
  by pat_completeness auto
termination
proof (relation "measure (size \<circ> snd)")
  fix c :: watch_codec and kvs :: "(string \<times> py_value) list" and kv
  assume "kv \<in> set kvs"
  then have "(fst kv, snd kv) \<in> set kvs" by simp
  from size_dict_member [OF this] show "((c, snd kv), c, VDict kvs) \<in> measure (size \<circ> snd)" by simp
qed (auto dest: size_list_member)

section \<open>Zone and continuation\<close>

definition reached_target_zone :: "entry_watch \<Rightarrow> rat \<Rightarrow> bool" where
  "reached_target_zone w price \<longleftrightarrow> wa_invalidation w < price \<and> price \<le> wa_zone_high w"

definition left_target_zone :: "entry_watch \<Rightarrow> rat \<Rightarrow> bool" where
  "left_target_zone w price \<longleftrightarrow> wa_zone_high w < price"

definition same_thesis :: "entry_watch \<Rightarrow> analysis_result \<Rightarrow> bool" where
  "same_thesis w r \<longleftrightarrow> decimal_metric r ''buy_zone_low'' = Some (wa_zone_low w)
     \<and> decimal_metric r ''buy_zone_high'' = Some (wa_zone_high w)
     \<and> decimal_metric r ''invalidation'' = Some (wa_invalidation w)"

definition zone_touched_at :: "watch_codec \<Rightarrow> entry_watch \<Rightarrow> instant option" where
  "zone_touched_at c w =
     (let fallback = (if wa_status w = EW_IN_ZONE then Some (wa_updated_at w) else None) in
      case dget (wa_anchor_snapshot w) ''zone_touched_at'' of
        Some (VStr s) \<Rightarrow>
          (case cx_fromisoformat c s of None \<Rightarrow> None | Some (Aware t _) \<Rightarrow> Some t | Some (Naive _) \<Rightarrow> fallback)
      | _ \<Rightarrow> fallback)"

definition recent_zone_touch :: "watch_codec \<Rightarrow> watcher_policy \<Rightarrow> entry_watch \<Rightarrow> instant \<Rightarrow> bool" where
  "recent_zone_touch c policy w now \<longleftrightarrow>
     (\<exists>touched\<in>set_option (zone_touched_at c w).
        0 \<le> now - touched \<and> now - touched \<le> po_continuation_grace policy)"

text \<open>The extension above the zone, in percent and in ATR units (None: the ATR is unavailable).\<close>

definition continuation_candidate ::
  "watch_codec \<Rightarrow> watcher_policy \<Rightarrow> entry_watch \<Rightarrow> rat \<Rightarrow> analyses \<Rightarrow> instant \<Rightarrow> (rat \<times> rat option) option result" where
  "continuation_candidate c policy w price analyses now =
     (case zone_touched_at c w of None \<Rightarrow> Inr None
      | Some touched \<Rightarrow>
          if po_continuation_grace policy < now - touched \<or> price \<le> wa_zone_high w then Inr None
          else
            let extension = dsub price (wa_zone_high w) in
            bind_result (decimal_div extension (wa_zone_high w)) (\<lambda>ratio.
            bind_result (quantize 4 (dmul ratio 100)) (\<lambda>percent.
              if po_continuation_max_percent policy < percent then Inr None
              else
                case latest_decimal_metric analyses [''atr14''] [AH_SWING, AH_LONG_TERM] of
                  None \<Rightarrow> if po_continuation_fallback_percent policy < percent then Inr None
                          else Inr (Some (percent, None))
                | Some atr14 \<Rightarrow>
                    if atr14 \<le> 0 then
                      (if po_continuation_fallback_percent policy < percent then Inr None
                       else Inr (Some (percent, None)))
                    else bind_result (quantize 4 (ddiv extension atr14)) (\<lambda>extension_atr.
                      if po_continuation_max_atr policy < extension_atr then Inr None
                      else Inr (Some (percent, Some extension_atr))))))"

definition invalidation_candidate :: "analyses \<Rightarrow> rat \<Rightarrow> analysis_horizon \<times> string \<Rightarrow> rat list" where
  "invalidation_candidate analyses price source =
     (case latest_decimal_metric analyses [snd source] [fst source] of
        Some v \<Rightarrow> if v < price then [v] else [] | None \<Rightarrow> [])"

definition continuation_reward_risk :: "entry_watch \<Rightarrow> rat \<Rightarrow> analyses \<Rightarrow> rat option result" where
  "continuation_reward_risk w price analyses =
     (let invalidation = Max (set (wa_invalidation w # concat (map (invalidation_candidate analyses price)
            [(AH_SWING, ''invalidation''), (AH_INTRADAY, ''invalidation_level'')])))
      in case latest_decimal_metric analyses [''target_2r'', ''objective_level''] [AH_SWING, AH_INTRADAY] of
           None \<Rightarrow> Inr None
         | Some target \<Rightarrow>
             if target \<le> price \<or> price \<le> invalidation then Inr None
             else bind_result (decimal_div (dsub target price) (dsub price invalidation)) (\<lambda>ratio.
                  bind_result (quantize 2 ratio) (\<lambda>rr. Inr (Some rr))))"

definition continuation_reasons :: "rat \<Rightarrow> rat option \<Rightarrow> rat \<Rightarrow> analyses \<Rightarrow> string list" where
  "continuation_reasons percent extension_atr reward_risk analyses =
     [''breakaway_continuation_confirmed'',
      ''continuation_extension_percent:'' @ show_fixed 4 percent,
      ''continuation_extension_atr:'' @ (case extension_atr of Some a \<Rightarrow> show_fixed 4 a | None \<Rightarrow> ''unavailable''),
      ''continuation_reward_risk:'' @ show_fixed 2 reward_risk,
      dilution_warning analyses]"

section \<open>Transitions\<close>

text \<open>\<open>_transition\<close>: the horizons in declaration order; the contract validates the record.\<close>

definition watch_transition_of ::
  "uuid \<Rightarrow> entry_watch \<Rightarrow> entry_watch_status option \<Rightarrow> entry_watch_status \<Rightarrow> instant \<Rightarrow> rat \<Rightarrow> string list \<Rightarrow>
   analyses \<Rightarrow> rat option \<Rightarrow> rat option \<Rightarrow> watch_transition result" where
  "watch_transition_of tid w previous status now price reasons analyses entry_invalidation entry_target =
     (let ordered = filter (\<lambda>h. dget analyses h \<noteq> None) analysis_horizon_members in
      make_transition
        \<lparr> tr_transition_id = tid, tr_watch_id = wa_watch_id w, tr_symbol = wa_symbol w,
          tr_previous_status = previous, tr_status = status, tr_occurred_at = now,
          tr_zone_low = wa_zone_low w, tr_zone_high = wa_zone_high w, tr_invalidation = wa_invalidation w,
          tr_current_price = price, tr_entry_invalidation = entry_invalidation, tr_entry_target = entry_target,
          tr_watch_expires_at = wa_expires_at w, tr_reasons = reasons, tr_horizons = ordered,
          tr_source_analysis_ids = map (\<lambda>h. ar_analysis_id (the (dget analyses h))) ordered \<rparr>)"

text \<open>\<open>_change\<close>: \<open>model_copy\<close> does not validate the updated watch again.\<close>

definition changed_watch ::
  "watch_codec \<Rightarrow> entry_watch \<Rightarrow> entry_watch_status \<Rightarrow> instant \<Rightarrow> rat \<Rightarrow> (string, py_value) dict \<Rightarrow> entry_watch" where
  "changed_watch c w status now price anchor_updates =
     (let touched = (if status = EW_IN_ZONE
            then dput ''zone_touched_at'' (VStr (cx_isoformat c now)) (wa_anchor_snapshot w)
            else wa_anchor_snapshot w)
      in w \<lparr> wa_status := status, wa_updated_at := now, wa_current_price := price,
             wa_terminal_at := (if status \<in> set active_statuses then None else Some now),
             wa_anchor_snapshot := foldl (\<lambda>d (k, v). dput k v d) touched anchor_updates \<rparr>)"

definition change_watch ::
  "'s watch_store \<Rightarrow> watch_codec \<Rightarrow> uuid \<Rightarrow> entry_watch \<Rightarrow> entry_watch_status \<Rightarrow> instant \<Rightarrow> rat \<Rightarrow> string list \<Rightarrow>
   analyses \<Rightarrow> (string, py_value) dict \<Rightarrow> rat option \<Rightarrow> rat option \<Rightarrow> 's \<Rightarrow> (watch_transition option \<times> 's) result" where
  "change_watch ops c tid w status now price reasons analyses anchor_updates entry_invalidation entry_target s =
     (let updated = changed_watch c w status now price anchor_updates in
      bind_result (watch_transition_of tid updated (Some (wa_status w)) status now price reasons analyses
                     entry_invalidation entry_target) (\<lambda>t.
      bind_result (ws_transition ops updated t s) (\<lambda>s'. Inr (Some t, s'))))"

section \<open>Arming\<close>

definition armable_classifications :: "string list" where
  "armable_classifications = [''buy_zone'', ''extended'', ''setup'', ''watch_pullback'']"

definition confirmation_policy :: py_value where
  "confirmation_policy = VDict
     [(''long'', VStr ''bullish_and_not_avoid''), (''dilution'', VStr ''warning_only_not_a_gate''),
      (''swing'', VStr ''favorable_pullback_or_breakout''), (''intraday'', VStr ''favorable_bullish''),
      (''continuation'', VStr ''recent_zone_touch_with_distance_and_live_rr_caps'')]"

definition anchor_snapshot ::
  "watch_codec \<Rightarrow> string \<Rightarrow> py_value \<Rightarrow> analysis_result \<Rightarrow> (string, py_value) dict" where
  "anchor_snapshot c version classification r =
     [(''classification'', classification), (''engine_version'', VStr (ar_engine_version r)),
      (''watcher_engine_version'', VStr version), (''score'', VStr (cx_decimal c (ar_score r))),
      (''reasons'', VList (map VStr (ar_reasons r))), (''metrics'', json_value c (VDict (metrics r))),
      (''confirmation_policy'', confirmation_policy)]"

text \<open>The levels of an armable analysis, or None when one of the conditions of \<open>_arm\<close> fails.\<close>

definition armable_levels :: "analysis_result \<Rightarrow> (rat \<times> rat \<times> rat \<times> rat) option result" where
  "armable_levels r =
     (if \<not> bullish r \<or> ar_verdict r \<in> {AV_AVOID, AV_INSUFFICIENT_DATA} then Inr None
      else bind_result (in_texts (metric r ''classification'') armable_classifications) (\<lambda>known.
        if \<not> known then Inr None
        else
          case (decimal_metric r ''buy_zone_low'', decimal_metric r ''buy_zone_high'',
                decimal_metric r ''invalidation'', decimal_metric r ''reference_price'') of
            (Some zone_low, Some zone_high, Some invalidation, Some price) \<Rightarrow>
              if \<not> (invalidation < zone_low \<and> zone_low \<le> zone_high) \<or> price \<le> invalidation then Inr None
              else Inr (Some (zone_low, zone_high, invalidation, price))
          | _ \<Rightarrow> Inr None))"

definition armed_watch ::
  "watch_codec \<Rightarrow> string \<Rightarrow> watcher_policy \<Rightarrow> uuid \<Rightarrow> analysis_result \<Rightarrow> instant \<Rightarrow> rat \<times> rat \<times> rat \<times> rat \<Rightarrow> entry_watch result" where
  "armed_watch c version policy wid r now levels =
     (let (zone_low, zone_high, invalidation, price) = levels;
          status = (if invalidation < price \<and> price \<le> zone_high then EW_IN_ZONE else EW_ARMED);
          snapshot = anchor_snapshot c version (the (metric r ''classification'')) r
      in bind_result (decimal_div (dsub price zone_high) price) (\<lambda>ratio.
         bind_result (quantize 4 (max 0 (dmul ratio 100))) (\<lambda>correction.
           make_watch
             \<lparr> wa_watch_id = wid, wa_symbol = ar_symbol r, wa_status = status, wa_armed_at = now,
               wa_updated_at = now, wa_expires_at = now + po_ttl policy, wa_zone_low = zone_low,
               wa_zone_high = zone_high, wa_invalidation = invalidation, wa_original_price = price,
               wa_current_price = price, wa_correction_target_percent = correction,
               wa_source_analysis_id = ar_analysis_id r, wa_source_context_hash = ar_context_hash r,
               wa_anchor_snapshot =
                 (if status = EW_IN_ZONE then dput ''zone_touched_at'' (VStr (cx_isoformat c now)) snapshot
                  else snapshot),
               wa_terminal_at = None \<rparr>)))"

definition arm ::
  "'s watch_store \<Rightarrow> watcher_rules \<Rightarrow> watcher_policy \<Rightarrow> watch_codec \<Rightarrow> uuid \<times> uuid \<Rightarrow> analysis_result \<Rightarrow> instant \<Rightarrow>
   's \<Rightarrow> (watch_transition option \<times> 's) result" where
  "arm ops rules policy c ids r now s =
     bind_result (armable_levels r) (\<lambda>levels.
       case levels of None \<Rightarrow> Inr (None, s)
       | Some l \<Rightarrow>
           bind_result (armed_watch c (wr_version rules) policy (fst ids) r now l) (\<lambda>w.
           bind_result (watch_transition_of (snd ids) w None (wa_status w) now (wa_current_price w)
               [''long_entry_thesis_armed'',
                if wa_status w = EW_IN_ZONE then ''target_zone_reached'' else ''awaiting_pullback'']
               [(AH_LONG_TERM, r)] None None) (\<lambda>t.
           bind_result (ws_create ops w t s) (\<lambda>s'. Inr (Some t, s')))))"

section \<open>One analysis\<close>

text \<open>The last part of \<open>ingest\<close>: the watch reaches or leaves its zone.\<close>

definition zone_step ::
  "'s watch_store \<Rightarrow> watch_codec \<Rightarrow> watcher_policy \<Rightarrow> uuid \<Rightarrow> entry_watch \<Rightarrow> rat \<Rightarrow> bool \<Rightarrow> analyses \<Rightarrow> instant \<Rightarrow> 's \<Rightarrow>
   (watch_transition option \<times> 's) result" where
  "zone_step ops c policy tid w price continuing analyses now s =
     (if wa_status w = EW_ARMED \<and> reached_target_zone w price
      then change_watch ops c tid w EW_IN_ZONE now price
             [''target_zone_reached'', ''awaiting_entry_confirmation''] analyses [] None None s
      else if wa_status w = EW_IN_ZONE \<and> left_target_zone w price
      then if continuing
           then change_watch ops c tid w EW_ARMED now price
                  [''breakaway_continuation_pending'', ''awaiting_fresh_intraday_confirmation''] analyses
                  (case zone_touched_at c w of None \<Rightarrow> []
                   | Some touched \<Rightarrow> [(''zone_touched_at'', VStr (cx_isoformat c touched))]) None None s
           else change_watch ops c tid w EW_ARMED now price
                  (''left_target_zone_without_confirmation'' #
                   (if recent_zone_touch c policy w now then [''continuation_chase_cap_exceeded''] else []))
                  analyses [] None None s
      else Inr (None, s))"

text \<open>The continuation trigger: None when it does not fire.\<close>

definition continuation_trigger ::
  "watcher_rules \<Rightarrow> watcher_policy \<Rightarrow> entry_watch \<Rightarrow> rat \<Rightarrow> (rat \<times> rat option) option \<Rightarrow> analyses \<Rightarrow> instant \<Rightarrow>
   string list option result" where
  "continuation_trigger rules policy w price continuation analyses now =
     (case continuation of None \<Rightarrow> Inr None
      | Some (percent, extension_atr) \<Rightarrow>
          bind_result (wr_continuation_confirmed rules policy analyses now) (\<lambda>confirmed.
            if \<not> confirmed then Inr None
            else bind_result (continuation_reward_risk w price analyses) (\<lambda>reward_risk.
              case reward_risk of None \<Rightarrow> Inr None
              | Some rr \<Rightarrow>
                  if po_continuation_min_reward_risk policy \<le> rr
                  then Inr (Some (continuation_reasons percent extension_atr rr analyses))
                  else Inr None)))"

text \<open>An active, unexpired watch.\<close>

definition advance ::
  "'s watch_store \<Rightarrow> watcher_rules \<Rightarrow> watcher_policy \<Rightarrow> watch_codec \<Rightarrow> uuid \<Rightarrow> analysis_result \<Rightarrow> analyses \<Rightarrow> instant \<Rightarrow>
   entry_watch \<Rightarrow> 's \<Rightarrow> (watch_transition option \<times> 's) result" where
  "advance ops rules policy c tid r analyses now w s =
     (let price = price_or (current_price analyses) (wa_current_price w) in
      case wr_invalidation_reason rules w r price of
        Some reason \<Rightarrow> change_watch ops c tid w EW_INVALIDATED now price [reason] analyses [] None None s
      | None \<Rightarrow>
          bind_result (guarded (wa_zone_low w \<le> price \<and> price \<le> wa_zone_high w)
                         (wr_confirmed rules policy analyses now)) (\<lambda>confirmed.
          if confirmed
          then change_watch ops c tid w EW_TRIGGERED now price (wr_confirmation_reasons rules analyses)
                 analyses [] None None s
          else
            bind_result (continuation_candidate c policy w price analyses now) (\<lambda>continuation.
            bind_result (continuation_trigger rules policy w price continuation analyses now) (\<lambda>fired.
              case fired of
                Some reasons \<Rightarrow>
                  change_watch ops c tid w EW_TRIGGERED now price reasons analyses [] None None s
              | None \<Rightarrow> zone_step ops c policy tid w price (continuation \<noteq> None) analyses now s))))"

definition thesis_cooling :: "watcher_policy \<Rightarrow> entry_watch option \<Rightarrow> analysis_result \<Rightarrow> instant \<Rightarrow> bool" where
  "thesis_cooling policy previous r now \<longleftrightarrow>
     (\<exists>w\<in>set_option previous. wa_status w \<notin> set active_statuses \<and>
        now - wa_updated_at w < po_rearm_cooldown policy \<and> same_thesis w r)"

definition decide_watch ::
  "'s watch_store \<Rightarrow> watcher_rules \<Rightarrow> watcher_policy \<Rightarrow> watch_codec \<Rightarrow> uuid \<times> uuid \<Rightarrow> analysis_result \<Rightarrow> analyses \<Rightarrow>
   instant \<Rightarrow> 's \<Rightarrow> (watch_transition option \<times> 's) result" where
  "decide_watch ops rules policy c ids r analyses now s =
     (case ws_load_active ops s (ar_symbol r) of
        Some w \<Rightarrow>
          if wa_expires_at w \<le> now
          then change_watch ops c (snd ids) w EW_EXPIRED now
                 (price_or (current_price analyses) (wa_current_price w)) [''entry_watch_expired''] analyses
                 [] None None s
          else advance ops rules policy c (snd ids) r analyses now w s
      | None \<Rightarrow>
          if ar_horizon r \<noteq> AH_LONG_TERM then Inr (None, s)
          else if thesis_cooling policy (ws_load_latest ops s (ar_symbol r)) r now then Inr (None, s)
          else arm ops rules policy c ids r now s)"

record 's watcher =
  wt_latest :: "(string, analyses) dict"
  wt_store :: 's

definition validate_time :: "analysis_result \<Rightarrow> py_datetime \<Rightarrow> instant result" where
  "validate_time r now =
     (case now of
        Naive _ \<Rightarrow> Inl (ValueError ''entry watcher time must be timezone-aware UTC'')
      | Aware t offset \<Rightarrow>
          if offset \<noteq> 0 then Inl (ValueError ''entry watcher time must be timezone-aware UTC'')
          else if t < ar_as_of r then Inl (ValueError ''analysis as_of cannot be in the future'')
          else Inr t)"

text \<open>What \<open>self._latest\<close> holds once the analysis is recorded: None when it is older than the one held.\<close>

definition recorded :: "(string, analyses) dict \<Rightarrow> analysis_result \<Rightarrow> analyses option" where
  "recorded latest r =
     (let held = (case dget latest (ar_symbol r) of None \<Rightarrow> [] | Some a \<Rightarrow> a) in
      case dget held (ar_horizon r) of
        Some existing \<Rightarrow>
          if ar_as_of r < ar_as_of existing then None else Some (dput (ar_horizon r) r held)
      | None \<Rightarrow> Some (dput (ar_horizon r) r held))"

text \<open>An exception of the store or of a contract leaves the recorded analysis in place.\<close>

definition ingest ::
  "'s watch_store \<Rightarrow> watcher_rules \<Rightarrow> watcher_policy \<Rightarrow> watch_codec \<Rightarrow> uuid \<times> uuid \<Rightarrow> analysis_result \<Rightarrow>
   py_datetime \<Rightarrow> 's watcher \<Rightarrow> watch_transition option result \<times> 's watcher" where
  "ingest ops rules policy c ids r now x =
     (case validate_time r now of Inl e \<Rightarrow> (Inl e, x)
      | Inr t \<Rightarrow>
          (case recorded (wt_latest x) r of None \<Rightarrow> (Inr None, x)
           | Some analyses \<Rightarrow>
               let x1 = x \<lparr> wt_latest := dput (ar_symbol r) analyses (wt_latest x) \<rparr> in
               (case decide_watch ops rules policy c ids r analyses t (wt_store x) of
                  Inl e \<Rightarrow> (Inl e, x1)
                | Inr (transition, s) \<Rightarrow> (Inr transition, x1 \<lparr> wt_store := s \<rparr>))))"

end
