(* ===== verification/Watch_Laws.thy ===== *)
theory Watch_Laws
  imports Entry_Watcher
begin

text \<open>
  Laws of the entry watcher: the abstract lifecycle of a watch, the refinement of one ingestion to a
  step of the store, and what holds after any sequence of ingestions for every store that satisfies
  the contract of Watch_Store.
\<close>

section \<open>Lifecycle\<close>

inductive lifecycle :: "entry_watch_status option \<Rightarrow> entry_watch_status \<Rightarrow> bool" where
  arms: "s \<in> {EW_ARMED, EW_IN_ZONE} \<Longrightarrow> lifecycle None s"
| reaches: "lifecycle (Some EW_ARMED) EW_IN_ZONE"
| leaves: "lifecycle (Some EW_IN_ZONE) EW_ARMED"
| finishes: "s \<in> set active_statuses \<Longrightarrow> s' \<in> {EW_TRIGGERED, EW_INVALIDATED, EW_EXPIRED} \<Longrightarrow>
    lifecycle (Some s) s'"

code_pred lifecycle .

inductive_simps lifecycle_None: "lifecycle None s"
inductive_simps lifecycle_Some: "lifecycle (Some s) s'"

lemma terminal_is_final: "lifecycle (Some s) s' \<Longrightarrow> s \<in> set active_statuses"
  by (auto simp: lifecycle_Some active_statuses_def)

text \<open>The transitions of one watch: each continues from the status the previous one left.\<close>

fun status_path :: "entry_watch_status option \<Rightarrow> watch_transition list \<Rightarrow> entry_watch_status option \<Rightarrow> bool" where
  "status_path p [] q \<longleftrightarrow> p = q"
| "status_path p (t # ts) q \<longleftrightarrow>
     tr_previous_status t = p \<and> lifecycle p (tr_status t) \<and> status_path (Some (tr_status t)) ts q"

lemma status_path_snoc:
  "status_path p (ts @ [t]) q \<longleftrightarrow>
     status_path p ts (tr_previous_status t) \<and> lifecycle (tr_previous_status t) (tr_status t) \<and> q = Some (tr_status t)"
  by (induction ts arbitrary: p) auto

definition of_watch :: "uuid \<Rightarrow> watch_transition list \<Rightarrow> watch_transition list" where
  "of_watch i ts = filter (\<lambda>t. tr_watch_id t = i) ts"

text \<open>A transition reports the levels the watch was armed with.\<close>

definition reports :: "entry_watch \<Rightarrow> watch_transition \<Rightarrow> bool" where
  "reports w t \<longleftrightarrow> tr_watch_id t = wa_watch_id w \<and> tr_symbol t = wa_symbol w \<and> tr_zone_low t = wa_zone_low w
     \<and> tr_zone_high t = wa_zone_high w \<and> tr_invalidation t = wa_invalidation w
     \<and> tr_watch_expires_at t = wa_expires_at w"

section \<open>Declaration order of the horizons\<close>

primrec horizon_rank :: "analysis_horizon \<Rightarrow> nat" where
  "horizon_rank AH_LONG_TERM = 0"
| "horizon_rank AH_DILUTION = 1"
| "horizon_rank AH_SWING = 2"
| "horizon_rank AH_INTRADAY = 3"
| "horizon_rank AH_VOLUME_STRUCTURE = 4"
| "horizon_rank AH_OPTIONS_GAMMA = 5"
| "horizon_rank AH_NEWS = 6"

lemma horizon_rank_inj: "horizon_rank h = horizon_rank h' \<longleftrightarrow> h = h'"
  by (cases h; cases h') simp_all

instantiation analysis_horizon :: linorder
begin

definition less_eq_analysis_horizon :: "analysis_horizon \<Rightarrow> analysis_horizon \<Rightarrow> bool" where
  "h \<le> h' \<longleftrightarrow> horizon_rank h \<le> horizon_rank h'"

definition less_analysis_horizon :: "analysis_horizon \<Rightarrow> analysis_horizon \<Rightarrow> bool" where
  "h < h' \<longleftrightarrow> horizon_rank h < horizon_rank h'"

instance
  by intro_classes (auto simp: less_eq_analysis_horizon_def less_analysis_horizon_def horizon_rank_inj)

end

lemma horizon_members_sorted: "sorted analysis_horizon_members" "distinct analysis_horizon_members"
  "set analysis_horizon_members = UNIV"
  by (auto simp: analysis_horizon_members_def less_eq_analysis_horizon_def intro: analysis_horizon.exhaust)

text \<open>A transition names the horizons held, in the order of the enumeration.\<close>

lemma transition_horizons:
  assumes "watch_transition_of tid w previous status now price reasons analyses ei et = Inr t"
  shows "tr_horizons t = sorted_list_of_set {h. dget analyses h \<noteq> None}"
proof -
  let ?hs = "filter (\<lambda>h. dget analyses h \<noteq> None) analysis_horizon_members"
  have "tr_horizons t = ?hs"
    using assms by (auto simp: watch_transition_of_def make_transition_def Let_def split: if_splits)
  also have "?hs = sorted_list_of_set (set ?hs)"
    using horizon_members_sorted(1,2)
    by (intro sorted_list_of_set.idem_if_sorted_distinct [symmetric] sorted_wrt_filter distinct_filter)
  finally show ?thesis using horizon_members_sorted(3) by simp
qed

section \<open>The step of the store\<close>

inductive store_step ::
  "'s watch_store \<Rightarrow> string \<Rightarrow> uuid \<Rightarrow> instant \<Rightarrow> 's \<Rightarrow> watch_transition option \<Rightarrow> 's \<Rightarrow> bool"
  for ops symbol wid now where
  idle: "store_step ops symbol wid now s None s"
| arming: "ws_load_active ops s symbol = None \<Longrightarrow> wa_watch_id w = wid \<Longrightarrow> wa_symbol w = symbol \<Longrightarrow>
    wa_status w \<in> {EW_ARMED, EW_IN_ZONE} \<Longrightarrow> reports w t \<Longrightarrow> tr_previous_status t = None \<Longrightarrow>
    tr_status t = wa_status w \<Longrightarrow> tr_occurred_at t = now \<Longrightarrow> ws_create ops w t s = Inr s' \<Longrightarrow>
    store_step ops symbol wid now s (Some t) s'"
| moving: "ws_load_active ops s symbol = Some w \<Longrightarrow> wa_watch_id w' = wa_watch_id w \<Longrightarrow>
    wa_symbol w' = wa_symbol w \<Longrightarrow> reports w t \<Longrightarrow> reports w' t \<Longrightarrow>
    lifecycle (Some (wa_status w)) (wa_status w') \<Longrightarrow> tr_previous_status t = Some (wa_status w) \<Longrightarrow>
    tr_status t = wa_status w' \<Longrightarrow> tr_occurred_at t = now \<Longrightarrow> ws_transition ops w' t s = Inr s' \<Longrightarrow>
    store_step ops symbol wid now s (Some t) s'"

lemma bind_result_Inl [simp]: "bind_result (Inl e) f = Inl e"
  by simp

lemma make_transition_sel:
  assumes "make_transition t = Inr t'"
  shows "tr_watch_id t' = tr_watch_id t" "tr_symbol t' = tr_symbol t" "tr_zone_low t' = tr_zone_low t"
    "tr_zone_high t' = tr_zone_high t" "tr_invalidation t' = tr_invalidation t"
    "tr_watch_expires_at t' = tr_watch_expires_at t" "tr_previous_status t' = tr_previous_status t"
    "tr_status t' = tr_status t" "tr_occurred_at t' = tr_occurred_at t" "tr_current_price t' = tr_current_price t"
    "0 < tr_current_price t"
  using assms by (auto simp: make_transition_def watch_transition_fields_def split: if_splits)

lemma watch_transition_of_sel:
  assumes "watch_transition_of tid w previous status now price reasons analyses ei et = Inr t"
  shows "reports w t" "tr_previous_status t = previous" "tr_status t = status" "tr_occurred_at t = now"
    "tr_current_price t = price" "0 < price"
  using make_transition_sel [OF assms [unfolded watch_transition_of_def Let_def]] by (simp_all add: reports_def)

lemma changed_watch_sel [simp]:
  "wa_watch_id (changed_watch c w status now price us) = wa_watch_id w"
  "wa_symbol (changed_watch c w status now price us) = wa_symbol w"
  "wa_status (changed_watch c w status now price us) = status"
  "wa_zone_low (changed_watch c w status now price us) = wa_zone_low w"
  "wa_zone_high (changed_watch c w status now price us) = wa_zone_high w"
  "wa_invalidation (changed_watch c w status now price us) = wa_invalidation w"
  "wa_expires_at (changed_watch c w status now price us) = wa_expires_at w"
  by (simp_all add: changed_watch_def Let_def)

lemma reports_changed [simp]: "reports (changed_watch c w status now price us) t = reports w t"
  by (simp add: reports_def)

lemma change_watch_Inr:
  assumes "change_watch ops c tid w status now price reasons analyses us ei et s = Inr (tr, s')"
  obtains t where "tr = Some t" "reports w t" "tr_previous_status t = Some (wa_status w)" "tr_status t = status"
    "tr_occurred_at t = now" "tr_current_price t = price"
    "ws_transition ops (changed_watch c w status now price us) t s = Inr s'"
  using assms watch_transition_of_sel [of tid "changed_watch c w status now price us"]
  unfolding change_watch_def Let_def by (auto simp: bind_result_Inr)

lemma change_watch_step:
  assumes "ws_load_active ops s symbol = Some w" "lifecycle (Some (wa_status w)) status"
    and "change_watch ops c tid w status now price reasons analyses us ei et s = Inr (tr, s')"
  shows "store_step ops symbol wid now s tr s'"
proof -
  obtain t where t: "tr = Some t" "reports w t" "tr_previous_status t = Some (wa_status w)" "tr_status t = status"
    "tr_occurred_at t = now" "ws_transition ops (changed_watch c w status now price us) t s = Inr s'"
    using change_watch_Inr [OF assms(3)] by metis
  show ?thesis unfolding t(1) by (rule store_step.moving [OF assms(1), of "changed_watch c w status now price us"])
      (simp_all add: t assms(2))
qed

lemma transition_legal:
  "s \<in> set active_statuses \<Longrightarrow> s' \<in> {EW_TRIGGERED, EW_INVALIDATED, EW_EXPIRED} \<Longrightarrow> lifecycle (Some s) s'"
  by (rule lifecycle.finishes)

lemma zone_step_step:
  assumes "ws_load_active ops s symbol = Some w"
    and "zone_step ops c policy tid w price continuing analyses now s = Inr (tr, s')"
  shows "store_step ops symbol wid now s tr s'"
proof -
  have "wa_status w = EW_ARMED \<Longrightarrow> lifecycle (Some (wa_status w)) EW_IN_ZONE"
    "wa_status w = EW_IN_ZONE \<Longrightarrow> lifecycle (Some (wa_status w)) EW_ARMED"
    by (simp_all add: lifecycle.reaches lifecycle.leaves)
  then show ?thesis using assms(2) unfolding zone_step_def
    by (auto split: if_splits intro: change_watch_step [OF assms(1)] store_step.idle)
qed

lemma continuation_trigger_Some:
  assumes "continuation_trigger rules policy w price continuation analyses now = Inr (Some reasons)"
  obtains percent extension_atr rr where "continuation = Some (percent, extension_atr)"
    "wr_continuation_confirmed rules policy analyses now = Inr True"
    "continuation_reward_risk w price analyses = Inr (Some rr)" "po_continuation_min_reward_risk policy \<le> rr"
    "reasons = continuation_reasons percent extension_atr rr analyses"
  using assms unfolding continuation_trigger_def
  by (auto simp: bind_result_Inr split: option.splits prod.splits if_splits)

definition watch_price :: "analyses \<Rightarrow> entry_watch \<Rightarrow> rat" where
  "watch_price analyses w = price_or (current_price analyses) (wa_current_price w)"

lemma advance_unfold:
  "advance ops rules policy c tid r analyses now w s =
     (case wr_invalidation_reason rules w r (watch_price analyses w) of
        Some reason \<Rightarrow>
          change_watch ops c tid w EW_INVALIDATED now (watch_price analyses w) [reason] analyses [] None None s
      | None \<Rightarrow>
          bind_result (guarded (wa_zone_low w \<le> watch_price analyses w \<and> watch_price analyses w \<le> wa_zone_high w)
                         (wr_confirmed rules policy analyses now)) (\<lambda>confirmed.
          if confirmed
          then change_watch ops c tid w EW_TRIGGERED now (watch_price analyses w)
                 (wr_confirmation_reasons rules analyses) analyses [] None None s
          else
            bind_result (continuation_candidate c policy w (watch_price analyses w) analyses now) (\<lambda>continuation.
            bind_result (continuation_trigger rules policy w (watch_price analyses w) continuation analyses now) (\<lambda>fired.
              case fired of
                Some reasons \<Rightarrow> change_watch ops c tid w EW_TRIGGERED now (watch_price analyses w) reasons analyses [] None None s
              | None \<Rightarrow> zone_step ops c policy tid w (watch_price analyses w) (continuation \<noteq> None) analyses now s))))"
  unfolding advance_def watch_price_def Let_def by (rule refl)

lemma advance_Inr:
  assumes "advance ops rules policy c tid r analyses now w s = Inr (tr, s')"
  obtains (invalidated) reason where
      "change_watch ops c tid w EW_INVALIDATED now (watch_price analyses w) [reason] analyses [] None None s = Inr (tr, s')"
  | (confirmed) "wr_invalidation_reason rules w r (watch_price analyses w) = None"
      "wa_zone_low w \<le> watch_price analyses w" "watch_price analyses w \<le> wa_zone_high w"
      "wr_confirmed rules policy analyses now = Inr True"
      "change_watch ops c tid w EW_TRIGGERED now (watch_price analyses w)
         (wr_confirmation_reasons rules analyses) analyses [] None None s = Inr (tr, s')"
  | (continued) continuation reasons where
      "wr_invalidation_reason rules w r (watch_price analyses w) = None"
      "continuation_candidate c policy w (watch_price analyses w) analyses now = Inr continuation"
      "continuation_trigger rules policy w (watch_price analyses w) continuation analyses now = Inr (Some reasons)"
      "change_watch ops c tid w EW_TRIGGERED now (watch_price analyses w) reasons analyses [] None None s = Inr (tr, s')"
  | (zone) continuing where
      "zone_step ops c policy tid w (watch_price analyses w) continuing analyses now s = Inr (tr, s')"
proof (cases "wr_invalidation_reason rules w r (watch_price analyses w)")
  case (Some reason)
  with assms [unfolded advance_unfold] invalidated show ?thesis by auto
next
  case None
  obtain ok where ok: "guarded (wa_zone_low w \<le> watch_price analyses w \<and> watch_price analyses w \<le> wa_zone_high w)
      (wr_confirmed rules policy analyses now) = Inr ok"
    using assms [unfolded advance_unfold] None by (auto simp: bind_result_Inr)
  show ?thesis
  proof (cases ok)
    case True
    with assms [unfolded advance_unfold] None ok confirmed show ?thesis by (auto simp: guarded_def split: if_splits)
  next
    case False
    with assms [unfolded advance_unfold] None ok obtain continuation fired where
      "continuation_candidate c policy w (watch_price analyses w) analyses now = Inr continuation"
      "continuation_trigger rules policy w (watch_price analyses w) continuation analyses now = Inr fired"
      "(case fired of Some reasons \<Rightarrow> change_watch ops c tid w EW_TRIGGERED now (watch_price analyses w) reasons
           analyses [] None None s
        | None \<Rightarrow> zone_step ops c policy tid w (watch_price analyses w) (continuation \<noteq> None) analyses now s)
       = Inr (tr, s')"
      by (auto simp: bind_result_Inr simp del: not_None_eq)
    then show ?thesis using None continued zone by (cases fired) auto
  qed
qed

lemma advance_step:
  assumes loaded: "ws_load_active ops s symbol = Some w" and active: "watch_active w"
    and run: "advance ops rules policy c tid r analyses now w s = Inr (tr, s')"
  shows "store_step ops symbol wid now s tr s'"
  using run
  by (cases rule: advance_Inr)
    (auto intro: change_watch_step [OF loaded] zone_step_step [OF loaded] transition_legal [OF active])

lemma armed_watch_sel:
  assumes "armed_watch c version policy wid r now levels = Inr w"
  shows "wa_watch_id w = wid" "wa_symbol w = ar_symbol r" "wa_status w \<in> {EW_ARMED, EW_IN_ZONE}" "watch_ok w"
    "wa_updated_at w = now"
  using assms unfolding armed_watch_def by (auto simp: Let_def bind_result_Inr make_watch_iff split: prod.splits)

lemma arm_Inr:
  assumes "arm ops rules policy c ids r now s = Inr (tr, s')"
  obtains "tr = None" "s' = s"
  | w t l where "tr = Some t" "armable_levels r = Inr (Some l)"
      "armed_watch c (wr_version rules) policy (fst ids) r now l = Inr w"
      "reports w t" "tr_previous_status t = None" "tr_status t = wa_status w" "tr_occurred_at t = now"
      "ws_create ops w t s = Inr s'"
proof -
  from assms obtain levels where levels: "armable_levels r = Inr levels"
    by (auto simp: arm_def bind_result_Inr)
  show ?thesis
  proof (cases levels)
    case None
    with assms levels that(1) show ?thesis by (simp add: arm_def)
  next
    case (Some l)
    with assms levels obtain w t where "armed_watch c (wr_version rules) policy (fst ids) r now l = Inr w"
      "watch_transition_of (snd ids) w None (wa_status w) now (wa_current_price w)
         [''long_entry_thesis_armed'',
          if wa_status w = EW_IN_ZONE then ''target_zone_reached'' else ''awaiting_pullback'']
         [(AH_LONG_TERM, r)] None None = Inr t"
      "ws_create ops w t s = Inr s'" "tr = Some t"
      by (auto simp: arm_def bind_result_Inr)
    with Some levels show ?thesis using watch_transition_of_sel that(2) by metis
  qed
qed

lemma arm_step:
  assumes none: "ws_load_active ops s (ar_symbol r) = None"
    and run: "arm ops rules policy c ids r now s = Inr (tr, s')"
  shows "store_step ops (ar_symbol r) (fst ids) now s tr s'"
  using run
proof (cases rule: arm_Inr)
  case 1
  then show ?thesis by (simp add: store_step.idle)
next
  case (2 w t l)
  then show ?thesis using armed_watch_sel [OF 2(3)] by (auto intro!: store_step.arming [OF none, of w])
qed

context entry_watch_store begin

lemma decide_step:
  assumes inv: "invar s"
    and run: "decide_watch ops rules policy c ids r analyses now s = Inr (tr, s')"
  shows "store_step ops (ar_symbol r) (fst ids) now s tr s'"
proof (cases "ws_load_active ops s (ar_symbol r)")
  case None
  with run show ?thesis by (auto simp: decide_watch_def split: if_splits intro: arm_step store_step.idle)
next
  case (Some w)
  then have "watch_active w" using active_found [OF inv] by blast
  with Some run show ?thesis
    by (auto simp: decide_watch_def split: if_splits intro: change_watch_step advance_step transition_legal)
qed

end

section \<open>Runs\<close>

text \<open>At most one active watch per symbol; the journal of a watch is a path of the lifecycle that ends in
  its status, and every transition reports the levels it still has.\<close>

definition one_active :: "(uuid \<rightharpoonup> entry_watch) \<Rightarrow> bool" where
  "one_active ws \<longleftrightarrow> (\<forall>i j v w. ws i = Some v \<and> ws j = Some w \<and> watch_active v \<and> watch_active w \<and>
     wa_symbol v = wa_symbol w \<longrightarrow> i = j)"

definition journal_agrees :: "(uuid \<rightharpoonup> entry_watch) \<Rightarrow> watch_transition list \<Rightarrow> bool" where
  "journal_agrees ws ts \<longleftrightarrow> (\<forall>i. status_path None (of_watch i ts) (map_option wa_status (ws i)) \<and>
     (\<forall>w. ws i = Some w \<longrightarrow> wa_watch_id w = i \<and> (\<forall>t\<in>set (of_watch i ts). reports w t)))"

lemma of_watch_snoc [simp]:
  "of_watch i (ts @ [t]) = (if tr_watch_id t = i then of_watch i ts @ [t] else of_watch i ts)"
  by (simp add: of_watch_def)

lemma journal_agrees_put:
  assumes agrees: "journal_agrees ws ts" and t: "reports w t"
    and prev: "tr_previous_status t = map_option wa_status (ws (wa_watch_id w))"
    and status: "tr_status t = wa_status w" "lifecycle (tr_previous_status t) (tr_status t)"
    and same: "\<And>v. ws (wa_watch_id w) = Some v \<Longrightarrow> \<forall>u. reports v u \<longrightarrow> reports w u"
  shows "journal_agrees (ws(wa_watch_id w \<mapsto> w)) (ts @ [t])"
  unfolding journal_agrees_def
proof (intro allI conjI impI)
  have id: "tr_watch_id t = wa_watch_id w" using t by (simp add: reports_def)
  fix i
  have path: "status_path None (of_watch i ts) (map_option wa_status (ws i))"
    using agrees by (auto simp: journal_agrees_def)
  then show "status_path None (of_watch i (ts @ [t])) (map_option wa_status ((ws(wa_watch_id w \<mapsto> w)) i))"
    using id prev status by (auto simp: status_path_snoc)
  fix v
  assume v: "(ws(wa_watch_id w \<mapsto> w)) i = Some v"
  then show "wa_watch_id v = i" using agrees by (auto simp: journal_agrees_def split: if_splits)
  have old: "\<forall>u\<in>set (of_watch i ts). reports w u" if "i = wa_watch_id w"
  proof (cases "ws i")
    case None
    with path have "status_path None (of_watch i ts) None" by simp
    then have "of_watch i ts = []" by (cases "of_watch i ts" rule: rev_cases) (auto simp: status_path_snoc)
    then show ?thesis by simp
  next
    case (Some u)
    with agrees same that show ?thesis by (auto simp: journal_agrees_def)
  qed
  show "\<forall>u\<in>set (of_watch i (ts @ [t])). reports v u"
    using v old agrees id t by (auto simp: journal_agrees_def split: if_splits)
qed

lemma one_active_put:
  assumes "one_active ws" "\<And>i v. ws i = Some v \<Longrightarrow> watch_active v \<Longrightarrow> wa_symbol v = wa_symbol w \<Longrightarrow> i = wa_watch_id w"
  shows "one_active (ws(wa_watch_id w \<mapsto> w))"
  using assms unfolding one_active_def by (auto split: if_splits; metis)

context entry_watch_store begin

lemma step_invariant:
  assumes step: "store_step ops symbol wid now s tr s'" and inv: "invar s" and sym: "norm_symbol symbol = symbol"
    and fresh: "watches s wid = None" and one: "one_active (watches s)"
    and agrees: "journal_agrees (watches s) (journal s)"
  shows "invar s' \<and> one_active (watches s') \<and> journal_agrees (watches s') (journal s') \<and>
    dom (watches s') \<subseteq> insert wid (dom (watches s))"
  using step
proof (cases rule: store_step.cases)
  case idle
  with assms show ?thesis by auto
next
  case (arming w t)
  note new = created [OF inv arming(10)]
  have "one_active (watches s')"
    using one_active_put [OF one, of w] no_active [OF inv arming(2)] new arming(4) sym by fastforce
  moreover have "journal_agrees (watches s') (journal s')"
    using journal_agrees_put [OF agrees arming(6)] new arming fresh lifecycle.arms by auto
  ultimately show ?thesis using new arming(3) by auto
next
  case (moving w w' t)
  note found = active_found [OF inv moving(2)]
  note new = transitioned [OF inv moving(11)]
  have "one_active (watches s')"
    using one_active_put [OF one, of w'] new found moving(3,4) one unfolding one_active_def by metis
  moreover have "journal_agrees (watches s') (journal s')"
    using journal_agrees_put [OF agrees moving(6)] new moving found by (auto simp: reports_def)
  ultimately show ?thesis using new moving(3) found by auto
qed

end

end
