(* ===== verification/Watch_Properties.thy ===== *)
theory Watch_Properties
  imports Watch_Laws
begin

text \<open>
  What the entry watcher guarantees over the in-memory store: the lifecycle of watches over whole runs,
  what a trigger and a new watch imply, and what the analysis context holds.
\<close>

type_synonym watch_input = "(uuid \<times> uuid) \<times> analysis_result \<times> py_datetime"

abbreviation watch_id_of :: "watch_input \<Rightarrow> uuid" where "watch_id_of i \<equiv> fst (fst i)"
abbreviation analysis_of :: "watch_input \<Rightarrow> analysis_result" where "analysis_of i \<equiv> fst (snd i)"
abbreviation time_of :: "watch_input \<Rightarrow> py_datetime" where "time_of i \<equiv> snd (snd i)"

definition ingest_all ::
  "'s watch_store \<Rightarrow> watcher_rules \<Rightarrow> watcher_policy \<Rightarrow> watch_codec \<Rightarrow> watch_input list \<Rightarrow> 's watcher \<Rightarrow> 's watcher" where
  "ingest_all ops rules policy c inputs x =
     foldl (\<lambda>x (ids, r, now). snd (ingest ops rules policy c ids r now x)) x inputs"

lemma ingest_all_simps [simp]:
  "ingest_all ops rules policy c [] x = x"
  "ingest_all ops rules policy c (inputs @ [(ids, r, now)]) x =
     snd (ingest ops rules policy c ids r now (ingest_all ops rules policy c inputs x))"
  by (simp_all add: ingest_all_def)

lemma empty_store_view: "ms_watches empty_store = []" "ms_transitions empty_store = []"
  by (simp_all add: empty_store_def)

section \<open>One ingestion\<close>

lemma ingest_cases:
  obtains (refused) "wt_store (snd (ingest ops rules policy c ids r now x)) = wt_store x"
  | (decided) t analyses tr s where "validate_time r now = Inr t" "recorded (wt_latest x) r = Some analyses"
      "decide_watch ops rules policy c ids r analyses t (wt_store x) = Inr (tr, s)"
      "ingest ops rules policy c ids r now x =
         (Inr tr, x \<lparr> wt_latest := dput (ar_symbol r) analyses (wt_latest x), wt_store := s \<rparr>)"
proof (cases "validate_time r now")
  case (Inl e)
  then show ?thesis using refused by (simp add: ingest_def)
next
  case (Inr t)
  show ?thesis
  proof (cases "recorded (wt_latest x) r")
    case None
    with Inr refused show ?thesis by (simp add: ingest_def)
  next
    case (Some analyses)
    with Inr refused decided [of t analyses] show ?thesis
      by (cases "decide_watch ops rules policy c ids r analyses t (wt_store x)") (auto simp: ingest_def Let_def)
  qed
qed

lemma ingest_Some:
  assumes "ingest ops rules policy c ids r now x = (Inr (Some t), x')"
  obtains instant analyses where "validate_time r now = Inr instant" "recorded (wt_latest x) r = Some analyses"
    "decide_watch ops rules policy c ids r analyses instant (wt_store x) = Inr (Some t, wt_store x')"
    "wt_latest x' = dput (ar_symbol r) analyses (wt_latest x)"
  using assms unfolding ingest_def by (auto simp: Let_def split: sum.splits option.splits)

lemma validate_time_Inr: "validate_time r now = Inr t \<longleftrightarrow> now = Aware t 0 \<and> ar_as_of r \<le> t"
  by (auto simp: validate_time_def split: py_datetime.splits if_splits)

section \<open>Lifecycle over runs\<close>

context entry_watch_store begin

lemma run_invariant:
  assumes start: "invar (wt_store x)" "watches (wt_store x) = Map.empty" "journal (wt_store x) = []"
    and symbols: "\<forall>i\<in>set inputs. norm_symbol (ar_symbol (analysis_of i)) = ar_symbol (analysis_of i)"
    and fresh: "distinct (map watch_id_of inputs)"
  shows "let s = wt_store (ingest_all ops rules policy c inputs x) in
    invar s \<and> one_active (watches s) \<and> journal_agrees (watches s) (journal s) \<and>
    dom (watches s) \<subseteq> watch_id_of ` set inputs"
  using symbols fresh
proof (induction inputs rule: rev_induct)
  case Nil
  with start show ?case by (simp add: one_active_def journal_agrees_def of_watch_def)
next
  case (snoc input inputs)
  obtain ids r now where input: "input = (ids, r, now)" by (cases input)
  define y where "y = ingest_all ops rules policy c inputs x"
  from snoc have IH: "invar (wt_store y)" "one_active (watches (wt_store y))"
    "journal_agrees (watches (wt_store y)) (journal (wt_store y))"
    "dom (watches (wt_store y)) \<subseteq> watch_id_of ` set inputs"
    by (simp_all add: y_def Let_def)
  have id: "fst ids \<notin> watch_id_of ` set inputs" and sym: "norm_symbol (ar_symbol r) = ar_symbol r"
    using snoc.prems by (auto simp: input)
  then have unused: "watches (wt_store y) (fst ids) = None" using IH(4) by auto
  have run: "ingest_all ops rules policy c (inputs @ [input]) x = snd (ingest ops rules policy c ids r now y)"
    by (simp add: input y_def)
  show ?case
  proof (cases rule: ingest_cases [of ops rules policy c ids r now y])
    case refused
    with IH show ?thesis by (auto simp: run Let_def)
  next
    case (decided t analyses tr s)
    then have store: "wt_store (ingest_all ops rules policy c (inputs @ [input]) x) = s" by (simp add: run)
    note new = step_invariant [OF decide_step [OF IH(1) decided(3)] IH(1) sym unused IH(2,3)]
    then have "dom (watches s) \<subseteq> insert (fst ids) (watch_id_of ` set inputs)" using IH(4) by blast
    with new show ?thesis unfolding store Let_def by (simp add: input)
  qed
qed

end

text \<open>C21: After any sequence of ingestions that starts with an empty store (with upper-case symbols and
  identities that do not repeat), a symbol has at most one active watch, the recorded transitions of
  every watch form a path of the abstract lifecycle from its arming to its present status, in which
  nothing follows a terminal status, and each of them reports the levels and expiry the watch was armed
  with.
\<close>

theorem watch_lifecycle:
  fixes inputs :: "watch_input list" and rules policy c
  defines "m \<equiv> wt_store (ingest_all memory_ops rules policy c inputs \<lparr> wt_latest = [], wt_store = empty_store \<rparr>)"
  assumes "\<forall>i\<in>set inputs. norm_symbol (ar_symbol (analysis_of i)) = ar_symbol (analysis_of i)"
    and "distinct (map watch_id_of inputs)"
  shows "one_active (dget (ms_watches m)) \<and> journal_agrees (dget (ms_watches m)) (ms_transitions m)"
  using memory.run_invariant [OF _ _ _ assms(2,3), of "\<lparr> wt_latest = [], wt_store = empty_store \<rparr>" rules policy c]
  by (simp add: m_def Let_def store_wf_empty empty_store_view)

section \<open>Triggers\<close>

definition core_agrees :: "watcher_policy \<Rightarrow> analyses \<Rightarrow> instant \<Rightarrow> bool" where
  "core_agrees policy analyses now \<longleftrightarrow> (\<exists>long swing intraday.
     dget analyses AH_LONG_TERM = Some long \<and> dget analyses AH_SWING = Some swing \<and>
     dget analyses AH_INTRADAY = Some intraday \<and>
     now - ar_as_of long \<le> age_limit policy AH_LONG_TERM \<and> now - ar_as_of swing \<le> age_limit policy AH_SWING \<and>
     now - ar_as_of intraday \<le> age_limit policy AH_INTRADAY \<and>
     bullish long \<and> ar_verdict long \<notin> {AV_AVOID, AV_INSUFFICIENT_DATA} \<and> relaxed_swing swing \<and> favorable intraday)"

text \<open>The cap in units of the average true range, or the fallback cap where it is not known.\<close>

definition atr_allows :: "watcher_policy \<Rightarrow> entry_watch \<Rightarrow> analyses \<Rightarrow> rat \<Rightarrow> rat \<Rightarrow> bool" where
  "atr_allows policy w analyses price percent \<longleftrightarrow>
     (if \<exists>atr14. latest_decimal_metric analyses [''atr14''] [AH_SWING, AH_LONG_TERM] = Some atr14 \<and> 0 < atr14
      then \<exists>atr14 extension. latest_decimal_metric analyses [''atr14''] [AH_SWING, AH_LONG_TERM] = Some atr14 \<and>
        quantize 4 (ddiv (dsub price (wa_zone_high w)) atr14) = Inr extension \<and> extension \<le> po_continuation_max_atr policy
      else percent \<le> po_continuation_fallback_percent policy)"

definition continues ::
  "watch_codec \<Rightarrow> watcher_policy \<Rightarrow> entry_watch \<Rightarrow> analyses \<Rightarrow> instant \<Rightarrow> rat \<Rightarrow> bool" where
  "continues c policy w analyses now price \<longleftrightarrow> wa_zone_high w < price \<and>
     (\<exists>touched. zone_touched_at c w = Some touched \<and> now - touched \<le> po_continuation_grace policy) \<and>
     (\<exists>percent. quantize 4 (dmul (ddiv (dsub price (wa_zone_high w)) (wa_zone_high w)) 100) = Inr percent \<and>
        percent \<le> po_continuation_max_percent policy \<and> atr_allows policy w analyses price percent) \<and>
     (\<exists>rr. continuation_reward_risk w price analyses = Inr (Some rr) \<and>
        po_continuation_min_reward_risk policy \<le> rr)"

lemma decimal_div_Inr: "decimal_div x y = Inr z \<longleftrightarrow> y \<noteq> 0 \<and> z = ddiv x y"
  by (auto simp: decimal_div_def)

lemma continuation_candidate_Some:
  assumes "continuation_candidate c policy w price analyses now = Inr (Some (percent, atr))"
  shows "wa_zone_high w < price \<and>
    (\<exists>touched. zone_touched_at c w = Some touched \<and> now - touched \<le> po_continuation_grace policy) \<and>
    quantize 4 (dmul (ddiv (dsub price (wa_zone_high w)) (wa_zone_high w)) 100) = Inr percent \<and>
    percent \<le> po_continuation_max_percent policy \<and> atr_allows policy w analyses price percent"
  using assms unfolding continuation_candidate_def Let_def atr_allows_def
  by (auto simp: bind_result_Inr decimal_div_Inr split: option.splits if_splits)

locale trigger_rules =
  fixes rules :: watcher_rules
  assumes confirmed_core: "wr_confirmed rules policy analyses now = Inr True \<Longrightarrow> core_agrees policy analyses now"
    and continuation_core:
      "wr_continuation_confirmed rules policy analyses now = Inr True \<Longrightarrow> core_agrees policy analyses now"
begin

text \<open>A triggered transition was in the zone, or inside the bounds of the continuation.\<close>

lemma advance_trigger:
  assumes run: "advance ops rules policy c tid r analyses now w s = Inr (Some t, s')"
    and status: "tr_status t = EW_TRIGGERED"
  shows "tr_watch_id t = wa_watch_id w \<and> tr_occurred_at t = now \<and> core_agrees policy analyses now \<and>
    (wa_zone_low w \<le> tr_current_price t \<and> tr_current_price t \<le> wa_zone_high w \<or>
     continues c policy w analyses now (tr_current_price t))"
  using run
proof (cases rule: advance_Inr)
  case (invalidated reason)
  then show ?thesis using status by (auto elim: change_watch_Inr)
next
  case confirmed
  then show ?thesis using confirmed_core by (auto elim!: change_watch_Inr simp: reports_def)
next
  case (continued continuation reasons)
  from continuation_trigger_Some [OF continued(3)] obtain percent atr rr where fired:
    "continuation = Some (percent, atr)" "wr_continuation_confirmed rules policy analyses now = Inr True"
    "continuation_reward_risk w (watch_price analyses w) analyses = Inr (Some rr)"
    "po_continuation_min_reward_risk policy \<le> rr" by metis
  have "continues c policy w analyses now (watch_price analyses w)"
    using continuation_candidate_Some [of c policy w "watch_price analyses w" analyses now percent atr]
      continued(2) fired by (auto simp: continues_def)
  with continued(4) fired(2) show ?thesis using continuation_core
    by (auto elim!: change_watch_Inr simp: reports_def)
next
  case (zone continuing)
  then show ?thesis using status
    by (auto simp: zone_step_def split: if_splits elim!: change_watch_Inr)
qed

end

lemma fresh_core_Some:
  "fresh_core policy analyses now = Some (long, swing, intraday) \<longleftrightarrow>
     dget analyses AH_LONG_TERM = Some long \<and> dget analyses AH_SWING = Some swing \<and>
     dget analyses AH_INTRADAY = Some intraday \<and>
     now - ar_as_of long \<le> age_limit policy AH_LONG_TERM \<and> now - ar_as_of swing \<le> age_limit policy AH_SWING \<and>
     now - ar_as_of intraday \<le> age_limit policy AH_INTRADAY"
  by (auto simp: fresh_core_def required_def split: option.splits)

lemma all_of_Cons [simp]: "all_of (r # rs) = bind_result r (\<lambda>b. guarded b (all_of rs))"
  "all_of [] = Inr True"
  by (simp_all add: all_of_def)

lemma guarded_True: "guarded b r = Inr True \<longleftrightarrow> b \<and> r = Inr True"
  by (simp add: guarded_def)

lemmas confirmation_defs = long_agrees_def favorable_def relaxed_swing_def bullish_def core_agrees_def

lemma confirmed_v1_True:
  "confirmed_v1 policy analyses now = Inr True \<Longrightarrow> core_agrees policy analyses now"
  by (auto simp: confirmed_v1_def fresh_core_Some bind_result_Inr guarded_True confirmation_defs
      split: option.splits prod.splits)

lemma confirmed_v2_core:
  "confirmed_v2 policy analyses now = Inr True \<Longrightarrow> core_agrees policy analyses now"
  by (auto simp: confirmed_v2_def fresh_core_Some bind_result_Inr guarded_True confirmation_defs
      split: option.splits prod.splits)

lemma confirmed_v3_core:
  "confirmed_v3 policy analyses now = Inr True \<Longrightarrow> core_agrees policy analyses now"
  by (auto simp: confirmed_v3_def bind_result_Inr intro: confirmed_v2_core)

lemma continuation_confirmed_v3_core:
  "continuation_confirmed_v3 policy analyses now = Inr True \<Longrightarrow> core_agrees policy analyses now"
  by (auto simp: continuation_confirmed_v3_def fresh_core_Some bind_result_Inr guarded_True confirmation_defs
      split: option.splits prod.splits if_splits dest: confirmed_v2_core)

interpretation v1: trigger_rules rules_v1
  by unfold_locales (auto simp: rules_v1_def intro: confirmed_v1_True)

interpretation v2: trigger_rules rules_v2
  by unfold_locales (auto simp: rules_v2_def intro: confirmed_v2_core)

interpretation v3: trigger_rules rules_v3
  by unfold_locales (auto simp: rules_v3_def intro: confirmed_v3_core continuation_confirmed_v3_core)

lemma trigger_rules_of: "rules \<in> {rules_v1, rules_v2, rules_v3} \<Longrightarrow> trigger_rules rules"
  using v1.trigger_rules_axioms v2.trigger_rules_axioms v3.trigger_rules_axioms by auto

lemma arms_only_new:
  assumes "arm ops rules policy c ids r now s = Inr (Some t, s')"
  shows "tr_previous_status t = None \<and> tr_status t \<in> {EW_ARMED, EW_IN_ZONE} \<and> tr_occurred_at t = now \<and>
    tr_invalidation t < tr_zone_low t \<and> tr_zone_low t \<le> tr_zone_high t \<and> 0 < tr_invalidation t"
  using assms
proof (cases rule: arm_Inr)
  case (2 w u l)
  then show ?thesis using armed_watch_sel(3,4) [OF 2(3)] by (auto simp: reports_def watch_ok_def)
qed simp

lemma change_watch_previous:
  "change_watch ops c tid w status now price reasons analyses us ei et s = Inr (Some t, s') \<Longrightarrow>
     tr_previous_status t = Some (wa_status w) \<and> tr_status t = status"
  by (auto elim!: change_watch_Inr)

lemma advance_previous:
  "advance ops rules policy c tid r analyses now w s = Inr (Some t, s') \<Longrightarrow> tr_previous_status t = Some (wa_status w)"
  by (erule advance_Inr)
    (auto simp: zone_step_def dest: change_watch_previous split: if_splits)

text \<open>C22: A transition to TRIGGERED, in each of the three versions, ends an unexpired active watch of the
  symbol. At that instant fresh analyses of the three required horizons agree, and the price is in the
  original zone or, above it, inside every bound of the continuation: a zone touch within the grace
  period, the percentage cap, the cap in units of the average true range (or, where that is not known, the
  fallback percentage cap) and the minimal reward to risk.
\<close>

theorem trigger_is_confirmed:
  assumes rules: "rules \<in> {rules_v1, rules_v2, rules_v3}" and wf: "store_wf (wt_store x)"
    and run: "ingest memory_ops rules policy c ids r now x = (Inr (Some t), x')"
    and triggered: "tr_status t = EW_TRIGGERED"
  shows "\<exists>w analyses. load_active_watch (wt_store x) (ar_symbol r) = Some w \<and> tr_watch_id t = wa_watch_id w \<and>
    watch_active w \<and> wa_symbol w = norm_symbol (ar_symbol r) \<and> tr_occurred_at t < wa_expires_at w \<and> dget (wt_latest x') (ar_symbol r) = Some analyses \<and>
    core_agrees policy analyses (tr_occurred_at t) \<and>
    (wa_zone_low w \<le> tr_current_price t \<and> tr_current_price t \<le> wa_zone_high w \<or>
     continues c policy w analyses (tr_occurred_at t) (tr_current_price t))"
proof -
  from ingest_Some [OF run] obtain now' analyses where decided:
    "decide_watch memory_ops rules policy c ids r analyses now' (wt_store x) = Inr (Some t, wt_store x')"
    "wt_latest x' = dput (ar_symbol r) analyses (wt_latest x)" by metis
  show ?thesis
  proof (cases "load_active_watch (wt_store x) (ar_symbol r)")
    case None
    with decided(1) triggered show ?thesis
      by (auto simp: decide_watch_def memory_ops_def split: if_splits dest!: arms_only_new)
  next
    case (Some w)
    with decided(1) triggered have "now' < wa_expires_at w"
      "advance memory_ops rules policy c (snd ids) r analyses now' w (wt_store x) = Inr (Some t, wt_store x')"
      by (auto simp: decide_watch_def memory_ops_def split: if_splits dest: change_watch_previous)
    with trigger_rules.advance_trigger [OF trigger_rules_of [OF rules] this(2) triggered] Some decided(2)
    show ?thesis using load_active_Some [OF wf Some] by (auto simp: dict_simps)
  qed
qed

text \<open>C23: A new watch is only armed by a long-term analysis of a symbol with no active watch, with levels
  that satisfy 0 < invalidation < low <= high, and, when the symbol's last watch had the same levels,
  only once the cooldown since its end has passed.
\<close>

theorem rearming_waits:
  assumes wf: "store_wf (wt_store x)"
    and run: "ingest memory_ops rules policy c ids r now x = (Inr (Some t), x')"
    and new: "tr_previous_status t = None"
  shows "ar_horizon r = AH_LONG_TERM \<and> load_active_watch (wt_store x) (ar_symbol r) = None \<and>
    0 < tr_invalidation t \<and> tr_invalidation t < tr_zone_low t \<and> tr_zone_low t \<le> tr_zone_high t \<and>
    (\<forall>w. load_latest_watch (wt_store x) (ar_symbol r) = Some w \<and> same_thesis w r \<longrightarrow>
       po_rearm_cooldown policy \<le> tr_occurred_at t - wa_updated_at w)"
proof -
  from ingest_Some [OF run] obtain now' analyses where decided:
    "decide_watch memory_ops rules policy c ids r analyses now' (wt_store x) = Inr (Some t, wt_store x')" by metis
  have none: "load_active_watch (wt_store x) (ar_symbol r) = None"
  proof (rule ccontr)
    assume "load_active_watch (wt_store x) (ar_symbol r) \<noteq> None"
    with decided show False using new
      by (auto simp: decide_watch_def memory_ops_def split: if_splits dest: change_watch_previous advance_previous)
  qed
  then have armed: "ar_horizon r = AH_LONG_TERM" "\<not> thesis_cooling policy (load_latest_watch (wt_store x) (ar_symbol r)) r now'"
    "arm memory_ops rules policy c ids r now' (wt_store x) = Inr (Some t, wt_store x')"
    using decided by (auto simp: decide_watch_def memory_ops_def split: if_splits)
  have "wa_status w \<notin> set active_statuses" if "load_latest_watch (wt_store x) (ar_symbol r) = Some w" for w
    using load_active_None [OF wf none] load_latest_Some [OF wf that] by blast
  then have "po_rearm_cooldown policy \<le> tr_occurred_at t - wa_updated_at w"
    if "load_latest_watch (wt_store x) (ar_symbol r) = Some w" "same_thesis w r" for w
    using armed(2) that arms_only_new [OF armed(3)] by (auto simp: thesis_cooling_def not_less)
  then show ?thesis using none armed(1) arms_only_new [OF armed(3)] by blast
qed

section \<open>The analysis context\<close>

definition held :: "(string, analyses) dict \<Rightarrow> string \<Rightarrow> analysis_horizon \<Rightarrow> analysis_result option" where
  "held latest symbol h = (case dget latest symbol of None \<Rightarrow> None | Some a \<Rightarrow> dget a h)"

lemma held_record:
  assumes "recorded latest r = Some analyses"
  shows "held (dput (ar_symbol r) analyses latest) symbol h =
    (if symbol = ar_symbol r \<and> h = ar_horizon r then Some r else held latest symbol h)"
    "\<And>a. held latest (ar_symbol r) (ar_horizon r) = Some a \<Longrightarrow> ar_as_of a \<le> ar_as_of r"
  using assms by (auto simp: recorded_def held_def dict_simps Let_def split: option.splits if_splits)

lemma held_stale:
  "recorded latest r = None \<Longrightarrow> \<exists>a. held latest (ar_symbol r) (ar_horizon r) = Some a \<and> ar_as_of r < ar_as_of a"
  by (auto simp: recorded_def held_def Let_def split: option.splits if_splits)

lemma ingest_latest:
  "wt_latest (snd (ingest ops rules policy c ids r now x)) =
     (if is_ok (validate_time r now)
      then (case recorded (wt_latest x) r of None \<Rightarrow> wt_latest x
            | Some analyses \<Rightarrow> dput (ar_symbol r) analyses (wt_latest x))
      else wt_latest x)"
  by (auto simp: ingest_def Let_def split: sum.splits option.splits)

definition accepted :: "watch_input \<Rightarrow> bool" where
  "accepted i \<longleftrightarrow> is_ok (validate_time (analysis_of i) (time_of i))"

definition newest_held :: "watch_input list \<Rightarrow> (string, analyses) dict \<Rightarrow> bool" where
  "newest_held inputs latest \<longleftrightarrow>
     (\<forall>symbol h a. held latest symbol h = Some a \<longrightarrow>
        ar_symbol a = symbol \<and> ar_horizon a = h \<and> (\<exists>i\<in>set inputs. accepted i \<and> analysis_of i = a)) \<and>
     (\<forall>i\<in>set inputs. accepted i \<longrightarrow>
        (\<exists>a. held latest (ar_symbol (analysis_of i)) (ar_horizon (analysis_of i)) = Some a \<and>
             ar_as_of (analysis_of i) \<le> ar_as_of a))"

lemma newest_held_snoc:
  assumes newest: "newest_held inputs latest"
    and new: "accepted i \<Longrightarrow> \<exists>a. held latest (ar_symbol (analysis_of i)) (ar_horizon (analysis_of i)) = Some a \<and>
      ar_as_of (analysis_of i) < ar_as_of a"
  shows "newest_held (inputs @ [i]) latest"
  unfolding newest_held_def
proof (intro conjI allI ballI impI)
  show "ar_symbol a = symbol" "ar_horizon a = h" "\<exists>j\<in>set (inputs @ [i]). accepted j \<and> analysis_of j = a"
    if "held latest symbol h = Some a" for symbol h a
    using that newest unfolding newest_held_def by auto
  show "\<exists>a. held latest (ar_symbol (analysis_of j)) (ar_horizon (analysis_of j)) = Some a \<and>
      ar_as_of (analysis_of j) \<le> ar_as_of a" if "j \<in> set (inputs @ [i])" "accepted j" for j
    using that newest new less_imp_le unfolding newest_held_def by (cases "j = i") auto
qed

lemma newest_held_record:
  assumes newest: "newest_held inputs latest" and ok: "accepted i"
    and rec: "recorded latest (analysis_of i) = Some analyses"
  shows "newest_held (inputs @ [i]) (dput (ar_symbol (analysis_of i)) analyses latest)"
  unfolding newest_held_def
proof (intro conjI allI ballI impI)
  let ?latest = "dput (ar_symbol (analysis_of i)) analyses latest"
  show "ar_symbol a = symbol" "ar_horizon a = h" "\<exists>j\<in>set (inputs @ [i]). accepted j \<and> analysis_of j = a"
    if "held ?latest symbol h = Some a" for symbol h a
    using that newest ok unfolding newest_held_def held_record(1) [OF rec] by (force split: if_splits)+
  fix j
  assume j: "j \<in> set (inputs @ [i])" "accepted j"
  show "\<exists>a. held ?latest (ar_symbol (analysis_of j)) (ar_horizon (analysis_of j)) = Some a \<and>
      ar_as_of (analysis_of j) \<le> ar_as_of a"
  proof (cases "j = i")
    case False
    with j newest obtain a where "held latest (ar_symbol (analysis_of j)) (ar_horizon (analysis_of j)) = Some a"
      "ar_as_of (analysis_of j) \<le> ar_as_of a" unfolding newest_held_def by auto
    then show ?thesis using held_record(2) [OF rec] unfolding held_record(1) [OF rec] by force
  qed (simp add: held_record(1) [OF rec])
qed

text \<open>Over any sequence of ingestions, with any store and whatever the store or a contract refuses, the
  context holds for every symbol and horizon an accepted analysis of that symbol and horizon, and none
  of the accepted ones is newer: late analyses never replace newer ones.
\<close>

theorem context_holds_newest:
  fixes ops :: "'s watch_store"
  shows "newest_held inputs
    (wt_latest (ingest_all ops rules policy c inputs \<lparr> wt_latest = [], wt_store = s \<rparr>))"
proof (induction inputs rule: rev_induct)
  case Nil
  show ?case by (simp add: newest_held_def held_def)
next
  case (snoc i inputs)
  obtain ids r now where i: "i = (ids, r, now)" by (cases i)
  show ?case
    using newest_held_snoc [OF snoc, of i] newest_held_record [OF snoc, of i] held_stale [of _ r]
    by (auto simp: i ingest_latest accepted_def split: option.splits)
qed

section \<open>Versions\<close>

lemma confirmed_v2_v1: "confirmed_v2 policy analyses now = Inr True \<Longrightarrow> confirmed_v1 policy analyses now = Inr True"
  by (auto simp: confirmed_v1_def confirmed_v2_def bind_result_Inr guarded_True split: option.splits prod.splits)

text \<open>Later versions only narrow the confirmation of an entry in the zone: what version 3 confirms,
  versions 2 and 1 confirm from the same analyses at the same instant.
\<close>

theorem versions_tighten:
  assumes "wr_confirmed rules_v3 policy analyses now = Inr True"
  shows "wr_confirmed rules_v2 policy analyses now = Inr True \<and> wr_confirmed rules_v1 policy analyses now = Inr True"
  using assms confirmed_v2_v1 by (auto simp: rules_v1_def rules_v2_def rules_v3_def confirmed_v3_def bind_result_Inr)

section \<open>Witnesses\<close>

definition demo_id :: "int \<Rightarrow> uuid" where "demo_id n = 7 * 2 ^ 76 + 2 * 2 ^ 62 + n"

definition demo_codec :: watch_codec where
  "demo_codec = \<lparr> cx_isoformat = (\<lambda>t. digit_string (nat t)), cx_fromisoformat = (\<lambda>s. Some (Aware (int (digits_value s)) 0)),
     cx_decimal = (\<lambda>d. ''1''), cx_duration = (\<lambda>d. ''0''), cx_non_finite = ''NaN'' \<rparr>"

definition demo_analysis :: "int \<Rightarrow> analysis_horizon \<Rightarrow> instant \<Rightarrow> named_value list \<Rightarrow> analysis_result" where
  "demo_analysis n h t ms = \<lparr> ar_analysis_id = demo_id n, ar_engine_id = ''e'', ar_engine_version = ''1.0.0'',
     ar_symbol = ''ACME'', ar_horizon = h, ar_as_of = t, ar_verdict = AV_FAVORABLE, ar_direction = PD_BULLISH,
     ar_score = 80, ar_confidence = 1, ar_reasons = [''r''], ar_metrics = ms, ar_source_event_ids = [],
     ar_context_hash = ''h'' \<rparr>"

definition demo_metric :: "string \<Rightarrow> py_value \<Rightarrow> named_value" where
  "demo_metric n v = \<lparr> nv_name = n, nv_value = v \<rparr>"

definition demo_long :: analysis_result where
  "demo_long = demo_analysis 1 AH_LONG_TERM 10
     [demo_metric ''classification'' (VStr ''buy_zone''), demo_metric ''buy_zone_low'' (VDec 9),
      demo_metric ''buy_zone_high'' (VDec 11), demo_metric ''invalidation'' (VDec 8),
      demo_metric ''reference_price'' (VDec 10)]"

definition demo_swing :: analysis_result where
  "demo_swing = demo_analysis 2 AH_SWING 20 [demo_metric ''classification'' (VStr ''pullback'')]"

definition demo_intraday :: analysis_result where
  "demo_intraday = demo_analysis 3 AH_INTRADAY 30 [demo_metric ''reference_price'' (VDec 10)]"

definition demo_inputs :: "watch_input list" where
  "demo_inputs = [((demo_id 11, demo_id 21), demo_long, Aware 10 0), ((demo_id 12, demo_id 22), demo_swing, Aware 20 0)]"

definition demo_watcher :: "memory_store watcher" where
  "demo_watcher = ingest_all memory_ops rules_v1 default_policy demo_codec demo_inputs
     \<lparr> wt_latest = [], wt_store = empty_store \<rparr>"

definition demo_trigger :: "watch_transition option result \<times> memory_store watcher" where
  "demo_trigger = ingest memory_ops rules_v1 default_policy demo_codec (demo_id 13, demo_id 23) demo_intraday
     (Aware 30 0) demo_watcher"

theorem watch_lifecycle_witness:
  "one_active (dget (ms_watches (wt_store demo_watcher))) \<and> length (ms_transitions (wt_store demo_watcher)) = 1"
proof -
  have "\<forall>i\<in>set demo_inputs. norm_symbol (ar_symbol (analysis_of i)) = ar_symbol (analysis_of i)" by code_simp
  moreover have "distinct (map watch_id_of demo_inputs)" by code_simp
  moreover have "length (ms_transitions (wt_store demo_watcher)) = 1" by code_simp
  ultimately show ?thesis
    using watch_lifecycle [of demo_inputs rules_v1 default_policy demo_codec] by (simp add: demo_watcher_def)
qed

theorem trigger_is_confirmed_witness:
  "\<exists>t x'. demo_trigger = (Inr (Some t), x') \<and> tr_status t = EW_TRIGGERED \<and>
     core_agrees default_policy (the (dget (wt_latest x') ''ACME'')) (tr_occurred_at t)"
proof -
  have "(case demo_trigger of (Inr (Some t), x') \<Rightarrow> tr_status t = EW_TRIGGERED | _ \<Rightarrow> False)" by code_simp
  then obtain t x' where run: "demo_trigger = (Inr (Some t), x')" "tr_status t = EW_TRIGGERED"
    by (auto split: prod.splits sum.splits option.splits)
  have wf: "store_wf (wt_store demo_watcher)" by code_simp
  have sym: "ar_symbol demo_intraday = ''ACME''" by code_simp
  have "core_agrees default_policy (the (dget (wt_latest x') ''ACME'')) (tr_occurred_at t)"
    using trigger_is_confirmed [OF _ wf run(1) [unfolded demo_trigger_def] run(2)] by (auto simp: sym)
  with run show ?thesis by blast
qed

theorem rearming_waits_witness:
  "\<exists>t x'. ingest memory_ops rules_v1 default_policy demo_codec (demo_id 11, demo_id 21) demo_long (Aware 10 0)
     \<lparr> wt_latest = [], wt_store = empty_store \<rparr> = (Inr (Some t), x') \<and> tr_invalidation t < tr_zone_low t"
proof -
  let ?run = "ingest memory_ops rules_v1 default_policy demo_codec (demo_id 11, demo_id 21) demo_long (Aware 10 0)
     \<lparr> wt_latest = [], wt_store = empty_store \<rparr>"
  have "(case ?run of (Inr (Some t), x') \<Rightarrow> tr_previous_status t = None | _ \<Rightarrow> False)" by code_simp
  then obtain t x' where run: "?run = (Inr (Some t), x')" "tr_previous_status t = None"
    by (auto split: prod.splits sum.splits option.splits)
  have "store_wf (wt_store \<lparr> wt_latest = [], wt_store = empty_store \<rparr>)" by (simp add: store_wf_empty)
  from rearming_waits [OF this run] run(1) show ?thesis by blast
qed

definition demo_analyses :: analyses where
  "demo_analyses =
     [(AH_LONG_TERM, demo_long),
      (AH_SWING, demo_analysis 2 AH_SWING 20 [demo_metric ''classification'' (VStr ''pullback''),
         demo_metric ''anchored_vwap_gate_passed'' (VBool True)]),
      (AH_INTRADAY, demo_analysis 3 AH_INTRADAY 30 [demo_metric ''setup'' (VStr ''bullish_breakout''),
         demo_metric ''confirmation_gate_passed'' (VBool True)])]"

theorem versions_tighten_witness:
  "wr_confirmed rules_v1 default_policy demo_analyses 30 = Inr True"
proof -
  have "wr_confirmed rules_v3 default_policy demo_analyses 30 = Inr True" by code_simp
  from versions_tighten [OF this] show ?thesis by blast
qed

end
