(* ===== verification/Audit_Log.thy ===== *)
theory Audit_Log
  imports Rule_Contracts "HOL-Library.Product_Lexorder" "HOL-Library.List_Lexorder" "HOL-Library.Char_ord"
begin

text \<open>
  The append-only audit trail (app/audit_engine/store.py) and the service in front of it
  (app/audit_engine/service.py). The files below the runtime root are a dictionary from paths to bytes;
  a path is the triple of its day, run and stem. A JSON line is given by a codec: the text of an envelope
  (which may not be encodable), its reading back, and the day an instant falls on. An append writes its
  whole line or raises after some of its bytes; directories and \<open>fsync\<close> are the file system's.
\<close>

section \<open>Streams and codec\<close>

datatype audit_stream = AS_SERVICES | AS_RULE_TRACES | AS_DECISIONS

primrec audit_stream_value :: "audit_stream \<Rightarrow> string" where
  "audit_stream_value AS_SERVICES = ''services''"
| "audit_stream_value AS_RULE_TRACES = ''rule-traces''"
| "audit_stream_value AS_DECISIONS = ''decisions''"

definition audit_stream_members :: "audit_stream list" where
  "audit_stream_members = [AS_SERVICES, AS_RULE_TRACES, AS_DECISIONS]"

interpretation audit_stream_enum: string_enum audit_stream_members audit_stream_value
  by unfold_locales (auto simp: audit_stream_members_def intro: audit_stream.exhaust)

record audit_codec =
  ac_encode :: "event_envelope \<Rightarrow> string result"
  ac_decode :: "string \<Rightarrow> event_envelope option"
  ac_day :: "instant \<Rightarrow> string"

definition newline :: char where "newline = CHR 0x0A"

section \<open>State\<close>

type_synonym audit_path = "string \<times> string \<times> string"

text \<open>\<open>dk_writers\<close> is the process-wide set of paths that have a writer.\<close>

record disk =
  dk_files :: "(audit_path, string) dict"
  dk_writers :: "audit_path list"

record audit_log =
  al_index :: "(uuid, audit_path) dict"
  al_claimed :: "audit_path list"
  al_closed :: bool

record audit_receipt =
  ap_event :: uuid
  ap_path :: audit_path
  ap_persisted :: bool
  ap_duplicate :: bool

section \<open>Reading\<close>

text \<open>\<open>for line in source\<close>: the lines of a file, each with its newline when it has one.\<close>

fun file_lines :: "string \<Rightarrow> string list" where
  "file_lines [] = []"
| "file_lines (c # cs) =
     (if c = newline then [c] # file_lines cs
      else (case file_lines cs of [] \<Rightarrow> [[c]] | l # ls \<Rightarrow> (c # l) # ls))"

definition read_line :: "audit_codec \<Rightarrow> string \<Rightarrow> event_envelope result" where
  "read_line c line =
     (if last line \<noteq> newline then Inl (CorruptAuditLogError ''unterminated audit record'')
      else (case ac_decode c line of None \<Rightarrow> Inl (CorruptAuditLogError ''internal corruption'') | Some e \<Rightarrow> Inr e))"

definition read_completed_lines :: "audit_codec \<Rightarrow> string \<Rightarrow> event_envelope list result" where
  "read_completed_lines c bytes = map_result (read_line c) (file_lines bytes)"

text \<open>\<open>_recover_tail\<close>: everything after the last newline is cut off.\<close>

definition recover_tail :: "string \<Rightarrow> string" where
  "recover_tail bytes =
     (if bytes = [] \<or> last bytes = newline then bytes
      else rev (dropWhile (\<lambda>ch. ch \<noteq> newline) (rev bytes)))"

section \<open>Opening\<close>

fun index_events :: "audit_path \<Rightarrow> event_envelope list \<Rightarrow> (uuid, audit_path) dict \<Rightarrow> (uuid, audit_path) dict result" where
  "index_events path [] index = Inr index"
| "index_events path (e # es) index =
     (case dget index (ee_event_id e) of
        None \<Rightarrow> index_events path es (dput (ee_event_id e) path index)
      | Some previous \<Rightarrow>
          if previous \<noteq> path then Inl (CorruptAuditLogError ''duplicate event_id'')
          else index_events path es index)"

text \<open>One file after the other; the tails recovered before a failure stay recovered.\<close>

fun rebuild_index :: "audit_codec \<Rightarrow> audit_path list \<Rightarrow> (uuid, audit_path) dict \<Rightarrow> disk \<Rightarrow>
    (uuid, audit_path) dict result \<times> disk" where
  "rebuild_index c [] index d = (Inr index, d)"
| "rebuild_index c (path # paths) index d =
     (let bytes = (case dget (dk_files d) path of None \<Rightarrow> [] | Some b \<Rightarrow> b);
          kept = recover_tail bytes;
          d1 = d \<lparr> dk_files := dput path kept (dk_files d) \<rparr>
      in case bind_result (read_completed_lines c kept) (\<lambda>es. index_events path es index) of
           Inl e \<Rightarrow> (Inl e, d1)
         | Inr index' \<Rightarrow> rebuild_index c paths index' d1)"

definition open_log :: "audit_codec \<Rightarrow> disk \<Rightarrow> audit_log result \<times> disk" where
  "open_log c d =
     (let (outcome, d') = rebuild_index c (sort (dkeys (dk_files d))) [] d
      in (bind_result outcome (\<lambda>index. Inr \<lparr> al_index = index, al_claimed = [], al_closed = False \<rparr>), d'))"

section \<open>Operations\<close>

definition run_id_char :: "char \<Rightarrow> bool" where
  "run_id_char ch \<longleftrightarrow> isalnum ch \<or> ch \<in> set ''._-''"

definition validate_run_id :: "string \<Rightarrow> unit result" where
  "validate_run_id run_id =
     (if run_id \<noteq> [] \<and> isalnum (hd run_id) \<and> length run_id \<le> 128 \<and> list_all run_id_char run_id then Inr ()
      else Inl (ValueError ''run_id must be a safe filesystem segment''))"

definition require_open :: "audit_log \<Rightarrow> unit result" where
  "require_open l = (if al_closed l then Inl (RuntimeError ''audit log is closed'') else Inr ())"

definition path_for :: "audit_codec \<Rightarrow> string \<Rightarrow> audit_stream \<Rightarrow> event_envelope \<Rightarrow> audit_path" where
  "path_for c run_id stream e = (ac_day c (ee_occurred_at e), run_id, audit_stream_value stream)"

definition claim :: "audit_path \<Rightarrow> audit_log \<times> disk \<Rightarrow> (audit_log \<times> disk) result" where
  "claim path s =
     (case s of (l, d) \<Rightarrow>
        if path \<in> set (al_claimed l) then Inr (l, d)
        else if path \<in> set (dk_writers d) then Inl WriterAlreadyActiveError
        else Inr (l \<lparr> al_claimed := path # al_claimed l \<rparr>, d \<lparr> dk_writers := path # dk_writers d \<rparr>))"

text \<open>\<open>_durable_append\<close>: the whole line, or an \<open>OSError\<close> after the first \<open>n\<close> bytes.\<close>

datatype write_outcome = Written | Fails nat

definition append_bytes :: "audit_path \<Rightarrow> string \<Rightarrow> disk \<Rightarrow> disk" where
  "append_bytes path bytes d =
     d \<lparr> dk_files := dput path ((case dget (dk_files d) path of None \<Rightarrow> [] | Some b \<Rightarrow> b) @ bytes) (dk_files d) \<rparr>"

definition durable_append :: "write_outcome \<Rightarrow> audit_path \<Rightarrow> string \<Rightarrow> disk \<Rightarrow> unit result \<times> disk" where
  "durable_append io path line d =
     (case io of
        Written \<Rightarrow> (Inr (), append_bytes path line d)
      | Fails n \<Rightarrow> (Inl (OSError ''append failed''), append_bytes path (take n line) d))"

definition append_event :: "audit_codec \<Rightarrow> write_outcome \<Rightarrow> string \<Rightarrow> audit_stream \<Rightarrow> event_envelope \<Rightarrow>
    audit_log \<times> disk \<Rightarrow> audit_receipt result \<times> (audit_log \<times> disk)" where
  "append_event c io run_id stream e s =
     (case bind_result (require_open (fst s)) (\<lambda>_. validate_run_id run_id) of
        Inl err \<Rightarrow> (Inl err, s)
      | Inr _ \<Rightarrow>
          (case dget (al_index (fst s)) (ee_event_id e) of
             Some known \<Rightarrow>
               (Inr \<lparr> ap_event = ee_event_id e, ap_path = known, ap_persisted = False, ap_duplicate = True \<rparr>, s)
           | None \<Rightarrow>
               let path = path_for c run_id stream e in
               (case claim path s of
                  Inl err \<Rightarrow> (Inl err, s)
                | Inr (l, d) \<Rightarrow>
                    (case ac_encode c e of
                       Inl err \<Rightarrow> (Inl err, l, d)
                     | Inr text \<Rightarrow>
                         (case durable_append io path (text @ [newline]) d of
                            (Inl err, d') \<Rightarrow> (Inl err, l, d')
                          | (Inr _, d') \<Rightarrow>
                              (Inr \<lparr> ap_event = ee_event_id e, ap_path = path, ap_persisted = True, ap_duplicate = False \<rparr>,
                               l \<lparr> al_index := dput (ee_event_id e) path (al_index l) \<rparr>, d'))))))"

text \<open>\<open>replay\<close>: the files of the run and stream in path order, that is by day.\<close>

definition replay :: "audit_codec \<Rightarrow> string \<Rightarrow> audit_stream \<Rightarrow> audit_log \<times> disk \<Rightarrow> event_envelope list result" where
  "replay c run_id stream s =
     bind_result (require_open (fst s)) (\<lambda>_. bind_result (validate_run_id run_id) (\<lambda>_.
       bind_result
         (map_result (\<lambda>path. read_completed_lines c (the (dget (dk_files (snd s)) path)))
            (filter (\<lambda>(day, run, stem). run = run_id \<and> stem = audit_stream_value stream)
               (sort (dkeys (dk_files (snd s))))))
         (\<lambda>ess. Inr (concat ess))))"

definition close_log :: "audit_log \<times> disk \<Rightarrow> audit_log \<times> disk" where
  "close_log s =
     (if al_closed (fst s) then s
      else ((fst s) \<lparr> al_claimed := [], al_closed := True \<rparr>,
            (snd s) \<lparr> dk_writers := filter (\<lambda>p. p \<notin> set (al_claimed (fst s))) (dk_writers (snd s)) \<rparr>))"

section \<open>Service\<close>

definition routing_metadata :: "event_envelope \<Rightarrow> (string \<times> audit_stream) result" where
  "routing_metadata e =
     (case ee_payload e of
        VDict payload \<Rightarrow>
          (case dget payload ''audit'' of
             Some (VDict audit) \<Rightarrow>
               (case dget audit ''run_id'' of
                  Some (VStr run_id) \<Rightarrow>
                    (case dget audit ''stream'' of
                       Some (VStr value) \<Rightarrow>
                         (case enum_parse audit_stream_members audit_stream_value value of
                            Some stream \<Rightarrow> Inr (run_id, stream)
                          | None \<Rightarrow> Inl (InvalidAuditEventError ''unknown audit stream''))
                     | _ \<Rightarrow> Inl (InvalidAuditEventError ''audit.stream must be a string''))
                | _ \<Rightarrow> Inl (InvalidAuditEventError ''audit.run_id must be a string''))
           | _ \<Rightarrow> Inl (InvalidAuditEventError ''audit envelope payload requires an audit object''))
      | _ \<Rightarrow> Inl (InvalidAuditEventError ''audit envelope payload must be an object''))"

record audit_confirmation =
  cf_event_id :: uuid
  cf_run_id :: string
  cf_stream :: audit_stream
  cf_persisted :: bool
  cf_duplicate :: bool

definition process_audit :: "audit_codec \<Rightarrow> write_outcome \<Rightarrow> event_envelope \<Rightarrow> audit_log \<times> disk \<Rightarrow>
    audit_confirmation result \<times> (audit_log \<times> disk)" where
  "process_audit c io e s =
     (case routing_metadata e of
        Inl err \<Rightarrow> (Inl err, s)
      | Inr (run_id, stream) \<Rightarrow>
          (case append_event c io run_id stream e s of
             (Inl err, s') \<Rightarrow> (Inl err, s')
           | (Inr receipt, s') \<Rightarrow>
               (Inr \<lparr> cf_event_id = ee_event_id e, cf_run_id = run_id, cf_stream = stream,
                  cf_persisted = ap_persisted receipt, cf_duplicate = ap_duplicate receipt \<rparr>, s')))"

end
