(* ===== verification/Audit_Laws.thy ===== *)
theory Audit_Laws
  imports Audit_Log
begin

text \<open>
  The audit trail keeps its promise across crashes: what an append acknowledged is in the files, in order
  and once, an append cut short is removed at the next start, and replay returns exactly the acknowledged
  events of a run and stream.
\<close>

section \<open>Lines\<close>

text \<open>What the code relies on of JSON: one line per envelope, read back under the same identity.\<close>

definition codec_ok :: "audit_codec \<Rightarrow> bool" where
  "codec_ok c \<longleftrightarrow> (\<forall>e t. ac_encode c e = Inr t \<longrightarrow> newline \<notin> set t \<and>
     (\<exists>e'. ac_decode c (t @ [newline]) = Some e' \<and> ee_event_id e' = ee_event_id e))"

definition text_of :: "audit_codec \<Rightarrow> event_envelope \<Rightarrow> string" where
  "text_of c e = (case ac_encode c e of Inr t \<Rightarrow> t | Inl _ \<Rightarrow> [])"

definition decoded :: "audit_codec \<Rightarrow> event_envelope \<Rightarrow> event_envelope" where
  "decoded c e = the (ac_decode c (text_of c e @ [newline]))"

definition bytes_of :: "string list \<Rightarrow> string" where
  "bytes_of ts = concat (map (\<lambda>t. t @ [newline]) ts)"

lemma bytes_of_simps [simp]: "bytes_of [] = []" "bytes_of (t # ts) = t @ newline # bytes_of ts"
  "bytes_of (ts @ us) = bytes_of ts @ bytes_of us"
  by (simp_all add: bytes_of_def)

lemma file_lines_append:
  "newline \<notin> set t \<Longrightarrow> file_lines (t @ newline # s) = (t @ [newline]) # file_lines s"
  by (induction t) auto

lemma file_lines_bytes:
  "\<forall>t\<in>set ts. newline \<notin> set t \<Longrightarrow> file_lines (bytes_of ts) = map (\<lambda>t. t @ [newline]) ts"
  by (induction ts) (auto simp: file_lines_append)

lemma bytes_of_last: "bytes_of ts = [] \<or> last (bytes_of ts) = newline"
  by (cases ts rule: rev_cases) auto

lemma recover_tail_partial:
  assumes "newline \<notin> set p"
  shows "recover_tail (bytes_of ts @ p) = bytes_of ts"
proof (cases "p = []")
  case True
  then show ?thesis using bytes_of_last [of ts] by (auto simp: recover_tail_def)
next
  case False
  then have l: "last (bytes_of ts @ p) \<noteq> newline" using assms by (metis last_appendR last_in_set)
  have "dropWhile (\<lambda>ch. ch \<noteq> newline) (rev (bytes_of ts @ p)) = dropWhile (\<lambda>ch. ch \<noteq> newline) (rev (bytes_of ts))"
    unfolding rev_append by (rule dropWhile_append2) (use assms in auto)
  also have "\<dots> = rev (bytes_of ts)"
    using bytes_of_last [of ts] by (cases "bytes_of ts" rule: rev_cases) auto
  finally show ?thesis using l False by (simp add: recover_tail_def)
qed

lemma recover_tail_bytes [simp]: "recover_tail (bytes_of ts) = bytes_of ts"
  using recover_tail_partial [of "[]" ts] by simp

text \<open>A line cut after \<open>n\<close> bytes survives exactly when its newline was written.\<close>

lemma recover_tail_cut:
  assumes "newline \<notin> set t"
  shows "recover_tail (bytes_of ts @ take n (t @ [newline])) = bytes_of (if length t < n then ts @ [t] else ts)"
proof (cases "length t < n")
  case True
  then have "bytes_of ts @ take n (t @ [newline]) = bytes_of (ts @ [t])" by simp
  with True show ?thesis using recover_tail_bytes by metis
next
  case False
  then have "newline \<notin> set (take n t)" using assms by (meson in_set_takeD)
  with False show ?thesis using recover_tail_partial [of "take n t" ts] by simp
qed

lemma encode_text: "ac_encode c e = Inr t \<Longrightarrow> text_of c e = t"
  by (simp add: text_of_def)

lemma read_bytes:
  assumes c: "codec_ok c" and ok: "\<forall>e\<in>set es. is_ok (ac_encode c e)"
  shows "read_completed_lines c (bytes_of (map (text_of c) es)) = Inr (map (decoded c) es)"
proof -
  have enc: "newline \<notin> set (text_of c e) \<and> (\<exists>e'. ac_decode c (text_of c e @ [newline]) = Some e')" if "e \<in> set es" for e
    using c ok that unfolding codec_ok_def is_ok_iff by (metis encode_text)
  then have "file_lines (bytes_of (map (text_of c) es)) = map (\<lambda>t. t @ [newline]) (map (text_of c) es)"
    by (intro file_lines_bytes) auto
  moreover have "map_result (read_line c) (map (\<lambda>t. t @ [newline]) (map (text_of c) es)) = Inr (map (decoded c) es)"
    using enc by (induction es) (force simp: read_line_def decoded_def)+
  ultimately show ?thesis by (simp add: read_completed_lines_def)
qed

lemma decoded_id:
  "codec_ok c \<Longrightarrow> is_ok (ac_encode c e) \<Longrightarrow> ee_event_id (decoded c e) = ee_event_id e"
  unfolding codec_ok_def is_ok_iff decoded_def by (metis encode_text option.sel)

section \<open>The journal of acknowledged events\<close>

type_synonym journal = "(audit_path \<times> event_envelope) list"

definition events_at :: "audit_path \<Rightarrow> journal \<Rightarrow> event_envelope list" where
  "events_at p j = map snd (filter (\<lambda>x. fst x = p) j)"

definition journal_ids :: "journal \<Rightarrow> uuid list" where
  "journal_ids j = map (\<lambda>x. ee_event_id (snd x)) j"

definition file_bytes :: "disk \<Rightarrow> audit_path \<Rightarrow> string" where
  "file_bytes d p = (case dget (dk_files d) p of None \<Rightarrow> [] | Some b \<Rightarrow> b)"

definition journal_wf :: "audit_codec \<Rightarrow> journal \<Rightarrow> bool" where
  "journal_wf c j \<longleftrightarrow> distinct (journal_ids j) \<and> (\<forall>x\<in>set j. is_ok (ac_encode c (snd x)))"

definition indexes :: "(uuid, audit_path) dict \<Rightarrow> journal \<Rightarrow> bool" where
  "indexes index j \<longleftrightarrow> (\<forall>i p. dget index i = Some p \<longleftrightarrow> (\<exists>e. (p, e) \<in> set j \<and> ee_event_id e = i))"

definition files_hold :: "audit_codec \<Rightarrow> disk \<Rightarrow> journal \<Rightarrow> bool" where
  "files_hold c d j \<longleftrightarrow> dict_wf (dk_files d) \<and> (\<forall>p. file_bytes d p = bytes_of (map (text_of c) (events_at p j)))"

lemma events_at_snoc [simp]: "events_at p (j @ [(q, e)]) = events_at p j @ (if q = p then [e] else [])"
  by (simp add: events_at_def)

lemma events_at_set: "e \<in> set (events_at p j) \<longleftrightarrow> (p, e) \<in> set j"
  by (force simp: events_at_def)

lemma journal_ids_iff: "i \<in> set (journal_ids j) \<longleftrightarrow> (\<exists>p e. (p, e) \<in> set j \<and> ee_event_id e = i)"
  by (force simp: journal_ids_def)

lemma journal_same_id:
  "journal_wf c j \<Longrightarrow> (p, e) \<in> set j \<Longrightarrow> (q, f) \<in> set j \<Longrightarrow> ee_event_id e = ee_event_id f \<Longrightarrow> p = q \<and> e = f"
  unfolding journal_wf_def journal_ids_def distinct_map inj_on_def by (metis Pair_inject snd_conv)

lemma indexes_None: "indexes index j \<Longrightarrow> dget index i = None \<longleftrightarrow> i \<notin> set (journal_ids j)"
  unfolding indexes_def journal_ids_iff by (metis not_Some_eq)

lemma file_bytes_append:
  "file_bytes (append_bytes p b d) q = (if q = p then file_bytes d p @ b else file_bytes d q)"
  by (simp add: file_bytes_def append_bytes_def dict_simps)

lemma append_bytes_wf: "dict_wf (dk_files d) \<Longrightarrow> dict_wf (dk_files (append_bytes p b d))"
  by (simp add: append_bytes_def dict_simps)

text \<open>Claiming a path leaves the files and the index alone.\<close>

lemma claim_view:
  "claim p s = Inr (l, d) \<Longrightarrow> al_index l = al_index (fst s) \<and> dk_files d = dk_files (snd s) \<and> al_closed l = al_closed (fst s)"
  by (auto simp: claim_def split: prod.splits if_splits)

lemma file_bytes_cong: "dk_files d = dk_files d' \<Longrightarrow> file_bytes d = file_bytes d'"
  by (simp add: file_bytes_def fun_eq_iff)

definition acknowledged :: "event_envelope \<Rightarrow> audit_receipt result \<Rightarrow> journal" where
  "acknowledged e r = (case r of Inr receipt \<Rightarrow> if ap_persisted receipt then [(ap_path receipt, e)] else [] | Inl _ \<Rightarrow> [])"

lemma append_event_cases:
  obtains (kept) r l d where "append_event c Written run_id stream e s = (r, l, d)" "acknowledged e r = []"
      "al_index l = al_index (fst s)" "dk_files d = dk_files (snd s)"
  | (stored) r l d t where "append_event c Written run_id stream e s = (r, l, append_bytes (path_for c run_id stream e) (t @ [newline]) d)"
      "acknowledged e r = [(path_for c run_id stream e, e)]" "dget (al_index (fst s)) (ee_event_id e) = None"
      "ac_encode c e = Inr t" "al_index l = dput (ee_event_id e) (path_for c run_id stream e) (al_index (fst s))"
      "dk_files d = dk_files (snd s)"
proof (cases "bind_result (require_open (fst s)) (\<lambda>_. validate_run_id run_id)")
  case (Inl err)
  with kept show ?thesis by (cases s) (simp add: append_event_def acknowledged_def)
next
  case ok: (Inr u)
  show ?thesis
  proof (cases "dget (al_index (fst s)) (ee_event_id e)")
    case (Some p)
    with ok kept show ?thesis by (cases s) (simp add: append_event_def acknowledged_def)
  next
    case None
    show ?thesis
    proof (cases "claim (path_for c run_id stream e) s")
      case (Inl err)
      with None ok kept show ?thesis by (cases s) (simp add: append_event_def acknowledged_def Let_def)
    next
      case (Inr ld)
      obtain l d where ld: "ld = (l, d)" by (cases ld)
      note view = claim_view [OF Inr [unfolded ld]]
      show ?thesis
      proof (cases "ac_encode c e")
        case (Inl err)
        with None ok Inr view kept show ?thesis by (simp add: append_event_def acknowledged_def Let_def ld)
      next
        case (Inr t)
        show ?thesis
          by (rule stored [OF _ _ None Inr, of
              "Inr \<lparr> ap_event = ee_event_id e, ap_path = path_for c run_id stream e, ap_persisted = True, ap_duplicate = False \<rparr>"
              "l \<lparr> al_index := dput (ee_event_id e) (path_for c run_id stream e) (al_index l) \<rparr>" d])
            (use None ok \<open>claim _ s = Inr ld\<close> Inr view in
              \<open>simp_all add: append_event_def acknowledged_def Let_def ld durable_append_def\<close>)
      qed
    qed
  qed
qed

lemma append_event_journal:
  assumes hold: "files_hold c (snd s) j" "indexes (al_index (fst s)) j" "journal_wf c j"
    and run: "append_event c Written run_id stream e s = (r, s')"
  shows "files_hold c (snd s') (j @ acknowledged e r) \<and> indexes (al_index (fst s')) (j @ acknowledged e r) \<and>
    journal_wf c (j @ acknowledged e r)"
proof (cases rule: append_event_cases [of c run_id stream e s])
  case (kept r' l d)
  with run hold show ?thesis by (auto simp: files_hold_def file_bytes_def)
next
  case (stored r' l d t)
  let ?p = "path_for c run_id stream e"
  have s': "s' = (l, append_bytes ?p (t @ [newline]) d)" "acknowledged e r = [(?p, e)]" using stored run by simp_all
  have new: "ee_event_id e \<notin> set (journal_ids j)" using stored(3) indexes_None [OF hold(2)] by simp
  have "files_hold c (snd s') (j @ [(?p, e)])"
    using hold(1) stored(6) encode_text [OF stored(4)] file_bytes_cong [OF stored(6)]
    unfolding files_hold_def s' by (simp add: file_bytes_append append_bytes_wf del: split_paired_All)
  moreover have "indexes (al_index (fst s')) (j @ [(?p, e)])"
    using hold(2) new by (auto simp: indexes_def s' stored(5) dict_simps journal_ids_iff)
  moreover have "journal_wf c (j @ [(?p, e)])"
    using hold(3) new stored(4) by (simp add: journal_wf_def journal_ids_def)
  ultimately show ?thesis by (simp add: s')
qed

section \<open>Opening\<close>

lemma index_events_fresh:
  assumes "distinct (map ee_event_id es)" "\<forall>e\<in>set es. dget index (ee_event_id e) = None"
  shows "\<exists>index'. index_events p es index = Inr index' \<and>
    (\<forall>i. dget index' i = (if i \<in> ee_event_id ` set es then Some p else dget index i))"
  using assms
proof (induction es arbitrary: index)
  case (Cons e es)
  have "\<forall>f\<in>set es. dget (dput (ee_event_id e) p index) (ee_event_id f) = None"
    using Cons.prems by (auto simp: dict_simps) (metis imageI)
  from Cons.IH [OF _ this] Cons.prems obtain index' where
    "index_events p es (dput (ee_event_id e) p index) = Inr index'"
    "\<forall>i. dget index' i = (if i \<in> ee_event_id ` set es then Some p else dget (dput (ee_event_id e) p index) i)"
    by auto
  then show ?case using Cons.prems(2) by (auto simp: dict_simps)
qed simp

lemma events_at_wf:
  assumes "journal_wf c j"
  shows "distinct (map ee_event_id (events_at p j))" "\<forall>e\<in>set (events_at p j). is_ok (ac_encode c e)"
proof -
  have "distinct (map (\<lambda>x. ee_event_id (snd x)) (filter (\<lambda>x. fst x = p) j))"
    using assms unfolding journal_wf_def journal_ids_def by (intro distinct_map_filter) simp
  then show "distinct (map ee_event_id (events_at p j))" by (simp add: events_at_def comp_def)
  show "\<forall>e\<in>set (events_at p j). is_ok (ac_encode c e)"
    using assms by (auto simp: events_at_def journal_wf_def)
qed

lemma decoded_ids:
  assumes "codec_ok c" "\<forall>e\<in>set es. is_ok (ac_encode c e)"
  shows "map ee_event_id (map (decoded c) es) = map ee_event_id es"
  using assms decoded_id by auto

lemma rebuild_index_journal:
  assumes c: "codec_ok c" and j: "journal_wf c j" and "distinct paths"
    and "\<forall>p\<in>set paths. recover_tail (file_bytes d p) = bytes_of (map (text_of c) (events_at p j))"
    and "\<forall>p\<in>set paths. \<forall>e\<in>set (events_at p j). dget index (ee_event_id e) = None"
    and "dict_wf (dk_files d)"
  shows "\<exists>index' d'. rebuild_index c paths index d = (Inr index', d') \<and> dict_wf (dk_files d') \<and>
    (\<forall>i p. dget index' i = Some p \<longleftrightarrow>
       dget index i = Some p \<or> p \<in> set paths \<and> (\<exists>e\<in>set (events_at p j). ee_event_id e = i)) \<and>
    (\<forall>p. file_bytes d' p = (if p \<in> set paths then recover_tail (file_bytes d p) else file_bytes d p))"
  using assms(3-)
proof (induction paths arbitrary: index d)
  case (Cons path paths)
  let ?es = "events_at path j"
  let ?d1 = "d \<lparr> dk_files := dput path (recover_tail (file_bytes d path)) (dk_files d) \<rparr>"
  note wf = events_at_wf [OF j, of path]
  have ids: "map ee_event_id (map (decoded c) ?es) = map ee_event_id ?es" by (rule decoded_ids [OF c wf(2)])
  then have idset: "ee_event_id ` set (map (decoded c) ?es) = ee_event_id ` set ?es" by (metis list.set_map)
  have fresh: "\<forall>e\<in>set (map (decoded c) ?es). dget index (ee_event_id e) = None"
    using Cons.prems(3) idset by (metis image_iff list.set_intros(1))
  obtain index1 where index1: "index_events path (map (decoded c) ?es) index = Inr index1"
    "\<forall>i. dget index1 i = (if i \<in> ee_event_id ` set ?es then Some path else dget index i)"
    using index_events_fresh [OF _ fresh] wf(1) ids idset by metis
  have bytes: "file_bytes ?d1 p = (if p = path then recover_tail (file_bytes d path) else file_bytes d p)" for p
    by (simp add: file_bytes_def dict_simps)
  have step: "rebuild_index c (path # paths) index d = rebuild_index c paths index1 ?d1"
    using Cons.prems(2) read_bytes [OF c wf(2)] index1(1) by (simp add: file_bytes_def Let_def)
  have first: "dget index1 i = Some p \<longleftrightarrow> dget index i = Some p \<or> p = path \<and> (\<exists>e\<in>set ?es. ee_event_id e = i)" for i p
  proof (cases "i \<in> ee_event_id ` set ?es")
    case True
    then have "dget index i = None" using Cons.prems(3) by auto
    with True index1(2) show ?thesis by auto
  next
    case False
    with index1(2) show ?thesis by auto
  qed
  have "dget index1 (ee_event_id e) = None" if p: "p \<in> set paths" and e: "e \<in> set (events_at p j)" for p e
  proof (rule ccontr)
    assume "dget index1 (ee_event_id e) \<noteq> None"
    then obtain q where "dget index1 (ee_event_id e) = Some q" by auto
    moreover have "dget index (ee_event_id e) = None" using Cons.prems(3) p e by auto
    ultimately obtain f where "f \<in> set ?es" "ee_event_id f = ee_event_id e" using first by auto
    then have "path = p" using journal_same_id [OF j, of path f p e] e by (simp only: events_at_set)
    with p Cons.prems(1) show False by simp
  qed
  then have others: "\<forall>p\<in>set paths. \<forall>e\<in>set (events_at p j). dget index1 (ee_event_id e) = None" by blast
  have tails: "\<forall>p\<in>set paths. recover_tail (file_bytes ?d1 p) = bytes_of (map (text_of c) (events_at p j))"
    using Cons.prems(1,2) unfolding bytes by auto
  from Cons.IH [OF _ tails others] Cons.prems(1,4) obtain index' d' where IH:
    "rebuild_index c paths index1 ?d1 = (Inr index', d')" "dict_wf (dk_files d')"
    "\<forall>i p. dget index' i = Some p \<longleftrightarrow>
       dget index1 i = Some p \<or> p \<in> set paths \<and> (\<exists>e\<in>set (events_at p j). ee_event_id e = i)"
    "\<forall>p. file_bytes d' p = (if p \<in> set paths then recover_tail (file_bytes ?d1 p) else file_bytes ?d1 p)"
    by (auto simp: dict_simps)
  have "dget index' i = Some p \<longleftrightarrow>
      dget index i = Some p \<or> p \<in> set (path # paths) \<and> (\<exists>e\<in>set (events_at p j). ee_event_id e = i)" for i p
    unfolding IH(3) [rule_format] first by auto
  moreover have "file_bytes d' p = (if p \<in> set (path # paths) then recover_tail (file_bytes d p) else file_bytes d p)" for p
    using IH(4) [rule_format, of p] Cons.prems(1) unfolding bytes by auto
  ultimately show ?case using IH(1,2) unfolding step by blast
qed simp

lemma open_log_journal:
  assumes c: "codec_ok c" and j: "journal_wf c j" and wf: "dict_wf (dk_files d)"
    and tails: "\<forall>p. recover_tail (file_bytes d p) = bytes_of (map (text_of c) (events_at p j))"
  shows "\<exists>l d'. open_log c d = (Inr l, d') \<and> \<not> al_closed l \<and> al_claimed l = [] \<and> indexes (al_index l) j \<and> files_hold c d' j"
proof -
  let ?paths = "sort (dkeys (dk_files d))"
  have keys: "p \<in> set ?paths" if "(p, e) \<in> set j" for p e
  proof (rule ccontr)
    assume "p \<notin> set ?paths"
    then have "dget (dk_files d) p = None" by (metis dget_None_keys set_sort)
    then have "bytes_of (map (text_of c) (events_at p j)) = []"
      using tails by (metis file_bytes_def option.simps(4) recover_tail_bytes bytes_of_simps(1))
    moreover have "events_at p j \<noteq> []" using that events_at_set by (metis empty_iff empty_set)
    ultimately show False by (cases "events_at p j") auto
  qed
  have "distinct ?paths" using wf by simp
  from rebuild_index_journal [OF c j this _ _ wf, of "[]"] tails obtain index' d' where r:
    "rebuild_index c ?paths [] d = (Inr index', d')" "dict_wf (dk_files d')"
    "\<forall>i p. dget index' i = Some p \<longleftrightarrow> p \<in> set ?paths \<and> (\<exists>e\<in>set (events_at p j). ee_event_id e = i)"
    "\<forall>p. file_bytes d' p = (if p \<in> set ?paths then recover_tail (file_bytes d p) else file_bytes d p)"
    by auto
  have "indexes index' j"
    unfolding indexes_def using r(3) keys events_at_set by (metis (no_types, lifting))
  moreover have "file_bytes d' p = bytes_of (map (text_of c) (events_at p j))" for p
  proof (cases "p \<in> set ?paths")
    case False
    then have "dget (dk_files d) p = None" by (metis dget_None_keys set_sort)
    then have "file_bytes d p = []" by (simp add: file_bytes_def)
    then show ?thesis using r(4) False tails by (metis recover_tail_bytes bytes_of_simps(1))
  next
    case True
    then show ?thesis using r(4) tails by metis
  qed
  ultimately show ?thesis using r(1,2) by (simp add: open_log_def files_hold_def)
qed

section \<open>Replay\<close>








section \<open>Runs and crashes\<close>

fun append_all :: "audit_codec \<Rightarrow> (string \<times> audit_stream \<times> event_envelope) list \<Rightarrow> audit_log \<times> disk \<Rightarrow>
    journal \<times> (audit_log \<times> disk)" where
  "append_all c [] s = ([], s)"
| "append_all c ((run_id, stream, e) # requests) s =
     (let (r, s1) = append_event c Written run_id stream e s; (j, s2) = append_all c requests s1
      in (acknowledged e r @ j, s2))"

definition fresh_state :: "audit_log \<times> disk" where
  "fresh_state = (\<lparr> al_index = [], al_claimed = [], al_closed = False \<rparr>, \<lparr> dk_files = [], dk_writers = [] \<rparr>)"

text \<open>A new process: no path has a writer.\<close>

definition restart :: "disk \<Rightarrow> disk" where "restart d = d \<lparr> dk_writers := [] \<rparr>"

lemma restart_files [simp]: "dk_files (restart d) = dk_files d" "file_bytes (restart d) = file_bytes d"
  by (simp_all add: restart_def file_bytes_def fun_eq_iff)

lemma cut_line_opens:
  assumes codec: "codec_ok c" and holds: "files_hold c d j" "indexes index j" "journal_wf c j"
    and new: "dget index (ee_event_id e) = None" and enc: "ac_encode c e = Inr t"
    and cut: "crashed = append_bytes p (take n (t @ [newline])) d"
  defines "j' \<equiv> if length t < n then j @ [(p, e)] else j"
  obtains l' d' where "open_log c (restart crashed) = (Inr l', d')" "\<not> al_closed l'" "indexes (al_index l') j'"
    "files_hold c d' j'" "journal_wf c j'"
proof -
  have wf: "journal_wf c j'"
    using holds(3) indexes_None [OF holds(2)] new enc by (simp add: j'_def journal_wf_def journal_ids_def)
  have nl: "newline \<notin> set t" using codec enc by (auto simp: codec_ok_def)
  have bytes: "file_bytes (restart crashed) q = (if q = p then file_bytes d p @ take n (t @ [newline]) else file_bytes d q)" for q
    by (simp add: cut restart_def append_bytes_def file_bytes_def dict_simps)
  have files: "file_bytes d q = bytes_of (map (text_of c) (events_at q j))" for q
    using holds(1) unfolding files_hold_def by blast
  have "recover_tail (file_bytes (restart crashed) q) = bytes_of (map (text_of c) (events_at q j'))" for q
  proof (cases "q = p")
    case True
    show ?thesis unfolding bytes files True using recover_tail_cut [OF nl, of "map (text_of c) (events_at p j)" n]
      by (simp add: j'_def encode_text [OF enc])
  next
    case False
    then show ?thesis unfolding bytes files by (simp add: j'_def)
  qed
  moreover have "dict_wf (dk_files (restart crashed))"
    using holds(1) append_bytes_wf by (simp add: files_hold_def cut restart_def)
  ultimately show ?thesis using that open_log_journal [OF codec wf] wf by blast
qed

text \<open>
  The life of an audit root: a log on an empty root appends; a process may end at any instant, also in the
  middle of writing a line, and the next one opens what it left. The journal holds what was acknowledged,
  and an interrupted event whose whole line reached the file.
\<close>

inductive audit_life :: "audit_codec \<Rightarrow> journal \<Rightarrow> audit_log \<times> disk \<Rightarrow> bool" for c where
  life_fresh: "audit_life c [] fresh_state"
| life_append: "audit_life c j s \<Longrightarrow> append_event c Written run_id stream e s = (r, s') \<Longrightarrow>
    audit_life c (j @ acknowledged e r) s'"
| life_restart: "audit_life c j s \<Longrightarrow> open_log c (restart (snd s)) = (Inr l, d) \<Longrightarrow> audit_life c j (l, d)"
| life_crash: "audit_life c j s \<Longrightarrow> dget (al_index (fst s)) (ee_event_id e) = None \<Longrightarrow> ac_encode c e = Inr t \<Longrightarrow>
    open_log c (restart (append_bytes (path_for c run_id stream e) (take n (t @ [newline])) (snd s))) = (Inr l, d) \<Longrightarrow>
    audit_life c (if length t < n then j @ [(path_for c run_id stream e, e)] else j) (l, d)"

lemma life_journal:
  assumes "audit_life c j s" and codec: "codec_ok c"
  shows "files_hold c (snd s) j \<and> indexes (al_index (fst s)) j \<and> journal_wf c j"
  using assms(1)
proof (induction rule: audit_life.induct)
  case life_fresh
  then show ?case
    by (simp add: fresh_state_def files_hold_def file_bytes_def events_at_def indexes_def journal_wf_def journal_ids_def)
next
  case (life_append j s run_id stream e r s')
  then show ?case using append_event_journal by blast
next
  case (life_restart j s l d)
  then have hold: "files_hold c (snd s) j" "journal_wf c j" by simp_all
  have "recover_tail (file_bytes (restart (snd s)) q) = bytes_of (map (text_of c) (events_at q j))" for q
    using hold(1) unfolding files_hold_def restart_files by (simp del: split_paired_All)
  moreover have "dict_wf (dk_files (restart (snd s)))" using hold(1) by (simp add: files_hold_def)
  ultimately obtain l' d' where opened: "open_log c (restart (snd s)) = (Inr l', d')" "indexes (al_index l') j" "files_hold c d' j"
    using open_log_journal [OF codec hold(2)] by blast
  then have "l' = l" "d' = d" using life_restart.hyps(2) by simp_all
  with opened(2,3) hold(2) show ?case by simp
next
  case (life_crash j s e t run_id stream n l d)
  then have hold: "files_hold c (snd s) j" "indexes (al_index (fst s)) j" "journal_wf c j" by simp_all
  obtain l' d' where opened: "open_log c (restart (append_bytes (path_for c run_id stream e) (take n (t @ [newline])) (snd s)))
      = (Inr l', d')" "indexes (al_index l') (if length t < n then j @ [(path_for c run_id stream e, e)] else j)"
    "files_hold c d' (if length t < n then j @ [(path_for c run_id stream e, e)] else j)"
    "journal_wf c (if length t < n then j @ [(path_for c run_id stream e, e)] else j)"
    by (rule cut_line_opens [OF codec hold life_crash.hyps(2,3) refl])
  then have "l' = l" "d' = d" using life_crash.hyps(4) by simp_all
  with opened(2-4) show ?case by (simp only: fst_conv snd_conv)
qed

lemma append_all_life:
  "audit_life c j s \<Longrightarrow> append_all c requests s = (j', s') \<Longrightarrow> audit_life c (j @ j') s'"
proof (induction requests arbitrary: s j j')
  case (Cons request requests)
  obtain run_id stream e where request: "request = (run_id, stream, e)" by (cases request)
  obtain r s1 where r: "append_event c Written run_id stream e s = (r, s1)" by (meson surj_pair)
  obtain j2 where j2: "append_all c requests s1 = (j2, s')" "j' = acknowledged e r @ j2"
    using Cons.prems(2) by (auto simp: request r split: prod.splits)
  from Cons.IH [OF life_append [OF Cons.prems(1) r] j2(1)] j2(2) show ?case by simp
qed simp


text \<open>Appending is idempotent per event identity: once an append succeeded, appending any envelope with
  that identity, to whatever run and stream and however the file system behaves, writes nothing and
  confirms the original place.\<close>

theorem append_is_idempotent:
  assumes "append_event c io run_id stream e s = (Inr receipt, s')"
    and "ee_event_id f = ee_event_id e" "validate_run_id run_id' = Inr ()"
  shows "append_event c io' run_id' stream' f s' =
    (Inr \<lparr> ap_event = ee_event_id e, ap_path = ap_path receipt, ap_persisted = False, ap_duplicate = True \<rparr>, s')"
proof -
  have "\<not> al_closed (fst s') \<and> dget (al_index (fst s')) (ee_event_id e) = Some (ap_path receipt)"
    using assms(1) by (cases s)
      (auto simp: append_event_def require_open_def Let_def bind_result_Inr durable_append_def claim_def dict_simps
        split: sum.splits option.splits prod.splits if_splits write_outcome.splits)
  then show ?thesis using assms(2,3) by (simp add: append_event_def require_open_def)
qed

section \<open>A failed append\<close>

lemma rebuild_index_readable:
  assumes "rebuild_index c paths index d = (Inr index', d')" "distinct paths" "p \<in> set paths"
  shows "is_ok (read_completed_lines c (recover_tail (file_bytes d p)))"
  using assms
proof (induction paths arbitrary: index d)
  case (Cons path paths)
  let ?d1 = "d \<lparr> dk_files := dput path (recover_tail (file_bytes d path)) (dk_files d) \<rparr>"
  obtain index1 where step: "is_ok (read_completed_lines c (recover_tail (file_bytes d path)))"
    "rebuild_index c paths index1 ?d1 = (Inr index', d')"
    using Cons.prems(1) by (auto simp: file_bytes_def Let_def bind_result_Inr split: sum.splits)
  show ?case
  proof (cases "p = path")
    case False
    moreover have "file_bytes ?d1 p = file_bytes d p" if "p \<noteq> path" using that by (simp add: file_bytes_def dict_simps)
    ultimately show ?thesis using Cons.IH [OF step(2)] Cons.prems(2,3) by simp
  qed (use step in simp)
qed simp

lemma map_result_ok_at: "map_result f xs = Inr ys \<Longrightarrow> x \<in> set xs \<Longrightarrow> is_ok (f x)"
  by (induction xs arbitrary: ys) (auto simp: is_ok_iff)

lemma append_event_failed:
  assumes "append_event c (Fails n) run_id stream e s = (Inl (OSError msg), s1)" "ac_encode c e = Inr t"
  shows "file_bytes (snd s1) q =
      (if q = path_for c run_id stream e then file_bytes (snd s) q @ take n (t @ [newline]) else file_bytes (snd s) q)
    \<and> (dict_wf (dk_files (snd s)) \<longrightarrow> dict_wf (dk_files (snd s1)))"
proof -
  from assms obtain l d where claimed: "claim (path_for c run_id stream e) s = Inr (l, d)"
    and s1: "s1 = (l, append_bytes (path_for c run_id stream e) (take n (t @ [newline])) d)"
    by (auto simp: append_event_def require_open_def validate_run_id_def durable_append_def Let_def claim_def
        split: sum.splits option.splits prod.splits if_splits)
  from claim_view [OF claimed] show ?thesis
    using file_bytes_cong [of d "snd s"] append_bytes_wf [of d] by (simp add: s1 file_bytes_append)
qed

text \<open>Starting over and over: each start leaves the disk as its recovery of tails did.\<close>

fun after_starts :: "audit_codec \<Rightarrow> nat \<Rightarrow> disk \<Rightarrow> disk" where
  "after_starts c 0 d = d"
| "after_starts c (Suc k) d = after_starts c k (snd (open_log c (restart d)))"

lemma rebuild_index_keeps:
  assumes "recover_tail (file_bytes d p) = file_bytes d p" "dict_wf (dk_files d)"
  shows "file_bytes (snd (rebuild_index c paths index d)) p = file_bytes d p
    \<and> dict_wf (dk_files (snd (rebuild_index c paths index d)))"
  using assms
proof (induction paths arbitrary: index d)
  case (Cons path paths)
  define d1 where "d1 = d \<lparr> dk_files := dput path (recover_tail (file_bytes d path)) (dk_files d) \<rparr>"
  have d1: "file_bytes d1 p = file_bytes d p" "dict_wf (dk_files d1)"
    using Cons.prems by (cases "p = path"; simp add: d1_def file_bytes_def dict_simps)+
  have "snd (rebuild_index c (path # paths) index d) = d1 \<or>
      (\<exists>index'. rebuild_index c (path # paths) index d = rebuild_index c paths index' d1)"
    by (cases "bind_result (read_completed_lines c (recover_tail (file_bytes d path))) (\<lambda>es. index_events path es index)")
      (auto simp: d1_def file_bytes_def Let_def)
  then show ?case using Cons.IH [of d1] d1 Cons.prems(1) by auto
qed simp

lemma unreadable_stays:
  assumes bytes: "file_bytes d p = bytes_of ts" "bytes_of ts \<noteq> []" and wf: "dict_wf (dk_files d)"
    and bad: "\<not> is_ok (read_completed_lines c (bytes_of ts))"
  shows "\<not> is_ok (fst (open_log c (restart (after_starts c k d))))"
  using bytes wf
proof (induction k arbitrary: d)
  case 0
  show ?case
  proof
    assume "is_ok (fst (open_log c (restart (after_starts c 0 d))))"
    then obtain index' d' where opened:
        "rebuild_index c (sort (dkeys (dk_files (restart d)))) [] (restart d) = (Inr index', d')"
      by (auto simp: open_log_def is_ok_iff bind_result_Inr split: prod.splits)
    have "dget (dk_files d) p \<noteq> None" using 0(1) bytes(2) by (cases "dget (dk_files d) p") (auto simp: file_bytes_def)
    then have "p \<in> set (sort (dkeys (dk_files (restart d))))" by (simp add: dget_None_keys)
    from rebuild_index_readable [OF opened _ this] 0 bad show False by simp
  qed
next
  case (Suc k)
  have "file_bytes (restart d) p = bytes_of ts" "dict_wf (dk_files (restart d))"
    using Suc.prems by simp_all
  then have "file_bytes (snd (open_log c (restart d))) p = bytes_of ts \<and> dict_wf (dk_files (snd (open_log c (restart d))))"
    using rebuild_index_keeps [of "restart d" p] by (simp add: open_log_def split: prod.split) (metis snd_conv)
  with Suc show ?case by simp
qed

lemma append_all_elsewhere:
  "append_all c requests s = (j, s') \<Longrightarrow> \<forall>x\<in>set j. fst x \<noteq> p \<Longrightarrow>
   file_bytes (snd s') p = file_bytes (snd s) p \<and> (dict_wf (dk_files (snd s)) \<longrightarrow> dict_wf (dk_files (snd s')))"
proof (induction requests arbitrary: s j)
  case (Cons request requests)
  obtain run_id stream e where request: "request = (run_id, stream, e)" by (cases request)
  obtain r s1 where r: "append_event c Written run_id stream e s = (r, s1)" by (meson surj_pair)
  obtain j2 where j2: "append_all c requests s1 = (j2, s')" "j = acknowledged e r @ j2"
    using Cons.prems(1) by (auto simp: request r split: prod.splits)
  have "file_bytes (snd s1) p = file_bytes (snd s) p \<and> (dict_wf (dk_files (snd s)) \<longrightarrow> dict_wf (dk_files (snd s1)))"
  proof (cases rule: append_event_cases [of c run_id stream e s])
    case (kept r' l d)
    with r have "dk_files (snd s1) = dk_files (snd s)" by auto
    then show ?thesis using file_bytes_cong by metis
  next
    case (stored r' l d t)
    have "path_for c run_id stream e \<noteq> p" using stored(1,2) r j2(2) Cons.prems(2) by auto
    with stored(1,6) r show ?thesis
      using file_bytes_append [of "path_for c run_id stream e" "t @ [newline]" d p] file_bytes_cong [OF stored(6)]
        append_bytes_wf [of d "path_for c run_id stream e" "t @ [newline]"] by auto
  qed
  moreover have "\<forall>x\<in>set j2. fst x \<noteq> p" using Cons.prems(2) j2(2) by simp
  ultimately show ?case using Cons.IH [OF j2(1)] by simp
qed simp

text \<open>C25: A write error is not contained: when in the life of an audit root an append fails after some bytes of
  its line, and the same log, after any other appends that were stored in other files, acknowledges another
  event of the same file, the two run together into one completed line that cannot be read, and no later
  start of the audit log succeeds, however often it is started.\<close>

theorem failed_append_corrupts:
  assumes codec: "codec_ok c" and life: "audit_life c j s"
    and failed: "append_event c (Fails n) run_id stream e s = (Inl (OSError msg), s1)"
    and between: "append_all c requests s1 = (j1, s2)" "\<forall>x\<in>set j1. fst x \<noteq> path_for c run_id stream e"
    and stored: "append_event c Written run_id' stream' f s2 = (Inr receipt, s3)" "ap_persisted receipt"
    and same: "path_for c run_id' stream' f = path_for c run_id stream e"
    and enc: "ac_encode c e = Inr t" "ac_encode c f = Inr u" and cut: "n \<le> length t"
    and merged: "ac_decode c (take n t @ u @ [newline]) = None"
  shows "\<not> is_ok (fst (open_log c (restart (after_starts c k (snd s3)))))"
proof -
  let ?p = "path_for c run_id stream e"
  define ts where "ts = map (text_of c) (events_at ?p j)"
  note hold = life_journal [OF life codec, THEN conjunct1] and fail = append_event_failed [OF failed enc(1)]
  have "file_bytes (snd s) ?p = bytes_of ts" using hold unfolding files_hold_def ts_def by blast
  then have b1: "file_bytes (snd s1) ?p = bytes_of ts @ take n t" using fail [of ?p] cut by simp
  have wf1: "dict_wf (dk_files (snd s1))" using fail hold by (simp add: files_hold_def)
  note b2 = append_all_elsewhere [OF between] 
  have b3: "file_bytes (snd s3) ?p = bytes_of (ts @ [take n t @ u])" "dict_wf (dk_files (snd s3))"
  proof -
    from stored obtain l d where "s3 = (l, append_bytes ?p (u @ [newline]) d)" "dk_files d = dk_files (snd s2)"
      by (cases rule: append_event_cases [of c run_id' stream' f s2]) (auto simp: acknowledged_def same enc(2))
    then show "file_bytes (snd s3) ?p = bytes_of (ts @ [take n t @ u])" "dict_wf (dk_files (snd s3))"
      using b1 wf1 b2 file_bytes_cong [of d "snd s2"] append_bytes_wf [of d] by (simp_all add: file_bytes_append)
  qed
  have "newline \<notin> set (take n t @ u)" using codec enc by (auto simp: codec_ok_def dest: in_set_takeD)
  moreover have "\<forall>v\<in>set ts. newline \<notin> set v"
    using codec events_at_wf(2) [of c j] life_journal [OF life codec] unfolding ts_def codec_ok_def is_ok_iff
    by (metis encode_text imageE list.set_map)
  ultimately have "file_lines (bytes_of (ts @ [take n t @ u])) = map (\<lambda>v. v @ [newline]) (ts @ [take n t @ u])"
    by (intro file_lines_bytes) auto
  then have line: "take n t @ u @ [newline] \<in> set (file_lines (bytes_of (ts @ [take n t @ u])))" by simp
  have "\<not> is_ok (read_completed_lines c (bytes_of (ts @ [take n t @ u])))"
  proof
    assume "is_ok (read_completed_lines c (bytes_of (ts @ [take n t @ u])))"
    then obtain es where "map_result (read_line c) (file_lines (bytes_of (ts @ [take n t @ u]))) = Inr es"
      by (auto simp: read_completed_lines_def is_ok_iff simp del: bytes_of_simps)
    from map_result_ok_at [OF this line] merged show False by (simp add: read_line_def)
  qed
  then show ?thesis by (intro unreadable_stays [OF b3(1) _ b3(2)]) simp_all
qed

section \<open>Witnesses\<close>

text \<open>A toy codec: the line of an event is its identity in unary between braces.\<close>

definition toy_envelope :: "uuid \<Rightarrow> event_envelope" where
  "toy_envelope i = \<lparr> ee_event_id = i, ee_event_type = ''e'', ee_schema_version = ''1.0.0'', ee_occurred_at = 0,
     ee_source = ''s'', ee_trace_id = None, ee_correlation_id = None, ee_causation_id = None,
     ee_market_session = None, ee_subject = None, ee_payload = VNone, ee_attributes = [] \<rparr>"

definition toy_codec :: audit_codec where
  "toy_codec = \<lparr>
     ac_encode = (\<lambda>e. if ee_event_id e < 0 then Inl (ValueError ''negative'')
                      else Inr (CHR ''{'' # replicate (nat (ee_event_id e)) CHR ''1'' @ ''}'')),
     ac_decode = (\<lambda>s. let body = butlast (butlast (tl s)) in
                      if s = CHR ''{'' # body @ [CHR ''}'', newline] \<and> list_all (\<lambda>ch. ch = CHR ''1'') body
                      then Some (toy_envelope (int (length body))) else None),
     ac_day = (\<lambda>t. ''1970-01-01'') \<rparr>"

lemma toy_codec_ok: "codec_ok toy_codec"
  by (auto simp: codec_ok_def toy_codec_def Let_def newline_def toy_envelope_def butlast_append list_all_iff
      split: if_splits)

definition toy_run :: "journal \<times> (audit_log \<times> disk)" where
  "toy_run = append_all toy_codec [(''run'', AS_DECISIONS, toy_envelope 1), (''run'', AS_DECISIONS, toy_envelope 2)] fresh_state"


theorem append_is_idempotent_witness:
  "let s = snd toy_run in
     append_event toy_codec (Fails 1) ''other'' AS_SERVICES (toy_envelope 1) s =
       (Inr \<lparr> ap_event = 1, ap_path = (''1970-01-01'', ''run'', ''decisions''), ap_persisted = False, ap_duplicate = True \<rparr>, s)"
proof -
  let ?first = "append_event toy_codec Written ''run'' AS_DECISIONS (toy_envelope 1) (snd toy_run)"
  have "(case ?first of (Inr receipt, s') \<Rightarrow> ap_path receipt = (''1970-01-01'', ''run'', ''decisions'') | _ \<Rightarrow> False)"
    by code_simp
  then obtain receipt s' where first: "?first = (Inr receipt, s')" "ap_path receipt = (''1970-01-01'', ''run'', ''decisions'')"
    by (auto split: prod.splits sum.splits)
  have known: "dget (al_index (fst (snd toy_run))) (ee_event_id (toy_envelope 1)) = Some (''1970-01-01'', ''run'', ''decisions'')"
    by code_simp
  have "al_closed (fst (snd toy_run)) = False" "validate_run_id ''run'' = Inr ()" by code_simp+
  with known have same: "s' = snd toy_run" using first(1) by (simp add: append_event_def require_open_def)
  have valid: "validate_run_id ''other'' = Inr ()" by code_simp
  have id: "ee_event_id (toy_envelope 1) = 1" by (simp add: toy_envelope_def)
  from append_is_idempotent [OF first(1) refl valid, of "Fails 1" AS_SERVICES]
  show ?thesis by (simp add: same first(2) id Let_def)
qed

definition toy_first :: "journal \<times> (audit_log \<times> disk)" where
  "toy_first = append_all toy_codec [(''run'', AS_DECISIONS, toy_envelope 1)] fresh_state"

definition toy_failed :: "audit_receipt result \<times> (audit_log \<times> disk)" where
  "toy_failed = append_event toy_codec (Fails 2) ''run'' AS_DECISIONS (toy_envelope 2) (snd toy_first)"

definition toy_other :: "journal \<times> (audit_log \<times> disk)" where
  "toy_other = append_all toy_codec [(''run'', AS_SERVICES, toy_envelope 4)] (snd toy_failed)"

definition toy_next :: "audit_receipt result \<times> (audit_log \<times> disk)" where
  "toy_next = append_event toy_codec Written ''run'' AS_DECISIONS (toy_envelope 3) (snd toy_other)"

theorem failed_append_corrupts_witness:
  "\<not> is_ok (fst (open_log toy_codec (restart (after_starts toy_codec 2 (snd (snd toy_next))))))"
proof -
  obtain j s where run: "toy_first = (j, s)" by (cases toy_first)
  from append_all_life [OF life_fresh run [unfolded toy_first_def]] have life: "audit_life toy_codec j s" by simp
  have "fst toy_failed = Inl (OSError ''append failed'')" by code_simp
  then obtain s1 where failed: "toy_failed = (Inl (OSError ''append failed''), s1)" by (metis prod.collapse)
  obtain j1 s2 where other: "toy_other = (j1, s2)" by (cases toy_other)
  have path: "path_for toy_codec ''run'' AS_DECISIONS (toy_envelope 2) = (''1970-01-01'', ''run'', ''decisions'')" by code_simp
  have "list_all (\<lambda>x. fst x \<noteq> (''1970-01-01'', ''run'', ''decisions'')) (fst toy_other)" by code_simp
  then have elsewhere: "\<forall>x\<in>set j1. fst x \<noteq> path_for toy_codec ''run'' AS_DECISIONS (toy_envelope 2)"
    by (simp add: other path list_all_iff)
  have "(case fst toy_next of Inr receipt \<Rightarrow> ap_persisted receipt | Inl _ \<Rightarrow> False)" by code_simp
  then obtain receipt s3 where stored: "toy_next = (Inr receipt, s3)" "ap_persisted receipt"
    by (auto split: sum.splits) (metis prod.collapse)
  have same: "path_for toy_codec ''run'' AS_DECISIONS (toy_envelope 3) = path_for toy_codec ''run'' AS_DECISIONS (toy_envelope 2)"
    by code_simp
  have enc: "ac_encode toy_codec (toy_envelope 2) = Inr ''{11}''" "ac_encode toy_codec (toy_envelope 3) = Inr ''{111}''"
    by code_simp+
  have merged: "ac_decode toy_codec (take 2 ''{11}'' @ ''{111}'' @ [newline]) = None" by code_simp
  show ?thesis
    using failed_append_corrupts [OF toy_codec_ok life failed [unfolded toy_failed_def run snd_conv]
        other [unfolded toy_other_def failed snd_conv] elsewhere stored(1) [unfolded toy_next_def other snd_conv] stored(2)
        same enc _ merged, of 2]
    by (simp add: stored(1))
qed

end
