(* ===== verification/Outbox.thy ===== *)
theory Outbox
  imports Rule_Contracts "HOL-Library.Product_Lexorder"
begin

text \<open>
  The transactional outbox: the table operations of \<open>OutboxRepository\<close> (app/persistence/repositories.py)
  and the relay that publishes its rows (app/integration/outbox_relay.py). The table is a dictionary from
  row identities; a transaction is one function on it. The publisher, the decoding of a payload and the
  clock are parameters. Rows that another open transaction has locked are skipped by a claim.
\<close>

section \<open>Table\<close>

record outbox_row =
  ob_id :: uuid
  ob_aggregate_type :: string
  ob_aggregate_id :: string
  ob_event_type :: string
  ob_subject :: string
  ob_payload :: py_value
  ob_headers :: py_value
  ob_occurred_at :: instant
  ob_available_at :: instant
  ob_published_at :: "instant option"
  ob_attempts :: int
  ob_last_error :: "string option"
  ob_created_at :: instant

type_synonym outbox = "(uuid, outbox_row) dict"

text \<open>The check constraint of the table on a row about to be written.\<close>

definition row_allowed :: "outbox_row \<Rightarrow> bool" where
  "row_allowed row \<longleftrightarrow> 0 \<le> ob_attempts row \<and>
     (case ob_published_at row of None \<Rightarrow> True | Some t \<Rightarrow> ob_occurred_at row \<le> t)"

definition write_row :: "outbox_row \<Rightarrow> outbox \<Rightarrow> outbox result" where
  "write_row row table =
     (if row_allowed row then Inr (dput (ob_id row) row table)
      else Inl (IntegrityError ''outbox_events check constraint''))"

definition enqueue :: "uuid \<Rightarrow> instant \<Rightarrow> string \<times> string \<times> string \<Rightarrow> string \<Rightarrow> py_value \<Rightarrow> py_value option \<Rightarrow>
    instant option \<Rightarrow> instant option \<Rightarrow> outbox \<Rightarrow> (outbox_row \<times> outbox) result" where
  "enqueue row_id now identity subject payload headers occurred_at available_at table =
     (let (aggregate_type, aggregate_id, event_type) = identity;
          row = \<lparr> ob_id = row_id, ob_aggregate_type = aggregate_type, ob_aggregate_id = aggregate_id,
            ob_event_type = event_type, ob_subject = subject, ob_payload = payload,
            ob_headers = (case headers of None \<Rightarrow> VDict [] | Some h \<Rightarrow> h),
            ob_occurred_at = (case occurred_at of None \<Rightarrow> now | Some t \<Rightarrow> t),
            ob_available_at = (case available_at of None \<Rightarrow> now | Some t \<Rightarrow> t),
            ob_published_at = None, ob_attempts = 0, ob_last_error = None, ob_created_at = now \<rparr>
      in if dget table row_id \<noteq> None then Inl (IntegrityError ''outbox_events primary key'')
         else bind_result (write_row row table) (\<lambda>t. Inr (row, t)))"

definition pending :: "uuid list \<Rightarrow> instant \<Rightarrow> outbox \<Rightarrow> outbox_row list" where
  "pending locked now table =
     sort_key (\<lambda>row. (ob_available_at row, ob_created_at row))
       (filter (\<lambda>row. ob_published_at row = None \<and> ob_available_at row \<le> now \<and> ob_id row \<notin> set locked)
          (dvalues table))"

definition leased :: "instant \<Rightarrow> outbox_row \<Rightarrow> outbox_row" where
  "leased lease_until row = row \<lparr> ob_available_at := lease_until, ob_attempts := ob_attempts row + 1 \<rparr>"

definition claim_pending :: "uuid list \<Rightarrow> int \<Rightarrow> instant \<Rightarrow> instant \<Rightarrow> outbox \<Rightarrow> (outbox_row list \<times> outbox) result" where
  "claim_pending locked limit now lease_until table =
     (if limit \<le> 0 then Inl (ValueError ''limit must be positive'')
      else if lease_until \<le> now then Inl (ValueError ''lease_until must be after now'')
      else
        let events = map (leased lease_until) (take (nat limit) (pending locked now table))
        in Inr (events, foldl (\<lambda>t row. dput (ob_id row) row t) table events))"

text \<open>Both updates only touch a row that is not published yet.\<close>

definition update_unpublished :: "uuid \<Rightarrow> (outbox_row \<Rightarrow> outbox_row) \<Rightarrow> outbox \<Rightarrow> outbox result" where
  "update_unpublished row_id f table =
     (case dget table row_id of
        None \<Rightarrow> Inr table
      | Some row \<Rightarrow> if ob_published_at row \<noteq> None then Inr table else write_row (f row) table)"

definition mark_published :: "uuid \<Rightarrow> instant \<Rightarrow> outbox \<Rightarrow> outbox result" where
  "mark_published row_id published_at =
     update_unpublished row_id (\<lambda>row. row \<lparr> ob_published_at := Some published_at, ob_last_error := None \<rparr>)"

definition record_failure :: "uuid \<Rightarrow> string \<Rightarrow> instant \<Rightarrow> outbox \<Rightarrow> outbox result" where
  "record_failure row_id err available_at =
     update_unpublished row_id (\<lambda>row. row \<lparr> ob_last_error := Some err, ob_available_at := available_at \<rparr>)"

section \<open>Relay\<close>

record relay =
  rl_batch_size :: int
  rl_lease :: duration
  rl_initial_backoff :: duration
  rl_maximum_backoff :: duration

definition make_relay :: "relay \<Rightarrow> duration \<Rightarrow> relay result" where
  "make_relay r poll_interval =
     (if rl_batch_size r \<le> 0 then Inl (ValueError ''batch_size must be positive'')
      else if rl_lease r \<le> 0 then Inl (ValueError ''lease_duration must be positive'')
      else if rl_initial_backoff r \<le> 0 then Inl (ValueError ''initial_backoff must be positive'')
      else if rl_maximum_backoff r < rl_initial_backoff r
      then Inl (ValueError ''maximum_backoff must not be shorter than initial_backoff'')
      else if poll_interval \<le> 0 then Inl (ValueError ''poll_interval must be positive'')
      else Inr r)"

text \<open>In microseconds; the code's product of a \<open>float\<close> of seconds and a power of two is exact.\<close>

definition backoff :: "relay \<Rightarrow> int \<Rightarrow> duration" where
  "backoff r attempts =
     (let exponent = nat (max 0 (min (attempts - 1) 20))
      in min (rl_initial_backoff r * 2 ^ exponent) (rl_maximum_backoff r))"

text \<open>What the n-th publication does: it is accepted, it raises, or the task is cancelled.\<close>

datatype publish_outcome = Accepts | Raises string | Cancels

record relay_world =
  rw_decode :: "py_value \<Rightarrow> event_envelope result"
  rw_publish :: "nat \<Rightarrow> string \<Rightarrow> event_envelope \<Rightarrow> publish_outcome"
  rw_clock :: "nat \<Rightarrow> instant"
  rw_error_text :: "py_error \<Rightarrow> string"

text \<open>\<open>rs_accepted\<close> lists the rows the publisher accepted, \<open>rs_tick\<close> counts clock readings and publications.\<close>

record relay_state =
  rs_table :: outbox
  rs_accepted :: "uuid list"
  rs_tick :: nat

definition fail_event :: "relay \<Rightarrow> relay_world \<Rightarrow> outbox_row \<Rightarrow> string \<Rightarrow> relay_state \<Rightarrow> unit result \<times> relay_state" where
  "fail_event r w event err s =
     (let s1 = s \<lparr> rs_tick := Suc (rs_tick s) \<rparr> in
      case record_failure (ob_id event) (take 2000 err)
             (rw_clock w (rs_tick s) + backoff r (ob_attempts event)) (rs_table s) of
        Inl e \<Rightarrow> (Inl e, s1)
      | Inr table \<Rightarrow> (Inr (), s1 \<lparr> rs_table := table \<rparr>))"

definition accept_event :: "relay_world \<Rightarrow> outbox_row \<Rightarrow> relay_state \<Rightarrow> unit result \<times> relay_state" where
  "accept_event w event s =
     (let s1 = s \<lparr> rs_tick := Suc (rs_tick s), rs_accepted := rs_accepted s @ [ob_id event] \<rparr> in
      case mark_published (ob_id event) (rw_clock w (rs_tick s)) (rs_table s) of
        Inl e \<Rightarrow> (Inl e, s1)
      | Inr table \<Rightarrow> (Inr (), s1 \<lparr> rs_table := table \<rparr>))"

text \<open>One row: whether it was published, or the error that ends the batch.\<close>

definition relay_event :: "relay \<Rightarrow> relay_world \<Rightarrow> outbox_row \<Rightarrow> relay_state \<Rightarrow> bool result \<times> relay_state" where
  "relay_event r w event s =
     (case rw_decode w (ob_payload event) of
        Inl e \<Rightarrow> (case fail_event r w event (rw_error_text w e) s of (u, s') \<Rightarrow> (bind_result u (\<lambda>_. Inr False), s'))
      | Inr envelope \<Rightarrow>
          (let s1 = s \<lparr> rs_tick := Suc (rs_tick s) \<rparr> in
           case rw_publish w (rs_tick s) (ob_subject event) envelope of
             Cancels \<Rightarrow> (Inl CancelledError, s1)
           | Raises err \<Rightarrow> (case fail_event r w event err s1 of (u, s') \<Rightarrow> (bind_result u (\<lambda>_. Inr False), s'))
           | Accepts \<Rightarrow> (case accept_event w event s1 of (u, s') \<Rightarrow> (bind_result u (\<lambda>_. Inr True), s'))))"

fun relay_events :: "relay \<Rightarrow> relay_world \<Rightarrow> outbox_row list \<Rightarrow> nat \<Rightarrow> relay_state \<Rightarrow> nat result \<times> relay_state" where
  "relay_events r w [] published s = (Inr published, s)"
| "relay_events r w (event # events) published s =
     (case relay_event r w event s of
        (Inl e, s') \<Rightarrow> (Inl e, s')
      | (Inr ok, s') \<Rightarrow> relay_events r w events (if ok then Suc published else published) s')"

definition drain_once :: "relay \<Rightarrow> relay_world \<Rightarrow> uuid list \<Rightarrow> relay_state \<Rightarrow> nat result \<times> relay_state" where
  "drain_once r w locked s =
     (let claimed_at = rw_clock w (rs_tick s); s1 = s \<lparr> rs_tick := Suc (rs_tick s) \<rparr> in
      case claim_pending locked (rl_batch_size r) claimed_at (claimed_at + rl_lease r) (rs_table s) of
        Inl e \<Rightarrow> (Inl e, s1)
      | Inr (events, table) \<Rightarrow> relay_events r w events 0 (s1 \<lparr> rs_table := table \<rparr>))"

text \<open>
  The same loop cut at its suspension points, for workers that run side by side: one transaction or one
  publication at a time. An error or a cancellation ends the batch.
\<close>

datatype relay_worker =
    Idle
  | Delivering "outbox_row list"
  | Marking outbox_row "outbox_row list"
  | Recording outbox_row string "outbox_row list"

fun worker_step :: "relay \<Rightarrow> relay_world \<Rightarrow> uuid list \<Rightarrow> relay_worker \<Rightarrow> relay_state \<Rightarrow> relay_worker \<times> relay_state" where
  "worker_step r w locked Idle s =
     (let claimed_at = rw_clock w (rs_tick s); s1 = s \<lparr> rs_tick := Suc (rs_tick s) \<rparr> in
      case claim_pending locked (rl_batch_size r) claimed_at (claimed_at + rl_lease r) (rs_table s) of
        Inl e \<Rightarrow> (Idle, s1)
      | Inr (events, table) \<Rightarrow> (Delivering events, s1 \<lparr> rs_table := table \<rparr>))"
| "worker_step r w locked (Delivering []) s = (Idle, s)"
| "worker_step r w locked (Delivering (event # events)) s =
     (case rw_decode w (ob_payload event) of
        Inl e \<Rightarrow> (Recording event (rw_error_text w e) events, s)
      | Inr envelope \<Rightarrow>
          (let s1 = s \<lparr> rs_tick := Suc (rs_tick s) \<rparr> in
           case rw_publish w (rs_tick s) (ob_subject event) envelope of
             Cancels \<Rightarrow> (Idle, s1)
           | Raises err \<Rightarrow> (Recording event err events, s1)
           | Accepts \<Rightarrow> (Marking event events, s1 \<lparr> rs_accepted := rs_accepted s1 @ [ob_id event] \<rparr>)))"
| "worker_step r w locked (Marking event events) s =
     (let s1 = s \<lparr> rs_tick := Suc (rs_tick s) \<rparr> in
      case mark_published (ob_id event) (rw_clock w (rs_tick s)) (rs_table s) of
        Inl e \<Rightarrow> (Idle, s1)
      | Inr table \<Rightarrow> (Delivering events, s1 \<lparr> rs_table := table \<rparr>))"
| "worker_step r w locked (Recording event err events) s =
     (let s1 = s \<lparr> rs_tick := Suc (rs_tick s) \<rparr> in
      case record_failure (ob_id event) (take 2000 err)
             (rw_clock w (rs_tick s) + backoff r (ob_attempts event)) (rs_table s) of
        Inl e \<Rightarrow> (Idle, s1)
      | Inr table \<Rightarrow> (Delivering events, s1 \<lparr> rs_table := table \<rparr>))"

end
