(* ===== verification/Outbox_Laws.thy ===== *)
theory Outbox_Laws
  imports Outbox
begin

text \<open>
  Any number of relay workers over one outbox: every interleaving of their transactions as a step
  relation, which a drain of one worker refines. No row is lost, a row is marked published only when the
  publisher accepted it, and a failed row comes back after a bounded, growing delay.
\<close>

section \<open>Table facts\<close>

definition outbox_wf :: "outbox \<Rightarrow> bool" where
  "outbox_wf table \<longleftrightarrow> dict_wf table \<and> (\<forall>i row. dget table i = Some row \<longrightarrow> ob_id row = i \<and> row_allowed row)"

text \<open>What never changes of a row.\<close>

definition same_message :: "outbox_row \<Rightarrow> outbox_row \<Rightarrow> bool" where
  "same_message row row' \<longleftrightarrow> ob_id row' = ob_id row \<and> ob_subject row' = ob_subject row \<and> ob_payload row' = ob_payload row
     \<and> ob_headers row' = ob_headers row \<and> ob_occurred_at row' = ob_occurred_at row"

definition advances :: "outbox_row \<Rightarrow> outbox_row \<Rightarrow> bool" where
  "advances row row' \<longleftrightarrow> same_message row row' \<and> (ob_published_at row \<noteq> None \<longrightarrow> ob_published_at row' = ob_published_at row)"

definition keeps :: "outbox \<Rightarrow> outbox \<Rightarrow> bool" where
  "keeps table table' \<longleftrightarrow> (\<forall>i row. dget table i = Some row \<longrightarrow> (\<exists>row'. dget table' i = Some row' \<and> advances row row'))"

lemma same_message_refl [simp]: "same_message row row"
  by (simp add: same_message_def)

lemma advances_refl [simp]: "advances row row"
  by (simp add: advances_def)

lemma advances_trans: "advances a b \<Longrightarrow> advances b c \<Longrightarrow> advances a c"
  by (auto simp: advances_def same_message_def)

lemma keeps_refl [simp]: "keeps table table"
  by (simp add: keeps_def)

lemma keeps_trans: "keeps t t' \<Longrightarrow> keeps t' t'' \<Longrightarrow> keeps t t''"
  unfolding keeps_def using advances_trans by blast

lemma write_row_Inr: "write_row row table = Inr table' \<longleftrightarrow> row_allowed row \<and> table' = dput (ob_id row) row table"
  by (auto simp: write_row_def)

lemma outbox_wf_put:
  "outbox_wf table \<Longrightarrow> row_allowed row \<Longrightarrow> outbox_wf (dput (ob_id row) row table)"
  by (auto simp: outbox_wf_def dict_simps)

text \<open>An update of an unpublished row.\<close>

lemma update_unpublished_Inr:
  assumes wf: "outbox_wf table" and run: "update_unpublished i f table = Inr table'"
    and f: "\<And>row. same_message row (f row)"
  shows "outbox_wf table' \<and> keeps table table' \<and>
    (\<forall>k row'. dget table' k = Some row' \<longrightarrow> dget table k = Some row' \<or>
       k = i \<and> (\<exists>row. dget table i = Some row \<and> ob_published_at row = None \<and> row' = f row))"
proof (cases "dget table i")
  case None
  with wf run show ?thesis by (simp add: update_unpublished_def)
next
  case (Some row)
  show ?thesis
  proof (cases "ob_published_at row")
    case None
    have id: "ob_id (f row) = i" using f [of row] wf Some by (auto simp: same_message_def outbox_wf_def)
    have "row_allowed (f row)" "table' = dput i (f row) table"
      using run Some None id by (simp_all add: update_unpublished_def write_row_Inr)
    with wf id f Some None outbox_wf_put [of table "f row"] show ?thesis
      by (auto simp: keeps_def advances_def dict_simps)
  next
    case (Some t)
    with wf run \<open>dget table i = Some row\<close> show ?thesis by (simp add: update_unpublished_def)
  qed
qed

lemma claimed_rows:
  assumes wf: "outbox_wf table" and rows: "\<forall>row\<in>set rows. dget table (ob_id row) = Some row \<and> ob_published_at row = None"
    and "distinct (map ob_id rows)"
  shows "outbox_wf (foldl (\<lambda>t row. dput (ob_id row) row t) table (map (leased u) rows)) \<and>
    (\<forall>i. dget (foldl (\<lambda>t row. dput (ob_id row) row t) table (map (leased u) rows)) i =
       (if i \<in> ob_id ` set rows then map_option (leased u) (dget table i) else dget table i))"
  using assms
proof (induction rows rule: rev_induct)
  case (snoc row rows)
  let ?t = "foldl (\<lambda>t row. dput (ob_id row) row t) table (map (leased u) rows)"
  have row: "row_allowed (leased u row)" "ob_id (leased u row) = ob_id row"
    using snoc.prems(1,2) unfolding outbox_wf_def by (fastforce simp: row_allowed_def leased_def)+
  have IH: "outbox_wf ?t" "\<forall>i. dget ?t i = (if i \<in> ob_id ` set rows then map_option (leased u) (dget table i) else dget table i)"
    using snoc.IH [OF snoc.prems(1)] snoc.prems(2,3) unfolding set_append ball_Un map_append distinct_append by blast+
  have "outbox_wf (dput (ob_id row) (leased u row) ?t)" using outbox_wf_put [OF IH(1) row(1)] row(2) by simp
  moreover have "dget (dput (ob_id row) (leased u row) ?t) i = (if i \<in> ob_id ` set (rows @ [row])
      then map_option (leased u) (dget table i) else dget table i)" for i
    using IH(2) snoc.prems(2) by (cases "i = ob_id row") (simp_all add: dget_dput)
  ultimately show ?case by (simp add: row(2))
qed simp

lemma pending_rows:
  assumes "outbox_wf table"
  shows "set (pending locked now table) = {row. dget table (ob_id row) = Some row \<and> ob_published_at row = None \<and>
      ob_available_at row \<le> now \<and> ob_id row \<notin> set locked}"
    and "distinct (map ob_id (pending locked now table))"
proof -
  have wf: "dict_wf table" "\<forall>i row. dget table i = Some row \<longrightarrow> ob_id row = i" using assms by (auto simp: outbox_wf_def)
  have vals: "row \<in> set (dvalues table) \<longleftrightarrow> dget table (ob_id row) = Some row" for row
  proof
    assume "row \<in> set (dvalues table)"
    then obtain i where "(i, row) \<in> set table" by auto
    then have "dget table i = Some row" using wf(1) by simp
    then show "dget table (ob_id row) = Some row" using wf(2) by auto
  next
    assume "dget table (ob_id row) = Some row"
    then show "row \<in> set (dvalues table)" by (auto dest: map_of_SomeD intro: rev_image_eqI)
  qed
  show "set (pending locked now table) = {row. dget table (ob_id row) = Some row \<and> ob_published_at row = None \<and>
      ob_available_at row \<le> now \<and> ob_id row \<notin> set locked}"
    using vals by (auto simp: pending_def)
  have "map ob_id (dvalues table) = dkeys table"
    using wf by (auto simp: map_of_eq_Some_iff)
  then have ids: "distinct (map ob_id (dvalues table))" using wf(1) by metis
  have "mset (map ob_id (pending locked now table)) =
      mset (map ob_id (filter (\<lambda>row. ob_published_at row = None \<and> ob_available_at row \<le> now \<and> ob_id row \<notin> set locked) (dvalues table)))"
    by (simp add: pending_def del: map_map)
  then show "distinct (map ob_id (pending locked now table))"
    using ids distinct_map_filter mset_eq_imp_distinct_iff by blast
qed

lemma claim_pending_Inr:
  assumes wf: "outbox_wf table" and run: "claim_pending locked limit now u table = Inr (events, table')"
  shows "outbox_wf table' \<and> keeps table table' \<and>
    (\<forall>row\<in>set events. dget table' (ob_id row) = Some row \<and> ob_published_at row = None \<and> ob_available_at row = u) \<and>
    (\<forall>i row. dget table' i = Some row \<longrightarrow> (\<exists>row0. dget table i = Some row0 \<and> ob_published_at row = ob_published_at row0))"
proof -
  let ?rows = "take (nat limit) (pending locked now table)"
  have events: "events = map (leased u) ?rows" and table': "table' = foldl (\<lambda>t row. dput (ob_id row) row t) table events"
    using run by (auto simp: claim_pending_def Let_def split: if_splits)
  have rows: "\<forall>row\<in>set ?rows. dget table (ob_id row) = Some row \<and> ob_published_at row = None"
  proof
    fix row
    assume "row \<in> set ?rows"
    then have "row \<in> set (pending locked now table)" by (rule in_set_takeD)
    then show "dget table (ob_id row) = Some row \<and> ob_published_at row = None" unfolding pending_rows(1) [OF wf] by blast
  qed
  have "distinct (map ob_id ?rows)" using pending_rows(2) [OF wf, of locked now] by (metis distinct_take take_map)
  note claimed = claimed_rows [OF wf rows this, of u, folded events, folded table']
  then have wf': "outbox_wf table'" by (rule conjunct1)
  have view: "dget table' i = (if i \<in> ob_id ` set ?rows then map_option (leased u) (dget table i) else dget table i)" for i
    by (rule claimed [THEN conjunct2, THEN spec])
  have "keeps table table'"
    unfolding keeps_def view by (auto simp: advances_def same_message_def leased_def)
  moreover have "dget table' (ob_id row) = Some row \<and> ob_published_at row = None \<and> ob_available_at row = u"
    if "row \<in> set events" for row
  proof -
    from that obtain row0 where row0: "row0 \<in> set ?rows" "row = leased u row0" by (auto simp: events)
    then have "dget table (ob_id row0) = Some row0" "ob_published_at row0 = None" using rows by blast+
    with row0 view [of "ob_id row0"] show ?thesis by (auto simp: leased_def)
  qed
  moreover have "\<exists>row0. dget table i = Some row0 \<and> ob_published_at row = ob_published_at row0"
    if "dget table' i = Some row" for i row
    using that unfolding view by (auto simp: leased_def split: if_splits)
  ultimately show ?thesis using wf' by blast
qed

section \<open>Workers\<close>

record relay_system =
  sy_table :: outbox
  sy_workers :: "nat \<Rightarrow> relay_worker"
  sy_accepted :: "uuid list"

text \<open>
  Other transactions add rows; any worker takes its next step, with any configuration, clock and
  publisher; and a worker is lost at any point, which also covers a failed transaction.
\<close>

inductive relay_step :: "relay_system \<Rightarrow> relay_system \<Rightarrow> bool" where
  enqueues: "enqueue i now identity subject payload headers occurred available (sy_table s) = Inr (row, table) \<Longrightarrow>
    relay_step s (s \<lparr> sy_table := table \<rparr>)"
| works: "worker_step r w locked (sy_workers s k) \<lparr> rs_table = sy_table s, rs_accepted = sy_accepted s, rs_tick = tick \<rparr> = (p, s') \<Longrightarrow>
    relay_step s \<lparr> sy_table = rs_table s', sy_workers = (sy_workers s)(k := p), sy_accepted = rs_accepted s' \<rparr>"
| crash: "relay_step s (s \<lparr> sy_workers := (sy_workers s)(k := Idle) \<rparr>)"

definition no_rows :: relay_system where
  "no_rows = \<lparr> sy_table = [], sy_workers = (\<lambda>k. Idle), sy_accepted = [] \<rparr>"

text \<open>A published row was accepted, and so was the one a worker is about to mark.\<close>

definition system_ok :: "relay_system \<Rightarrow> bool" where
  "system_ok s \<longleftrightarrow> outbox_wf (sy_table s) \<and>
     (\<forall>i row. dget (sy_table s) i = Some row \<longrightarrow> ob_published_at row \<noteq> None \<longrightarrow> i \<in> set (sy_accepted s)) \<and>
     (\<forall>k event events. sy_workers s k = Marking event events \<longrightarrow> ob_id event \<in> set (sy_accepted s))"

lemma system_ok_no_rows: "system_ok no_rows"
  by (simp add: system_ok_def no_rows_def outbox_wf_def)

lemma enqueue_Inr:
  assumes "outbox_wf table" "enqueue i now identity subject payload headers occurred available table = Inr (row, table')"
  shows "outbox_wf table'" "keeps table table'" "table' = dput i row table" "ob_published_at row = None"
    "dget table i = None" "ob_subject row = subject" "ob_payload row = payload"
proof -
  have new: "dget table i = None" "table' = dput (ob_id row) row table" "ob_id row = i" "row_allowed row"
    "ob_published_at row = None" "ob_subject row = subject" "ob_payload row = payload"
    using assms(2) by (auto simp: enqueue_def Let_def bind_result_Inr write_row_Inr split: prod.splits if_splits)
  show "outbox_wf table'" using outbox_wf_put [OF assms(1) new(4)] new(2) by simp
  show "keeps table table'" using new by (auto simp: keeps_def dict_simps)
qed (use assms(2) in \<open>auto simp: enqueue_def Let_def bind_result_Inr write_row_Inr split: prod.splits if_splits\<close>)

text \<open>What a step of a worker does to the table and to the accepted rows.\<close>

definition acceptance_logged :: "outbox \<Rightarrow> uuid list \<Rightarrow> bool" where
  "acceptance_logged table accepted \<longleftrightarrow>
     (\<forall>i row. dget table i = Some row \<longrightarrow> ob_published_at row \<noteq> None \<longrightarrow> i \<in> set accepted)"

lemma worker_step_ok:
  assumes "worker_step r w locked p s = (p', s')" and wf: "outbox_wf (rs_table s)"
    and acc: "acceptance_logged (rs_table s) (rs_accepted s)"
    and p: "\<And>event events. p = Marking event events \<Longrightarrow> ob_id event \<in> set (rs_accepted s)"
  shows "outbox_wf (rs_table s') \<and> keeps (rs_table s) (rs_table s') \<and> acceptance_logged (rs_table s') (rs_accepted s') \<and>
    set (rs_accepted s) \<subseteq> set (rs_accepted s') \<and>
    (\<forall>event events. p' = Marking event events \<longrightarrow> ob_id event \<in> set (rs_accepted s'))"
  using assms(1)
proof (cases p)
  case Idle
  with assms(1) consider "rs_table s' = rs_table s" "rs_accepted s' = rs_accepted s" "p' = Idle"
    | events u where "claim_pending locked (rl_batch_size r) (rw_clock w (rs_tick s)) u (rs_table s) = Inr (events, rs_table s')"
        "rs_accepted s' = rs_accepted s" "p' = Delivering events"
    by (auto simp: Let_def split: sum.splits prod.splits)
  then show ?thesis
  proof cases
    case 2
    from claim_pending_Inr [OF wf 2(1)] acc have "acceptance_logged (rs_table s') (rs_accepted s)"
      unfolding acceptance_logged_def by metis
    with claim_pending_Inr [OF wf 2(1)] 2 show ?thesis by simp
  qed (use wf acc in simp_all)
next
  case (Marking event events)
  note step = assms(1) [unfolded Marking]
  show ?thesis
  proof (cases "mark_published (ob_id event) (rw_clock w (rs_tick s)) (rs_table s)")
    case (Inr table)
    from update_unpublished_Inr [OF wf Inr [unfolded mark_published_def]] acc p [OF Marking]
    have "outbox_wf table \<and> keeps (rs_table s) table \<and> acceptance_logged table (rs_accepted s)"
      unfolding acceptance_logged_def by (fastforce simp: same_message_def)
    with step Inr show ?thesis by (auto simp: Let_def)
  qed (use step wf acc in \<open>auto simp: Let_def\<close>)
next
  case (Recording event err events)
  note step = assms(1) [unfolded Recording]
  show ?thesis
  proof (cases "record_failure (ob_id event) (take 2000 err) (rw_clock w (rs_tick s) + backoff r (ob_attempts event)) (rs_table s)")
    case (Inr table)
    from update_unpublished_Inr [OF wf Inr [unfolded record_failure_def]] acc
    have "outbox_wf table \<and> keeps (rs_table s) table \<and> acceptance_logged table (rs_accepted s)"
      unfolding acceptance_logged_def by (fastforce simp: same_message_def)
    with step Inr show ?thesis by (auto simp: Let_def)
  qed (use step wf acc in \<open>auto simp: Let_def\<close>)
next
  case (Delivering rows)
  with assms(1) wf acc show ?thesis
    by (cases rows) (auto simp: Let_def acceptance_logged_def split: sum.splits publish_outcome.splits)
qed

lemma relay_step_ok:
  assumes "relay_step s s'" "system_ok s"
  shows "system_ok s' \<and> keeps (sy_table s) (sy_table s')"
  using assms(1)
proof (cases rule: relay_step.cases)
  case (enqueues i now identity subject payload headers occurred available row table)
  have "outbox_wf (sy_table s)" using assms(2) by (simp add: system_ok_def)
  from enqueue_Inr [OF this enqueues(2)] assms(2) show ?thesis by (auto simp: enqueues system_ok_def dict_simps)
next
  case (works r w locked k tick p s1)
  have "outbox_wf (sy_table s)" "acceptance_logged (sy_table s) (sy_accepted s)"
    "\<And>event events. sy_workers s k = Marking event events \<Longrightarrow> ob_id event \<in> set (sy_accepted s)"
    using assms(2) unfolding system_ok_def acceptance_logged_def by blast+
  from worker_step_ok [OF works(2)] this
  have "outbox_wf (rs_table s1)" "keeps (sy_table s) (rs_table s1)" "acceptance_logged (rs_table s1) (rs_accepted s1)"
    "set (sy_accepted s) \<subseteq> set (rs_accepted s1)" "\<forall>event events. p = Marking event events \<longrightarrow> ob_id event \<in> set (rs_accepted s1)"
    by simp_all
  moreover have "ob_id event \<in> set (rs_accepted s1)" if "((sy_workers s)(k := p)) j = Marking event events" for j event events
  proof (cases "j = k")
    case False
    with that have "ob_id event \<in> set (sy_accepted s)" using assms(2) unfolding system_ok_def by (metis fun_upd_other)
    then show ?thesis using calculation(4) by blast
  qed (use calculation(5) that in simp)
  ultimately show ?thesis unfolding works(1) system_ok_def acceptance_logged_def by simp
next
  case (crash k)
  with assms(2) show ?thesis by (auto simp: system_ok_def)
qed

lemma relay_steps_ok:
  "relay_step\<^sup>*\<^sup>* s s' \<Longrightarrow> system_ok s \<Longrightarrow> system_ok s' \<and> keeps (sy_table s) (sy_table s')"
proof (induction rule: rtranclp_induct)
  case (step y z)
  then show ?case using relay_step_ok [OF step(2)] keeps_trans by blast
qed simp

section \<open>A drain refines the steps of its worker\<close>

definition shows_state :: "relay_system \<Rightarrow> relay_state \<Rightarrow> bool" where
  "shows_state x s \<longleftrightarrow> sy_table x = rs_table s \<and> sy_accepted x = rs_accepted s"

text \<open>The steps of one worker that nobody interrupts.\<close>

inductive alone :: "relay \<Rightarrow> relay_world \<Rightarrow> uuid list \<Rightarrow> relay_worker \<times> relay_state \<Rightarrow> relay_worker \<times> relay_state \<Rightarrow> bool"
  for r w locked where
  "alone r w locked (p, s) (worker_step r w locked p s)"

lemma alone_relay_step:
  assumes "(alone r w locked)\<^sup>*\<^sup>* a b" "shows_state x (snd a)" "sy_workers x k = fst a"
  shows "\<exists>x'. relay_step\<^sup>*\<^sup>* x x' \<and> shows_state x' (snd b) \<and> sy_workers x' k = fst b"
  using assms
proof (induction rule: rtranclp_induct)
  case (step b c)
  then obtain y where y: "relay_step\<^sup>*\<^sup>* x y" "shows_state y (snd b)" "sy_workers y k = fst b" by blast
  obtain p s where b: "b = (p, s)" by (cases b)
  obtain q s' where c: "c = (q, s')" by (cases c)
  have "worker_step r w locked (sy_workers y k) \<lparr> rs_table = sy_table y, rs_accepted = sy_accepted y, rs_tick = rs_tick s \<rparr> = (q, s')"
  proof -
    have "\<lparr> rs_table = sy_table y, rs_accepted = sy_accepted y, rs_tick = rs_tick s \<rparr> = s"
      using y(2) by (simp add: b shows_state_def)
    moreover have "worker_step r w locked p s = (q, s')" using step(2) by (auto simp: b c elim: alone.cases)
    ultimately show ?thesis using y(3) by (simp add: b)
  qed
  from rtranclp.rtrancl_into_rtrancl [OF y(1) works [OF this]] show ?case
    by (intro exI [of _ "\<lparr> sy_table = rs_table s', sy_workers = (sy_workers y)(k := q), sy_accepted = rs_accepted s' \<rparr>"])
      (simp add: c shows_state_def)
qed blast

lemma relay_event_alone:
  assumes "relay_event r w event s = (u, s')"
  shows "(alone r w locked)\<^sup>*\<^sup>* (Delivering (event # events), s) (if is_ok u then Delivering events else Idle, s')"
proof -
  let ?a = "(Delivering (event # events), s)"
  obtain p1 s1 where first: "worker_step r w locked (Delivering (event # events)) s = (p1, s1)" by (metis surj_pair)
  have one: "alone r w locked ?a (p1, s1)" using alone.intros [of r w locked] first by metis
  have two: "(alone r w locked)\<^sup>*\<^sup>* ?a (worker_step r w locked p1 s1)"
    using one alone.intros [of r w locked p1 s1] by (meson r_into_rtranclp rtranclp.rtrancl_into_rtrancl)
  show ?thesis
  proof (cases "p1 = Idle")
    case True
    then have "u = Inl CancelledError \<and> s' = s1"
      using assms first by (auto simp: relay_event_def Let_def split: sum.splits publish_outcome.splits)
    with one True show ?thesis by auto
  next
    case False
    then have "worker_step r w locked p1 s1 = (if is_ok u then Delivering events else Idle, s')"
      using assms first
      by (auto simp: relay_event_def fail_event_def accept_event_def Let_def is_ok_def
          split: sum.splits publish_outcome.splits prod.splits)
    with two show ?thesis by simp
  qed
qed

lemma relay_events_alone:
  "relay_events r w events published s = (u, s') \<Longrightarrow> (alone r w locked)\<^sup>*\<^sup>* (Delivering events, s) (Idle, s')"
proof (induction events arbitrary: s published)
  case Nil
  then show ?case using alone.intros [of r w locked "Delivering []" s] by auto
next
  case (Cons event events)
  obtain v s1 where v: "relay_event r w event s = (v, s1)" by (cases "relay_event r w event s")
  note first = relay_event_alone [OF v, of locked events]
  show ?case
  proof (cases v)
    case (Inl e)
    with first Cons.prems v show ?thesis by simp
  next
    case (Inr sent)
    with Cons.prems have "relay_events r w events (if sent then Suc published else published) s1 = (u, s')" by (simp add: v)
    from Cons.IH [OF this] first Inr show ?thesis by simp
  qed
qed

text \<open>C27: A drain by one worker, whatever the publisher, the clock and the database do to it, is a sequence
  of steps of the system that ends with that worker holding no rows.\<close>

theorem drain_refines_steps:
  assumes "shows_state x s" "sy_workers x k = Idle" "drain_once r w locked s = (u, s')"
  shows "\<exists>x'. relay_step\<^sup>*\<^sup>* x x' \<and> shows_state x' s' \<and> sy_workers x' k = Idle"
proof -
  obtain p1 s1 where first: "worker_step r w locked Idle s = (p1, s1)" by (metis surj_pair)
  then have one: "alone r w locked (Idle, s) (p1, s1)" using alone.intros [of r w locked] by metis
  have "(alone r w locked)\<^sup>*\<^sup>* (p1, s1) (Idle, s')"
  proof (cases "claim_pending locked (rl_batch_size r) (rw_clock w (rs_tick s)) (rw_clock w (rs_tick s) + rl_lease r) (rs_table s)")
    case (Inl e)
    with assms(3) first show ?thesis by (auto simp: drain_once_def Let_def)
  next
    case (Inr claimed)
    obtain events table where claimed: "claimed = (events, table)" by (cases claimed)
    with assms(3) first Inr have "p1 = Delivering events" "relay_events r w events 0 s1 = (u, s')"
      by (auto simp: drain_once_def Let_def)
    then show ?thesis by (simp add: relay_events_alone)
  qed
  with one have "(alone r w locked)\<^sup>*\<^sup>* (Idle, s) (Idle, s')" by simp
  from alone_relay_step [OF this, of x k] assms(1,2) show ?thesis by simp
qed

section \<open>Nothing is lost\<close>

text \<open>
  Conditions under which a drain succeeds: positive limits, payloads that decode, a publisher that accepts
  and a clock that is not behind the rows.
\<close>

definition favourable :: "relay \<Rightarrow> relay_world \<Rightarrow> outbox \<Rightarrow> bool" where
  "favourable r w table \<longleftrightarrow> 0 < rl_batch_size r \<and> 0 < rl_lease r \<and>
     (\<forall>n subject e. rw_publish w n subject e = Accepts) \<and>
     (\<forall>i row. dget table i = Some row \<longrightarrow> is_ok (rw_decode w (ob_payload row)) \<and> (\<forall>n. ob_occurred_at row \<le> rw_clock w n))"

lemma relay_events_favourable:
  assumes "\<forall>n subject e. rw_publish w n subject e = Accepts" "distinct (map ob_id events)"
    and "\<forall>row\<in>set events. dget (rs_table s) (ob_id row) = Some row \<and> ob_published_at row = None \<and> 0 \<le> ob_attempts row \<and>
      is_ok (rw_decode w (ob_payload row)) \<and> (\<forall>n. ob_occurred_at row \<le> rw_clock w n)"
  shows "\<exists>m s'. relay_events r w events published s = (Inr m, s') \<and> set (rs_accepted s') = set (rs_accepted s) \<union> ob_id ` set events \<and>
    (\<forall>i. i \<notin> ob_id ` set events \<longrightarrow> dget (rs_table s') i = dget (rs_table s) i) \<and>
    (\<forall>row\<in>set events. \<exists>row'. dget (rs_table s') (ob_id row) = Some row' \<and> ob_published_at row' \<noteq> None)"
  using assms(2,3)
proof (induction events arbitrary: s published)
  case (Cons event events)
  then obtain envelope where envelope: "rw_decode w (ob_payload event) = Inr envelope" by (auto simp: is_ok_iff)
  define t where "t = rw_clock w (Suc (rs_tick s))"
  define row' where "row' = event \<lparr> ob_published_at := Some t, ob_last_error := None \<rparr>"
  have marked: "mark_published (ob_id event) t (rs_table s) = Inr (dput (ob_id event) row' (rs_table s))"
    using Cons.prems(2) by (simp add: mark_published_def update_unpublished_def write_row_def row_allowed_def row'_def t_def)
  define s1 where "s1 = \<lparr> rs_table = dput (ob_id event) row' (rs_table s), rs_accepted = rs_accepted s @ [ob_id event],
     rs_tick = Suc (Suc (rs_tick s)) \<rparr>"
  have event: "relay_event r w event s = (Inr True, s1)"
    using marked assms(1) unfolding relay_event_def accept_event_def Let_def envelope
    by (simp add: s1_def t_def [symmetric])
  have "\<forall>row\<in>set events. ob_id row \<noteq> ob_id event" using Cons.prems(1) by (auto simp: image_iff)
  then have "\<forall>row\<in>set events. dget (rs_table s1) (ob_id row) = Some row \<and> ob_published_at row = None \<and> 0 \<le> ob_attempts row \<and>
      is_ok (rw_decode w (ob_payload row)) \<and> (\<forall>n. ob_occurred_at row \<le> rw_clock w n)"
    using Cons.prems(2) by (simp add: s1_def dget_dput)
  then obtain m s' where IH: "relay_events r w events (Suc published) s1 = (Inr m, s')"
    "set (rs_accepted s') = set (rs_accepted s1) \<union> ob_id ` set events"
    "\<forall>i. i \<notin> ob_id ` set events \<longrightarrow> dget (rs_table s') i = dget (rs_table s1) i"
    "\<forall>row\<in>set events. \<exists>row'. dget (rs_table s') (ob_id row) = Some row' \<and> ob_published_at row' \<noteq> None"
    using Cons.IH [of s1 "Suc published"] Cons.prems(1) by auto
  have "dget (rs_table s') (ob_id event) = Some row'" using IH(3) Cons.prems(1) by (simp add: s1_def dget_dput)
  then show ?case using IH event by (simp add: s1_def dget_dput row'_def)
qed simp

lemma drain_favourable:
  assumes wf: "outbox_wf (rs_table s)" and world: "favourable r w (rs_table s)"
    and turn: "row \<in> set (take (nat (rl_batch_size r)) (pending locked (rw_clock w (rs_tick s)) (rs_table s)))"
  shows "\<exists>m s'. drain_once r w locked s = (Inr m, s') \<and> ob_id row \<in> set (rs_accepted s') \<and>
    (\<exists>row'. dget (rs_table s') (ob_id row) = Some row' \<and> ob_published_at row' \<noteq> None)"
proof -
  let ?now = "rw_clock w (rs_tick s)"
  let ?u = "?now + rl_lease r"
  define events where "events = map (leased ?u) (take (nat (rl_batch_size r)) (pending locked ?now (rs_table s)))"
  define table where "table = foldl (\<lambda>t row. dput (ob_id row) row t) (rs_table s) events"
  have claim: "claim_pending locked (rl_batch_size r) ?now ?u (rs_table s) = Inr (events, table)"
    using world by (simp add: claim_pending_def events_def table_def Let_def favourable_def)
  note claimed = claim_pending_Inr [OF wf claim]
  have "map ob_id events = take (nat (rl_batch_size r)) (map ob_id (pending locked ?now (rs_table s)))"
    by (simp add: events_def leased_def take_map comp_def)
  then have ids: "distinct (map ob_id events)" using pending_rows(2) [OF wf] distinct_take by metis
  have "is_ok (rw_decode w (ob_payload e)) \<and> (\<forall>n. ob_occurred_at e \<le> rw_clock w n) \<and> 0 \<le> ob_attempts e" if e: "e \<in> set events" for e
  proof -
    obtain row0 where row0: "row0 \<in> set (take (nat (rl_batch_size r)) (pending locked ?now (rs_table s)))" "e = leased ?u row0"
      using e by (auto simp: events_def)
    from in_set_takeD [OF this(1)] have "dget (rs_table s) (ob_id row0) = Some row0" using pending_rows(1) [OF wf] by blast
    moreover from this have "0 \<le> ob_attempts row0" using wf by (auto simp: outbox_wf_def row_allowed_def)
    ultimately show ?thesis using world row0(2) by (auto simp: favourable_def leased_def)
  qed
  then have rows: "\<forall>e\<in>set events. dget table (ob_id e) = Some e \<and> ob_published_at e = None \<and> 0 \<le> ob_attempts e \<and>
      is_ok (rw_decode w (ob_payload e)) \<and> (\<forall>n. ob_occurred_at e \<le> rw_clock w n)"
    using claimed by blast
  let ?s1 = "s \<lparr> rs_tick := Suc (rs_tick s), rs_table := table \<rparr>"
  have accepts: "\<forall>n subject e. rw_publish w n subject e = Accepts" using world by (simp add: favourable_def)
  have "\<exists>m s'. relay_events r w events 0 ?s1 = (Inr m, s') \<and> set (rs_accepted s') = set (rs_accepted ?s1) \<union> ob_id ` set events \<and>
      (\<forall>e\<in>set events. \<exists>row'. dget (rs_table s') (ob_id e) = Some row' \<and> ob_published_at row' \<noteq> None)"
    using relay_events_favourable [OF accepts ids, of ?s1 r 0] rows by auto
  moreover have "leased ?u row \<in> set events" "ob_id (leased ?u row) = ob_id row" using turn by (auto simp: events_def leased_def)
  ultimately show ?thesis
    by (simp add: drain_once_def Let_def claim) (metis UnCI image_eqI)
qed

text \<open>C26: With any number of relay workers over one table, every interleaving of their transactions and
  publications, any clocks, publishers and configurations, and any crashes, no message is lost: (1) every row stays in the
  table with its message; (2) a row is published only if the publisher had accepted it, and stays so; (3)
  every other row is offered to the next claim from the instant it becomes available, and as soon as it is among
  the first rows of the batch, a drain under favourable conditions (payloads that decode, a publisher that
  accepts, a clock not behind the rows) publishes it.\<close>

theorem outbox_at_least_once:
  assumes "relay_step\<^sup>*\<^sup>* no_rows s" "relay_step\<^sup>*\<^sup>* s s'" "dget (sy_table s) i = Some row"
  shows "\<exists>row'. dget (sy_table s') i = Some row' \<and> advances row row' \<and>
    (if ob_published_at row' \<noteq> None then i \<in> set (sy_accepted s')
     else (\<forall>now. ob_available_at row' \<le> now \<longrightarrow> row' \<in> set (pending [] now (sy_table s'))) \<and>
       (\<forall>r w tick. favourable r w (sy_table s') \<and>
          row' \<in> set (take (nat (rl_batch_size r)) (pending [] (rw_clock w tick) (sy_table s'))) \<longrightarrow>
          (\<exists>m s''. drain_once r w [] \<lparr> rs_table = sy_table s', rs_accepted = sy_accepted s', rs_tick = tick \<rparr> = (Inr m, s'') \<and>
             i \<in> set (rs_accepted s'') \<and> (\<exists>row''. dget (rs_table s'') i = Some row'' \<and> ob_published_at row'' \<noteq> None))))"
proof -
  have "system_ok s" using relay_steps_ok [OF assms(1) system_ok_no_rows] by blast
  then have ok: "system_ok s'" and keep: "keeps (sy_table s) (sy_table s')" using relay_steps_ok [OF assms(2)] by blast+
  then obtain row' where row': "dget (sy_table s') i = Some row'" "advances row row'"
    using assms(3) unfolding keeps_def by blast
  have id: "ob_id row' = i" and wf: "outbox_wf (sy_table s')" using ok row'(1) by (auto simp: system_ok_def outbox_wf_def)
  have "row' \<in> set (pending [] now (sy_table s'))" if "ob_published_at row' = None" "ob_available_at row' \<le> now" for now
    using that row'(1) id unfolding pending_rows(1) [OF wf] by simp
  moreover have "\<exists>m s''. drain_once r w [] \<lparr> rs_table = sy_table s', rs_accepted = sy_accepted s', rs_tick = tick \<rparr> = (Inr m, s'') \<and>
      i \<in> set (rs_accepted s'') \<and> (\<exists>row''. dget (rs_table s'') i = Some row'' \<and> ob_published_at row'' \<noteq> None)"
    if "favourable r w (sy_table s')" "row' \<in> set (take (nat (rl_batch_size r)) (pending [] (rw_clock w tick) (sy_table s')))"
    for r w tick
    using drain_favourable [of "\<lparr> rs_table = sy_table s', rs_accepted = sy_accepted s', rs_tick = tick \<rparr>" r w row' "[]"]
      wf that id by simp
  moreover have "i \<in> set (sy_accepted s')" if "ob_published_at row' \<noteq> None"
    using ok row'(1) that unfolding system_ok_def by blast
  ultimately show ?thesis using row' by auto
qed

section \<open>Delays\<close>

text \<open>C28: The delay before a failed row is offered again stays between the initial and the maximal backoff,
  never shrinks with further attempts, and doubles with each attempt until the cap.\<close>

theorem backoff_bounds:
  assumes "make_relay r poll_interval = Inr r'" "a \<le> b"
  shows "rl_initial_backoff r \<le> backoff r a \<and> backoff r a \<le> backoff r b \<and> backoff r b \<le> rl_maximum_backoff r \<and>
    (1 \<le> a \<and> a \<le> 20 \<longrightarrow> backoff r (a + 1) = min (2 * backoff r a) (rl_maximum_backoff r))"
proof -
  have pos: "0 < rl_initial_backoff r" "rl_initial_backoff r \<le> rl_maximum_backoff r"
    using assms(1) by (auto simp: make_relay_def split: if_splits)
  define raw where "raw i = rl_initial_backoff r * 2 ^ nat (max 0 (min (i - 1) 20))" for i :: int
  have backoff: "backoff r i = min (raw i) (rl_maximum_backoff r)" for i
    by (simp add: backoff_def raw_def Let_def)
  have "(2::int) ^ nat (max 0 (min (a - 1) 20)) \<le> 2 ^ nat (max 0 (min (b - 1) 20))"
    using assms(2) by (intro power_increasing) auto
  then have "raw a \<le> raw b" using pos(1) by (simp add: raw_def)
  moreover have "rl_initial_backoff r \<le> raw i" for i
    using pos(1) by (simp add: raw_def mult_le_cancel_left1)
  moreover have "raw (a + 1) = 2 * raw a" if "1 \<le> a" "a \<le> 20"
  proof -
    have succ: "nat (max 0 (min (a + 1 - 1) 20)) = Suc (nat (max 0 (min (a - 1) 20)))" using that by auto
    show ?thesis unfolding raw_def succ by simp
  qed
  ultimately show ?thesis using pos unfolding backoff by (auto simp: min_le_iff_disj min_def)
qed

definition demo_relay :: relay where
  "demo_relay = \<lparr> rl_batch_size = 50, rl_lease = seconds 30, rl_initial_backoff = seconds 1, rl_maximum_backoff = minutes 5 \<rparr>"

theorem backoff_bounds_witness:
  "backoff demo_relay 1 = seconds 1 \<and> backoff demo_relay 1 \<le> backoff demo_relay 12 \<and> backoff demo_relay 12 \<le> minutes 5"
proof -
  have relay: "make_relay demo_relay 500000 = Inr demo_relay" by code_simp
  have "(1::int) \<le> 12" by simp
  from backoff_bounds [OF relay this] show ?thesis by (simp add: demo_relay_def) code_simp
qed

definition demo_row :: outbox_row where
  "demo_row = \<lparr> ob_id = 1, ob_aggregate_type = ''watch'', ob_aggregate_id = ''w'', ob_event_type = ''e'', ob_subject = ''s'',
     ob_payload = VNone, ob_headers = VDict [], ob_occurred_at = 0, ob_available_at = 0, ob_published_at = None,
     ob_attempts = 0, ob_last_error = None, ob_created_at = 0 \<rparr>"

definition demo_system :: relay_system where
  "demo_system = \<lparr> sy_table = [(1, demo_row)], sy_workers = (\<lambda>k. Idle), sy_accepted = [] \<rparr>"

lemma demo_system_ok: "system_ok demo_system"
  by (auto simp: system_ok_def outbox_wf_def demo_system_def demo_row_def row_allowed_def split: if_splits)

definition demo_relay_world :: relay_world where
  "demo_relay_world = \<lparr> rw_decode = (\<lambda>p. Inl (ValidationError ''EventEnvelope'')), rw_publish = (\<lambda>n subject e. Accepts),
     rw_clock = (\<lambda>n. int n), rw_error_text = (\<lambda>e. ''error'') \<rparr>"

definition demo_drain :: "nat result \<times> relay_state" where
  "demo_drain = drain_once demo_relay demo_relay_world [] \<lparr> rs_table = [(1, demo_row)], rs_accepted = [], rs_tick = 0 \<rparr>"

theorem drain_refines_steps_witness:
  "\<exists>x. relay_step\<^sup>*\<^sup>* demo_system x \<and> sy_table x = rs_table (snd demo_drain)"
proof -
  obtain u s where run: "demo_drain = (u, s)" by (cases demo_drain)
  have "shows_state demo_system \<lparr> rs_table = [(1, demo_row)], rs_accepted = [], rs_tick = 0 \<rparr>" "sy_workers demo_system 0 = Idle"
    by (simp_all add: shows_state_def demo_system_def)
  from drain_refines_steps [OF this run [unfolded demo_drain_def]] show ?thesis by (auto simp: run shows_state_def)
qed

text \<open>A row is enqueued; one worker claims and publishes it and is lost before it marks the row.\<close>

definition relay_envelope :: event_envelope where
  "relay_envelope = \<lparr> ee_event_id = 1, ee_event_type = ''watch'', ee_schema_version = ''1.0.0'', ee_occurred_at = 0,
     ee_source = ''test'', ee_trace_id = None, ee_correlation_id = None, ee_causation_id = None,
     ee_market_session = None, ee_subject = None, ee_payload = VNone, ee_attributes = [] \<rparr>"

definition accepting_world :: relay_world where
  "accepting_world = \<lparr> rw_decode = (\<lambda>p. Inr relay_envelope), rw_publish = (\<lambda>n subject e. Accepts),
     rw_clock = (\<lambda>n. minutes (int n)), rw_error_text = (\<lambda>e. ''error'') \<rparr>"

definition queued :: relay_system where "queued = no_rows \<lparr> sy_table := [(1, demo_row)] \<rparr>"

definition claimed_row :: outbox_row where
  "claimed_row = demo_row \<lparr> ob_available_at := seconds 30, ob_attempts := 1 \<rparr>"

definition sent_unmarked :: relay_system where
  "sent_unmarked = \<lparr> sy_table = [(1, claimed_row)], sy_workers = (\<lambda>k. Idle)(0 := Marking claimed_row []), sy_accepted = [1] \<rparr>"

lemma sent_unmarked_steps: "relay_step\<^sup>*\<^sup>* no_rows queued" "relay_step\<^sup>*\<^sup>* queued (sent_unmarked \<lparr> sy_workers := (\<lambda>k. Idle) \<rparr>)"
proof -
  have "enqueue 1 0 (''watch'', ''w'', ''e'') ''s'' VNone None None None (sy_table no_rows) = Inr (demo_row, [(1, demo_row)])"
    by code_simp
  from enqueues [of _ _ _ _ _ _ _ _ no_rows, OF this] show "relay_step\<^sup>*\<^sup>* no_rows queued" unfolding queued_def by blast
  have 1: "worker_step demo_relay accepting_world [] Idle \<lparr> rs_table = [(1, demo_row)], rs_accepted = [], rs_tick = 0 \<rparr> =
     (Delivering [claimed_row], \<lparr> rs_table = [(1, claimed_row)], rs_accepted = [], rs_tick = 1 \<rparr>)" by code_simp
  have 2: "worker_step demo_relay accepting_world [] (Delivering [claimed_row]) \<lparr> rs_table = [(1, claimed_row)], rs_accepted = [], rs_tick = 1 \<rparr> =
     (Marking claimed_row [], \<lparr> rs_table = [(1, claimed_row)], rs_accepted = [1], rs_tick = 2 \<rparr>)" by code_simp
  let ?y = "\<lparr> sy_table = [(1, claimed_row)], sy_workers = (\<lambda>k. Idle)(0 := Delivering [claimed_row]), sy_accepted = [] \<rparr>"
  have "relay_step queued ?y"
    using works [of demo_relay accepting_world "[]" queued 0 0] 1 by (simp add: queued_def no_rows_def)
  moreover have "relay_step ?y sent_unmarked"
    using works [of demo_relay accepting_world "[]" ?y 0 1] 2 by (simp add: sent_unmarked_def)
  moreover have "relay_step sent_unmarked (sent_unmarked \<lparr> sy_workers := (\<lambda>k. Idle) \<rparr>)"
    using crash [of sent_unmarked 0] fun_upd_idem [of "\<lambda>k. Idle" "0::nat"] by (simp add: sent_unmarked_def)
  ultimately show "relay_step\<^sup>*\<^sup>* queued (sent_unmarked \<lparr> sy_workers := (\<lambda>k. Idle) \<rparr>)"
    by (meson converse_rtranclp_into_rtranclp r_into_rtranclp)
qed

theorem outbox_at_least_once_witness:
  "\<exists>m s''. drain_once demo_relay accepting_world [] \<lparr> rs_table = [(1, claimed_row)], rs_accepted = [1], rs_tick = 5 \<rparr> = (Inr m, s'') \<and>
     1 \<in> set (rs_accepted s'') \<and> (\<exists>row''. dget (rs_table s'') 1 = Some row'' \<and> ob_published_at row'' \<noteq> None)"
proof -
  let ?s' = "sent_unmarked \<lparr> sy_workers := (\<lambda>k. Idle) \<rparr>"
  have rows: "dget (sy_table queued) 1 = Some demo_row" "dget (sy_table ?s') 1 = Some claimed_row" "ob_published_at claimed_row = None"
    by (simp_all add: queued_def sent_unmarked_def claimed_row_def demo_row_def)
  have "favourable demo_relay accepting_world (sy_table ?s')"
    by (auto simp: favourable_def demo_relay_def accepting_world_def sent_unmarked_def claimed_row_def demo_row_def seconds_def minutes_def split: if_splits)
  moreover have "claimed_row \<in> set (take (nat (rl_batch_size demo_relay)) (pending [] (rw_clock accepting_world 5) (sy_table ?s')))"
    by code_simp
  ultimately show ?thesis
    using outbox_at_least_once [OF sent_unmarked_steps rows(1)] rows(2,3) by (auto simp: sent_unmarked_def)
qed

end
