(* ===== verification/Alert_Contracts.thy ===== *)
theory Alert_Contracts
  imports Watch_Rules
begin

text \<open>
  The data of the alert engines: the LocalAlert contract (app/contracts/market_analysis.py), the policy
  (app/alert_engine/policy.py) and the state an engine keeps (app/alert_engine/engine.py). The text of a
  decimal with its written exponent and the decimal written by the shortest text of a float are given by
  a codec.
\<close>

record alert_codec =
  ac_decimal :: "rat \<Rightarrow> string"
  ac_float :: "rat \<Rightarrow> rat"

section \<open>Texts\<close>

definition hex_digit :: "int \<Rightarrow> char" where
  "hex_digit d = (if d < 10 then char_of (48 + nat d) else char_of (87 + nat d))"

definition hex_text :: "nat \<Rightarrow> int \<Rightarrow> string" where
  "hex_text n u = map (\<lambda>i. hex_digit (u div 16 ^ i mod 16)) (rev [0..<n])"

text \<open>\<open>str(uuid)\<close>.\<close>

definition uuid_text :: "uuid \<Rightarrow> string" where
  "uuid_text u = hex_text 8 (u div 2 ^ 96) @ ''-'' @ hex_text 4 (u div 2 ^ 80) @ ''-'' @ hex_text 4 (u div 2 ^ 64)
     @ ''-'' @ hex_text 4 (u div 2 ^ 48) @ ''-'' @ hex_text 12 u"

definition int_text :: "int \<Rightarrow> string" where
  "int_text n = (if n < 0 then ''-'' else []) @ digit_string (nat \<bar>n\<bar>)"

definition replace_char :: "char \<Rightarrow> char \<Rightarrow> string \<Rightarrow> string" where
  "replace_char old new s = map (\<lambda>c. if c = old then new else c) s"

section \<open>Alerts\<close>

record local_alert =
  al_alert_id :: uuid
  al_symbol :: string
  al_created_at :: instant
  al_severity :: alert_severity
  al_title :: string
  al_message :: string
  al_horizons :: "analysis_horizon list"
  al_component_analysis_ids :: "uuid list"
  al_component_analyses :: "analysis_result list"
  al_metrics :: "named_value list"
  al_score :: rat
  al_reasons :: "string list"
  al_deduplication_key :: string
  al_kind :: alert_kind
  al_expires_at :: "instant option"

definition local_alert_fields :: "local_alert \<Rightarrow> bool" where
  "local_alert_fields a \<longleftrightarrow> identifier_str (al_symbol a) \<and> non_empty_str (al_title a) \<and> non_empty_str (al_message a)
     \<and> al_horizons a \<noteq> [] \<and> al_component_analysis_ids a \<noteq> []
     \<and> (\<forall>m\<in>set (al_metrics a). identifier_str (nv_name m)) \<and> 0 \<le> al_score a \<and> al_score a \<le> 100
     \<and> al_reasons a \<noteq> [] \<and> (\<forall>s\<in>set (al_reasons a). non_empty_str s) \<and> non_empty_str (al_deduplication_key a)"

definition make_local_alert :: "local_alert \<Rightarrow> local_alert result" where
  "make_local_alert a =
     (if \<not> local_alert_fields a then Inl (ValidationError ''LocalAlert'')
      else if uuid_version (al_alert_id a) \<noteq> Some 7 then Inl (ValueError ''alert_id must be a UUIDv7'')
      else if \<not> distinct (al_horizons a) then Inl (ValueError ''horizons must be unique'')
      else if \<not> distinct (al_component_analysis_ids a)
      then Inl (ValueError ''component_analysis_ids must be unique'')
      else if \<not> distinct (map ar_analysis_id (al_component_analyses a))
      then Inl (ValueError ''component_analyses must be unique'')
      else if \<exists>r\<in>set (al_component_analyses a). ar_symbol r \<noteq> al_symbol a
      then Inl (ValueError ''component analyses must belong to the alert symbol'')
      else if \<not> distinct (map nv_name (al_metrics a)) then Inl (ValueError ''alert metrics must be unique by name'')
      else if \<not> opt_all (\<lambda>t. al_created_at a \<le> t) (al_expires_at a)
      then Inl (ValueError ''expires_at must not be before created_at'')
      else Inr (a \<lparr> al_title := strip (al_title a), al_message := strip (al_message a),
                    al_reasons := map strip (al_reasons a),
                    al_deduplication_key := strip (al_deduplication_key a) \<rparr>))"

section \<open>Policy\<close>

record horizon_policy =
  hp_horizon :: analysis_horizon
  hp_weight :: rat
  hp_max_age :: duration

definition make_horizon_policy :: "horizon_policy \<Rightarrow> horizon_policy result" where
  "make_horizon_policy p =
     (if hp_weight p \<le> 0 then Inl (ValueError ''horizon weight must be positive'')
      else if hp_max_age p \<le> 0 then Inl (ValueError ''horizon max_age must be positive'')
      else Inr p)"

definition default_horizons :: "horizon_policy list" where
  "default_horizons =
     [\<lparr> hp_horizon = AH_LONG_TERM, hp_weight = 25 / 100, hp_max_age = days 7 \<rparr>,
      \<lparr> hp_horizon = AH_DILUTION, hp_weight = 20 / 100, hp_max_age = hours 24 \<rparr>,
      \<lparr> hp_horizon = AH_SWING, hp_weight = 30 / 100, hp_max_age = hours 8 \<rparr>,
      \<lparr> hp_horizon = AH_INTRADAY, hp_weight = 25 / 100, hp_max_age = minutes 30 \<rparr>,
      \<lparr> hp_horizon = AH_VOLUME_STRUCTURE, hp_weight = 10 / 100, hp_max_age = days 14 \<rparr>,
      \<lparr> hp_horizon = AH_OPTIONS_GAMMA, hp_weight = 5 / 100, hp_max_age = minutes 60 \<rparr>,
      \<lparr> hp_horizon = AH_NEWS, hp_weight = 10 / 100, hp_max_age = days 7 \<rparr>]"

record alert_policy =
  ap_horizons :: "horizon_policy list"
  ap_required_horizons :: "analysis_horizon list"
  ap_min_fresh_horizons :: int
  ap_watch_threshold :: rat
  ap_action_threshold :: rat
  ap_critical_threshold :: rat
  ap_cooldown :: duration
  ap_alert_ttl :: duration

definition default_alert_policy :: alert_policy where
  "default_alert_policy =
     \<lparr> ap_horizons = default_horizons, ap_required_horizons = [AH_LONG_TERM, AH_SWING, AH_INTRADAY],
       ap_min_fresh_horizons = 3, ap_watch_threshold = 60, ap_action_threshold = 75, ap_critical_threshold = 90,
       ap_cooldown = minutes 15, ap_alert_ttl = minutes 15 \<rparr>"

definition make_alert_policy :: "alert_policy \<Rightarrow> alert_policy result" where
  "make_alert_policy p =
     (let available = map hp_horizon (ap_horizons p) in
      if \<not> distinct available then Inl (ValueError ''horizon policies must be unique'')
      else if set available \<noteq> set analysis_horizon_members
      then Inl (ValueError ''policy must configure all analysis horizons'')
      else if \<not> set (ap_required_horizons p) \<subseteq> set available
      then Inl (ValueError ''required horizons must be configured'')
      else if \<not> (1 \<le> ap_min_fresh_horizons p \<and> ap_min_fresh_horizons p \<le> int (length available))
      then Inl (ValueError ''min_fresh_horizons is out of range'')
      else if \<not> (0 \<le> ap_watch_threshold p \<and> ap_watch_threshold p < ap_action_threshold p
                 \<and> ap_action_threshold p < ap_critical_threshold p)
      then Inl (ValueError ''severity thresholds must be strictly increasing'')
      else if 100 < ap_critical_threshold p then Inl (ValueError ''critical threshold cannot exceed 100'')
      else if ap_cooldown p \<le> 0 \<or> ap_alert_ttl p \<le> 0
      then Inl (ValueError ''cooldown and alert_ttl must be positive'')
      else Inr p)"

text \<open>\<open>for_horizon\<close>: a validated policy configures every horizon.\<close>

definition for_horizon :: "alert_policy \<Rightarrow> analysis_horizon \<Rightarrow> horizon_policy" where
  "for_horizon p h = the (find (\<lambda>item. hp_horizon item = h) (ap_horizons p))"

section \<open>State\<close>

record alert_state =
  ae_latest :: "(string, analyses) dict"
  ae_last_emitted :: "(string \<times> string, instant \<times> alert_severity) dict"
  ae_emitted_keys :: "string list"

definition latest_of :: "'z alert_state_scheme \<Rightarrow> string \<Rightarrow> analyses" where
  "latest_of st symbol = (case dget (ae_latest st) symbol of None \<Rightarrow> [] | Some a \<Rightarrow> a)"

primrec severity_rank :: "alert_severity \<Rightarrow> nat" where
  "severity_rank AS_INFO = 0"
| "severity_rank AS_WATCH = 1"
| "severity_rank AS_ACTION = 2"
| "severity_rank AS_CRITICAL = 3"

section \<open>Lemmas\<close>

lemma severity_rank_le: "severity_rank s \<le> 3"
  by (cases s) simp_all

lemma for_horizon_policy:
  assumes "make_alert_policy p = Inr q" "\<forall>item\<in>set (ap_horizons p). make_horizon_policy item = Inr item"
  shows "hp_horizon (for_horizon p h) = h \<and> 0 < hp_weight (for_horizon p h) \<and> 0 < hp_max_age (for_horizon p h)"
proof -
  have "h \<in> set (map hp_horizon (ap_horizons p))"
    using assms(1) by (cases h) (auto simp: make_alert_policy_def Let_def analysis_horizon_members_def split: if_splits)
  then have "find (\<lambda>item. hp_horizon item = h) (ap_horizons p) \<noteq> None"
    by (auto simp: find_None_iff)
  then obtain item where item: "find (\<lambda>item. hp_horizon item = h) (ap_horizons p) = Some item" by blast
  then have "item \<in> set (ap_horizons p)" "hp_horizon item = h" by (auto simp: find_Some_iff)
  with item assms(2) show ?thesis
    by (auto simp: for_horizon_def make_horizon_policy_def split: if_splits)
qed

lemma make_local_alert_Inr:
  assumes "make_local_alert a = Inr b"
  shows "al_symbol b = al_symbol a" "al_severity b = al_severity a" "al_kind b = al_kind a"
    "al_horizons b = al_horizons a" "al_created_at b = al_created_at a" "al_score b = al_score a"
    "al_component_analyses b = al_component_analyses a" "al_expires_at b = al_expires_at a"
    "al_component_analysis_ids b = al_component_analysis_ids a" "al_metrics b = al_metrics a"
    "al_deduplication_key b = strip (al_deduplication_key a)" "al_title b = strip (al_title a)"
    "al_reasons b = map strip (al_reasons a)"
  using assms by (auto simp: make_local_alert_def split: if_splits)

lemma digits_value_digit_string [simp]: "digits_value (digit_string n) = n"
proof (induction n rule: digit_string.induct)
  case (1 n)
  then show ?case
    by (subst digit_string.simps) (auto simp: digits_value_def code_def)
qed

lemma digit_string_digits: "c \<in> set (digit_string n) \<Longrightarrow> isdigit c"
proof (induction n rule: digit_string.induct)
  case (1 n)
  then show ?case
    by (subst (asm) (2) digit_string.simps) (auto simp: isdigit_def code_def split: if_splits)
qed

lemma digit_string_not_Nil [simp]: "digit_string n \<noteq> []"
  by (subst digit_string.simps) simp

lemma int_text_inj: "0 \<le> m \<Longrightarrow> 0 \<le> n \<Longrightarrow> int_text m = int_text n \<longleftrightarrow> m = n"
proof -
  assume nonneg: "0 \<le> m" "0 \<le> n"
  have "nat m = nat n" if "digit_string (nat m) = digit_string (nat n)"
    using arg_cong [OF that, of digits_value] by simp
  with nonneg show ?thesis by (auto simp: int_text_def eq_nat_nat_iff)
qed

text \<open>In evaluation a continuation is entered only once its argument is known.\<close>

lemma bind_result_case [code_unfold]: "bind_result m f = (case m of Inl e \<Rightarrow> Inl e | Inr x \<Rightarrow> f x)"
  by (cases m) simp_all

text \<open>Evaluation of the decimal texts on integers instead of unary numbers.\<close>

function int_digits :: "int \<Rightarrow> string" where
  "int_digits n =
     (if n < 10 then [char_of (48 + nat n)] else int_digits (n div 10) @ [char_of (48 + nat (n mod 10))])"
  by pat_completeness auto
termination by (relation "measure nat") auto

declare int_digits.simps [simp del]

lemma int_digits_nat: "digit_string n = int_digits (int n)"
proof (induction n rule: digit_string.induct)
  case (1 n)
  show ?case
  proof (cases "n < 10")
    case True
    then show ?thesis by (subst digit_string.simps, subst int_digits.simps) simp
  next
    case False
    with 1 have "digit_string (n div 10) = int_digits (int n div 10)" by (simp add: zdiv_int)
    moreover have "nat (int n mod 10) = n mod 10" by (simp add: nat_mod_distrib)
    ultimately show ?thesis using False by (subst digit_string.simps, subst int_digits.simps) simp
  qed
qed

lemma int_text_code [code]: "int_text n = (if n < 0 then ''-'' else []) @ int_digits \<bar>n\<bar>"
  by (simp add: int_text_def int_digits_nat)

lemma show_fixed_code [code]:
  "show_fixed k x =
     (let c = \<lfloor>\<bar>x\<bar> * 10 ^ k\<rfloor>
      in (if x < 0 then ''-'' else []) @ int_digits (c div 10 ^ k) @ ''.'' @ pad_left k (int_digits (c mod 10 ^ k)))"
proof -
  have "0 \<le> \<lfloor>\<bar>x\<bar> * 10 ^ k\<rfloor>" by simp
  then obtain n where "\<lfloor>\<bar>x\<bar> * 10 ^ k\<rfloor> = int n" using nonneg_int_cases by blast
  then show ?thesis by (simp add: show_fixed_def Let_def int_digits_nat zdiv_int zmod_int)
qed

end
