(* ===== verification/Alert_Engine.thy ===== *)
theory Alert_Engine
  imports Alert_Contracts
begin

text \<open>
  The first alert engine (app/alert_engine/engine.py): the latest analysis per symbol and horizon, the
  weighted consensus, the cooldown and the deduplication window, dilution warnings, and the alerts that
  render a transition of the entry watcher. The operations work on every extension of the state, as the
  later engines are subclasses. The identity \<open>new_uuid7\<close> draws for the alert is an argument.
  \<open>ingest_entry_opportunity\<close> belongs to the opportunity engine's contract and is left out.
\<close>

section \<open>Time and the latest analyses\<close>

definition require_utc :: "py_datetime \<Rightarrow> instant result" where
  "require_utc now =
     (case now of Naive _ \<Rightarrow> Inl (ValueError ''now must be timezone-aware UTC'')
      | Aware t offset \<Rightarrow>
          if offset \<noteq> 0 then Inl (ValueError ''now must be timezone-aware UTC'') else Inr t)"

definition not_future :: "instant \<Rightarrow> string \<Rightarrow> instant \<Rightarrow> instant result" where
  "not_future seen message t = (if t < seen then Inl (ValueError message) else Inr t)"

definition analysis_time :: "analysis_result \<Rightarrow> py_datetime \<Rightarrow> instant result" where
  "analysis_time r now =
     bind_result (require_utc now) (not_future (ar_as_of r) ''analysis as_of cannot be in the future'')"

text \<open>A repeated analysis or one older than the one held is ignored.\<close>

definition ignored :: "'z alert_state_scheme \<Rightarrow> analysis_result \<Rightarrow> bool" where
  "ignored st r \<longleftrightarrow>
     (\<exists>existing\<in>set_option (dget (latest_of st (ar_symbol r)) (ar_horizon r)).
        ar_analysis_id r = ar_analysis_id existing \<or> ar_as_of r < ar_as_of existing)"

definition stored :: "'z alert_state_scheme \<Rightarrow> analysis_result \<Rightarrow> 'z alert_state_scheme" where
  "stored st r =
     st \<lparr> ae_latest := dput (ar_symbol r) (dput (ar_horizon r) r (latest_of st (ar_symbol r))) (ae_latest st) \<rparr>"

definition fresh_values :: "alert_policy \<Rightarrow> 'z alert_state_scheme \<Rightarrow> string \<Rightarrow> instant \<Rightarrow> analyses" where
  "fresh_values policy st symbol now =
     filter (\<lambda>p. ar_verdict (snd p) \<noteq> AV_INSUFFICIENT_DATA \<and>
                 now - ar_as_of (snd p) \<le> hp_max_age (for_horizon policy (fst p)))
       (latest_of st symbol)"

definition latest_view :: "'z alert_state_scheme \<Rightarrow> string \<Rightarrow> analyses" where
  "latest_view st symbol = latest_of st (norm_symbol symbol)"

section \<open>Scores\<close>

definition verdict_strength :: "analysis_result \<Rightarrow> rat" where
  "verdict_strength r =
     (case ar_verdict r of
        AV_FAVORABLE \<Rightarrow> ar_score r
      | AV_WATCH \<Rightarrow> dmul (ar_score r) (8 / 10)
      | AV_CAUTION \<Rightarrow> max (dmul (ar_score r) (5 / 10)) 55
      | AV_AVOID \<Rightarrow> max (ar_score r) 90
      | AV_INSUFFICIENT_DATA \<Rightarrow> 0)"

primrec direction_sign :: "pattern_direction \<Rightarrow> rat" where
  "direction_sign PD_BULLISH = 1"
| "direction_sign PD_BEARISH = - 1"
| "direction_sign PD_NEUTRAL = 0"

definition alert_score :: "rat \<Rightarrow> rat result" where
  "alert_score v = quantize 2 (min 100 (max 0 v))"

definition directional_step ::
  "alert_policy \<Rightarrow> analyses \<Rightarrow> rat \<times> rat \<Rightarrow> analysis_horizon \<Rightarrow> rat \<times> rat" where
  "directional_step policy fresh acc h =
     (case dget fresh h of None \<Rightarrow> acc
      | Some r \<Rightarrow>
          let weight = hp_weight (for_horizon policy h);
              strength = dmul (verdict_strength r) (ar_confidence r)
          in (dadd (fst acc) (dmul (dmul weight strength) (direction_sign (ar_direction r))), dadd (snd acc) weight))"

text \<open>The direction and its score, None for the \<open>(None, ZERO)\<close> of the code.\<close>

definition directional_score :: "alert_policy \<Rightarrow> analyses \<Rightarrow> (string \<times> rat) option result" where
  "directional_score policy fresh =
     (let acc = foldl (directional_step policy fresh) (0, 0) [AH_LONG_TERM, AH_SWING, AH_INTRADAY] in
      if snd acc = 0 then Inr None
      else
        let net = ddiv (fst acc) (snd acc) in
        if net = 0 then Inr None
        else bind_result (alert_score \<bar>net\<bar>) (\<lambda>score.
               Inr (Some (if 0 < net then ''BULLISH'' else ''BEARISH'', score))))"

definition dilution_reason :: "analysis_result option \<Rightarrow> string option" where
  "dilution_reason dilution =
     (case dilution of None \<Rightarrow> Some ''dilution_analysis_unavailable''
      | Some r \<Rightarrow>
          (case ar_verdict r of
             AV_FAVORABLE \<Rightarrow> None
           | AV_WATCH \<Rightarrow> Some ''dilution_watch_warning''
           | AV_CAUTION \<Rightarrow> Some ''dilution_caution_warning''
           | AV_AVOID \<Rightarrow> Some ''dilution_avoid_warning''
           | AV_INSUFFICIENT_DATA \<Rightarrow> Some ''dilution_analysis_unavailable''))"

definition severity_of :: "alert_policy \<Rightarrow> rat \<Rightarrow> alert_severity option" where
  "severity_of policy score =
     (if ap_critical_threshold policy \<le> score then Some AS_CRITICAL
      else if ap_action_threshold policy \<le> score then Some AS_ACTION
      else if ap_watch_threshold policy \<le> score then Some AS_WATCH else None)"

text \<open>\<open>sorted(fresh.items(), key=lambda item: item[0].value)\<close>.\<close>

definition component_text :: "alert_codec \<Rightarrow> analysis_result \<Rightarrow> analysis_horizon \<Rightarrow> string" where
  "component_text c r h = lower (analysis_horizon_value h) @ '':'' @ lower (analysis_verdict_value (ar_verdict r))
     @ '':'' @ ac_decimal c (ar_score r)"

definition component_reasons :: "alert_codec \<Rightarrow> analyses \<Rightarrow> string list" where
  "component_reasons c fresh =
     map (\<lambda>p. component_text c (snd p) (fst p)) (sort_key (\<lambda>p. analysis_horizon_value (fst p)) fresh)"

definition ordered_analyses :: "analyses \<Rightarrow> analysis_result list" where
  "ordered_analyses values =
     concat (map (\<lambda>h. case dget values h of None \<Rightarrow> [] | Some r \<Rightarrow> [r])
       [AH_LONG_TERM, AH_SWING, AH_INTRADAY, AH_DILUTION])"

section \<open>Cooldown and deduplication\<close>

definition cooling ::
  "alert_policy \<Rightarrow> 'z alert_state_scheme \<Rightarrow> string \<times> string \<Rightarrow> alert_severity \<Rightarrow> instant \<Rightarrow> bool" where
  "cooling policy st state_key severity now \<longleftrightarrow>
     (\<exists>previous\<in>set_option (dget (ae_last_emitted st) state_key).
        now - fst previous < ap_cooldown policy \<and> severity_rank severity \<le> severity_rank (snd previous))"

text \<open>
  \<open>int(now.timestamp()) // int(cooldown.total_seconds())\<close>: \<open>int\<close> truncates towards zero. The float of
  \<open>timestamp\<close> has room for every microsecond until well after the year 2200.
\<close>

definition whole_seconds :: "int \<Rightarrow> int" where
  "whole_seconds t = (if 0 \<le> t then t div seconds 1 else - ((- t) div seconds 1))"

definition alert_window :: "alert_policy \<Rightarrow> instant \<Rightarrow> int result" where
  "alert_window policy now =
     (let window_seconds = whole_seconds (ap_cooldown policy) in
      if window_seconds = 0 then Inl ZeroDivisionError else Inr (whole_seconds now div window_seconds))"

definition remember ::
  "string \<Rightarrow> string \<times> string \<Rightarrow> instant \<Rightarrow> alert_severity \<Rightarrow> 'z alert_state_scheme \<Rightarrow> 'z alert_state_scheme" where
  "remember key state_key now severity st =
     st \<lparr> ae_emitted_keys := List.insert key (ae_emitted_keys st),
          ae_last_emitted := dput state_key (now, severity) (ae_last_emitted st) \<rparr>"

definition consensus_key :: "string \<Rightarrow> string \<Rightarrow> alert_severity \<Rightarrow> int \<Rightarrow> string" where
  "consensus_key symbol direction severity window =
     ''alert:v1:'' @ lower symbol @ '':'' @ replace_char CHR '' '' CHR ''-'' (lower direction) @ '':''
     @ lower (alert_severity_value severity) @ '':'' @ int_text window"

definition build_alert ::
  "alert_policy \<Rightarrow> uuid \<Rightarrow> string \<Rightarrow> analyses \<Rightarrow> string \<Rightarrow> alert_severity \<Rightarrow> rat \<Rightarrow> string list \<Rightarrow> instant \<Rightarrow>
   'z alert_state_scheme \<Rightarrow> (local_alert option \<times> 'z alert_state_scheme) result" where
  "build_alert policy aid symbol fresh direction severity score reasons now st =
     (if cooling policy st (symbol, direction) severity now then Inr (None, st)
      else bind_result (alert_window policy now) (\<lambda>window.
        let key = consensus_key symbol direction severity window in
        if key \<in> set (ae_emitted_keys st) then Inr (None, st)
        else
          let ordered = filter (\<lambda>h. dget fresh h \<noteq> None) analysis_horizon_members;
              components = map (\<lambda>h. ar_analysis_id (the (dget fresh h))) ordered
          in bind_result (make_local_alert
               \<lparr> al_alert_id = aid, al_symbol = symbol, al_created_at = now, al_severity = severity,
                 al_title = symbol @ '' '' @ direction @ '' '' @ alert_severity_value severity,
                 al_message = ''weighted score '' @ show_fixed 2 score @ ''; inspect ''
                   @ int_text (int (length components)) @ '' component analyses'',
                 al_horizons = ordered, al_component_analysis_ids = components,
                 al_component_analyses = ordered_analyses fresh, al_metrics = [], al_score = score,
                 al_reasons = fromkeys reasons, al_deduplication_key = key, al_kind = AK_CONSENSUS,
                 al_expires_at = Some (now + ap_alert_ttl policy) \<rparr>)
               (\<lambda>alert. Inr (Some alert, remember key (symbol, direction) now severity st))))"

definition warning_key :: "analysis_result \<Rightarrow> string" where
  "warning_key r = ''sec-warning:v1:'' @ lower (ar_symbol r) @ '':'' @ lower (analysis_verdict_value (ar_verdict r))
     @ '':'' @ ar_context_hash r"

definition warning_text :: "analysis_verdict \<Rightarrow> string option" where
  "warning_text verdict =
     (case verdict of
        AV_WATCH \<Rightarrow> Some ''dilution_watch_warning''
      | AV_CAUTION \<Rightarrow> Some ''dilution_caution_warning''
      | AV_AVOID \<Rightarrow> Some ''dilution_avoid_warning''
      | _ \<Rightarrow> None)"

definition dilution_warning_alert ::
  "alert_policy \<Rightarrow> uuid \<Rightarrow> analysis_result \<Rightarrow> instant \<Rightarrow> 'z alert_state_scheme \<Rightarrow>
   (local_alert option \<times> 'z alert_state_scheme) result" where
  "dilution_warning_alert policy aid r now st =
     (case warning_text (ar_verdict r) of None \<Rightarrow> Inr (None, st)
      | Some warning \<Rightarrow>
          let key = warning_key r in
          if key \<in> set (ae_emitted_keys st) then Inr (None, st)
          else bind_result (make_local_alert
               \<lparr> al_alert_id = aid, al_symbol = ar_symbol r, al_created_at = now, al_severity = AS_WATCH,
                 al_title = ar_symbol r @ '' SEC DILUTION WARNING'',
                 al_message = ''informational SEC risk only; does not gate entries or submit orders'',
                 al_horizons = [AH_DILUTION], al_component_analysis_ids = [ar_analysis_id r],
                 al_component_analyses = [r], al_metrics = [], al_score = ar_score r,
                 al_reasons = fromkeys (warning # ar_reasons r), al_deduplication_key = key,
                 al_kind = AK_SEC_WARNING, al_expires_at = Some (now + ap_alert_ttl policy) \<rparr>)
               (\<lambda>alert. Inr (Some alert, st \<lparr> ae_emitted_keys := List.insert key (ae_emitted_keys st) \<rparr>)))"

section \<open>One analysis\<close>

definition consensus_alert ::
  "alert_policy \<Rightarrow> alert_codec \<Rightarrow> uuid \<Rightarrow> string \<Rightarrow> instant \<Rightarrow> 'z alert_state_scheme \<Rightarrow>
   (local_alert option \<times> 'z alert_state_scheme) result" where
  "consensus_alert policy c aid symbol now st =
     (let fresh = fresh_values policy st symbol now in
      if int (length fresh) < ap_min_fresh_horizons policy \<or>
         (\<exists>h\<in>set (ap_required_horizons policy). dget fresh h = None)
      then Inr (None, st)
      else bind_result (directional_score policy fresh) (\<lambda>scored.
        case scored of None \<Rightarrow> Inr (None, st)
        | Some (direction, score) \<Rightarrow>
            (case severity_of policy score of None \<Rightarrow> Inr (None, st)
             | Some severity \<Rightarrow>
                 build_alert policy aid symbol fresh direction severity score
                   ((lower direction @ ''_consensus'') #
                    (case dilution_reason (dget fresh AH_DILUTION) of None \<Rightarrow> [] | Some reason \<Rightarrow> [reason])
                    @ component_reasons c fresh) now st)))"

text \<open>An exception after the analysis is stored leaves it stored: the result is paired with the state.\<close>

definition settle_alert ::
  "'s \<Rightarrow> ('a option \<times> 's) result \<Rightarrow> 'a option result \<times> 's" where
  "settle_alert st outcome = (case outcome of Inl e \<Rightarrow> (Inl e, st) | Inr (alert, st') \<Rightarrow> (Inr alert, st'))"

definition ingest_v1 ::
  "alert_policy \<Rightarrow> alert_codec \<Rightarrow> uuid \<Rightarrow> analysis_result \<Rightarrow> py_datetime \<Rightarrow> 'z alert_state_scheme \<Rightarrow>
   local_alert option result \<times> 'z alert_state_scheme" where
  "ingest_v1 policy c aid r now st =
     (case analysis_time r now of Inl e \<Rightarrow> (Inl e, st)
      | Inr t \<Rightarrow>
          if ignored st r then (Inr None, st)
          else
            let st1 = stored st r in
            settle_alert st1 (bind_result (consensus_alert policy c aid (ar_symbol r) t st1) (\<lambda>(alert, st2).
              if alert \<noteq> None then Inr (alert, st2)
              else if ar_horizon r = AH_DILUTION then dilution_warning_alert policy aid r t st1
              else Inr (None, st1))))"

section \<open>Entry-watch transitions\<close>

primrec entry_watch_rating :: "entry_watch_status \<Rightarrow> alert_severity \<times> rat" where
  "entry_watch_rating EW_ARMED = (AS_INFO, 40)"
| "entry_watch_rating EW_IN_ZONE = (AS_WATCH, 65)"
| "entry_watch_rating EW_EARLY_ENTRY = (AS_ACTION, 72)"
| "entry_watch_rating EW_IMPULSE_EXTENDED = (AS_WATCH, 55)"
| "entry_watch_rating EW_TRIGGERED = (AS_ACTION, 85)"
| "entry_watch_rating EW_POLICY_INELIGIBLE = (AS_INFO, 15)"
| "entry_watch_rating EW_INVALIDATED = (AS_INFO, 20)"
| "entry_watch_rating EW_EXPIRED = (AS_INFO, 10)"

text \<open>Title and decision text; a pending breakaway also changes the rating.\<close>

definition entry_watch_heading :: "watch_transition \<Rightarrow> (alert_severity \<times> rat) \<times> string \<times> string" where
  "entry_watch_heading t =
     (let rating = entry_watch_rating (tr_status t) in
      if ''breakaway_continuation_pending'' \<in> set (tr_reasons t)
      then ((AS_WATCH, 75), tr_symbol t @ '' ENTRY BREAKAWAY WATCH'',
            ''recent zone touch remains valid; moderate continuation is awaiting fresh intraday confirmation'')
      else if tr_status t = EW_EARLY_ENTRY
      then (rating, tr_symbol t @ '' ENTRY EARLY L1'', ''partial early entry confirmed inside the efficient window'')
      else if tr_status t = EW_IMPULSE_EXTENDED
      then (rating, tr_symbol t @ '' ENTRY AWAITING PULLBACK'',
            ''initial entry window was missed; tracking a dynamic impulse pullback'')
      else if tr_status t = EW_IN_ZONE
      then (rating, tr_symbol t @ '' ENTRY IN_ZONE EARLY WATCH'',
            ''early entry watch; price reached the frozen thesis zone'')
      else if ''continuation_chase_cap_exceeded'' \<in> set (tr_reasons t)
      then (rating, tr_symbol t @ '' ENTRY EXTENDED WAIT'', ''continuation exceeded the chase cap; wait for a retest'')
      else (rating, tr_symbol t @ '' ENTRY '' @ entry_watch_status_value (tr_status t), ''entry-watch thesis updated''))"

definition level_metric :: "string \<Rightarrow> rat option \<Rightarrow> named_value list" where
  "level_metric name level = (case level of None \<Rightarrow> [] | Some v \<Rightarrow> [\<lparr> nv_name = name, nv_value = VDec v \<rparr>])"

definition level_text :: "alert_codec \<Rightarrow> string \<Rightarrow> rat option \<Rightarrow> string" where
  "level_text c label level = (case level of None \<Rightarrow> [] | Some v \<Rightarrow> label @ ac_decimal c v)"

definition entry_watch_metrics :: "watch_transition \<Rightarrow> named_value list" where
  "entry_watch_metrics t =
     [\<lparr> nv_name = ''current_price'', nv_value = VDec (tr_current_price t) \<rparr>,
      \<lparr> nv_name = ''buy_zone_low'', nv_value = VDec (tr_zone_low t) \<rparr>,
      \<lparr> nv_name = ''buy_zone_high'', nv_value = VDec (tr_zone_high t) \<rparr>,
      \<lparr> nv_name = ''invalidation'', nv_value = VDec (tr_invalidation t) \<rparr>,
      \<lparr> nv_name = ''watch_expires_at'', nv_value = VTime (tr_watch_expires_at t) \<rparr>]
     @ level_metric ''entry_invalidation'' (tr_entry_invalidation t)
     @ level_metric ''entry_target'' (tr_entry_target t)"

definition ingest_entry_watch ::
  "alert_policy \<Rightarrow> alert_codec \<Rightarrow> uuid \<Rightarrow> watch_transition \<Rightarrow> py_datetime \<Rightarrow> 'z alert_state_scheme \<Rightarrow>
   local_alert result" where
  "ingest_entry_watch policy c aid t now st =
     bind_result (require_utc now) (\<lambda>utc.
     bind_result (not_future (tr_occurred_at t) ''entry watch transition cannot be in the future'' utc) (\<lambda>time.
       let (rating, title, decision) = entry_watch_heading t in
       make_local_alert
         \<lparr> al_alert_id = aid, al_symbol = tr_symbol t, al_created_at = time, al_severity = fst rating,
           al_title = title,
           al_message = decision @ ''; price '' @ ac_decimal c (tr_current_price t) @ ''; original zone ''
             @ ac_decimal c (tr_zone_low t) @ ''-'' @ ac_decimal c (tr_zone_high t)
             @ ''; structural invalidation '' @ ac_decimal c (tr_invalidation t)
             @ level_text c ''; tactical stop '' (tr_entry_invalidation t)
             @ level_text c ''; tactical target '' (tr_entry_target t),
           al_horizons = tr_horizons t, al_component_analysis_ids = tr_source_analysis_ids t,
           al_component_analyses = ordered_analyses (fresh_values policy st (tr_symbol t) time),
           al_metrics = entry_watch_metrics t, al_score = snd rating, al_reasons = tr_reasons t,
           al_deduplication_key = ''entry-watch:v1:'' @ uuid_text (tr_watch_id t) @ '':''
             @ uuid_text (tr_transition_id t) @ '':'' @ lower (entry_watch_status_value (tr_status t)),
           al_kind = AK_ENTRY_WATCH, al_expires_at = Some (time + ap_alert_ttl policy) \<rparr>))"

end
