(* ===== verification/Alert_Confluence.thy ===== *)
theory Alert_Confluence
  imports Alert_Engine
begin

text \<open>
  The second alert engine (app/alert_engine/v2.py): named setup and confirmation alerts selected from the
  fresh analyses of a symbol, with the same cooldown and deduplication as the first, and the maturity of a
  buy alert (app/alert_engine/confirmed.py).
\<close>

section \<open>Selection\<close>

definition bullish_above :: "analysis_result option \<Rightarrow> rat \<Rightarrow> analysis_result option" where
  "bullish_above found minimum =
     (case found of None \<Rightarrow> None
      | Some r \<Rightarrow>
          if ar_direction r \<noteq> PD_BULLISH then None
          else if ar_verdict r \<notin> {AV_FAVORABLE, AV_WATCH} then None
          else if minimum \<le> dmul (ar_score r) (ar_confidence r) then Some r else None)"

definition is_bearish :: "analysis_result \<Rightarrow> bool" where
  "is_bearish r \<longleftrightarrow> ar_direction r = PD_BEARISH \<and> ar_verdict r \<in> {AV_CAUTION, AV_AVOID}"

definition present :: "'a option list \<Rightarrow> 'a list" where
  "present xs = concat (map (\<lambda>x. case x of None \<Rightarrow> [] | Some v \<Rightarrow> [v]) xs)"

definition select_alert ::
  "alert_policy \<Rightarrow> analysis_result \<Rightarrow> analyses \<Rightarrow> (alert_kind \<times> analysis_result list) option" where
  "select_alert policy incoming fresh =
     (let minimum = ap_watch_threshold policy;
          long = bullish_above (dget fresh AH_LONG_TERM) minimum;
          swing = bullish_above (dget fresh AH_SWING) minimum;
          intraday = bullish_above (dget fresh AH_INTRADAY) minimum;
          bearish = filter is_bearish (present (map (dget fresh) [AH_LONG_TERM, AH_SWING, AH_INTRADAY]))
      in if long \<noteq> None \<and> swing \<noteq> None \<and> intraday \<noteq> None
         then Some (AK_HIGH_CONVICTION_BUY, present [long, swing, intraday])
         else if intraday \<noteq> None \<and> (swing \<noteq> None \<or> long \<noteq> None)
         then Some (AK_ENTRY_CONFIRMED, present [long, swing, intraday])
         else if length bearish = 3 then Some (AK_BEARISH_CONSENSUS, bearish)
         else if ar_horizon incoming = AH_LONG_TERM \<and> long \<noteq> None then Some (AK_LONG_BUY_ZONE, present [long])
         else if ar_horizon incoming = AH_SWING \<and> swing \<noteq> None then Some (AK_SWING_SETUP, present [swing])
         else None)"

section \<open>Entry levels\<close>

text \<open>
  \<open>_decimal_value\<close>: a finite positive number, read from the text of the value. Texts of instants,
  durations, lists and objects are not numerals.
\<close>

fun decimal_value :: "alert_codec \<Rightarrow> py_value option \<Rightarrow> rat option" where
  "decimal_value c (Some (VDec d)) = (if 0 < d then Some d else None)"
| "decimal_value c (Some (VInt i)) = (if 0 < i then Some (of_int i) else None)"
| "decimal_value c (Some (VFloat (Some q))) = (if 0 < ac_float c q then Some (ac_float c q) else None)"
| "decimal_value c (Some (VStr s)) =
     (case decimal_of_text s of None \<Rightarrow> None | Some d \<Rightarrow> if 0 < d then Some d else None)"
| "decimal_value c _ = None"

definition first_decimal :: "alert_codec \<Rightarrow> analysis_result option list \<Rightarrow> string list \<Rightarrow> rat option" where
  "first_decimal c values names =
     first_some (\<lambda>found. case found of None \<Rightarrow> None
       | Some r \<Rightarrow> first_some (\<lambda>name. decimal_value c (metric r name)) names) values"

text \<open>\<open>metrics.get(name, metrics.get(other))\<close>: a present None is kept.\<close>

definition metric_or :: "analysis_result \<Rightarrow> string \<Rightarrow> string \<Rightarrow> py_value option" where
  "metric_or r name other = (case metric r name of Some v \<Rightarrow> Some v | None \<Rightarrow> metric r other)"

definition complete_levels :: "alert_codec \<Rightarrow> analysis_result \<Rightarrow> (rat \<times> rat \<times> rat) option" where
  "complete_levels c r =
     (case (decimal_value c (metric_or r ''entry_zone_low'' ''buy_zone_low''),
            decimal_value c (metric_or r ''entry_zone_high'' ''buy_zone_high''),
            decimal_value c (metric_or r ''invalidation'' ''invalidation_level'')) of
        (Some low, Some high, Some invalidation) \<Rightarrow>
          if invalidation < low \<and> low \<le> high then Some (low, high, invalidation) else None
      | _ \<Rightarrow> None)"

definition first_complete_levels ::
  "alert_codec \<Rightarrow> analysis_result option list \<Rightarrow> (analysis_result \<times> rat \<times> rat \<times> rat) option" where
  "first_complete_levels c values =
     first_some (\<lambda>found. case found of None \<Rightarrow> None
       | Some r \<Rightarrow> map_option (Pair r) (complete_levels c r)) values"

definition first_text :: "analysis_result option list \<Rightarrow> string \<Rightarrow> string option" where
  "first_text values name =
     first_some (\<lambda>found. case found of None \<Rightarrow> None
       | Some r \<Rightarrow> (case metric r name of Some (VStr s) \<Rightarrow> if s = [] then None else Some s | _ \<Rightarrow> None)) values"

definition by_horizon :: "analysis_result list \<Rightarrow> analyses" where
  "by_horizon components = foldl (\<lambda>d r. dput (ar_horizon r) r d) [] components"

definition entry_signal_metrics ::
  "alert_codec \<Rightarrow> alert_kind \<Rightarrow> analysis_result list \<Rightarrow> named_value list" where
  "entry_signal_metrics c kind components =
     (if kind \<notin> {AK_ENTRY_CONFIRMED, AK_HIGH_CONVICTION_BUY} then []
      else
        let intraday = dget (by_horizon components) AH_INTRADAY;
            swing = dget (by_horizon components) AH_SWING;
            long_term = dget (by_horizon components) AH_LONG_TERM
        in case first_decimal c [intraday, swing, long_term] [''reference_price''] of None \<Rightarrow> []
           | Some entry_price \<Rightarrow>
               let found = first_complete_levels c [swing, long_term, intraday];
                   source = map_option fst found;
                   target = (case first_decimal c [source] [''target_2r'', ''target'', ''target_price'', ''objective_level'']
                             of Some t \<Rightarrow> Some t
                             | None \<Rightarrow> first_decimal c [intraday, swing, long_term]
                                        [''objective_level'', ''target_2r'', ''target'', ''target_price'']);
                   policy_version = first_text [source, intraday, swing, long_term] ''entry_confirmation_rule_version''
               in [\<lparr> nv_name = ''entry_price'', nv_value = VDec entry_price \<rparr>]
                  @ (case found of None \<Rightarrow> []
                     | Some (_, low, high, invalidation) \<Rightarrow>
                         [\<lparr> nv_name = ''buy_zone_low'', nv_value = VDec low \<rparr>,
                          \<lparr> nv_name = ''buy_zone_high'', nv_value = VDec high \<rparr>,
                          \<lparr> nv_name = ''invalidation'', nv_value = VDec invalidation \<rparr>])
                  @ (case target of None \<Rightarrow> []
                     | Some t \<Rightarrow> if entry_price < t then [\<lparr> nv_name = ''target'', nv_value = VDec t \<rparr>] else [])
                  @ (case policy_version of None \<Rightarrow> []
                     | Some v \<Rightarrow> [\<lparr> nv_name = ''entry_confirmation_rule_version'', nv_value = VStr v \<rparr>]))"

section \<open>The named alert\<close>

definition combined_step :: "alert_policy \<Rightarrow> rat \<times> rat \<Rightarrow> analysis_result \<Rightarrow> rat \<times> rat" where
  "combined_step policy acc r =
     (let weight = hp_weight (for_horizon policy (ar_horizon r))
      in (dadd (fst acc) (dmul (dmul weight (ar_score r)) (ar_confidence r)), dadd (snd acc) weight))"

definition combined_score :: "analysis_result list \<Rightarrow> alert_policy \<Rightarrow> rat result" where
  "combined_score components policy =
     (let acc = foldl (combined_step policy) (0, 0) components
      in alert_score (if snd acc = 0 then 0 else ddiv (fst acc) (snd acc)))"

definition named_severity :: "alert_kind \<Rightarrow> rat \<Rightarrow> rat \<Rightarrow> alert_severity" where
  "named_severity kind score critical_threshold =
     (if kind \<in> {AK_LONG_BUY_ZONE, AK_SWING_SETUP, AK_EARLY_INTRADAY_WITHOUT_CONFIRMATION} then AS_WATCH
      else if kind = AK_BEARISH_CONSENSUS
      then if critical_threshold \<le> score then AS_CRITICAL else AS_ACTION
      else if kind = AK_HIGH_CONVICTION_BUY \<and> critical_threshold \<le> score then AS_CRITICAL
      else AS_ACTION)"

definition alert_message :: "alert_kind \<Rightarrow> nat \<Rightarrow> rat \<Rightarrow> string" where
  "alert_message kind engines score =
     (let shown = show_fixed 2 score; n = int_text (int engines) in
      if kind = AK_LONG_BUY_ZONE then ''Long engine identified an attractive buy zone; score '' @ shown
      else if kind = AK_SWING_SETUP then ''Swing engine identified an intact actionable structure; score '' @ shown
      else if kind = AK_EARLY_INTRADAY_WITHOUT_CONFIRMATION
      then ''Bullish Intraday setup detected for manual monitoring; entry is not confirmed''
      else if kind = AK_ENTRY_CONFIRMED
      then ''Intraday timing confirms a setup across '' @ n @ '' aligned engines; score '' @ shown
      else if kind = AK_HIGH_CONVICTION_BUY then ''Long, Swing, and Intraday are aligned; score '' @ shown
      else ''Bearish alignment across '' @ n @ '' engines; score '' @ shown)"

definition component_key :: "analysis_result list \<Rightarrow> string" where
  "component_key components = join_with CHR ''-'' (map (\<lambda>r. lower (analysis_horizon_value (ar_horizon r))) components)"

definition named_state_key :: "string \<Rightarrow> alert_kind \<Rightarrow> string \<Rightarrow> string \<times> string" where
  "named_state_key symbol kind ck = (symbol, alert_kind_value kind @ '':'' @ ck)"

definition named_key :: "string \<Rightarrow> alert_kind \<Rightarrow> string \<Rightarrow> alert_severity \<Rightarrow> int \<Rightarrow> string" where
  "named_key symbol kind ck severity window =
     ''alert:v2:'' @ lower symbol @ '':'' @ lower (alert_kind_value kind) @ '':'' @ ck @ '':''
     @ lower (alert_severity_value severity) @ '':'' @ int_text window"

definition named_reasons ::
  "alert_codec \<Rightarrow> alert_kind \<Rightarrow> analysis_result list \<Rightarrow> analysis_result option \<Rightarrow> string list" where
  "named_reasons c kind components dilution =
     lower (alert_kind_value kind) # map (\<lambda>r. component_text c r (ar_horizon r)) components
     @ (case dilution of None \<Rightarrow> [''dilution_analysis_unavailable'']
        | Some r \<Rightarrow> if ar_verdict r = AV_FAVORABLE then []
                    else [''dilution_'' @ lower (analysis_verdict_value (ar_verdict r)) @ ''_warning''])"

definition build_named_alert ::
  "alert_policy \<Rightarrow> alert_codec \<Rightarrow> uuid \<Rightarrow> string \<Rightarrow> alert_kind \<Rightarrow> analysis_result list \<Rightarrow> analyses \<Rightarrow> instant \<Rightarrow>
   'z alert_state_scheme \<Rightarrow> (local_alert option \<times> 'z alert_state_scheme) result" where
  "build_named_alert policy c aid symbol kind components fresh now st =
     bind_result (combined_score components policy) (\<lambda>score.
       let severity = named_severity kind score (ap_critical_threshold policy);
           ck = component_key components;
           state_key = named_state_key symbol kind ck
       in if cooling policy st state_key severity now then Inr (None, st)
          else bind_result (alert_window policy now) (\<lambda>window.
            let key = named_key symbol kind ck severity window in
            if key \<in> set (ae_emitted_keys st) then Inr (None, st)
            else
              let dilution = dget fresh AH_DILUTION;
                  embedded = components @ (case dilution of None \<Rightarrow> [] | Some r \<Rightarrow> [r])
              in bind_result (make_local_alert
                   \<lparr> al_alert_id = aid, al_symbol = symbol, al_created_at = now, al_severity = severity,
                     al_title = symbol @ '' '' @ replace_char CHR ''_'' CHR '' '' (alert_kind_value kind),
                     al_message = alert_message kind (length components) score,
                     al_horizons = map ar_horizon embedded,
                     al_component_analysis_ids = map ar_analysis_id embedded, al_component_analyses = embedded,
                     al_metrics = entry_signal_metrics c kind components, al_score = score,
                     al_reasons = fromkeys (named_reasons c kind components dilution),
                     al_deduplication_key = key, al_kind = kind,
                     al_expires_at = Some (now + ap_alert_ttl policy) \<rparr>)
                   (\<lambda>alert. Inr (Some alert, remember key state_key now severity st))))"

definition ingest_v2 ::
  "alert_policy \<Rightarrow> alert_codec \<Rightarrow> uuid \<Rightarrow> analysis_result \<Rightarrow> py_datetime \<Rightarrow> 'z alert_state_scheme \<Rightarrow>
   local_alert option result \<times> 'z alert_state_scheme" where
  "ingest_v2 policy c aid r now st =
     (case analysis_time r now of Inl e \<Rightarrow> (Inl e, st)
      | Inr t \<Rightarrow>
          if ignored st r then (Inr None, st)
          else
            let st1 = stored st r in
            settle_alert st1
              (if ar_horizon r = AH_DILUTION then dilution_warning_alert policy aid r t st1
               else
                 let fresh = fresh_values policy st1 (ar_symbol r) t in
                 case select_alert policy r fresh of None \<Rightarrow> Inr (None, st1)
                 | Some (kind, components) \<Rightarrow>
                     build_named_alert policy c aid (ar_symbol r) kind components fresh t st1))"

section \<open>Buy maturity\<close>

datatype buy_maturity_level = TACTICAL_RECOVERY | EARLY_ENTRY | SWING_CONFIRMED | HIGH_CONVICTION | FULLY_MATURED

definition substring :: "string \<Rightarrow> string \<Rightarrow> bool" where
  "substring needle s \<longleftrightarrow> (\<exists>i\<in>set [0..<Suc (length s)]. take (length needle) (drop i s) = needle)"

definition conviction_horizons :: "analysis_horizon set" where
  "conviction_horizons = {AH_LONG_TERM, AH_SWING, AH_INTRADAY}"

definition buy_maturity :: "local_alert \<Rightarrow> buy_maturity_level option" where
  "buy_maturity a =
     (let horizons = set (al_horizons a) in
      if al_kind a = AK_ENTRY_CONFIRMED
      then if conviction_horizons \<subseteq> horizons then Some HIGH_CONVICTION
           else if {AH_SWING, AH_INTRADAY} \<subseteq> horizons then Some SWING_CONFIRMED
           else if {AH_LONG_TERM, AH_INTRADAY} \<subseteq> horizons then Some TACTICAL_RECOVERY
           else None
      else if al_kind a = AK_HIGH_CONVICTION_BUY
      then if conviction_horizons \<subseteq> horizons then Some HIGH_CONVICTION else None
      else if al_kind a = AK_ENTRY_WATCH \<and> substring ''ENTRY EARLY L1'' (upper (al_title a)) then Some EARLY_ENTRY
      else if al_kind a = AK_ENTRY_WATCH \<and> substring ''ENTRY TRIGGERED'' (upper (al_title a))
              \<and> conviction_horizons \<subseteq> horizons
      then Some FULLY_MATURED
      else None)"

definition is_buy_alert :: "local_alert \<Rightarrow> bool" where
  "is_buy_alert a \<longleftrightarrow> buy_maturity a \<noteq> None"

definition is_solid_buy :: "local_alert \<Rightarrow> bool" where
  "is_solid_buy a \<longleftrightarrow> buy_maturity a \<in> {Some HIGH_CONVICTION, Some FULLY_MATURED}"

definition is_confirmed_buy :: "local_alert \<Rightarrow> bool" where
  "is_confirmed_buy a \<longleftrightarrow> is_buy_alert a"

definition is_confirmed_short :: "local_alert \<Rightarrow> bool" where
  "is_confirmed_short a \<longleftrightarrow> al_kind a = AK_BEARISH_CONSENSUS \<and> ''short_entry_confirmed'' \<in> set (al_reasons a)"

definition is_portfolio_monitor_alert :: "local_alert \<Rightarrow> bool" where
  "is_portfolio_monitor_alert a \<longleftrightarrow>
     is_buy_alert a \<or> is_confirmed_short a \<or> al_kind a \<in> {AK_PORTFOLIO_PROTECT, AK_PORTFOLIO_FLOW_BUY}"

definition is_audible_alert :: "local_alert \<Rightarrow> bool" where
  "is_audible_alert a \<longleftrightarrow> is_buy_alert a \<or> is_confirmed_short a \<or> al_kind a = AK_ENTRY_OPPORTUNITY_CLOSED"

end
