(* ===== verification/Alert_Continuation.thy ===== *)
theory Alert_Continuation
  imports Alert_Confluence Market_Session
begin

text \<open>
  The third alert engine (app/alert_engine/v3.py): a swing continuation confirmed by two strong intraday
  observations of one market session, and its checkpoint (v31.py and state.py). The state extends that of
  the earlier engines. How the contract library writes an analysis to the checkpoint and reads it back
  are parameters.
\<close>

record continuation_config =
  cc_minimum_delay :: duration
  cc_strong_required :: bool
  cc_higher_low_required :: bool
  cc_same_session_required :: bool

definition default_continuation :: continuation_config where
  "default_continuation = \<lparr> cc_minimum_delay = minutes 3, cc_strong_required = True,
     cc_higher_low_required = True, cc_same_session_required = True \<rparr>"

definition make_continuation :: "continuation_config \<Rightarrow> continuation_config result" where
  "make_continuation config =
     (if cc_minimum_delay config \<le> 0
      then Inl (ValueError ''minimum reconfirmation delay must be positive'') else Inr config)"

record alert_state_v3 = alert_state +
  ae_candidates :: "(string, uuid \<times> instant \<times> int) dict"
  ae_sessions :: "(string \<times> int) list"

definition initial_alerts :: alert_state_v3 where
  "initial_alerts = \<lparr> ae_latest = [], ae_last_emitted = [], ae_emitted_keys = [], ae_candidates = [], ae_sessions = [] \<rparr>"

text \<open>\<open>_market_session\<close>: the date in New York, as a day number.\<close>

definition alert_session :: "zone \<Rightarrow> instant \<Rightarrow> int" where
  "alert_session z t = day_of (local_of z t)"

definition continuation_setups :: "string list" where
  "continuation_setups = [''bullish_breakout'', ''bullish_vwap_reclaim'', ''bullish_entry_confirmation'']"

definition valid_swing :: "analysis_result \<Rightarrow> bool result" where
  "valid_swing r =
     guarded (metric_is_true r ''anchored_vwap_gate_passed'')
       (in_texts (metric r ''classification'') [''breakout'', ''pullback'', ''extended''])"

definition qualifies :: "continuation_config \<Rightarrow> analysis_result \<Rightarrow> bool result" where
  "qualifies config r =
     all_of [Inr (ar_direction r = PD_BULLISH), Inr (ar_verdict r \<in> {AV_FAVORABLE, AV_WATCH}),
       in_texts (metric r ''setup'') continuation_setups,
       Inr (\<not> cc_strong_required config \<or> metric r ''confirmation_quality'' = Some (VStr ''strong'')),
       Inr (\<not> cc_higher_low_required config \<or> metric_is_true r ''five_minute_higher_low'')]"

text \<open>The swing the continuation rests on: None when one of the gates is closed.\<close>

definition continuation_swing ::
  "alert_policy \<Rightarrow> continuation_config \<Rightarrow> analysis_result \<Rightarrow> analyses \<Rightarrow> analysis_result option result" where
  "continuation_swing policy config r fresh =
     (case bullish_above (dget fresh AH_SWING) (ap_watch_threshold policy) of None \<Rightarrow> Inr None
      | Some swing \<Rightarrow>
          bind_result (valid_swing swing) (\<lambda>valid.
          bind_result (guarded valid (qualifies config r)) (\<lambda>ok. Inr (if ok then Some swing else None))))"

definition continuation_message :: string where
  "continuation_message = ''Two fresh strong Intraday higher lows confirm the active Swing continuation''"

definition confirmed_text :: "local_alert \<Rightarrow> local_alert" where
  "confirmed_text a =
     a \<lparr> al_message := continuation_message,
         al_reasons := fromkeys (al_reasons a @ [''swing_continuation_confirmed'', ''two_strong_intraday_higher_lows'',
           ''fresh_intraday_reconfirmation'', ''long_structure_not_required'']) \<rparr>"

definition close_continuation ::
  "string \<Rightarrow> int \<Rightarrow> 'z alert_state_v3_scheme \<Rightarrow> 'z alert_state_v3_scheme" where
  "close_continuation symbol session st =
     st \<lparr> ae_sessions := List.insert (symbol, session) (ae_sessions st),
          ae_candidates := ddel symbol (ae_candidates st) \<rparr>"

text \<open>Whether the held candidate must be replaced by the observation.\<close>

definition replaces_candidate :: "continuation_config \<Rightarrow> (uuid \<times> instant \<times> int) option \<Rightarrow> int \<Rightarrow> bool" where
  "replaces_candidate config candidate session =
     (case candidate of None \<Rightarrow> True
      | Some held \<Rightarrow> cc_same_session_required config \<and> snd (snd held) \<noteq> session)"

definition confirm_swing_continuation ::
  "alert_policy \<Rightarrow> continuation_config \<Rightarrow> alert_codec \<Rightarrow> uuid \<Rightarrow> analysis_result \<Rightarrow> instant \<Rightarrow> int \<Rightarrow>
   'z alert_state_v3_scheme \<Rightarrow> (local_alert option \<times> 'z alert_state_v3_scheme) result" where
  "confirm_swing_continuation policy config c aid r now session st =
     (let symbol = ar_symbol r; fresh = fresh_values policy st symbol now;
          candidate = dget (ae_candidates st) symbol
      in if (symbol, session) \<in> set (ae_sessions st) then Inr (None, st)
         else bind_result (continuation_swing policy config r fresh) (\<lambda>found.
           case found of None \<Rightarrow> Inr (None, st)
           | Some swing \<Rightarrow>
               if replaces_candidate config candidate session
               then Inr (None, st \<lparr> ae_candidates := dput symbol (ar_analysis_id r, ar_as_of r, session) (ae_candidates st) \<rparr>)
               else if ar_analysis_id r = fst (the candidate) then Inr (None, st)
               else if ar_as_of r - fst (snd (the candidate)) < cc_minimum_delay config then Inr (None, st)
               else bind_result (build_named_alert policy c aid symbol AK_ENTRY_CONFIRMED [swing, r] fresh now st)
                 (\<lambda>built. case fst built of None \<Rightarrow> Inr (None, snd built)
                   | Some alert \<Rightarrow> Inr (Some (confirmed_text alert), close_continuation symbol session (snd built)))))"

definition ingest_v3 ::
  "alert_policy \<Rightarrow> continuation_config \<Rightarrow> zone \<Rightarrow> alert_codec \<Rightarrow> uuid \<Rightarrow> analysis_result \<Rightarrow> py_datetime \<Rightarrow>
   'z alert_state_v3_scheme \<Rightarrow> local_alert option result \<times> 'z alert_state_v3_scheme" where
  "ingest_v3 policy config z c aid r now st =
     (let outcome = ingest_v2 policy c aid r now st; st1 = snd outcome; session = alert_session z (ar_as_of r) in
      case fst outcome of Inl e \<Rightarrow> (Inl e, st1)
      | Inr alert \<Rightarrow>
          if ignored st r then (Inr alert, st1)
          else
            (case alert of
               Some a \<Rightarrow>
                 (Inr (Some a), if al_kind a \<in> {AK_ENTRY_CONFIRMED, AK_HIGH_CONVICTION_BUY}
                                then close_continuation (ar_symbol r) session st1 else st1)
             | None \<Rightarrow>
                 if ar_horizon r \<noteq> AH_INTRADAY then (Inr None, st1)
                 else (case now of
                         Aware t _ \<Rightarrow> settle_alert st1 (confirm_swing_continuation policy config c aid r t session st1)
                       | Naive _ \<Rightarrow> (Inr None, st1))))"

section \<open>Checkpoint\<close>

record 'p checkpoint =
  cp_latest_analyses :: "'p list"
  cp_candidates :: "(string \<times> uuid \<times> instant \<times> int) list"
  cp_sessions :: "(string \<times> int) list"

definition horizons_by_value :: "analyses \<Rightarrow> analyses" where
  "horizons_by_value values = sort_key (\<lambda>p. analysis_horizon_value (fst p)) values"

text \<open>\<open>latest_session_by_symbol\<close>.\<close>

definition note_session :: "(string, int) dict \<Rightarrow> string \<times> int \<Rightarrow> (string, int) dict" where
  "note_session seen entry =
     (case dget seen (fst entry) of
        Some previous \<Rightarrow> if previous < snd entry then dput (fst entry) (snd entry) seen else seen
      | None \<Rightarrow> dput (fst entry) (snd entry) seen)"

definition snapshot_state :: "(analysis_result \<Rightarrow> 'p) \<Rightarrow> 'z alert_state_v3_scheme \<Rightarrow> 'p checkpoint" where
  "snapshot_state dump st =
     \<lparr> cp_latest_analyses =
         concat (map (\<lambda>symbol. map (\<lambda>p. dump (snd p)) (horizons_by_value (latest_of st symbol)))
           (sort (dkeys (ae_latest st)))),
       cp_candidates = sort_key fst (ae_candidates st),
       cp_sessions = sort_key fst (foldl note_session [] (ae_sessions st)) \<rparr>"

text \<open>One payload of \<open>_restore_state\<close>: \<open>setdefault(symbol, {})[horizon] = result\<close>.\<close>

definition put_latest :: "(string, analyses) dict \<Rightarrow> analysis_result \<Rightarrow> (string, analyses) dict" where
  "put_latest latest r =
     dput (ar_symbol r)
       (dput (ar_horizon r) r (case dget latest (ar_symbol r) of None \<Rightarrow> [] | Some a \<Rightarrow> a)) latest"

definition restore_state ::
  "('p \<Rightarrow> analysis_result result) \<Rightarrow> 'p checkpoint \<Rightarrow> 'z alert_state_v3_scheme \<Rightarrow> 'z alert_state_v3_scheme result" where
  "restore_state load state st =
     bind_result (map_result load (cp_latest_analyses state)) (\<lambda>results.
       Inr (st \<lparr> ae_latest := foldl put_latest (ae_latest st) results,
                ae_candidates := cp_candidates state, ae_sessions := cp_sessions state \<rparr>))"

text \<open>The constructor of version 3.1.\<close>

definition restored_engine ::
  "('p \<Rightarrow> analysis_result result) \<Rightarrow> 'p checkpoint option \<Rightarrow> alert_state_v3 result" where
  "restored_engine load restored =
     (case restored of None \<Rightarrow> Inr initial_alerts | Some state \<Rightarrow> restore_state load state initial_alerts)"

end
