(* ===== verification/Alert_Laws.thy ===== *)
theory Alert_Laws
  imports Alert_Continuation
begin

text \<open>
  Laws of the alert engines. One ingestion refines a step of a gate: silence, a dilution warning, or an
  emission that passed the cooldown and was not published before. What holds of every run is proved once,
  in the locale of the engines that refine this gate, and interpreted on the three versions.
\<close>

section \<open>Texts\<close>

lemma strip_id:
  assumes "s \<noteq> []" "\<not> isspace (hd s)" "\<not> isspace (last s)"
  shows "strip s = s"
proof -
  have "dropWhile isspace s = s" using assms(2) by (intro dropWhile_id) simp
  moreover have "dropWhile isspace (rev s) = rev s" using assms(1,3) by (intro dropWhile_id) (simp add: hd_rev)
  ultimately show ?thesis by (simp add: strip_def)
qed

lemma isspace_isdigit: "isdigit c \<Longrightarrow> \<not> isspace c"
  by (simp add: isdigit_def isspace_def)

lemma isdigit_colon: "isdigit c \<Longrightarrow> c \<noteq> CHR '':''"
  by (auto simp: isdigit_def code_def)

lemma int_text_last: "\<not> isspace (last (int_text n))" "int_text n \<noteq> []"
proof -
  have "isdigit (last (digit_string k))" for k
    using digit_string_digits last_in_set digit_string_not_Nil by blast
  then show "\<not> isspace (last (int_text n))" "int_text n \<noteq> []"
    by (simp_all add: int_text_def isspace_isdigit)
qed

lemma int_text_no_colon: "CHR '':'' \<notin> set (int_text n)"
  using isdigit_colon digit_string_digits by (fastforce simp: int_text_def)

lemma upper_lower_char: "upper_char (lower_char c) = upper_char c"
proof (cases "isupper c")
  case True
  then have b: "65 \<le> code c" "code c \<le> 90" by (simp_all add: isupper_def)
  have l: "code (char_of (code c + 32)) = code c + 32" using b by (intro code_char_of) simp
  from b l have "upper_char (lower_char c) = char_of (code c)"
    using True by (simp add: lower_char_def upper_char_def islower_def)
  also have "\<dots> = c" by (simp add: code_def)
  finally show ?thesis using b by (simp add: upper_char_def islower_def)
qed (simp add: lower_char_def)

lemma lower_inj: "upper s = s \<Longrightarrow> upper t = t \<Longrightarrow> lower s = lower t \<longleftrightarrow> s = t"
proof -
  have "upper (lower s) = upper s" for s
    by (simp add: upper_def lower_def upper_lower_char)
  then show "upper s = s \<Longrightarrow> upper t = t \<Longrightarrow> lower s = lower t \<longleftrightarrow> s = t" by metis
qed

text \<open>The last field of a text is determined when it does not hold the separator.\<close>

lemma last_field_eq:
  assumes "xs @ sep # a = ys @ sep # b" "sep \<notin> set a" "sep \<notin> set b"
  shows "xs = ys \<and> a = b"
proof -
  have tail: "takeWhile (\<lambda>c. c \<noteq> sep) (rev zs @ sep # us) = rev zs" if "sep \<notin> set zs" for zs us
    using that by (induction zs rule: rev_induct) auto
  from assms(1) have "rev a @ sep # rev xs = rev b @ sep # rev ys"
    by (metis append_assoc rev.simps(2) rev_append append_Cons append_Nil)
  then have "rev a = rev b" using tail [OF assms(2)] tail [OF assms(3)] by metis
  then have "a = b" by simp
  with assms(1) show ?thesis by simp
qed

section \<open>The window\<close>

definition window_of :: "alert_policy \<Rightarrow> instant \<Rightarrow> int" where
  "window_of policy t = whole_seconds t div whole_seconds (ap_cooldown policy)"

lemma alert_window_Inr: "alert_window policy now = Inr w \<longleftrightarrow> whole_seconds (ap_cooldown policy) \<noteq> 0 \<and> w = window_of policy now"
  by (auto simp: alert_window_def window_of_def Let_def)

lemma same_window:
  assumes "seconds 1 \<le> ap_cooldown policy" "0 \<le> t" "t \<le> now" "window_of policy t = window_of policy now"
  shows "now - t < ap_cooldown policy"
proof -
  define M where "M = seconds 1"
  define W where "W = ap_cooldown policy div M"
  have M: "0 < M" by (simp add: M_def seconds_def)
  have "M * 1 \<le> ap_cooldown policy" using assms(1) by (simp add: M_def)
  then have W: "1 \<le> W" using M by (simp add: W_def pos_imp_zdiv_pos_iff zdiv_mono1 [of M _ M, simplified])
  have cool: "M * W \<le> ap_cooldown policy"
    using M by (simp add: W_def minus_mod_eq_mult_div [symmetric])
  have "window_of policy u = u div (M * W)" if "0 \<le> u" for u
    using that assms(1) M W by (simp add: window_of_def whole_seconds_def W_def flip: M_def zdiv_zmult2_eq)
  with assms have same: "t div (M * W) = now div (M * W)" by simp
  have pos: "0 < M * W" using M W by simp
  have "now - t = now mod (M * W) - t mod (M * W)"
    using mult_div_mod_eq [of "M * W" now] mult_div_mod_eq [of "M * W" t]
    unfolding same by linarith
  also have "\<dots> < M * W" using pos pos_mod_bound [of "M * W" now] pos_mod_sign [of "M * W" t] by linarith
  finally have "now - t < M * W" .
  with cool show ?thesis by simp
qed

section \<open>The gate\<close>

type_synonym alert_input = "uuid \<times> analysis_result \<times> py_datetime"

abbreviation input_analysis :: "alert_input \<Rightarrow> analysis_result" where "input_analysis i \<equiv> fst (snd i)"

definition clock :: "alert_input \<Rightarrow> instant" where
  "clock i = (case snd (snd i) of Naive t \<Rightarrow> t | Aware t _ \<Rightarrow> t)"

text \<open>Inputs are validated analyses of upper-case symbols.\<close>

definition admissible :: "alert_input \<Rightarrow> bool" where
  "admissible i \<longleftrightarrow> valid_analysis (input_analysis i) \<and> upper (ar_symbol (input_analysis i)) = ar_symbol (input_analysis i)"

definition gated :: "local_alert \<Rightarrow> bool" where "gated a \<longleftrightarrow> al_kind a \<noteq> AK_SEC_WARNING"

text \<open>The analyses held are filed under their own symbol and horizon.\<close>

definition filed :: "'z alert_state_scheme \<Rightarrow> bool" where
  "filed st \<longleftrightarrow> (\<forall>symbol. \<forall>p\<in>set (latest_of st symbol).
     ar_symbol (snd p) = symbol \<and> ar_horizon (snd p) = fst p \<and> valid_analysis (snd p))"

inductive alert_step ::
  "alert_policy \<Rightarrow> (local_alert \<Rightarrow> string \<times> string) \<Rightarrow> (local_alert \<Rightarrow> int \<Rightarrow> string) \<Rightarrow> alert_input \<Rightarrow>
   'z alert_state_scheme \<Rightarrow> local_alert option \<Rightarrow> 'z alert_state_scheme \<Rightarrow> bool"
  for policy key_of dedup_of i where
  silent: "ae_last_emitted st' = ae_last_emitted st \<Longrightarrow> ae_emitted_keys st' = ae_emitted_keys st \<Longrightarrow>
    alert_step policy key_of dedup_of i st None st'"
| warning: "ae_last_emitted st' = ae_last_emitted st \<Longrightarrow> al_kind a = AK_SEC_WARNING \<Longrightarrow>
    al_deduplication_key a = warning_key r \<Longrightarrow> warning_key r \<notin> set (ae_emitted_keys st) \<Longrightarrow>
    al_created_at a = clock i \<Longrightarrow> ae_emitted_keys st' = List.insert (warning_key r) (ae_emitted_keys st) \<Longrightarrow>
    alert_step policy key_of dedup_of i st (Some a) st'"
| emission: "gated a \<Longrightarrow> al_symbol a = ar_symbol (input_analysis i) \<Longrightarrow> al_created_at a = clock i \<Longrightarrow>
    \<not> cooling policy st (key_of a) (al_severity a) (clock i) \<Longrightarrow>
    al_deduplication_key a = dedup_of a (window_of policy (clock i)) \<Longrightarrow>
    al_deduplication_key a \<notin> set (ae_emitted_keys st) \<Longrightarrow>
    ae_emitted_keys st' = List.insert (al_deduplication_key a) (ae_emitted_keys st) \<Longrightarrow>
    ae_last_emitted st' = dput (key_of a) (clock i, al_severity a) (ae_last_emitted st) \<Longrightarrow>
    alert_step policy key_of dedup_of i st (Some a) st'"

inductive_cases alert_step_None: "alert_step policy key_of dedup_of i st None st'"
inductive_cases alert_step_Some: "alert_step policy key_of dedup_of i st (Some a) st'"

definition alert_of :: "local_alert option result \<Rightarrow> local_alert option" where
  "alert_of outcome = (case outcome of Inl _ \<Rightarrow> None | Inr alert \<Rightarrow> alert)"

text \<open>A run: the alerts of a sequence of inputs, in order, and the state after it.\<close>

fun alert_run ::
  "('i \<Rightarrow> 's \<Rightarrow> local_alert option result \<times> 's) \<Rightarrow> 'i list \<Rightarrow> 's \<Rightarrow> local_alert list \<times> 's" where
  "alert_run ingest [] st = ([], st)"
| "alert_run ingest (i # is) st =
     (let step = ingest i st; rest = alert_run ingest is (snd step)
      in (case alert_of (fst step) of None \<Rightarrow> fst rest | Some a \<Rightarrow> a # fst rest, snd rest))"

section \<open>Runs of an engine behind the gate\<close>

locale gated_engine =
  fixes policy :: alert_policy
    and key_of :: "local_alert \<Rightarrow> string \<times> string"
    and dedup_of :: "local_alert \<Rightarrow> int \<Rightarrow> string"
    and ingest :: "alert_input \<Rightarrow> 'z alert_state_scheme \<Rightarrow> local_alert option result \<times> 'z alert_state_scheme"
  assumes gate: "filed st \<Longrightarrow> admissible i \<Longrightarrow>
      alert_step policy key_of dedup_of i st (alert_of (fst (ingest i st))) (snd (ingest i st))"
    and files: "filed st \<Longrightarrow> admissible i \<Longrightarrow> filed (snd (ingest i st))"
    and dedup_inj: "upper (al_symbol a) = al_symbol a \<Longrightarrow> upper (al_symbol b) = al_symbol b \<Longrightarrow>
      dedup_of a w = dedup_of b v \<Longrightarrow> 0 \<le> w \<Longrightarrow> 0 \<le> v \<Longrightarrow>
      key_of a = key_of b \<and> al_severity a = al_severity b \<and> w = v"
    and dedup_warning: "dedup_of a w \<noteq> warning_key r"
begin

lemma run_filed: "filed st \<Longrightarrow> \<forall>i\<in>set is. admissible i \<Longrightarrow> filed (snd (alert_run ingest is st))"
  by (induction "is" arbitrary: st) (auto simp: Let_def intro: files)

lemma step_created:
  assumes "filed st" "admissible i" "alert_of (fst (ingest i st)) = Some a"
  shows "al_created_at a = clock i"
  using gate [OF assms(1,2)] unfolding assms(3) by (cases rule: alert_step.cases) simp_all

lemma run_created:
  assumes "filed st" "\<forall>i\<in>set is. admissible i" "b \<in> set (fst (alert_run ingest is st))"
  shows "\<exists>i\<in>set is. al_created_at b = clock i"
  using assms
proof (induction "is" arbitrary: st)
  case (Cons i "is")
  then have "filed (snd (ingest i st))" by (simp add: files)
  with Cons step_created [of st i b] show ?case
    by (auto simp: Let_def split: option.splits)
qed simp

text \<open>After an emission every later one of its key within the cooldown is more severe.\<close>

lemma held_escalates:
  assumes "filed st" "\<forall>i\<in>set is. admissible i" "sorted (map clock is)" "\<forall>i\<in>set is. t0 \<le> clock i"
    and "dget (ae_last_emitted st) (key_of b) = Some (t0, s0)"
    and "b \<in> set (fst (alert_run ingest is st))" "gated b" "al_created_at b - t0 < ap_cooldown policy"
  shows "severity_rank s0 < severity_rank (al_severity b)"
  using assms
proof (induction "is" arbitrary: st t0 s0)
  case (Cons i "is")
  define st' where "st' = snd (ingest i st)"
  have step: "alert_step policy key_of dedup_of i st (alert_of (fst (ingest i st))) st'"
    unfolding st'_def using Cons.prems(1,2) by (intro gate) simp_all
  have filed': "filed st'" using Cons.prems(1,2) by (simp add: st'_def files)
  have later: "b \<in> set (fst (alert_run ingest is st')) \<Longrightarrow>
      dget (ae_last_emitted st') (key_of b) = Some (t1, s1) \<Longrightarrow> \<forall>j\<in>set is. t1 \<le> clock j \<Longrightarrow>
      al_created_at b - t1 < ap_cooldown policy \<Longrightarrow> severity_rank s1 < severity_rank (al_severity b)" for t1 s1
    using Cons.IH [OF filed'] Cons.prems(2,3,7) by auto
  show ?case
  proof (cases "alert_of (fst (ingest i st))")
    case None
    then have "dget (ae_last_emitted st') (key_of b) = Some (t0, s0)" "b \<in> set (fst (alert_run ingest is st'))"
      using step Cons.prems(5,6) by (auto simp: Let_def st'_def elim: alert_step_None)
    then show ?thesis using later Cons.prems(4,8) by simp
  next
    case (Some a)
    have b: "b = a \<or> b \<in> set (fst (alert_run ingest is st'))"
      using Cons.prems(6) Some by (auto simp: Let_def st'_def)
    from step [unfolded Some] show ?thesis
    proof (cases rule: alert_step.cases)
      case (warning r)
      then have "b \<noteq> a" using Cons.prems(7) by (auto simp: gated_def)
      then show ?thesis using b later warning Cons.prems(4,5,8) by simp
    next
      case emission
      have escalates: "severity_rank s0 < severity_rank (al_severity a)"
        if "key_of a = key_of b" "clock i - t0 < ap_cooldown policy"
        using emission(4) Cons.prems(5) that by (force simp: cooling_def)
      show ?thesis
      proof (cases "key_of a = key_of b")
        case False
        then have "b \<in> set (fst (alert_run ingest is st'))" "dget (ae_last_emitted st') (key_of b) = Some (t0, s0)"
          using b emission Cons.prems(5) by (auto simp: dict_simps)
        then show ?thesis using later Cons.prems(4,8) by simp
      next
        case True
        then have last: "dget (ae_last_emitted st') (key_of b) = Some (clock i, al_severity a)"
          using emission by (simp add: dict_simps)
        from b show ?thesis
        proof
          assume "b = a"
          then show ?thesis using escalates emission(3) Cons.prems(8) by simp
        next
          assume in_rest: "b \<in> set (fst (alert_run ingest is st'))"
          have order: "t0 \<le> clock i" "\<forall>j\<in>set is. clock i \<le> clock j" using Cons.prems(3,4) by auto
          have "clock i \<le> al_created_at b"
            using run_created [OF filed' _ in_rest] Cons.prems(2) order(2) by auto
          then have "clock i - t0 < ap_cooldown policy" "al_created_at b - clock i < ap_cooldown policy"
            using Cons.prems(8) order(1) by simp_all
          then show ?thesis using escalates [OF True] later [OF in_rest last order(2)] by simp
        qed
      qed
    qed
  qed
qed simp

definition escalates :: "local_alert \<Rightarrow> local_alert \<Rightarrow> bool" where
  "escalates a b \<longleftrightarrow> (gated a \<and> gated b \<and> key_of a = key_of b \<and> al_created_at b - al_created_at a < ap_cooldown policy
     \<longrightarrow> severity_rank (al_severity a) < severity_rank (al_severity b))"

lemma run_escalates:
  assumes "filed st" "\<forall>i\<in>set is. admissible i" "sorted (map clock is)"
  shows "sorted_wrt escalates (fst (alert_run ingest is st))"
  using assms
proof (induction "is" arbitrary: st)
  case (Cons i "is")
  define st' where "st' = snd (ingest i st)"
  have step: "alert_step policy key_of dedup_of i st (alert_of (fst (ingest i st))) st'"
    unfolding st'_def using Cons.prems by (intro gate) simp_all
  have filed': "filed st'" using Cons.prems by (simp add: st'_def files)
  have rest: "sorted_wrt escalates (fst (alert_run ingest is st'))"
    using Cons.IH [OF filed'] Cons.prems(2,3) by simp
  show ?case
  proof (cases "alert_of (fst (ingest i st))")
    case (Some a)
    have "escalates a b" if b: "b \<in> set (fst (alert_run ingest is st'))" for b
      using step [unfolded Some]
    proof (cases rule: alert_step.cases)
      case emission
      then show ?thesis
        using held_escalates [of st' "is" "clock i" b "al_severity a"] filed' b Cons.prems(2,3)
        by (auto simp: escalates_def dict_simps)
    qed (simp add: escalates_def gated_def)
    with rest show ?thesis by (simp add: Some Let_def flip: st'_def)
  qed (use rest in \<open>simp add: Let_def flip: st'_def\<close>)
qed simp

text \<open>Every alert carries a deduplication key of its own.\<close>

lemma run_keys:
  assumes "filed st" "\<forall>i\<in>set is. admissible i"
  shows "distinct (map al_deduplication_key (fst (alert_run ingest is st))) \<and>
    set (map al_deduplication_key (fst (alert_run ingest is st))) \<inter> set (ae_emitted_keys st) = {}"
  using assms
proof (induction "is" arbitrary: st)
  case (Cons i "is")
  define st' where "st' = snd (ingest i st)"
  have step: "alert_step policy key_of dedup_of i st (alert_of (fst (ingest i st))) st'"
    unfolding st'_def using Cons.prems by (intro gate) simp_all
  have "filed st'" using Cons.prems by (simp add: st'_def files)
  from Cons.IH [OF this] Cons.prems(2) have rest:
    "distinct (map al_deduplication_key (fst (alert_run ingest is st')))"
    "set (map al_deduplication_key (fst (alert_run ingest is st'))) \<inter> set (ae_emitted_keys st') = {}" by simp_all
  show ?case
  proof (cases "alert_of (fst (ingest i st))")
    case None
    then have "ae_emitted_keys st' = ae_emitted_keys st" using step by (auto elim: alert_step_None)
    with None rest show ?thesis by (simp add: Let_def flip: st'_def)
  next
    case (Some a)
    have "set (ae_emitted_keys st') = insert (al_deduplication_key a) (set (ae_emitted_keys st))"
      "al_deduplication_key a \<notin> set (ae_emitted_keys st)"
      using step [unfolded Some] by (cases rule: alert_step.cases; simp)+
    then show ?thesis using rest by (auto simp: Some Let_def simp flip: st'_def)
  qed
qed simp

text \<open>Why a key is in the set: a warning, or an emission whose record is kept or was superseded.\<close>

definition accounted :: "instant \<Rightarrow> 'z alert_state_scheme \<Rightarrow> string \<Rightarrow> bool" where
  "accounted now st key \<longleftrightarrow> (\<exists>r. key = warning_key r) \<or>
     (\<exists>a t t' s'. upper (al_symbol a) = al_symbol a \<and> key = dedup_of a (window_of policy t) \<and>
        dget (ae_last_emitted st) (key_of a) = Some (t', s') \<and> 0 \<le> t \<and> t \<le> t' \<and> t' \<le> now \<and>
        (t' - t < ap_cooldown policy \<longrightarrow> severity_rank (al_severity a) \<le> severity_rank s'))"

lemma accounted_mono:
  assumes "accounted t0 st key" "t0 \<le> now" "ae_last_emitted st' = ae_last_emitted st"
  shows "accounted now st' key"
  using assms(1) unfolding accounted_def assms(3)
proof (elim disjE exE conjE, goal_cases warned issued)
  case (issued a t t' s')
  with assms(2) show ?case
    by (intro disjI2 exI [of _ a] exI [of _ t] exI [of _ t'] exI [of _ s']) simp
qed blast

lemma accounted_step:
  assumes "filed st" "admissible i" "\<forall>key\<in>set (ae_emitted_keys st). accounted t0 st key" "t0 \<le> clock i" "0 \<le> clock i"
    and "key \<in> set (ae_emitted_keys (snd (ingest i st)))"
  shows "accounted (clock i) (snd (ingest i st)) key"
proof -
  define st' where "st' = snd (ingest i st)"
  have old: "accounted (clock i) st' k" if "k \<in> set (ae_emitted_keys st)"
    "ae_last_emitted st' = ae_last_emitted st" for k
    using accounted_mono assms(3,4) that by blast
  have present: "key \<in> set (ae_emitted_keys st')" using assms(6) by (simp add: st'_def)
  have "alert_step policy key_of dedup_of i st (alert_of (fst (ingest i st))) st'"
    unfolding st'_def using assms(1,2) by (rule gate)
  then have "accounted (clock i) st' key"
  proof (cases rule: alert_step.cases)
    case silent
    then show ?thesis using present old by simp
  next
    case (warning a r)
    then show ?thesis using present old by (auto simp: accounted_def)
  next
    case (emission b)
    have upper: "upper (al_symbol b) = al_symbol b" using assms(2) emission by (simp add: admissible_def)
    show ?thesis
    proof (cases "key = al_deduplication_key b")
      case True
      then show ?thesis using emission upper assms(5) unfolding accounted_def
        by (intro disjI2 exI [of _ b] exI [of _ "clock i"] exI [of _ "al_severity b"])
          (simp add: dict_simps)
    next
      case False
      then have "accounted t0 st key" using assms(3) present emission by simp
      then show ?thesis unfolding accounted_def
      proof (elim disjE exE conjE, goal_cases warned issued)
        case (issued a t t' s')
        show ?case
        proof (cases "key_of a = key_of b")
          case True
          have "severity_rank (al_severity a) \<le> severity_rank (al_severity b)" if "clock i - t < ap_cooldown policy"
            using emission(5) issued that assms(4) True by (force simp: cooling_def)
          with issued emission True assms(4) show ?thesis
            by (intro disjI2 exI [of _ a] exI [of _ t] exI [of _ "clock i"] exI [of _ "al_severity b"])
              (simp add: dict_simps)
        next
          case False
          with issued emission assms(4) show ?thesis
            by (intro disjI2 exI [of _ a] exI [of _ t] exI [of _ t'] exI [of _ s'])
              (simp add: dict_simps)
        qed
      qed blast
    qed
  qed
  then show ?thesis by (simp add: st'_def)
qed

lemma run_accounted:
  assumes "filed st" "\<forall>i\<in>set is. admissible i" "sorted (map clock is)" "\<forall>i\<in>set is. t0 \<le> clock i \<and> clock i \<le> now"
    and "0 \<le> t0" "t0 \<le> now" "\<forall>key\<in>set (ae_emitted_keys st). accounted t0 st key"
  shows "\<forall>key\<in>set (ae_emitted_keys (snd (alert_run ingest is st))). accounted now (snd (alert_run ingest is st)) key"
  using assms
proof (induction "is" arbitrary: st t0)
  case Nil
  then show ?case using accounted_mono by (metis alert_run.simps(1) snd_conv)
next
  case (Cons i "is")
  have "\<forall>key\<in>set (ae_emitted_keys (snd (ingest i st))). accounted (clock i) (snd (ingest i st)) key"
    using accounted_step [of st i t0] Cons.prems by auto
  then show ?case
    using Cons.IH [of "snd (ingest i st)" "clock i"] Cons.prems by (simp add: Let_def files)
qed

text \<open>An alert that is not cooling is never held back by the set of published keys.\<close>

lemma not_cooling_fresh_key:
  assumes "seconds 1 \<le> ap_cooldown policy" "\<forall>key\<in>set (ae_emitted_keys st). accounted now st key"
    and "upper (al_symbol b) = al_symbol b" "\<not> cooling policy st (key_of b) (al_severity b) now"
  shows "dedup_of b (window_of policy now) \<notin> set (ae_emitted_keys st)"
proof
  assume "dedup_of b (window_of policy now) \<in> set (ae_emitted_keys st)"
  then have "accounted now st (dedup_of b (window_of policy now))" using assms(2) by blast
  then obtain a t t' s' where a: "upper (al_symbol a) = al_symbol a"
    "dedup_of b (window_of policy now) = dedup_of a (window_of policy t)"
    "dget (ae_last_emitted st) (key_of a) = Some (t', s')" "0 \<le> t" "t \<le> t'" "t' \<le> now"
    "t' - t < ap_cooldown policy \<longrightarrow> severity_rank (al_severity a) \<le> severity_rank s'"
    using dedup_warning unfolding accounted_def by blast
  have nonneg: "0 \<le> window_of policy u" if "0 \<le> u" for u
    using that assms(1) by (simp add: window_of_def whole_seconds_def seconds_def div_int_pos_iff)
  from dedup_inj [OF assms(3) a(1,2)] nonneg a(4-6)
  have same: "key_of b = key_of a" "al_severity b = al_severity a" "window_of policy now = window_of policy t" by auto
  from same_window [OF assms(1) a(4)] same(3) a(5,6) have "now - t < ap_cooldown policy" by simp
  with a(5-7) assms(4) same(1,2) a(3) show False by (auto simp: cooling_def)
qed

end

end
