(* ===== verification/Alert_Gates.thy ===== *)
theory Alert_Gates
  imports Alert_Laws
begin

text \<open>
  The three alert engines refine the gate of Alert_Laws: the interpretations of its locale, and with them
  the laws of their runs.
\<close>

section \<open>Filing\<close>

lemma set_dput: "p \<in> set (dput k v d) \<Longrightarrow> p = (k, v) \<or> p \<in> set d"
  by (induction d) (auto split: if_splits)

lemma latest_of_stored:
  "latest_of (stored st r) symbol =
     (if symbol = ar_symbol r then dput (ar_horizon r) r (latest_of st symbol) else latest_of st symbol)"
  by (simp add: latest_of_def stored_def dict_simps)

lemma filed_stored: "filed st \<Longrightarrow> valid_analysis r \<Longrightarrow> filed (stored st r)"
  unfolding filed_def latest_of_stored using set_dput by (smt (verit, best) fst_conv snd_conv)

lemma stored_sel [simp]:
  "ae_last_emitted (stored st r) = ae_last_emitted st" "ae_emitted_keys (stored st r) = ae_emitted_keys st"
  by (simp_all add: stored_def)

lemma filed_cong: "ae_latest st' = ae_latest st \<Longrightarrow> filed st' \<longleftrightarrow> filed st"
  by (simp add: filed_def latest_of_def)

lemma filed_initial: "filed initial_alerts"
  by (simp add: filed_def latest_of_def initial_alerts_def)

lemma fresh_values_member:
  assumes "filed st" "dget (fresh_values policy st symbol now) h = Some r"
  shows "ar_symbol r = symbol \<and> ar_horizon r = h \<and> valid_analysis r \<and> ar_verdict r \<noteq> AV_INSUFFICIENT_DATA \<and>
    now - ar_as_of r \<le> hp_max_age (for_horizon policy h)"
  using map_of_SomeD [OF assms(2)] assms(1) by (fastforce simp: fresh_values_def filed_def)

lemma analysis_time_Inr: "analysis_time r now = Inr t \<longleftrightarrow> now = Aware t 0 \<and> ar_as_of r \<le> t"
  by (cases now) (auto simp: analysis_time_def require_utc_def not_future_def bind_result_Inr)

lemma clock_analysis_time: "analysis_time r (snd (snd i)) = Inr t \<Longrightarrow> clock i = t"
  by (auto simp: clock_def analysis_time_Inr)

section \<open>Keys\<close>

text \<open>Facts about the text of an enumeration are evaluated on its members.\<close>

lemma severity_upper: "upper (alert_severity_value s) = alert_severity_value s"
proof -
  have "\<forall>s\<in>set alert_severity_members. upper (alert_severity_value s) = alert_severity_value s" by code_simp
  with alert_severity_enum.members_complete show ?thesis by blast
qed

lemma kind_upper: "upper (alert_kind_value k) = alert_kind_value k"
proof -
  have "\<forall>k\<in>set alert_kind_members. upper (alert_kind_value k) = alert_kind_value k" by code_simp
  with alert_kind_enum.members_complete show ?thesis by blast
qed

lemma severity_text_inj: "lower (alert_severity_value s) = lower (alert_severity_value t) \<longleftrightarrow> s = t"
  using lower_inj [OF severity_upper severity_upper] alert_severity_enum.wire_inj by metis

lemma kind_text_inj: "lower (alert_kind_value k) = lower (alert_kind_value l) \<longleftrightarrow> k = l"
  using lower_inj [OF kind_upper kind_upper] alert_kind_enum.wire_inj by metis

lemma lower_no_colon: "CHR '':'' \<notin> set s \<Longrightarrow> CHR '':'' \<notin> set (lower s)"
proof -
  have "lower_char c \<noteq> CHR '':''" if "c \<noteq> CHR '':''" for c
  proof (cases "isupper c")
    case True
    then have "code (char_of (code c + 32)) = code c + 32" "65 \<le> code c"
      by (auto simp: isupper_def intro!: code_char_of)
    then have "code (lower_char c) \<noteq> 58" using True by (simp add: lower_char_def)
    then show ?thesis by (auto simp: code_def)
  qed (use that in \<open>simp add: lower_char_def\<close>)
  then show "CHR '':'' \<notin> set s \<Longrightarrow> CHR '':'' \<notin> set (lower s)" by (force simp: lower_def)
qed

lemma texts_no_colon:
  "CHR '':'' \<notin> set (lower (alert_severity_value s))" "CHR '':'' \<notin> set (lower (alert_kind_value k))"
  "CHR '':'' \<notin> set (lower (analysis_horizon_value h))"
proof -
  show "CHR '':'' \<notin> set (lower (alert_severity_value s))" by (rule lower_no_colon, cases s; simp)
  show "CHR '':'' \<notin> set (lower (alert_kind_value k))" by (rule lower_no_colon, cases k; simp)
  show "CHR '':'' \<notin> set (lower (analysis_horizon_value h))" by (rule lower_no_colon, cases h; simp)
qed

lemma join_with_no_sep: "c \<noteq> sep \<Longrightarrow> \<forall>t\<in>set ts. c \<notin> set t \<Longrightarrow> c \<notin> set (join_with sep ts)"
  by (induction sep ts rule: join_with.induct) auto

lemma warning_key_strip: "valid_analysis r \<Longrightarrow> strip (warning_key r) = warning_key r"
proof (rule strip_id)
  assume "valid_analysis r"
  then have "sha256_ref (ar_context_hash r)"
    by (auto simp: valid_analysis_def make_analysis_result_def analysis_result_fields_def split: if_splits)
  then have hash: "length (ar_context_hash r) = 71" "\<forall>c\<in>set (drop 7 (ar_context_hash r)). \<not> isspace c"
    unfolding sha256_ref_def using isspace_isdigit by (auto simp: isspace_def)
  then have "drop 7 (ar_context_hash r) \<noteq> []" by auto
  with hash(2) have "\<not> isspace (last (drop 7 (ar_context_hash r)))" using last_in_set by blast
  moreover have "last (warning_key r) = last (drop 7 (ar_context_hash r))"
    using hash(1) by (auto simp: warning_key_def last_drop)
  ultimately show "\<not> isspace (last (warning_key r))" by simp
qed (simp_all add: warning_key_def isspace_def code_def)

section \<open>Steps of the builders\<close>

lemma dilution_warning_gate:
  assumes "dilution_warning_alert policy aid r t st = Inr (out, st')" "valid_analysis r" "clock i = t"
  shows "alert_step policy key_of dedup_of i st out st' \<and> ae_latest st' = ae_latest st"
proof (cases out)
  case None
  then have "st' = st" using assms(1)
    by (auto simp: dilution_warning_alert_def Let_def bind_result_Inr split: option.splits if_splits)
  then show ?thesis by (simp add: None alert_step.silent)
next
  case (Some a)
  have fresh: "warning_key r \<notin> set (ae_emitted_keys st)"
    and st': "st' = st \<lparr> ae_emitted_keys := List.insert (warning_key r) (ae_emitted_keys st) \<rparr>"
    and a: "al_kind a = AK_SEC_WARNING" "al_deduplication_key a = strip (warning_key r)" "al_created_at a = t"
    using assms(1) Some
    by (auto simp: dilution_warning_alert_def Let_def bind_result_Inr make_local_alert_Inr
        split: option.splits if_splits)
  show ?thesis unfolding Some
  proof (intro conjI alert_step.warning [where r = r])
    show "al_deduplication_key a = warning_key r" using a(2) warning_key_strip [OF assms(2)] by simp
  qed (use fresh a assms(3) in \<open>simp_all add: st'\<close>)
qed

lemma remember_sel [simp]:
  "ae_latest (remember key sk now sev st) = ae_latest st"
  "ae_emitted_keys (remember key sk now sev st) = List.insert key (ae_emitted_keys st)"
  "ae_last_emitted (remember key sk now sev st) = dput sk (now, sev) (ae_last_emitted st)"
  by (simp_all add: remember_def)

lemma key_strip: "hd s = CHR ''a'' \<Longrightarrow> strip (s @ int_text w) = s @ int_text w" if "s \<noteq> []" for s
  by (rule strip_id) (use that int_text_last [of w] in \<open>simp_all add: isspace_def code_def\<close>)

definition named_components :: "local_alert \<Rightarrow> analysis_horizon list" where
  "named_components a = filter (\<lambda>h. h \<noteq> AH_DILUTION) (al_horizons a)"

definition horizons_key :: "analysis_horizon list \<Rightarrow> string" where
  "horizons_key hs = join_with CHR ''-'' (map (\<lambda>h. lower (analysis_horizon_value h)) hs)"

lemma component_key_horizons: "component_key components = horizons_key (map ar_horizon components)"
  by (simp add: component_key_def horizons_key_def comp_def)

text \<open>The state key and the deduplication key of a named alert, read from the alert.\<close>

definition named_key_of :: "local_alert \<Rightarrow> string \<times> string" where
  "named_key_of a = named_state_key (al_symbol a) (al_kind a) (horizons_key (named_components a))"

definition named_dedup_of :: "local_alert \<Rightarrow> int \<Rightarrow> string" where
  "named_dedup_of a w = named_key (al_symbol a) (al_kind a) (horizons_key (named_components a)) (al_severity a) w"

lemma named_key_split:
  "named_key symbol kind ck severity w =
     (((''alert:v2:'' @ lower symbol) @ CHR '':'' # lower (alert_kind_value kind)) @ CHR '':'' # ck)
     @ CHR '':'' # lower (alert_severity_value severity) @ CHR '':'' # int_text w"
  by (simp add: named_key_def)

lemma named_key_strip: "strip (named_key symbol kind ck severity w) = named_key symbol kind ck severity w"
  using key_strip [of "''alert:v2:'' @ lower symbol @ '':'' @ lower (alert_kind_value kind) @ '':'' @ ck @ '':''
     @ lower (alert_severity_value severity) @ '':''" w] by (simp add: named_key_def)

lemma horizons_key_no_colon: "CHR '':'' \<notin> set (horizons_key hs)"
  unfolding horizons_key_def by (rule join_with_no_sep) (auto simp: texts_no_colon)

lemma named_key_inj:
  assumes "named_key s k c v w = named_key s' k' c' v' w'" "CHR '':'' \<notin> set c" "CHR '':'' \<notin> set c'"
    "upper s = s" "upper s' = s'" "0 \<le> w" "0 \<le> w'"
  shows "s = s' \<and> k = k' \<and> c = c' \<and> v = v' \<and> w = w'"
proof -
  let ?K = "\<lambda>s k. (''alert:v2:'' @ lower s) @ CHR '':'' # lower (alert_kind_value k)"
  let ?S = "\<lambda>s k c v. (?K s k @ CHR '':'' # c) @ CHR '':'' # lower (alert_severity_value v)"
  have split: "named_key s k c v w = ?S s k c v @ CHR '':'' # int_text w" for s k c v w
    by (simp add: named_key_split)
  from assms(1) have "?S s k c v = ?S s' k' c' v' \<and> int_text w = int_text w'"
    unfolding split by (rule last_field_eq) (rule int_text_no_colon)+
  then have w: "w = w'" and 1: "?S s k c v = ?S s' k' c' v'" using int_text_inj assms(6,7) by blast+
  from 1 have 2: "?K s k @ CHR '':'' # c = ?K s' k' @ CHR '':'' # c' \<and>
      lower (alert_severity_value v) = lower (alert_severity_value v')"
    by (rule last_field_eq) (rule texts_no_colon)+
  then have v: "v = v'" by (simp only: severity_text_inj)
  from 2 have "?K s k @ CHR '':'' # c = ?K s' k' @ CHR '':'' # c'" by blast
  then have 3: "?K s k = ?K s' k' \<and> c = c'" by (rule last_field_eq) (rule assms)+
  then have "?K s k = ?K s' k'" by blast
  then have "''alert:v2:'' @ lower s = ''alert:v2:'' @ lower s' \<and>
      lower (alert_kind_value k) = lower (alert_kind_value k')"
    by (rule last_field_eq) (rule texts_no_colon)+
  then have "lower s = lower s'" "k = k'" by (simp_all add: kind_text_inj)
  with 3 v w lower_inj assms(4,5) show ?thesis by blast
qed

lemma build_named_None:
  assumes "build_named_alert policy c aid symbol kind components fresh t st = Inr (None, st')"
  shows "st' = st"
  using assms by (auto simp: build_named_alert_def Let_def bind_result_Inr split: if_splits)

lemma build_named_Some:
  assumes "build_named_alert policy c aid symbol kind components fresh t st = Inr (Some a, st')"
  shows "al_kind a = kind \<and> al_symbol a = symbol \<and> al_created_at a = t \<and> ae_latest st' = ae_latest st \<and>
    al_component_analyses a = components @ (case dget fresh AH_DILUTION of None \<Rightarrow> [] | Some r \<Rightarrow> [r]) \<and>
    al_horizons a = map ar_horizon (al_component_analyses a) \<and>
    (\<exists>score. combined_score components policy = Inr score \<and>
       al_message a = strip (alert_message kind (length components) score))"
  using assms
  by (auto simp: build_named_alert_def Let_def bind_result_Inr make_local_alert_def split: if_splits)

lemma build_named_gate:
  assumes "build_named_alert policy c aid (ar_symbol (input_analysis i)) kind components fresh t st = Inr (out, st')"
    and "\<forall>r\<in>set components. ar_horizon r \<noteq> AH_DILUTION"
    and "\<And>r. dget fresh AH_DILUTION = Some r \<Longrightarrow> ar_horizon r = AH_DILUTION"
    and "kind \<noteq> AK_SEC_WARNING" "clock i = t"
  shows "alert_step policy named_key_of named_dedup_of i st out st' \<and> ae_latest st' = ae_latest st"
proof (cases out)
  case None
  then have "st' = st" using assms(1) build_named_None by blast
  then show ?thesis by (simp add: None alert_step.silent)
next
  case (Some a)
  let ?symbol = "ar_symbol (input_analysis i)"
  let ?embedded = "components @ (case dget fresh AH_DILUTION of None \<Rightarrow> [] | Some r \<Rightarrow> [r])"
  obtain severity where run: "\<not> cooling policy st (named_state_key ?symbol kind (component_key components)) severity t"
    "named_key ?symbol kind (component_key components) severity (window_of policy t) \<notin> set (ae_emitted_keys st)"
    "st' = remember (named_key ?symbol kind (component_key components) severity (window_of policy t))
        (named_state_key ?symbol kind (component_key components)) t severity st"
    and a: "al_symbol a = ?symbol" "al_kind a = kind" "al_severity a = severity" "al_created_at a = t"
      "al_horizons a = map ar_horizon ?embedded"
      "al_deduplication_key a = strip (named_key ?symbol kind (component_key components) severity (window_of policy t))"
    using assms(1) Some
    by (auto simp: build_named_alert_def Let_def bind_result_Inr make_local_alert_Inr alert_window_Inr split: if_splits)
  have "named_components a = map ar_horizon components"
    using assms(2,3) by (auto simp: named_components_def a filter_id_conv split: option.splits)
  then have keys: "named_key_of a = named_state_key ?symbol kind (component_key components)"
    "named_dedup_of a w = named_key ?symbol kind (component_key components) severity w" for w
    by (simp_all add: named_key_of_def named_dedup_of_def a component_key_horizons)
  show ?thesis unfolding Some
    by (intro conjI alert_step.emission) (use run assms(4,5) in \<open>simp_all add: a keys named_key_strip gated_def\<close>)
qed

section \<open>The first engine\<close>

definition consensus_key_of :: "local_alert \<Rightarrow> string \<times> string" where
  "consensus_key_of a =
     (al_symbol a, if hd (al_reasons a) = ''bullish_consensus'' then ''BULLISH'' else ''BEARISH'')"

definition consensus_dedup_of :: "local_alert \<Rightarrow> int \<Rightarrow> string" where
  "consensus_dedup_of a w = consensus_key (al_symbol a) (snd (consensus_key_of a)) (al_severity a) w"

lemma directions_text:
  "replace_char CHR '' '' CHR ''-'' (lower ''BULLISH'') = ''bullish''"
  "replace_char CHR '' '' CHR ''-'' (lower ''BEARISH'') = ''bearish''"
  "strip (lower ''BULLISH'' @ ''_consensus'') = ''bullish_consensus''"
  "strip (lower ''BEARISH'' @ ''_consensus'') = ''bearish_consensus''"
  by code_simp+

lemma consensus_key_strip: "strip (consensus_key symbol d severity w) = consensus_key symbol d severity w"
  using key_strip [of "''alert:v1:'' @ lower symbol @ '':'' @ replace_char CHR '' '' CHR ''-'' (lower d) @ '':''
     @ lower (alert_severity_value severity) @ '':''" w] by (simp add: consensus_key_def)

lemma consensus_key_inj:
  assumes "consensus_key s d v w = consensus_key s' d' v' w'" "d \<in> {''BULLISH'', ''BEARISH''}" "d' \<in> {''BULLISH'', ''BEARISH''}"
    "upper s = s" "upper s' = s'" "0 \<le> w" "0 \<le> w'"
  shows "s = s' \<and> d = d' \<and> v = v' \<and> w = w'"
proof -
  let ?D = "\<lambda>d. replace_char CHR '' '' CHR ''-'' (lower d)"
  let ?K = "\<lambda>s d. (''alert:v1:'' @ lower s) @ CHR '':'' # ?D d"
  let ?S = "\<lambda>s d v. ?K s d @ CHR '':'' # lower (alert_severity_value v)"
  have colon: "CHR '':'' \<notin> set (?D d)" "CHR '':'' \<notin> set (?D d')"
    using assms(2,3) by (auto simp: directions_text)
  have split: "consensus_key s d v w = ?S s d v @ CHR '':'' # int_text w" for s d v w
    by (simp add: consensus_key_def)
  from assms(1) have "?S s d v = ?S s' d' v' \<and> int_text w = int_text w'"
    unfolding split by (rule last_field_eq) (rule int_text_no_colon)+
  then have w: "w = w'" and 1: "?S s d v = ?S s' d' v'" using int_text_inj assms(6,7) by blast+
  from 1 have 2: "?K s d = ?K s' d' \<and> lower (alert_severity_value v) = lower (alert_severity_value v')"
    by (rule last_field_eq) (rule texts_no_colon)+
  then have v: "v = v'" by (simp only: severity_text_inj)
  from 2 have "?K s d = ?K s' d'" by blast
  then have "''alert:v1:'' @ lower s = ''alert:v1:'' @ lower s' \<and> ?D d = ?D d'"
    by (rule last_field_eq) (rule colon)+
  then have "lower s = lower s'" "d = d'" using assms(2,3) by (auto simp: directions_text)
  with v w lower_inj assms(4,5) show ?thesis by blast
qed

lemma consensus_alert_gate:
  assumes "consensus_alert policy c aid (ar_symbol (input_analysis i)) t st = Inr (out, st')" "clock i = t"
  shows "alert_step policy consensus_key_of consensus_dedup_of i st out st' \<and> ae_latest st' = ae_latest st"
proof (cases out)
  case None
  then have "st' = st" using assms(1)
    by (auto simp: consensus_alert_def build_alert_def Let_def bind_result_Inr split: if_splits option.splits)
  then show ?thesis by (simp add: None alert_step.silent)
next
  case (Some a)
  let ?symbol = "ar_symbol (input_analysis i)"
  let ?fresh = "fresh_values policy st ?symbol t"
  from assms(1) Some obtain scored where scored: "directional_score policy ?fresh = Inr scored"
    and rest: "(case scored of None \<Rightarrow> Inr (None, st)
        | Some (direction, score) \<Rightarrow>
            (case severity_of policy score of None \<Rightarrow> Inr (None, st)
             | Some severity \<Rightarrow>
                 build_alert policy aid ?symbol ?fresh direction severity score
                   ((lower direction @ ''_consensus'') #
                    (case dilution_reason (dget ?fresh AH_DILUTION) of None \<Rightarrow> [] | Some reason \<Rightarrow> [reason])
                    @ component_reasons c ?fresh) t st)) = Inr (Some a, st')"
    unfolding consensus_alert_def Let_def by (auto simp only: bind_result_Inr prod.inject split: if_splits)
  obtain d score where sd: "scored = Some (d, score)" using rest by (cases scored) auto
  obtain severity where sev: "severity_of policy score = Some severity"
    using rest sd by (cases "severity_of policy score") auto
  from scored sd have d: "directional_score policy ?fresh = Inr (Some (d, score))" by simp
  obtain reasons where
    build: "build_alert policy aid ?symbol ?fresh d severity score ((lower d @ ''_consensus'') # reasons) t st
        = Inr (out, st')"
    using rest sd sev Some by simp
  have dir: "d = ''BULLISH'' \<or> d = ''BEARISH''"
    using d by (auto simp: directional_score_def Let_def bind_result_Inr split: if_splits)
  from build Some have run: "\<not> cooling policy st (?symbol, d) severity t"
    "consensus_key ?symbol d severity (window_of policy t) \<notin> set (ae_emitted_keys st)"
    "st' = remember (consensus_key ?symbol d severity (window_of policy t)) (?symbol, d) t severity st"
    and a: "al_symbol a = ?symbol" "al_kind a = AK_CONSENSUS" "al_severity a = severity" "al_created_at a = t"
      "al_deduplication_key a = strip (consensus_key ?symbol d severity (window_of policy t))"
      "al_reasons a = map strip (fromkeys ((lower d @ ''_consensus'') # reasons))"
    by (auto simp: build_alert_def Let_def bind_result_Inr make_local_alert_Inr alert_window_Inr split: if_splits)
  have "hd (al_reasons a) = strip (lower d @ ''_consensus'')" by (simp add: a)
  then have "consensus_key_of a = (?symbol, d)"
    using dir directions_text(3,4) by (auto simp: consensus_key_of_def a(1))
  then show ?thesis unfolding Some
    by (intro conjI alert_step.emission)
      (use run assms(2) in \<open>simp_all add: a consensus_dedup_of_def consensus_key_strip gated_def\<close>)
qed

definition run_v1 :: "alert_policy \<Rightarrow> alert_codec \<Rightarrow> alert_input \<Rightarrow> 'z alert_state_scheme \<Rightarrow>
    local_alert option result \<times> 'z alert_state_scheme" where
  "run_v1 policy c i st = ingest_v1 policy c (fst i) (input_analysis i) (snd (snd i)) st"

definition run_v2 :: "alert_policy \<Rightarrow> alert_codec \<Rightarrow> alert_input \<Rightarrow> 'z alert_state_scheme \<Rightarrow>
    local_alert option result \<times> 'z alert_state_scheme" where
  "run_v2 policy c i st = ingest_v2 policy c (fst i) (input_analysis i) (snd (snd i)) st"

definition run_v3 :: "alert_policy \<Rightarrow> continuation_config \<Rightarrow> zone \<Rightarrow> alert_codec \<Rightarrow> alert_input \<Rightarrow>
    'z alert_state_v3_scheme \<Rightarrow> local_alert option result \<times> 'z alert_state_v3_scheme" where
  "run_v3 policy config z c i st = ingest_v3 policy config z c (fst i) (input_analysis i) (snd (snd i)) st"

text \<open>A step seen from the state before the analysis was stored.\<close>

lemma alert_step_stored:
  "alert_step policy key_of dedup_of i (stored st r) out st' \<longleftrightarrow> alert_step policy key_of dedup_of i st out st'"
  by (simp add: alert_step.simps cooling_def)

lemma alert_step_refl: "alert_step policy key_of dedup_of i st None st"
  by (simp add: alert_step.silent)

lemma settle_alert_gate:
  assumes "\<And>out st'. outcome = Inr (out, st') \<Longrightarrow>
      alert_step policy key_of dedup_of i st1 out st' \<and> ae_latest st' = ae_latest st1"
  shows "alert_step policy key_of dedup_of i st1 (alert_of (fst (settle_alert st1 outcome))) (snd (settle_alert st1 outcome)) \<and>
    ae_latest (snd (settle_alert st1 outcome)) = ae_latest st1"
proof (cases outcome)
  case (Inl e)
  then show ?thesis by (simp add: settle_alert_def alert_of_def alert_step_refl)
next
  case (Inr p)
  with assms [of "fst p" "snd p"] show ?thesis by (simp add: settle_alert_def alert_of_def split_beta)
qed

lemma run_v1_gate:
  assumes "filed st" "admissible i"
  shows "alert_step policy consensus_key_of consensus_dedup_of i st (alert_of (fst (run_v1 policy c i st)))
      (snd (run_v1 policy c i st)) \<and> filed (snd (run_v1 policy c i st))"
proof -
  let ?r = "input_analysis i"
  let ?st1 = "stored st ?r"
  show ?thesis
  proof (cases "\<exists>t. analysis_time ?r (snd (snd i)) = Inr t \<and> \<not> ignored st ?r")
    case False
    then show ?thesis using assms(1)
      by (auto simp: run_v1_def ingest_v1_def alert_of_def alert_step_refl split: sum.splits)
  next
    case True
    then obtain t where t: "analysis_time ?r (snd (snd i)) = Inr t" "\<not> ignored st ?r" by blast
    define outcome where "outcome =
      bind_result (consensus_alert policy c (fst i) (ar_symbol ?r) t ?st1) (\<lambda>(alert, st2).
        if alert \<noteq> None then Inr (alert, st2)
        else if ar_horizon ?r = AH_DILUTION then dilution_warning_alert policy (fst i) ?r t ?st1
        else Inr (None, ?st1))"
    have run: "run_v1 policy c i st = settle_alert ?st1 outcome"
      using t by (simp add: run_v1_def ingest_v1_def outcome_def Let_def)
    have "alert_step policy consensus_key_of consensus_dedup_of i ?st1 out st' \<and> ae_latest st' = ae_latest ?st1"
      if "outcome = Inr (out, st')" for out st'
    proof -
      obtain alert st2 where first: "consensus_alert policy c (fst i) (ar_symbol ?r) t ?st1 = Inr (alert, st2)"
        and rest: "(if alert \<noteq> None then Inr (alert, st2)
          else if ar_horizon ?r = AH_DILUTION then dilution_warning_alert policy (fst i) ?r t ?st1
          else Inr (None, ?st1)) = Inr (out, st')"
        using \<open>outcome = Inr (out, st')\<close> by (auto simp only: outcome_def bind_result_Inr prod.case)
      note time = clock_analysis_time [OF t(1)]
      have valid: "valid_analysis ?r" using assms(2) by (simp add: admissible_def)
      show ?thesis
      proof (cases alert)
        case (Some a)
        then show ?thesis using consensus_alert_gate [OF first time] rest by simp
      next
        case None
        then show ?thesis using dilution_warning_gate [OF _ valid time] rest
          by (cases "ar_horizon ?r = AH_DILUTION") (simp_all add: alert_step_refl)
      qed
    qed
    then have gate: "alert_step policy consensus_key_of consensus_dedup_of i ?st1
        (alert_of (fst (settle_alert ?st1 outcome))) (snd (settle_alert ?st1 outcome)) \<and>
        ae_latest (snd (settle_alert ?st1 outcome)) = ae_latest ?st1"
      by (rule settle_alert_gate)
    have "filed ?st1" using assms by (simp add: filed_stored admissible_def)
    with gate show ?thesis unfolding run alert_step_stored using filed_cong by blast
  qed
qed

lemma consensus_dedup_inj:
  assumes "upper (al_symbol a) = al_symbol a" "upper (al_symbol b) = al_symbol b"
    "consensus_dedup_of a w = consensus_dedup_of b v" "0 \<le> w" "0 \<le> v"
  shows "consensus_key_of a = consensus_key_of b \<and> al_severity a = al_severity b \<and> w = v"
proof -
  have "snd (consensus_key_of a) \<in> {''BULLISH'', ''BEARISH''}" for a by (simp add: consensus_key_of_def)
  from consensus_key_inj [OF assms(3) [unfolded consensus_dedup_of_def] this this assms(1,2,4,5)]
  show ?thesis by (simp only: prod_eq_iff) (simp add: consensus_key_of_def)
qed

lemma consensus_dedup_warning: "consensus_dedup_of a w \<noteq> warning_key r"
  by (simp add: consensus_dedup_of_def consensus_key_def warning_key_def)

interpretation consensus_engine: gated_engine policy consensus_key_of consensus_dedup_of "run_v1 policy c"
  for policy c
  by unfold_locales (rule run_v1_gate [THEN conjunct1] run_v1_gate [THEN conjunct2] consensus_dedup_inj
      consensus_dedup_warning; assumption?)+

section \<open>The second engine\<close>

lemma present_set: "set (present xs) = {x. Some x \<in> set xs}"
  by (force simp: present_def split: option.splits)

lemma bullish_above_Some:
  "bullish_above found minimum = Some r \<longleftrightarrow> found = Some r \<and> ar_direction r = PD_BULLISH \<and>
     ar_verdict r \<in> {AV_FAVORABLE, AV_WATCH} \<and> minimum \<le> dmul (ar_score r) (ar_confidence r)"
  by (auto simp: bullish_above_def split: option.splits)

text \<open>Every component of a selected alert is a fresh analysis of one of the three directional horizons.\<close>

lemma select_alert_components:
  assumes "select_alert policy incoming fresh = Some (kind, components)" "r \<in> set components"
  shows "\<exists>h\<in>{AH_LONG_TERM, AH_SWING, AH_INTRADAY}. dget fresh h = Some r"
proof -
  let ?b = "\<lambda>h. bullish_above (dget fresh h) (ap_watch_threshold policy)"
  have "r \<in> set (present [?b AH_LONG_TERM, ?b AH_SWING, ?b AH_INTRADAY])
      \<or> r \<in> set (filter is_bearish (present (map (dget fresh) [AH_LONG_TERM, AH_SWING, AH_INTRADAY])))"
    using assms by (auto simp: select_alert_def Let_def present_set split: if_splits)
  then show ?thesis by (auto simp: present_set bullish_above_Some eq_commute [of "Some r"])
qed

lemma select_alert_kind:
  "select_alert policy incoming fresh = Some (kind, components) \<Longrightarrow> kind \<noteq> AK_SEC_WARNING"
  by (auto simp: select_alert_def Let_def split: if_splits)

lemma run_v2_gate:
  assumes "filed st" "admissible i"
  shows "alert_step policy named_key_of named_dedup_of i st (alert_of (fst (run_v2 policy c i st)))
      (snd (run_v2 policy c i st)) \<and> filed (snd (run_v2 policy c i st))"
proof -
  let ?r = "input_analysis i"
  let ?st1 = "stored st ?r"
  have valid: "valid_analysis ?r" using assms(2) by (simp add: admissible_def)
  have filed: "filed ?st1" using assms(1) valid by (rule filed_stored)
  show ?thesis
  proof (cases "\<exists>t. analysis_time ?r (snd (snd i)) = Inr t \<and> \<not> ignored st ?r")
    case False
    then show ?thesis using assms(1)
      by (auto simp: run_v2_def ingest_v2_def alert_of_def alert_step_refl split: sum.splits)
  next
    case True
    then obtain t where t: "analysis_time ?r (snd (snd i)) = Inr t" "\<not> ignored st ?r" by blast
    note time = clock_analysis_time [OF t(1)]
    let ?fresh = "fresh_values policy ?st1 (ar_symbol ?r) t"
    define outcome where "outcome =
      (if ar_horizon ?r = AH_DILUTION then dilution_warning_alert policy (fst i) ?r t ?st1
       else case select_alert policy ?r ?fresh of None \<Rightarrow> Inr (None, ?st1)
         | Some (kind, components) \<Rightarrow>
             build_named_alert policy c (fst i) (ar_symbol ?r) kind components ?fresh t ?st1)"
    have run: "run_v2 policy c i st = settle_alert ?st1 outcome"
      using t by (simp add: run_v2_def ingest_v2_def outcome_def Let_def)
    have "alert_step policy named_key_of named_dedup_of i ?st1 out st' \<and> ae_latest st' = ae_latest ?st1"
      if result: "outcome = Inr (out, st')" for out st'
    proof (cases "ar_horizon ?r = AH_DILUTION")
      case True
      then show ?thesis using dilution_warning_gate [OF _ valid time] result by (simp add: outcome_def)
    next
      case False
      show ?thesis
      proof (cases "select_alert policy ?r ?fresh")
        case None
        then show ?thesis using result False by (auto simp: outcome_def alert_step_refl)
      next
        case (Some kc)
        obtain kind components where kc: "kc = (kind, components)" by (cases kc)
        have "ar_horizon r \<noteq> AH_DILUTION" if member: "r \<in> set components" for r
        proof -
          obtain h where "h \<in> {AH_LONG_TERM, AH_SWING, AH_INTRADAY}" "dget ?fresh h = Some r"
            using select_alert_components [OF Some [unfolded kc] member] by blast
          with fresh_values_member [OF filed, of policy "ar_symbol ?r" t h r] show ?thesis by auto
        qed
        moreover have "ar_horizon r = AH_DILUTION" if "dget ?fresh AH_DILUTION = Some r" for r
          using fresh_values_member [OF filed that] by blast
        moreover have "build_named_alert policy c (fst i) (ar_symbol ?r) kind components ?fresh t ?st1 = Inr (out, st')"
          using result False Some kc by (simp add: outcome_def)
        ultimately show ?thesis using build_named_gate select_alert_kind [OF Some [unfolded kc]] time by blast
      qed
    qed
    then have gate: "alert_step policy named_key_of named_dedup_of i ?st1
        (alert_of (fst (settle_alert ?st1 outcome))) (snd (settle_alert ?st1 outcome)) \<and>
        ae_latest (snd (settle_alert ?st1 outcome)) = ae_latest ?st1"
      by (rule settle_alert_gate)
    with filed show ?thesis unfolding run alert_step_stored using filed_cong by blast
  qed
qed

lemma named_dedup_inj:
  assumes "upper (al_symbol a) = al_symbol a" "upper (al_symbol b) = al_symbol b"
    "named_dedup_of a w = named_dedup_of b v" "0 \<le> w" "0 \<le> v"
  shows "named_key_of a = named_key_of b \<and> al_severity a = al_severity b \<and> w = v"
  using named_key_inj [OF assms(3) [unfolded named_dedup_of_def] horizons_key_no_colon horizons_key_no_colon assms(1,2,4,5)]
  by (simp add: named_key_of_def)

lemma named_dedup_warning: "named_dedup_of a w \<noteq> warning_key r"
  by (simp add: named_dedup_of_def named_key_def warning_key_def)

interpretation confluence_engine: gated_engine policy named_key_of named_dedup_of "run_v2 policy c"
  for policy c
  by unfold_locales (rule run_v2_gate [THEN conjunct1] run_v2_gate [THEN conjunct2] named_dedup_inj
      named_dedup_warning; assumption?)+

section \<open>The third engine\<close>

lemma close_continuation_sel [simp]:
  "ae_latest (close_continuation symbol session st) = ae_latest st"
  "ae_last_emitted (close_continuation symbol session st) = ae_last_emitted st"
  "ae_emitted_keys (close_continuation symbol session st) = ae_emitted_keys st"
  by (simp_all add: close_continuation_def)

lemma confirmed_text_sel [simp]:
  "al_symbol (confirmed_text a) = al_symbol a" "al_kind (confirmed_text a) = al_kind a"
  "al_severity (confirmed_text a) = al_severity a" "al_created_at (confirmed_text a) = al_created_at a"
  "al_deduplication_key (confirmed_text a) = al_deduplication_key a" "al_horizons (confirmed_text a) = al_horizons a"
  by (simp_all add: confirmed_text_def)

text \<open>The step depends on the alert and on the state after it only through these fields.\<close>

lemma alert_step_update:
  assumes "alert_step policy named_key_of named_dedup_of i st (Some a) st'"
    and "ae_last_emitted st'' = ae_last_emitted st'" "ae_emitted_keys st'' = ae_emitted_keys st'"
  shows "alert_step policy named_key_of named_dedup_of i st (Some a) st''"
    and "alert_step policy named_key_of named_dedup_of i st (Some (confirmed_text a)) st''"
  using assms
  by (auto elim!: alert_step.cases intro: alert_step.intros
      simp: alert_step.simps gated_def named_key_of_def named_dedup_of_def named_components_def)

text \<open>What an alert of \<open>confirm_swing_continuation\<close> rests on.\<close>

lemma continuation_swing_Some:
  assumes "continuation_swing policy config r fresh = Inr (Some swing)"
  shows "dget fresh AH_SWING = Some swing \<and> ar_direction swing = PD_BULLISH \<and>
    ar_verdict swing \<in> {AV_FAVORABLE, AV_WATCH} \<and>
    ap_watch_threshold policy \<le> dmul (ar_score swing) (ar_confidence swing) \<and>
    valid_swing swing = Inr True \<and> qualifies config r = Inr True"
proof (cases "bullish_above (dget fresh AH_SWING) (ap_watch_threshold policy)")
  case (Some found)
  with assms show ?thesis
    by (auto simp: continuation_swing_def bind_result_Inr guarded_def bullish_above_Some split: if_splits)
qed (use assms in \<open>simp add: continuation_swing_def\<close>)

lemma confirm_Some:
  assumes "confirm_swing_continuation policy config c aid r now session st = Inr (Some alert, st')"
  obtains swing held a st2 where "(ar_symbol r, session) \<notin> set (ae_sessions st)"
    "continuation_swing policy config r (fresh_values policy st (ar_symbol r) now) = Inr (Some swing)"
    "dget (ae_candidates st) (ar_symbol r) = Some held"
    "\<not> replaces_candidate config (Some held) session" "ar_analysis_id r \<noteq> fst held"
    "cc_minimum_delay config \<le> ar_as_of r - fst (snd held)"
    "build_named_alert policy c aid (ar_symbol r) AK_ENTRY_CONFIRMED [swing, r]
       (fresh_values policy st (ar_symbol r) now) now st = Inr (Some a, st2)"
    "alert = confirmed_text a" "st' = close_continuation (ar_symbol r) session st2"
proof -
  let ?fresh = "fresh_values policy st (ar_symbol r) now"
  have sess: "(ar_symbol r, session) \<notin> set (ae_sessions st)"
    using assms by (auto simp: confirm_swing_continuation_def Let_def)
  obtain found where found: "continuation_swing policy config r ?fresh = Inr found"
    using assms sess by (cases "continuation_swing policy config r ?fresh")
      (auto simp: confirm_swing_continuation_def Let_def)
  obtain swing where swing: "found = Some swing"
    using assms sess found by (cases found) (auto simp: confirm_swing_continuation_def Let_def)
  have keep: "\<not> replaces_candidate config (dget (ae_candidates st) (ar_symbol r)) session"
    using assms sess found swing by (auto simp: confirm_swing_continuation_def Let_def split: if_splits)
  then obtain held where held: "dget (ae_candidates st) (ar_symbol r) = Some held"
    by (cases "dget (ae_candidates st) (ar_symbol r)") (auto simp: replaces_candidate_def)
  have guards: "ar_analysis_id r \<noteq> fst held" "cc_minimum_delay config \<le> ar_as_of r - fst (snd held)"
    and rest: "bind_result (build_named_alert policy c aid (ar_symbol r) AK_ENTRY_CONFIRMED [swing, r] ?fresh now st)
        (\<lambda>built. case fst built of None \<Rightarrow> Inr (None, snd built)
          | Some a \<Rightarrow> Inr (Some (confirmed_text a), close_continuation (ar_symbol r) session (snd built)))
        = Inr (Some alert, st')"
    using assms sess found swing held keep
    by (auto simp: confirm_swing_continuation_def Let_def split: if_splits)
  from rest obtain out st2 where built:
    "build_named_alert policy c aid (ar_symbol r) AK_ENTRY_CONFIRMED [swing, r] ?fresh now st = Inr (out, st2)"
    and last: "(case out of None \<Rightarrow> Inr (None, st2)
          | Some a \<Rightarrow> Inr (Some (confirmed_text a), close_continuation (ar_symbol r) session st2)) =
        (Inr (Some alert, st') :: (local_alert option \<times> _) result)"
    by (auto simp only: bind_result_Inr fst_conv snd_conv)
  from last obtain a where "out = Some a" "alert = confirmed_text a" "st' = close_continuation (ar_symbol r) session st2"
    by (cases out) auto
  with that [OF sess _ held _ guards] found swing keep held built show thesis by simp
qed

lemma confirm_None:
  assumes "confirm_swing_continuation policy config c aid r now session st = Inr (None, st')"
  shows "st' = st \<or> (ar_symbol r, session) \<notin> set (ae_sessions st) \<and>
    replaces_candidate config (dget (ae_candidates st) (ar_symbol r)) session \<and> qualifies config r = Inr True \<and>
    st' = st \<lparr> ae_candidates := dput (ar_symbol r) (ar_analysis_id r, ar_as_of r, session) (ae_candidates st) \<rparr>"
proof (cases "(ar_symbol r, session) \<in> set (ae_sessions st)")
  case True
  then show ?thesis using assms by (simp add: confirm_swing_continuation_def Let_def)
next
  case False
  let ?fresh = "fresh_values policy st (ar_symbol r) now"
  obtain found where found: "continuation_swing policy config r ?fresh = Inr found"
    using assms False by (cases "continuation_swing policy config r ?fresh")
      (auto simp: confirm_swing_continuation_def Let_def)
  show ?thesis
  proof (cases found)
    case None
    then show ?thesis using assms False found by (simp add: confirm_swing_continuation_def Let_def)
  next
    case (Some swing)
    with found have "qualifies config r = Inr True" using continuation_swing_Some by blast
    then show ?thesis using assms False found Some
      by (auto simp: confirm_swing_continuation_def Let_def dest: build_named_None split: if_splits option.splits)
  qed
qed

lemma confirm_gate:
  assumes "confirm_swing_continuation policy config c aid (input_analysis i) t session st = Inr (out, st')"
    and "filed st" "ar_horizon (input_analysis i) = AH_INTRADAY" "clock i = t"
  shows "alert_step policy named_key_of named_dedup_of i st out st' \<and> ae_latest st' = ae_latest st"
proof (cases out)
  case None
  with confirm_None [OF assms(1) [unfolded None]] show ?thesis by (auto simp: alert_step.silent)
next
  case (Some alert)
  let ?r = "input_analysis i"
  let ?fresh = "fresh_values policy st (ar_symbol ?r) t"
  obtain swing a st2 where parts:
    "continuation_swing policy config ?r ?fresh = Inr (Some swing)"
    "build_named_alert policy c aid (ar_symbol ?r) AK_ENTRY_CONFIRMED [swing, ?r] ?fresh t st = Inr (Some a, st2)"
    "alert = confirmed_text a" "st' = close_continuation (ar_symbol ?r) session st2"
    using confirm_Some [OF assms(1) [unfolded Some]] by metis
  have "ar_horizon swing = AH_SWING"
    using continuation_swing_Some [OF parts(1)] fresh_values_member [OF assms(2)] by blast
  with assms(3) have "\<forall>r\<in>set [swing, ?r]. ar_horizon r \<noteq> AH_DILUTION" by simp
  moreover have "ar_horizon r = AH_DILUTION" if "dget ?fresh AH_DILUTION = Some r" for r
    using fresh_values_member [OF assms(2) that] by blast
  ultimately have "alert_step policy named_key_of named_dedup_of i st (Some a) st2 \<and> ae_latest st2 = ae_latest st"
    using build_named_gate [OF parts(2)] assms(4) by blast
  then have "alert_step policy named_key_of named_dedup_of i st (Some a) st2" "ae_latest st2 = ae_latest st" by auto
  then show ?thesis unfolding Some parts(3,4) by (simp add: alert_step_update(2))
qed

text \<open>Two consecutive silent and loud parts of one ingestion.\<close>

lemma alert_step_silent_then:
  assumes "alert_step policy key_of dedup_of i st None st1" "alert_step policy key_of dedup_of i st1 out st2"
  shows "alert_step policy key_of dedup_of i st out st2"
proof -
  have "ae_last_emitted st1 = ae_last_emitted st" "ae_emitted_keys st1 = ae_emitted_keys st"
    using assms(1) by (auto elim: alert_step_None)
  with assms(2) show ?thesis by (simp add: alert_step.simps cooling_def)
qed

lemma run_v3_cases:
  fixes i :: alert_input and st :: "'z alert_state_v3_scheme"
  defines "r \<equiv> input_analysis i"
  obtains (base) "run_v3 policy config z c i st = run_v2 policy c i st"
    | (closed) a where "fst (run_v2 policy c i st) = Inr (Some a)"
      "run_v3 policy config z c i st =
        (Inr (Some a), close_continuation (ar_symbol r) (alert_session z (ar_as_of r)) (snd (run_v2 policy c i st)))"
    | (waiting) t offset where "fst (run_v2 policy c i st) = Inr None" "\<not> ignored st r" "ar_horizon r = AH_INTRADAY"
      "snd (snd i) = Aware t offset"
      "run_v3 policy config z c i st = settle_alert (snd (run_v2 policy c i st))
        (confirm_swing_continuation policy config c (fst i) r t (alert_session z (ar_as_of r)) (snd (run_v2 policy c i st)))"
proof -
  define out1 where "out1 = fst (run_v2 policy c i st)"
  define st1 where "st1 = snd (run_v2 policy c i st)"
  have run: "run_v3 policy config z c i st =
    (case out1 of Inl e \<Rightarrow> (Inl e, st1)
     | Inr alert \<Rightarrow>
         if ignored st r then (Inr alert, st1)
         else (case alert of
             Some a \<Rightarrow> (Inr (Some a), if al_kind a \<in> {AK_ENTRY_CONFIRMED, AK_HIGH_CONVICTION_BUY}
                then close_continuation (ar_symbol r) (alert_session z (ar_as_of r)) st1 else st1)
           | None \<Rightarrow>
               if ar_horizon r \<noteq> AH_INTRADAY then (Inr None, st1)
               else (case snd (snd i) of
                   Aware t _ \<Rightarrow> settle_alert st1
                     (confirm_swing_continuation policy config c (fst i) r t (alert_session z (ar_as_of r)) st1)
                 | Naive _ \<Rightarrow> (Inr None, st1))))"
    unfolding run_v3_def ingest_v3_def run_v2_def out1_def st1_def r_def Let_def by (rule refl)
  have pair: "run_v2 policy c i st = (out1, st1)" by (simp add: out1_def st1_def)
  note here = that [unfolded pair fst_conv snd_conv]
  show thesis
  proof (cases out1)
    case (Inl e)
    then show thesis using here(1) by (simp add: run)
  next
    case (Inr alert)
    show thesis
    proof (cases alert)
      case None
      then show thesis using here(1,3) Inr
        by (cases "ignored st r"; cases "ar_horizon r = AH_INTRADAY"; cases "snd (snd i)") (simp_all add: run)
    next
      case (Some a)
      then show thesis using here(1,2) Inr
        by (cases "ignored st r"; cases "al_kind a \<in> {AK_ENTRY_CONFIRMED, AK_HIGH_CONVICTION_BUY}") (simp_all add: run)
    qed
  qed
qed

lemma run_v3_gate:
  assumes "filed st" "admissible i"
  shows "alert_step policy named_key_of named_dedup_of i st (alert_of (fst (run_v3 policy config z c i st)))
      (snd (run_v3 policy config z c i st)) \<and> filed (snd (run_v3 policy config z c i st))"
proof -
  let ?r = "input_analysis i"
  define st1 where "st1 = snd (run_v2 policy c i st)"
  have first: "alert_step policy named_key_of named_dedup_of i st (alert_of (fst (run_v2 policy c i st))) st1" "filed st1"
    using run_v2_gate [OF assms] by (simp_all add: st1_def)
  show ?thesis
  proof (cases rule: run_v3_cases [of policy config z c i st, case_names base closed waiting])
    case base
    with first show ?thesis by (simp add: st1_def)
  next
    case (closed a)
    then show ?thesis using first alert_step_update(1) [of policy i st a st1]
        filed_cong [THEN iffD2, OF close_continuation_sel(1)]
      by (simp add: alert_of_def flip: st1_def)
  next
    case (waiting t offset)
    let ?outcome = "confirm_swing_continuation policy config c (fst i) ?r t (alert_session z (ar_as_of ?r)) st1"
    have run: "run_v3 policy config z c i st = settle_alert st1 ?outcome" using waiting(5) by (simp add: st1_def)
    have "clock i = t" using waiting(4) by (simp add: clock_def)
    then have "alert_step policy named_key_of named_dedup_of i st1 out st' \<and> ae_latest st' = ae_latest st1"
      if "?outcome = Inr (out, st')" for out st'
      using confirm_gate [OF that first(2) waiting(3)] by blast
    then have "alert_step policy named_key_of named_dedup_of i st1
        (alert_of (fst (settle_alert st1 ?outcome))) (snd (settle_alert st1 ?outcome)) \<and>
        ae_latest (snd (settle_alert st1 ?outcome)) = ae_latest st1"
      by (rule settle_alert_gate)
    moreover have "alert_step policy named_key_of named_dedup_of i st None st1"
      using first(1) waiting(1) by (simp add: alert_of_def)
    ultimately show ?thesis unfolding run using alert_step_silent_then filed_cong first(2) by blast
  qed
qed

interpretation continuation_engine: gated_engine policy named_key_of named_dedup_of "run_v3 policy config z c"
  for policy config z c
  by unfold_locales (rule run_v3_gate [THEN conjunct1] run_v3_gate [THEN conjunct2] named_dedup_inj
      named_dedup_warning; assumption?)+

end
