(* ===== verification/Alert_Restart.thy ===== *)
theory Alert_Restart
  imports Alert_Gates
begin

text \<open>
  The swing continuation of the third alert engine and its checkpoint: what a continuation alert rests on
  in any run, and what a restart from a checkpoint keeps and loses.
\<close>

section \<open>One ingestion\<close>

lemma hd_strip:
  assumes "s \<noteq> []" "\<not> isspace (hd s)"
  shows "hd (strip s) = hd s"
proof -
  have drop: "dropWhile isspace s = s" using assms(2) by (intro dropWhile_id) simp
  obtain x where "hd s \<in> set (rev s)" "\<not> isspace (hd s)" using assms by simp
  then have "dropWhile isspace (rev s) \<noteq> []" by (metis dropWhile_eq_Nil_conv)
  moreover obtain zs where "rev s = zs @ dropWhile isspace (rev s)" by (metis takeWhile_dropWhile_id)
  then have "s = rev (dropWhile isspace (rev s)) @ rev zs" by (metis rev_append rev_rev_ident)
  ultimately show ?thesis unfolding strip_def drop by (metis hd_append2 rev_is_Nil_conv)
qed

lemma v2_message:
  "hd (strip (alert_message kind n score)) \<noteq> CHR ''T''"
  "hd (strip ''informational SEC risk only; does not gate entries or submit orders'') \<noteq> CHR ''T''"
proof -
  have "hd (alert_message kind n score) \<in> set ''LSBI''" "alert_message kind n score \<noteq> []"
    by (auto simp: alert_message_def Let_def)
  moreover from this have "\<not> isspace (hd (alert_message kind n score))" by (auto simp: isspace_def code_def)
  ultimately show "hd (strip (alert_message kind n score)) \<noteq> CHR ''T''" using hd_strip by fastforce
  show "hd (strip ''informational SEC risk only; does not gate entries or submit orders'') \<noteq> CHR ''T''"
    by (subst hd_strip) (simp_all add: isspace_def code_def)
qed

text \<open>The second engine never writes the continuation text and leaves the state of the third alone.\<close>

lemma remember_v3 [simp]:
  "ae_candidates (remember key sk now sev st) = ae_candidates st"
  "ae_sessions (remember key sk now sev st) = ae_sessions st"
  "ae_candidates (stored st r) = ae_candidates st" "ae_sessions (stored st r) = ae_sessions st"
  by (simp_all add: remember_def stored_def)

lemma build_named_frame:
  assumes "build_named_alert policy c aid symbol kind components fresh t st = Inr (out, st')"
  shows "ae_latest st' = ae_latest st \<and> ae_candidates st' = ae_candidates st \<and> ae_sessions st' = ae_sessions st \<and>
    (\<forall>a\<in>set_option out. hd (al_message a) \<noteq> CHR ''T'')"
  using assms v2_message(1)
  by (auto simp: build_named_alert_def Let_def bind_result_Inr make_local_alert_def split: if_splits)

lemma dilution_warning_frame:
  assumes "dilution_warning_alert policy aid r t st = Inr (out, st')"
  shows "ae_latest st' = ae_latest st \<and> ae_candidates st' = ae_candidates st \<and> ae_sessions st' = ae_sessions st \<and>
    (\<forall>a\<in>set_option out. hd (al_message a) \<noteq> CHR ''T'')"
  using assms v2_message(2)
  by (auto simp: dilution_warning_alert_def Let_def bind_result_Inr make_local_alert_def
      split: if_splits option.splits)

lemma run_v2_frame:
  "ae_latest (snd (run_v2 policy c i st)) \<in> {ae_latest st, ae_latest (stored st (input_analysis i))} \<and>
   ae_candidates (snd (run_v2 policy c i st)) = ae_candidates st \<and>
   ae_sessions (snd (run_v2 policy c i st)) = ae_sessions st \<and>
   (\<forall>a\<in>set_option (alert_of (fst (run_v2 policy c i st))). hd (al_message a) \<noteq> CHR ''T'')"
proof -
  have settled: "ae_latest (snd (settle_alert st1 outcome)) = ae_latest st1 \<and>
      ae_candidates (snd (settle_alert st1 outcome)) = ae_candidates st1 \<and>
      ae_sessions (snd (settle_alert st1 outcome)) = ae_sessions st1 \<and>
      (\<forall>a\<in>set_option (alert_of (fst (settle_alert st1 outcome))). hd (al_message a) \<noteq> CHR ''T'')"
    if "\<And>out st'. outcome = Inr (out, st') \<Longrightarrow> ae_latest st' = ae_latest st1 \<and> ae_candidates st' = ae_candidates st1 \<and>
        ae_sessions st' = ae_sessions st1 \<and> (\<forall>a\<in>set_option out. hd (al_message a) \<noteq> CHR ''T'')" for st1 outcome
  proof (cases outcome)
    case (Inr p)
    with that [of "fst p" "snd p"] show ?thesis by (simp add: settle_alert_def alert_of_def split_beta)
  qed (simp add: settle_alert_def alert_of_def)
  let ?r = "input_analysis i"
  let ?st1 = "stored st ?r"
  show ?thesis
  proof (cases "\<exists>t. analysis_time ?r (snd (snd i)) = Inr t \<and> \<not> ignored st ?r")
    case False
    then show ?thesis by (auto simp: run_v2_def ingest_v2_def alert_of_def split: sum.splits)
  next
    case True
    then obtain t where t: "analysis_time ?r (snd (snd i)) = Inr t" "\<not> ignored st ?r" by blast
    let ?fresh = "fresh_values policy ?st1 (ar_symbol ?r) t"
    let ?outcome = "if ar_horizon ?r = AH_DILUTION then dilution_warning_alert policy (fst i) ?r t ?st1
       else case select_alert policy ?r ?fresh of None \<Rightarrow> Inr (None, ?st1)
         | Some (kind, components) \<Rightarrow>
             build_named_alert policy c (fst i) (ar_symbol ?r) kind components ?fresh t ?st1"
    have run: "run_v2 policy c i st = settle_alert ?st1 ?outcome"
      using t by (simp add: run_v2_def ingest_v2_def Let_def)
    have "ae_latest st' = ae_latest ?st1 \<and> ae_candidates st' = ae_candidates ?st1 \<and> ae_sessions st' = ae_sessions ?st1 \<and>
        (\<forall>a\<in>set_option out. hd (al_message a) \<noteq> CHR ''T'')" if "?outcome = Inr (out, st')" for out st'
    proof (cases "ar_horizon ?r = AH_DILUTION")
      case True
      with that have "dilution_warning_alert policy (fst i) ?r t ?st1 = Inr (out, st')" by simp
      then show ?thesis by (rule dilution_warning_frame)
    next
      case False
      with that show ?thesis
        by (cases "select_alert policy ?r ?fresh") (auto dest: build_named_frame split: prod.splits)
    qed
    from settled [of ?outcome ?st1, OF this] show ?thesis unfolding run by simp
  qed
qed

text \<open>What one ingestion of the third engine does to the candidates and the sessions.\<close>

lemma run_v3_effect:
  assumes "run_v3 policy config z c i st = (out, st')"
  defines "r \<equiv> input_analysis i"
  defines "session \<equiv> alert_session z (ar_as_of r)"
  shows "(ae_candidates st' = ae_candidates st \<or> ae_candidates st' = ddel (ar_symbol r) (ae_candidates st) \<or>
      ar_horizon r = AH_INTRADAY \<and> qualifies config r = Inr True \<and>
      ae_candidates st' = dput (ar_symbol r) (ar_analysis_id r, ar_as_of r, session) (ae_candidates st)) \<and>
    ae_latest st' \<in> {ae_latest st, ae_latest (stored st r)} \<and>
    set (ae_sessions st) \<subseteq> set (ae_sessions st') \<and>
    (\<forall>a. out = Inr (Some a) \<and> al_message a = continuation_message \<longrightarrow>
      ar_horizon r = AH_INTRADAY \<and>
      confirm_swing_continuation policy config c (fst i) r (clock i) session (snd (run_v2 policy c i st)) = Inr (Some a, st'))"
proof -
  define st1 where "st1 = snd (run_v2 policy c i st)"
  have frame: "ae_latest st1 = ae_latest st \<or> ae_latest st1 = ae_latest (stored st r)"
    "ae_candidates st1 = ae_candidates st" "ae_sessions st1 = ae_sessions st"
    using run_v2_frame [of policy c i st] by (simp_all add: st1_def r_def)
  have quiet: "al_message a \<noteq> continuation_message" if "fst (run_v2 policy c i st) = Inr (Some a)" for a
  proof
    assume "al_message a = continuation_message"
    with that run_v2_frame [of policy c i st] show False
      by (simp add: alert_of_def continuation_message_def)
  qed
  show ?thesis
  proof (cases rule: run_v3_cases [of policy config z c i st, case_names base closed waiting])
    case base
    then have "run_v2 policy c i st = (out, st')" using assms(1) by simp
    then show ?thesis using frame quiet by (auto simp: st1_def)
  next
    case (closed a)
    then have "out = Inr (Some a)" "st' = close_continuation (ar_symbol r) session st1"
      using assms(1) by (simp_all add: r_def session_def st1_def)
    then show ?thesis using frame quiet [OF closed(1)] by (auto simp: close_continuation_def)
  next
    case (waiting t offset)
    let ?outcome = "confirm_swing_continuation policy config c (fst i) r t session st1"
    have run: "settle_alert st1 ?outcome = (out, st')"
      using waiting(5) assms(1) by (simp add: r_def session_def st1_def)
    have time: "clock i = t" using waiting(4) by (simp add: clock_def)
    show ?thesis
    proof (cases ?outcome)
      case (Inl e)
      with run frame show ?thesis by (auto simp: settle_alert_def)
    next
      case (Inr p)
      with run have result: "?outcome = Inr (alert_of out, st')" "out = Inr (fst p)"
        by (cases p; auto simp: settle_alert_def alert_of_def)+
      show ?thesis
      proof (cases "fst p")
        case None
        with result have "?outcome = Inr (None, st')" by (simp add: alert_of_def)
        from confirm_None [OF this] show ?thesis using frame waiting(3) result(2) None by (auto simp: r_def)
      next
        case (Some a)
        with result have confirmed: "?outcome = Inr (Some a, st')" by (simp add: alert_of_def)
        obtain swing b st2 where built: "build_named_alert policy c (fst i) (ar_symbol r) AK_ENTRY_CONFIRMED [swing, r]
            (fresh_values policy st1 (ar_symbol r) t) t st1 = Inr (Some b, st2)"
          and st': "st' = close_continuation (ar_symbol r) session st2"
          using confirm_Some [OF confirmed] by metis
        from build_named_frame [OF built] frame have "ae_latest st2 = ae_latest st1" "ae_candidates st2 = ae_candidates st" "ae_sessions st2 = ae_sessions st"
          by simp_all
        then show ?thesis using result(2) Some confirmed waiting(3,4) time frame(1)
          by (auto simp: st' close_continuation_def r_def simp flip: st1_def)
      qed
    qed
  qed
qed

section \<open>Continuation alerts\<close>

text \<open>Every candidate held is a qualifying intraday analysis that was ingested before.\<close>

definition backed ::
  "continuation_config \<Rightarrow> zone \<Rightarrow> alert_input list \<Rightarrow> 'z alert_state_v3_scheme \<Rightarrow> bool" where
  "backed config z inputs st \<longleftrightarrow> (\<forall>symbol held. dget (ae_candidates st) symbol = Some held \<longrightarrow>
     (\<exists>r\<in>input_analysis ` set inputs. ar_symbol r = symbol \<and> ar_horizon r = AH_INTRADAY \<and>
        qualifies config r = Inr True \<and> held = (ar_analysis_id r, ar_as_of r, alert_session z (ar_as_of r))))"

lemma backed_step:
  assumes "backed config z inputs st"
  shows "backed config z (inputs @ [i]) (snd (run_v3 policy config z c i st))"
proof -
  obtain out st' where run: "run_v3 policy config z c i st = (out, st')" by (cases "run_v3 policy config z c i st")
  from run_v3_effect [OF run] have "ae_candidates st' = ae_candidates st
      \<or> ae_candidates st' = ddel (ar_symbol (input_analysis i)) (ae_candidates st)
      \<or> ar_horizon (input_analysis i) = AH_INTRADAY \<and> qualifies config (input_analysis i) = Inr True \<and>
        ae_candidates st' = dput (ar_symbol (input_analysis i)) (ar_analysis_id (input_analysis i),
          ar_as_of (input_analysis i), alert_session z (ar_as_of (input_analysis i))) (ae_candidates st)"
    by blast
  then show ?thesis using assms unfolding run snd_conv backed_def
    by (elim disjE) (auto simp: dict_simps split: if_splits)
qed

lemma backed_run:
  "backed config z earlier st \<Longrightarrow>
   backed config z (earlier @ inputs) (snd (alert_run (run_v3 policy config z c) inputs st))"
proof (induction inputs arbitrary: earlier st)
  case (Cons i inputs)
  from Cons.IH [OF backed_step [OF Cons.prems]] show ?case by (simp add: Let_def)
qed simp

end
