(* ===== verification/Alert_Demo.thy ===== *)
theory Alert_Demo
  imports Alert_Restart
begin

text \<open>
  Concrete analyses of one symbol, on which the witnesses evaluate the alert engines, and equations for
  the evaluation: the parts of an ingestion as functions of their evaluated arguments.
\<close>

section \<open>Evaluation\<close>

definition v2_selected ::
  "alert_policy \<Rightarrow> alert_codec \<Rightarrow> uuid \<Rightarrow> analysis_result \<Rightarrow> instant \<Rightarrow> 'z alert_state_scheme \<Rightarrow> analyses \<Rightarrow>
   (alert_kind \<times> analysis_result list) option \<Rightarrow> (local_alert option \<times> 'z alert_state_scheme) result" where
  "v2_selected policy c aid r t st1 fresh selected =
     (case selected of None \<Rightarrow> Inr (None, st1)
      | Some kc \<Rightarrow> build_named_alert policy c aid (ar_symbol r) (fst kc) (snd kc) fresh t st1)"

definition v2_outcome ::
  "alert_policy \<Rightarrow> alert_codec \<Rightarrow> uuid \<Rightarrow> analysis_result \<Rightarrow> instant \<Rightarrow> 'z alert_state_scheme \<Rightarrow> analyses \<Rightarrow>
   (local_alert option \<times> 'z alert_state_scheme) result" where
  "v2_outcome policy c aid r t st1 fresh =
     (if ar_horizon r = AH_DILUTION then dilution_warning_alert policy aid r t st1
      else v2_selected policy c aid r t st1 fresh (select_alert policy r fresh))"

lemma ingest_v2_code [code]:
  "ingest_v2 policy c aid r now st =
     (case analysis_time r now of Inl e \<Rightarrow> (Inl e, st)
      | Inr t \<Rightarrow>
          if ignored st r then (Inr None, st)
          else settle_alert (stored st r)
            (v2_outcome policy c aid r t (stored st r) (fresh_values policy (stored st r) (ar_symbol r) t)))"
  unfolding ingest_v2_def v2_outcome_def v2_selected_def Let_def split_beta by (rule refl)

definition v3_confirm ::
  "alert_policy \<Rightarrow> alert_codec \<Rightarrow> uuid \<Rightarrow> analysis_result \<Rightarrow> instant \<Rightarrow> int \<Rightarrow> 'z alert_state_v3_scheme \<Rightarrow> analyses \<Rightarrow>
   analysis_result \<Rightarrow> (local_alert option \<times> 'z alert_state_v3_scheme) result" where
  "v3_confirm policy c aid r now session st fresh swing =
     (case build_named_alert policy c aid (ar_symbol r) AK_ENTRY_CONFIRMED [swing, r] fresh now st of
        Inl e \<Rightarrow> Inl e
      | Inr built \<Rightarrow>
          (case fst built of None \<Rightarrow> Inr (None, snd built)
           | Some alert \<Rightarrow> Inr (Some (confirmed_text alert), close_continuation (ar_symbol r) session (snd built))))"

definition v3_swing ::
  "alert_policy \<Rightarrow> continuation_config \<Rightarrow> alert_codec \<Rightarrow> uuid \<Rightarrow> analysis_result \<Rightarrow> instant \<Rightarrow> int \<Rightarrow>
   'z alert_state_v3_scheme \<Rightarrow> analyses \<Rightarrow> (uuid \<times> instant \<times> int) option \<Rightarrow> analysis_result \<Rightarrow>
   (local_alert option \<times> 'z alert_state_v3_scheme) result" where
  "v3_swing policy config c aid r now session st fresh candidate swing =
     (if replaces_candidate config candidate session
      then Inr (None, st \<lparr> ae_candidates := dput (ar_symbol r) (ar_analysis_id r, ar_as_of r, session) (ae_candidates st) \<rparr>)
      else if ar_analysis_id r = fst (the candidate) then Inr (None, st)
      else if ar_as_of r - fst (snd (the candidate)) < cc_minimum_delay config then Inr (None, st)
      else v3_confirm policy c aid r now session st fresh swing)"

definition v3_found ::
  "alert_policy \<Rightarrow> continuation_config \<Rightarrow> alert_codec \<Rightarrow> uuid \<Rightarrow> analysis_result \<Rightarrow> instant \<Rightarrow> int \<Rightarrow>
   'z alert_state_v3_scheme \<Rightarrow> analyses \<Rightarrow> (local_alert option \<times> 'z alert_state_v3_scheme) result" where
  "v3_found policy config c aid r now session st fresh =
     (case continuation_swing policy config r fresh of
        Inl e \<Rightarrow> Inl e
      | Inr found \<Rightarrow>
          (case found of None \<Rightarrow> Inr (None, st)
           | Some swing \<Rightarrow>
               v3_swing policy config c aid r now session st fresh (dget (ae_candidates st) (ar_symbol r)) swing))"

lemma confirm_swing_code [code]:
  "confirm_swing_continuation policy config c aid r now session st =
     (if (ar_symbol r, session) \<in> set (ae_sessions st) then Inr (None, st)
      else v3_found policy config c aid r now session st (fresh_values policy st (ar_symbol r) now))"
  unfolding confirm_swing_continuation_def v3_found_def v3_swing_def v3_confirm_def bind_result_case Let_def
  by (rule refl)

definition v3_after ::
  "alert_policy \<Rightarrow> continuation_config \<Rightarrow> alert_codec \<Rightarrow> uuid \<Rightarrow> analysis_result \<Rightarrow> py_datetime \<Rightarrow> int \<Rightarrow> bool \<Rightarrow>
   local_alert option result \<times> 'z alert_state_v3_scheme \<Rightarrow> local_alert option result \<times> 'z alert_state_v3_scheme" where
  "v3_after policy config c aid r now session known outcome =
     (case fst outcome of Inl e \<Rightarrow> (Inl e, snd outcome)
      | Inr alert \<Rightarrow>
          if known then (Inr alert, snd outcome)
          else (case alert of
               Some a \<Rightarrow>
                 (Inr (Some a), if al_kind a \<in> {AK_ENTRY_CONFIRMED, AK_HIGH_CONVICTION_BUY}
                                then close_continuation (ar_symbol r) session (snd outcome) else snd outcome)
             | None \<Rightarrow>
                 if ar_horizon r \<noteq> AH_INTRADAY then (Inr None, snd outcome)
                 else (case now of
                         Aware t _ \<Rightarrow> settle_alert (snd outcome)
                           (confirm_swing_continuation policy config c aid r t session (snd outcome))
                       | Naive _ \<Rightarrow> (Inr None, snd outcome))))"

lemma ingest_v3_code [code]:
  "ingest_v3 policy config z c aid r now st =
     v3_after policy config c aid r now (alert_session z (ar_as_of r)) (ignored st r) (ingest_v2 policy c aid r now st)"
  by (simp only: ingest_v3_def v3_after_def Let_def)

definition run_collect :: "local_alert option \<Rightarrow> local_alert list \<times> 's \<Rightarrow> local_alert list \<times> 's" where
  "run_collect alert rest = (case alert of None \<Rightarrow> fst rest | Some a \<Rightarrow> a # fst rest, snd rest)"

definition run_after ::
  "('i \<Rightarrow> 's \<Rightarrow> local_alert option result \<times> 's) \<Rightarrow> 'i list \<Rightarrow> local_alert option result \<times> 's \<Rightarrow> local_alert list \<times> 's" where
  "run_after ingest is step = run_collect (alert_of (fst step)) (alert_run ingest is (snd step))"

lemma alert_run_code [code]:
  "alert_run ingest [] st = ([], st)"
  "alert_run ingest (i # is) st = run_after ingest is (ingest i st)"
  by (simp_all add: run_after_def run_collect_def Let_def)

section \<open>Samples\<close>

definition sample_id :: "int \<Rightarrow> uuid" where "sample_id n = 7 * 2 ^ 76 + 2 * 2 ^ 62 + n"

definition sample_codec :: alert_codec where
  "sample_codec = \<lparr> ac_decimal = (\<lambda>d. ''80.00''), ac_float = (\<lambda>q. q) \<rparr>"

definition sample_analysis ::
  "int \<Rightarrow> analysis_horizon \<Rightarrow> instant \<Rightarrow> rat \<Rightarrow> (string \<times> py_value) list \<Rightarrow> analysis_result" where
  "sample_analysis n h t confidence ms = \<lparr> ar_analysis_id = sample_id n, ar_engine_id = ''e'', ar_engine_version = ''1.0.0'',
     ar_symbol = ''ACME'', ar_horizon = h, ar_as_of = t, ar_verdict = AV_FAVORABLE, ar_direction = PD_BULLISH,
     ar_score = 80, ar_confidence = confidence, ar_reasons = [''r''],
     ar_metrics = map (\<lambda>m. \<lparr> nv_name = fst m, nv_value = snd m \<rparr>) ms, ar_source_event_ids = [],
     ar_context_hash = ''sha256:'' @ replicate 64 CHR ''a'' \<rparr>"

text \<open>15:00 in New York on a winter day.\<close>

definition sample_noon :: instant where "sample_noon = days 10 + hours 20"

definition sample_swing :: "int \<Rightarrow> instant \<Rightarrow> analysis_result" where
  "sample_swing n t = sample_analysis n AH_SWING t 1
     [(''anchored_vwap_gate_passed'', VBool True), (''classification'', VStr ''pullback'')]"

definition sample_intraday :: "int \<Rightarrow> instant \<Rightarrow> rat \<Rightarrow> analysis_result" where
  "sample_intraday n t confidence = sample_analysis n AH_INTRADAY t confidence
     [(''setup'', VStr ''bullish_breakout''), (''confirmation_quality'', VStr ''strong''),
      (''five_minute_higher_low'', VBool True), (''reference_price'', VDec 10)]"

definition sample_input :: "int \<Rightarrow> analysis_result \<Rightarrow> instant \<Rightarrow> alert_input" where
  "sample_input n r t = (sample_id n, r, Aware t 0)"

abbreviation sample_engine :: "alert_input \<Rightarrow> alert_state_v3 \<Rightarrow> local_alert option result \<times> alert_state_v3" where
  "sample_engine \<equiv> run_v3 default_alert_policy default_continuation eastern_standard sample_codec"

text \<open>A swing setup, and two intraday analyses whose confidence alone would not confirm.\<close>

definition sample_start :: "alert_input list" where
  "sample_start = [sample_input 11 (sample_swing 1 sample_noon) sample_noon,
     sample_input 12 (sample_intraday 2 (sample_noon + minutes 1) (1 / 2)) (sample_noon + minutes 1)]"

definition sample_confirming :: alert_input where
  "sample_confirming = sample_input 13 (sample_intraday 3 (sample_noon + minutes 5) (1 / 2)) (sample_noon + minutes 5)"

lemma sample_hash: "sha256_ref (''sha256:'' @ replicate 64 CHR ''a'')"
  by (simp add: sha256_ref_def code_def)

lemma sample_fields: "identifier_str ''ACME''" "identifier_str ''e''" "semver ''1.0.0''" "non_empty_str ''r''"
  "strip ''r'' = ''r''" "upper ''ACME'' = ''ACME''"
  "list_all identifier_str [''anchored_vwap_gate_passed'', ''classification'', ''setup'', ''confirmation_quality'',
     ''five_minute_higher_low'', ''reference_price'']"
  by code_simp+

lemmas sample_defs = sample_swing_def sample_intraday_def sample_analysis_def

lemma sample_valid:
  "uuid_version (sample_id n) = Some 7 \<Longrightarrow> valid_analysis (sample_swing n t)"
  "uuid_version (sample_id n) = Some 7 \<Longrightarrow> 0 \<le> q \<Longrightarrow> q \<le> 1 \<Longrightarrow> valid_analysis (sample_intraday n t q)"
  using sample_fields sample_hash
  by (simp_all add: valid_analysis_def make_analysis_result_def analysis_result_fields_def sample_defs unit_interval_def)

lemma sample_ids: "list_all (\<lambda>n. uuid_version (sample_id n) = Some 7) [1, 2, 3, 4]"
  by code_simp

lemma sample_admissible: "\<forall>i\<in>set sample_start. admissible i" "admissible sample_confirming"
  using sample_valid sample_ids sample_fields
  by (simp_all add: admissible_def sample_start_def sample_confirming_def sample_input_def)
    (simp_all add: sample_defs)

lemma sample_confirms:
  "case sample_engine sample_confirming (snd (alert_run sample_engine sample_start initial_alerts)) of
     (Inr (Some a), st') \<Rightarrow> al_message a = continuation_message | _ \<Rightarrow> False"
  by code_simp

definition sample_confirmed :: "alert_input list" where
  "sample_confirmed = sample_start @ [sample_confirming]"

lemma sample_confirmed_run: "\<forall>i\<in>set sample_confirmed. admissible i" "sorted (map clock sample_confirmed)"
  using sample_admissible
  by (auto simp: sample_confirmed_def)
    (simp add: sample_start_def sample_confirming_def sample_input_def clock_def duration_defs)

text \<open>A swing setup and an intraday analysis that buy together.\<close>

definition sample_components :: "analysis_result list" where
  "sample_components = [sample_swing 1 sample_noon, sample_intraday 2 (sample_noon + minutes 1) 1]"

definition sample_setup :: alert_input where
  "sample_setup = sample_input 11 (sample_swing 1 sample_noon) sample_noon"

definition sample_trigger :: alert_input where
  "sample_trigger = sample_input 12 (sample_intraday 2 (sample_noon + minutes 1) 1) (sample_noon + minutes 1)"

lemma sample_pair_run: "admissible sample_setup" "admissible sample_trigger"
  "clock sample_setup = sample_noon" "clock sample_trigger = sample_noon + minutes 1"
  using sample_valid sample_ids sample_fields
  by (simp_all add: admissible_def sample_setup_def sample_trigger_def sample_input_def clock_def)
    (simp_all add: sample_defs)

lemma sample_buys:
  "case run_v2 default_alert_policy sample_codec sample_trigger
      (snd (alert_run (run_v2 default_alert_policy sample_codec) [sample_setup] initial_alerts)) of
     (Inr (Some a), st') \<Rightarrow> al_kind a = AK_ENTRY_CONFIRMED | _ \<Rightarrow> False"
  by code_simp

definition sample_bought :: alert_state_v3 where
  "sample_bought = snd (alert_run sample_engine [sample_setup, sample_trigger] initial_alerts)"

definition sample_again :: "(local_alert option \<times> alert_state_v3) result" where
  "sample_again = build_named_alert default_alert_policy sample_codec (sample_id 13) ''ACME'' AK_ENTRY_CONFIRMED
     sample_components [] (sample_noon + minutes 2) sample_bought"

lemma sample_silent: "case sample_again of Inr (None, st') \<Rightarrow> True | _ \<Rightarrow> False"
  by code_simp

definition sample_hasty :: alert_policy where
  "sample_hasty = default_alert_policy \<lparr> ap_cooldown := 500000 \<rparr>"

lemma sample_hasty_policy:
  "make_alert_policy sample_hasty = Inr sample_hasty" "is_ok (combined_score sample_components sample_hasty)"
  by (simp add: sample_hasty_def default_alert_policy_def make_alert_policy_def default_horizons_def, code_simp) code_simp

end
