(* ===== verification/Alert_Properties.thy ===== *)
theory Alert_Properties
  imports Alert_Demo
begin

text \<open>
  Properties of the alert engines over any run from the initial state: cooldown, uniqueness of the
  deduplication keys, when an engine stays silent, what a confirmation rests on, the rendering of the
  watcher's transitions, and the checkpoint of version 3.1.
\<close>

section \<open>Cooldown and deduplication\<close>

text \<open>C29: In any run of the third engine with a clock that does not go back, of two alerts other than SEC
  warnings with the same symbol, kind and directional horizons the later one comes after the cooldown or is
  strictly more severe; and no two alerts, SEC warnings among them, carry the same deduplication key.
\<close>

theorem alert_cooldown:
  assumes "\<forall>i\<in>set inputs. admissible i" "sorted (map clock inputs)"
  shows "sorted_wrt (\<lambda>a b. gated a \<and> gated b \<and> named_key_of a = named_key_of b \<and>
        al_created_at b < al_created_at a + ap_cooldown policy \<longrightarrow>
        severity_rank (al_severity a) < severity_rank (al_severity b))
      (fst (alert_run (run_v3 policy config z c) inputs initial_alerts)) \<and>
    distinct (map al_deduplication_key (fst (alert_run (run_v3 policy config z c) inputs initial_alerts)))"
proof (rule conjI)
  show "sorted_wrt (\<lambda>a b. gated a \<and> gated b \<and> named_key_of a = named_key_of b \<and>
        al_created_at b < al_created_at a + ap_cooldown policy \<longrightarrow>
        severity_rank (al_severity a) < severity_rank (al_severity b))
      (fst (alert_run (run_v3 policy config z c) inputs initial_alerts))"
    by (rule sorted_wrt_mono_rel [OF _ continuation_engine.run_escalates [OF filed_initial assms]])
      (simp add: continuation_engine.escalates_def)
  show "distinct (map al_deduplication_key (fst (alert_run (run_v3 policy config z c) inputs initial_alerts)))"
    using continuation_engine.run_keys [OF filed_initial assms(1)] by blast
qed

lemma alert_cooldown_witness:
  "sorted_wrt (\<lambda>a b. gated a \<and> gated b \<and> named_key_of a = named_key_of b \<and>
        al_created_at b < al_created_at a + ap_cooldown default_alert_policy \<longrightarrow>
        severity_rank (al_severity a) < severity_rank (al_severity b))
      (fst (alert_run sample_engine sample_confirmed initial_alerts)) \<and>
    distinct (map al_deduplication_key (fst (alert_run sample_engine sample_confirmed initial_alerts)))"
  by (rule alert_cooldown [OF sample_confirmed_run])



text \<open>C31: The policy accepts a cooldown below one second, but then an analysis that should raise an alert
  raises ZeroDivisionError instead, in every state that has not emitted the alert's key yet.
\<close>

theorem subsecond_cooldown_raises:
  assumes "make_alert_policy policy = Inr policy" "ap_cooldown policy < seconds 1"
    and "combined_score components policy = Inr score"
    and "dget (ae_last_emitted st) (named_state_key symbol kind (component_key components)) = None"
  shows "build_named_alert policy c aid symbol kind components fresh now st = Inl ZeroDivisionError"
proof -
  have "0 < ap_cooldown policy"
    using assms(1) by (auto simp: make_alert_policy_def Let_def split: if_splits)
  then have "whole_seconds (ap_cooldown policy) = 0"
    using assms(2) by (simp add: whole_seconds_def)
  then have "alert_window policy now = Inl ZeroDivisionError" by (simp add: alert_window_def)
  with assms(3,4) show ?thesis by (simp add: build_named_alert_def cooling_def Let_def)
qed

lemma subsecond_cooldown_raises_witness:
  "build_named_alert sample_hasty sample_codec (sample_id 1) ''ACME'' AK_ENTRY_CONFIRMED
     sample_components [] sample_noon initial_alerts = Inl ZeroDivisionError"
proof -
  obtain score where "combined_score sample_components sample_hasty = Inr score"
    using sample_hasty_policy(2) by (auto simp: is_ok_def split: sum.splits)
  from subsecond_cooldown_raises [OF sample_hasty_policy(1) _ this, of initial_alerts "''ACME''" AK_ENTRY_CONFIRMED]
  show ?thesis by (simp add: sample_hasty_def seconds_def initial_alerts_def)
qed

section \<open>What an entry alert rests on\<close>

lemma run_v2_alert:
  assumes "run_v2 policy c i st = (Inr (Some a), st')" "gated a"
  obtains kind components where "\<not> ignored st (input_analysis i)"
    "snd (snd i) = Aware (clock i) 0" "ar_as_of (input_analysis i) \<le> clock i"
    "select_alert policy (input_analysis i)
       (fresh_values policy (stored st (input_analysis i)) (ar_symbol (input_analysis i)) (clock i)) = Some (kind, components)"
    "build_named_alert policy c (fst i) (ar_symbol (input_analysis i)) kind components
       (fresh_values policy (stored st (input_analysis i)) (ar_symbol (input_analysis i)) (clock i)) (clock i)
       (stored st (input_analysis i)) = Inr (Some a, st')"
proof -
  let ?r = "input_analysis i"
  let ?st1 = "stored st ?r"
  obtain t where t: "analysis_time ?r (snd (snd i)) = Inr t"
    using assms(1) by (cases "analysis_time ?r (snd (snd i))") (auto simp: run_v2_def ingest_v2_def)
  have time: "clock i = t" "snd (snd i) = Aware t 0" "ar_as_of ?r \<le> t"
    using clock_analysis_time [OF t] t by (auto simp: analysis_time_Inr)
  have new: "\<not> ignored st ?r" using assms(1) t by (auto simp: run_v2_def ingest_v2_def)
  let ?fresh = "fresh_values policy ?st1 (ar_symbol ?r) t"
  have outcome: "(if ar_horizon ?r = AH_DILUTION then dilution_warning_alert policy (fst i) ?r t ?st1
      else case select_alert policy ?r ?fresh of None \<Rightarrow> Inr (None, ?st1)
        | Some (kind, components) \<Rightarrow>
            build_named_alert policy c (fst i) (ar_symbol ?r) kind components ?fresh t ?st1) = Inr (Some a, st')"
    using assms(1) t new
    by (auto simp: run_v2_def ingest_v2_def settle_alert_def Let_def split: sum.splits prod.splits)
  have "ar_horizon ?r \<noteq> AH_DILUTION"
  proof
    assume "ar_horizon ?r = AH_DILUTION"
    with outcome have "dilution_warning_alert policy (fst i) ?r t ?st1 = Inr (Some a, st')" by simp
    then have "al_kind a = AK_SEC_WARNING"
      by (auto simp: dilution_warning_alert_def Let_def bind_result_Inr make_local_alert_Inr split: option.splits if_splits)
    with assms(2) show False by (simp add: gated_def)
  qed
  then obtain kind components where "select_alert policy ?r ?fresh = Some (kind, components)"
    "build_named_alert policy c (fst i) (ar_symbol ?r) kind components ?fresh t ?st1 = Inr (Some a, st')"
    using outcome by (cases "select_alert policy ?r ?fresh") auto
  with that new time show thesis by blast
qed

text \<open>The components of a buy: the bullish directional analyses, the intraday one among them.\<close>

lemma select_buy:
  assumes "select_alert policy incoming fresh = Some (kind, components)"
    "kind \<in> {AK_ENTRY_CONFIRMED, AK_HIGH_CONVICTION_BUY}"
  shows "(\<forall>r\<in>set components. \<exists>h\<in>{AH_LONG_TERM, AH_SWING, AH_INTRADAY}.
        bullish_above (dget fresh h) (ap_watch_threshold policy) = Some r)"
    and "\<exists>r\<in>set components. dget fresh AH_INTRADAY = Some r"
    and "\<exists>r\<in>set components. dget fresh AH_SWING = Some r \<or> dget fresh AH_LONG_TERM = Some r"
    and "kind = AK_HIGH_CONVICTION_BUY \<longleftrightarrow>
      (\<forall>h\<in>conviction_horizons. \<exists>r\<in>set components. bullish_above (dget fresh h) (ap_watch_threshold policy) = Some r)"
proof -
  let ?b = "\<lambda>h. bullish_above (dget fresh h) (ap_watch_threshold policy)"
  have shape: "components = present [?b AH_LONG_TERM, ?b AH_SWING, ?b AH_INTRADAY]" "?b AH_INTRADAY \<noteq> None"
    "?b AH_SWING \<noteq> None \<or> ?b AH_LONG_TERM \<noteq> None"
    "kind = AK_HIGH_CONVICTION_BUY \<longleftrightarrow> ?b AH_LONG_TERM \<noteq> None \<and> ?b AH_SWING \<noteq> None \<and> ?b AH_INTRADAY \<noteq> None"
    using assms by (auto simp: select_alert_def Let_def split: if_splits)
  have members: "r \<in> set components \<longleftrightarrow> (\<exists>h\<in>{AH_LONG_TERM, AH_SWING, AH_INTRADAY}. ?b h = Some r)" for r
    by (auto simp: shape(1) present_set eq_commute [of "Some r"])
  show "\<forall>r\<in>set components. \<exists>h\<in>{AH_LONG_TERM, AH_SWING, AH_INTRADAY}. ?b h = Some r"
    using members by blast
  show "\<exists>r\<in>set components. dget fresh AH_INTRADAY = Some r"
    using shape(2) members bullish_above_Some by (metis insertI1 insertI2 not_None_eq)
  show "\<exists>r\<in>set components. dget fresh AH_SWING = Some r \<or> dget fresh AH_LONG_TERM = Some r"
    using shape(3) members bullish_above_Some by (metis insertI1 insertI2 not_None_eq)
  show "kind = AK_HIGH_CONVICTION_BUY \<longleftrightarrow> (\<forall>h\<in>conviction_horizons. \<exists>r\<in>set components. ?b h = Some r)"
    unfolding shape(4) conviction_horizons_def using members by auto
qed

lemma named_buy_sound:
  assumes "select_alert policy incoming fresh = Some (kind, components)"
    "kind \<in> {AK_ENTRY_CONFIRMED, AK_HIGH_CONVICTION_BUY}"
    and "build_named_alert policy c aid symbol kind components fresh now st = Inr (Some a, st')"
    and fresh: "\<And>h r. dget fresh h = Some r \<Longrightarrow> ar_symbol r = symbol \<and> ar_horizon r = h \<and>
      now - ar_as_of r \<le> hp_max_age (for_horizon policy h)"
  shows "(\<forall>r\<in>set (al_component_analyses a). ar_horizon r \<noteq> AH_DILUTION \<longrightarrow>
        ar_symbol r = al_symbol a \<and> bullish r \<and> ar_verdict r \<in> {AV_FAVORABLE, AV_WATCH} \<and>
        ap_watch_threshold policy \<le> dmul (ar_score r) (ar_confidence r) \<and>
        now - ar_as_of r \<le> hp_max_age (for_horizon policy (ar_horizon r))) \<and>
    AH_INTRADAY \<in> set (al_horizons a) \<and> {AH_SWING, AH_LONG_TERM} \<inter> set (al_horizons a) \<noteq> {} \<and>
    (\<exists>r\<in>set (al_component_analyses a). ar_horizon r = AH_INTRADAY) \<and>
    (\<exists>r\<in>set (al_component_analyses a). ar_horizon r \<in> {AH_SWING, AH_LONG_TERM}) \<and>
    al_horizons a = map ar_horizon (al_component_analyses a) \<and>
    (al_kind a = AK_HIGH_CONVICTION_BUY \<longleftrightarrow> conviction_horizons \<subseteq> set (al_horizons a)) \<and> buy_maturity a \<noteq> None"
proof -
  let ?dilution = "case dget fresh AH_DILUTION of None \<Rightarrow> [] | Some r \<Rightarrow> [r]"
  have a: "al_kind a = kind" "al_symbol a = symbol" "al_component_analyses a = components @ ?dilution"
    "al_horizons a = map ar_horizon (components @ ?dilution)"
    using build_named_Some [OF assms(3)] by simp_all
  note buy = select_buy [OF assms(1,2)]
  have above: "\<exists>h\<in>{AH_LONG_TERM, AH_SWING, AH_INTRADAY}. dget fresh h = Some r \<and> ar_horizon r = h \<and>
      bullish_above (dget fresh h) (ap_watch_threshold policy) = Some r" if "r \<in> set components" for r
    using buy(1) that fresh unfolding bullish_above_Some by blast
  have component: "ar_symbol r = al_symbol a \<and> bullish r \<and> ar_verdict r \<in> {AV_FAVORABLE, AV_WATCH} \<and>
      ap_watch_threshold policy \<le> dmul (ar_score r) (ar_confidence r) \<and>
      now - ar_as_of r \<le> hp_max_age (for_horizon policy (ar_horizon r))" if member: "r \<in> set components" for r
  proof -
    obtain h where "dget fresh h = Some r" "ar_horizon r = h"
      "bullish_above (dget fresh h) (ap_watch_threshold policy) = Some r" using above [OF member] by blast
    with fresh [of h r] show ?thesis by (simp add: bullish_above_Some bullish_def a(2))
  qed
  have dilution: "ar_horizon r = AH_DILUTION" if "r \<in> set ?dilution" for r
    using that fresh [of AH_DILUTION r] by (cases "dget fresh AH_DILUTION") simp_all
  have horizons: "h \<in> set (al_horizons a) \<longleftrightarrow> (\<exists>r\<in>set components. ar_horizon r = h)" if "h \<noteq> AH_DILUTION" for h
    using dilution that by (auto simp: a(4))
  have named: "h \<in> set (al_horizons a)" if "r \<in> set components" "dget fresh h = Some r" for h r
  proof -
    from fresh [OF that(2)] that(1) show ?thesis by (auto simp: a(4))
  qed
  have intraday: "AH_INTRADAY \<in> set (al_horizons a)" using buy(2) named by metis
  have other: "AH_SWING \<in> set (al_horizons a) \<or> AH_LONG_TERM \<in> set (al_horizons a)" using buy(3) named by metis
  have conviction: "kind = AK_HIGH_CONVICTION_BUY \<longleftrightarrow> conviction_horizons \<subseteq> set (al_horizons a)"
  proof -
    have "ar_horizon r = h \<longleftrightarrow> bullish_above (dget fresh h) (ap_watch_threshold policy) = Some r"
      if "r \<in> set components" for r h
      using above [OF that] fresh [of h r] by (auto simp: bullish_above_Some)
    then have "(\<exists>r\<in>set components. ar_horizon r = h) \<longleftrightarrow>
        (\<exists>r\<in>set components. bullish_above (dget fresh h) (ap_watch_threshold policy) = Some r)"
      for h by blast
    with horizons show ?thesis unfolding buy(4) by (auto simp: conviction_horizons_def)
  qed
  have "buy_maturity a \<noteq> None"
    using assms(2) intraday other conviction by (auto simp: buy_maturity_def Let_def a(1))
  moreover have map: "al_horizons a = map ar_horizon (al_component_analyses a)" by (simp add: a(3,4))
  moreover have "\<exists>r\<in>set (al_component_analyses a). ar_horizon r = AH_INTRADAY"
    "\<exists>r\<in>set (al_component_analyses a). ar_horizon r \<in> {AH_SWING, AH_LONG_TERM}"
    using intraday other unfolding map set_map by (metis imageE, metis imageE insertCI)
  moreover have "\<forall>r\<in>set (al_component_analyses a). r \<in> set components \<or> ar_horizon r = AH_DILUTION"
    using dilution unfolding a(3) set_append by blast
  ultimately show ?thesis using component intraday other conviction unfolding a(1) by blast
qed

text \<open>C32: A buy alert of the confluence engine (ENTRY_CONFIRMED or HIGH_CONVICTION_BUY) embeds an intraday
  analysis and a swing or long-term one, and its horizons are those of the analyses it embeds; each of
  them, an advisory dilution analysis apart, is a fresh bullish favorable or watch analysis of its symbol
  above the threshold; the alert is a high conviction exactly when all three directional horizons are
  there; and it always has a maturity level.
\<close>

theorem buy_alert_sound:
  assumes "\<forall>j\<in>set inputs. admissible j" "admissible i"
    and "run_v2 policy c i (snd (alert_run (run_v2 policy c) inputs initial_alerts)) = (Inr (Some a), st')"
    and "al_kind a \<in> {AK_ENTRY_CONFIRMED, AK_HIGH_CONVICTION_BUY}"
  shows "(\<forall>r\<in>set (al_component_analyses a). ar_horizon r \<noteq> AH_DILUTION \<longrightarrow>
        ar_symbol r = al_symbol a \<and> bullish r \<and> ar_verdict r \<in> {AV_FAVORABLE, AV_WATCH} \<and>
        ap_watch_threshold policy \<le> dmul (ar_score r) (ar_confidence r) \<and>
        clock i - ar_as_of r \<le> hp_max_age (for_horizon policy (ar_horizon r))) \<and>
    AH_INTRADAY \<in> set (al_horizons a) \<and> {AH_SWING, AH_LONG_TERM} \<inter> set (al_horizons a) \<noteq> {} \<and>
    (\<exists>r\<in>set (al_component_analyses a). ar_horizon r = AH_INTRADAY) \<and>
    (\<exists>r\<in>set (al_component_analyses a). ar_horizon r \<in> {AH_SWING, AH_LONG_TERM}) \<and>
    al_horizons a = map ar_horizon (al_component_analyses a) \<and>
    (al_kind a = AK_HIGH_CONVICTION_BUY \<longleftrightarrow> conviction_horizons \<subseteq> set (al_horizons a)) \<and> buy_maturity a \<noteq> None"
proof -
  define st where "st = snd (alert_run (run_v2 policy c) inputs initial_alerts)"
  let ?r = "input_analysis i"
  let ?st1 = "stored st ?r"
  let ?fresh = "fresh_values policy ?st1 (ar_symbol ?r) (clock i)"
  have "filed st" unfolding st_def using confluence_engine.run_filed [OF filed_initial assms(1)] .
  then have filed: "filed ?st1" using assms(2) by (simp add: filed_stored admissible_def)
  obtain kind components where sel: "select_alert policy ?r ?fresh = Some (kind, components)"
    and built: "build_named_alert policy c (fst i) (ar_symbol ?r) kind components ?fresh (clock i) ?st1 = Inr (Some a, st')"
  proof (rule run_v2_alert [OF assms(3) [folded st_def]])
    show "gated a" using assms(4) by (auto simp: gated_def)
  qed blast
  have "kind \<in> {AK_ENTRY_CONFIRMED, AK_HIGH_CONVICTION_BUY}" using build_named_Some [OF built] assms(4) by simp
  from sel this built show ?thesis
  proof (rule named_buy_sound)
    show "ar_symbol r = ar_symbol ?r \<and> ar_horizon r = h \<and> clock i - ar_as_of r \<le> hp_max_age (for_horizon policy h)"
      if "dget ?fresh h = Some r" for r h
      using fresh_values_member [OF filed that] by blast
  qed
qed

lemma buy_alert_sound_witness:
  "\<exists>a. al_kind a = AK_ENTRY_CONFIRMED \<and> buy_maturity a \<noteq> None \<and> AH_INTRADAY \<in> set (al_horizons a) \<and>
    (\<forall>r\<in>set (al_component_analyses a). ar_horizon r \<noteq> AH_DILUTION \<longrightarrow>
       ar_symbol r = al_symbol a \<and> 60 \<le> dmul (ar_score r) (ar_confidence r))"
proof -
  obtain a st' where bought: "run_v2 default_alert_policy sample_codec sample_trigger
      (snd (alert_run (run_v2 default_alert_policy sample_codec) [sample_setup] initial_alerts)) = (Inr (Some a), st')"
    "al_kind a = AK_ENTRY_CONFIRMED"
    using sample_buys by (auto split: prod.splits sum.splits option.splits)
  have "\<forall>j\<in>set [sample_setup]. admissible j" using sample_pair_run by simp
  note facts = buy_alert_sound [OF this sample_pair_run(2) bought(1)]
  have buys: "al_kind a \<in> {AK_ENTRY_CONFIRMED, AK_HIGH_CONVICTION_BUY}" "ap_watch_threshold default_alert_policy = 60"
    by (simp_all add: bought(2) default_alert_policy_def)
  show ?thesis using facts [OF buys(1), unfolded buys(2)] bought(2) by (intro exI [of _ a]) blast
qed

section \<open>The confirmation of a swing continuation\<close>

text \<open>C33: A swing continuation alert rests on two different strong intraday analyses of the symbol, the
  earlier one ingested before, at least the delay apart and (when the configuration says so) of one market
  session that has had no confirmation yet, over a fresh bullish swing whose gates are open; it has the
  maturity of a confirmed swing and closes the session.
\<close>

theorem continuation_reconfirmed:
  assumes "\<forall>j\<in>set inputs. admissible j" "admissible i"
    and "st = snd (alert_run (run_v3 policy config z c) inputs initial_alerts)"
    and "run_v3 policy config z c i st = (Inr (Some a), st')" "al_message a = continuation_message"
    and "r = input_analysis i" "session = alert_session z (ar_as_of r)"
  shows "(\<exists>earlier\<in>input_analysis ` set inputs. ar_symbol earlier = ar_symbol r \<and> ar_horizon earlier = AH_INTRADAY \<and>
        qualifies config earlier = Inr True \<and> ar_analysis_id earlier \<noteq> ar_analysis_id r \<and>
        cc_minimum_delay config \<le> ar_as_of r - ar_as_of earlier \<and>
        (cc_same_session_required config \<longrightarrow> alert_session z (ar_as_of earlier) = session)) \<and>
    ar_horizon r = AH_INTRADAY \<and> qualifies config r = Inr True \<and>
    (\<exists>swing\<in>set (al_component_analyses a). ar_horizon swing = AH_SWING \<and> bullish swing \<and> valid_swing swing = Inr True \<and>
        clock i - ar_as_of swing \<le> hp_max_age (for_horizon policy AH_SWING)) \<and>
    (ar_symbol r, session) \<notin> set (ae_sessions st) \<and> (ar_symbol r, session) \<in> set (ae_sessions st') \<and>
    al_kind a = AK_ENTRY_CONFIRMED \<and> buy_maturity a = Some SWING_CONFIRMED"
proof -
  define st1 where "st1 = snd (run_v2 policy c i st)"
  have "filed st" unfolding assms(3) using continuation_engine.run_filed [OF filed_initial assms(1)] .
  from run_v2_gate [OF this assms(2)] have filed: "filed st1" by (simp add: st1_def)
  have kept: "ae_candidates st1 = ae_candidates st" "ae_sessions st1 = ae_sessions st"
    using run_v2_frame [of policy c i st] by (simp_all add: st1_def)
  from run_v3_effect [OF assms(4)] assms(5-7) have intraday: "ar_horizon r = AH_INTRADAY"
    and confirmed: "confirm_swing_continuation policy config c (fst i) r (clock i) session st1 = Inr (Some a, st')"
    by (simp_all add: st1_def)
  let ?fresh = "fresh_values policy st1 (ar_symbol r) (clock i)"
  obtain swing held b st2 where parts: "(ar_symbol r, session) \<notin> set (ae_sessions st1)"
    "continuation_swing policy config r ?fresh = Inr (Some swing)"
    "dget (ae_candidates st1) (ar_symbol r) = Some held" "\<not> replaces_candidate config (Some held) session"
    "ar_analysis_id r \<noteq> fst held" "cc_minimum_delay config \<le> ar_as_of r - fst (snd held)"
    "build_named_alert policy c (fst i) (ar_symbol r) AK_ENTRY_CONFIRMED [swing, r] ?fresh (clock i) st1 = Inr (Some b, st2)"
    "a = confirmed_text b" "st' = close_continuation (ar_symbol r) session st2"
    using confirm_Some [OF confirmed] by metis
  have "backed config z [] initial_alerts" by (simp add: backed_def initial_alerts_def)
  from backed_run [OF this, of inputs policy c] have "backed config z inputs st" by (simp add: assms(3))
  then obtain earlier where earlier: "earlier \<in> input_analysis ` set inputs" "ar_symbol earlier = ar_symbol r"
    "ar_horizon earlier = AH_INTRADAY" "qualifies config earlier = Inr True"
    "held = (ar_analysis_id earlier, ar_as_of earlier, alert_session z (ar_as_of earlier))"
    using parts(3) unfolding backed_def kept by blast
  note swing = continuation_swing_Some [OF parts(2)]
  have sw: "ar_horizon swing = AH_SWING" "clock i - ar_as_of swing \<le> hp_max_age (for_horizon policy AH_SWING)"
    using fresh_values_member [OF filed, of policy "ar_symbol r" "clock i" AH_SWING swing] swing by blast+
  have dilution: "ar_horizon d = AH_DILUTION" if "dget ?fresh AH_DILUTION = Some d" for d
    using fresh_values_member [OF filed that] by blast
  have b: "al_kind b = AK_ENTRY_CONFIRMED" "al_component_analyses b =
      [swing, r] @ (case dget ?fresh AH_DILUTION of None \<Rightarrow> [] | Some d \<Rightarrow> [d])"
    "al_horizons b = map ar_horizon (al_component_analyses b)"
    using build_named_Some [OF parts(7)] by simp_all
  have horizons: "set (al_horizons a) - {AH_DILUTION} = {AH_SWING, AH_INTRADAY}"
    using b sw intraday dilution by (cases "dget ?fresh AH_DILUTION") (auto simp: parts(8))
  have kind: "al_kind a = AK_ENTRY_CONFIRMED" by (simp add: parts(8) b(1))
  have "buy_maturity a = Some SWING_CONFIRMED"
    using horizons kind by (auto simp: buy_maturity_def Let_def conviction_horizons_def)
  moreover have "swing \<in> set (al_component_analyses a)" by (simp add: parts(8) confirmed_text_def b(2))
  moreover have "(ar_symbol r, session) \<in> set (ae_sessions st')" by (simp add: parts(9) close_continuation_def)
  moreover have "cc_same_session_required config \<longrightarrow> alert_session z (ar_as_of earlier) = session"
    using parts(4) by (simp add: replaces_candidate_def earlier(5))
  ultimately show ?thesis
    using earlier parts(1,5,6) intraday swing sw kind unfolding kept bullish_def by auto
qed

lemma continuation_reconfirmed_witness:
  "\<exists>a. al_kind a = AK_ENTRY_CONFIRMED \<and> buy_maturity a = Some SWING_CONFIRMED \<and>
    (\<exists>earlier\<in>input_analysis ` set sample_start. ar_horizon earlier = AH_INTRADAY \<and>
       qualifies default_continuation earlier = Inr True)"
proof -
  obtain a st' where confirmed: "sample_engine sample_confirming (snd (alert_run sample_engine sample_start initial_alerts))
      = (Inr (Some a), st')" "al_message a = continuation_message"
    using sample_confirms by (auto split: prod.splits sum.splits option.splits)
  from continuation_reconfirmed [OF sample_admissible refl confirmed refl refl]
  show ?thesis by (intro exI [of _ a]) blast
qed

end
