(* ===== verification/Alert_Checkpoint.thy ===== *)
theory Alert_Checkpoint
  imports Alert_Demo
begin

text \<open>
  The checkpoint of the alert engine (app/alert_engine/v31.py): restoring the snapshot of a run gives back
  the analyses as the contract library reads them, the candidates and the latest session of every symbol;
  the memory of the emitted alerts is lost.
\<close>

section \<open>Dictionaries of a run\<close>

text \<open>The keys of a Python dictionary are distinct.\<close>

definition dicts_ok :: "'z alert_state_v3_scheme \<Rightarrow> bool" where
  "dicts_ok st \<longleftrightarrow> dict_wf (ae_latest st) \<and> (\<forall>symbol. dict_wf (latest_of st symbol)) \<and> dict_wf (ae_candidates st)"

lemma dict_wf_ddel: "dict_wf d \<Longrightarrow> dict_wf (ddel k d)"
  by (rule distinct_delete)

lemma dicts_ok_step:
  assumes "dicts_ok st"
  shows "dicts_ok (snd (run_v3 policy config z c i st))"
proof -
  obtain out st' where run: "run_v3 policy config z c i st = (out, st')" by (cases "run_v3 policy config z c i st")
  let ?r = "input_analysis i"
  have latest: "ae_latest st' = ae_latest st \<or> ae_latest st' = ae_latest (stored st ?r)"
    using run_v3_effect [OF run] by blast
  have "dict_wf (ae_latest st') \<and> (\<forall>symbol. dict_wf (latest_of st' symbol))"
  proof -
    have "latest_of st' symbol = latest_of st symbol \<or> latest_of st' symbol = latest_of (stored st ?r) symbol" for symbol
      using latest by (auto simp: latest_of_def)
    moreover have "dict_wf (latest_of (stored st ?r) symbol)" for symbol
      using assms by (simp add: latest_of_stored dicts_ok_def dict_wf_dput)
    moreover have "dict_wf (ae_latest (stored st ?r))"
      using assms by (simp add: stored_def dicts_ok_def dict_wf_dput)
    ultimately show ?thesis using assms latest unfolding dicts_ok_def by metis
  qed
  moreover have "dict_wf (ae_candidates st')"
    using run_v3_effect [OF run] assms by (auto simp: dicts_ok_def dict_wf_dput dict_wf_ddel)
  ultimately show ?thesis by (simp add: run dicts_ok_def)
qed

lemma dicts_ok_run: "dicts_ok st \<Longrightarrow> dicts_ok (snd (alert_run (run_v3 policy config z c) inputs st))"
  by (induction inputs arbitrary: st) (simp_all add: Let_def dicts_ok_step)

lemma dicts_ok_initial: "dicts_ok initial_alerts"
  by (simp add: dicts_ok_def initial_alerts_def latest_of_def)

section \<open>Reading the analyses back\<close>

definition kept :: "(string, analyses) dict \<Rightarrow> string \<Rightarrow> analysis_horizon \<Rightarrow> analysis_result option" where
  "kept latest symbol h = (case dget latest symbol of None \<Rightarrow> None | Some a \<Rightarrow> dget a h)"

lemma kept_latest_of: "kept (ae_latest st) symbol h = dget (latest_of st symbol) h"
  by (simp add: kept_def latest_of_def split: option.splits)

lemma held_put_latest:
  "kept (put_latest latest r) symbol h =
     (if ar_symbol r = symbol \<and> ar_horizon r = h then Some r else kept latest symbol h)"
  by (simp add: kept_def put_latest_def dict_simps split: option.splits)

lemma held_foldl:
  "(\<forall>r\<in>set rs. \<not> (ar_symbol r = symbol \<and> ar_horizon r = h)) \<Longrightarrow>
     kept (foldl put_latest latest rs) symbol h = kept latest symbol h"
  "r \<in> set rs \<Longrightarrow> ar_symbol r = symbol \<Longrightarrow> ar_horizon r = h \<Longrightarrow>
     (\<forall>q\<in>set rs. ar_symbol q = symbol \<and> ar_horizon q = h \<longrightarrow> q = r) \<Longrightarrow>
     kept (foldl put_latest latest rs) symbol h = Some r"
proof -
  show "(\<forall>r\<in>set rs. \<not> (ar_symbol r = symbol \<and> ar_horizon r = h)) \<Longrightarrow>
      kept (foldl put_latest latest rs) symbol h = kept latest symbol h"
    by (induction rs rule: rev_induct) (auto simp: held_put_latest)
  show "r \<in> set rs \<Longrightarrow> ar_symbol r = symbol \<Longrightarrow> ar_horizon r = h \<Longrightarrow>
      (\<forall>q\<in>set rs. ar_symbol q = symbol \<and> ar_horizon q = h \<longrightarrow> q = r) \<Longrightarrow>
      kept (foldl put_latest latest rs) symbol h = Some r"
  proof (induction rs rule: rev_induct)
    case (snoc x rs)
    show ?case
    proof (cases "x = r")
      case False
      have "ar_symbol x = symbol \<and> ar_horizon x = h \<longrightarrow> x = r"
        by (rule bspec [OF snoc.prems(4)]) simp
      with False have "\<not> (ar_symbol x = symbol \<and> ar_horizon x = h)" by blast
      moreover have "r \<in> set rs" using snoc.prems(1) False by simp
      moreover from this have "kept (foldl put_latest latest rs) symbol h = Some r"
        by (intro snoc.IH snoc.prems(2,3) ballI bspec [OF snoc.prems(4)]) simp_all
      ultimately show ?thesis by (auto simp: held_put_latest)
    qed (simp add: held_put_latest snoc.prems(2,3))
  qed simp
qed

lemma map_result_reads: "(\<And>r. load (dump r) = Inr (reread r)) \<Longrightarrow> map_result load (map dump rs) = Inr (map reread rs)"
  by (induction rs) simp_all

definition snapshot_analyses :: "'z alert_state_v3_scheme \<Rightarrow> analysis_result list" where
  "snapshot_analyses st =
     concat (map (\<lambda>symbol. map snd (horizons_by_value (latest_of st symbol))) (sort (dkeys (ae_latest st))))"

lemma snapshot_latest: "cp_latest_analyses (snapshot_state dump st) = map dump (snapshot_analyses st)"
  by (simp add: snapshot_state_def snapshot_analyses_def map_concat comp_def)

lemma snapshot_analyses_member:
  "r \<in> set (snapshot_analyses st) \<longleftrightarrow> (\<exists>symbol h. (h, r) \<in> set (latest_of st symbol))"
proof -
  have "(h, r) \<in> set (latest_of st symbol) \<Longrightarrow> symbol \<in> set (dkeys (ae_latest st))" for symbol h
    by (cases "dget (ae_latest st) symbol") (force simp: latest_of_def dest: map_of_SomeD)+
  then show ?thesis by (force simp: snapshot_analyses_def horizons_by_value_def)
qed

section \<open>Sessions\<close>

lemma dict_wf_note_sessions: "dict_wf (foldl note_session [] entries)"
  by (induction entries rule: rev_induct) (auto simp: note_session_def dict_wf_dput split: option.splits)

lemma dget_note_session:
  "dget (note_session seen (k, x)) symbol =
     (if k = symbol then Some (case dget seen symbol of None \<Rightarrow> x | Some m \<Rightarrow> max m x) else dget seen symbol)"
  by (cases "dget seen k") (auto simp: note_session_def dict_simps max_def)

lemma dget_note_sessions:
  "dget (foldl note_session [] entries) symbol = Some s \<longleftrightarrow>
     (symbol, s) \<in> set entries \<and> (\<forall>other. (symbol, other) \<in> set entries \<longrightarrow> other \<le> s)"
proof (induction entries arbitrary: s rule: rev_induct)
  case (snoc e entries)
  let ?seen = "foldl note_session [] entries"
  obtain k x where e: "e = (k, x)" by (cases e)
  show ?case
  proof (cases "k = symbol")
    case False
    with snoc.IH show ?thesis by (simp add: e dget_note_session)
  next
    case True
    show ?thesis
    proof (cases "dget ?seen symbol")
      case None
      have "(symbol, other) \<notin> set entries" for other
      proof
        assume "(symbol, other) \<in> set entries"
        then have fin: "{o'. (symbol, o') \<in> set entries} \<noteq> {}" "finite {o'. (symbol, o') \<in> set entries}"
          using finite_subset [of "{o'. (symbol, o') \<in> set entries}" "snd ` set entries"] by (force intro: rev_image_eqI)+
        with snoc.IH [of "Max {o'. (symbol, o') \<in> set entries}"] None Max_in [OF fin(2,1)] show False by simp
      qed
      with None True show ?thesis by (auto simp: e dget_note_session)
    next
      case (Some m)
      with snoc.IH [of m] have m: "(symbol, m) \<in> set entries" "\<forall>other. (symbol, other) \<in> set entries \<longrightarrow> other \<le> m"
        by blast+
      have "max m x = s \<longleftrightarrow> (s = x \<or> (symbol, s) \<in> set entries) \<and>
          (\<forall>other. other = x \<or> (symbol, other) \<in> set entries \<longrightarrow> other \<le> s)"
        (is "_ \<longleftrightarrow> ?in \<and> ?above")
      proof
        assume "max m x = s"
        with m show "?in \<and> ?above" by (cases "m \<le> x") (auto simp: max_def)
      next
        assume now: "?in \<and> ?above"
        then have "m \<le> s" "x \<le> s" using m(1) by blast+
        moreover have "s \<le> max m x" using now m(2) by (auto simp: max_def)
        ultimately show "max m x = s" by simp
      qed
      with Some show ?thesis by (simp add: e True dget_note_session)
    qed
  qed
qed simp

lemma map_of_sort_key: "dict_wf d \<Longrightarrow> dget (sort_key fst d) = dget d"
  by (rule map_of_inject_set [THEN iffD2]) (simp_all add: distinct_map)

text \<open>C34: Restoring the checkpoint of any run succeeds: every symbol and horizon holds the analysis it held,
  as the contract library reads it back, every symbol its candidate, and of the confirmed sessions each
  symbol keeps exactly its latest one.
\<close>

theorem checkpoint_roundtrip:
  assumes "\<forall>j\<in>set inputs. admissible j"
    and "st = snd (alert_run (run_v3 policy config z c) inputs initial_alerts)"
    and "\<And>r. load (dump r) = Inr (reread r)"
    and "\<And>r. ar_symbol (reread r) = ar_symbol r \<and> ar_horizon (reread r) = ar_horizon r"
  shows "\<exists>st'. restored_engine load (Some (snapshot_state dump st)) = Inr st' \<and>
    (\<forall>symbol h. dget (latest_of st' symbol) h = map_option reread (dget (latest_of st symbol) h)) \<and>
    (\<forall>symbol. dget (ae_candidates st') symbol = dget (ae_candidates st) symbol) \<and>
    (\<forall>symbol session. (symbol, session) \<in> set (ae_sessions st') \<longleftrightarrow>
       (symbol, session) \<in> set (ae_sessions st) \<and>
       (\<forall>other. (symbol, other) \<in> set (ae_sessions st) \<longrightarrow> other \<le> session))"
proof -
  have filed: "filed st" unfolding assms(2) using continuation_engine.run_filed [OF filed_initial assms(1)] .
  have ok: "dicts_ok st" unfolding assms(2) by (rule dicts_ok_run [OF dicts_ok_initial])
  let ?rs = "map reread (snapshot_analyses st)"
  define st' where "st' = initial_alerts \<lparr> ae_latest := foldl put_latest [] ?rs,
    ae_candidates := sort_key fst (ae_candidates st), ae_sessions := sort_key fst (foldl note_session [] (ae_sessions st)) \<rparr>"
  have "map_result load (map dump (snapshot_analyses st)) = Inr ?rs"
    by (rule map_result_reads) (rule assms(3))
  then have restored: "restored_engine load (Some (snapshot_state dump st)) = Inr st'"
    unfolding restored_engine_def restore_state_def option.case snapshot_latest
    by (simp add: st'_def snapshot_state_def initial_alerts_def)
  have found: "(h, q) \<in> set (latest_of st symbol)"
    if q: "q \<in> set (snapshot_analyses st)" "ar_symbol q = symbol" "ar_horizon q = h" for q symbol h
  proof -
    obtain s' h' where "(h', q) \<in> set (latest_of st s')" using q(1) by (auto simp: snapshot_analyses_member)
    moreover from this filed q(2,3) have "s' = symbol" "h' = h" by (force simp: filed_def)+
    ultimately show ?thesis by simp
  qed
  have "dget (latest_of st' symbol) h = map_option reread (dget (latest_of st symbol) h)" for symbol h
  proof (cases "dget (latest_of st symbol) h")
    case None
    then have "\<forall>r\<in>set ?rs. \<not> (ar_symbol r = symbol \<and> ar_horizon r = h)"
      using found assms(4) by (auto simp: map_of_eq_None_iff) (metis fst_conv image_eqI)
    from held_foldl(1) [OF this, of "[]"] None show ?thesis
      by (simp add: st'_def initial_alerts_def kept_def flip: kept_latest_of)
  next
    case (Some r)
    have unique: "q = r" if "q \<in> set (snapshot_analyses st)" "ar_symbol q = symbol" "ar_horizon q = h" for q
      using found [OF that] ok Some by (simp add: dicts_ok_def)
    have "(h, r) \<in> set (latest_of st symbol)" using map_of_SomeD [OF Some] .
    with filed have r: "ar_symbol r = symbol" "ar_horizon r = h" "r \<in> set (snapshot_analyses st)"
      by (force simp: filed_def snapshot_analyses_member)+
    have "kept (foldl put_latest [] ?rs) symbol h = Some (reread r)"
    proof (rule held_foldl(2))
      show "\<forall>q\<in>set ?rs. ar_symbol q = symbol \<and> ar_horizon q = h \<longrightarrow> q = reread r"
      proof (intro ballI impI)
        fix q assume "q \<in> set ?rs" "ar_symbol q = symbol \<and> ar_horizon q = h"
        then obtain p where "p \<in> set (snapshot_analyses st)" "q = reread p" by auto
        with unique [of p] assms(4) \<open>ar_symbol q = symbol \<and> ar_horizon q = h\<close> show "q = reread r" by simp
      qed
    qed (use r assms(4) in simp_all)
    with Some show ?thesis by (simp add: st'_def initial_alerts_def flip: kept_latest_of)
  qed
  moreover have "dget (ae_candidates st') symbol = dget (ae_candidates st) symbol" for symbol
    using ok by (simp add: st'_def initial_alerts_def map_of_sort_key dicts_ok_def)
  moreover have "(symbol, session) \<in> set (ae_sessions st') \<longleftrightarrow>
       (symbol, session) \<in> set (ae_sessions st) \<and>
       (\<forall>other. (symbol, other) \<in> set (ae_sessions st) \<longrightarrow> other \<le> session)" for symbol session
    using dget_note_sessions [of "ae_sessions st" symbol session] dict_wf_note_sessions
    by (simp add: st'_def initial_alerts_def)
  ultimately show ?thesis using restored by blast
qed

lemma checkpoint_roundtrip_witness:
  "\<exists>st'. restored_engine Inr (Some (snapshot_state id sample_bought)) = Inr st' \<and>
    (\<forall>symbol. dget (ae_candidates st') symbol = dget (ae_candidates sample_bought) symbol)"
proof -
  have "\<forall>j\<in>set [sample_setup, sample_trigger]. admissible j" using sample_pair_run by simp
  from checkpoint_roundtrip [OF this sample_bought_def, of Inr id id] show ?thesis by auto
qed

end
