(* ===== verification/Fusion_Contracts.thy ===== *)
theory Fusion_Contracts
  imports Watch_Contracts
begin

text \<open>
  The contracts around signal fusion: the assessments of the support, wave and membership engines
  (app/contracts/support_confirmation.py, elliott_wave.py, patreon_caps.py), the fusion assessment and
  its transition (signal_fusion.py), and the enumerations they use (enums.py).
\<close>

section \<open>Enumerations\<close>

datatype support_state =
    SP_NO_KEY_SUPPORT | SP_NO_NEARBY_SUPPORT | SP_SINGLE_SUPPORT_NEARBY | SP_WATCH_KEY_SUPPORT
  | SP_FIRST_TOUCH | SP_REACTION_CONFIRMED | SP_BASE_BUILDING | SP_LIQUIDITY_SWEEP | SP_RECLAIMED
  | SP_STRUCTURE_CONFIRMED | SP_RETEST_CONFIRMED | SP_B_WAVE_RISK | SP_INVALIDATED | SP_EXPIRED

primrec support_state_value :: "support_state \<Rightarrow> string" where
  "support_state_value SP_NO_KEY_SUPPORT = ''NO_KEY_SUPPORT''"
| "support_state_value SP_NO_NEARBY_SUPPORT = ''NO_NEARBY_SUPPORT''"
| "support_state_value SP_SINGLE_SUPPORT_NEARBY = ''SINGLE_SUPPORT_NEARBY''"
| "support_state_value SP_WATCH_KEY_SUPPORT = ''WATCH_KEY_SUPPORT''"
| "support_state_value SP_FIRST_TOUCH = ''FIRST_TOUCH''"
| "support_state_value SP_REACTION_CONFIRMED = ''REACTION_CONFIRMED''"
| "support_state_value SP_BASE_BUILDING = ''BASE_BUILDING''"
| "support_state_value SP_LIQUIDITY_SWEEP = ''LIQUIDITY_SWEEP''"
| "support_state_value SP_RECLAIMED = ''RECLAIMED''"
| "support_state_value SP_STRUCTURE_CONFIRMED = ''STRUCTURE_CONFIRMED''"
| "support_state_value SP_RETEST_CONFIRMED = ''RETEST_CONFIRMED''"
| "support_state_value SP_B_WAVE_RISK = ''B_WAVE_RISK''"
| "support_state_value SP_INVALIDATED = ''INVALIDATED''"
| "support_state_value SP_EXPIRED = ''EXPIRED''"

definition support_state_members :: "support_state list" where
  "support_state_members =
     [SP_NO_KEY_SUPPORT, SP_NO_NEARBY_SUPPORT, SP_SINGLE_SUPPORT_NEARBY, SP_WATCH_KEY_SUPPORT,
      SP_FIRST_TOUCH, SP_REACTION_CONFIRMED, SP_BASE_BUILDING, SP_LIQUIDITY_SWEEP, SP_RECLAIMED,
      SP_STRUCTURE_CONFIRMED, SP_RETEST_CONFIRMED, SP_B_WAVE_RISK, SP_INVALIDATED, SP_EXPIRED]"

interpretation support_state_enum: string_enum support_state_members support_state_value
proof unfold_locales
  show "m \<in> set support_state_members" for m by (cases m) (simp_all add: support_state_members_def)
qed (simp add: support_state_members_def)

datatype support_confirmation =
    SC_NONE | SC_V_RECOVERY | SC_BASE_BREAKOUT | SC_SWEEP_RECLAIM

primrec support_confirmation_value :: "support_confirmation \<Rightarrow> string" where
  "support_confirmation_value SC_NONE = ''NONE''"
| "support_confirmation_value SC_V_RECOVERY = ''V_RECOVERY''"
| "support_confirmation_value SC_BASE_BREAKOUT = ''BASE_BREAKOUT''"
| "support_confirmation_value SC_SWEEP_RECLAIM = ''SWEEP_RECLAIM''"

definition support_confirmation_members :: "support_confirmation list" where
  "support_confirmation_members =
     [SC_NONE, SC_V_RECOVERY, SC_BASE_BREAKOUT, SC_SWEEP_RECLAIM]"

interpretation support_confirmation_enum: string_enum support_confirmation_members support_confirmation_value
proof unfold_locales
  show "m \<in> set support_confirmation_members" for m by (cases m) (simp_all add: support_confirmation_members_def)
qed (simp add: support_confirmation_members_def)

datatype support_zone_position =
    ZP_NO_ZONE | ZP_BELOW_ZONE | ZP_IN_ZONE | ZP_ABOVE_ZONE

primrec support_zone_position_value :: "support_zone_position \<Rightarrow> string" where
  "support_zone_position_value ZP_NO_ZONE = ''NO_ZONE''"
| "support_zone_position_value ZP_BELOW_ZONE = ''BELOW_ZONE''"
| "support_zone_position_value ZP_IN_ZONE = ''IN_ZONE''"
| "support_zone_position_value ZP_ABOVE_ZONE = ''ABOVE_ZONE''"

definition support_zone_position_members :: "support_zone_position list" where
  "support_zone_position_members =
     [ZP_NO_ZONE, ZP_BELOW_ZONE, ZP_IN_ZONE, ZP_ABOVE_ZONE]"

interpretation support_zone_position_enum: string_enum support_zone_position_members support_zone_position_value
proof unfold_locales
  show "m \<in> set support_zone_position_members" for m by (cases m) (simp_all add: support_zone_position_members_def)
qed (simp add: support_zone_position_members_def)

datatype wave_phase =
    WP_WAVE_2_ENDING | WP_WAVE_3_ACTIVE | WP_WAVE_4_ENDING | WP_WAVE_5_ACTIVE | WP_ABC_INCOMPLETE
  | WP_UNRESOLVED

primrec wave_phase_value :: "wave_phase \<Rightarrow> string" where
  "wave_phase_value WP_WAVE_2_ENDING = ''WAVE_2_ENDING''"
| "wave_phase_value WP_WAVE_3_ACTIVE = ''WAVE_3_ACTIVE''"
| "wave_phase_value WP_WAVE_4_ENDING = ''WAVE_4_ENDING''"
| "wave_phase_value WP_WAVE_5_ACTIVE = ''WAVE_5_ACTIVE''"
| "wave_phase_value WP_ABC_INCOMPLETE = ''ABC_INCOMPLETE''"
| "wave_phase_value WP_UNRESOLVED = ''UNRESOLVED''"

definition wave_phase_members :: "wave_phase list" where
  "wave_phase_members =
     [WP_WAVE_2_ENDING, WP_WAVE_3_ACTIVE, WP_WAVE_4_ENDING, WP_WAVE_5_ACTIVE, WP_ABC_INCOMPLETE,
      WP_UNRESOLVED]"

interpretation wave_phase_enum: string_enum wave_phase_members wave_phase_value
proof unfold_locales
  show "m \<in> set wave_phase_members" for m by (cases m) (simp_all add: wave_phase_members_def)
qed (simp add: wave_phase_members_def)

datatype patreon_state =
    PC_WATCH_ZONE | PC_SUPPORT_TEST | PC_CONFIRMED_V | PC_CONFIRMED_BASE | PC_IMPULSE_RETEST
  | PC_INVALIDATED | PC_EXPIRED

primrec patreon_state_value :: "patreon_state \<Rightarrow> string" where
  "patreon_state_value PC_WATCH_ZONE = ''WATCH_ZONE''"
| "patreon_state_value PC_SUPPORT_TEST = ''SUPPORT_TEST''"
| "patreon_state_value PC_CONFIRMED_V = ''CONFIRMED_V''"
| "patreon_state_value PC_CONFIRMED_BASE = ''CONFIRMED_BASE''"
| "patreon_state_value PC_IMPULSE_RETEST = ''IMPULSE_RETEST''"
| "patreon_state_value PC_INVALIDATED = ''INVALIDATED''"
| "patreon_state_value PC_EXPIRED = ''EXPIRED''"

definition patreon_state_members :: "patreon_state list" where
  "patreon_state_members =
     [PC_WATCH_ZONE, PC_SUPPORT_TEST, PC_CONFIRMED_V, PC_CONFIRMED_BASE, PC_IMPULSE_RETEST,
      PC_INVALIDATED, PC_EXPIRED]"

interpretation patreon_state_enum: string_enum patreon_state_members patreon_state_value
proof unfold_locales
  show "m \<in> set patreon_state_members" for m by (cases m) (simp_all add: patreon_state_members_def)
qed (simp add: patreon_state_members_def)

datatype macro_regime =
    MR_RISK_ON | MR_NEUTRAL | MR_RISK_OFF | MR_SHOCK | MR_UNKNOWN

primrec macro_regime_value :: "macro_regime \<Rightarrow> string" where
  "macro_regime_value MR_RISK_ON = ''RISK_ON''"
| "macro_regime_value MR_NEUTRAL = ''NEUTRAL''"
| "macro_regime_value MR_RISK_OFF = ''RISK_OFF''"
| "macro_regime_value MR_SHOCK = ''SHOCK''"
| "macro_regime_value MR_UNKNOWN = ''UNKNOWN''"

definition macro_regime_members :: "macro_regime list" where
  "macro_regime_members =
     [MR_RISK_ON, MR_NEUTRAL, MR_RISK_OFF, MR_SHOCK, MR_UNKNOWN]"

interpretation macro_regime_enum: string_enum macro_regime_members macro_regime_value
proof unfold_locales
  show "m \<in> set macro_regime_members" for m by (cases m) (simp_all add: macro_regime_members_def)
qed (simp add: macro_regime_members_def)

datatype fusion_state =
    FU_INCOMPLETE | FU_OBSERVING | FU_ARMED | FU_RECOVERY_CONFIRMED | FU_BUY_CONFIRMED | FU_VETOED
  | FU_INVALIDATED | FU_EXPIRED

primrec fusion_state_value :: "fusion_state \<Rightarrow> string" where
  "fusion_state_value FU_INCOMPLETE = ''INCOMPLETE''"
| "fusion_state_value FU_OBSERVING = ''OBSERVING''"
| "fusion_state_value FU_ARMED = ''ARMED''"
| "fusion_state_value FU_RECOVERY_CONFIRMED = ''RECOVERY_CONFIRMED''"
| "fusion_state_value FU_BUY_CONFIRMED = ''BUY_CONFIRMED''"
| "fusion_state_value FU_VETOED = ''VETOED''"
| "fusion_state_value FU_INVALIDATED = ''INVALIDATED''"
| "fusion_state_value FU_EXPIRED = ''EXPIRED''"

definition fusion_state_members :: "fusion_state list" where
  "fusion_state_members =
     [FU_INCOMPLETE, FU_OBSERVING, FU_ARMED, FU_RECOVERY_CONFIRMED, FU_BUY_CONFIRMED, FU_VETOED,
      FU_INVALIDATED, FU_EXPIRED]"

interpretation fusion_state_enum: string_enum fusion_state_members fusion_state_value
proof unfold_locales
  show "m \<in> set fusion_state_members" for m by (cases m) (simp_all add: fusion_state_members_def)
qed (simp add: fusion_state_members_def)

section \<open>Support assessments\<close>

record structural_support =
  ss_source :: string
  ss_price :: rat
  ss_distance_percent :: rat
  ss_distance_atr :: rat

record support_assessment =
  su_assessment_id :: uuid
  su_symbol :: string
  su_occurred_at :: instant
  su_engine_version :: string
  su_state :: support_state
  su_confirmation_type :: support_confirmation
  su_current_price :: rat
  su_zone_low :: "rat option"
  su_zone_center :: "rat option"
  su_zone_high :: "rat option"
  su_invalidation :: "rat option"
  su_support_score :: rat
  su_reaction_score :: rat
  su_reversal_score :: rat
  su_confidence :: rat
  su_data_as_of :: "instant option"
  su_assessed_at :: "instant option"
  su_liquidity_sweep :: bool
  su_higher_high :: bool
  su_higher_low :: bool
  su_b_wave_risk :: bool
  su_zone_position :: support_zone_position
  su_zone_distance_percent :: "rat option"
  su_zone_distance_atr :: "rat option"
  su_touch_count :: int
  su_touch_age_sessions :: "int option"
  su_four_hour_reclaim :: bool
  su_four_hour_higher_high :: bool
  su_four_hour_higher_low :: bool
  su_actionability_score :: rat
  su_support_sources :: "string list"
  su_structural_supports :: "structural_support list"
  su_impulse_origin :: "rat option"
  su_impulse_origin_at :: "instant option"
  su_impulse_peak :: "rat option"
  su_impulse_advance_percent :: "rat option"
  su_reasons :: "string list"
  su_metrics :: "named_value list"
  su_context_hash :: string

definition percent_score :: "rat \<Rightarrow> bool" where "percent_score x \<longleftrightarrow> 0 \<le> x \<and> x \<le> 100"

definition positive :: "rat option \<Rightarrow> bool" where "positive x \<longleftrightarrow> opt_all (\<lambda>p. 0 < p) x"

definition non_negative :: "rat option \<Rightarrow> bool" where "non_negative x \<longleftrightarrow> opt_all (\<lambda>p. 0 \<le> p) x"

definition support_fields :: "support_assessment \<Rightarrow> bool" where
  "support_fields s \<longleftrightarrow> identifier_str (su_symbol s) \<and> semver (su_engine_version s) \<and> 0 < su_current_price s
     \<and> positive (su_zone_low s) \<and> positive (su_zone_center s) \<and> positive (su_zone_high s)
     \<and> positive (su_invalidation s) \<and> percent_score (su_support_score s) \<and> percent_score (su_reaction_score s)
     \<and> percent_score (su_reversal_score s) \<and> unit_interval (su_confidence s)
     \<and> non_negative (su_zone_distance_percent s) \<and> non_negative (su_zone_distance_atr s)
     \<and> 0 \<le> su_touch_count s \<and> opt_all (\<lambda>n. 0 \<le> n) (su_touch_age_sessions s)
     \<and> percent_score (su_actionability_score s) \<and> (\<forall>t\<in>set (su_support_sources s). non_empty_str t)
     \<and> (\<forall>r\<in>set (su_structural_supports s). non_empty_str (ss_source r) \<and> 0 < ss_price r
          \<and> 0 \<le> ss_distance_percent r \<and> 0 \<le> ss_distance_atr r)
     \<and> positive (su_impulse_origin s) \<and> positive (su_impulse_peak s) \<and> non_negative (su_impulse_advance_percent s)
     \<and> su_reasons s \<noteq> [] \<and> (\<forall>t\<in>set (su_reasons s). non_empty_str t)
     \<and> (\<forall>m\<in>set (su_metrics s). identifier_str (nv_name m)) \<and> sha256_ref (su_context_hash s)"

text \<open>\<open>data_as_of or occurred_at\<close>: an instant is never falsy.\<close>

definition data_time :: "instant option \<Rightarrow> instant \<Rightarrow> instant" where
  "data_time as_of occurred = (case as_of of None \<Rightarrow> occurred | Some t \<Rightarrow> t)"

definition support_levels :: "support_assessment \<Rightarrow> rat option list" where
  "support_levels s = [su_zone_low s, su_zone_center s, su_zone_high s, su_invalidation s]"

definition stripped_support :: "support_assessment \<Rightarrow> support_assessment" where
  "stripped_support s =
     s \<lparr> su_support_sources := map strip (su_support_sources s), su_reasons := map strip (su_reasons s),
         su_structural_supports := map (\<lambda>r. r \<lparr> ss_source := strip (ss_source r) \<rparr>) (su_structural_supports s) \<rparr>"

definition support_impulse_ok :: "support_assessment \<Rightarrow> bool" where
  "support_impulse_ok s \<longleftrightarrow>
     (let given = [su_impulse_origin s \<noteq> None, su_impulse_origin_at s \<noteq> None, su_impulse_peak s \<noteq> None,
                   su_impulse_advance_percent s \<noteq> None]
      in list_all id given \<or> \<not> list_ex id given)"

definition make_support :: "support_assessment \<Rightarrow> support_assessment result" where
  "make_support s0 =
     (let s = stripped_support s0 in
      if \<not> support_fields s0 then Inl (ValidationError ''SupportAssessment'')
      else if uuid_version (su_assessment_id s) \<noteq> Some 7 then Inl (ValueError ''assessment_id must be UUIDv7'')
      else if \<not> opt_all (\<lambda>t. t = su_occurred_at s) (su_data_as_of s)
      then Inl (ValueError ''data_as_of must match legacy occurred_at'')
      else if \<not> opt_all (\<lambda>t. data_time (su_data_as_of s) (su_occurred_at s) \<le> t) (su_assessed_at s)
      then Inl (ValueError ''assessed_at cannot precede data_as_of'')
      else if su_state s \<notin> {SP_NO_KEY_SUPPORT, SP_NO_NEARBY_SUPPORT} \<and> None \<in> set (support_levels s)
      then Inl (ValueError ''support state requires a complete zone'')
      else if None \<notin> set (support_levels s) \<and>
              \<not> (the (su_invalidation s) < the (su_zone_low s) \<and> the (su_zone_low s) \<le> the (su_zone_center s)
                  \<and> the (su_zone_center s) \<le> the (su_zone_high s))
      then Inl (ValueError ''support zone levels are out of order'')
      else if None \<in> set (support_levels s) \<and> su_zone_position s \<noteq> ZP_NO_ZONE
      then Inl (ValueError ''support zone position requires a complete zone'')
      else if \<not> distinct (su_support_sources s) then Inl (ValueError ''support sources must be unique'')
      else if \<not> distinct (map ss_source (su_structural_supports s))
      then Inl (ValueError ''structural support sources must be unique'')
      else if \<exists>r\<in>set (su_structural_supports s). su_current_price s \<le> ss_price r
      then Inl (ValueError ''structural support references must be below current price'')
      else if \<not> support_impulse_ok s then Inl (ValueError ''impulse reference fields must be complete'')
      else if \<not> opt_all (\<lambda>origin. opt_all (\<lambda>peak. origin < peak) (su_impulse_peak s)) (su_impulse_origin s)
      then Inl (ValueError ''impulse peak must be above its origin'')
      else if \<not> opt_all (\<lambda>origin. origin < su_current_price s) (su_impulse_origin s)
      then Inl (ValueError ''impulse origin support must be below current price'')
      else if \<not> distinct (map nv_name (su_metrics s)) then Inl (ValueError ''support metrics must be unique by name'')
      else Inr s)"

section \<open>Wave assessments\<close>

record wave_assessment =
  wv_assessment_id :: uuid
  wv_symbol :: string
  wv_occurred_at :: instant
  wv_engine_version :: string
  wv_primary_timeframe :: bar_timeframe
  wv_phase :: wave_phase
  wv_score :: rat
  wv_confidence :: rat
  wv_current_price :: rat
  wv_data_as_of :: "instant option"
  wv_assessed_at :: "instant option"
  wv_wave1_origin :: "rat option"
  wv_wave1_peak :: "rat option"
  wv_wave2_low :: "rat option"
  wv_wave3_peak :: "rat option"
  wv_corrective_low :: "rat option"
  wv_retracement :: "rat option"
  wv_entry_zone_low :: "rat option"
  wv_entry_zone_high :: "rat option"
  wv_trigger_price :: "rat option"
  wv_invalidation :: "rat option"
  wv_target_low :: "rat option"
  wv_target_high :: "rat option"
  wv_alternative_phase :: "wave_phase option"
  wv_alternative_score :: "rat option"
  wv_reasons :: "string list"
  wv_violations :: "string list"
  wv_metrics :: "named_value list"
  wv_context_hash :: string

definition wave_prices :: "wave_assessment \<Rightarrow> rat option list" where
  "wave_prices w = [wv_wave1_origin w, wv_wave1_peak w, wv_wave2_low w, wv_wave3_peak w, wv_corrective_low w,
     wv_entry_zone_low w, wv_entry_zone_high w, wv_trigger_price w, wv_invalidation w, wv_target_low w,
     wv_target_high w]"

definition wave_fields :: "wave_assessment \<Rightarrow> bool" where
  "wave_fields w \<longleftrightarrow> identifier_str (wv_symbol w) \<and> semver (wv_engine_version w) \<and> percent_score (wv_score w)
     \<and> unit_interval (wv_confidence w) \<and> 0 < wv_current_price w \<and> (\<forall>p\<in>set (wave_prices w). positive p)
     \<and> opt_all unit_interval (wv_retracement w) \<and> opt_all percent_score (wv_alternative_score w)
     \<and> wv_reasons w \<noteq> [] \<and> (\<forall>t\<in>set (wv_reasons w @ wv_violations w). non_empty_str t)
     \<and> (\<forall>m\<in>set (wv_metrics w). identifier_str (nv_name m)) \<and> sha256_ref (wv_context_hash w)"

definition actionable_phases :: "wave_phase set" where
  "actionable_phases = {WP_WAVE_2_ENDING, WP_WAVE_3_ACTIVE, WP_WAVE_4_ENDING, WP_WAVE_5_ACTIVE}"

definition wave_levels :: "wave_assessment \<Rightarrow> rat option list" where
  "wave_levels w = [wv_wave1_origin w, wv_wave1_peak w, wv_corrective_low w, wv_entry_zone_low w,
     wv_entry_zone_high w, wv_trigger_price w, wv_invalidation w, wv_target_low w, wv_target_high w]"

definition make_wave :: "wave_assessment \<Rightarrow> wave_assessment result" where
  "make_wave w =
     (if \<not> wave_fields w then Inl (ValidationError ''WaveAssessment'')
      else if uuid_version (wv_assessment_id w) \<noteq> Some 7 then Inl (ValueError ''assessment_id must be UUIDv7'')
      else if \<not> opt_all (\<lambda>t. t = wv_occurred_at w) (wv_data_as_of w)
      then Inl (ValueError ''data_as_of must match legacy occurred_at'')
      else if \<not> opt_all (\<lambda>t. data_time (wv_data_as_of w) (wv_occurred_at w) \<le> t) (wv_assessed_at w)
      then Inl (ValueError ''assessed_at cannot precede data_as_of'')
      else if wv_phase w \<in> actionable_phases \<and> None \<in> set (wave_levels w)
      then Inl (ValueError ''actionable wave phases require complete levels'')
      else if \<not> opt_all (\<lambda>low. opt_all (\<lambda>high. low \<le> high) (wv_entry_zone_high w)) (wv_entry_zone_low w)
      then Inl (ValueError ''entry wave levels are out of order'')
      else if \<not> opt_all (\<lambda>low. opt_all (\<lambda>high. low \<le> high) (wv_target_high w)) (wv_target_low w)
      then Inl (ValueError ''target wave levels are out of order'')
      else if \<not> distinct (map nv_name (wv_metrics w)) then Inl (ValueError ''wave metrics must be unique by name'')
      else Inr (w \<lparr> wv_reasons := map strip (wv_reasons w), wv_violations := map strip (wv_violations w) \<rparr>))"

section \<open>Membership assessments\<close>

record patreon_assessment =
  pa_assessment_id :: uuid
  pa_symbol :: string
  pa_occurred_at :: instant
  pa_rule_version :: string
  pa_mode :: strategy_mode
  pa_state :: patreon_state
  pa_current_price :: rat
  pa_zone_low :: rat
  pa_zone_center :: rat
  pa_zone_high :: rat
  pa_invalidation :: rat
  pa_atr14 :: rat
  pa_confluence_score :: rat
  pa_confirmation_score :: rat
  pa_alignment_score :: rat
  pa_lesson_score :: rat
  pa_lesson_gate_passed :: bool
  pa_lesson_reasons :: "string list"
  pa_lesson_metrics :: "named_value list"
  pa_patreon_score :: rat
  pa_macro_regime :: macro_regime
  pa_macro_threshold :: "rat option"
  pa_macro_signals :: "string list"
  pa_macro_metrics :: "named_value list"
  pa_support_sources :: "string list"
  pa_source_analysis_ids :: "uuid list"
  pa_reasons :: "string list"

definition patreon_fields :: "patreon_assessment \<Rightarrow> bool" where
  "patreon_fields a \<longleftrightarrow> identifier_str (pa_symbol a) \<and> semver (pa_rule_version a)
     \<and> (\<forall>p\<in>{pa_current_price a, pa_zone_low a, pa_zone_center a, pa_zone_high a, pa_invalidation a, pa_atr14 a}. 0 < p)
     \<and> (\<forall>p\<in>{pa_confluence_score a, pa_confirmation_score a, pa_alignment_score a, pa_lesson_score a,
            pa_patreon_score a}. percent_score p)
     \<and> opt_all percent_score (pa_macro_threshold a) \<and> pa_reasons a \<noteq> []
     \<and> (\<forall>t\<in>set (pa_lesson_reasons a @ pa_macro_signals a @ pa_support_sources a @ pa_reasons a). non_empty_str t)
     \<and> (\<forall>m\<in>set (pa_lesson_metrics a @ pa_macro_metrics a). identifier_str (nv_name m))"

definition make_patreon :: "patreon_assessment \<Rightarrow> patreon_assessment result" where
  "make_patreon a =
     (if \<not> patreon_fields a then Inl (ValidationError ''PatreonCapsAssessment'')
      else if uuid_version (pa_assessment_id a) \<noteq> Some 7 then Inl (ValueError ''assessment_id must be UUIDv7'')
      else if \<not> (pa_invalidation a < pa_zone_low a \<and> pa_zone_low a \<le> pa_zone_center a
                  \<and> pa_zone_center a \<le> pa_zone_high a)
      then Inl (ValueError ''PatreonCaps levels must satisfy invalidation < low <= center <= high'')
      else if \<not> distinct (map strip (pa_support_sources a)) then Inl (ValueError ''support sources must be unique'')
      else if \<not> distinct (pa_source_analysis_ids a) then Inl (ValueError ''source analysis ids must be unique'')
      else Inr (a \<lparr> pa_lesson_reasons := map strip (pa_lesson_reasons a),
                    pa_macro_signals := map strip (pa_macro_signals a),
                    pa_support_sources := map strip (pa_support_sources a), pa_reasons := map strip (pa_reasons a) \<rparr>))"

section \<open>Fusion assessments and transitions\<close>

record fusion_assessment =
  fa_assessment_id :: uuid
  fa_symbol :: string
  fa_occurred_at :: instant
  fa_engine_version :: string
  fa_state :: fusion_state
  fa_score :: rat
  fa_confidence :: rat
  fa_current_price :: rat
  fa_support_zone_gate :: bool
  fa_support_reaction_gate :: bool
  fa_support_gate :: bool
  fa_trend_gate :: bool
  fa_timing_gate :: bool
  fa_execution_gate :: bool
  fa_dilution_gate :: bool
  fa_portfolio_gate :: bool
  fa_reward_risk_gate :: bool
  fa_recovery_gate :: bool
  fa_trigger_price :: "rat option"
  fa_entry_price :: "rat option"
  fa_invalidation :: "rat option"
  fa_target_price :: "rat option"
  fa_reward_risk_ratio :: "rat option"
  fa_patreon_context :: "string option"
  fa_dilution_context :: "string option"
  fa_missing_sources :: "string list"
  fa_source_assessment_ids :: "uuid list"
  fa_source_analysis_ids :: "uuid list"
  fa_reasons :: "string list"
  fa_context_hash :: string

definition fusion_fields :: "fusion_assessment \<Rightarrow> bool" where
  "fusion_fields a \<longleftrightarrow> identifier_str (fa_symbol a) \<and> semver (fa_engine_version a) \<and> percent_score (fa_score a)
     \<and> unit_interval (fa_confidence a) \<and> 0 < fa_current_price a \<and> positive (fa_trigger_price a)
     \<and> positive (fa_entry_price a) \<and> positive (fa_invalidation a) \<and> positive (fa_target_price a)
     \<and> non_negative (fa_reward_risk_ratio a) \<and> opt_all non_empty_str (fa_patreon_context a)
     \<and> opt_all non_empty_str (fa_dilution_context a) \<and> (\<forall>t\<in>set (fa_missing_sources a). non_empty_str t)
     \<and> fa_reasons a \<noteq> [] \<and> (\<forall>t\<in>set (fa_reasons a). non_empty_str t) \<and> sha256_ref (fa_context_hash a)"

definition fusion_levels :: "fusion_assessment \<Rightarrow> rat option list" where
  "fusion_levels a = [fa_trigger_price a, fa_entry_price a, fa_invalidation a, fa_target_price a, fa_reward_risk_ratio a]"

definition buy_gates :: "fusion_assessment \<Rightarrow> bool list" where
  "buy_gates a = [fa_support_gate a, fa_trend_gate a, fa_timing_gate a, fa_execution_gate a, fa_dilution_gate a,
     fa_portfolio_gate a, fa_reward_risk_gate a]"

definition recovery_gates :: "fusion_assessment \<Rightarrow> bool list" where
  "recovery_gates a = [fa_support_zone_gate a, fa_support_reaction_gate a, fa_timing_gate a, fa_execution_gate a,
     fa_dilution_gate a, fa_portfolio_gate a, fa_reward_risk_gate a, fa_recovery_gate a]"

definition stripped_fusion :: "fusion_assessment \<Rightarrow> fusion_assessment" where
  "stripped_fusion a =
     a \<lparr> fa_patreon_context := map_option strip (fa_patreon_context a),
         fa_dilution_context := map_option strip (fa_dilution_context a),
         fa_missing_sources := map strip (fa_missing_sources a), fa_reasons := map strip (fa_reasons a) \<rparr>"

definition make_fusion :: "fusion_assessment \<Rightarrow> fusion_assessment result" where
  "make_fusion a0 =
     (let a = stripped_fusion a0 in
      if \<not> fusion_fields a0 then Inl (ValidationError ''FusionAssessment'')
      else if uuid_version (fa_assessment_id a) \<noteq> Some 7 then Inl (ValueError ''assessment_id must be UUIDv7'')
      else if \<not> distinct (fa_missing_sources a) then Inl (ValueError ''missing sources must be unique'')
      else if \<not> distinct (fa_source_assessment_ids a) then Inl (ValueError ''source assessment ids must be unique'')
      else if \<not> distinct (fa_source_analysis_ids a) then Inl (ValueError ''source analysis ids must be unique'')
      else if fa_state a = FU_BUY_CONFIRMED \<and> False \<in> set (buy_gates a)
      then Inl (ValueError ''BUY_CONFIRMED requires all gates'')
      else if fa_state a = FU_BUY_CONFIRMED \<and> None \<in> set (fusion_levels a)
      then Inl (ValueError ''BUY_CONFIRMED requires complete trade levels'')
      else if fa_state a = FU_RECOVERY_CONFIRMED \<and> False \<in> set (recovery_gates a)
      then Inl (ValueError ''RECOVERY_CONFIRMED requires all recovery gates'')
      else if fa_state a = FU_RECOVERY_CONFIRMED \<and> None \<in> set (fusion_levels a)
      then Inl (ValueError ''RECOVERY_CONFIRMED requires complete trade levels'')
      else if \<not> opt_all (\<lambda>entry. opt_all (\<lambda>level. level < entry) (fa_invalidation a)) (fa_entry_price a)
      then Inl (ValueError ''fusion invalidation must be below entry'')
      else if \<not> opt_all (\<lambda>entry. opt_all (\<lambda>target. entry < target) (fa_target_price a)) (fa_entry_price a)
      then Inl (ValueError ''fusion target must be above entry'')
      else Inr a)"

record fusion_transition =
  ft_transition_id :: uuid
  ft_assessment_id :: uuid
  ft_symbol :: string
  ft_occurred_at :: instant
  ft_engine_version :: string
  ft_previous_state :: "fusion_state option"
  ft_state :: fusion_state
  ft_score :: rat
  ft_trigger_price :: "rat option"
  ft_entry_price :: "rat option"
  ft_invalidation :: "rat option"
  ft_target_price :: "rat option"
  ft_reward_risk_ratio :: "rat option"
  ft_reasons :: "string list"
  ft_context_hash :: string

definition transition_fields :: "fusion_transition \<Rightarrow> bool" where
  "transition_fields t \<longleftrightarrow> identifier_str (ft_symbol t) \<and> semver (ft_engine_version t) \<and> percent_score (ft_score t)
     \<and> positive (ft_trigger_price t) \<and> positive (ft_entry_price t) \<and> positive (ft_invalidation t)
     \<and> positive (ft_target_price t) \<and> non_negative (ft_reward_risk_ratio t) \<and> ft_reasons t \<noteq> []
     \<and> (\<forall>s\<in>set (ft_reasons t). non_empty_str s) \<and> sha256_ref (ft_context_hash t)"

definition make_fusion_transition :: "fusion_transition \<Rightarrow> fusion_transition result" where
  "make_fusion_transition t =
     (if \<not> transition_fields t then Inl (ValidationError ''FusionTransition'')
      else if uuid_version (ft_transition_id t) \<noteq> Some 7 \<or> uuid_version (ft_assessment_id t) \<noteq> Some 7
      then Inl (ValueError ''transition_id and assessment_id must be UUIDv7'')
      else if ft_previous_state t = Some (ft_state t)
      then Inl (ValueError ''a fusion transition must change state'')
      else Inr (t \<lparr> ft_reasons := map strip (ft_reasons t) \<rparr>))"

end
