(* ===== verification/Signal_Fusion.thy ===== *)
theory Signal_Fusion
  imports Fusion_Contracts Alert_Confluence
begin

text \<open>
  The signal fusion engine (app/signal_fusion_engine): its context (models.py), the decision of version
  0.3 (engine.py) and the bounded rescoring of versions 0.4 (v04.py) and 0.5 (v05.py). The digest of the
  context, a JSON document, is a parameter, as are the texts of decimals (the alert codec).
\<close>

section \<open>Context\<close>

record fusion_context =
  fx_symbol :: string
  fx_support :: "support_assessment option"
  fx_wave :: "wave_assessment option"
  fx_analyses :: "analysis_result list"
  fx_patreon :: "patreon_assessment option"
  fx_holding_quantity :: rat

definition source_symbols :: "fusion_context \<Rightarrow> string list" where
  "source_symbols x = present [map_option su_symbol (fx_support x), map_option wv_symbol (fx_wave x),
     map_option pa_symbol (fx_patreon x)] @ map ar_symbol (fx_analyses x)"

definition make_fusion_context :: "fusion_context \<Rightarrow> fusion_context result" where
  "make_fusion_context x =
     (let symbol = norm_symbol (fx_symbol x) in
      if symbol = [] then Inl (ValueError ''Signal Fusion requires a symbol'')
      else if \<exists>s\<in>set (source_symbols x). s \<noteq> symbol
      then Inl (ValueError ''all fusion inputs must belong to the context symbol'')
      else if \<not> distinct (map ar_horizon (fx_analyses x))
      then Inl (ValueError ''fusion analyses must be unique by horizon'')
      else if fx_holding_quantity x < 0 then Inl (ValueError ''holding quantity cannot be negative'')
      else if fx_support x = None \<and> fx_wave x = None
      then Inl (ValueError ''Signal Fusion requires support or Elliott price context'')
      else Inr x)"

section \<open>Metrics and the current price\<close>

text \<open>\<open>next((item.value ... if item.name == name), None)\<close>.\<close>

definition first_metric :: "analysis_result \<Rightarrow> string \<Rightarrow> py_value option" where
  "first_metric r name = map_option nv_value (find (\<lambda>m. nv_name m = name) (ar_metrics r))"

text \<open>Decimals, integers and texts count, booleans and floats do not.\<close>

fun fusion_decimal :: "py_value \<Rightarrow> rat option" where
  "fusion_decimal (VDec d) = Some d"
| "fusion_decimal (VInt i) = Some (of_int i)"
| "fusion_decimal (VStr s) = decimal_of_text s"
| "fusion_decimal _ = None"

definition fusion_metric :: "analysis_result option \<Rightarrow> string \<Rightarrow> rat option" where
  "fusion_metric found name = Option.bind (Option.bind found (\<lambda>r. first_metric r name)) fusion_decimal"

text \<open>\<open>max(candidates, key=...)\<close> keeps the first of several latest observations.\<close>

fun latest_price :: "(instant \<times> rat) \<Rightarrow> (instant \<times> rat) list \<Rightarrow> rat" where
  "latest_price best [] = snd best"
| "latest_price best (c # cs) = latest_price (if fst best < fst c then c else best) cs"

definition fusion_candidates ::
  "analysis_result option \<Rightarrow> support_assessment option \<Rightarrow> wave_assessment option \<Rightarrow> (instant \<times> rat) list" where
  "fusion_candidates intraday support wave =
     present [Option.bind intraday (\<lambda>r. map_option (\<lambda>p. (ar_as_of r, p)) (fusion_metric (Some r) ''reference_price'')),
              map_option (\<lambda>s. (su_occurred_at s, su_current_price s)) support,
              map_option (\<lambda>w. (wv_occurred_at w, wv_current_price w)) wave]"

definition fusion_price ::
  "analysis_result option \<Rightarrow> support_assessment option \<Rightarrow> wave_assessment option \<Rightarrow> rat result" where
  "fusion_price intraday support wave =
     (case fusion_candidates intraday support wave of
        [] \<Rightarrow> (case wave of None \<Rightarrow> Inl (ValueError ''Signal Fusion has no price source'')
               | Some w \<Rightarrow> Inr (wv_current_price w))
      | c # cs \<Rightarrow> Inr (latest_price c cs))"

section \<open>Gates\<close>

definition support_zone_gate :: "support_assessment option \<Rightarrow> bool" where
  "support_zone_gate support =
     (case support of None \<Rightarrow> False
      | Some s \<Rightarrow>
          su_state s \<notin> {SP_NO_KEY_SUPPORT, SP_NO_NEARBY_SUPPORT, SP_SINGLE_SUPPORT_NEARBY, SP_INVALIDATED, SP_EXPIRED}
          \<and> su_zone_low s \<noteq> None \<and> su_zone_center s \<noteq> None \<and> su_zone_high s \<noteq> None
          \<and> (\<exists>level\<in>set_option (su_invalidation s). level \<le> su_current_price s))"

definition support_reaction_gate :: "support_assessment option \<Rightarrow> bool" where
  "support_reaction_gate support \<longleftrightarrow>
     support_zone_gate support \<and> (\<exists>s\<in>set_option support. 60 \<le> su_reaction_score s)"

definition support_gate :: "support_assessment option \<Rightarrow> bool" where
  "support_gate support \<longleftrightarrow>
     (\<exists>s\<in>set_option support. su_state s \<in> {SP_STRUCTURE_CONFIRMED, SP_RETEST_CONFIRMED}
        \<and> 60 \<le> su_reversal_score s \<and> \<not> su_b_wave_risk s)"

definition bullish_gate :: "analysis_result option \<Rightarrow> rat \<Rightarrow> bool" where
  "bullish_gate found minimum_score \<longleftrightarrow>
     (\<exists>r\<in>set_option found. ar_verdict r = AV_FAVORABLE \<and> ar_direction r = PD_BULLISH
        \<and> minimum_score \<le> ar_score r \<and> 60 / 100 \<le> ar_confidence r)"

definition wave_gate :: "wave_assessment option \<Rightarrow> rat \<Rightarrow> bool" where
  "wave_gate wave current =
     (case wave of None \<Rightarrow> False
      | Some w \<Rightarrow>
          if wv_phase w \<in> {WP_WAVE_3_ACTIVE, WP_WAVE_5_ACTIVE} then True
          else wv_phase w \<in> {WP_WAVE_2_ENDING, WP_WAVE_4_ENDING}
            \<and> (\<exists>trigger\<in>set_option (wv_trigger_price w). trigger \<le> current))"

definition execution_gate :: "analysis_result option \<Rightarrow> bool" where
  "execution_gate found \<longleftrightarrow>
     bullish_gate found 60 \<and> Option.bind found (\<lambda>r. first_metric r ''confirmation_gate_passed'') = Some (VBool True)"

definition dilution_gate :: "analysis_result option \<Rightarrow> bool" where
  "dilution_gate dilution = (case dilution of None \<Rightarrow> True | Some r \<Rightarrow> ar_verdict r \<notin> {AV_CAUTION, AV_AVOID})"

section \<open>Levels\<close>

definition fusion_trigger :: "wave_assessment option \<Rightarrow> analysis_result option \<Rightarrow> rat \<Rightarrow> rat" where
  "fusion_trigger wave intraday current =
     (case Option.bind wave wv_trigger_price of Some trigger \<Rightarrow> trigger
      | None \<Rightarrow> price_or (fusion_metric intraday ''reference_price'') current)"

definition highest :: "rat list \<Rightarrow> rat option" where
  "highest xs = (case xs of [] \<Rightarrow> None | _ \<Rightarrow> Some (Max (set xs)))"

definition lowest :: "rat list \<Rightarrow> rat option" where
  "lowest xs = (case xs of [] \<Rightarrow> None | _ \<Rightarrow> Some (Min (set xs)))"

definition fusion_analysis :: "fusion_context \<Rightarrow> analysis_horizon \<Rightarrow> analysis_result option" where
  "fusion_analysis x h = dget (by_horizon (fx_analyses x)) h"

definition standard_invalidation :: "fusion_context \<Rightarrow> rat \<Rightarrow> rat option" where
  "standard_invalidation x current =
     highest (filter (\<lambda>level. 0 < level \<and> level < current)
       (present [Option.bind (fx_support x) su_invalidation, Option.bind (fx_wave x) wv_invalidation,
                 fusion_metric (fusion_analysis x AH_SWING) ''invalidation'',
                 fusion_metric (fusion_analysis x AH_INTRADAY) ''invalidation_level'']))"

definition standard_target :: "fusion_context \<Rightarrow> rat \<Rightarrow> rat option" where
  "standard_target x current =
     lowest (filter (\<lambda>level. current < level)
       (present [Option.bind (fx_wave x) wv_target_low, fusion_metric (fusion_analysis x AH_SWING) ''target_2r'',
                 fusion_metric (fusion_analysis x AH_INTRADAY) ''objective_level'']))"

definition recovery_invalidation :: "analysis_result option \<Rightarrow> rat \<Rightarrow> rat option" where
  "recovery_invalidation intraday current =
     (case fusion_metric intraday ''invalidation_level'' of None \<Rightarrow> None
      | Some level \<Rightarrow> if 0 < level \<and> level < current then Some level else None)"

definition recovery_target :: "wave_assessment option \<Rightarrow> analysis_result option \<Rightarrow> rat \<Rightarrow> rat option" where
  "recovery_target wave swing current =
     lowest (filter (\<lambda>level. current < level)
       (present [Option.bind wave wv_target_low, fusion_metric swing ''target_2r'']))"

definition fusion_reward_risk :: "rat \<Rightarrow> rat option \<Rightarrow> rat option \<Rightarrow> rat option" where
  "fusion_reward_risk entry invalidation target =
     (case (invalidation, target) of
        (Some low, Some high) \<Rightarrow>
          if entry \<le> low \<or> high \<le> entry then None else Some (ddiv (dsub high entry) (dsub entry low))
      | _ \<Rightarrow> None)"

definition ratio_gate :: "rat option \<Rightarrow> bool" where
  "ratio_gate ratio \<longleftrightarrow> (\<exists>q\<in>set_option ratio. 2 \<le> q)"

section \<open>Decision\<close>

text \<open>The gates of one evaluation; the reward gate is set by the state.\<close>

record fusion_gates =
  fg_support_zone :: bool
  fg_support_reaction :: bool
  fg_support :: bool
  fg_trend :: bool
  fg_swing :: bool
  fg_wave :: bool
  fg_execution :: bool
  fg_dilution :: bool
  fg_portfolio :: bool

definition fusion_gates_of :: "fusion_context \<Rightarrow> rat \<Rightarrow> fusion_gates" where
  "fusion_gates_of x current =
     \<lparr> fg_support_zone = support_zone_gate (fx_support x), fg_support_reaction = support_reaction_gate (fx_support x),
       fg_support = support_gate (fx_support x), fg_trend = bullish_gate (fusion_analysis x AH_LONG_TERM) 65,
       fg_swing = bullish_gate (fusion_analysis x AH_SWING) 60, fg_wave = wave_gate (fx_wave x) current,
       fg_execution = execution_gate (fusion_analysis x AH_INTRADAY), fg_dilution = dilution_gate (fusion_analysis x AH_DILUTION),
       fg_portfolio = 0 < fx_holding_quantity x \<rparr>"

definition fg_timing :: "fusion_gates \<Rightarrow> bool" where "fg_timing g \<longleftrightarrow> fg_swing g \<or> fg_wave g"

definition missing_sources :: "fusion_context \<Rightarrow> string list" where
  "missing_sources x =
     map fst (filter (\<lambda>p. \<not> snd p)
       [(''SUPPORT'', fx_support x \<noteq> None), (''ELLIOTT'', fx_wave x \<noteq> None),
        (analysis_horizon_value AH_LONG_TERM, fusion_analysis x AH_LONG_TERM \<noteq> None),
        (analysis_horizon_value AH_SWING, fusion_analysis x AH_SWING \<noteq> None),
        (analysis_horizon_value AH_INTRADAY, fusion_analysis x AH_INTRADAY \<noteq> None)])"

definition fusion_invalidated :: "fusion_context \<Rightarrow> bool" where
  "fusion_invalidated x \<longleftrightarrow>
     (\<exists>s\<in>set_option (fx_support x). su_state s \<in> {SP_INVALIDATED, SP_EXPIRED}) \<or>
     (\<exists>p\<in>set_option (fx_patreon x). pa_state p \<in> {PC_INVALIDATED, PC_EXPIRED})"

definition all_gates :: "fusion_gates \<Rightarrow> bool \<Rightarrow> bool" where
  "all_gates g standard_gate \<longleftrightarrow> fg_support g \<and> fg_trend g \<and> fg_timing g \<and> fg_execution g \<and> fg_dilution g
     \<and> fg_portfolio g \<and> standard_gate"

definition recovery_gate :: "fusion_gates \<Rightarrow> bool \<Rightarrow> bool" where
  "recovery_gate g recovery_ratio_gate \<longleftrightarrow> fg_support_zone g \<and> fg_support_reaction g \<and> fg_wave g \<and> fg_execution g
     \<and> fg_dilution g \<and> fg_portfolio g \<and> recovery_ratio_gate"

definition fusion_state_of :: "bool \<Rightarrow> string list \<Rightarrow> fusion_gates \<Rightarrow> bool \<Rightarrow> bool \<Rightarrow> fusion_state" where
  "fusion_state_of invalidated missing g standard_gate recovery_ratio_gate =
     (if invalidated then FU_INVALIDATED
      else if \<not> fg_dilution g \<or> \<not> fg_portfolio g then FU_VETOED
      else if missing \<noteq> [] then FU_INCOMPLETE
      else if all_gates g standard_gate then FU_BUY_CONFIRMED
      else if recovery_gate g recovery_ratio_gate then FU_RECOVERY_CONFIRMED
      else if fg_support g \<and> fg_trend g \<and> fg_timing g then FU_ARMED
      else FU_OBSERVING)"

text \<open>Points are added left to right in the decimal context.\<close>

definition points :: "rat \<Rightarrow> bool \<Rightarrow> rat" where "points p gate = (if gate then p else 0)"

definition support_points :: "support_assessment option \<Rightarrow> fusion_gates \<Rightarrow> rat" where
  "support_points support g =
     (if fg_support g then 30
      else case support of None \<Rightarrow> 0
      | Some s \<Rightarrow>
          (let base = dmul (su_reversal_score s) (30 / 100);
               zoned = (if fg_support_zone g then max base 10 else base)
           in if fg_support_reaction g then max zoned 15 else zoned))"

definition fusion_score :: "support_assessment option \<Rightarrow> fusion_gates \<Rightarrow> bool \<Rightarrow> bool \<Rightarrow> rat" where
  "fusion_score support g dilution_available ratio_ok =
     min 100 (foldl dadd (support_points support g)
       [points 20 (fg_trend g), points 10 (fg_swing g), points 10 (fg_wave g), points 15 (fg_execution g),
        points 5 (fg_dilution g \<and> dilution_available), points 5 (fg_portfolio g), points 5 ratio_ok])"

definition join_texts :: "string \<Rightarrow> string list \<Rightarrow> string" where
  "join_texts sep texts = (case texts of [] \<Rightarrow> [] | t # ts \<Rightarrow> t @ concat (map (\<lambda>u. sep @ u) ts))"

definition fusion_reasons ::
  "fusion_context \<Rightarrow> fusion_state \<Rightarrow> string list \<Rightarrow> fusion_gates \<Rightarrow> bool \<Rightarrow> bool \<Rightarrow> bool \<Rightarrow> string list" where
  "fusion_reasons x state missing g dilution_available ratio_ok recovery =
     [''fusion_state_'' @ lower (fusion_state_value state)]
     @ (if missing \<noteq> [] then [''missing_sources:'' @ join_texts '','' missing] else [])
     @ (if \<not> fg_support g then [''support_structure_unconfirmed''] else [])
     @ (if \<not> fg_trend g then [''long_trend_unconfirmed''] else [])
     @ (if \<not> fg_swing g \<and> \<not> fg_wave g then [''swing_and_elliott_timing_unconfirmed''] else [])
     @ (if \<not> fg_execution g then [''intraday_execution_unconfirmed''] else [])
     @ (if \<not> fg_dilution g then [''sec_dilution_veto'']
        else if \<not> dilution_available then [''dilution_assessment_unavailable''] else [])
     @ (if \<not> fg_portfolio g then [''portfolio_holding_required''] else [])
     @ (if \<not> ratio_ok then [''reward_risk_below_two''] else [])
     @ (if recovery
        then [''elliott_trigger_with_intraday_confirmation'', ''recovery_entry_tactical_size_only'']
          @ (if \<not> fg_support g then [''support_structure_pending_for_scale_in''] else [])
          @ (if \<not> fg_trend g then [''long_trend_pending_for_scale_in''] else [])
          @ (case fx_support x of None \<Rightarrow> []
             | Some s \<Rightarrow> if su_b_wave_risk s then [''support_b_wave_risk''] else [])
        else [])
     @ (case fx_patreon x of None \<Rightarrow> [] | Some p \<Rightarrow> [''patreon_context:'' @ patreon_state_value (pa_state p)])"

text \<open>The JSON document behind the context digest; the text of the quantity comes from the codec.\<close>

definition id_text :: "uuid option \<Rightarrow> py_value" where
  "id_text u = (case u of None \<Rightarrow> VNone | Some v \<Rightarrow> VStr (uuid_text v))"

definition fusion_payload :: "alert_codec \<Rightarrow> fusion_context \<Rightarrow> py_value" where
  "fusion_payload c x = VDict
     [(''analyses'', VList (map VStr (sort (map (\<lambda>r. uuid_text (ar_analysis_id r)) (fx_analyses x))))),
      (''holding_quantity'', VStr (ac_decimal c (fx_holding_quantity x))),
      (''patreon'', id_text (map_option pa_assessment_id (fx_patreon x))),
      (''support'', id_text (map_option su_assessment_id (fx_support x))),
      (''symbol'', VStr (norm_symbol (fx_symbol x))),
      (''wave'', id_text (map_option wv_assessment_id (fx_wave x)))]"

definition fusion_times :: "fusion_context \<Rightarrow> instant list" where
  "fusion_times x = present [map_option su_occurred_at (fx_support x), map_option wv_occurred_at (fx_wave x),
     map_option pa_occurred_at (fx_patreon x)] @ map ar_as_of (fx_analyses x)"

definition fusion_hash :: "alert_codec \<Rightarrow> (py_value \<Rightarrow> string) \<Rightarrow> fusion_context \<Rightarrow> string" where
  "fusion_hash c digest x = ''sha256:'' @ digest (fusion_payload c x)"

definition quantize_option :: "nat \<Rightarrow> rat option \<Rightarrow> rat option result" where
  "quantize_option k v = (case v of None \<Rightarrow> Inr None | Some q \<Rightarrow> bind_result (quantize k q) (\<lambda>r. Inr (Some r)))"

text \<open>What the decision hands on besides the gates: the state and the levels and ratio it speaks of.\<close>

record fusion_decision =
  fd_state :: fusion_state
  fd_invalidation :: "rat option"
  fd_target :: "rat option"
  fd_ratio :: "rat option"
  fd_recovery :: bool

definition decide_fusion :: "fusion_context \<Rightarrow> rat \<Rightarrow> fusion_decision" where
  "decide_fusion x current =
     (let g = fusion_gates_of x current; intraday = fusion_analysis x AH_INTRADAY;
          low = standard_invalidation x current; high = standard_target x current;
          ratio = fusion_reward_risk current low high;
          low' = recovery_invalidation intraday current;
          high' = recovery_target (fx_wave x) (fusion_analysis x AH_SWING) current;
          ratio' = fusion_reward_risk current low' high';
          state = fusion_state_of (fusion_invalidated x) (missing_sources x) g (ratio_gate ratio) (ratio_gate ratio');
          recovery = recovery_gate g (ratio_gate ratio')
      in if state = FU_RECOVERY_CONFIRMED
         then \<lparr> fd_state = state, fd_invalidation = low', fd_target = high', fd_ratio = ratio', fd_recovery = recovery \<rparr>
         else \<lparr> fd_state = state, fd_invalidation = low, fd_target = high, fd_ratio = ratio, fd_recovery = recovery \<rparr>)"

definition fusion_draft ::
  "alert_codec \<Rightarrow> (py_value \<Rightarrow> string) \<Rightarrow> uuid \<Rightarrow> fusion_context \<Rightarrow> rat \<Rightarrow> fusion_gates \<Rightarrow> fusion_decision \<Rightarrow>
   rat \<Rightarrow> rat \<Rightarrow> rat option \<Rightarrow> fusion_assessment" where
  "fusion_draft c digest aid x current g d score confidence ratio =
     \<lparr> fa_assessment_id = aid, fa_symbol = norm_symbol (fx_symbol x), fa_occurred_at = Max (set (fusion_times x)),
       fa_engine_version = ''0.3.0'', fa_state = fd_state d, fa_score = score, fa_confidence = confidence,
       fa_current_price = current, fa_support_zone_gate = fg_support_zone g,
       fa_support_reaction_gate = fg_support_reaction g, fa_support_gate = fg_support g, fa_trend_gate = fg_trend g,
       fa_timing_gate = fg_timing g, fa_execution_gate = fg_execution g, fa_dilution_gate = fg_dilution g,
       fa_portfolio_gate = fg_portfolio g, fa_reward_risk_gate = ratio_gate (fd_ratio d),
       fa_recovery_gate = fd_recovery d,
       fa_trigger_price = Some (fusion_trigger (fx_wave x) (fusion_analysis x AH_INTRADAY) current),
       fa_entry_price = (if fd_invalidation d \<noteq> None \<and> fd_target d \<noteq> None then Some current else None),
       fa_invalidation = fd_invalidation d, fa_target_price = fd_target d, fa_reward_risk_ratio = ratio,
       fa_patreon_context = map_option (\<lambda>p. patreon_state_value (pa_state p)) (fx_patreon x),
       fa_dilution_context = Some (case fusion_analysis x AH_DILUTION of None \<Rightarrow> ''UNAVAILABLE''
         | Some r \<Rightarrow> analysis_verdict_value (ar_verdict r)),
       fa_missing_sources = missing_sources x,
       fa_source_assessment_ids = present [map_option su_assessment_id (fx_support x),
         map_option wv_assessment_id (fx_wave x), map_option pa_assessment_id (fx_patreon x)],
       fa_source_analysis_ids = map ar_analysis_id (fx_analyses x),
       fa_reasons = fusion_reasons x (fd_state d) (missing_sources x) g (fusion_analysis x AH_DILUTION \<noteq> None)
         (ratio_gate (fd_ratio d)) (fd_recovery d),
       fa_context_hash = fusion_hash c digest x \<rparr>"

definition evaluate_fusion ::
  "alert_codec \<Rightarrow> (py_value \<Rightarrow> string) \<Rightarrow> uuid \<Rightarrow> fusion_context \<Rightarrow> fusion_assessment result" where
  "evaluate_fusion c digest aid x =
     bind_result (fusion_price (fusion_analysis x AH_INTRADAY) (fx_support x) (fx_wave x)) (\<lambda>current.
       let g = fusion_gates_of x current; d = decide_fusion x current;
           score = fusion_score (fx_support x) g (fusion_analysis x AH_DILUTION \<noteq> None) (ratio_gate (fd_ratio d))
       in bind_result (quantize 4 score) (\<lambda>rounded.
          bind_result (quantize 4 (ddiv score 100)) (\<lambda>confidence.
          bind_result (quantize_option 4 (fd_ratio d)) (\<lambda>ratio.
            make_fusion (fusion_draft c digest aid x current g d rounded confidence ratio)))))"

section \<open>Version 0.4\<close>

text \<open>\<open>Decimal(str(value))\<close> of any metric; a failed conversion counts as zero.\<close>

fun any_decimal :: "alert_codec \<Rightarrow> py_value \<Rightarrow> rat" where
  "any_decimal c (VDec d) = d"
| "any_decimal c (VInt i) = of_int i"
| "any_decimal c (VFloat (Some q)) = ac_float c q"
| "any_decimal c (VStr s) = (case decimal_of_text s of None \<Rightarrow> 0 | Some d \<Rightarrow> d)"
| "any_decimal c _ = 0"

definition volume_boost :: "alert_codec \<Rightarrow> analysis_result option \<Rightarrow> instant \<Rightarrow> rat" where
  "volume_boost c found assessed_at =
     (case found of None \<Rightarrow> 0
      | Some r \<Rightarrow>
          if ar_direction r \<noteq> PD_BULLISH \<or> ar_verdict r \<notin> {AV_FAVORABLE, AV_WATCH} \<or> days 14 < assessed_at - ar_as_of r
          then 0
          else (case first_metric r ''evidence_boost'' of None \<Rightarrow> 0
                | Some v \<Rightarrow> min 10 (max 0 (any_decimal c v))))"

definition rescored :: "fusion_assessment \<Rightarrow> string \<Rightarrow> rat \<Rightarrow> string list \<Rightarrow> fusion_assessment result" where
  "rescored a version effective reasons =
     bind_result (quantize 4 effective) (\<lambda>score.
     bind_result (quantize 4 (ddiv score 100)) (\<lambda>confidence.
       Inr (a \<lparr> fa_engine_version := version, fa_score := score, fa_confidence := confidence, fa_reasons := reasons \<rparr>)))"

definition horizon_item :: "fusion_context \<Rightarrow> analysis_horizon \<Rightarrow> analysis_result option" where
  "horizon_item x h = find (\<lambda>r. ar_horizon r = h) (fx_analyses x)"

definition evaluate_fusion_v04 ::
  "alert_codec \<Rightarrow> (py_value \<Rightarrow> string) \<Rightarrow> uuid \<Rightarrow> fusion_context \<Rightarrow> fusion_assessment result" where
  "evaluate_fusion_v04 c digest aid x =
     bind_result (evaluate_fusion c digest aid x) (\<lambda>baseline.
       let boost = volume_boost c (horizon_item x AH_VOLUME_STRUCTURE) (fa_occurred_at baseline)
       in rescored baseline ''0.4.0'' (min 100 (dadd (fa_score baseline) boost))
            (if 0 < boost then fromkeys (fa_reasons baseline @ [''volume_structure_boost:+'' @ ac_decimal c boost])
             else fa_reasons baseline))"

section \<open>Version 0.5\<close>

definition near_level :: "rat \<Rightarrow> rat \<Rightarrow> bool" where
  "near_level price level \<longleftrightarrow> dmul (ddiv \<bar>dsub price level\<bar> level) 100 \<le> 1"

definition usable_gamma :: "alert_codec \<Rightarrow> analysis_result option \<Rightarrow> rat \<Rightarrow> instant \<Rightarrow> analysis_result option" where
  "usable_gamma c found current now =
     (case found of None \<Rightarrow> None
      | Some r \<Rightarrow>
          if first_metric r ''gamma_status'' = Some (VStr ''AVAILABLE'') \<and>
             (\<exists>quality\<in>set_option (decimal_value c (first_metric r ''gamma_quality_score'')). 70 \<le> quality) \<and>
             (case first_metric r ''expires_at'' of Some (VTime expires) \<Rightarrow> now < expires | _ \<Rightarrow> False) \<and>
             (\<exists>reference\<in>set_option (decimal_value c (first_metric r ''reference_price'')). near_level current reference)
          then Some r else None)"

text \<open>Each step of \<open>_gamma_delta\<close> that applies adds its points and its reason.\<close>

definition gamma_steps :: "alert_codec \<Rightarrow> analysis_result \<Rightarrow> rat \<Rightarrow> (rat \<times> string) list" where
  "gamma_steps c r current =
     (let call = decimal_value c (first_metric r ''gamma_call_wall'');
          put = decimal_value c (first_metric r ''gamma_put_wall'')
      in (if first_metric r ''gamma_pin_risk'' = Some (VBool True) then [(- 4, ''options_gamma_pin_risk:-4'')] else [])
         @ (if \<exists>wall\<in>set_option call. current < wall \<and> near_level current wall
            then [(- 6, ''options_gamma_call_wall_limits_upside:-6'')] else [])
         @ (if \<exists>wall\<in>set_option put. wall \<le> current \<and> near_level current wall
            then [(4, ''options_gamma_put_wall_support:+4'')] else [])
         @ (if first_metric r ''gamma_regime'' = Some (VStr ''NEGATIVE'') \<and>
               first_metric r ''gamma_acceleration_risk'' = Some (VBool True)
            then if \<exists>wall\<in>set_option put. current \<le> wall
                 then [(- 8, ''options_gamma_negative_breakdown_risk:-8'')]
                 else if \<exists>wall\<in>set_option call. wall \<le> current
                 then [(3, ''options_gamma_negative_breakout_acceleration:+3'')] else []
            else []))"

definition gamma_delta :: "alert_codec \<Rightarrow> analysis_result \<Rightarrow> rat \<Rightarrow> rat" where
  "gamma_delta c r current = max (- 8) (min 6 (foldl dadd 0 (map fst (gamma_steps c r current))))"

definition evaluate_fusion_v05 ::
  "alert_codec \<Rightarrow> (py_value \<Rightarrow> string) \<Rightarrow> uuid \<Rightarrow> fusion_context \<Rightarrow> fusion_assessment result" where
  "evaluate_fusion_v05 c digest aid x =
     bind_result (evaluate_fusion_v04 c digest aid x) (\<lambda>baseline.
       case usable_gamma c (horizon_item x AH_OPTIONS_GAMMA) (fa_current_price baseline) (fa_occurred_at baseline) of
         None \<Rightarrow> Inr (baseline \<lparr> fa_engine_version := ''0.5.0'' \<rparr>)
       | Some r \<Rightarrow>
           rescored baseline ''0.5.0''
             (min 100 (max 0 (dadd (fa_score baseline) (gamma_delta c r (fa_current_price baseline)))))
             (fromkeys (fa_reasons baseline @ map snd (gamma_steps c r (fa_current_price baseline)))))"

end
