(* ===== verification/Entry_Signals.thy ===== *)
theory Entry_Signals
  imports Fusion_Contracts Alert_Confluence
begin

text \<open>
  The EntrySignal contract (app/contracts/entry_signal.py) and the adapters that turn a watch transition,
  an alert or a fusion transition into one (app/integration/entry_signal_adapter.py). The text \<open>str\<close> gives
  to a metric that is not a text is a parameter.
\<close>

section \<open>Contract\<close>

record entry_signal =
  es_signal_id :: uuid
  es_family :: signal_family
  es_maturity :: "entry_maturity option"
  es_swing_trade_maturity :: "swing_trade_maturity option"
  es_countertrend_maturity :: "countertrend_maturity option"
  es_symbol :: string
  es_created_at :: instant
  es_setup_id :: string
  es_entry_price :: rat
  es_horizons :: "analysis_horizon list"
  es_zone_low :: "rat option"
  es_zone_high :: "rat option"
  es_invalidation :: "rat option"
  es_targets :: "rat list"
  es_policy_id :: string
  es_policy_version :: string
  es_reasons :: "string list"
  es_source_event_ids :: "uuid list"
  es_entry_analyses :: "analysis_result list"

definition signal_fields :: "entry_signal \<Rightarrow> bool" where
  "signal_fields s \<longleftrightarrow> identifier_str (es_symbol s) \<and> non_empty_str (es_setup_id s) \<and> 0 < es_entry_price s
     \<and> es_horizons s \<noteq> [] \<and> positive (es_zone_low s) \<and> positive (es_zone_high s) \<and> positive (es_invalidation s)
     \<and> (\<forall>t\<in>set (es_targets s). 0 < t) \<and> identifier_str (es_policy_id s) \<and> semver (es_policy_version s)
     \<and> es_reasons s \<noteq> [] \<and> (\<forall>t\<in>set (es_reasons s). non_empty_str t)"

definition signal_maturity_error :: "entry_signal \<Rightarrow> py_error option" where
  "signal_maturity_error s =
     (if es_family s \<in> {SF_CORE_ENTRY, SF_CORE_RECOVERY}
      then if es_maturity s = None then Some (ValueError ''core entry signals require maturity'')
           else if es_swing_trade_maturity s \<noteq> None \<or> es_countertrend_maturity s \<noteq> None
           then Some (ValueError ''core entry signals cannot use analytical maturity'')
           else None
      else if es_family s = SF_SWING_TRADE
      then if es_maturity s \<noteq> None \<or> es_countertrend_maturity s \<noteq> None
           then Some (ValueError ''SwingTrade signals use only ST maturity'') else None
      else if es_family s = SF_GERI_COUNTERTREND
      then if es_maturity s \<noteq> None \<or> es_swing_trade_maturity s \<noteq> None
           then Some (ValueError ''GERI countertrend signals use only CT maturity'') else None
      else if es_maturity s \<noteq> None \<or> es_swing_trade_maturity s \<noteq> None \<or> es_countertrend_maturity s \<noteq> None
      then Some (ValueError ''analytical signal maturity does not match its family'') else None)"

definition signal_zone_error :: "entry_signal \<Rightarrow> py_error option" where
  "signal_zone_error s =
     (case (es_zone_low s, es_zone_high s, es_invalidation s) of
        (None, None, None) \<Rightarrow> None
      | (Some low, Some high, Some invalidation) \<Rightarrow>
          if es_family s = SF_SWING_TRADE
          then if high < low then Some (ValueError ''SwingTrade signal zone levels are out of order'')
               else if es_policy_version s = ''1.7.0'' \<and> low \<le> invalidation
               then Some (ValueError ''SwingTrade actionable zone must be above invalidation'')
               else if es_swing_trade_maturity s \<noteq> None \<and> es_entry_price s \<le> invalidation
               then Some (ValueError ''actionable SwingTrade signal requires entry above invalidation'')
               else None
          else if \<not> (invalidation < low \<and> low \<le> high)
          then Some (ValueError ''signal levels must satisfy invalidation < zone_low <= zone_high'')
          else None
      | _ \<Rightarrow> Some (ValueError ''zone_low, zone_high and invalidation must be provided together''))"

definition make_entry_signal :: "entry_signal \<Rightarrow> entry_signal result" where
  "make_entry_signal s =
     (if \<not> signal_fields s then Inl (ValidationError ''EntrySignal'')
      else if uuid_version (es_signal_id s) \<noteq> Some 7 then Inl (ValueError ''signal_id must be UUIDv7'')
      else if \<not> distinct (es_horizons s) then Inl (ValueError ''horizons must be unique'')
      else if \<not> distinct (es_source_event_ids s) then Inl (ValueError ''source_event_ids must be unique'')
      else if \<exists>u\<in>set (es_source_event_ids s). uuid_version u \<noteq> Some 7
      then Inl (ValueError ''source_event_ids must contain UUIDv7 values'')
      else if \<not> distinct (es_targets s) then Inl (ValueError ''targets must be unique'')
      else case signal_maturity_error s of Some e \<Rightarrow> Inl e
      | None \<Rightarrow> (case signal_zone_error s of Some e \<Rightarrow> Inl e
         | None \<Rightarrow> Inr (s \<lparr> es_setup_id := strip (es_setup_id s), es_reasons := map strip (es_reasons s) \<rparr>)))"

section \<open>From a watch transition\<close>

definition watch_maturity :: "entry_watch_status \<Rightarrow> entry_maturity option" where
  "watch_maturity status =
     (case status of EW_EARLY_ENTRY \<Rightarrow> Some EM_L1 | EW_TRIGGERED \<Rightarrow> Some EM_L4 | _ \<Rightarrow> None)"

definition watch_signal_draft :: "watch_transition \<Rightarrow> entry_maturity \<Rightarrow> entry_signal" where
  "watch_signal_draft t maturity =
     \<lparr> es_signal_id = tr_transition_id t, es_family = SF_CORE_ENTRY, es_maturity = Some maturity,
       es_swing_trade_maturity = None, es_countertrend_maturity = None, es_symbol = tr_symbol t,
       es_created_at = tr_occurred_at t, es_setup_id = ''watch:'' @ uuid_text (tr_watch_id t),
       es_entry_price = tr_current_price t, es_horizons = tr_horizons t,
       es_zone_low = Some (if maturity = EM_L1 then tr_current_price t else tr_zone_low t),
       es_zone_high = Some (if maturity = EM_L1 then tr_current_price t else tr_zone_high t),
       es_invalidation = Some (price_or (tr_entry_invalidation t) (tr_invalidation t)),
       es_targets = present [tr_entry_target t], es_policy_id = ''core-entry'', es_policy_version = ''1.0.0'',
       es_reasons = tr_reasons t, es_source_event_ids = tr_transition_id t # tr_source_analysis_ids t,
       es_entry_analyses = [] \<rparr>"

definition entry_signal_from_alert_watch :: "watch_transition \<Rightarrow> entry_signal option result" where
  "entry_signal_from_alert_watch t =
     (case watch_maturity (tr_status t) of None \<Rightarrow> Inr None
      | Some maturity \<Rightarrow> bind_result (make_entry_signal (watch_signal_draft t maturity)) (\<lambda>s. Inr (Some s)))"

section \<open>From an alert\<close>

definition named_metric :: "named_value list \<Rightarrow> string \<Rightarrow> py_value option" where
  "named_metric ms name = dget (foldl (\<lambda>d m. dput (nv_name m) (nv_value m) d) [] ms) name"

fun positive_decimal :: "py_value option \<Rightarrow> rat option" where
  "positive_decimal (Some (VDec d)) = (if 0 < d then Some d else None)"
| "positive_decimal (Some (VInt i)) = (if 0 < i then Some (of_int i) else None)"
| "positive_decimal _ = None"

definition signal_decimal :: "named_value list \<Rightarrow> string list \<Rightarrow> rat option" where
  "signal_decimal ms names = first_some (\<lambda>name. positive_decimal (named_metric ms name)) names"

definition is_semver_text :: "string \<Rightarrow> bool" where
  "is_semver_text s \<longleftrightarrow>
     (let components = split_on CHR ''.'' s
      in length components = 3 \<and> (\<forall>c\<in>set components. c \<noteq> [] \<and> list_all isdigit c))"

definition policy_version_names :: "string list" where
  "policy_version_names = [''entry_confirmation_rule_version'', ''alert_strategy_version'',
     ''patreon_caps_rule_version'', ''long_portfolio_rule_version'', ''portfolio_flow_rule_version'',
     ''entry_setup_policy_version'', ''strategy_version'']"

definition policy_version :: "named_value list \<Rightarrow> string \<Rightarrow> string" where
  "policy_version ms fallback =
     (case first_some (\<lambda>name. case named_metric ms name of
          Some (VStr s) \<Rightarrow> if is_semver_text s then Some s else None | _ \<Rightarrow> None) policy_version_names of
        None \<Rightarrow> fallback | Some s \<Rightarrow> s)"

definition core_maturity :: "buy_maturity_level \<Rightarrow> entry_maturity option" where
  "core_maturity m =
     (case m of TACTICAL_RECOVERY \<Rightarrow> Some EM_L1 | SWING_CONFIRMED \<Rightarrow> Some EM_L2 | HIGH_CONVICTION \<Rightarrow> Some EM_L3
      | _ \<Rightarrow> None)"

definition analytical_family :: "alert_kind \<Rightarrow> (signal_family \<times> string \<times> string) option" where
  "analytical_family kind =
     (case kind of
        AK_PATREON_CAPS_BUY \<Rightarrow> Some (SF_PATREON_CAPS, ''patreon-caps'', ''1.1.0'')
      | AK_LONG_PORTFOLIO_BUY \<Rightarrow> Some (SF_LONG_PORTFOLIO, ''long-portfolio'', ''1.0.0'')
      | AK_PORTFOLIO_FLOW_BUY \<Rightarrow> Some (SF_PORTFOLIO_FLOW, ''portfolio-flow'', ''2.0.0'')
      | _ \<Rightarrow> None)"

text \<open>Family, level, policy and its default version; None where the alert is not an entry.\<close>

definition is_recovery :: "named_value list \<Rightarrow> bool" where
  "is_recovery ms \<longleftrightarrow> named_metric ms ''entry_signal_family'' = Some (VStr (signal_family_value SF_CORE_RECOVERY))"

definition recovery_level :: "named_value list \<Rightarrow> entry_maturity option" where
  "recovery_level ms =
     (case named_metric ms ''entry_maturity'' of
        Some (VStr s) \<Rightarrow>
          (case enum_parse entry_maturity_members entry_maturity_value s of
             None \<Rightarrow> None | Some level \<Rightarrow> if level \<in> {EM_L1, EM_L2, EM_L3, EM_L4} then Some level else None)
      | _ \<Rightarrow> None)"

definition signal_spec ::
  "local_alert \<Rightarrow> (signal_family \<times> entry_maturity option \<times> string \<times> string) option" where
  "signal_spec a =
     (if is_recovery (al_metrics a)
      then map_option (\<lambda>level. (SF_CORE_RECOVERY, Some level, ''core-recovery'', ''1.1.0'')) (recovery_level (al_metrics a))
      else case Option.bind (buy_maturity a) core_maturity of
        Some level \<Rightarrow> Some (SF_CORE_ENTRY, Some level, ''core-entry'', ''1.0.0'')
      | None \<Rightarrow> map_option (\<lambda>(family, policy, version). (family, None, policy, version)) (analytical_family (al_kind a)))"

definition signal_zone :: "named_value list \<Rightarrow> (rat \<times> rat \<times> rat) option" where
  "signal_zone ms =
     (case (signal_decimal ms [''buy_zone_low'', ''entry_zone_low'', ''zone_low''],
            signal_decimal ms [''buy_zone_high'', ''entry_zone_high'', ''zone_high''],
            signal_decimal ms [''invalidation'', ''stop_price'']) of
        (Some low, Some high, Some invalidation) \<Rightarrow> Some (low, high, invalidation) | _ \<Rightarrow> None)"

definition signal_targets :: "named_value list \<Rightarrow> rat list" where
  "signal_targets ms =
     fromkeys (present (map (\<lambda>name. signal_decimal ms [name]) [''target'', ''target_price'', ''target_1'', ''target_2'', ''target_3'']))"

definition signal_setup :: "(py_value \<Rightarrow> string) \<Rightarrow> local_alert \<Rightarrow> string" where
  "signal_setup show a =
     (if is_recovery (al_metrics a)
      then case named_metric (al_metrics a) ''entry_setup_id'' of
             None \<Rightarrow> al_deduplication_key a | Some (VStr s) \<Rightarrow> s | Some v \<Rightarrow> show v
      else al_deduplication_key a)"

definition alert_signal_draft ::
  "(py_value \<Rightarrow> string) \<Rightarrow> uuid \<Rightarrow> local_alert \<Rightarrow> signal_family \<times> entry_maturity option \<times> string \<times> string \<Rightarrow> rat \<Rightarrow>
   entry_signal" where
  "alert_signal_draft show fresh_id a spec price =
     (let (family, level, policy, fallback) = spec; zone = signal_zone (al_metrics a) in
      \<lparr> es_signal_id = (if is_recovery (al_metrics a) then al_alert_id a else fresh_id), es_family = family,
        es_maturity = level, es_swing_trade_maturity = None, es_countertrend_maturity = None,
        es_symbol = al_symbol a, es_created_at = al_created_at a, es_setup_id = signal_setup show a,
        es_entry_price = price, es_horizons = al_horizons a, es_zone_low = map_option fst zone,
        es_zone_high = map_option (fst \<circ> snd) zone, es_invalidation = map_option (snd \<circ> snd) zone,
        es_targets = signal_targets (al_metrics a), es_policy_id = policy,
        es_policy_version = policy_version (al_metrics a) fallback, es_reasons = al_reasons a,
        es_source_event_ids = al_alert_id a # al_component_analysis_ids a,
        es_entry_analyses = al_component_analyses a \<rparr>)"

definition entry_signal_from_alert ::
  "(py_value \<Rightarrow> string) \<Rightarrow> uuid \<Rightarrow> local_alert \<Rightarrow> entry_signal option result" where
  "entry_signal_from_alert show fresh_id a =
     (if al_kind a = AK_ENTRY_WATCH then Inr None
      else case signal_spec a of None \<Rightarrow> Inr None
      | Some spec \<Rightarrow>
          (case signal_decimal (al_metrics a) [''entry_price'', ''current_price'', ''reference_price''] of
             None \<Rightarrow> Inr None
           | Some price \<Rightarrow>
               bind_result (make_entry_signal (alert_signal_draft show fresh_id a spec price)) (\<lambda>s. Inr (Some s))))"

section \<open>From a fusion transition\<close>

definition fusion_signal_draft :: "uuid \<Rightarrow> fusion_transition \<Rightarrow> rat \<Rightarrow> rat \<Rightarrow> rat \<Rightarrow> entry_signal" where
  "fusion_signal_draft fresh_id t entry trigger invalidation =
     \<lparr> es_signal_id = fresh_id, es_family = SF_SIGNAL_FUSION, es_maturity = None, es_swing_trade_maturity = None,
       es_countertrend_maturity = None, es_symbol = ft_symbol t, es_created_at = ft_occurred_at t,
       es_setup_id = ''fusion:'' @ uuid_text (ft_assessment_id t), es_entry_price = entry,
       es_horizons = [AH_SWING, AH_INTRADAY], es_zone_low = Some (min entry trigger),
       es_zone_high = Some (max entry trigger), es_invalidation = Some invalidation,
       es_targets = present [ft_target_price t], es_policy_id = ''signal-fusion'', es_policy_version = ''1.0.0'',
       es_reasons = ft_reasons t, es_source_event_ids = [ft_transition_id t, ft_assessment_id t],
       es_entry_analyses = [] \<rparr>"

definition entry_signal_from_fusion :: "uuid \<Rightarrow> fusion_transition \<Rightarrow> entry_signal option result" where
  "entry_signal_from_fusion fresh_id t =
     (if ft_state t \<notin> {FU_BUY_CONFIRMED, FU_RECOVERY_CONFIRMED} then Inr None
      else case (ft_entry_price t, ft_trigger_price t, ft_invalidation t) of
        (Some entry, Some trigger, Some invalidation) \<Rightarrow>
          if min entry trigger \<le> invalidation then Inr None
          else bind_result (make_entry_signal (fusion_signal_draft fresh_id t entry trigger invalidation))
            (\<lambda>s. Inr (Some s))
      | _ \<Rightarrow> Inr None)"

section \<open>Lemmas\<close>

lemma make_entry_signal_Inr:
  "make_entry_signal s = Inr s' \<longleftrightarrow> signal_fields s \<and> is_uuid7 (es_signal_id s) \<and> distinct (es_horizons s)
     \<and> distinct (es_source_event_ids s) \<and> (\<forall>u\<in>set (es_source_event_ids s). is_uuid7 u) \<and> distinct (es_targets s)
     \<and> signal_maturity_error s = None \<and> signal_zone_error s = None
     \<and> s' = s \<lparr> es_setup_id := strip (es_setup_id s), es_reasons := map strip (es_reasons s) \<rparr>"
  by (auto simp: make_entry_signal_def is_uuid7_def split: option.splits if_splits)

lemma text_digits_ok: "semver ''1.0.0''" "identifier_str ''core-entry''" "identifier_str ''signal-fusion''"
  by code_simp+

lemma prefix_non_empty: "non_empty_str (''watch:'' @ t)" "non_empty_str (''fusion:'' @ t)"
  by (auto simp: non_empty_str_def strip_def isspace_def code_def dropWhile_eq_Nil_conv)

section \<open>Properties\<close>

text \<open>C40: A valid watch transition becomes an entry signal exactly when its status is EARLY_ENTRY or
  TRIGGERED and the stop lies below the zone of the signal (the price itself for EARLY_ENTRY, the thesis
  zone for TRIGGERED). A TRIGGERED transition whose tactical stop lies inside or above the thesis zone, which
  the transition contract allows, is refused with an error.
\<close>

theorem watch_signal_cases:
  assumes "make_transition t = Inr t" "tr_transition_id t \<notin> set (tr_source_analysis_ids t)"
  shows "(watch_maturity (tr_status t) = None \<longrightarrow> entry_signal_from_alert_watch t = Inr None) \<and>
    (\<forall>level. watch_maturity (tr_status t) = Some level \<longrightarrow>
       (let stop = price_or (tr_entry_invalidation t) (tr_invalidation t);
            floor = (if level = EM_L1 then tr_current_price t else tr_zone_low t)
        in if stop < floor
           then \<exists>s. entry_signal_from_alert_watch t = Inr (Some s) \<and> es_maturity s = Some level \<and>
             es_signal_id s = tr_transition_id t \<and> es_entry_price s = tr_current_price t \<and>
             es_invalidation s = Some stop \<and> es_targets s = present [tr_entry_target t]
           else entry_signal_from_alert_watch t =
             Inl (ValueError ''signal levels must satisfy invalidation < zone_low <= zone_high'')))"
proof (intro conjI allI impI)
  show "entry_signal_from_alert_watch t = Inr None" if "watch_maturity (tr_status t) = None"
    using that by (simp add: entry_signal_from_alert_watch_def)
next
  fix level
  assume level: "watch_maturity (tr_status t) = Some level"
  let ?s = "watch_signal_draft t level"
  have t: "watch_transition_fields t" "is_uuid7 (tr_transition_id t)" "\<forall>u\<in>set (tr_source_analysis_ids t). is_uuid7 u"
    "tr_zone_low t \<le> tr_zone_high t" "distinct (tr_horizons t)" "distinct (tr_source_analysis_ids t)"
    using assms(1) by (auto simp: make_transition_def is_uuid7_def split: if_splits)
  have "0 < price_or (tr_entry_invalidation t) (tr_invalidation t)"
    using t(1) by (cases "tr_entry_invalidation t") (auto simp: price_or_def watch_transition_fields_def)
  then have fields: "signal_fields ?s"
    using t(1) text_digits_ok prefix_non_empty
    by (cases "tr_entry_target t") (auto simp: signal_fields_def watch_signal_draft_def watch_transition_fields_def
        positive_def present_def)
  have targets: "distinct (es_targets ?s)"
    by (cases "tr_entry_target t") (simp_all add: watch_signal_draft_def present_def)
  have ids: "is_uuid7 (es_signal_id ?s)" "distinct (es_horizons ?s)" "distinct (es_source_event_ids ?s)"
    "\<forall>u\<in>set (es_source_event_ids ?s). is_uuid7 u" "signal_maturity_error ?s = None"
    using t assms(2) by (simp_all add: watch_signal_draft_def signal_maturity_error_def)
  show "let stop = price_or (tr_entry_invalidation t) (tr_invalidation t);
            floor = (if level = EM_L1 then tr_current_price t else tr_zone_low t)
        in if stop < floor
           then \<exists>s. entry_signal_from_alert_watch t = Inr (Some s) \<and> es_maturity s = Some level \<and>
             es_signal_id s = tr_transition_id t \<and> es_entry_price s = tr_current_price t \<and>
             es_invalidation s = Some stop \<and> es_targets s = present [tr_entry_target t]
           else entry_signal_from_alert_watch t =
             Inl (ValueError ''signal levels must satisfy invalidation < zone_low <= zone_high'')"
  proof (cases "price_or (tr_entry_invalidation t) (tr_invalidation t) <
      (if level = EM_L1 then tr_current_price t else tr_zone_low t)")
    case True
    then have "signal_zone_error ?s = None" using t(4) by (simp add: signal_zone_error_def watch_signal_draft_def)
    then have "make_entry_signal ?s = Inr (?s \<lparr> es_setup_id := strip (es_setup_id ?s), es_reasons := map strip (es_reasons ?s) \<rparr>)"
      using fields targets t assms(2) ids by (simp add: make_entry_signal_Inr)
    with True show ?thesis by (simp add: entry_signal_from_alert_watch_def level watch_signal_draft_def)
  next
    case False
    then have "signal_zone_error ?s = Some (ValueError ''signal levels must satisfy invalidation < zone_low <= zone_high'')"
      by (simp add: signal_zone_error_def watch_signal_draft_def)
    then have "make_entry_signal ?s = Inl (ValueError ''signal levels must satisfy invalidation < zone_low <= zone_high'')"
      using fields targets ids by (simp add: make_entry_signal_def is_uuid7_def)
    with False show ?thesis by (simp add: entry_signal_from_alert_watch_def level)
  qed
qed

text \<open>A TRIGGERED transition of the tactical entry: the stop lies inside the thesis zone.\<close>

definition inside_stop :: watch_transition where
  "inside_stop = \<lparr> tr_transition_id = 7 * 2 ^ 76 + 2 * 2 ^ 62 + 1, tr_watch_id = 7 * 2 ^ 76 + 2 * 2 ^ 62 + 2,
     tr_symbol = ''ACME'', tr_previous_status = Some EW_IN_ZONE, tr_status = EW_TRIGGERED, tr_occurred_at = 0,
     tr_zone_low = 9, tr_zone_high = 10, tr_invalidation = 8, tr_current_price = 10, tr_entry_invalidation = Some 9,
     tr_entry_target = Some 12, tr_watch_expires_at = 60, tr_reasons = [''r''], tr_horizons = [AH_SWING, AH_INTRADAY],
     tr_source_analysis_ids = [7 * 2 ^ 76 + 2 * 2 ^ 62 + 3] \<rparr>"

lemma inside_stop_valid:
  "make_transition inside_stop = Inr inside_stop" "tr_transition_id inside_stop \<notin> set (tr_source_analysis_ids inside_stop)"
  by code_simp+

theorem watch_signal_cases_witness:
  "entry_signal_from_alert_watch inside_stop =
     Inl (ValueError ''signal levels must satisfy invalidation < zone_low <= zone_high'')"
  using watch_signal_cases [OF inside_stop_valid] by (simp add: inside_stop_def watch_maturity_def price_or_def)

end
