(* ===== verification/Fusion_Runtime.thy ===== *)
theory Fusion_Runtime
  imports Signal_Fusion Entry_Signals
begin

text \<open>
  The process around the fusion engine (\<open>SignalFusionRuntime\<close> of
  app/integration/signal_fusion_composition.py): the newest input of every source per symbol, the decision
  whether an evaluation is published, and the publication itself. A handler runs without interruption up to
  its first publication; every publication is an await, so the handlers of the four subscriptions interleave
  there. The engine is an argument, as in the code; fresh identifiers are arguments too.
\<close>

section \<open>State\<close>

record fusion_runtime =
  fr_symbols :: "string list"
  fr_quantities :: "(string, rat) dict"
  fr_supports :: "(string, support_assessment) dict"
  fr_waves :: "(string, wave_assessment) dict"
  fr_patreon :: "(string, patreon_assessment) dict"
  fr_analyses :: "(string, analyses) dict"
  fr_latest :: "(string, fusion_assessment) dict"
  fr_hydrating :: bool

definition make_fusion_runtime :: "string list \<Rightarrow> (string, rat) dict \<Rightarrow> fusion_runtime" where
  "make_fusion_runtime symbols quantities =
     \<lparr> fr_symbols = fromkeys (map norm_symbol symbols), fr_quantities = quantities, fr_supports = [], fr_waves = [],
       fr_patreon = [], fr_analyses = [], fr_latest = [], fr_hydrating = True \<rparr>"

definition restore_fusion :: "fusion_assessment \<Rightarrow> fusion_runtime \<Rightarrow> fusion_runtime" where
  "restore_fusion item rt =
     (case dget (fr_latest rt) (fa_symbol item) of
        Some previous \<Rightarrow>
          if fa_occurred_at item < fa_occurred_at previous then rt
          else rt \<lparr> fr_latest := dput (fa_symbol item) item (fr_latest rt) \<rparr>
      | None \<Rightarrow> rt \<lparr> fr_latest := dput (fa_symbol item) item (fr_latest rt) \<rparr>)"

definition keep_latest :: "('a \<Rightarrow> instant) \<Rightarrow> string \<Rightarrow> 'a \<Rightarrow> (string, 'a) dict \<Rightarrow> (string, 'a) dict" where
  "keep_latest occurred key item store =
     (case dget store key of
        Some current \<Rightarrow> if occurred item < occurred current then store else dput key item store
      | None \<Rightarrow> dput key item store)"

datatype fusion_source =
    Source_Support support_assessment
  | Source_Wave wave_assessment
  | Source_Patreon patreon_assessment
  | Source_Analysis analysis_result
  | Source_Other

definition fusion_horizons :: "analysis_horizon list" where
  "fusion_horizons = [AH_LONG_TERM, AH_SWING, AH_INTRADAY, AH_DILUTION, AH_VOLUME_STRUCTURE, AH_OPTIONS_GAMMA]"

definition held_analyses :: "fusion_runtime \<Rightarrow> string \<Rightarrow> analyses" where
  "held_analyses rt symbol = (case dget (fr_analyses rt) symbol of None \<Rightarrow> [] | Some a \<Rightarrow> a)"

definition keep_analysis :: "analysis_result \<Rightarrow> fusion_runtime \<Rightarrow> fusion_runtime" where
  "keep_analysis r rt =
     (let group = held_analyses rt (ar_symbol r);
          group' = (case dget group (ar_horizon r) of
              Some current \<Rightarrow> if ar_as_of r < ar_as_of current then group else dput (ar_horizon r) r group
            | None \<Rightarrow> dput (ar_horizon r) r group)
      in rt \<lparr> fr_analyses := dput (ar_symbol r) group' (fr_analyses rt) \<rparr>)"

text \<open>The symbol to evaluate, None where the handler returns at once, and the state with the input kept.\<close>

definition store_source :: "fusion_source \<Rightarrow> fusion_runtime \<Rightarrow> string option \<times> fusion_runtime" where
  "store_source source rt =
     (case source of
        Source_Support s \<Rightarrow>
          (Some (su_symbol s), rt \<lparr> fr_supports := keep_latest su_occurred_at (su_symbol s) s (fr_supports rt) \<rparr>)
      | Source_Wave w \<Rightarrow>
          (Some (wv_symbol w), rt \<lparr> fr_waves := keep_latest wv_occurred_at (wv_symbol w) w (fr_waves rt) \<rparr>)
      | Source_Patreon p \<Rightarrow>
          (Some (pa_symbol p), rt \<lparr> fr_patreon := keep_latest pa_occurred_at (pa_symbol p) p (fr_patreon rt) \<rparr>)
      | Source_Analysis r \<Rightarrow>
          if ar_horizon r \<in> set fusion_horizons then (Some (ar_symbol r), keep_analysis r rt) else (None, rt)
      | Source_Other \<Rightarrow> (None, rt))"

section \<open>One evaluation\<close>

definition runtime_context :: "fusion_runtime \<Rightarrow> string \<Rightarrow> fusion_context" where
  "runtime_context rt symbol =
     \<lparr> fx_symbol = symbol, fx_support = dget (fr_supports rt) symbol, fx_wave = dget (fr_waves rt) symbol,
       fx_analyses = map snd (held_analyses rt symbol), fx_patreon = dget (fr_patreon rt) symbol,
       fx_holding_quantity = (case dget (fr_quantities rt) symbol of None \<Rightarrow> 0 | Some q \<Rightarrow> q) \<rparr>"

definition same_observation :: "fusion_assessment \<Rightarrow> fusion_assessment \<Rightarrow> bool" where
  "same_observation previous current \<longleftrightarrow> fa_context_hash previous = fa_context_hash current \<and>
     fa_engine_version previous = fa_engine_version current \<and> fa_state previous = fa_state current \<and>
     fa_score previous = fa_score current"

datatype fusion_message =
    Message_Assessment fusion_assessment
  | Message_Transition fusion_transition
  | Message_Signal entry_signal
  | Message_Buy fusion_assessment
  | Message_Recovery fusion_assessment

definition transition_of :: "uuid \<Rightarrow> fusion_assessment \<Rightarrow> fusion_assessment option \<Rightarrow> fusion_transition" where
  "transition_of tid a previous =
     \<lparr> ft_transition_id = tid, ft_assessment_id = fa_assessment_id a, ft_symbol = fa_symbol a,
       ft_occurred_at = fa_occurred_at a, ft_engine_version = fa_engine_version a,
       ft_previous_state = map_option fa_state previous, ft_state = fa_state a, ft_score = fa_score a,
       ft_trigger_price = fa_trigger_price a, ft_entry_price = fa_entry_price a, ft_invalidation = fa_invalidation a,
       ft_target_price = fa_target_price a, ft_reward_risk_ratio = fa_reward_risk_ratio a,
       ft_reasons = fa_reasons a, ft_context_hash = fa_context_hash a \<rparr>"

definition state_changed :: "fusion_assessment option \<Rightarrow> fusion_assessment \<Rightarrow> bool" where
  "state_changed previous a \<longleftrightarrow> map_option fa_state previous \<noteq> Some (fa_state a)"

text \<open>The transition and its entry signal: what is published, and the error that stops the evaluation.\<close>

definition transition_messages ::
  "uuid \<Rightarrow> uuid \<Rightarrow> fusion_assessment \<Rightarrow> fusion_assessment option \<Rightarrow> fusion_message list \<times> py_error option" where
  "transition_messages tid sid a previous =
     (if \<not> state_changed previous a then ([], None)
      else case make_fusion_transition (transition_of tid a previous) of
        Inl e \<Rightarrow> ([], Some e)
      | Inr t \<Rightarrow>
          (case entry_signal_from_fusion sid t of
             Inl e \<Rightarrow> ([Message_Transition t], Some e)
           | Inr signal \<Rightarrow> (Message_Transition t # present [map_option Message_Signal signal], None)))"

definition event_messages :: "fusion_assessment \<Rightarrow> fusion_assessment option \<Rightarrow> fusion_message list" where
  "event_messages a previous =
     (if \<not> state_changed previous a then []
      else if fa_state a = FU_BUY_CONFIRMED then [Message_Buy a]
      else if fa_state a = FU_RECOVERY_CONFIRMED then [Message_Recovery a] else [])"

text \<open>What an evaluation decides to publish and to remember: None where \<open>_evaluate\<close> returns False.\<close>

definition plan_evaluation ::
  "(uuid \<Rightarrow> fusion_context \<Rightarrow> fusion_assessment result) \<Rightarrow> uuid \<Rightarrow> fusion_runtime \<Rightarrow> string \<Rightarrow>
   fusion_assessment option result" where
  "plan_evaluation engine aid rt symbol =
     (if dget (fr_supports rt) symbol = None \<and> dget (fr_waves rt) symbol = None then Inr None
      else bind_result (make_fusion_context (runtime_context rt symbol)) (\<lambda>x.
           bind_result (engine aid x) (\<lambda>a.
             case dget (fr_latest rt) symbol of
               Some previous \<Rightarrow> Inr (if same_observation previous a then None else Some a)
             | None \<Rightarrow> Inr (Some a))))"

text \<open>
  An evaluation under way: what it still has to publish, the assessment it will remember, and the error it
  ends with instead, when its transition or its signal is refused by the contract.
\<close>

record fusion_task =
  tk_symbol :: string
  tk_assessment :: fusion_assessment
  tk_pending :: "fusion_message list"
  tk_error :: "py_error option"

definition fusion_task_of ::
  "uuid \<Rightarrow> uuid \<Rightarrow> fusion_runtime \<Rightarrow> string \<Rightarrow> fusion_assessment \<Rightarrow> fusion_task" where
  "fusion_task_of tid sid rt symbol a =
     (let previous = dget (fr_latest rt) symbol; (messages, failure) = transition_messages tid sid a previous in
      \<lparr> tk_symbol = symbol, tk_assessment = a,
        tk_pending = Message_Assessment a # messages @ (if failure = None then event_messages a previous else []),
        tk_error = failure \<rparr>)"

definition remember_latest :: "fusion_task \<Rightarrow> fusion_runtime \<Rightarrow> fusion_runtime" where
  "remember_latest k rt = rt \<lparr> fr_latest := dput (tk_symbol k) (tk_assessment k) (fr_latest rt) \<rparr>"

definition evaluated ::
  "(uuid \<Rightarrow> fusion_context \<Rightarrow> fusion_assessment result) \<Rightarrow> uuid \<times> uuid \<times> uuid \<Rightarrow> fusion_runtime \<Rightarrow> string \<Rightarrow>
   fusion_task list" where
  "evaluated engine ids rt symbol =
     (case plan_evaluation engine (fst ids) rt symbol of
        Inr (Some a) \<Rightarrow> [fusion_task_of (fst (snd ids)) (snd (snd ids)) rt symbol a] | _ \<Rightarrow> [])"

definition handled ::
  "(uuid \<Rightarrow> fusion_context \<Rightarrow> fusion_assessment result) \<Rightarrow> uuid \<times> uuid \<times> uuid \<Rightarrow> fusion_source \<Rightarrow> fusion_runtime \<Rightarrow>
   fusion_runtime \<times> fusion_task list" where
  "handled engine ids source rt =
     (case store_source source rt of
        (Some symbol, rt') \<Rightarrow>
          (rt', if symbol \<in> set (fr_symbols rt') \<and> \<not> fr_hydrating rt' then evaluated engine ids rt' symbol else [])
      | (None, rt') \<Rightarrow> (rt', []))"

section \<open>Interleaving\<close>

record fusion_system =
  sy_runtime :: fusion_runtime
  sy_tasks :: "fusion_task list"
  sy_log :: "fusion_message list"

text \<open>
  A source message arrives; the hydration ends and its loop evaluates a symbol; a task publishes its next
  message; a task fails (the publisher raises, or its own error); a task that has published everything
  remembers its assessment.
\<close>

datatype fusion_event = Arrived | Hydrated | Sent | Failed | Remembered

inductive fusion_step ::
  "(uuid \<Rightarrow> fusion_context \<Rightarrow> fusion_assessment result) \<Rightarrow> fusion_event \<Rightarrow> fusion_system \<Rightarrow> fusion_system \<Rightarrow> bool"
  for engine where
  arrive: "handled engine ids source (sy_runtime y) = (rt', started) \<Longrightarrow>
    fusion_step engine Arrived y (y \<lparr> sy_runtime := rt', sy_tasks := sy_tasks y @ started \<rparr>)"
| hydrate: "rt' = sy_runtime y \<lparr> fr_hydrating := False \<rparr> \<Longrightarrow> symbol \<in> set (fr_symbols rt') \<Longrightarrow>
    fusion_step engine Hydrated y
      (y \<lparr> sy_runtime := rt', sy_tasks := sy_tasks y @ evaluated engine ids rt' symbol \<rparr>)"
| send: "sy_tasks y = before @ k # after \<Longrightarrow> tk_pending k = m # rest \<Longrightarrow>
    fusion_step engine Sent y
      (y \<lparr> sy_tasks := before @ k \<lparr> tk_pending := rest \<rparr> # after, sy_log := sy_log y @ [m] \<rparr>)"
| fail: "sy_tasks y = before @ k # after \<Longrightarrow>
    fusion_step engine Failed y (y \<lparr> sy_tasks := before @ after \<rparr>)"
| remember: "sy_tasks y = before @ k # after \<Longrightarrow> tk_pending k = [] \<Longrightarrow> tk_error k = None \<Longrightarrow>
    fusion_step engine Remembered y
      (y \<lparr> sy_runtime := remember_latest k (sy_runtime y), sy_tasks := before @ after \<rparr>)"

end
