(* ===== verification/Decimal_Facts.thy ===== *)
theory Decimal_Facts
  imports Decimals
begin

text \<open>
  Exactness of the decimal context: a number with at most 28 significant digits is not rounded, so sums
  of scores and of small integers are exact; order facts about rounding to places.
\<close>

section \<open>Exact numbers\<close>

lemma p10_nonzero [simp]: "p10 e \<noteq> 0"
  using p10_pos [of e] by linarith

lemma p10_split: "f \<le> e \<Longrightarrow> p10 e = of_int (10 ^ nat (e - f)) * p10 f"
proof -
  assume "f \<le> e"
  have "p10 e = p10 (e - f) * p10 f" by (simp flip: p10_add)
  with \<open>f \<le> e\<close> show ?thesis by (simp add: p10_def [of "e - f"])
qed

lemma ctx_exact:
  assumes "\<bar>m\<bar> < 10 ^ 28"
  shows "ctx (of_int m * p10 e) = of_int m * p10 e"
proof (cases "m = 0")
  case False
  let ?x = "of_int m * p10 e"
  have x: "?x \<noteq> 0" using False by simp
  have "\<bar>?x\<bar> = of_int \<bar>m\<bar> * p10 e" by (simp add: abs_mult abs_of_pos)
  also have "\<dots> < of_int (10 ^ 28) * p10 e"
    by (intro mult_strict_right_mono) (use assms in \<open>simp_all only: of_int_less_iff p10_pos\<close>)
  also have "\<dots> = p10 (e + 28)" by (simp add: p10_27)
  finally have "\<bar>?x\<bar> < p10 (e + 28)" .
  with adjusted_bounds(1) [OF x] have "p10 (adjusted ?x) < p10 (e + 28)" by simp
  then have "adjusted ?x < e + 28" using p10_mono [of "e + 28" "adjusted ?x"] by (cases "e + 28 \<le> adjusted ?x") auto
  then obtain f where f: "f = adjusted ?x - 27" "f \<le> e" by simp
  have "ctx ?x = of_int (round_half_even (?x / p10 f)) * p10 f" unfolding f(1) by (rule ctx_eq [OF x])
  also have "?x / p10 f = of_int (m * 10 ^ nat (e - f))" by (simp add: p10_split [OF f(2)])
  also have "of_int (round_half_even (of_int (m * 10 ^ nat (e - f)))) * p10 f = of_int (m * 10 ^ nat (e - f)) * p10 f"
    by (simp only: round_half_even_of_int)
  also have "\<dots> = ?x" by (simp add: p10_split [OF f(2)])
  finally show ?thesis .
qed simp

lemma ctx_of_int: "\<bar>m\<bar> < 10 ^ 28 \<Longrightarrow> ctx (of_int m) = of_int m"
  using ctx_exact [of m 0] by (simp add: p10_def)

text \<open>Numbers with four decimal places.\<close>

definition four_places :: "rat \<Rightarrow> bool" where
  "four_places x \<longleftrightarrow> (\<exists>m. x = of_int m / 10 ^ 4)"

lemma four_places_of_int: "four_places (of_int n)"
  unfolding four_places_def by (intro exI [of _ "n * 10 ^ 4"]) simp

lemma four_places_numeral: "four_places 0" "four_places (numeral n)" "four_places (- numeral n)"
  using four_places_of_int [of 0] four_places_of_int [of "numeral n"] four_places_of_int [of "- numeral n"]
  by simp_all

lemma four_places_add: "four_places x \<Longrightarrow> four_places y \<Longrightarrow> four_places (x + y)"
  unfolding four_places_def by (metis add_divide_distrib of_int_add)

lemma ctx_four_places:
  assumes "four_places x" "\<bar>x\<bar> < 10 ^ 20"
  shows "ctx x = x"
proof -
  obtain m where m: "x = of_int m / 10 ^ 4" using assms(1) by (auto simp: four_places_def)
  have "\<bar>of_int m\<bar> < (10 ^ 28 :: rat)" using assms(2) by (simp add: m)
  then have "\<bar>m\<bar> < 10 ^ 28" by (metis of_int_abs of_int_less_iff of_int_numeral of_int_power)
  then show ?thesis using ctx_exact [of m "- 4"] by (simp add: m p10_def)
qed

lemma dadd_four_places:
  assumes "four_places x" "four_places y" "\<bar>x + y\<bar> < 10 ^ 20"
  shows "dadd x y = x + y"
  using ctx_four_places [OF four_places_add [OF assms(1,2)]] assms(3) by (simp add: dadd_def)

section \<open>Rounding to places\<close>

lemma round_half_up_mono: "x \<le> y \<Longrightarrow> round_half_up x \<le> round_half_up y"
proof -
  assume xy: "x \<le> y"
  consider "0 \<le> x" | "x < 0" "0 \<le> y" | "y < 0" using xy by linarith
  then show ?thesis
  proof cases
    case 1
    then show ?thesis using xy by (simp add: round_half_up_def floor_mono)
  next
    case 2
    then have "0 \<le> \<lfloor>1 / 2 - x\<rfloor>" "0 \<le> \<lfloor>y + 1 / 2\<rfloor>" by simp_all
    then have "- \<lfloor>1 / 2 - x\<rfloor> \<le> \<lfloor>y + 1 / 2\<rfloor>" by linarith
    with 2 show ?thesis by (simp add: round_half_up_def)
  next
    case 3
    then have "\<lfloor>1 / 2 - y\<rfloor> \<le> \<lfloor>1 / 2 - x\<rfloor>" using xy by (intro floor_mono) simp
    with 3 xy show ?thesis by (simp add: round_half_up_def)
  qed
qed

lemma round_half_up_of_int [simp]: "round_half_up (of_int n) = n"
proof (cases "0 \<le> n")
  case True
  have "\<lfloor>rat_of_int n + 1 / 2\<rfloor> = n" by (simp add: floor_unique)
  with True show ?thesis by (simp add: round_half_up_def)
next
  case False
  have "\<lfloor>1 / 2 - rat_of_int n\<rfloor> = - n" by (simp add: floor_unique)
  with False show ?thesis by (simp add: round_half_up_def)
qed

lemma quantize_mono:
  assumes "quantize k x = Inr x'" "quantize k y = Inr y'" "x \<le> y"
  shows "x' \<le> y'"
proof -
  have "round_half_up (x * 10 ^ k) \<le> round_half_up (y * 10 ^ k)"
    using assms(3) by (intro round_half_up_mono mult_right_mono) simp_all
  with assms(1,2) show ?thesis by (auto simp: quantize_def Let_def divide_right_mono split: if_splits)
qed

lemma quantize_int_bounds:
  assumes "quantize k x = Inr x'"
  shows "of_int l \<le> x \<Longrightarrow> of_int l \<le> x'" and "x \<le> of_int u \<Longrightarrow> x' \<le> of_int u"
proof -
  have x': "x' = of_int (round_half_up (x * 10 ^ k)) / 10 ^ k"
    using assms by (auto simp: quantize_def Let_def split: if_splits)
  have scaled: "round_half_up (of_int n * 10 ^ k) = n * 10 ^ k" for n
    using round_half_up_of_int [of "n * 10 ^ k"] by simp
  show "of_int l \<le> x'" if "of_int l \<le> x"
  proof -
    have "l * 10 ^ k \<le> round_half_up (x * 10 ^ k)"
      using round_half_up_mono [of "of_int l * 10 ^ k" "x * 10 ^ k"] that by (simp add: scaled)
    then have "of_int (l * 10 ^ k) \<le> (of_int (round_half_up (x * 10 ^ k)) :: rat)" by (simp only: of_int_le_iff)
    then show ?thesis by (simp add: x' pos_le_divide_eq)
  qed
  show "x' \<le> of_int u" if "x \<le> of_int u"
  proof -
    have "round_half_up (x * 10 ^ k) \<le> u * 10 ^ k"
      using round_half_up_mono [of "x * 10 ^ k" "of_int u * 10 ^ k"] that by (simp add: scaled)
    then have "(of_int (round_half_up (x * 10 ^ k)) :: rat) \<le> of_int (u * 10 ^ k)" by (simp only: of_int_le_iff)
    then show ?thesis by (simp add: x' pos_divide_le_eq)
  qed
qed

lemma quantize_four_places: "quantize 4 x = Inr x' \<Longrightarrow> four_places x'"
  unfolding quantize_def Let_def four_places_def
  by (rule exI [of _ "round_half_up (x * 10 ^ 4)"]) (simp split: if_splits)

lemma quantize_exact:
  assumes "four_places x" "\<bar>x\<bar> < 10 ^ 20"
  shows "quantize 4 x = Inr x"
proof -
  obtain m where m: "x = of_int m / 10 ^ 4" using assms(1) by (auto simp: four_places_def)
  have "\<bar>of_int m\<bar> < (10 ^ 28 :: rat)" using assms(2) by (simp add: m)
  then have "\<bar>m\<bar> < 10 ^ 28" by (metis of_int_abs of_int_less_iff of_int_numeral of_int_power)
  then show ?thesis by (simp add: quantize_def m)
qed

lemma quantize_total:
  assumes "\<bar>x\<bar> < 10 ^ 20"
  obtains x' where "quantize 4 x = Inr x'"
proof -
  have "of_int (- (10 ^ 20)) \<le> x" "x \<le> of_int (10 ^ 20)" using assms by (simp_all add: abs_less_iff)
  then have "round_half_up (of_int (- (10 ^ 24))) \<le> round_half_up (x * 10 ^ 4)"
    "round_half_up (x * 10 ^ 4) \<le> round_half_up (of_int (10 ^ 24))"
    by (auto intro!: round_half_up_mono)
  then have "\<bar>round_half_up (x * 10 ^ 4)\<bar> \<le> 10 ^ 24" by (simp only: round_half_up_of_int abs_le_iff) simp
  then have "\<bar>round_half_up (x * 10 ^ 4)\<bar> < 10 ^ 28" by simp
  then have "quantize 4 x = Inr (of_int (round_half_up (x * 10 ^ 4)) / 10 ^ 4)" by (simp add: quantize_def)
  then show ?thesis by (rule that)
qed

end
