(* ===== verification/Fusion_Laws.thy ===== *)
theory Fusion_Laws
  imports Signal_Fusion Decimal_Facts
begin

text \<open>
  What the fusion engine guarantees: its assessment always passes its own contract, a confirmation rests
  on every gate and on ordered levels, and the later versions only rescore within their bounds.
\<close>

section \<open>Small facts\<close>

lemma set_present: "set (present xs) = {v. \<exists>y\<in>set xs. y = Some v}"
  by (auto simp: present_def split: option.splits)

lemma present_simps [simp]:
  "present [] = []" "present (None # xs) = present xs" "present (Some v # xs) = v # present xs"
  by (simp_all add: present_def)

lemma present_eq_Nil: "present xs = [] \<longleftrightarrow> set xs \<subseteq> {None}"
  by (auto simp: present_def split: option.splits)

lemma highest_Some:
  assumes "highest xs = Some v"
  shows "v \<in> set xs"
proof -
  have "xs \<noteq> []" "v = Max (set xs)" using assms by (cases xs; simp add: highest_def)+
  then show ?thesis using Max_in [of "set xs"] by simp
qed

lemma lowest_Some:
  assumes "lowest xs = Some v"
  shows "v \<in> set xs"
proof -
  have "xs \<noteq> []" "v = Min (set xs)" using assms by (cases xs; simp add: lowest_def)+
  then show ?thesis using Min_in [of "set xs"] by simp
qed

lemma levels_around:
  "standard_invalidation x current = Some low \<Longrightarrow> 0 < low \<and> low < current"
  "recovery_invalidation intraday current = Some low \<Longrightarrow> 0 < low \<and> low < current"
  "standard_target x current = Some high \<Longrightarrow> current < high"
  "recovery_target wave swing current = Some high \<Longrightarrow> current < high"
  by (auto simp: standard_invalidation_def recovery_invalidation_def standard_target_def recovery_target_def
      dest!: highest_Some lowest_Some split: option.splits if_splits)

lemma decision_levels:
  "fd_invalidation (decide_fusion x current) = Some low \<Longrightarrow> 0 < low \<and> low < current"
  "fd_target (decide_fusion x current) = Some high \<Longrightarrow> current < high"
  by (auto simp: decide_fusion_def Let_def dest: levels_around split: if_splits)

lemma decision_ratio:
  "fd_ratio (decide_fusion x current)
     = fusion_reward_risk current (fd_invalidation (decide_fusion x current)) (fd_target (decide_fusion x current))"
  by (simp add: decide_fusion_def Let_def)

lemma reward_risk_Some:
  assumes "fusion_reward_risk entry low high = Some q"
  obtains l h where "low = Some l" "high = Some h" "l < entry" "entry < h" "q = ddiv (dsub h entry) (dsub entry l)"
  using assms by (auto simp: fusion_reward_risk_def split: option.splits if_splits)

lemma reward_risk_pos: "fusion_reward_risk entry low high = Some q \<Longrightarrow> 0 < q"
  by (elim reward_risk_Some) (simp add: dec_op_defs dec_simps)

section \<open>The decision\<close>

lemma decision_state:
  "fd_state (decide_fusion x current) =
     fusion_state_of (fusion_invalidated x) (missing_sources x) (fusion_gates_of x current)
       (ratio_gate (fusion_reward_risk current (standard_invalidation x current) (standard_target x current)))
       (ratio_gate (fusion_reward_risk current (recovery_invalidation (fusion_analysis x AH_INTRADAY) current)
         (recovery_target (fx_wave x) (fusion_analysis x AH_SWING) current)))"
  by (simp add: decide_fusion_def Let_def)

lemma decision_recovery:
  "fd_recovery (decide_fusion x current) = recovery_gate (fusion_gates_of x current)
     (ratio_gate (fusion_reward_risk current (recovery_invalidation (fusion_analysis x AH_INTRADAY) current)
       (recovery_target (fx_wave x) (fusion_analysis x AH_SWING) current)))"
  by (simp add: decide_fusion_def Let_def)

lemma state_of_buy:
  "fusion_state_of invalidated missing g standard recovery = FU_BUY_CONFIRMED \<longleftrightarrow>
     \<not> invalidated \<and> missing = [] \<and> all_gates g standard"
  by (auto simp: fusion_state_of_def all_gates_def)

lemma state_of_recovery:
  "fusion_state_of invalidated missing g standard recovery = FU_RECOVERY_CONFIRMED \<longleftrightarrow>
     \<not> invalidated \<and> missing = [] \<and> \<not> all_gates g standard \<and> recovery_gate g recovery"
  by (auto simp: fusion_state_of_def all_gates_def recovery_gate_def)

lemma decision_buy:
  assumes "fd_state (decide_fusion x current) = FU_BUY_CONFIRMED"
  shows "all_gates (fusion_gates_of x current) (ratio_gate (fd_ratio (decide_fusion x current)))"
    "\<not> fusion_invalidated x" "missing_sources x = []"
proof -
  have "fd_ratio (decide_fusion x current) =
      fusion_reward_risk current (standard_invalidation x current) (standard_target x current)"
    using assms by (auto simp: decide_fusion_def Let_def split: if_splits)
  with assms show "all_gates (fusion_gates_of x current) (ratio_gate (fd_ratio (decide_fusion x current)))"
    "\<not> fusion_invalidated x" "missing_sources x = []"
    by (simp_all add: decision_state state_of_buy)
qed

lemma decision_recovered:
  assumes "fd_state (decide_fusion x current) = FU_RECOVERY_CONFIRMED"
  shows "recovery_gate (fusion_gates_of x current) (ratio_gate (fd_ratio (decide_fusion x current)))"
    "fd_recovery (decide_fusion x current)" "\<not> fusion_invalidated x" "missing_sources x = []"
proof -
  have "fd_ratio (decide_fusion x current) =
      fusion_reward_risk current (recovery_invalidation (fusion_analysis x AH_INTRADAY) current)
        (recovery_target (fx_wave x) (fusion_analysis x AH_SWING) current)"
    using assms by (auto simp: decide_fusion_def Let_def split: if_splits)
  with assms show "recovery_gate (fusion_gates_of x current) (ratio_gate (fd_ratio (decide_fusion x current)))"
    "fd_recovery (decide_fusion x current)" "\<not> fusion_invalidated x" "missing_sources x = []"
    by (simp_all add: decision_state decision_recovery state_of_recovery)
qed

lemma ratio_gate_levels:
  assumes "ratio_gate (fd_ratio (decide_fusion x current))"
  obtains low high q where "fd_invalidation (decide_fusion x current) = Some low"
    "fd_target (decide_fusion x current) = Some high" "fd_ratio (decide_fusion x current) = Some q"
    "0 < low" "low < current" "current < high" "2 \<le> q"
proof -
  obtain q where q: "fd_ratio (decide_fusion x current) = Some q" "2 \<le> q"
    using assms by (auto simp: ratio_gate_def)
  from q(1) [unfolded decision_ratio] obtain low high where
    "fd_invalidation (decide_fusion x current) = Some low" "fd_target (decide_fusion x current) = Some high"
    by (rule reward_risk_Some)
  with decision_levels q show ?thesis by (metis that)
qed

section \<open>The score\<close>

lemma foldl_dadd_mono:
  "0 \<le> a \<Longrightarrow> a \<le> b \<Longrightarrow> list_all2 (\<lambda>x y. 0 \<le> x \<and> x \<le> y) xs ys \<Longrightarrow> foldl dadd a xs \<le> foldl dadd b ys"
proof (induction xs arbitrary: a b ys)
  case (Cons x xs)
  then obtain y zs where ys: "ys = y # zs" "0 \<le> x" "x \<le> y" "list_all2 (\<lambda>x y. 0 \<le> x \<and> x \<le> y) xs zs"
    by (auto simp: list_all2_Cons1)
  have "0 \<le> dadd a x" "dadd a x \<le> dadd b y" using Cons.prems ys by (simp_all add: dadd_nonneg dadd_mono)
  from Cons.IH [OF this ys(4)] show ?case by (simp add: ys)
qed simp

lemma foldl_dadd_nonneg: "0 \<le> a \<Longrightarrow> \<forall>x\<in>set xs. 0 \<le> x \<Longrightarrow> 0 \<le> foldl dadd a xs"
  by (induction xs arbitrary: a) (simp_all add: dadd_nonneg)

lemma support_points_nonneg:
  "(\<And>s. support = Some s \<Longrightarrow> 0 \<le> su_reversal_score s) \<Longrightarrow> 0 \<le> support_points support g"
  by (cases support) (simp_all add: support_points_def Let_def dmul_nonneg max.coboundedI1 le_max_iff_disj)

lemma points_nonneg: "0 \<le> p \<Longrightarrow> 0 \<le> points p gate"
  by (simp add: points_def)

lemma fusion_score_bounds:
  assumes "\<And>s. support = Some s \<Longrightarrow> 0 \<le> su_reversal_score s"
  shows "0 \<le> fusion_score support g available ok" "fusion_score support g available ok \<le> 100"
proof -
  have "0 \<le> support_points support g" using assms by (rule support_points_nonneg)
  then show "0 \<le> fusion_score support g available ok"
    unfolding fusion_score_def by (intro min.boundedI foldl_dadd_nonneg) (simp_all add: points_nonneg)
qed (simp add: fusion_score_def)

text \<open>A confirmed buy has at least 85 points, a confirmed recovery at least 50.\<close>

lemma buy_score:
  assumes "all_gates g ok"
  shows "85 \<le> fusion_score support g available ok"
proof -
  have sums: "foldl dadd 30 [20, 10, 0, 15, 0, 5, 5] = 85" "foldl dadd 30 [20, 0, 10, 15, 0, 5, 5] = 85"
    by code_simp+
  have gates: "support_points support g = 30" "fg_trend g" "fg_execution g" "fg_portfolio g" "ok" "fg_swing g \<or> fg_wave g"
    using assms by (auto simp: all_gates_def support_points_def fg_timing_def)
  from gates(6) have "85 \<le> foldl dadd 30 [points 20 (fg_trend g), points 10 (fg_swing g), points 10 (fg_wave g),
      points 15 (fg_execution g), points 5 (fg_dilution g \<and> available), points 5 (fg_portfolio g), points 5 ok]"
  proof
    assume "fg_swing g"
    then show ?thesis unfolding sums(1) [symmetric] using gates by (intro foldl_dadd_mono) (simp_all add: points_def)
  next
    assume "fg_wave g"
    then show ?thesis unfolding sums(2) [symmetric] using gates by (intro foldl_dadd_mono) (simp_all add: points_def)
  qed
  then show ?thesis by (simp add: fusion_score_def gates(1))
qed

lemma recovery_score:
  assumes "recovery_gate g ok" "\<And>s. support = Some s \<Longrightarrow> 0 \<le> su_reversal_score s" "support \<noteq> None"
  shows "50 \<le> fusion_score support g available ok"
proof -
  have sum: "foldl dadd 15 [0, 0, 10, 15, 0, 5, 5] = 50" by code_simp
  have "15 \<le> support_points support g"
    using assms by (auto simp: recovery_gate_def support_points_def Let_def)
  then have "foldl dadd 15 [0, 0, 10, 15, 0, 5, 5] \<le>
      foldl dadd (support_points support g) [points 20 (fg_trend g), points 10 (fg_swing g), points 10 (fg_wave g),
        points 15 (fg_execution g), points 5 (fg_dilution g \<and> available), points 5 (fg_portfolio g), points 5 ok]"
    using assms(1) by (intro foldl_dadd_mono) (simp_all add: points_def recovery_gate_def)
  then show ?thesis unfolding sum by (simp add: fusion_score_def)
qed

section \<open>The contract of the assessment\<close>

lemma non_empty_hd: "s \<noteq> [] \<Longrightarrow> \<not> isspace (hd s) \<Longrightarrow> non_empty_str s"
  by (cases s) (auto simp: non_empty_str_def strip_def dropWhile_eq_Nil_conv)

lemma non_empty_append: "s \<noteq> [] \<Longrightarrow> \<not> isspace (hd s) \<Longrightarrow> non_empty_str (s @ t)"
  by (rule non_empty_hd) simp_all

lemma missing_sources_ok:
  "distinct (missing_sources x)" "map strip (missing_sources x) = missing_sources x"
  "\<forall>t\<in>set (missing_sources x). non_empty_str t"
proof -
  let ?all = "[''SUPPORT'', ''ELLIOTT'', analysis_horizon_value AH_LONG_TERM, analysis_horizon_value AH_SWING,
    analysis_horizon_value AH_INTRADAY]"
  have sub: "set (missing_sources x) \<subseteq> set ?all" by (auto simp: missing_sources_def)
  have all: "distinct ?all" "list_all (\<lambda>t. strip t = t \<and> non_empty_str t) ?all" by code_simp+
  show "distinct (missing_sources x)"
    unfolding missing_sources_def by (rule distinct_map_filter) (use all(1) in simp)
  show "map strip (missing_sources x) = missing_sources x" "\<forall>t\<in>set (missing_sources x). non_empty_str t"
    using all(2) sub by (auto simp: list_all_iff intro!: map_idI)
qed

lemma fusion_reasons_ok:
  "fusion_reasons x state missing g available ok recovery \<noteq> []"
  "\<forall>t\<in>set (fusion_reasons x state missing g available ok recovery). non_empty_str t"
  unfolding fusion_reasons_def
  by simp (auto intro!: non_empty_hd simp: isspace_def code_def split: option.splits)

lemma wire_texts_ok: "non_empty_str (patreon_state_value p)" "non_empty_str (analysis_verdict_value v)"
  by (cases p; rule non_empty_hd; simp add: isspace_def code_def)
    (cases v; rule non_empty_hd; simp add: isspace_def code_def)

lemma missing_sources_Nil:
  "missing_sources x = [] \<longleftrightarrow> fx_support x \<noteq> None \<and> fx_wave x \<noteq> None \<and> fusion_analysis x AH_LONG_TERM \<noteq> None
     \<and> fusion_analysis x AH_SWING \<noteq> None \<and> fusion_analysis x AH_INTRADAY \<noteq> None"
  by (simp add: missing_sources_def)

text \<open>What the model validator of the assessment adds to the field constraints.\<close>

definition assessment_laws :: "fusion_assessment \<Rightarrow> bool" where
  "assessment_laws a \<longleftrightarrow> is_uuid7 (fa_assessment_id a) \<and> distinct (fa_missing_sources a)
     \<and> distinct (fa_source_assessment_ids a) \<and> distinct (fa_source_analysis_ids a)
     \<and> (fa_state a = FU_BUY_CONFIRMED \<longrightarrow> False \<notin> set (buy_gates a) \<and> None \<notin> set (fusion_levels a))
     \<and> (fa_state a = FU_RECOVERY_CONFIRMED \<longrightarrow> False \<notin> set (recovery_gates a) \<and> None \<notin> set (fusion_levels a))
     \<and> opt_all (\<lambda>entry. opt_all (\<lambda>level. level < entry) (fa_invalidation a)) (fa_entry_price a)
     \<and> opt_all (\<lambda>entry. opt_all (\<lambda>target. entry < target) (fa_target_price a)) (fa_entry_price a)"

lemma stripped_fusion_simps [simp]:
  "fa_assessment_id (stripped_fusion a) = fa_assessment_id a" "fa_state (stripped_fusion a) = fa_state a"
  "fa_source_assessment_ids (stripped_fusion a) = fa_source_assessment_ids a"
  "fa_source_analysis_ids (stripped_fusion a) = fa_source_analysis_ids a"
  "fa_invalidation (stripped_fusion a) = fa_invalidation a" "fa_entry_price (stripped_fusion a) = fa_entry_price a"
  "fa_target_price (stripped_fusion a) = fa_target_price a" "buy_gates (stripped_fusion a) = buy_gates a"
  "recovery_gates (stripped_fusion a) = recovery_gates a" "fusion_levels (stripped_fusion a) = fusion_levels a"
  "fa_missing_sources (stripped_fusion a) = map strip (fa_missing_sources a)"
  "fa_reasons (stripped_fusion a) = map strip (fa_reasons a)"
  by (simp_all add: stripped_fusion_def buy_gates_def recovery_gates_def fusion_levels_def)

lemma make_fusion_iff:
  "make_fusion a = Inr b \<longleftrightarrow> b = stripped_fusion a \<and> fusion_fields a \<and> assessment_laws (stripped_fusion a)"
  by (auto simp: make_fusion_def Let_def assessment_laws_def is_uuid7_def split: if_splits)

lemma stripped_laws:
  "map strip (fa_missing_sources a) = fa_missing_sources a \<Longrightarrow> assessment_laws (stripped_fusion a) = assessment_laws a"
  by (simp add: assessment_laws_def)

text \<open>The inputs of an evaluation as the contracts deliver them, with identifiers that do not collide.\<close>

definition fusion_inputs_ok :: "fusion_context \<Rightarrow> bool" where
  "fusion_inputs_ok x \<longleftrightarrow> make_fusion_context x = Inr x
     \<and> (\<forall>s\<in>set_option (fx_support x). make_support s = Inr s) \<and> (\<forall>w\<in>set_option (fx_wave x). make_wave w = Inr w)
     \<and> (\<forall>p\<in>set_option (fx_patreon x). make_patreon p = Inr p) \<and> (\<forall>r\<in>set (fx_analyses x). valid_analysis r)
     \<and> distinct (map ar_analysis_id (fx_analyses x))
     \<and> distinct (present [map_option su_assessment_id (fx_support x), map_option wv_assessment_id (fx_wave x),
          map_option pa_assessment_id (fx_patreon x)])
     \<and> (\<forall>p\<in>set_option (fusion_metric (fusion_analysis x AH_INTRADAY) ''reference_price''). 0 < p)"

lemma make_support_facts:
  assumes "make_support s = Inr s"
  shows "0 < su_current_price s" "identifier_str (su_symbol s)" "0 \<le> su_reversal_score s"
proof -
  have "support_fields s" using assms by (simp add: make_support_def Let_def split: if_splits)
  then show "0 < su_current_price s" "identifier_str (su_symbol s)" "0 \<le> su_reversal_score s"
    by (simp_all add: support_fields_def percent_score_def)
qed

lemma make_wave_facts:
  assumes "make_wave w = Inr w"
  shows "0 < wv_current_price w" "identifier_str (wv_symbol w)" "positive (wv_trigger_price w)"
proof -
  have "wave_fields w" using assms by (simp add: make_wave_def split: if_splits)
  then show "0 < wv_current_price w" "identifier_str (wv_symbol w)" "positive (wv_trigger_price w)"
    by (simp_all add: wave_fields_def wave_prices_def)
qed

lemma make_context_facts:
  assumes "make_fusion_context x = Inr x"
  shows "\<forall>s\<in>set (source_symbols x). s = norm_symbol (fx_symbol x)" "fx_support x \<noteq> None \<or> fx_wave x \<noteq> None"
    "0 \<le> fx_holding_quantity x"
  using assms by (auto simp: make_fusion_context_def Let_def split: if_splits)

lemma context_symbol:
  assumes "fusion_inputs_ok x"
  shows "identifier_str (norm_symbol (fx_symbol x))"
proof -
  have ok: "make_fusion_context x = Inr x" using assms by (simp add: fusion_inputs_ok_def)
  note facts = make_context_facts [OF ok]
  show ?thesis
  proof (cases "fx_support x")
    case (Some s)
    then have "su_symbol s = norm_symbol (fx_symbol x)"
      using facts(1) by (auto simp: source_symbols_def set_present)
    then show ?thesis
      using assms Some make_support_facts(2) [of s] by (simp add: fusion_inputs_ok_def)
  next
    case None
    then obtain w where w: "fx_wave x = Some w" using facts(2) by auto
    then have "wv_symbol w = norm_symbol (fx_symbol x)"
      using facts(1) by (auto simp: source_symbols_def set_present)
    then show ?thesis
      using assms w make_wave_facts(2) [of w] by (simp add: fusion_inputs_ok_def)
  qed
qed

lemma latest_price_in: "latest_price best cs \<in> snd ` set (best # cs)"
proof (induction best cs rule: latest_price.induct)
  case (2 best c cs)
  then show ?case by (cases "fst best < fst c") (simp_all, blast+)
qed simp

lemma fusion_price_positive:
  assumes "fusion_inputs_ok x"
  obtains current where "fusion_price (fusion_analysis x AH_INTRADAY) (fx_support x) (fx_wave x) = Inr current" "0 < current"
proof -
  let ?cs = "fusion_candidates (fusion_analysis x AH_INTRADAY) (fx_support x) (fx_wave x)"
  have positive: "0 < snd p" if "p \<in> set ?cs" for p
  proof -
    have "fusion_metric (fusion_analysis x AH_INTRADAY) ''reference_price'' = Some (snd p)
        \<or> (\<exists>s. fx_support x = Some s \<and> snd p = su_current_price s)
        \<or> (\<exists>w. fx_wave x = Some w \<and> snd p = wv_current_price w)"
      using that
      by (cases "fusion_analysis x AH_INTRADAY"; cases "fusion_metric (fusion_analysis x AH_INTRADAY) ''reference_price''";
          cases "fx_support x"; cases "fx_wave x") (auto simp: fusion_candidates_def)
    then show ?thesis
      using assms make_support_facts(1) make_wave_facts(1) by (auto simp: fusion_inputs_ok_def)
  qed
  have "fx_support x \<noteq> None \<or> fx_wave x \<noteq> None"
    using assms make_context_facts(2) by (simp add: fusion_inputs_ok_def)
  then have "?cs \<noteq> []" by (auto simp: fusion_candidates_def present_eq_Nil)
  then obtain c cs where cs: "?cs = c # cs" by (cases ?cs) auto
  obtain p where "p \<in> set (c # cs)" "latest_price c cs = snd p" using latest_price_in [of c cs] by blast
  then have "0 < latest_price c cs" using positive [of p] by (simp add: cs)
  then show ?thesis by (intro that) (simp_all add: fusion_price_def cs)
qed

lemma fusion_trigger_positive:
  assumes "fusion_inputs_ok x" "0 < current"
  shows "0 < fusion_trigger (fx_wave x) (fusion_analysis x AH_INTRADAY) current"
proof (cases "Option.bind (fx_wave x) wv_trigger_price")
  case None
  then show ?thesis
    using assms by (auto simp: fusion_trigger_def price_or_def fusion_inputs_ok_def split: option.splits)
next
  case (Some trigger)
  then obtain w where "fx_wave x = Some w" "wv_trigger_price w = Some trigger" by (auto simp: bind_eq_Some_conv)
  then show ?thesis
    using assms(1) make_wave_facts(3) [of w] by (simp add: fusion_inputs_ok_def fusion_trigger_def positive_def)
qed

lemma draft_laws:
  assumes "fusion_inputs_ok x" "is_uuid7 aid" "g = fusion_gates_of x current" "d = decide_fusion x current"
    and "ratio = None \<longleftrightarrow> fd_ratio d = None"
  shows "assessment_laws (fusion_draft c digest aid x current g d score confidence ratio)"
proof -
  let ?a = "fusion_draft c digest aid x current g d score confidence ratio"
  have ids: "distinct (fa_source_assessment_ids ?a)" "distinct (fa_source_analysis_ids ?a)"
    using assms(1) by (simp_all add: fusion_draft_def fusion_inputs_ok_def)
  have levels: "None \<notin> set (fusion_levels ?a)" if "ratio_gate (fd_ratio d)"
    using that assms(5) unfolding assms(4)
    by (elim ratio_gate_levels) (auto simp: fusion_levels_def fusion_draft_def)
  have buy: "False \<notin> set (buy_gates ?a) \<and> None \<notin> set (fusion_levels ?a)" if "fd_state d = FU_BUY_CONFIRMED"
    using decision_buy(1) [of x current] that levels unfolding assms(3,4)
    by (auto simp: all_gates_def buy_gates_def fusion_draft_def fg_timing_def)
  have recovery: "False \<notin> set (recovery_gates ?a) \<and> None \<notin> set (fusion_levels ?a)"
    if "fd_state d = FU_RECOVERY_CONFIRMED"
    using decision_recovered(1,2) [of x current] that levels unfolding assms(3,4)
    by (auto simp: recovery_gate_def recovery_gates_def fusion_draft_def fg_timing_def)
  have "opt_all (\<lambda>level. level < current) (fd_invalidation d)" "opt_all (\<lambda>target. current < target) (fd_target d)"
    unfolding assms(4) using decision_levels [of x current]
    by (cases "fd_invalidation (decide_fusion x current)"; cases "fd_target (decide_fusion x current)"; simp)+
  with ids buy recovery assms(2) missing_sources_ok(1) show ?thesis
    by (auto simp: assessment_laws_def fusion_draft_def)
qed

lemma draft_fields:
  assumes "fusion_inputs_ok x" "0 < current" "d = decide_fusion x current"
    and "sha256_ref (fusion_hash c digest x)" "percent_score score" "unit_interval confidence"
    and "non_negative ratio"
  shows "fusion_fields (fusion_draft c digest aid x current g d score confidence ratio)"
proof -
  have "positive (fd_invalidation d)" "positive (fd_target d)"
    unfolding assms(3) positive_def using decision_levels [of x current] assms(2)
    by (cases "fd_invalidation (decide_fusion x current)"; cases "fd_target (decide_fusion x current)"; force)+
  moreover have "semver ''0.3.0''" by code_simp
  moreover have "non_empty_str ''UNAVAILABLE''" by code_simp
  ultimately show ?thesis
    using assms context_symbol [OF assms(1)] fusion_trigger_positive [OF assms(1,2)] missing_sources_ok(3)
      fusion_reasons_ok wire_texts_ok
    by (cases "fx_patreon x") (auto simp: fusion_fields_def fusion_draft_def positive_def split: option.splits)
qed

section \<open>Evaluation\<close>

lemma evaluate_cases:
  assumes "evaluate_fusion c digest aid x = Inr a"
  obtains current score confidence ratio where
    "fusion_price (fusion_analysis x AH_INTRADAY) (fx_support x) (fx_wave x) = Inr current"
    "quantize 4 (fusion_score (fx_support x) (fusion_gates_of x current) (fusion_analysis x AH_DILUTION \<noteq> None)
       (ratio_gate (fd_ratio (decide_fusion x current)))) = Inr score"
    "quantize_option 4 (fd_ratio (decide_fusion x current)) = Inr ratio"
    "a = stripped_fusion (fusion_draft c digest aid x current (fusion_gates_of x current) (decide_fusion x current)
       score confidence ratio)"
    "fusion_fields (fusion_draft c digest aid x current (fusion_gates_of x current) (decide_fusion x current)
       score confidence ratio)"
  using assms by (auto simp: evaluate_fusion_def Let_def make_fusion_iff)

lemma quantize_option_None: "quantize_option k v = Inr r \<Longrightarrow> r = None \<longleftrightarrow> v = None"
  by (auto simp: quantize_option_def split: option.splits)

lemma quantize_option_non_negative:
  assumes "quantize_option 4 v = Inr r" "opt_all (\<lambda>q. 0 \<le> q) v"
  shows "non_negative r"
  using assms quantize_int_bounds(1) [of 4 _ _ 0]
  by (auto simp: quantize_option_def non_negative_def split: option.splits)

lemma evaluate_total:
  assumes "fusion_inputs_ok x" "is_uuid7 aid" "sha256_ref (fusion_hash c digest x)"
    and "\<And>current q. fusion_price (fusion_analysis x AH_INTRADAY) (fx_support x) (fx_wave x) = Inr current \<Longrightarrow>
      fd_ratio (decide_fusion x current) = Some q \<Longrightarrow> q < 10 ^ 20"
  obtains a where "evaluate_fusion c digest aid x = Inr a" "fusion_fields a" "assessment_laws a"
proof -
  obtain current where price: "fusion_price (fusion_analysis x AH_INTRADAY) (fx_support x) (fx_wave x) = Inr current"
    "0 < current"
    by (rule fusion_price_positive [OF assms(1)])
  define g where "g = fusion_gates_of x current"
  define d where "d = decide_fusion x current"
  define score where "score = fusion_score (fx_support x) g (fusion_analysis x AH_DILUTION \<noteq> None) (ratio_gate (fd_ratio d))"
  have reversal: "0 \<le> su_reversal_score s" if "fx_support x = Some s" for s
    using assms(1) that make_support_facts(3) [of s] by (simp add: fusion_inputs_ok_def)
  have score: "0 \<le> score" "score \<le> 100" unfolding score_def by (rule fusion_score_bounds, erule reversal)+
  then obtain rounded where rounded: "quantize 4 score = Inr rounded" using quantize_total [of score] by auto
  have percent: "percent_score rounded"
    using quantize_int_bounds [OF rounded, of 0] quantize_int_bounds [OF rounded, of 100] score
    by (simp add: percent_score_def)
  have "0 \<le> ddiv score 100" "ddiv score 100 \<le> 1"
    using score ctx_mono [of "score / 100" 1] by (simp_all add: ddiv_def dec_simps)
  note unit = this
  then obtain confidence where confidence: "quantize 4 (ddiv score 100) = Inr confidence"
    using quantize_total [of "ddiv score 100"] by auto
  have interval: "unit_interval confidence"
    using quantize_int_bounds [OF confidence, of 0] quantize_int_bounds [OF confidence, of 1] unit
    by (simp add: unit_interval_def)
  have ratio_pos: "0 < q" if "fd_ratio d = Some q" for q
    using that reward_risk_pos unfolding d_def decision_ratio by blast
  obtain ratio where ratio: "quantize_option 4 (fd_ratio d) = Inr ratio"
  proof (cases "fd_ratio d")
    case None
    then show ?thesis by (intro that) (simp add: quantize_option_def)
  next
    case (Some q)
    with ratio_pos [OF Some] assms(4) [OF price(1), of q] obtain r where "quantize 4 q = Inr r"
      using quantize_total [of q] by (auto simp: d_def)
    then show ?thesis by (intro that) (simp add: quantize_option_def Some)
  qed
  have "non_negative ratio"
    using quantize_option_non_negative [OF ratio] ratio_pos by (cases "fd_ratio d") (force simp: less_imp_le)+
  note fields = draft_fields [OF assms(1) price(2) d_def assms(3) percent interval this, of aid g]
  let ?draft = "fusion_draft c digest aid x current g d rounded confidence ratio"
  have laws: "assessment_laws ?draft"
    by (rule draft_laws [OF assms(1,2) g_def d_def quantize_option_None [OF ratio]])
  have missing: "map strip (fa_missing_sources ?draft) = fa_missing_sources ?draft"
    by (simp add: fusion_draft_def missing_sources_ok(2))
  have "evaluate_fusion c digest aid x = make_fusion ?draft"
    unfolding evaluate_fusion_def Let_def
    by (simp only: price(1) rounded confidence ratio bind_result.simps flip: g_def d_def score_def)
  then have "evaluate_fusion c digest aid x = Inr (stripped_fusion ?draft)"
    using fields laws stripped_laws [OF missing] by (simp add: make_fusion_iff)
  moreover have "fusion_fields (stripped_fusion ?draft)"
    using fields by (cases "fa_patreon_context ?draft"; cases "fa_dilution_context ?draft")
      (auto simp: fusion_fields_def stripped_fusion_def non_empty_str_def)
  ultimately show ?thesis using that laws stripped_laws [OF missing] by blast
qed

section \<open>Rescoring\<close>

lemma dadd_between:
  assumes "four_places s" "0 \<le> s" "s \<le> 100" "l \<le> delta" "delta \<le> u" "four_places l" "four_places u" "\<bar>l\<bar> \<le> 100" "\<bar>u\<bar> \<le> 100"
  shows "min 100 (max 0 (dadd s delta)) \<le> max 0 (s + u)" "min 100 (s + l) \<le> min 100 (max 0 (dadd s delta))"
proof -
  have exact: "ctx (s + l) = s + l" "ctx (s + u) = s + u"
    using assms by (intro ctx_four_places four_places_add; simp)+
  show "min 100 (max 0 (dadd s delta)) \<le> max 0 (s + u)"
  proof (cases "0 \<le> s + delta")
    case True
    then have "ctx (s + delta) \<le> ctx (s + u)" using assms by (intro ctx_mono) simp_all
    then show ?thesis by (simp add: exact dadd_def)
  next
    case False
    then have "dadd s delta \<le> 0" by (simp add: dadd_def dec_simps)
    then show ?thesis by simp
  qed
  show "min 100 (s + l) \<le> min 100 (max 0 (dadd s delta))"
  proof (cases "0 \<le> s + l")
    case True
    then have "ctx (s + l) \<le> ctx (s + delta)" using assms by (intro ctx_mono) simp_all
    then show ?thesis by (simp add: exact dadd_def)
  next
    case False
    then show ?thesis by simp
  qed
qed

lemma rescored_Inr:
  assumes "rescored b version effective reasons = Inr a"
  obtains score confidence where "quantize 4 effective = Inr score" "quantize 4 (ddiv score 100) = Inr confidence"
    "a = b \<lparr> fa_engine_version := version, fa_score := score, fa_confidence := confidence, fa_reasons := reasons \<rparr>"
  using assms by (auto simp: rescored_def)

lemma quantize_percent:
  assumes "quantize 4 x = Inr s" "0 \<le> x" "x \<le> 100"
  shows "percent_score s"
  using quantize_int_bounds [OF assms(1), of 0] quantize_int_bounds [OF assms(1), of 100] assms(2,3)
  by (simp add: percent_score_def)

lemma quantize_unit:
  assumes "quantize 4 (ddiv s 100) = Inr q" "percent_score s"
  shows "unit_interval q"
proof -
  have "0 \<le> ddiv s 100" "ddiv s 100 \<le> 1"
    using assms(2) ctx_mono [of "s / 100" 1] by (simp_all add: ddiv_def dec_simps percent_score_def)
  then show ?thesis
    using quantize_int_bounds [OF assms(1), of 0] quantize_int_bounds [OF assms(1), of 1] by (simp add: unit_interval_def)
qed

text \<open>An assessment that differs from another by its version, a bounded change of score and added reasons.\<close>

definition rescoring :: "rat \<Rightarrow> rat \<Rightarrow> fusion_assessment \<Rightarrow> fusion_assessment \<Rightarrow> bool" where
  "rescoring l u b a \<longleftrightarrow>
     a = b \<lparr> fa_engine_version := fa_engine_version a, fa_score := fa_score a, fa_confidence := fa_confidence a,
             fa_reasons := fa_reasons a \<rparr>
     \<and> fa_score b + l \<le> fa_score a \<and> fa_score a \<le> fa_score b + u \<and> four_places (fa_score a)
     \<and> percent_score (fa_score a) \<and> unit_interval (fa_confidence a)
     \<and> set (fa_reasons b) \<subseteq> set (fa_reasons a)
     \<and> (\<forall>t\<in>set (fa_reasons a). t \<in> set (fa_reasons b) \<or> non_empty_str t)"

lemma rescored_rescoring:
  assumes r: "rescored b version (min 100 (max 0 (dadd (fa_score b) delta))) reasons = Inr a"
    and "four_places (fa_score b)" "percent_score (fa_score b)" "l \<le> delta" "delta \<le> u"
    and "four_places l" "four_places u" "\<bar>l\<bar> \<le> 100" "\<bar>u\<bar> \<le> 100" "l \<le> 0" "0 \<le> u"
    and "set (fa_reasons b) \<subseteq> set reasons" "\<forall>t\<in>set reasons. t \<in> set (fa_reasons b) \<or> non_empty_str t"
  shows "rescoring l u b a \<and> fa_engine_version a = version"
proof -
  let ?s = "fa_score b"
  obtain score confidence where q: "quantize 4 (min 100 (max 0 (dadd ?s delta))) = Inr score"
    "quantize 4 (ddiv score 100) = Inr confidence"
    "a = b \<lparr> fa_engine_version := version, fa_score := score, fa_confidence := confidence, fa_reasons := reasons \<rparr>"
    by (rule rescored_Inr [OF r])
  have s: "0 \<le> ?s" "?s \<le> 100" using assms(3) by (simp_all add: percent_score_def)
  note between = dadd_between [OF assms(2) s assms(4-9)]
  have "quantize 4 (?s + l) = Inr (?s + l)" "quantize 4 (?s + u) = Inr (?s + u)"
    using assms(2,6-9) s by (intro quantize_exact four_places_add; simp)+
  moreover have "?s + l \<le> min 100 (max 0 (dadd ?s delta))" using between(2) s assms(10) by simp
  moreover have "min 100 (max 0 (dadd ?s delta)) \<le> ?s + u" using between(1) s assms(11) by simp
  ultimately have "?s + l \<le> score" "score \<le> ?s + u" using quantize_mono q(1) by blast+
  moreover have percent: "percent_score score" by (rule quantize_percent [OF q(1)]) simp_all
  moreover have "unit_interval confidence" by (rule quantize_unit [OF q(2) percent])
  ultimately show ?thesis using quantize_four_places [OF q(1)] assms(12,13) by (simp add: q(3) rescoring_def)
qed

lemma rescoring_trans:
  assumes "rescoring l u b a" "rescoring l' u' a e"
  shows "rescoring (l + l') (u + u') b e"
proof -
  have same: "e = b \<lparr> fa_engine_version := fa_engine_version e, fa_score := fa_score e, fa_confidence := fa_confidence e,
      fa_reasons := fa_reasons e \<rparr>"
    using assms by (cases a; cases b; cases e) (simp add: rescoring_def)
  show ?thesis using assms by (subst rescoring_def, intro conjI same) (auto simp: rescoring_def)
qed

lemma rescoring_accepted:
  assumes "rescoring l u b a" "fusion_fields b" "assessment_laws b" "semver (fa_engine_version a)"
    "map strip (fa_missing_sources b) = fa_missing_sources b"
  shows "is_ok (make_fusion a)"
proof -
  obtain v score q reasons where a: "a = b \<lparr> fa_engine_version := v, fa_score := score, fa_confidence := q,
      fa_reasons := reasons \<rparr>" using assms(1) unfolding rescoring_def by blast
  have "reasons \<noteq> []" "\<forall>t\<in>set reasons. non_empty_str t"
    using assms(1,2) by (auto simp: a rescoring_def fusion_fields_def)
  with assms(1,2,4) have "fusion_fields a" by (simp add: a rescoring_def fusion_fields_def)
  moreover have "assessment_laws a"
    using assms(3) by (simp add: a assessment_laws_def buy_gates_def recovery_gates_def fusion_levels_def)
  moreover have "map strip (fa_missing_sources a) = fa_missing_sources a" using assms(5) by (simp add: a)
  ultimately show ?thesis using stripped_laws by (auto simp: is_ok_iff make_fusion_iff)
qed

lemma evaluate_facts:
  assumes "evaluate_fusion c digest aid x = Inr b"
  shows "four_places (fa_score b)" "percent_score (fa_score b)" "fusion_fields b"
proof -
  obtain current score confidence ratio where q: "quantize 4 (fusion_score (fx_support x) (fusion_gates_of x current)
       (fusion_analysis x AH_DILUTION \<noteq> None) (ratio_gate (fd_ratio (decide_fusion x current)))) = Inr score"
    "b = stripped_fusion (fusion_draft c digest aid x current (fusion_gates_of x current) (decide_fusion x current)
       score confidence ratio)"
    "fusion_fields (fusion_draft c digest aid x current (fusion_gates_of x current) (decide_fusion x current)
       score confidence ratio)"
    using evaluate_cases [OF assms] by metis
  let ?draft = "fusion_draft c digest aid x current (fusion_gates_of x current) (decide_fusion x current)
       score confidence ratio"
  show "four_places (fa_score b)"
    using quantize_four_places [OF q(1)] by (simp add: q(2) stripped_fusion_def fusion_draft_def)
  show fields: "fusion_fields b"
    using q(3) unfolding q(2) by (cases "fa_patreon_context ?draft"; cases "fa_dilution_context ?draft")
      (auto simp: fusion_fields_def stripped_fusion_def non_empty_str_def)
  then show "percent_score (fa_score b)" by (simp add: fusion_fields_def)
qed

lemma volume_boost_bounds: "0 \<le> volume_boost c found t" "volume_boost c found t \<le> 10"
  by (auto simp: volume_boost_def split: option.splits)

lemma gamma_delta_bounds: "- 8 \<le> gamma_delta c r current" "gamma_delta c r current \<le> 6"
  by (simp_all add: gamma_delta_def)

lemma evaluate_v04_rescores:
  assumes "evaluate_fusion_v04 c digest aid x = Inr a"
  obtains b where "evaluate_fusion c digest aid x = Inr b" "rescoring 0 10 b a" "fa_engine_version a = ''0.4.0''"
proof -
  obtain b where b: "evaluate_fusion c digest aid x = Inr b"
    using assms by (auto simp: evaluate_fusion_v04_def)
  obtain boost where boost: "boost = volume_boost c (horizon_item x AH_VOLUME_STRUCTURE) (fa_occurred_at b)" by blast
  obtain reasons where reasons: "reasons = (if 0 < boost
    then fromkeys (fa_reasons b @ [''volume_structure_boost:+'' @ ac_decimal c boost]) else fa_reasons b)" by blast
  have bounds: "0 \<le> boost" "boost \<le> 10" using volume_boost_bounds by (simp_all add: boost)
  note facts = evaluate_facts [OF b]
  have "rescored b ''0.4.0'' (min 100 (dadd (fa_score b) boost)) reasons = Inr a"
    using assms unfolding evaluate_fusion_v04_def b bind_result.simps Let_def boost reasons .
  moreover have "0 \<le> dadd (fa_score b) boost"
    using facts(2) bounds by (intro dadd_nonneg) (simp_all add: percent_score_def)
  ultimately have r: "rescored b ''0.4.0'' (min 100 (max 0 (dadd (fa_score b) boost))) reasons = Inr a"
    by (simp add: max_absorb2)
  have texts: "set (fa_reasons b) \<subseteq> set reasons" "\<forall>t\<in>set reasons. t \<in> set (fa_reasons b) \<or> non_empty_str t"
    using non_empty_append [of "''volume_structure_boost:+''" "ac_decimal c boost"]
    by (auto simp: reasons isspace_def code_def)
  have "rescoring 0 10 b a \<and> fa_engine_version a = ''0.4.0''"
    by (rule rescored_rescoring [OF r facts(1,2) bounds four_places_numeral(1,2) _ _ _ _ texts]) simp_all
  then show ?thesis using that [OF b] by blast
qed

lemma evaluate_v05_rescores:
  assumes "evaluate_fusion_v05 c digest aid x = Inr a"
  obtains b where "evaluate_fusion c digest aid x = Inr b" "rescoring (- 8) 16 b a" "fa_engine_version a = ''0.5.0''"
proof -
  obtain e where e: "evaluate_fusion_v04 c digest aid x = Inr e"
    using assms by (auto simp: evaluate_fusion_v05_def)
  obtain b where b: "evaluate_fusion c digest aid x = Inr b" "rescoring 0 10 b e" "fa_engine_version e = ''0.4.0''"
    by (rule evaluate_v04_rescores [OF e])
  have "rescoring (- 8) 6 e a \<and> fa_engine_version a = ''0.5.0''"
  proof (cases "usable_gamma c (horizon_item x AH_OPTIONS_GAMMA) (fa_current_price e) (fa_occurred_at e)")
    case None
    then have "a = e \<lparr> fa_engine_version := ''0.5.0'' \<rparr>" using assms by (simp add: evaluate_fusion_v05_def e)
    then show ?thesis using b(2) by (simp add: rescoring_def)
  next
    case (Some r)
    let ?delta = "gamma_delta c r (fa_current_price e)"
    let ?reasons = "fromkeys (fa_reasons e @ map snd (gamma_steps c r (fa_current_price e)))"
    have r: "rescored e ''0.5.0'' (min 100 (max 0 (dadd (fa_score e) ?delta))) ?reasons = Inr a"
      using assms Some by (simp add: evaluate_fusion_v05_def e)
    have "\<forall>t\<in>set (map snd (gamma_steps c r (fa_current_price e))). non_empty_str t"
      unfolding gamma_steps_def Let_def by (auto intro!: non_empty_hd simp: isspace_def code_def)
    then have texts: "set (fa_reasons e) \<subseteq> set ?reasons" "\<forall>t\<in>set ?reasons. t \<in> set (fa_reasons e) \<or> non_empty_str t"
      by auto
    have "four_places (fa_score e)" "percent_score (fa_score e)" using b(2) by (simp_all add: rescoring_def)
    from rescored_rescoring [OF r this gamma_delta_bounds four_places_numeral(3,2) _ _ _ _ texts] show ?thesis by simp
  qed
  then have "rescoring (0 + - 8) (10 + 6) b a \<and> fa_engine_version a = ''0.5.0''" using rescoring_trans [OF b(2)] by blast
  then show ?thesis using that [OF b(1)] by simp
qed

lemma rescored_total:
  assumes "0 \<le> effective" "effective \<le> 100"
  obtains a where "rescored b version effective reasons = Inr a"
proof -
  obtain s where s: "quantize 4 effective = Inr s" using quantize_total [of effective] assms by auto
  have "percent_score s" by (rule quantize_percent [OF s assms])
  then have "0 \<le> ddiv s 100" "ddiv s 100 \<le> 1"
    using ctx_mono [of "s / 100" 1] by (simp_all add: ddiv_def dec_simps percent_score_def)
  then obtain q where "quantize 4 (ddiv s 100) = Inr q" using quantize_total [of "ddiv s 100"] by auto
  with s show ?thesis by (intro that) (simp add: rescored_def)
qed

lemma evaluate_v05_total:
  assumes "evaluate_fusion c digest aid x = Inr b"
  obtains a where "evaluate_fusion_v05 c digest aid x = Inr a"
proof -
  let ?boost = "volume_boost c (horizon_item x AH_VOLUME_STRUCTURE) (fa_occurred_at b)"
  have "0 \<le> dadd (fa_score b) ?boost"
    using evaluate_facts(2) [OF assms] volume_boost_bounds by (intro dadd_nonneg) (simp_all add: percent_score_def)
  then obtain e where e: "evaluate_fusion_v04 c digest aid x = Inr e"
    using rescored_total [of "min 100 (dadd (fa_score b) ?boost)" b "''0.4.0''"]
    unfolding evaluate_fusion_v04_def assms bind_result.simps Let_def by (metis min.cobounded1 min.boundedI zero_le_numeral)
  show ?thesis
  proof (cases "usable_gamma c (horizon_item x AH_OPTIONS_GAMMA) (fa_current_price e) (fa_occurred_at e)")
    case None
    then show ?thesis by (intro that) (simp add: evaluate_fusion_v05_def e)
  next
    case (Some r)
    obtain a where "rescored e ''0.5.0'' (min 100 (max 0 (dadd (fa_score e) (gamma_delta c r (fa_current_price e)))))
        (fromkeys (fa_reasons e @ map snd (gamma_steps c r (fa_current_price e)))) = Inr a"
      by (rule rescored_total [of "min 100 (max 0 (dadd (fa_score e) (gamma_delta c r (fa_current_price e))))"]) simp_all
    with Some show ?thesis by (intro that) (simp add: evaluate_fusion_v05_def e)
  qed
qed

end
