(* ===== verification/Fusion_Chain.thy ===== *)
theory Fusion_Chain
  imports Fusion_Runtime Fusion_Laws
begin

text \<open>
  The transitions the fusion process publishes. The interface \<open>FusionEngine\<close> of the process is a locale,
  interpreted by the three versions of the engine: while the evaluations of a symbol do not overlap, its
  transitions form a chain from the state the process started with to the state it remembers.
\<close>

section \<open>Chains\<close>

fun linked :: "fusion_state option \<Rightarrow> fusion_transition list \<Rightarrow> bool" where
  "linked state [] \<longleftrightarrow> True"
| "linked state (t # ts) \<longleftrightarrow>
     ft_previous_state t = state \<and> state \<noteq> Some (ft_state t) \<and> linked (Some (ft_state t)) ts"

definition end_state :: "fusion_state option \<Rightarrow> fusion_transition list \<Rightarrow> fusion_state option" where
  "end_state state ts = (if ts = [] then state else Some (ft_state (last ts)))"

lemma linked_snoc:
  "linked state (ts @ [t]) \<longleftrightarrow> linked state ts \<and> ft_previous_state t = end_state state ts \<and> end_state state ts \<noteq> Some (ft_state t)"
  by (induction ts arbitrary: state) (auto simp: end_state_def)

lemma end_state_simps [simp]: "end_state state [] = state" "end_state state (ts @ [t]) = Some (ft_state t)"
  by (simp_all add: end_state_def)

definition transitions_in :: "fusion_message list \<Rightarrow> fusion_transition list" where
  "transitions_in ms = concat (map (\<lambda>m. case m of Message_Transition t \<Rightarrow> [t] | _ \<Rightarrow> []) ms)"

definition transitions_of :: "string \<Rightarrow> fusion_message list \<Rightarrow> fusion_transition list" where
  "transitions_of symbol ms = filter (\<lambda>t. ft_symbol t = symbol) (transitions_in ms)"

lemma transitions_in_simps [simp]:
  "transitions_in [] = []" "transitions_in (ms @ ms') = transitions_in ms @ transitions_in ms'"
  "transitions_in (Message_Transition t # ms) = t # transitions_in ms"
  "transitions_in (Message_Assessment a # ms) = transitions_in ms" "transitions_in (Message_Signal s # ms) = transitions_in ms"
  "transitions_in (Message_Buy a # ms) = transitions_in ms" "transitions_in (Message_Recovery a # ms) = transitions_in ms"
  by (simp_all add: transitions_in_def)

section \<open>What a task publishes\<close>

definition held_state :: "fusion_runtime \<Rightarrow> string \<Rightarrow> fusion_state option" where
  "held_state rt symbol = map_option fa_state (dget (fr_latest rt) symbol)"

definition task_fits :: "fusion_runtime \<Rightarrow> fusion_state option \<Rightarrow> fusion_task \<Rightarrow> bool" where
  "task_fits rt reached k \<longleftrightarrow>
     (\<exists>t. transitions_in (tk_pending k) = [t] \<and> ft_symbol t = tk_symbol k \<and> reached = held_state rt (tk_symbol k) \<and>
        ft_previous_state t = reached \<and> reached \<noteq> Some (ft_state t) \<and> ft_state t = fa_state (tk_assessment k)) \<or>
     (transitions_in (tk_pending k) = [] \<and> (tk_error k = None \<longrightarrow> reached = Some (fa_state (tk_assessment k))))"

lemma event_messages_in [simp]: "transitions_in (event_messages a previous) = []"
  by (simp add: event_messages_def)

lemma signal_messages_in [simp]: "transitions_in (present [map_option Message_Signal s]) = []"
  by (cases s) simp_all

lemma transition_messages_in:
  assumes "transition_messages tid sid a previous = (ms, failure)"
  shows "(\<exists>t. transitions_in ms = [t] \<and> ft_symbol t = fa_symbol a \<and> ft_previous_state t = map_option fa_state previous \<and>
        map_option fa_state previous \<noteq> Some (ft_state t) \<and> ft_state t = fa_state a) \<or>
     (transitions_in ms = [] \<and> (failure = None \<longrightarrow> map_option fa_state previous = Some (fa_state a)))"
proof (cases "state_changed previous a")
  case False
  then show ?thesis using assms by (auto simp: transition_messages_def state_changed_def)
next
  case True
  show ?thesis
  proof (cases "make_fusion_transition (transition_of tid a previous)")
    case (Inl e)
    then show ?thesis using assms True by (auto simp: transition_messages_def)
  next
    case (Inr t)
    then have t: "ft_symbol t = fa_symbol a" "ft_previous_state t = map_option fa_state previous" "ft_state t = fa_state a"
      by (auto simp: make_fusion_transition_def transition_of_def split: if_splits)
    have "transitions_in ms = [t]"
      using assms True Inr by (auto simp: transition_messages_def split: sum.splits)
    with t True show ?thesis by (auto simp: state_changed_def)
  qed
qed

lemma fusion_task_fits:
  assumes "fa_symbol a = symbol"
  shows "task_fits rt (held_state rt symbol) (fusion_task_of tid sid rt symbol a)"
proof -
  let ?previous = "dget (fr_latest rt) symbol"
  obtain ms failure where ms: "transition_messages tid sid a ?previous = (ms, failure)" by fastforce
  have "transitions_in (tk_pending (fusion_task_of tid sid rt symbol a)) = transitions_in ms"
    "tk_error (fusion_task_of tid sid rt symbol a) = failure" "tk_symbol (fusion_task_of tid sid rt symbol a) = symbol"
    "tk_assessment (fusion_task_of tid sid rt symbol a) = a"
    by (simp_all add: fusion_task_of_def ms)
  with transition_messages_in [OF ms] assms show ?thesis by (auto simp: task_fits_def held_state_def)
qed

section \<open>Runs without overlap\<close>

text \<open>No publication fails, and two evaluations of one symbol are never under way together.\<close>

inductive calm_run ::
  "(uuid \<Rightarrow> fusion_context \<Rightarrow> fusion_assessment result) \<Rightarrow> fusion_system \<Rightarrow> fusion_system \<Rightarrow> bool" for engine y where
  calm_start: "calm_run engine y y"
| calm_next: "calm_run engine y y1 \<Longrightarrow> fusion_step engine e y1 y2 \<Longrightarrow> e \<noteq> Failed \<Longrightarrow>
    distinct (map tk_symbol (sy_tasks y2)) \<Longrightarrow> calm_run engine y y2"

lemma store_source_frame:
  assumes "store_source source rt = (symbol, rt')"
  shows "fr_latest rt' = fr_latest rt" "fr_symbols rt' = fr_symbols rt"
  using assms by (auto simp: store_source_def keep_analysis_def Let_def split: fusion_source.splits if_splits)

definition chained :: "(string \<Rightarrow> fusion_state option) \<Rightarrow> fusion_system \<Rightarrow> bool" where
  "chained start y \<longleftrightarrow> distinct (map tk_symbol (sy_tasks y)) \<and>
     (\<forall>s\<in>set (fr_symbols (sy_runtime y)). norm_symbol s = s) \<and>
     (\<forall>s. linked (start s) (transitions_of s (sy_log y))) \<and>
     (\<forall>k\<in>set (sy_tasks y). task_fits (sy_runtime y) (end_state (start (tk_symbol k)) (transitions_of (tk_symbol k) (sy_log y))) k) \<and>
     (\<forall>s. s \<notin> tk_symbol ` set (sy_tasks y) \<longrightarrow> end_state (start s) (transitions_of s (sy_log y)) = held_state (sy_runtime y) s)"

lemma distinct_other:
  assumes "distinct (map f (xs @ k # ys))" "k' \<in> set (xs @ ys)"
  shows "f k' \<noteq> f k"
proof -
  have "f k' \<in> f ` set (xs @ ys)" using assms(2) by (rule imageI)
  moreover have "f k \<notin> f ` set (xs @ ys)" using assms(1) by auto
  ultimately show ?thesis by metis
qed

lemma transitions_of_snoc:
  "transitions_of s (ms @ [m]) = transitions_of s ms @ filter (\<lambda>t. ft_symbol t = s) (transitions_in [m])"
  by (simp add: transitions_of_def)

lemma chained_send:
  assumes "chained start y" "sy_tasks y = before @ k # after" "tk_pending k = m # rest"
  shows "chained start (y \<lparr> sy_tasks := before @ k \<lparr> tk_pending := rest \<rparr> # after, sy_log := sy_log y @ [m] \<rparr>)"
proof -
  have others: "tk_symbol k' \<noteq> tk_symbol k" if "k' \<in> set (before @ after)" for k'
    using assms(1,2) that distinct_other [of tk_symbol before k after] by (simp add: chained_def)
  have fits: "task_fits (sy_runtime y) (end_state (start (tk_symbol k)) (transitions_of (tk_symbol k) (sy_log y))) k"
    and linked: "linked (start s) (transitions_of s (sy_log y))" for s
    using assms(1,2) by (simp_all add: chained_def)
  consider (other) "transitions_in [m] = []" | (transition) t where "m = Message_Transition t"
    by (cases m) auto
  then show ?thesis
  proof cases
    case other
    have same: "transitions_of s (sy_log y @ [m]) = transitions_of s (sy_log y)" for s
      by (simp only: transitions_of_snoc other) simp
    have "transitions_in (tk_pending k) = transitions_in rest"
      using other transitions_in_simps(2) [of "[m]" rest] by (simp add: assms(3))
    then have "task_fits (sy_runtime y) (end_state (start (tk_symbol k)) (transitions_of (tk_symbol k) (sy_log y)))
        (k \<lparr> tk_pending := rest \<rparr>)"
      using fits by (simp add: task_fits_def)
    then show ?thesis using assms(1,2) by (simp add: chained_def same)
  next
    case (transition t)
    have t: "transitions_in rest = []" "ft_symbol t = tk_symbol k" "ft_state t = fa_state (tk_assessment k)"
      "ft_previous_state t = end_state (start (tk_symbol k)) (transitions_of (tk_symbol k) (sy_log y))"
      "end_state (start (tk_symbol k)) (transitions_of (tk_symbol k) (sy_log y)) \<noteq> Some (ft_state t)"
      using fits by (auto simp: task_fits_def assms(3) transition)
    have log: "transitions_of s (sy_log y @ [m]) = transitions_of s (sy_log y) @ (if s = tk_symbol k then [t] else [])" for s
      by (simp add: transitions_of_snoc transition t(2))
    have "linked (start s) (transitions_of s (sy_log y @ [m]))" for s
      using linked t(4,5) by (simp add: log linked_snoc)
    moreover have "task_fits (sy_runtime y)
        (end_state (start (tk_symbol k)) (transitions_of (tk_symbol k) (sy_log y @ [m]))) (k \<lparr> tk_pending := rest \<rparr>)"
      by (simp add: log task_fits_def t(1,3))
    ultimately show ?thesis using assms(1,2) others by (auto simp: chained_def log)
  qed
qed

lemma held_remember:
  "held_state (remember_latest k rt) s = (if s = tk_symbol k then Some (fa_state (tk_assessment k)) else held_state rt s)"
  by (simp add: held_state_def remember_latest_def dict_simps)

lemma chained_remember:
  assumes "chained start y" "sy_tasks y = before @ k # after" "tk_pending k = []" "tk_error k = None"
  shows "chained start (y \<lparr> sy_runtime := remember_latest k (sy_runtime y), sy_tasks := before @ after \<rparr>)"
proof -
  have others: "tk_symbol k' \<noteq> tk_symbol k" if "k' \<in> set (before @ after)" for k'
    using assms(1,2) that distinct_other [of tk_symbol before k after] by (simp add: chained_def)
  have "end_state (start (tk_symbol k)) (transitions_of (tk_symbol k) (sy_log y)) = Some (fa_state (tk_assessment k))"
    using assms by (auto simp: chained_def task_fits_def)
  moreover have "task_fits (remember_latest k (sy_runtime y)) reached k' = task_fits (sy_runtime y) reached k'"
    if "k' \<in> set (before @ after)" for k' reached
    using others [OF that] by (simp add: task_fits_def held_remember)
  moreover have "fr_symbols (remember_latest k (sy_runtime y)) = fr_symbols (sy_runtime y)"
    by (simp add: remember_latest_def)
  ultimately show ?thesis using assms(1,2) others by (auto simp: chained_def held_remember)
qed

locale fusion_engine =
  fixes engine :: "uuid \<Rightarrow> fusion_context \<Rightarrow> fusion_assessment result"
  assumes engine_symbol: "engine aid x = Inr a \<Longrightarrow> fa_symbol a = norm_symbol (fx_symbol x)"
begin

lemma evaluated_task:
  assumes "k \<in> set (evaluated engine ids rt symbol)" "norm_symbol symbol = symbol"
  shows "tk_symbol k = symbol" "task_fits rt (held_state rt symbol) k"
proof -
  obtain a where a: "plan_evaluation engine (fst ids) rt symbol = Inr (Some a)"
    "k = fusion_task_of (fst (snd ids)) (snd (snd ids)) rt symbol a"
    using assms(1) by (cases "plan_evaluation engine (fst ids) rt symbol"; cases "projr (plan_evaluation engine (fst ids) rt symbol)")
      (auto simp: evaluated_def)
  obtain x where "make_fusion_context (runtime_context rt symbol) = Inr x" "engine (fst ids) x = Inr a"
    using a(1) by (auto simp: plan_evaluation_def split: if_splits option.splits)
  moreover from this have "x = runtime_context rt symbol"
    by (auto simp: make_fusion_context_def Let_def split: if_splits)
  ultimately have "fa_symbol a = symbol"
    using engine_symbol assms(2) by (simp add: runtime_context_def)
  from fusion_task_fits [OF this] show "task_fits rt (held_state rt symbol) k" by (simp add: a(2))
  show "tk_symbol k = symbol" by (simp add: a(2) fusion_task_of_def Let_def split: prod.splits)
qed

lemma evaluated_length: "length (evaluated engine ids rt symbol) \<le> 1"
  by (simp add: evaluated_def split: sum.splits option.splits)

text \<open>A new evaluation of a symbol without one under way.\<close>

lemma chained_start:
  assumes "chained start y" "fr_latest rt' = fr_latest (sy_runtime y)" "fr_symbols rt' = fr_symbols (sy_runtime y)"
    and "started = [] \<or> (\<exists>symbol\<in>set (fr_symbols rt'). started = evaluated engine ids rt' symbol)"
    and "distinct (map tk_symbol (sy_tasks y @ started))"
  shows "chained start (y \<lparr> sy_runtime := rt', sy_tasks := sy_tasks y @ started \<rparr>)"
proof -
  have held: "held_state rt' s = held_state (sy_runtime y) s" for s using assms(2) by (simp add: held_state_def)
  have fits: "task_fits rt' = task_fits (sy_runtime y)" by (intro ext) (simp add: task_fits_def held)
  have new: "task_fits rt' (end_state (start (tk_symbol k)) (transitions_of (tk_symbol k) (sy_log y))) k"
    if k: "k \<in> set started" for k
  proof -
    obtain symbol where symbol: "symbol \<in> set (fr_symbols rt')" "k \<in> set (evaluated engine ids rt' symbol)"
      using assms(4) k by auto
    then have "norm_symbol symbol = symbol" using assms(1,3) by (simp add: chained_def)
    note task = evaluated_task [OF symbol(2) this]
    have "tk_symbol k \<notin> tk_symbol ` set (sy_tasks y)" using assms(5) k by auto
    then have "end_state (start symbol) (transitions_of symbol (sy_log y)) = held_state rt' symbol"
      using assms(1) task(1) by (simp add: chained_def held)
    with task show ?thesis by simp
  qed
  show ?thesis using assms(1,3,5) new by (auto simp: chained_def held fits)
qed

lemma calm_chained:
  assumes "calm_run engine y0 y" "sy_tasks y0 = []" "sy_log y0 = []"
    and "\<forall>s\<in>set (fr_symbols (sy_runtime y0)). norm_symbol s = s"
  shows "chained (held_state (sy_runtime y0)) y"
  using assms(1)
proof (induction rule: calm_run.induct)
  case calm_start
  show ?case using assms(2-4) by (simp add: chained_def transitions_of_def)
next
  case (calm_next y1 e y2)
  let ?start = "held_state (sy_runtime y0)"
  note ih = calm_next.IH
  from calm_next.hyps(2,3,4) show ?case
  proof (cases rule: fusion_step.cases)
    case (arrive ids source rt' started)
    have "\<exists>symbol. store_source source (sy_runtime y1) = (symbol, rt') \<and>
        (started = [] \<or> (\<exists>s\<in>set (fr_symbols rt'). started = evaluated engine ids rt' s))"
      using arrive(3) by (auto simp: handled_def split: prod.splits option.splits if_splits)
    with store_source_frame show ?thesis
      unfolding arrive(2) using calm_next.hyps(4) [unfolded arrive(2)]
      by (intro chained_start [OF ih]) auto
  next
    case (hydrate rt' symbol ids)
    then show ?thesis
      unfolding hydrate(2) using calm_next.hyps(4) [unfolded hydrate(2)]
      by (intro chained_start [OF ih]) auto
  next
    case (send before k after m rest)
    then show ?thesis using chained_send [OF ih send(3,4)] by simp
  next
    case (fail before k after)
    with calm_next.hyps(3) show ?thesis by simp
  next
    case (remember before k after)
    then show ?thesis using chained_remember [OF ih remember(3-5)] by simp
  qed
qed

end

end
