(* ===== verification/Fusion_Demo.thy ===== *)
theory Fusion_Demo
  imports Fusion_Chain Alert_Demo
begin

text \<open>
  Concrete inputs of one symbol, on which the witnesses evaluate the fusion engine, its process and the
  entry signal adapter.
\<close>

section \<open>Inputs\<close>

definition sample_digest :: "py_value \<Rightarrow> string" where
  "sample_digest payload = replicate 64 CHR ''a''"

definition sample_support :: support_assessment where
  "sample_support = \<lparr> su_assessment_id = sample_id 101, su_symbol = ''ACME'', su_occurred_at = sample_noon,
     su_engine_version = ''1.0.0'', su_state = SP_RETEST_CONFIRMED, su_confirmation_type = SC_BASE_BREAKOUT,
     su_current_price = 10, su_zone_low = Some 9, su_zone_center = Some 9, su_zone_high = Some 10,
     su_invalidation = Some 8, su_support_score = 80, su_reaction_score = 70, su_reversal_score = 70,
     su_confidence = 1, su_data_as_of = Some sample_noon, su_assessed_at = Some sample_noon,
     su_liquidity_sweep = False, su_higher_high = True, su_higher_low = True, su_b_wave_risk = False,
     su_zone_position = ZP_IN_ZONE, su_zone_distance_percent = Some 0, su_zone_distance_atr = Some 0,
     su_touch_count = 1, su_touch_age_sessions = Some 1, su_four_hour_reclaim = True,
     su_four_hour_higher_high = True, su_four_hour_higher_low = True, su_actionability_score = 80,
     su_support_sources = [], su_structural_supports = [], su_impulse_origin = None, su_impulse_origin_at = None,
     su_impulse_peak = None, su_impulse_advance_percent = None, su_reasons = [''r''], su_metrics = [],
     su_context_hash = ''sha256:'' @ replicate 64 CHR ''a'' \<rparr>"

definition sample_wave :: wave_assessment where
  "sample_wave = \<lparr> wv_assessment_id = sample_id 102, wv_symbol = ''ACME'', wv_occurred_at = sample_noon,
     wv_engine_version = ''1.0.0'', wv_primary_timeframe = TF_DAY_1, wv_phase = WP_WAVE_3_ACTIVE, wv_score = 80,
     wv_confidence = 1, wv_current_price = 10, wv_data_as_of = None, wv_assessed_at = None,
     wv_wave1_origin = Some 6, wv_wave1_peak = Some 9, wv_wave2_low = Some 8, wv_wave3_peak = None,
     wv_corrective_low = Some 8, wv_retracement = None, wv_entry_zone_low = Some 9, wv_entry_zone_high = Some 10,
     wv_trigger_price = Some 10, wv_invalidation = Some 8, wv_target_low = Some 16, wv_target_high = Some 18,
     wv_alternative_phase = None, wv_alternative_score = None, wv_reasons = [''r''], wv_violations = [],
     wv_metrics = [], wv_context_hash = ''sha256:'' @ replicate 64 CHR ''a'' \<rparr>"

definition sample_analyses :: "analysis_result list" where
  "sample_analyses =
     [sample_analysis 103 AH_LONG_TERM sample_noon 1 [], sample_analysis 104 AH_SWING sample_noon 1 [],
      sample_analysis 105 AH_INTRADAY sample_noon 1
        [(''confirmation_gate_passed'', VBool True), (''reference_price'', VDec 10), (''invalidation_level'', VDec 8)]]"

definition sample_fusion :: fusion_context where
  "sample_fusion = \<lparr> fx_symbol = ''ACME'', fx_support = Some sample_support, fx_wave = Some sample_wave,
     fx_analyses = sample_analyses, fx_patreon = None, fx_holding_quantity = 5 \<rparr>"

abbreviation sample_fusion_engine :: "uuid \<Rightarrow> fusion_context \<Rightarrow> fusion_assessment result" where
  "sample_fusion_engine \<equiv> evaluate_fusion_v05 sample_codec sample_digest"

lemma sample_inputs: "fusion_inputs_ok sample_fusion"
  by code_simp

lemma sample_confirmed_buy:
  "case sample_fusion_engine (sample_id 110) sample_fusion of
     Inr a \<Rightarrow> fa_state a = FU_BUY_CONFIRMED | Inl _ \<Rightarrow> False"
  by code_simp

lemma sample_ratio:
  "fusion_price (fusion_analysis sample_fusion AH_INTRADAY) (fx_support sample_fusion) (fx_wave sample_fusion) = Inr 10"
  "fd_ratio (decide_fusion sample_fusion 10) = Some 3"
  by code_simp+

lemma sample_fusion_ids: "is_uuid7 (sample_id 110)" "sha256_ref (fusion_hash sample_codec sample_digest sample_fusion)"
  using sample_hash by (code_simp, simp add: fusion_hash_def sample_digest_def)

section \<open>The process\<close>

definition sample_fusion_start :: fusion_runtime where
  "sample_fusion_start = make_fusion_runtime [''acme''] [(''ACME'', 5)] \<lparr> fr_hydrating := False \<rparr>"

definition sample_first :: "fusion_runtime \<times> fusion_task list" where
  "sample_first = handled sample_fusion_engine (sample_id 111, sample_id 112, sample_id 113)
     (Source_Support sample_support) sample_fusion_start"

definition sample_second :: "fusion_runtime \<times> fusion_task list" where
  "sample_second = handled sample_fusion_engine (sample_id 114, sample_id 115, sample_id 116)
     (Source_Wave sample_wave) (fst sample_first)"

definition lone_transition :: "fusion_runtime \<times> fusion_task list \<Rightarrow> bool" where
  "lone_transition outcome =
     (case snd outcome of
        [k] \<Rightarrow> tk_symbol k = ''ACME'' \<and> (case tk_error k of None \<Rightarrow> True | Some e \<Rightarrow> False) \<and>
          length (transitions_in (tk_pending k)) = 1
      | _ \<Rightarrow> False)"

lemma sample_overlap: "lone_transition sample_first" "lone_transition sample_second"
  by code_simp+

lemma lone_transition_elim:
  assumes "lone_transition outcome"
  obtains rt k t where "outcome = (rt, [k])" "tk_symbol k = ''ACME''" "tk_error k = None" "transitions_in (tk_pending k) = [t]"
  using assms
  by (cases outcome) (auto simp: lone_transition_def length_Suc_conv split: list.splits option.splits)

lemma lone_transition_distinct: "lone_transition outcome \<Longrightarrow> distinct (map tk_symbol (snd outcome))"
  by (elim lone_transition_elim) simp

end
