(* ===== verification/Fusion_Properties.thy ===== *)
theory Fusion_Properties
  imports Fusion_Demo
begin

text \<open>
  The guarantees of signal fusion: the engine's output is always accepted by its contract, what a
  confirmation rests on, how far the later versions may move a score, and the transitions the process
  publishes, with and without overlapping evaluations.
\<close>

section \<open>The engines as implementations of the interface\<close>

lemma evaluate_symbol: "evaluate_fusion c digest aid x = Inr a \<Longrightarrow> fa_symbol a = norm_symbol (fx_symbol x)"
  by (elim evaluate_cases) (simp add: stripped_fusion_def fusion_draft_def)

lemma rescoring_keeps:
  assumes "rescoring l u b a"
  shows "fa_symbol a = fa_symbol b" "fa_state a = fa_state b" "fa_entry_price a = fa_entry_price b"
    "fa_invalidation a = fa_invalidation b" "fa_target_price a = fa_target_price b"
proof -
  obtain v s q r where "a = b \<lparr> fa_engine_version := v, fa_score := s, fa_confidence := q, fa_reasons := r \<rparr>"
    using assms unfolding rescoring_def by blast
  then show "fa_symbol a = fa_symbol b" "fa_state a = fa_state b" "fa_entry_price a = fa_entry_price b"
    "fa_invalidation a = fa_invalidation b" "fa_target_price a = fa_target_price b" by simp_all
qed

interpretation fusion_v03: fusion_engine "evaluate_fusion c digest" for c digest
  by unfold_locales (rule evaluate_symbol)

interpretation fusion_v04: fusion_engine "evaluate_fusion_v04 c digest" for c digest
  by unfold_locales (metis evaluate_v04_rescores evaluate_symbol rescoring_keeps(1))

interpretation fusion_v05: fusion_engine "evaluate_fusion_v05 c digest" for c digest
  by unfold_locales (metis evaluate_v05_rescores evaluate_symbol rescoring_keeps(1))

section \<open>The decision\<close>

text \<open>No contract keeps the reference price of an intraday analysis positive; without it the evaluation raises.\<close>

lemma nonpositive_price_raises:
  assumes "fusion_price (fusion_analysis x AH_INTRADAY) (fx_support x) (fx_wave x) = Inr current" "current \<le> 0"
  shows "\<not> is_ok (evaluate_fusion_v05 c digest aid x)"
proof -
  have "\<not> fusion_fields (fusion_draft c digest aid x current g d rounded confidence ratio)" for g d rounded confidence ratio
    using assms(2) by (simp add: fusion_fields_def fusion_draft_def)
  then have "\<not> is_ok (evaluate_fusion c digest aid x)"
    by (auto simp: evaluate_fusion_def assms(1) Let_def make_fusion_def is_ok_iff bind_result_Inr)
  then show ?thesis by (auto simp: is_ok_iff elim: evaluate_v05_rescores)
qed





text \<open>C37: A confirmed entry is actionable: whichever confirmation version 0.5 gives, the entry lies strictly
  between a positive invalidation and the target at twice the risk or more, the symbol is held, no dilution
  veto and no invalidated source stands against it, and an executed bullish intraday analysis is among its
  inputs. A full buy has a confirmed support, a bullish long-term trend, a timing signal and at least 77
  points; a recovery has a support zone with a reaction, a wave trigger and at least 42.
\<close>

theorem confirmed_entry_is_actionable:
  assumes "fusion_inputs_ok x" "evaluate_fusion_v05 c digest aid x = Inr a"
    and "fa_state a \<in> {FU_BUY_CONFIRMED, FU_RECOVERY_CONFIRMED}"
  shows "(\<exists>entry low high. fa_entry_price a = Some entry \<and> fa_invalidation a = Some low \<and> fa_target_price a = Some high \<and>
      0 < low \<and> low < entry \<and> entry < high \<and> 2 \<le> ddiv (dsub high entry) (dsub entry low) \<and>
      (if fa_state a = FU_BUY_CONFIRMED
       then support_gate (fx_support x) \<and> bullish_gate (fusion_analysis x AH_LONG_TERM) 65 \<and>
         (bullish_gate (fusion_analysis x AH_SWING) 60 \<or> wave_gate (fx_wave x) entry) \<and> 77 \<le> fa_score a
       else support_reaction_gate (fx_support x) \<and> wave_gate (fx_wave x) entry \<and> 42 \<le> fa_score a)) \<and>
    0 < fx_holding_quantity x \<and> dilution_gate (fusion_analysis x AH_DILUTION) \<and> \<not> fusion_invalidated x \<and>
    execution_gate (fusion_analysis x AH_INTRADAY)"
proof -
  obtain b where b: "evaluate_fusion c digest aid x = Inr b" and r: "rescoring (- 8) 16 b a"
    by (rule evaluate_v05_rescores [OF assms(2)])
  obtain current score confidence ratio where eval:
    "quantize 4 (fusion_score (fx_support x) (fusion_gates_of x current) (fusion_analysis x AH_DILUTION \<noteq> None)
       (ratio_gate (fd_ratio (decide_fusion x current)))) = Inr score"
    "b = stripped_fusion (fusion_draft c digest aid x current (fusion_gates_of x current) (decide_fusion x current)
       score confidence ratio)"
    using evaluate_cases [OF b] by metis
  let ?g = "fusion_gates_of x current" and ?d = "decide_fusion x current"
  have fields: "fa_state a = fd_state ?d" "fa_score b = score" "fa_invalidation a = fd_invalidation ?d"
    "fa_target_price a = fd_target ?d"
    "fa_entry_price a = (if fd_invalidation ?d \<noteq> None \<and> fd_target ?d \<noteq> None then Some current else None)"
    by (simp_all add: rescoring_keeps [OF r] eval(2) stripped_fusion_def fusion_draft_def)
  have lower: "fa_score b - 8 \<le> fa_score a" using r by (simp add: rescoring_def)
  have gates: "ratio_gate (fd_ratio ?d) \<and> fg_portfolio ?g \<and> fg_dilution ?g \<and> fg_execution ?g \<and> \<not> fusion_invalidated x"
    using assms(3) decision_buy [of x current] decision_recovered [of x current]
    by (auto simp: fields(1) all_gates_def recovery_gate_def)
  obtain low high q where levels: "fd_invalidation ?d = Some low" "fd_target ?d = Some high" "fd_ratio ?d = Some q"
    "0 < low" "low < current" "current < high" "2 \<le> q"
    using gates by (blast elim: ratio_gate_levels)
  have ratio: "2 \<le> ddiv (dsub high current) (dsub current low)"
    using levels decision_ratio [of x current] by (simp add: fusion_reward_risk_def)
  have reversal: "0 \<le> su_reversal_score s" if "fx_support x = Some s" for s
    using assms(1) that make_support_facts(3) [of s] by (simp add: fusion_inputs_ok_def)
  have "if fa_state a = FU_BUY_CONFIRMED
     then support_gate (fx_support x) \<and> bullish_gate (fusion_analysis x AH_LONG_TERM) 65 \<and>
       (bullish_gate (fusion_analysis x AH_SWING) 60 \<or> wave_gate (fx_wave x) current) \<and> 77 \<le> fa_score a
     else support_reaction_gate (fx_support x) \<and> wave_gate (fx_wave x) current \<and> 42 \<le> fa_score a"
  proof (cases "fa_state a = FU_BUY_CONFIRMED")
    case True
    with decision_buy(1) [of x current] have all: "all_gates ?g (ratio_gate (fd_ratio ?d))" by (simp add: fields(1))
    have "85 \<le> score" using quantize_int_bounds(1) [OF eval(1), of 85] buy_score [OF all] by simp
    with True all lower show ?thesis by (simp add: all_gates_def fg_timing_def fusion_gates_of_def fields(2))
  next
    case False
    with assms(3) decision_recovered(1,4) [of x current]
    have all: "recovery_gate ?g (ratio_gate (fd_ratio ?d))" "fx_support x \<noteq> None"
      by (simp_all add: fields(1) missing_sources_Nil)
    have "50 \<le> score" using quantize_int_bounds(1) [OF eval(1), of 50] recovery_score [OF all(1) reversal all(2)] by simp
    with False all lower show ?thesis by (simp add: recovery_gate_def fusion_gates_of_def fields(2))
  qed
  with levels ratio have "\<exists>entry low high. fa_entry_price a = Some entry \<and> fa_invalidation a = Some low \<and>
      fa_target_price a = Some high \<and> 0 < low \<and> low < entry \<and> entry < high \<and> 2 \<le> ddiv (dsub high entry) (dsub entry low) \<and>
      (if fa_state a = FU_BUY_CONFIRMED
       then support_gate (fx_support x) \<and> bullish_gate (fusion_analysis x AH_LONG_TERM) 65 \<and>
         (bullish_gate (fusion_analysis x AH_SWING) 60 \<or> wave_gate (fx_wave x) entry) \<and> 77 \<le> fa_score a
       else support_reaction_gate (fx_support x) \<and> wave_gate (fx_wave x) entry \<and> 42 \<le> fa_score a)"
    by (intro exI [of _ current] exI [of _ low] exI [of _ high]) (simp add: fields(3-5))
  with gates show ?thesis by (simp add: fusion_gates_of_def)
qed

theorem confirmed_entry_is_actionable_witness:
  "support_gate (fx_support sample_fusion) \<and> bullish_gate (fusion_analysis sample_fusion AH_LONG_TERM) 65 \<and>
   execution_gate (fusion_analysis sample_fusion AH_INTRADAY)"
proof -
  obtain a where "evaluate_fusion_v05 sample_codec sample_digest (sample_id 110) sample_fusion = Inr a" "fa_state a = FU_BUY_CONFIRMED"
    using sample_confirmed_buy by (auto split: sum.splits)
  with confirmed_entry_is_actionable [OF sample_inputs this(1)] show ?thesis by auto
qed

section \<open>The process\<close>

text \<open>C35: While the evaluations of a symbol do not overlap and no publication fails, the transitions published
  for it, in any interleaving with the other symbols, form a chain: each names the state before it, changes
  it, and the first continues the state the process started with; once nothing is under way the remembered
  assessment has the state of the last one.
\<close>

theorem transitions_chain:
  assumes "calm_run (evaluate_fusion_v05 c digest) y0 y" "sy_tasks y0 = []" "sy_log y0 = []"
    and "fr_symbols (sy_runtime y0) = fr_symbols (make_fusion_runtime symbols quantities)"
  shows "linked (held_state (sy_runtime y0) s) (transitions_of s (sy_log y)) \<and>
    (sy_tasks y = [] \<longrightarrow>
       held_state (sy_runtime y) s = end_state (held_state (sy_runtime y0) s) (transitions_of s (sy_log y)))"
proof -
  have "\<forall>s\<in>set (fr_symbols (sy_runtime y0)). norm_symbol s = s" by (simp add: assms(4) make_fusion_runtime_def)
  from fusion_v05.calm_chained [OF assms(1-3) this] show ?thesis by (simp add: chained_def)
qed

theorem transitions_chain_witness:
  "linked (held_state sample_fusion_start ''ACME'') (transitions_of ''ACME'' (sy_log \<lparr> sy_runtime = fst sample_first,
     sy_tasks = snd sample_first, sy_log = [] \<rparr>))"
proof -
  let ?start = "\<lparr> sy_runtime = sample_fusion_start, sy_tasks = [], sy_log = [] \<rparr>"
  let ?y = "\<lparr> sy_runtime = fst sample_first, sy_tasks = snd sample_first, sy_log = [] \<rparr>"
  have "fusion_step sample_fusion_engine Arrived ?start ?y"
    using fusion_step.arrive [of sample_fusion_engine "(sample_id 111, sample_id 112, sample_id 113)"
        "Source_Support sample_support" ?start "fst sample_first" "snd sample_first"]
    by (simp flip: sample_first_def)
  moreover have "distinct (map tk_symbol (sy_tasks ?y))" using lone_transition_distinct [OF sample_overlap(1)] by simp
  ultimately have "calm_run sample_fusion_engine ?start ?y" by (intro calm_next [OF calm_start, where e = Arrived]) simp_all
  from transitions_chain [OF this, of "[''acme'']" "[(''ACME'', 5)]" "''ACME''"] show ?thesis
    by (simp add: sample_fusion_start_def)
qed

definition succeeds ::
  "(uuid \<Rightarrow> fusion_context \<Rightarrow> fusion_assessment result) \<Rightarrow> fusion_system \<Rightarrow> fusion_system \<Rightarrow> bool" where
  "succeeds engine y y' \<longleftrightarrow> (\<exists>e. e \<noteq> Failed \<and> fusion_step engine e y y')"

lemma drain_task:
  assumes "sy_tasks y = k # rest" "tk_error k = None"
  shows "(succeeds engine)\<^sup>*\<^sup>* y (y \<lparr> sy_runtime := remember_latest k (sy_runtime y), sy_tasks := rest,
    sy_log := sy_log y @ tk_pending k \<rparr>)"
  using assms
proof (induction "tk_pending k" arbitrary: y k)
  case Nil
  have "fusion_step engine Remembered y (y \<lparr> sy_runtime := remember_latest k (sy_runtime y), sy_tasks := [] @ rest \<rparr>)"
    using Nil by (intro fusion_step.remember) simp_all
  moreover have "y \<lparr> sy_runtime := remember_latest k (sy_runtime y), sy_tasks := [] @ rest \<rparr> =
      y \<lparr> sy_runtime := remember_latest k (sy_runtime y), sy_tasks := rest, sy_log := sy_log y @ tk_pending k \<rparr>"
    using Nil.hyps by (cases y) simp
  ultimately show ?case by (intro r_into_rtranclp) (auto simp: succeeds_def)
next
  case (Cons m ms)
  let ?k = "k \<lparr> tk_pending := ms \<rparr>"
  let ?y = "y \<lparr> sy_tasks := [] @ ?k # rest, sy_log := sy_log y @ [m] \<rparr>"
  have "fusion_step engine Sent y ?y"
    using Cons.prems Cons.hyps(2) [symmetric] by (intro fusion_step.send) simp_all
  then have first: "succeeds engine y ?y" by (auto simp: succeeds_def)
  have "(succeeds engine)\<^sup>*\<^sup>* ?y (?y \<lparr> sy_runtime := remember_latest ?k (sy_runtime ?y), sy_tasks := rest,
      sy_log := sy_log ?y @ tk_pending ?k \<rparr>)"
    using Cons.prems by (intro Cons.hyps(1)) simp_all
  moreover have "?y \<lparr> sy_runtime := remember_latest ?k (sy_runtime ?y), sy_tasks := rest, sy_log := sy_log ?y @ tk_pending ?k \<rparr>
      = y \<lparr> sy_runtime := remember_latest k (sy_runtime y), sy_tasks := rest, sy_log := sy_log y @ tk_pending k \<rparr>"
    by (cases y) (simp add: remember_latest_def flip: Cons.hyps(2))
  ultimately show ?case using first by (simp add: converse_rtranclp_into_rtranclp)
qed

lemma handled_task:
  assumes "handled (evaluate_fusion_v05 c digest) ids source rt = (rt', [k])" "\<forall>s\<in>set (fr_symbols rt). norm_symbol s = s"
    and "transitions_in (tk_pending k) = [t]"
  shows "ft_symbol t = tk_symbol k" "ft_previous_state t = held_state rt (tk_symbol k)" "fr_symbols rt' = fr_symbols rt"
    "held_state rt' = held_state rt"
proof -
  obtain s where s: "store_source source rt = (Some s, rt')" "s \<in> set (fr_symbols rt')"
    "evaluated (evaluate_fusion_v05 c digest) ids rt' s = [k]"
    using assms(1) by (auto simp: handled_def split: prod.splits option.splits if_splits)
  note frame = store_source_frame [OF s(1)]
  show same: "fr_symbols rt' = fr_symbols rt" "held_state rt' = held_state rt"
    using frame by (simp_all add: held_state_def fun_eq_iff)
  have "norm_symbol s = s" using assms(2) s(2) same(1) by simp
  from fusion_v05.evaluated_task [of k c digest ids rt' s, OF _ this] s(3)
  have "tk_symbol k = s" "task_fits rt' (held_state rt' s) k" by simp_all
  then show "ft_symbol t = tk_symbol k" "ft_previous_state t = held_state rt (tk_symbol k)"
    using assms(3) by (auto simp: task_fits_def same(2))
qed

text \<open>C36: When a second input of a symbol arrives before the evaluation of the first has finished its
  publications, and both evaluations change the state, the process publishes two transitions from the same
  previous state, without any failure: the chain is broken.
\<close>

theorem overlap_breaks_chain:
  assumes "handled (evaluate_fusion_v05 c digest) ids source rt = (rt1, [k1])"
    and "handled (evaluate_fusion_v05 c digest) ids' source' rt1 = (rt2, [k2])"
    and "tk_symbol k1 = s" "tk_symbol k2 = s" "tk_error k1 = None" "tk_error k2 = None"
    and "transitions_in (tk_pending k1) = [t1]" "transitions_in (tk_pending k2) = [t2]"
    and "\<forall>s\<in>set (fr_symbols rt). norm_symbol s = s"
  shows "\<exists>y. (succeeds (evaluate_fusion_v05 c digest))\<^sup>*\<^sup>* \<lparr> sy_runtime = rt, sy_tasks = [], sy_log = [] \<rparr> y \<and> sy_tasks y = [] \<and>
    transitions_of s (sy_log y) = [t1, t2] \<and> ft_previous_state t2 = ft_previous_state t1 \<and>
    \<not> linked (held_state rt s) (transitions_of s (sy_log y))"
proof -
  let ?engine = "evaluate_fusion_v05 c digest"
  let ?y0 = "\<lparr> sy_runtime = rt, sy_tasks = [], sy_log = [] \<rparr>"
  note one = handled_task [OF assms(1,9,7)]
  have "\<forall>s\<in>set (fr_symbols rt1). norm_symbol s = s" using assms(9) one(3) by simp
  note two = handled_task [OF assms(2) this assms(8)]
  let ?y1 = "\<lparr> sy_runtime = rt1, sy_tasks = [k1], sy_log = [] \<rparr>"
  let ?y2 = "\<lparr> sy_runtime = rt2, sy_tasks = [k1, k2], sy_log = [] \<rparr>"
  let ?y3 = "\<lparr> sy_runtime = remember_latest k1 rt2, sy_tasks = [k2], sy_log = tk_pending k1 \<rparr>"
  let ?y4 = "\<lparr> sy_runtime = remember_latest k2 (remember_latest k1 rt2), sy_tasks = [], sy_log = tk_pending k1 @ tk_pending k2 \<rparr>"
  have "fusion_step ?engine Arrived ?y0 ?y1" using fusion_step.arrive [of ?engine ids source ?y0 rt1 "[k1]"] assms(1) by simp
  moreover have "fusion_step ?engine Arrived ?y1 ?y2"
    using fusion_step.arrive [of ?engine ids' source' ?y1 rt2 "[k2]"] assms(2) by simp
  ultimately have "succeeds ?engine ?y0 ?y1" "succeeds ?engine ?y1 ?y2" by (auto simp: succeeds_def)
  then have "(succeeds ?engine)\<^sup>*\<^sup>* ?y0 ?y2" by simp
  also have "(succeeds ?engine)\<^sup>*\<^sup>* ?y2 ?y3" using drain_task [of ?y2 k1 "[k2]" ?engine] assms(5) by simp
  also have "(succeeds ?engine)\<^sup>*\<^sup>* ?y3 ?y4" using drain_task [of ?y3 k2 "[]" ?engine] assms(6) by simp
  finally have run: "(succeeds ?engine)\<^sup>*\<^sup>* ?y0 ?y4" .
  have log: "transitions_of s (sy_log ?y4) = [t1, t2]"
    using one(1) two(1) assms(3,4,7,8) by (simp add: transitions_of_def)
  have previous: "ft_previous_state t2 = ft_previous_state t1" "ft_previous_state t1 = held_state rt s"
    using one two assms(3,4) by simp_all
  have "held_state rt s \<noteq> Some (ft_state t1)"
    if "linked (held_state rt s) [t1, t2]" using that by simp
  then have "\<not> linked (held_state rt s) (transitions_of s (sy_log ?y4))" using previous unfolding log by auto
  with run log previous(1) show ?thesis by (intro exI [of _ ?y4]) simp
qed

theorem overlap_breaks_chain_witness:
  "\<exists>y t1 t2. (succeeds (evaluate_fusion_v05 sample_codec sample_digest))\<^sup>*\<^sup>*
       \<lparr> sy_runtime = sample_fusion_start, sy_tasks = [], sy_log = [] \<rparr> y \<and> sy_tasks y = [] \<and>
     transitions_of ''ACME'' (sy_log y) = [t1, t2] \<and> ft_previous_state t2 = ft_previous_state t1"
proof -
  obtain rt1 k1 t1 where one: "sample_first = (rt1, [k1])" "tk_symbol k1 = ''ACME''" "tk_error k1 = None"
    "transitions_in (tk_pending k1) = [t1]"
    using sample_overlap(1) by (elim lone_transition_elim)
  obtain rt2 k2 t2 where two: "sample_second = (rt2, [k2])" "tk_symbol k2 = ''ACME''" "tk_error k2 = None"
    "transitions_in (tk_pending k2) = [t2]"
    using sample_overlap(2) by (elim lone_transition_elim)
  have "norm_symbol ''ACME'' = ''ACME''" "fr_symbols sample_fusion_start = [''ACME'']" by code_simp+
  then have "\<forall>s\<in>set (fr_symbols sample_fusion_start). norm_symbol s = s" by simp
  from overlap_breaks_chain [OF one(1) [unfolded sample_first_def] two(1) [unfolded sample_second_def one(1) fst_conv]
      one(2) two(2) one(3) two(3) one(4) two(4) this]
  show ?thesis by blast
qed

end
