(* ===== verification/Opportunity_Contracts.thy ===== *)
theory Opportunity_Contracts
  imports Watch_Contracts Fusion_Contracts
begin

text \<open>
  The contracts of the paper opportunity lifecycle (app/contracts/entry_opportunity.py): maturity
  checkpoints, horizon legs, source cursors, signal references, the opportunity and its event, with their
  validators, and the enumerations they use (enums.py).
\<close>

section \<open>Enumerations\<close>

datatype leg_status =
    LS_WATCHING | LS_OPEN | LS_TARGET_HIT | LS_INVALIDATED | LS_SESSION_CLOSED | LS_THESIS_BROKEN
  | LS_EXPIRED | LS_TIME_EXIT | LS_PROTECTION_EXIT | LS_RECOVERY_FAILED

primrec leg_status_value :: "leg_status \<Rightarrow> string" where
  "leg_status_value LS_WATCHING = ''WATCHING''"
| "leg_status_value LS_OPEN = ''OPEN''"
| "leg_status_value LS_TARGET_HIT = ''TARGET_HIT''"
| "leg_status_value LS_INVALIDATED = ''INVALIDATED''"
| "leg_status_value LS_SESSION_CLOSED = ''SESSION_CLOSED''"
| "leg_status_value LS_THESIS_BROKEN = ''THESIS_BROKEN''"
| "leg_status_value LS_EXPIRED = ''EXPIRED''"
| "leg_status_value LS_TIME_EXIT = ''TIME_EXIT''"
| "leg_status_value LS_PROTECTION_EXIT = ''PROTECTION_EXIT''"
| "leg_status_value LS_RECOVERY_FAILED = ''RECOVERY_FAILED''"

definition leg_status_members :: "leg_status list" where
  "leg_status_members =
     [LS_WATCHING, LS_OPEN, LS_TARGET_HIT, LS_INVALIDATED, LS_SESSION_CLOSED, LS_THESIS_BROKEN,
      LS_EXPIRED, LS_TIME_EXIT, LS_PROTECTION_EXIT, LS_RECOVERY_FAILED]"

interpretation leg_status_enum: string_enum leg_status_members leg_status_value
proof unfold_locales
  show "m \<in> set leg_status_members" for m by (cases m) (simp_all add: leg_status_members_def)
qed (simp add: leg_status_members_def)

datatype checkpoint_status =
    CS_OPEN | CS_CLOSED

primrec checkpoint_status_value :: "checkpoint_status \<Rightarrow> string" where
  "checkpoint_status_value CS_OPEN = ''OPEN''"
| "checkpoint_status_value CS_CLOSED = ''CLOSED''"

definition checkpoint_status_members :: "checkpoint_status list" where
  "checkpoint_status_members =
     [CS_OPEN, CS_CLOSED]"

interpretation checkpoint_status_enum: string_enum checkpoint_status_members checkpoint_status_value
proof unfold_locales
  show "m \<in> set checkpoint_status_members" for m by (cases m) (simp_all add: checkpoint_status_members_def)
qed (simp add: checkpoint_status_members_def)

datatype close_reason =
    CR_POLICY_INELIGIBLE | CR_ORIGINAL_THESIS_INVALIDATED | CR_SWEEP_RECLAIM_CANCELLED
  | CR_EXPIRED | CR_UNIVERSE_REMOVED | CR_ALL_HORIZONS_CLOSED

primrec close_reason_value :: "close_reason \<Rightarrow> string" where
  "close_reason_value CR_POLICY_INELIGIBLE = ''POLICY_INELIGIBLE''"
| "close_reason_value CR_ORIGINAL_THESIS_INVALIDATED = ''ORIGINAL_THESIS_INVALIDATED''"
| "close_reason_value CR_SWEEP_RECLAIM_CANCELLED = ''SWEEP_RECLAIM_CANCELLED''"
| "close_reason_value CR_EXPIRED = ''EXPIRED''"
| "close_reason_value CR_UNIVERSE_REMOVED = ''UNIVERSE_REMOVED''"
| "close_reason_value CR_ALL_HORIZONS_CLOSED = ''ALL_HORIZONS_CLOSED''"

definition close_reason_members :: "close_reason list" where
  "close_reason_members =
     [CR_POLICY_INELIGIBLE, CR_ORIGINAL_THESIS_INVALIDATED, CR_SWEEP_RECLAIM_CANCELLED,
      CR_EXPIRED, CR_UNIVERSE_REMOVED, CR_ALL_HORIZONS_CLOSED]"

interpretation close_reason_enum: string_enum close_reason_members close_reason_value
proof unfold_locales
  show "m \<in> set close_reason_members" for m by (cases m) (simp_all add: close_reason_members_def)
qed (simp add: close_reason_members_def)

section \<open>Checkpoints\<close>

record recovery_exit_state =
  rx_rule_version :: string
  rx_analysis_id :: uuid
  rx_evidence_at :: instant
  rx_pivot_at :: instant
  rx_avwap :: rat
  rx_breakout_level :: rat
  rx_rebound_low :: rat
  rx_reaction_low :: rat
  rx_bucket_at :: "instant option"
  rx_last_bar_at :: "instant option"
  rx_bar_count :: int
  rx_previous_failed_close :: "rat option"
  rx_previous_failed_bucket :: "instant option"
  rx_pending_exit_at :: "instant option"

definition recovery_exit_fields :: "recovery_exit_state \<Rightarrow> bool" where
  "recovery_exit_fields x \<longleftrightarrow> semver (rx_rule_version x) \<and> 0 < rx_avwap x \<and> 0 < rx_breakout_level x
     \<and> 0 < rx_rebound_low x \<and> 0 < rx_reaction_low x \<and> 0 \<le> rx_bar_count x \<and> rx_bar_count x \<le> 15
     \<and> positive (rx_previous_failed_close x)"

definition make_recovery_exit :: "recovery_exit_state \<Rightarrow> recovery_exit_state result" where
  "make_recovery_exit x =
     (if \<not> recovery_exit_fields x then Inl (ValidationError ''RecoveryExitState'')
      else if uuid_version (rx_analysis_id x) \<noteq> Some 7
      then Inl (ValueError ''recovery evidence requires UUIDv7 analysis_id'')
      else if rx_evidence_at x < rx_pivot_at x
      then Inl (ValueError ''recovery pivot must precede its timezone-aware evidence'')
      else if (rx_previous_failed_close x = None) \<noteq> (rx_previous_failed_bucket x = None)
      then Inl (ValueError ''failed close requires its completed bucket timestamp'')
      else if \<not> opt_all (\<lambda>exit_at. (\<exists>last\<in>set_option (rx_last_bar_at x). last < exit_at) \<and>
            rx_previous_failed_close x \<noteq> None \<and> rx_bar_count x = 15) (rx_pending_exit_at x)
      then Inl (ValueError ''pending recovery exit requires a completed confirmation'')
      else Inr x)"

record maturity_checkpoint =
  cp_checkpoint_id :: uuid
  cp_trade_side :: trade_side
  cp_level :: entry_maturity
  cp_swing_trade_maturity :: "swing_trade_maturity option"
  cp_countertrend_maturity :: "countertrend_maturity option"
  cp_signal_family :: signal_family
  cp_setup_id :: "string option"
  cp_reached_at :: instant
  cp_entry_price :: rat
  cp_current_price :: rat
  cp_highest_price :: rat
  cp_lowest_price :: rat
  cp_invalidation :: rat
  cp_target :: "rat option"
  cp_zone_low :: "rat option"
  cp_zone_high :: "rat option"
  cp_retested_at :: "instant option"
  cp_retest_low :: "rat option"
  cp_status :: checkpoint_status
  cp_closed_at :: "instant option"
  cp_exit_price :: "rat option"
  cp_outcome :: "leg_status option"
  cp_gain_loss :: "rat option"
  cp_mfe :: rat
  cp_mae :: rat
  cp_return_15m :: "rat option"
  cp_return_30m :: "rat option"
  cp_return_60m :: "rat option"
  cp_return_close :: "rat option"
  cp_protection_stop :: "rat option"
  cp_protection_updated_at :: "instant option"
  cp_protection_rule_version :: "string option"
  cp_entry_analyses :: "analysis_result list"
  cp_recovery_exit :: "recovery_exit_state option"

definition checkpoint_fields :: "maturity_checkpoint \<Rightarrow> bool" where
  "checkpoint_fields c \<longleftrightarrow> opt_all non_empty_str (cp_setup_id c) \<and> 0 < cp_entry_price c \<and> 0 < cp_current_price c
     \<and> 0 < cp_highest_price c \<and> 0 < cp_lowest_price c \<and> 0 < cp_invalidation c \<and> positive (cp_target c)
     \<and> positive (cp_zone_low c) \<and> positive (cp_zone_high c) \<and> positive (cp_retest_low c)
     \<and> positive (cp_exit_price c) \<and> positive (cp_protection_stop c)
     \<and> opt_all semver (cp_protection_rule_version c)"

text \<open>\<open>any(... is not None) and any(... is None)\<close> of the three protection fields.\<close>

definition protection_partial :: "rat option \<Rightarrow> instant option \<Rightarrow> string option \<Rightarrow> bool" where
  "protection_partial stop updated version \<longleftrightarrow>
     (stop \<noteq> None \<or> updated \<noteq> None \<or> version \<noteq> None) \<and> (stop = None \<or> updated = None \<or> version = None)"

definition checkpoint_zone_error :: "maturity_checkpoint \<Rightarrow> py_error option" where
  "checkpoint_zone_error c =
     (case (cp_zone_low c, cp_zone_high c) of
        (Some low, Some high) \<Rightarrow>
          if cp_trade_side c = TS_SHORT
          then if \<not> (low \<le> high \<and> high < cp_invalidation c)
               then Some (ValueError ''short checkpoint stop must sit above zone'') else None
          else if cp_signal_family c = SF_SWING_TRADE
          then if high < low then Some (ValueError ''SwingTrade checkpoint zone levels are out of order'')
               else if cp_entry_price c \<le> cp_invalidation c
               then Some (ValueError ''SwingTrade checkpoint entry must sit above invalidation'')
               else None
          else if \<not> (cp_invalidation c < low \<and> low \<le> high)
          then Some (ValueError ''checkpoint zone must sit above invalidation'')
          else None
      | _ \<Rightarrow> None)"

definition make_checkpoint :: "maturity_checkpoint \<Rightarrow> maturity_checkpoint result" where
  "make_checkpoint c =
     (if \<not> checkpoint_fields c then Inl (ValidationError ''EntryMaturityCheckpoint'')
      else if cp_recovery_exit c \<noteq> None \<and> (cp_signal_family c \<noteq> SF_CORE_RECOVERY \<or> cp_trade_side c \<noteq> TS_LONG \<or>
             cp_level c \<notin> {EM_L1, EM_L2, EM_L3, EM_L4})
      then Inl (ValueError ''recovery exit state belongs only to confirmed Core Recovery buys'')
      else if protection_partial (cp_protection_stop c) (cp_protection_updated_at c) (cp_protection_rule_version c)
      then Inl (ValueError ''protection requires stop, evidence timestamp and rule version'')
      else if uuid_version (cp_checkpoint_id c) \<noteq> Some 7 then Inl (ValueError ''checkpoint_id must be UUIDv7'')
      else if (cp_status c = CS_CLOSED) \<noteq> (cp_closed_at c \<noteq> None \<and> cp_exit_price c \<noteq> None)
      then Inl (ValueError ''closed checkpoint requires closed_at and exit_price'')
      else if (cp_status c = CS_CLOSED) \<noteq> (cp_outcome c \<noteq> None \<and> cp_gain_loss c \<noteq> None)
      then Inl (ValueError ''closed checkpoint requires outcome and gain/loss'')
      else if cp_highest_price c < cp_lowest_price c
      then Inl (ValueError ''checkpoint price extrema are inverted'')
      else if (cp_zone_low c = None) \<noteq> (cp_zone_high c = None)
      then Inl (ValueError ''checkpoint zone requires both low and high'')
      else case checkpoint_zone_error c of Some e \<Rightarrow> Inl e
      | None \<Rightarrow>
          if (cp_retested_at c = None) \<noteq> (cp_retest_low c = None)
          then Inl (ValueError ''checkpoint retest requires timestamp and low'')
          else if cp_signal_family c = SF_GERI_COUNTERTREND
          then if cp_countertrend_maturity c = None \<or> cp_swing_trade_maturity c \<noteq> None
               then Inl (ValueError ''GERI countertrend checkpoints require only CT maturity'')
               else Inr (c \<lparr> cp_setup_id := map_option strip (cp_setup_id c) \<rparr>)
          else if cp_countertrend_maturity c \<noteq> None
          then Inl (ValueError ''only GERI countertrend checkpoints use CT maturity'')
          else Inr (c \<lparr> cp_setup_id := map_option strip (cp_setup_id c) \<rparr>))"

section \<open>Legs\<close>

record horizon_leg =
  hl_leg_id :: uuid
  hl_trade_side :: trade_side
  hl_horizon :: analysis_horizon
  hl_signal_family :: "signal_family option"
  hl_setup_id :: "string option"
  hl_status :: leg_status
  hl_opened_at :: "instant option"
  hl_expires_at :: "instant option"
  hl_entry_price :: "rat option"
  hl_current_price :: rat
  hl_invalidation :: rat
  hl_target :: "rat option"
  hl_highest_price :: rat
  hl_lowest_price :: rat
  hl_closed_at :: "instant option"
  hl_exit_price :: "rat option"
  hl_gain_loss :: "rat option"
  hl_mfe :: rat
  hl_mae :: rat
  hl_protection_stop :: "rat option"
  hl_protection_updated_at :: "instant option"
  hl_protection_rule_version :: "string option"

definition leg_fields :: "horizon_leg \<Rightarrow> bool" where
  "leg_fields l \<longleftrightarrow> opt_all non_empty_str (hl_setup_id l) \<and> positive (hl_entry_price l) \<and> 0 < hl_current_price l
     \<and> 0 < hl_invalidation l \<and> positive (hl_target l) \<and> 0 < hl_highest_price l \<and> 0 < hl_lowest_price l
     \<and> positive (hl_exit_price l) \<and> positive (hl_protection_stop l)
     \<and> opt_all semver (hl_protection_rule_version l)"

definition make_leg :: "horizon_leg \<Rightarrow> horizon_leg result" where
  "make_leg l =
     (if \<not> leg_fields l then Inl (ValidationError ''EntryHorizonLeg'')
      else if protection_partial (hl_protection_stop l) (hl_protection_updated_at l) (hl_protection_rule_version l)
      then Inl (ValueError ''protection requires stop, evidence timestamp and rule version'')
      else if uuid_version (hl_leg_id l) \<noteq> Some 7 then Inl (ValueError ''leg_id must be UUIDv7'')
      else if hl_status l \<noteq> LS_WATCHING \<and> (hl_opened_at l = None \<or> hl_entry_price l = None)
      then Inl (ValueError ''non-watching horizon leg requires an entry'')
      else if \<not> opt_all (\<lambda>opened. opt_all (\<lambda>expires. opened < expires) (hl_expires_at l)) (hl_opened_at l)
      then Inl (ValueError ''horizon leg expiry must follow its entry'')
      else if (hl_status l \<notin> {LS_WATCHING, LS_OPEN})
            \<noteq> (hl_closed_at l \<noteq> None \<and> hl_exit_price l \<noteq> None \<and> hl_gain_loss l \<noteq> None)
      then Inl (ValueError ''terminal horizon leg requires exit evidence'')
      else if hl_highest_price l < hl_lowest_price l
      then Inl (ValueError ''horizon price extrema are inverted'')
      else Inr (l \<lparr> hl_setup_id := map_option strip (hl_setup_id l) \<rparr>))"

section \<open>Cursors and references\<close>

record source_cursor =
  sc_source :: string
  sc_event_id :: uuid
  sc_occurred_at :: instant

definition make_cursor :: "source_cursor \<Rightarrow> source_cursor result" where
  "make_cursor c =
     (if \<not> identifier_str (sc_source c) then Inl (ValidationError ''EntryOpportunitySourceCursor'')
      else if uuid_version (sc_event_id c) \<noteq> Some 7 then Inl (ValueError ''source cursor event_id must be UUIDv7'')
      else Inr c)"

record signal_reference =
  sr_signal_id :: uuid
  sr_family :: signal_family
  sr_maturity :: "entry_maturity option"
  sr_current_st :: "swing_trade_maturity option"
  sr_peak_st :: "swing_trade_maturity option"
  sr_current_ct :: "countertrend_maturity option"
  sr_peak_ct :: "countertrend_maturity option"
  sr_setup_id :: string
  sr_created_at :: instant
  sr_entry_price :: rat
  sr_horizons :: "analysis_horizon list"
  sr_policy_id :: string
  sr_policy_version :: string

definition reference_fields :: "signal_reference \<Rightarrow> bool" where
  "reference_fields r \<longleftrightarrow> non_empty_str (sr_setup_id r) \<and> 0 < sr_entry_price r \<and> sr_horizons r \<noteq> []
     \<and> identifier_str (sr_policy_id r) \<and> semver (sr_policy_version r)"

definition make_reference :: "signal_reference \<Rightarrow> signal_reference result" where
  "make_reference r =
     (if \<not> reference_fields r then Inl (ValidationError ''EntryOpportunitySignalReference'')
      else if uuid_version (sr_signal_id r) \<noteq> Some 7
      then Inl (ValueError ''signal reference signal_id must be UUIDv7'')
      else if \<not> distinct (sr_horizons r) then Inl (ValueError ''signal reference horizons must be unique'')
      else if (sr_family r \<in> {SF_CORE_ENTRY, SF_CORE_RECOVERY}) \<noteq> (sr_maturity r \<noteq> None)
      then Inl (ValueError ''only core signal references use L1-L4 maturity'')
      else if sr_family r = SF_SWING_TRADE \<and> sr_peak_st r = None \<and> sr_current_st r \<noteq> None
      then Inl (ValueError ''SwingTrade current ST requires peak ST'')
      else if sr_family r \<noteq> SF_SWING_TRADE \<and> (sr_current_st r \<noteq> None \<or> sr_peak_st r \<noteq> None)
      then Inl (ValueError ''only SwingTrade references use ST maturity'')
      else if sr_family r = SF_GERI_COUNTERTREND \<and> sr_peak_ct r = None \<and> sr_current_ct r \<noteq> None
      then Inl (ValueError ''GERI countertrend current CT requires peak CT'')
      else if sr_family r \<noteq> SF_GERI_COUNTERTREND \<and> (sr_current_ct r \<noteq> None \<or> sr_peak_ct r \<noteq> None)
      then Inl (ValueError ''only GERI countertrend references use CT maturity'')
      else Inr (r \<lparr> sr_setup_id := strip (sr_setup_id r) \<rparr>))"

section \<open>Opportunities and events\<close>

record opportunity =
  op_opportunity_id :: uuid
  op_trade_side :: trade_side
  op_symbol :: string
  op_status :: entry_opportunity_status
  op_current_maturity :: entry_maturity
  op_peak_maturity :: entry_maturity
  op_progress :: rat
  op_original_watch_id :: "uuid option"
  op_armed_at :: instant
  op_updated_at :: instant
  op_last_market_bar_at :: "instant option"
  op_expires_at :: instant
  op_closed_at :: "instant option"
  op_close_reason :: "close_reason option"
  op_zone_low :: rat
  op_zone_high :: rat
  op_invalidation :: rat
  op_original_price :: rat
  op_current_price :: rat
  op_revision :: int
  op_source_analysis_ids :: "uuid list"
  op_primary_family :: signal_family
  op_signal_references :: "signal_reference list"
  op_source_cursors :: "source_cursor list"
  op_latest_analyses :: "analysis_result list"
  op_legs :: "horizon_leg list"
  op_checkpoints :: "maturity_checkpoint list"

definition opportunity_fields :: "opportunity \<Rightarrow> bool" where
  "opportunity_fields o1 \<longleftrightarrow> identifier_str (op_symbol o1) \<and> percent_score (op_progress o1) \<and> 0 < op_zone_low o1
     \<and> 0 < op_zone_high o1 \<and> 0 < op_invalidation o1 \<and> 0 < op_original_price o1 \<and> 0 < op_current_price o1
     \<and> 1 \<le> op_revision o1 \<and> op_source_analysis_ids o1 \<noteq> [] \<and> length (op_signal_references o1) \<le> 32
     \<and> length (op_source_cursors o1) \<le> 16"

definition observation_only :: "opportunity \<Rightarrow> bool" where
  "observation_only o1 \<longleftrightarrow>
     (let stages = {None, Some CT_CT0, Some CT_CT1} in
      op_primary_family o1 = SF_GERI_COUNTERTREND \<and> op_status o1 \<noteq> EO_OPEN \<and> op_current_maturity o1 = EM_ARMED
      \<and> op_peak_maturity o1 = EM_ARMED \<and> op_signal_references o1 \<noteq> []
      \<and> (\<forall>r\<in>set (op_signal_references o1). sr_family r = SF_GERI_COUNTERTREND \<and> sr_current_ct r \<in> stages
           \<and> sr_peak_ct r \<in> stages)
      \<and> (\<forall>l\<in>set (op_legs o1). hl_entry_price l = None \<and> hl_opened_at l = None))"

type_synonym checkpoint_key =
  "entry_maturity \<times> swing_trade_maturity option \<times> countertrend_maturity option \<times> signal_family \<times> string option"

definition checkpoint_key :: "maturity_checkpoint \<Rightarrow> checkpoint_key" where
  "checkpoint_key c = (cp_level c, cp_swing_trade_maturity c, cp_countertrend_maturity c, cp_signal_family c, cp_setup_id c)"

definition opportunity_level_error :: "opportunity \<Rightarrow> py_error option" where
  "opportunity_level_error o1 =
     (if op_trade_side o1 = TS_SHORT
      then if \<not> (op_zone_low o1 \<le> op_zone_high o1 \<and> op_zone_high o1 < op_invalidation o1)
           then Some (ValueError ''short opportunity stop must sit above zone'') else None
      else if op_primary_family o1 = SF_SWING_TRADE
      then if op_zone_high o1 < op_zone_low o1
           then Some (ValueError ''SwingTrade opportunity zone levels are out of order'')
           else if op_original_price o1 \<le> op_invalidation o1
           then Some (ValueError ''SwingTrade opportunity reference must sit above invalidation'') else None
      else if op_zone_low o1 \<le> op_invalidation o1 \<or> op_zone_high o1 < op_zone_low o1
      then Some (ValueError ''opportunity levels must satisfy invalidation < low <= high'') else None)"

definition make_opportunity :: "opportunity \<Rightarrow> opportunity result" where
  "make_opportunity o1 =
     (if \<not> opportunity_fields o1 then Inl (ValidationError ''EntryOpportunity'')
      else if op_checkpoints o1 = [] \<and> \<not> observation_only o1
      then Inl (ValueError ''opportunity checkpoints are required outside CT0/CT1 observation'')
      else if uuid_version (op_opportunity_id o1) \<noteq> Some 7 then Inl (ValueError ''opportunity_id must be UUIDv7'')
      else if \<not> opt_all (\<lambda>w. uuid_version w = Some 7) (op_original_watch_id o1)
      then Inl (ValueError ''original_watch_id must be UUIDv7'')
      else if \<exists>u\<in>set (op_source_analysis_ids o1). uuid_version u \<noteq> Some 7
      then Inl (ValueError ''source_analysis_ids must contain UUIDv7 values'')
      else if \<not> distinct (map sc_source (op_source_cursors o1))
      then Inl (ValueError ''opportunity source cursors must be unique'')
      else if \<not> distinct (map sr_signal_id (op_signal_references o1))
      then Inl (ValueError ''opportunity signal references must have unique signal IDs'')
      else if \<not> distinct (map (\<lambda>r. (sr_family r, sr_setup_id r)) (op_signal_references o1))
      then Inl (ValueError ''opportunity signal references must have unique setups'')
      else case opportunity_level_error o1 of Some e \<Rightarrow> Inl e
      | None \<Rightarrow>
          if (op_status o1 = EO_CLOSED) \<noteq> (op_closed_at o1 \<noteq> None \<and> op_close_reason o1 \<noteq> None)
          then Inl (ValueError ''closed opportunity requires closed_at and close_reason'')
          else if \<not> distinct (map checkpoint_key (op_checkpoints o1))
          then Inl (ValueError ''maturity checkpoints must be unique by level and setup'')
          else Inr o1)"

record opportunity_event =
  oe_event_id :: uuid
  oe_occurred_at :: instant
  oe_opportunity :: opportunity
  oe_reasons :: "string list"

definition make_opportunity_event :: "opportunity_event \<Rightarrow> opportunity_event result" where
  "make_opportunity_event e =
     (if oe_reasons e = [] \<or> (\<exists>t\<in>set (oe_reasons e). \<not> non_empty_str t)
      then Inl (ValidationError ''EntryOpportunityEvent'')
      else if uuid_version (oe_event_id e) \<noteq> Some 7 then Inl (ValueError ''event_id must be UUIDv7'')
      else if oe_occurred_at e < op_armed_at (oe_opportunity e)
      then Inl (ValueError ''event cannot precede the opportunity'')
      else Inr (e \<lparr> oe_reasons := map strip (oe_reasons e) \<rparr>))"

end
