(* ===== verification/Opportunity_Rules.thy ===== *)
theory Opportunity_Rules
  imports Opportunity_Contracts Signal_Fusion Entry_Signals Market_Session
begin

text \<open>
  The rules of the paper opportunity (the module functions of app/entry_opportunity_engine/engine.py): the
  ranks of maturities, the cursors of the input streams, how a bar marks and closes a checkpoint or a leg,
  the retest of an L2 zone and its reclaim, and what an alert says about maturity, price and levels.
\<close>

section \<open>Maturity\<close>

primrec maturity_progress :: "entry_maturity \<Rightarrow> rat" where
  "maturity_progress EM_ARMED = 20"
| "maturity_progress EM_IN_ZONE = 40"
| "maturity_progress EM_L1 = 60"
| "maturity_progress EM_L2 = 75"
| "maturity_progress EM_L3 = 90"
| "maturity_progress EM_L4 = 100"

definition maturity_rank :: "entry_maturity \<Rightarrow> nat" where
  "maturity_rank level = length (takeWhile (\<lambda>m. m \<noteq> level) entry_maturity_members)"

definition buy_levels :: "entry_maturity set" where "buy_levels = {EM_L1, EM_L2, EM_L3, EM_L4}"

definition terminal_legs :: "leg_status set" where
  "terminal_legs = {LS_RECOVERY_FAILED, LS_PROTECTION_EXIT, LS_TARGET_HIT, LS_INVALIDATED, LS_SESSION_CLOSED,
     LS_THESIS_BROKEN, LS_EXPIRED, LS_TIME_EXIT}"

section \<open>Input streams\<close>

definition is_new_source_event :: "opportunity \<Rightarrow> string \<Rightarrow> instant \<Rightarrow> uuid \<Rightarrow> bool" where
  "is_new_source_event o1 source occurred_at event_id =
     (case find (\<lambda>c. sc_source c = source) (op_source_cursors o1) of None \<Rightarrow> True
      | Some c \<Rightarrow> sc_occurred_at c < occurred_at \<or> sc_occurred_at c = occurred_at \<and> sc_event_id c < event_id)"

definition with_source_cursor :: "string \<Rightarrow> instant \<Rightarrow> uuid \<Rightarrow> opportunity \<Rightarrow> opportunity result" where
  "with_source_cursor source occurred_at event_id o1 =
     bind_result (make_cursor \<lparr> sc_source = source, sc_event_id = event_id, sc_occurred_at = occurred_at \<rparr>) (\<lambda>cursor.
       Inr (o1 \<lparr> op_source_cursors := dvalues (dput source cursor
          (foldl (\<lambda>d c. dput (sc_source c) c d) [] (op_source_cursors o1))) \<rparr>))"

definition max_source_analysis_ids :: nat where "max_source_analysis_ids = 32"

definition bounded_source_ids :: "uuid list \<Rightarrow> uuid list \<Rightarrow> uuid list" where
  "bounded_source_ids current incoming =
     (let ids = fromkeys (current @ incoming) in
      if length ids \<le> max_source_analysis_ids then ids
      else hd ids # drop (length ids - (max_source_analysis_ids - 1)) ids)"

definition replace_analysis :: "analysis_result list \<Rightarrow> analysis_result \<Rightarrow> analysis_result list" where
  "replace_analysis analyses r =
     (let held = by_horizon analyses;
          held' = (case dget held (ar_horizon r) of
              Some existing \<Rightarrow> if ar_as_of r < ar_as_of existing then held else dput (ar_horizon r) r held
            | None \<Rightarrow> dput (ar_horizon r) r held)
      in present (map (dget held') analysis_horizon_members))"

section \<open>Prices\<close>

text \<open>The gain of a price over an entry in percent, in the decimal context and rounded to four places.\<close>

definition percent :: "rat \<Rightarrow> rat \<Rightarrow> rat result" where
  "percent price entry = quantize 4 (dmul (dsub (ddiv price entry) 1) 100)"

definition is_regular_close :: "zone \<Rightarrow> instant \<Rightarrow> bool" where
  "is_regular_close z t \<longleftrightarrow> hours 15 + minutes 59 \<le> time_of_day (local_of z t)"

definition close_checkpoint :: "maturity_checkpoint \<Rightarrow> rat \<Rightarrow> instant \<Rightarrow> leg_status \<Rightarrow> maturity_checkpoint result" where
  "close_checkpoint c price now outcome =
     (if cp_status c = CS_CLOSED then Inr c
      else bind_result (percent price (cp_entry_price c)) (\<lambda>gain.
           bind_result (percent (max (cp_highest_price c) price) (cp_entry_price c)) (\<lambda>mfe.
           bind_result (percent (min (cp_lowest_price c) price) (cp_entry_price c)) (\<lambda>mae.
             Inr (c \<lparr> cp_status := CS_CLOSED, cp_current_price := price, cp_closed_at := Some now,
                      cp_exit_price := Some price, cp_outcome := Some outcome, cp_gain_loss := Some gain,
                      cp_highest_price := max (cp_highest_price c) price,
                      cp_lowest_price := min (cp_lowest_price c) price, cp_mfe := mfe, cp_mae := mae \<rparr>)))))"

definition close_leg :: "horizon_leg \<Rightarrow> rat \<Rightarrow> instant \<Rightarrow> leg_status \<Rightarrow> horizon_leg result" where
  "close_leg l price now status =
     (if hl_status l \<in> terminal_legs \<or> hl_status l = LS_WATCHING then Inr l
      else case hl_entry_price l of None \<Rightarrow> Inl AssertionError
      | Some entry \<Rightarrow>
           bind_result (percent price entry) (\<lambda>gain.
           bind_result (percent (max (hl_highest_price l) price) entry) (\<lambda>mfe.
           bind_result (percent (min (hl_lowest_price l) price) entry) (\<lambda>mae.
             Inr (l \<lparr> hl_status := status, hl_current_price := price, hl_closed_at := Some now,
                      hl_exit_price := Some price, hl_gain_loss := Some gain,
                      hl_highest_price := max (hl_highest_price l) price,
                      hl_lowest_price := min (hl_lowest_price l) price, hl_mfe := mfe, hl_mae := mae \<rparr>)))))"

text \<open>A markout that is due and not set yet.\<close>

definition markout :: "bool \<Rightarrow> rat option \<Rightarrow> rat \<Rightarrow> rat \<Rightarrow> rat option result" where
  "markout due current price entry =
     (if due \<and> current = None then bind_result (percent price entry) (\<lambda>p. Inr (Some p)) else Inr current)"

definition marked_checkpoint :: "zone \<Rightarrow> maturity_checkpoint \<Rightarrow> market_bar \<Rightarrow> maturity_checkpoint result" where
  "marked_checkpoint z c b =
     (let high = max (cp_highest_price c) (mb_high b); low = min (cp_lowest_price c) (mb_low b);
          elapsed = mb_timestamp b - cp_reached_at c; entry = cp_entry_price c in
      bind_result (percent high entry) (\<lambda>mfe. bind_result (percent low entry) (\<lambda>mae.
      bind_result (markout (minutes 15 \<le> elapsed) (cp_return_15m c) (mb_close b) entry) (\<lambda>r15.
      bind_result (markout (minutes 30 \<le> elapsed) (cp_return_30m c) (mb_close b) entry) (\<lambda>r30.
      bind_result (markout (minutes 60 \<le> elapsed) (cp_return_60m c) (mb_close b) entry) (\<lambda>r60.
      bind_result (markout (is_regular_close z (mb_timestamp b)) (cp_return_close c) (mb_close b) entry) (\<lambda>rc.
        Inr (c \<lparr> cp_current_price := mb_close b, cp_highest_price := high, cp_lowest_price := low, cp_mfe := mfe,
                 cp_mae := mae, cp_return_15m := r15, cp_return_30m := r30, cp_return_60m := r60,
                 cp_return_close := rc \<rparr>))))))))"

definition mark_checkpoint :: "zone \<Rightarrow> market_bar \<Rightarrow> maturity_checkpoint \<Rightarrow> maturity_checkpoint result" where
  "mark_checkpoint z b c =
     (if cp_status c = CS_CLOSED \<or> mb_timestamp b \<le> cp_reached_at c then Inr c
      else bind_result (marked_checkpoint z c b) (\<lambda>marked.
        if mb_low b \<le> cp_invalidation c
        then close_checkpoint marked (cp_invalidation c) (mb_timestamp b) LS_INVALIDATED
        else case cp_target c of None \<Rightarrow> Inr marked
        | Some target \<Rightarrow>
            if target \<le> mb_high b then close_checkpoint marked target (mb_timestamp b) LS_TARGET_HIT
            else Inr marked))"

definition mark_open_leg :: "horizon_leg \<Rightarrow> rat \<Rightarrow> market_bar \<Rightarrow> horizon_leg result" where
  "mark_open_leg l entry b =
     (let high = max (hl_highest_price l) (mb_high b); low = min (hl_lowest_price l) (mb_low b) in
      bind_result (percent high entry) (\<lambda>mfe. bind_result (percent low entry) (\<lambda>mae.
        let marked = l \<lparr> hl_current_price := mb_close b, hl_highest_price := high, hl_lowest_price := low,
                         hl_mfe := mfe, hl_mae := mae \<rparr>
        in if mb_low b \<le> hl_invalidation l
           then close_leg marked (hl_invalidation l) (mb_timestamp b) LS_INVALIDATED
           else case hl_target l of None \<Rightarrow> Inr marked
           | Some target \<Rightarrow>
               if target \<le> mb_high b then close_leg marked target (mb_timestamp b) LS_TARGET_HIT else Inr marked)))"

definition mark_leg :: "market_bar \<Rightarrow> horizon_leg \<Rightarrow> horizon_leg result" where
  "mark_leg b l =
     (case hl_opened_at l of None \<Rightarrow> Inr l
      | Some opened \<Rightarrow>
          if hl_status l \<noteq> LS_OPEN \<or> mb_timestamp b \<le> opened then Inr l
          else case hl_entry_price l of None \<Rightarrow> Inl AssertionError | Some entry \<Rightarrow> mark_open_leg l entry b)"

definition all_opened_terminal :: "horizon_leg list \<Rightarrow> bool" where
  "all_opened_terminal legs \<longleftrightarrow>
     (let opened = filter (\<lambda>l. hl_opened_at l \<noteq> None) legs in
      opened \<noteq> [] \<and> (\<forall>l\<in>set opened. hl_status l \<in> terminal_legs))"

section \<open>Reasons\<close>

definition leg_reason :: "horizon_leg \<Rightarrow> string" where
  "leg_reason l = lower (analysis_horizon_value (hl_horizon l)) @ ''_'' @ lower (leg_status_value (hl_status l))"

text \<open>An identifier that was not there before is a KeyError.\<close>

definition leg_close_reasons :: "horizon_leg list \<Rightarrow> horizon_leg list \<Rightarrow> string list result" where
  "leg_close_reasons previous current =
     (let by_id = foldl (\<lambda>d l. dput (hl_leg_id l) l d) [] previous in
      bind_result (map_result (\<lambda>l.
          if hl_status l \<notin> terminal_legs then Inr []
          else case dget by_id (hl_leg_id l) of None \<Rightarrow> Inl KeyError
          | Some before \<Rightarrow> Inr (if hl_status before \<in> terminal_legs then [] else [leg_reason l])) current)
        (\<lambda>texts. Inr (concat texts)))"

definition checkpoint_maturity_text :: "maturity_checkpoint \<Rightarrow> string" where
  "checkpoint_maturity_text c =
     (case cp_countertrend_maturity c of Some m \<Rightarrow> lower (countertrend_maturity_value m)
      | None \<Rightarrow> (case cp_swing_trade_maturity c of Some m \<Rightarrow> lower (swing_trade_maturity_value m)
         | None \<Rightarrow> lower (entry_maturity_value (cp_level c))))"

definition checkpoint_reason :: "maturity_checkpoint \<Rightarrow> leg_status \<Rightarrow> string" where
  "checkpoint_reason c outcome = lower (signal_family_value (cp_signal_family c)) @ ''_'' @
     checkpoint_maturity_text c @ ''_'' @ lower (leg_status_value outcome)"

definition checkpoint_close_reasons :: "maturity_checkpoint list \<Rightarrow> maturity_checkpoint list \<Rightarrow> string list result" where
  "checkpoint_close_reasons previous current =
     (let by_id = foldl (\<lambda>d c. dput (cp_checkpoint_id c) c d) [] previous in
      bind_result (map_result (\<lambda>c.
          if cp_status c \<noteq> CS_CLOSED then Inr []
          else case dget by_id (cp_checkpoint_id c) of None \<Rightarrow> Inl KeyError
          | Some before \<Rightarrow>
              Inr (if cp_status before \<noteq> CS_OPEN then []
                   else case cp_outcome c of None \<Rightarrow> [] | Some outcome \<Rightarrow> [checkpoint_reason c outcome])) current)
        (\<lambda>texts. Inr (concat texts)))"

section \<open>The L2 zone\<close>

definition metric_decimal :: "alert_codec \<Rightarrow> analysis_result \<Rightarrow> string \<Rightarrow> rat option" where
  "metric_decimal c r name = decimal_value c (first_metric r name)"

definition l2_anchor :: "opportunity \<Rightarrow> maturity_checkpoint option" where
  "l2_anchor o1 =
     find (\<lambda>c. cp_level c = EM_L2 \<and> cp_signal_family c = SF_CORE_ENTRY \<and> cp_zone_low c \<noteq> None \<and> cp_zone_high c \<noteq> None)
       (rev (op_checkpoints o1))"

definition set_l2_retest :: "opportunity \<Rightarrow> maturity_checkpoint \<Rightarrow> instant \<Rightarrow> rat \<Rightarrow> opportunity" where
  "set_l2_retest o1 anchor touched low =
     o1 \<lparr> op_checkpoints := map (\<lambda>c.
          if cp_checkpoint_id c = cp_checkpoint_id anchor
          then c \<lparr> cp_retested_at := Some touched, cp_retest_low := Some low \<rparr> else c) (op_checkpoints o1) \<rparr>"

definition l2_retest_tolerance :: "alert_codec \<Rightarrow> analysis_result \<Rightarrow> rat" where
  "l2_retest_tolerance codec r =
     dmul (case metric_decimal codec r ''atr14'' of None \<Rightarrow> 0 | Some atr \<Rightarrow> atr) (1 / 2)"

definition record_l2_retest ::
  "alert_codec \<Rightarrow> opportunity \<Rightarrow> analysis_result \<Rightarrow> rat \<Rightarrow> instant \<Rightarrow> opportunity \<times> bool" where
  "record_l2_retest codec o1 r price now =
     (case l2_anchor o1 of None \<Rightarrow> (o1, False)
      | Some anchor \<Rightarrow>
          if cp_status anchor \<noteq> CS_OPEN \<or> cp_retested_at anchor \<noteq> None
             \<or> maturity_rank EM_L4 \<le> maturity_rank (op_peak_maturity o1) \<or> ar_as_of r \<le> cp_reached_at anchor
          then (o1, cp_retested_at anchor \<noteq> None)
          else (let tolerance = l2_retest_tolerance codec r in
            if cp_invalidation anchor < price \<and> dsub (the (cp_zone_low anchor)) tolerance \<le> price
               \<and> price \<le> dadd (the (cp_zone_high anchor)) tolerance
            then (set_l2_retest o1 anchor now price, True) else (o1, False)))"

definition record_l2_bar_retest :: "opportunity \<Rightarrow> market_bar \<Rightarrow> opportunity" where
  "record_l2_bar_retest o1 b =
     (case l2_anchor o1 of None \<Rightarrow> o1
      | Some anchor \<Rightarrow>
          if cp_status anchor \<noteq> CS_OPEN \<or> cp_retested_at anchor \<noteq> None \<or> mb_timestamp b \<le> cp_reached_at anchor
             \<or> maturity_rank EM_L4 \<le> maturity_rank (op_peak_maturity o1)
          then o1
          else if mb_low b \<le> cp_invalidation anchor
             \<or> \<not> (mb_low b \<le> the (cp_zone_high anchor) \<and> the (cp_zone_low anchor) \<le> mb_high b)
          then o1
          else set_l2_retest o1 anchor (mb_timestamp b) (max (mb_low b) (the (cp_zone_low anchor))))"

definition reclaim_gates :: "string list" where
  "reclaim_gates = [''confirmation_gate_passed'', ''mature_confirmation_gate_passed'',
     ''entry_efficiency_gate_passed'', ''five_minute_higher_low'']"

definition l2_reclaim_confirmed :: "alert_codec \<Rightarrow> opportunity \<Rightarrow> analysis_result \<Rightarrow> rat \<Rightarrow> bool" where
  "l2_reclaim_confirmed codec o1 r price =
     (case l2_anchor o1 of None \<Rightarrow> False
      | Some anchor \<Rightarrow>
          cp_status anchor = CS_OPEN \<and> (\<exists>touched\<in>set_option (cp_retested_at anchor). touched < ar_as_of r)
          \<and> op_invalidation o1 < price \<and> ar_direction r = PD_BULLISH \<and> ar_verdict r = AV_FAVORABLE
          \<and> (\<exists>trigger\<in>set_option (metric_decimal codec r ''entry_trigger_level''). trigger \<le> price)
          \<and> (\<forall>name\<in>set reclaim_gates. first_metric r name = Some (VBool True))
          \<and> (case find (\<lambda>s. ar_horizon s = AH_SWING) (op_latest_analyses o1) of None \<Rightarrow> True
             | Some s \<Rightarrow> ar_direction s = PD_BULLISH \<and> ar_verdict s \<noteq> AV_AVOID
                 \<and> first_metric s ''structure_broken_confirmed'' \<noteq> Some (VBool True)))"

text \<open>\<open>_analysis_target\<close>: swing before intraday, the first target above the price.\<close>

definition analysis_target :: "alert_codec \<Rightarrow> analysis_result list \<Rightarrow> rat \<Rightarrow> rat option" where
  "analysis_target codec analyses price =
     first_some (\<lambda>h. Option.bind (dget (by_horizon analyses) h) (\<lambda>r.
       first_some (\<lambda>name. case metric_decimal codec r name of None \<Rightarrow> None
           | Some v \<Rightarrow> if price < v then Some v else None)
         [''target_2r'', ''objective_level'', ''target''])) [AH_SWING, AH_INTRADAY]"

section \<open>What an alert says\<close>

text \<open>\<open>a or b\<close> on metric values: None, False, zero, and empty texts, lists and objects are falsy.\<close>

fun truthy :: "py_value option \<Rightarrow> bool" where
  "truthy None = False"
| "truthy (Some VNone) = False"
| "truthy (Some (VBool b)) = b"
| "truthy (Some (VInt i)) = (i \<noteq> 0)"
| "truthy (Some (VDec d)) = (d \<noteq> 0)"
| "truthy (Some (VFloat (Some q))) = (q \<noteq> 0)"
| "truthy (Some (VStr s)) = (s \<noteq> [])"
| "truthy (Some (VDelta d)) = (d \<noteq> 0)"
| "truthy (Some (VList xs)) = (xs \<noteq> [])"
| "truthy (Some (VDict m)) = (m \<noteq> [])"
| "truthy (Some _) = True"

definition or_metric :: "named_value list \<Rightarrow> string \<Rightarrow> string \<Rightarrow> py_value option" where
  "or_metric ms name other = (if truthy (named_metric ms name) then named_metric ms name else named_metric ms other)"

definition alert_zone :: "alert_codec \<Rightarrow> local_alert \<Rightarrow> rat \<Rightarrow> rat \<Rightarrow> rat \<times> rat" where
  "alert_zone codec a price invalidation =
     (case (decimal_value codec (or_metric (al_metrics a) ''buy_zone_low'' ''entry_zone_low''),
            decimal_value codec (or_metric (al_metrics a) ''buy_zone_high'' ''entry_zone_high'')) of
        (Some low, Some high) \<Rightarrow> if invalidation < low \<and> low \<le> high then (low, high) else (price, price)
      | _ \<Rightarrow> (price, price))"

definition alert_maturity :: "local_alert \<Rightarrow> entry_maturity option" where
  "alert_maturity a =
     (let horizons = set (al_horizons a); conviction = {AH_LONG_TERM, AH_SWING, AH_INTRADAY} in
      if al_kind a = AK_ENTRY_CONFIRMED \<and> conviction \<subseteq> horizons then Some EM_L3
      else if al_kind a = AK_ENTRY_CONFIRMED \<and> {AH_SWING, AH_INTRADAY} \<subseteq> horizons then Some EM_L2
      else if al_kind a = AK_ENTRY_CONFIRMED \<and> {AH_LONG_TERM, AH_INTRADAY} \<subseteq> horizons then Some EM_L1
      else if al_kind a = AK_HIGH_CONVICTION_BUY \<and> conviction \<subseteq> horizons then Some EM_L3
      else if al_kind a \<in> {AK_LONG_PORTFOLIO_BUY, AK_PATREON_CAPS_BUY} then Some EM_L4
      else if al_kind a = AK_ENTRY_WATCH \<and> substring ''ENTRY TRIGGERED'' (upper (al_title a)) \<and> conviction \<subseteq> horizons
      then Some EM_L4
      else None)"

definition first_named :: "named_value list \<Rightarrow> string \<Rightarrow> py_value option" where
  "first_named ms name = map_option nv_value (find (\<lambda>m. nv_name m = name) ms)"

definition alert_price :: "alert_codec \<Rightarrow> local_alert \<Rightarrow> rat option" where
  "alert_price codec a =
     (case first_some (\<lambda>name. decimal_value codec (first_named (al_metrics a) name)) [''current_price'', ''reference_price''] of
        Some price \<Rightarrow> Some price
      | None \<Rightarrow>
          first_some (\<lambda>h. Option.bind (dget (by_horizon (al_component_analyses a)) h)
             (\<lambda>r. metric_decimal codec r ''reference_price'')) [AH_INTRADAY, AH_SWING, AH_LONG_TERM])"

definition alert_horizon_level ::
  "alert_codec \<Rightarrow> local_alert \<Rightarrow> analysis_horizon \<Rightarrow> string list \<Rightarrow> rat option" where
  "alert_horizon_level codec a horizon names =
     (let sources = (case find (\<lambda>r. ar_horizon r = horizon) (al_component_analyses a) of
           None \<Rightarrow> [] | Some r \<Rightarrow> ar_metrics r) @ al_metrics a
      in first_some (\<lambda>name. decimal_value codec (first_named sources name)) names)"

end
