(* ===== verification/Opportunity_Store.thy ===== *)
theory Opportunity_Store
  imports Opportunity_Contracts Watch_Store
begin

text \<open>
  The persistence port of the opportunity engine (app/entry_opportunity_engine/ports.py) and its in-memory
  provider (memory.py). The engine is written against the port; the locale \<open>opportunity_store\<close> states what
  it relies on, and the in-memory store is its interpretation.
\<close>

section \<open>The port\<close>

record 's opportunity_port =
  os_load_active :: "'s \<Rightarrow> string \<Rightarrow> opportunity option"
  os_list_active :: "'s \<Rightarrow> opportunity list"
  os_event_seen :: "'s \<Rightarrow> uuid \<Rightarrow> bool"
  os_save :: "opportunity \<Rightarrow> opportunity_event option \<Rightarrow> 's \<Rightarrow> 's result"

section \<open>The in-memory store\<close>

record opportunity_memory =
  om_opportunities :: "(uuid, opportunity) dict"
  om_events :: "opportunity_event list"

definition empty_opportunities :: opportunity_memory where
  "empty_opportunities = \<lparr> om_opportunities = [], om_events = [] \<rparr>"

definition load_active_opportunity :: "opportunity_memory \<Rightarrow> string \<Rightarrow> opportunity option" where
  "load_active_opportunity m symbol =
     (let normalized = norm_symbol symbol in
      first_max op_updated_at
        (filter (\<lambda>x. op_symbol x = normalized \<and> op_status x \<noteq> EO_CLOSED) (dvalues (om_opportunities m))))"

definition load_latest_opportunity :: "opportunity_memory \<Rightarrow> string \<Rightarrow> opportunity option" where
  "load_latest_opportunity m symbol =
     (let normalized = norm_symbol symbol in
      first_max op_updated_at (filter (\<lambda>x. op_symbol x = normalized) (dvalues (om_opportunities m))))"

definition list_active_opportunities :: "opportunity_memory \<Rightarrow> opportunity list" where
  "list_active_opportunities m =
     sort_key op_symbol (filter (\<lambda>x. op_status x \<noteq> EO_CLOSED) (dvalues (om_opportunities m)))"

definition opportunity_event_seen :: "opportunity_memory \<Rightarrow> uuid \<Rightarrow> bool" where
  "opportunity_event_seen m event_id \<longleftrightarrow> (\<exists>e\<in>set (om_events m). oe_event_id e = event_id)"

definition save_opportunity ::
  "opportunity \<Rightarrow> opportunity_event option \<Rightarrow> opportunity_memory \<Rightarrow> opportunity_memory result" where
  "save_opportunity x event m =
     (if \<exists>active\<in>set_option (load_active_opportunity m (op_symbol x)). op_opportunity_id active \<noteq> op_opportunity_id x
      then Inl (RuntimeError ''active entry opportunity already exists'')
      else Inr \<lparr> om_opportunities = dput (op_opportunity_id x) x (om_opportunities m),
                 om_events = (case event of None \<Rightarrow> om_events m
                   | Some e \<Rightarrow> if opportunity_event_seen m (oe_event_id e) then om_events m else om_events m @ [e]) \<rparr>)"

definition opportunity_memory_port :: "opportunity_memory opportunity_port" where
  "opportunity_memory_port = \<lparr> os_load_active = load_active_opportunity, os_list_active = list_active_opportunities,
     os_event_seen = opportunity_event_seen, os_save = save_opportunity \<rparr>"

section \<open>The contract of a store\<close>

text \<open>
  \<open>tracked\<close> is the content of a store by identity, \<open>recorded_events\<close> the events it holds, and \<open>invar\<close> what
  its operations keep. The symbols handed to a store are normalized, as those of every contract are.
\<close>

locale opportunity_store =
  fixes port :: "'s opportunity_port"
    and tracked :: "'s \<Rightarrow> uuid \<rightharpoonup> opportunity"
    and recorded_events :: "'s \<Rightarrow> opportunity_event set"
    and invar :: "'s \<Rightarrow> bool"
  assumes active_found: "invar s \<Longrightarrow> os_load_active port s symbol = Some x \<Longrightarrow>
        tracked s (op_opportunity_id x) = Some x \<and> op_symbol x = norm_symbol symbol \<and> op_status x \<noteq> EO_CLOSED"
    and no_active: "invar s \<Longrightarrow> os_load_active port s symbol = None \<Longrightarrow> tracked s i = Some x \<Longrightarrow>
        op_symbol x = norm_symbol symbol \<Longrightarrow> op_status x = EO_CLOSED"
    and listed: "invar s \<Longrightarrow> x \<in> set (os_list_active port s) \<Longrightarrow>
        tracked s (op_opportunity_id x) = Some x \<and> op_status x \<noteq> EO_CLOSED"
    and listed_once: "invar s \<Longrightarrow> distinct (map op_opportunity_id (os_list_active port s))"
    and seen: "invar s \<Longrightarrow> os_event_seen port s i \<longleftrightarrow> (\<exists>e\<in>recorded_events s. oe_event_id e = i)"
    and key: "invar s \<Longrightarrow> tracked s i = Some x \<Longrightarrow> op_opportunity_id x = i"
    and saved: "invar s \<Longrightarrow> os_save port x event s = Inr s' \<Longrightarrow>
        invar s' \<and> tracked s' = (tracked s)(op_opportunity_id x \<mapsto> x) \<and>
        recorded_events s' = recorded_events s \<union>
          {e \<in> set_option event. \<not> os_event_seen port s (oe_event_id e)}"
    and save_vacant: "invar s \<Longrightarrow> os_save port x event s = Inr s' \<Longrightarrow>
        os_load_active port s (op_symbol x) = Some y \<Longrightarrow> op_opportunity_id y = op_opportunity_id x"
    and save_fits: "invar s \<Longrightarrow> os_load_active port s (op_symbol x) = None \<or>
        (\<exists>y. os_load_active port s (op_symbol x) = Some y \<and> op_opportunity_id y = op_opportunity_id x) \<Longrightarrow>
        \<exists>s'. os_save port x event s = Inr s'"

section \<open>The in-memory store satisfies it\<close>

definition opportunities_wf :: "opportunity_memory \<Rightarrow> bool" where
  "opportunities_wf m \<longleftrightarrow> dict_wf (om_opportunities m) \<and> (\<forall>(i, x)\<in>set (om_opportunities m). op_opportunity_id x = i)"

lemma opportunities_mem:
  "opportunities_wf m \<Longrightarrow> x \<in> set (dvalues (om_opportunities m)) \<longleftrightarrow>
     dget (om_opportunities m) (op_opportunity_id x) = Some x"
  unfolding opportunities_wf_def by (force simp: image_iff dest: map_of_SomeD)

lemma opportunities_key: "opportunities_wf m \<Longrightarrow> dget (om_opportunities m) i = Some x \<Longrightarrow> op_opportunity_id x = i"
  unfolding opportunities_wf_def by (auto dest: map_of_SomeD)

lemma opportunities_empty: "opportunities_wf empty_opportunities"
  by (simp add: opportunities_wf_def empty_opportunities_def)

lemma load_active_opportunity_Some:
  assumes "opportunities_wf m" "load_active_opportunity m symbol = Some x"
  shows "dget (om_opportunities m) (op_opportunity_id x) = Some x \<and> op_symbol x = norm_symbol symbol
    \<and> op_status x \<noteq> EO_CLOSED"
  using first_max_mem [OF assms(2) [unfolded load_active_opportunity_def Let_def]] opportunities_mem [OF assms(1), of x]
  by simp

lemma load_active_opportunity_None:
  assumes "opportunities_wf m" "load_active_opportunity m symbol = None" "dget (om_opportunities m) i = Some x"
    and "op_symbol x = norm_symbol symbol"
  shows "op_status x = EO_CLOSED"
proof -
  have "x \<in> set (dvalues (om_opportunities m))"
    using assms(1,3) opportunities_mem opportunities_key by metis
  with assms(2,4) show ?thesis by (auto simp: load_active_opportunity_def filter_empty_conv)
qed

lemma save_opportunity_Inr:
  assumes "save_opportunity x event m = Inr m'"
  shows "om_opportunities m' = dput (op_opportunity_id x) x (om_opportunities m)"
    "set (om_events m') = set (om_events m) \<union> {e \<in> set_option event. \<not> opportunity_event_seen m (oe_event_id e)}"
    "load_active_opportunity m (op_symbol x) = Some y \<Longrightarrow> op_opportunity_id y = op_opportunity_id x"
  using assms by (auto simp: save_opportunity_def split: if_splits option.splits)

lemma opportunities_wf_save:
  assumes "opportunities_wf m" "save_opportunity x event m = Inr m'"
  shows "opportunities_wf m'"
proof -
  have wf: "dict_wf (om_opportunities m')"
    using assms(1) unfolding opportunities_wf_def save_opportunity_Inr(1) [OF assms(2)] by (simp add: dict_simps)
  have "op_opportunity_id v = i" if "(i, v) \<in> set (om_opportunities m')" for i v
  proof -
    from that wf have "dget (om_opportunities m') i = Some v" by simp
    then show ?thesis
      using opportunities_key [OF assms(1)] by (simp add: save_opportunity_Inr(1) [OF assms(2)] dict_simps split: if_splits)
  qed
  with wf show ?thesis unfolding opportunities_wf_def by blast
qed

lemma list_active_distinct:
  assumes "opportunities_wf m"
  shows "distinct (map op_opportunity_id (list_active_opportunities m))"
proof -
  have "map op_opportunity_id (dvalues (om_opportunities m)) = dkeys (om_opportunities m)"
    using assms by (auto simp: opportunities_wf_def)
  then have "distinct (map op_opportunity_id (dvalues (om_opportunities m)))"
    using assms by (simp only: opportunities_wf_def)
  then have "distinct (map op_opportunity_id (filter (\<lambda>x. op_status x \<noteq> EO_CLOSED) (dvalues (om_opportunities m))))"
    by (rule distinct_map_filter)
  then show ?thesis
    by (simp add: list_active_opportunities_def distinct_map inj_on_def)
qed

interpretation opportunity_memory: opportunity_store opportunity_memory_port "\<lambda>m. dget (om_opportunities m)"
  "\<lambda>m. set (om_events m)" opportunities_wf
proof unfold_locales
  fix s x symbol i event s' y
  assume wf: "opportunities_wf s"
  show "os_load_active opportunity_memory_port s symbol = Some x \<Longrightarrow> dget (om_opportunities s) (op_opportunity_id x) = Some x
      \<and> op_symbol x = norm_symbol symbol \<and> op_status x \<noteq> EO_CLOSED"
    using load_active_opportunity_Some [OF wf] by (simp add: opportunity_memory_port_def)
  show "os_load_active opportunity_memory_port s symbol = None \<Longrightarrow> dget (om_opportunities s) i = Some x \<Longrightarrow>
      op_symbol x = norm_symbol symbol \<Longrightarrow> op_status x = EO_CLOSED"
    using load_active_opportunity_None [OF wf] by (simp add: opportunity_memory_port_def)
  show "x \<in> set (os_list_active opportunity_memory_port s) \<Longrightarrow>
      dget (om_opportunities s) (op_opportunity_id x) = Some x \<and> op_status x \<noteq> EO_CLOSED"
    using opportunities_mem [OF wf, of x] by (simp add: opportunity_memory_port_def list_active_opportunities_def)
  show "distinct (map op_opportunity_id (os_list_active opportunity_memory_port s))"
    using list_active_distinct [OF wf] by (simp add: opportunity_memory_port_def)
  show "os_event_seen opportunity_memory_port s i = (\<exists>e\<in>set (om_events s). oe_event_id e = i)"
    by (simp add: opportunity_memory_port_def opportunity_event_seen_def)
  show "dget (om_opportunities s) i = Some x \<Longrightarrow> op_opportunity_id x = i"
    using opportunities_key [OF wf] by simp
  show "os_save opportunity_memory_port x event s = Inr s' \<Longrightarrow> opportunities_wf s' \<and>
      dget (om_opportunities s') = (dget (om_opportunities s))(op_opportunity_id x \<mapsto> x) \<and>
      set (om_events s') = set (om_events s) \<union> {e \<in> set_option event. \<not> os_event_seen opportunity_memory_port s (oe_event_id e)}"
    using opportunities_wf_save [OF wf] save_opportunity_Inr(1,2) [of x event s s']
    by (auto simp: opportunity_memory_port_def update_conv')
  show "os_save opportunity_memory_port x event s = Inr s' \<Longrightarrow> os_load_active opportunity_memory_port s (op_symbol x) = Some y \<Longrightarrow>
      op_opportunity_id y = op_opportunity_id x"
    using save_opportunity_Inr(3) [of x event s s' y] by (simp add: opportunity_memory_port_def)
  show "os_load_active opportunity_memory_port s (op_symbol x) = None \<or>
      (\<exists>y. os_load_active opportunity_memory_port s (op_symbol x) = Some y \<and> op_opportunity_id y = op_opportunity_id x) \<Longrightarrow>
      \<exists>s'. os_save opportunity_memory_port x event s = Inr s'"
    by (auto simp: opportunity_memory_port_def save_opportunity_def)
qed

end
