(* ===== verification/Opportunity_Engine.thy ===== *)
theory Opportunity_Engine
  imports Opportunity_Rules Opportunity_Store
begin

text \<open>
  Version 1 of the opportunity engine (\<open>EntryOpportunityEngine\<close> of app/entry_opportunity_engine/engine.py):
  one paper opportunity per symbol that watch transitions, alerts, analyses and bars advance, mark and close.
  Each handler is a decision over the active opportunity, followed by one save. The fresh identifiers of a
  call are an argument, one leg identifier per horizon, since a call creates at most one leg of a horizon.
\<close>

section \<open>Building blocks\<close>

record opportunity_ids =
  oi_opportunity :: uuid
  oi_checkpoint :: uuid
  oi_leg :: "analysis_horizon \<Rightarrow> uuid"
  oi_event :: uuid

record advance_request =
  rq_level :: entry_maturity
  rq_price :: rat
  rq_now :: instant
  rq_horizons :: "analysis_horizon list"
  rq_source_ids :: "uuid list"
  rq_target :: "rat option"
  rq_invalidation :: "rat option"
  rq_zone_low :: "rat option"
  rq_zone_high :: "rat option"
  rq_invalidations :: "(analysis_horizon, rat) dict"
  rq_targets :: "(analysis_horizon, rat) dict"
  rq_family :: signal_family
  rq_setup_id :: "string option"
  rq_force :: bool
  rq_regress :: bool

definition watching_leg :: "uuid \<Rightarrow> analysis_horizon \<Rightarrow> rat \<Rightarrow> rat \<Rightarrow> horizon_leg" where
  "watching_leg leg_id horizon price invalidation =
     \<lparr> hl_leg_id = leg_id, hl_trade_side = TS_LONG, hl_horizon = horizon, hl_signal_family = None, hl_setup_id = None,
       hl_status = LS_WATCHING, hl_opened_at = None, hl_expires_at = None, hl_entry_price = None,
       hl_current_price = price, hl_invalidation = invalidation, hl_target = None, hl_highest_price = price,
       hl_lowest_price = price, hl_closed_at = None, hl_exit_price = None, hl_gain_loss = None, hl_mfe = 0,
       hl_mae = 0, hl_protection_stop = None, hl_protection_updated_at = None, hl_protection_rule_version = None \<rparr>"

definition new_checkpoint :: "uuid \<Rightarrow> advance_request \<Rightarrow> rat \<Rightarrow> maturity_checkpoint result" where
  "new_checkpoint checkpoint_id rq invalidation =
     make_checkpoint \<lparr> cp_checkpoint_id = checkpoint_id, cp_trade_side = TS_LONG, cp_level = rq_level rq,
       cp_swing_trade_maturity = None, cp_countertrend_maturity = None, cp_signal_family = rq_family rq,
       cp_setup_id = rq_setup_id rq, cp_reached_at = rq_now rq, cp_entry_price = rq_price rq,
       cp_current_price = rq_price rq, cp_highest_price = rq_price rq, cp_lowest_price = rq_price rq,
       cp_invalidation = invalidation, cp_target = rq_target rq, cp_zone_low = rq_zone_low rq,
       cp_zone_high = rq_zone_high rq, cp_retested_at = None, cp_retest_low = None, cp_status = CS_OPEN,
       cp_closed_at = None, cp_exit_price = None, cp_outcome = None, cp_gain_loss = None, cp_mfe = 0, cp_mae = 0,
       cp_return_15m = None, cp_return_30m = None, cp_return_60m = None, cp_return_close = None,
       cp_protection_stop = None, cp_protection_updated_at = None, cp_protection_rule_version = None,
       cp_entry_analyses = [], cp_recovery_exit = None \<rparr>"

text \<open>The leg of a horizon: created when missing, entered when it was only watching.\<close>

definition entered_leg :: "opportunity_ids \<Rightarrow> advance_request \<Rightarrow> rat \<Rightarrow> analysis_horizon \<Rightarrow> horizon_leg option \<Rightarrow> horizon_leg result" where
  "entered_leg ids rq invalidation horizon found =
     bind_result (case found of Some l \<Rightarrow> Inr l
         | None \<Rightarrow> make_leg (watching_leg (oi_leg ids horizon) horizon (rq_price rq) invalidation)) (\<lambda>l.
       Inr (if hl_status l \<noteq> LS_WATCHING then l
            else l \<lparr> hl_status := LS_OPEN, hl_opened_at := Some (rq_now rq), hl_entry_price := Some (rq_price rq),
                     hl_current_price := rq_price rq, hl_highest_price := rq_price rq, hl_lowest_price := rq_price rq,
                     hl_invalidation := (case dget (rq_invalidations rq) horizon of None \<Rightarrow> invalidation | Some p \<Rightarrow> p),
                     hl_target := dget (rq_targets rq) horizon \<rparr>))"

fun open_legs ::
  "(analysis_horizon \<Rightarrow> horizon_leg option \<Rightarrow> horizon_leg result) \<Rightarrow> (analysis_horizon, horizon_leg) dict \<Rightarrow>
   analysis_horizon list \<Rightarrow> horizon_leg list result" where
  "open_legs enter held [] = Inr (dvalues held)"
| "open_legs enter held (h # hs) =
     bind_result (enter h (dget held h)) (\<lambda>l. bind_result (open_legs enter (ddel h held) hs) (\<lambda>ls. Inr (l # ls)))"

definition open_horizons :: "opportunity_ids \<Rightarrow> advance_request \<Rightarrow> rat \<Rightarrow> horizon_leg list \<Rightarrow> horizon_leg list result" where
  "open_horizons ids rq invalidation legs =
     bind_result (open_legs (entered_leg ids rq invalidation)
         (foldl (\<lambda>d l. dput (hl_horizon l) l d) [] (filter (\<lambda>l. hl_setup_id l = None) legs)) (fromkeys (rq_horizons rq)))
       (\<lambda>opened. Inr (opened @ filter (\<lambda>l. hl_setup_id l \<noteq> None) legs))"

definition advance_status :: "advance_request \<Rightarrow> opportunity \<Rightarrow> bool \<Rightarrow> entry_opportunity_status" where
  "advance_status rq x tracking =
     (if maturity_rank (op_peak_maturity x) \<le> maturity_rank (rq_level rq) \<and> rq_level rq \<in> buy_levels
      then if rq_level rq = EM_L4 then EO_OPEN else EO_CONFIRMING
      else if tracking then if rq_level rq = EM_IN_ZONE then EO_IN_ZONE else EO_ARMED
      else if rq_level rq = EM_IN_ZONE \<and> op_status x = EO_ARMED then EO_IN_ZONE
      else op_status x)"

definition advance_checkpoints :: "opportunity_ids \<Rightarrow> advance_request \<Rightarrow> opportunity \<Rightarrow> maturity_checkpoint list result" where
  "advance_checkpoints ids rq x =
     (let known = (\<exists>c\<in>set (op_checkpoints x). cp_level c = rq_level rq \<and> cp_signal_family c = rq_family rq
           \<and> cp_setup_id c = rq_setup_id rq)
      in if (maturity_rank (op_peak_maturity x) < maturity_rank (rq_level rq) \<or> rq_force rq) \<and> \<not> known
         then bind_result (new_checkpoint (oi_checkpoint ids) rq (price_or (rq_invalidation rq) (op_invalidation x)))
           (\<lambda>c. Inr (op_checkpoints x @ [c]))
         else Inr (op_checkpoints x))"

definition advance_opportunity :: "opportunity_ids \<Rightarrow> advance_request \<Rightarrow> opportunity \<Rightarrow> opportunity result" where
  "advance_opportunity ids rq x =
     (let level = rq_level rq; peak_rank = maturity_rank (op_peak_maturity x);
          peak = (if peak_rank < maturity_rank level then level else op_peak_maturity x);
          tracking = rq_regress rq \<and> op_status x \<in> {EO_ARMED, EO_IN_ZONE} \<and> level \<in> {EM_ARMED, EM_IN_ZONE}
      in bind_result (advance_checkpoints ids rq x) (\<lambda>checkpoints.
         bind_result (if peak_rank \<le> maturity_rank level \<and> level \<in> buy_levels
             then open_horizons ids rq (op_invalidation x) (op_legs x) else Inr (op_legs x)) (\<lambda>legs.
           Inr (x \<lparr> op_status := advance_status rq x tracking,
                    op_current_maturity := (if tracking \<or> peak_rank \<le> maturity_rank level then level
                      else op_current_maturity x),
                    op_peak_maturity := peak,
                    op_progress := maturity_progress (if tracking then level else peak),
                    op_current_price := (if op_updated_at x \<le> rq_now rq then rq_price rq else op_current_price x),
                    op_updated_at := max (rq_now rq) (op_updated_at x), op_revision := op_revision x + 1,
                    op_source_analysis_ids := bounded_source_ids (op_source_analysis_ids x) (rq_source_ids rq),
                    op_legs := legs, op_checkpoints := checkpoints \<rparr>))))"

definition close_open_leg :: "rat \<Rightarrow> instant \<Rightarrow> leg_status \<Rightarrow> horizon_leg \<Rightarrow> horizon_leg result" where
  "close_open_leg price now status l = (if hl_status l = LS_OPEN then close_leg l price now status else Inr l)"

definition close_open_checkpoint :: "rat \<Rightarrow> instant \<Rightarrow> leg_status \<Rightarrow> maturity_checkpoint \<Rightarrow> maturity_checkpoint result" where
  "close_open_checkpoint price now outcome c = (if cp_status c = CS_OPEN then close_checkpoint c price now outcome else Inr c)"

definition close_horizon ::
  "analysis_horizon \<Rightarrow> rat \<Rightarrow> instant \<Rightarrow> leg_status \<Rightarrow> opportunity \<Rightarrow> (opportunity \<times> bool) result" where
  "close_horizon horizon price now status x =
     bind_result (map_result (\<lambda>l. if hl_horizon l = horizon \<and> hl_status l = LS_OPEN
         then close_leg l price now status else Inr l) (op_legs x)) (\<lambda>legs.
       Inr (x \<lparr> op_legs := legs, op_current_price := price, op_updated_at := now, op_revision := op_revision x + 1 \<rparr>,
            \<exists>l\<in>set (op_legs x). hl_horizon l = horizon \<and> hl_status l = LS_OPEN))"

definition close_opportunity :: "rat \<Rightarrow> instant \<Rightarrow> close_reason \<Rightarrow> leg_status \<Rightarrow> opportunity \<Rightarrow> opportunity result" where
  "close_opportunity price now reason leg_status x =
     bind_result (map_result (close_open_leg price now leg_status) (op_legs x)) (\<lambda>legs.
     bind_result (map_result (close_open_checkpoint price now leg_status) (op_checkpoints x)) (\<lambda>checkpoints.
       Inr (x \<lparr> op_status := EO_CLOSED,
                op_current_price := (if op_updated_at x \<le> now then price else op_current_price x),
                op_updated_at := max now (op_updated_at x), op_closed_at := Some now, op_close_reason := Some reason,
                op_revision := op_revision x + 1, op_legs := legs, op_checkpoints := checkpoints \<rparr>)))"

definition opportunity_event_of :: "uuid \<Rightarrow> opportunity \<Rightarrow> instant \<Rightarrow> string list \<Rightarrow> opportunity_event result" where
  "opportunity_event_of event_id x occurred_at reasons =
     make_opportunity_event \<lparr> oe_event_id = event_id, oe_occurred_at = occurred_at, oe_opportunity = x, oe_reasons = reasons \<rparr>"

text \<open>
  The decision of a handler: nothing, or an opportunity to save with the event that is stored beside it, and
  whether the handler returns that event.
\<close>

record opportunity_step =
  ps_opportunity :: opportunity
  ps_event :: "opportunity_event option"
  ps_returned :: bool

definition step_with_event ::
  "uuid \<Rightarrow> instant \<Rightarrow> string list \<Rightarrow> bool \<Rightarrow> opportunity \<Rightarrow> opportunity_step option result" where
  "step_with_event event_id occurred_at reasons returned x =
     bind_result (opportunity_event_of event_id x occurred_at reasons) (\<lambda>e.
       Inr (Some \<lparr> ps_opportunity = x, ps_event = Some e, ps_returned = returned \<rparr>))"

definition step_without_event :: "opportunity \<Rightarrow> opportunity_step option result" where
  "step_without_event x = Inr (Some \<lparr> ps_opportunity = x, ps_event = None, ps_returned = False \<rparr>)"

section \<open>Watch transitions\<close>

definition watcher_source :: string where "watcher_source = ''ENTRY_WATCHER''"

definition watch_level :: "entry_watch_status \<Rightarrow> entry_maturity option" where
  "watch_level status =
     (case status of EW_ARMED \<Rightarrow> Some EM_ARMED | EW_IN_ZONE \<Rightarrow> Some EM_IN_ZONE | EW_EARLY_ENTRY \<Rightarrow> Some EM_L1
      | EW_IMPULSE_EXTENDED \<Rightarrow> Some EM_ARMED | EW_TRIGGERED \<Rightarrow> Some EM_L4 | _ \<Rightarrow> None)"

definition watch_setup :: "watch_transition \<Rightarrow> string" where
  "watch_setup t = ''watch:'' @ uuid_text (tr_watch_id t)"

definition same_for :: "analysis_horizon list \<Rightarrow> rat option \<Rightarrow> (analysis_horizon, rat) dict" where
  "same_for horizons level = (case level of None \<Rightarrow> [] | Some p \<Rightarrow> foldl (\<lambda>d h. dput h p d) [] horizons)"

definition watch_request :: "watch_transition \<Rightarrow> entry_maturity \<Rightarrow> string option \<Rightarrow> bool \<Rightarrow> advance_request" where
  "watch_request t level setup regress =
     \<lparr> rq_level = level, rq_price = tr_current_price t, rq_now = tr_occurred_at t, rq_horizons = tr_horizons t,
       rq_source_ids = tr_source_analysis_ids t, rq_target = tr_entry_target t,
       rq_invalidation = tr_entry_invalidation t, rq_zone_low = None, rq_zone_high = None,
       rq_invalidations = same_for (tr_horizons t) (tr_entry_invalidation t),
       rq_targets = same_for (tr_horizons t) (tr_entry_target t), rq_family = SF_CORE_ENTRY, rq_setup_id = setup,
       rq_force = False, rq_regress = regress \<rparr>"

text \<open>The first checkpoint of an opportunity has the thesis invalidation and no target.\<close>

definition opening_request :: "watch_transition \<Rightarrow> entry_maturity \<Rightarrow> advance_request" where
  "opening_request t level =
     (watch_request t level (Some (watch_setup t)) False) \<lparr> rq_target := None, rq_invalidation := None \<rparr>"

definition new_opportunity :: "opportunity_ids \<Rightarrow> watch_transition \<Rightarrow> entry_maturity \<Rightarrow> opportunity result" where
  "new_opportunity ids t level =
     bind_result (new_checkpoint (oi_checkpoint ids) (opening_request t level) (tr_invalidation t)) (\<lambda>checkpoint.
     bind_result (make_leg (watching_leg (oi_leg ids AH_LONG_TERM) AH_LONG_TERM (tr_current_price t) (tr_invalidation t)))
       (\<lambda>long_leg.
     bind_result (make_cursor \<lparr> sc_source = watcher_source, sc_event_id = tr_transition_id t,
         sc_occurred_at = tr_occurred_at t \<rparr>) (\<lambda>cursor.
       make_opportunity
         \<lparr> op_opportunity_id = oi_opportunity ids, op_trade_side = TS_LONG, op_symbol = tr_symbol t,
           op_status = (if level = EM_IN_ZONE then EO_IN_ZONE else EO_ARMED), op_current_maturity = level,
           op_peak_maturity = level, op_progress = maturity_progress level,
           op_original_watch_id = Some (tr_watch_id t), op_armed_at = tr_occurred_at t,
           op_updated_at = tr_occurred_at t, op_last_market_bar_at = None, op_expires_at = tr_watch_expires_at t,
           op_closed_at = None, op_close_reason = None, op_zone_low = tr_zone_low t, op_zone_high = tr_zone_high t,
           op_invalidation = tr_invalidation t, op_original_price = tr_current_price t,
           op_current_price = tr_current_price t, op_revision = 1,
           op_source_analysis_ids = tr_source_analysis_ids t, op_primary_family = SF_CORE_ENTRY,
           op_signal_references = [], op_source_cursors = [cursor], op_latest_analyses = [], op_legs = [long_leg],
           op_checkpoints = [checkpoint] \<rparr>)))"

definition opening_reason :: "entry_watch_status \<Rightarrow> string" where
  "opening_reason status =
     (if status = EW_EARLY_ENTRY then ''opportunity_opened_from_early_entry''
      else if status = EW_TRIGGERED then ''opportunity_recovered_from_triggered'' else ''opportunity_created'')"

definition open_from_transition :: "opportunity_ids \<Rightarrow> watch_transition \<Rightarrow> opportunity_step option result" where
  "open_from_transition ids t =
     (if tr_status t \<notin> {EW_ARMED, EW_IN_ZONE, EW_EARLY_ENTRY, EW_TRIGGERED} then Inr None
      else (let level = the (watch_level (tr_status t)) in
        bind_result (new_opportunity ids t level) (\<lambda>fresh.
        bind_result (if tr_status t \<in> {EW_EARLY_ENTRY, EW_TRIGGERED}
            then advance_opportunity ids (watch_request t level None False) fresh else Inr fresh) (\<lambda>x.
          step_with_event (tr_transition_id t) (tr_occurred_at t) (opening_reason (tr_status t) # tr_reasons t) True x))))"

definition terminal_transition_unrelated :: "opportunity \<Rightarrow> watch_transition \<Rightarrow> bool" where
  "terminal_transition_unrelated active t \<longleftrightarrow> op_primary_family active = SF_GERI_COUNTERTREND
     \<and> op_original_watch_id active = None \<and> tr_status t \<in> {EW_INVALIDATED, EW_EXPIRED}"

definition close_from_transition ::
  "watch_transition \<Rightarrow> close_reason \<Rightarrow> leg_status \<Rightarrow> string \<Rightarrow> opportunity \<Rightarrow> opportunity_step option result" where
  "close_from_transition t reason leg_status label active =
     bind_result (close_opportunity (tr_current_price t) (tr_occurred_at t) reason leg_status active) (\<lambda>closed.
       if closed = active then Inr None
       else bind_result (with_source_cursor watcher_source (tr_occurred_at t) (tr_transition_id t) closed)
         (step_with_event (tr_transition_id t) (tr_occurred_at t) (label # tr_reasons t) True))"

definition material_change :: "opportunity \<Rightarrow> opportunity \<Rightarrow> bool" where
  "material_change changed active \<longleftrightarrow>
     op_peak_maturity changed \<noteq> op_peak_maturity active \<or> op_status changed \<noteq> op_status active"

text \<open>Version 1 leaves \<open>regress_tracking_maturity\<close> off; later versions turn it on.\<close>

definition advance_from_transition ::
  "bool \<Rightarrow> opportunity_ids \<Rightarrow> watch_transition \<Rightarrow> opportunity \<Rightarrow> opportunity_step option result" where
  "advance_from_transition regress ids t active =
     (if tr_status t = EW_TRIGGERED \<and> l2_anchor active \<noteq> None
         \<and> maturity_rank (op_peak_maturity active) < maturity_rank EM_L4
      then Inr None
      else case watch_level (tr_status t) of None \<Rightarrow> Inl KeyError
      | Some level \<Rightarrow>
          bind_result (advance_opportunity ids (watch_request t level (Some (watch_setup t)) regress) active) (\<lambda>advanced.
          bind_result (with_source_cursor watcher_source (tr_occurred_at t) (tr_transition_id t) advanced) (\<lambda>changed.
            step_with_event (tr_transition_id t) (tr_occurred_at t) (''opportunity_advanced'' # tr_reasons t)
              (material_change changed active) changed)))"

definition transition_step ::
  "bool \<Rightarrow> opportunity_ids \<Rightarrow> watch_transition \<Rightarrow> opportunity option \<Rightarrow> opportunity_step option result" where
  "transition_step regress ids t found =
     (case found of None \<Rightarrow> open_from_transition ids t
      | Some active \<Rightarrow>
          if \<not> is_new_source_event active watcher_source (tr_occurred_at t) (tr_transition_id t) then Inr None
          else if terminal_transition_unrelated active t then Inr None
          else if tr_status t = EW_INVALIDATED
          then close_from_transition t CR_ORIGINAL_THESIS_INVALIDATED LS_THESIS_BROKEN ''original_thesis_invalidated'' active
          else if tr_status t = EW_EXPIRED
          then close_from_transition t CR_EXPIRED LS_EXPIRED ''opportunity_expired'' active
          else if tr_status t = EW_POLICY_INELIGIBLE then Inr None
          else advance_from_transition regress ids t active)"

section \<open>Analyses\<close>

text \<open>An analysis that is not newer than the one held, by time and then by identifier, is ignored.\<close>

definition analysis_outdated :: "opportunity \<Rightarrow> analysis_result \<Rightarrow> bool" where
  "analysis_outdated active r \<longleftrightarrow>
     (\<exists>held\<in>set_option (find (\<lambda>a. ar_horizon a = ar_horizon r) (op_latest_analyses active)).
        ar_analysis_id r = ar_analysis_id held \<or> ar_as_of r < ar_as_of held
        \<or> ar_as_of r = ar_as_of held \<and> ar_analysis_id r \<le> ar_analysis_id held)"

definition analysis_price :: "alert_codec \<Rightarrow> opportunity \<Rightarrow> analysis_result \<Rightarrow> rat" where
  "analysis_price codec active r = price_or (metric_decimal codec r ''reference_price'') (op_current_price active)"

definition with_analysis :: "analysis_result \<Rightarrow> rat \<Rightarrow> instant \<Rightarrow> opportunity \<Rightarrow> opportunity" where
  "with_analysis r price now active =
     active \<lparr> op_current_price := price, op_updated_at := now, op_revision := op_revision active + 1,
              op_latest_analyses := replace_analysis (op_latest_analyses active) r,
              op_source_analysis_ids := bounded_source_ids (op_source_analysis_ids active) [ar_analysis_id r] \<rparr>"

definition l2_reclaim_levels :: "alert_codec \<Rightarrow> opportunity \<Rightarrow> analysis_result \<Rightarrow> rat \<Rightarrow> (rat \<times> rat option) result" where
  "l2_reclaim_levels codec x r price =
     (case l2_anchor x of None \<Rightarrow> Inl AssertionError
      | Some anchor \<Rightarrow>
          (let level = price_or (metric_decimal codec r ''invalidation_level'') (cp_invalidation anchor) in
           Inr (if price \<le> level then cp_invalidation anchor else level,
                case analysis_target codec (op_latest_analyses x) price of Some v \<Rightarrow> Some v | None \<Rightarrow> cp_target anchor)))"

definition reclaim_request :: "analysis_result \<Rightarrow> rat \<Rightarrow> instant \<Rightarrow> rat \<Rightarrow> rat option \<Rightarrow> advance_request" where
  "reclaim_request r price now invalidation target =
     \<lparr> rq_level = EM_L4, rq_price = price, rq_now = now, rq_horizons = [AH_SWING, AH_INTRADAY],
       rq_source_ids = [ar_analysis_id r], rq_target = target, rq_invalidation = Some invalidation,
       rq_zone_low = None, rq_zone_high = None, rq_invalidations = same_for [AH_SWING, AH_INTRADAY] (Some invalidation),
       rq_targets = same_for [AH_SWING, AH_INTRADAY] target, rq_family = SF_CORE_ENTRY, rq_setup_id = None,
       rq_force = False, rq_regress = False \<rparr>"

definition reclaim_reasons :: "string list" where
  "reclaim_reasons = [''maturity_l4_reached'', ''l2_anchor_retested'', ''l2_zone_reclaim_confirmed'',
     ''five_minute_higher_low_confirmed'']"

definition bearish_failure :: "analysis_result \<Rightarrow> bool" where
  "bearish_failure r \<longleftrightarrow> ar_direction r = PD_BEARISH \<and> ar_verdict r \<in> {AV_AVOID, AV_CAUTION}"

definition long_structure_invalidates :: "opportunity \<Rightarrow> analysis_result \<Rightarrow> bool" where
  "long_structure_invalidates active r \<longleftrightarrow> op_primary_family active \<noteq> SF_GERI_COUNTERTREND
     \<and> ar_horizon r = AH_LONG_TERM \<and> (ar_verdict r = AV_AVOID \<or> bearish_failure r)"

text \<open>The opportunity as the analysis ends it or one of its horizons, with the reasons; None where it does neither.\<close>

definition apply_invalidation ::
  "opportunity \<Rightarrow> opportunity \<Rightarrow> analysis_result \<Rightarrow> instant \<Rightarrow> (opportunity \<times> string list) option result" where
  "apply_invalidation active updated r now =
     (let price = op_current_price updated; breached = price \<le> op_invalidation active in
      if breached \<or> long_structure_invalidates active r
      then bind_result (close_opportunity price now CR_ORIGINAL_THESIS_INVALIDATED LS_THESIS_BROKEN updated) (\<lambda>closed.
        Inr (Some (closed, [if breached then ''original_invalidation_breached'' else ''long_structure_invalidated''])))
      else if bearish_failure r \<and> op_status active \<in> {EO_CONFIRMING, EO_OPEN}
      then bind_result (close_horizon (ar_horizon r) price now LS_INVALIDATED updated) (\<lambda>(changed, closed_leg).
        let reasons = [lower (analysis_horizon_value (ar_horizon r)) @ ''_invalidated''] in
        if \<not> closed_leg then Inr None
        else if all_opened_terminal (op_legs changed)
        then bind_result (close_opportunity price now CR_ALL_HORIZONS_CLOSED LS_TIME_EXIT changed) (\<lambda>closed.
          Inr (Some (closed, reasons @ [''all_horizons_closed''])))
        else Inr (Some (changed, reasons)))
      else Inr None)"

definition invalidation_step ::
  "opportunity \<Rightarrow> opportunity \<Rightarrow> analysis_result \<Rightarrow> instant \<Rightarrow> opportunity_step option result" where
  "invalidation_step active updated r now =
     bind_result (apply_invalidation active updated r now) (\<lambda>outcome.
       case outcome of None \<Rightarrow> step_without_event updated
       | Some (changed, reasons) \<Rightarrow> step_with_event (ar_analysis_id r) now reasons True changed)"

definition analysis_step ::
  "alert_codec \<Rightarrow> opportunity_ids \<Rightarrow> analysis_result \<Rightarrow> instant \<Rightarrow> opportunity \<Rightarrow> opportunity_step option result" where
  "analysis_step codec ids r now active =
     (if analysis_outdated active r then Inr None
      else (let price = analysis_price codec active r; updated = with_analysis r price now active in
        if ar_horizon r \<noteq> AH_INTRADAY then invalidation_step active updated r now
        else (let (noted, retested) = record_l2_retest codec updated r price now in
          if retested \<and> l2_reclaim_confirmed codec noted r price
          then bind_result (l2_reclaim_levels codec noted r price) (\<lambda>(invalidation, target).
               bind_result (advance_opportunity ids (reclaim_request r price now invalidation target) noted)
                 (step_with_event (ar_analysis_id r) now reclaim_reasons True))
          else invalidation_step active noted r now)))"

section \<open>Alerts\<close>

definition alert_source :: "local_alert \<Rightarrow> string" where
  "alert_source a = ''LOCAL_ALERT:'' @ alert_kind_value (al_kind a)"

definition alert_invalidations :: "alert_codec \<Rightarrow> local_alert \<Rightarrow> opportunity \<Rightarrow> (analysis_horizon, rat) dict" where
  "alert_invalidations codec a active =
     foldl (\<lambda>d h. dput h (price_or (alert_horizon_level codec a h
         [''invalidation'', ''invalidation_level'', ''structural_invalidation'']) (op_invalidation active)) d)
       [] (al_horizons a)"

definition alert_targets :: "alert_codec \<Rightarrow> local_alert \<Rightarrow> rat \<Rightarrow> (analysis_horizon, rat) dict" where
  "alert_targets codec a price =
     foldl (\<lambda>d h. case alert_horizon_level codec a h [''objective'', ''target_2r'', ''objective_level'', ''take_profit''] of
         None \<Rightarrow> d | Some v \<Rightarrow> if price < v then dput h v d else d) [] (al_horizons a)"

definition alert_request :: "alert_codec \<Rightarrow> local_alert \<Rightarrow> entry_maturity \<Rightarrow> rat \<Rightarrow> opportunity \<Rightarrow> advance_request" where
  "alert_request codec a level price active =
     (let invalidations = alert_invalidations codec a active; targets = alert_targets codec a price;
          invalidation = (case lowest (dvalues invalidations) of None \<Rightarrow> op_invalidation active | Some p \<Rightarrow> p);
          zone = alert_zone codec a price invalidation
      in \<lparr> rq_level = level, rq_price = price, rq_now = al_created_at a, rq_horizons = al_horizons a,
           rq_source_ids = al_component_analysis_ids a, rq_target = lowest (dvalues targets),
           rq_invalidation = Some invalidation, rq_zone_low = (if level = EM_L2 then Some (fst zone) else None),
           rq_zone_high = (if level = EM_L2 then Some (snd zone) else None), rq_invalidations = invalidations,
           rq_targets = targets, rq_family = SF_CORE_ENTRY, rq_setup_id = None, rq_force = False, rq_regress = False \<rparr>)"

definition ingest_alert_step ::
  "alert_codec \<Rightarrow> opportunity_ids \<Rightarrow> local_alert \<Rightarrow> entry_maturity \<Rightarrow> opportunity option \<Rightarrow> opportunity_step option result" where
  "ingest_alert_step codec ids a level found =
     (case found of None \<Rightarrow> Inr None
      | Some active \<Rightarrow>
          if \<not> is_new_source_event active (alert_source a) (al_created_at a) (al_alert_id a) then Inr None
          else (let price = price_or (alert_price codec a) (op_current_price active) in
            bind_result (advance_opportunity ids (alert_request codec a level price active) active) (\<lambda>advanced.
            bind_result (with_source_cursor (alert_source a) (al_created_at a) (al_alert_id a) advanced) (\<lambda>changed.
              step_with_event (al_alert_id a) (al_created_at a)
                ((''maturity_'' @ lower (entry_maturity_value level) @ ''_reached'') # al_reasons a)
                (material_change changed active \<or> op_legs changed \<noteq> op_legs active) changed))))"

section \<open>Bars\<close>

definition bar_applies :: "opportunity \<Rightarrow> market_bar \<Rightarrow> bool" where
  "bar_applies active b \<longleftrightarrow> op_armed_at active \<le> mb_timestamp b
     \<and> opt_all (\<lambda>last. last < mb_timestamp b) (op_last_market_bar_at active)"

definition session_closed_leg :: "zone \<Rightarrow> market_bar \<Rightarrow> horizon_leg \<Rightarrow> horizon_leg result" where
  "session_closed_leg z b l =
     (if is_regular_close z (mb_timestamp b) \<and> hl_horizon l = AH_INTRADAY \<and> hl_status l = LS_OPEN
      then close_leg l (mb_close b) (mb_timestamp b) LS_SESSION_CLOSED else Inr l)"

definition session_reasons :: "zone \<Rightarrow> market_bar \<Rightarrow> horizon_leg list \<Rightarrow> string list" where
  "session_reasons z b legs =
     map (\<lambda>l. ''intraday_session_closed'')
       (filter (\<lambda>l. is_regular_close z (mb_timestamp b) \<and> hl_horizon l = AH_INTRADAY \<and> hl_status l = LS_OPEN) legs)"

definition marked_by_bar :: "market_bar \<Rightarrow> horizon_leg list \<Rightarrow> maturity_checkpoint list \<Rightarrow> opportunity \<Rightarrow> opportunity" where
  "marked_by_bar b legs checkpoints active =
     active \<lparr> op_current_price := mb_close b, op_updated_at := max (op_updated_at active) (mb_timestamp b),
              op_last_market_bar_at := Some (mb_timestamp b), op_revision := op_revision active + 1,
              op_legs := legs, op_checkpoints := checkpoints \<rparr>"

definition settle_bar ::
  "zone \<Rightarrow> opportunity_ids \<Rightarrow> market_bar \<Rightarrow> horizon_leg list \<Rightarrow> maturity_checkpoint list \<Rightarrow> string list \<Rightarrow> opportunity \<Rightarrow>
   opportunity_step option result" where
  "settle_bar z ids b legs checkpoints reasons active =
     bind_result (map_result (session_closed_leg z b) legs) (\<lambda>settled.
       let updated = marked_by_bar b settled checkpoints active; reasons' = reasons @ session_reasons z b legs in
       if all_opened_terminal settled
       then bind_result (close_opportunity (mb_close b) (mb_timestamp b) CR_ALL_HORIZONS_CLOSED LS_TIME_EXIT updated)
         (step_with_event (oi_event ids) (mb_timestamp b) (reasons' @ [''all_horizons_closed'']) True)
       else if reasons' = [] then step_without_event updated
       else step_with_event (oi_event ids) (mb_timestamp b) reasons' True updated)"

definition bar_step ::
  "zone \<Rightarrow> opportunity_ids \<Rightarrow> market_bar \<Rightarrow> opportunity \<Rightarrow> opportunity_step option result" where
  "bar_step z ids b active =
     (if \<not> bar_applies active b then Inr None
      else bind_result (map_result (mark_checkpoint z b) (op_checkpoints active)) (\<lambda>marked.
           bind_result (map_result (mark_leg b) (op_legs active)) (\<lambda>legs.
           let checkpoints = op_checkpoints (record_l2_bar_retest (active \<lparr> op_checkpoints := marked \<rparr>) b) in
           bind_result (leg_close_reasons (op_legs active) legs) (\<lambda>leg_texts.
           bind_result (checkpoint_close_reasons (op_checkpoints active) checkpoints) (\<lambda>checkpoint_texts.
             if mb_low b \<le> op_invalidation active
             then bind_result (close_opportunity (op_invalidation active) (mb_timestamp b) CR_ORIGINAL_THESIS_INVALIDATED
                 LS_THESIS_BROKEN (active \<lparr> op_checkpoints := checkpoints, op_legs := legs,
                   op_last_market_bar_at := Some (mb_timestamp b) \<rparr>))
               (step_with_event (oi_event ids) (mb_timestamp b) [''original_invalidation_breached''] True)
             else settle_bar z ids b legs checkpoints (leg_texts @ checkpoint_texts) active)))))"

definition reference_bar_step :: "market_bar \<Rightarrow> opportunity \<Rightarrow> opportunity_step option result" where
  "reference_bar_step b active =
     (if \<not> bar_applies active b then Inr None
      else step_without_event (marked_by_bar b
        (map (\<lambda>l. if hl_status l \<in> {LS_WATCHING, LS_OPEN} then l \<lparr> hl_current_price := mb_close b \<rparr> else l) (op_legs active))
        (map (\<lambda>c. if cp_status c = CS_OPEN then c \<lparr> cp_current_price := mb_close b \<rparr> else c) (op_checkpoints active))
        active))"

section \<open>Handlers\<close>

definition commit_step ::
  "'s opportunity_port \<Rightarrow> 's \<Rightarrow> opportunity_step option \<Rightarrow> (opportunity_event list \<times> 's) result" where
  "commit_step port s outcome =
     (case outcome of None \<Rightarrow> Inr ([], s)
      | Some p \<Rightarrow>
          bind_result (os_save port (ps_opportunity p) (ps_event p) s) (\<lambda>s'.
            Inr (if ps_returned p then present [ps_event p] else [], s')))"

definition ingest_transition ::
  "'s opportunity_port \<Rightarrow> bool \<Rightarrow> opportunity_ids \<Rightarrow> watch_transition \<Rightarrow> 's \<Rightarrow> (opportunity_event list \<times> 's) result" where
  "ingest_transition port regress ids t s =
     (if os_event_seen port s (tr_transition_id t) then Inr ([], s)
      else bind_result (transition_step regress ids t (os_load_active port s (tr_symbol t))) (commit_step port s))"

definition ingest_analysis ::
  "'s opportunity_port \<Rightarrow> alert_codec \<Rightarrow> opportunity_ids \<Rightarrow> analysis_result \<Rightarrow> instant \<Rightarrow> 's \<Rightarrow>
   (opportunity_event list \<times> 's) result" where
  "ingest_analysis port codec ids r now s =
     (case os_load_active port s (ar_symbol r) of None \<Rightarrow> Inr ([], s)
      | Some active \<Rightarrow>
          if os_event_seen port s (ar_analysis_id r) then Inr ([], s)
          else bind_result (analysis_step codec ids r now active) (commit_step port s))"

definition ingest_alert ::
  "'s opportunity_port \<Rightarrow> alert_codec \<Rightarrow> opportunity_ids \<Rightarrow> local_alert \<Rightarrow> 's \<Rightarrow> (opportunity_event list \<times> 's) result" where
  "ingest_alert port codec ids a s =
     (case alert_maturity a of None \<Rightarrow> Inr ([], s)
      | Some level \<Rightarrow>
          if os_event_seen port s (al_alert_id a) then Inr ([], s)
          else bind_result (ingest_alert_step codec ids a level (os_load_active port s (al_symbol a))) (commit_step port s))"

definition ingest_bar ::
  "'s opportunity_port \<Rightarrow> zone \<Rightarrow> bool \<Rightarrow> opportunity_ids \<Rightarrow> market_bar \<Rightarrow> 's \<Rightarrow> (opportunity_event list \<times> 's) result" where
  "ingest_bar port z extended_hours ids b s =
     (if \<not> mb_is_final b \<or> mb_timeframe b \<noteq> TF_MINUTE_1 \<or> \<not> extended_hours \<and> \<not> is_regular_session z (mb_timestamp b)
      then Inr ([], s)
      else case os_load_active port s (mb_symbol b) of None \<Rightarrow> Inr ([], s)
      | Some active \<Rightarrow> bind_result (bar_step z ids b active) (commit_step port s))"

definition ingest_reference_bar :: "'s opportunity_port \<Rightarrow> market_bar \<Rightarrow> 's \<Rightarrow> (opportunity_event list \<times> 's) result" where
  "ingest_reference_bar port b s =
     (if \<not> mb_is_final b \<or> mb_timeframe b \<noteq> TF_MINUTE_1 then Inr ([], s)
      else case os_load_active port s (mb_symbol b) of None \<Rightarrow> Inr ([], s)
      | Some active \<Rightarrow> bind_result (reference_bar_step b active) (commit_step port s))"

definition reconcile_step ::
  "opportunity_ids \<Rightarrow> instant \<Rightarrow> string list \<Rightarrow> opportunity \<Rightarrow> opportunity_step option result" where
  "reconcile_step ids now symbols active =
     (if op_expires_at active \<le> now
      then bind_result (close_opportunity (op_current_price active) now CR_EXPIRED LS_EXPIRED active)
        (step_with_event (oi_event ids) now [''opportunity_expired''] True)
      else if op_symbol active \<notin> set (map norm_symbol symbols)
      then bind_result (close_opportunity (op_current_price active) now CR_UNIVERSE_REMOVED LS_TIME_EXIT active)
        (step_with_event (oi_event ids) now [''symbol_removed_from_universe''] True)
      else Inr None)"

text \<open>Every closure is saved before the next one is decided, so an error keeps the earlier ones.\<close>

fun reconcile_each ::
  "'s opportunity_port \<Rightarrow> (opportunity \<Rightarrow> opportunity_ids) \<Rightarrow> instant \<Rightarrow> string list \<Rightarrow> opportunity list \<Rightarrow>
   opportunity_event list \<Rightarrow> 's \<Rightarrow> opportunity_event list result \<times> 's" where
  "reconcile_each port ids now symbols [] events s = (Inr events, s)"
| "reconcile_each port ids now symbols (x # xs) events s =
     (case bind_result (reconcile_step (ids x) now symbols x) (commit_step port s) of
        Inl e \<Rightarrow> (Inl e, s)
      | Inr (returned, s') \<Rightarrow> reconcile_each port ids now symbols xs (events @ returned) s')"

definition reconcile ::
  "'s opportunity_port \<Rightarrow> (opportunity \<Rightarrow> opportunity_ids) \<Rightarrow> instant \<Rightarrow> string list \<Rightarrow> 's \<Rightarrow>
   opportunity_event list result \<times> 's" where
  "reconcile port ids now symbols s = reconcile_each port ids now symbols (os_list_active port s) [] s"

end
