(* ===== verification/Opportunity_Laws.thy ===== *)
theory Opportunity_Laws
  imports Opportunity_Engine
begin

text \<open>
  What the building blocks of the opportunity engine keep: the contracts of legs, checkpoints and
  opportunities, which the code copies without validating them again, and the history of a paper trade,
  which no later event may rewrite.
\<close>

section \<open>Validity of the parts\<close>

lemma guard_Inr: "((if a then Inl e else r) = Inr x) = (\<not> a \<and> r = Inr x)"
  by simp

lemma check_Inr: "((case z of Some e \<Rightarrow> Inl e | None \<Rightarrow> r) = Inr x) = (z = None \<and> r = Inr x)"
  by (cases z) simp_all

definition leg_valid :: "horizon_leg \<Rightarrow> bool" where "leg_valid l \<longleftrightarrow> make_leg l = Inr l"

definition checkpoint_valid :: "maturity_checkpoint \<Rightarrow> bool" where "checkpoint_valid c \<longleftrightarrow> make_checkpoint c = Inr c"

lemma leg_valid_iff:
  "leg_valid l \<longleftrightarrow> leg_fields l \<and> \<not> protection_partial (hl_protection_stop l) (hl_protection_updated_at l) (hl_protection_rule_version l)
     \<and> is_uuid7 (hl_leg_id l) \<and> (hl_status l \<noteq> LS_WATCHING \<longrightarrow> hl_opened_at l \<noteq> None \<and> hl_entry_price l \<noteq> None)
     \<and> opt_all (\<lambda>opened. opt_all (\<lambda>expires. opened < expires) (hl_expires_at l)) (hl_opened_at l)
     \<and> ((hl_status l \<notin> {LS_WATCHING, LS_OPEN}) = (hl_closed_at l \<noteq> None \<and> hl_exit_price l \<noteq> None \<and> hl_gain_loss l \<noteq> None))
     \<and> hl_lowest_price l \<le> hl_highest_price l \<and> map_option strip (hl_setup_id l) = hl_setup_id l"
proof -
  have "l \<lparr> hl_setup_id := s \<rparr> = l \<longleftrightarrow> s = hl_setup_id l" for s by (cases l) auto
  then show ?thesis
    by (simp only: leg_valid_def make_leg_def is_uuid7_def guard_Inr sum.inject not_not not_less)
      (auto 0 0)
qed

definition maturity_mismatch :: "signal_family \<Rightarrow> countertrend_maturity option \<Rightarrow> swing_trade_maturity option \<Rightarrow> bool" where
  "maturity_mismatch family ct st \<longleftrightarrow> (if family = SF_GERI_COUNTERTREND then ct = None \<or> st \<noteq> None else ct \<noteq> None)"

lemma checkpoint_valid_iff:
  "checkpoint_valid c \<longleftrightarrow> checkpoint_fields c
     \<and> \<not> (cp_recovery_exit c \<noteq> None \<and> (cp_signal_family c \<noteq> SF_CORE_RECOVERY \<or> cp_trade_side c \<noteq> TS_LONG \<or> cp_level c \<notin> {EM_L1, EM_L2, EM_L3, EM_L4}))
     \<and> \<not> protection_partial (cp_protection_stop c) (cp_protection_updated_at c) (cp_protection_rule_version c)
     \<and> is_uuid7 (cp_checkpoint_id c)
     \<and> (cp_status c = CS_CLOSED) = (cp_closed_at c \<noteq> None \<and> cp_exit_price c \<noteq> None)
     \<and> (cp_status c = CS_CLOSED) = (cp_outcome c \<noteq> None \<and> cp_gain_loss c \<noteq> None)
     \<and> cp_lowest_price c \<le> cp_highest_price c \<and> (cp_zone_low c = None) = (cp_zone_high c = None)
     \<and> checkpoint_zone_error c = None \<and> (cp_retested_at c = None) = (cp_retest_low c = None)
     \<and> \<not> maturity_mismatch (cp_signal_family c) (cp_countertrend_maturity c) (cp_swing_trade_maturity c)
     \<and> map_option strip (cp_setup_id c) = cp_setup_id c"
proof -
  have strips: "c \<lparr> cp_setup_id := s \<rparr> = c \<longleftrightarrow> s = cp_setup_id c" for s by (cases c) auto
  show ?thesis
  proof (cases "cp_signal_family c = SF_GERI_COUNTERTREND")
    case True
    show ?thesis
      by (simp only: checkpoint_valid_def make_checkpoint_def is_uuid7_def maturity_mismatch_def guard_Inr check_Inr if_P [OF True] sum.inject strips
          not_less not_not)
  next
    case False
    show ?thesis
      by (simp only: checkpoint_valid_def make_checkpoint_def is_uuid7_def maturity_mismatch_def guard_Inr check_Inr if_not_P [OF False] sum.inject strips
          not_less not_not)
  qed
qed

lemma make_checkpoint_valid:
  assumes "make_checkpoint c = Inr c'"
  shows "c' = c \<lparr> cp_setup_id := map_option strip (cp_setup_id c) \<rparr>" "checkpoint_valid c'"
proof -
  show c': "c' = c \<lparr> cp_setup_id := map_option strip (cp_setup_id c) \<rparr>"
    using assms by (auto simp: make_checkpoint_def split: if_splits option.splits)
  have "map_option strip (map_option strip s) = map_option strip s" for s by (cases s) simp_all
  moreover have "opt_all non_empty_str (map_option strip s) = opt_all non_empty_str s" for s
    by (cases s) (simp_all add: non_empty_str_def)
  ultimately show "checkpoint_valid c'"
    using assms unfolding c'
    by (auto simp: make_checkpoint_def checkpoint_valid_iff is_uuid7_def checkpoint_fields_def checkpoint_zone_error_def
        maturity_mismatch_def split: if_splits option.splits)
qed

lemma make_leg_valid:
  assumes "make_leg l = Inr l'" "hl_setup_id l = None"
  shows "l' = l" "leg_valid l"
proof -
  have "l \<lparr> hl_setup_id := None \<rparr> = l" using assms(2) by (cases l) simp
  then show "l' = l" using assms by (auto simp: make_leg_def split: if_splits)
  then show "leg_valid l" using assms(1) by (simp add: leg_valid_def)
qed

lemma terminal_iff [simp]: "status \<in> terminal_legs \<longleftrightarrow> status \<noteq> LS_WATCHING \<and> status \<noteq> LS_OPEN"
  by (cases status) (simp_all add: terminal_legs_def)

section \<open>Closing and marking\<close>

definition leg_evolves :: "horizon_leg \<Rightarrow> horizon_leg \<Rightarrow> bool" where
  "leg_evolves l l' \<longleftrightarrow> hl_leg_id l' = hl_leg_id l \<and> hl_horizon l' = hl_horizon l \<and> hl_setup_id l' = hl_setup_id l
     \<and> (hl_status l \<in> terminal_legs \<longrightarrow> l' = l)
     \<and> (hl_status l = LS_OPEN \<longrightarrow> hl_status l' \<noteq> LS_WATCHING \<and> hl_opened_at l' = hl_opened_at l
          \<and> hl_entry_price l' = hl_entry_price l \<and> hl_invalidation l' = hl_invalidation l \<and> hl_target l' = hl_target l)"

lemma leg_evolves_refl [simp]: "leg_evolves l l" by (simp add: leg_evolves_def)

lemma leg_evolves_trans: "leg_evolves l l' \<Longrightarrow> leg_evolves l' l'' \<Longrightarrow> leg_evolves l l''"
  by (cases "hl_status l"; cases "hl_status l'") (simp_all add: leg_evolves_def)

definition retested_only :: "maturity_checkpoint \<Rightarrow> maturity_checkpoint \<Rightarrow> bool" where
  "retested_only c c' \<longleftrightarrow> (\<exists>touched low. c' = c \<lparr> cp_retested_at := touched, cp_retest_low := low \<rparr>)"

lemma retested_only_simps: "retested_only c c" "retested_only c (c \<lparr> cp_retested_at := t, cp_retest_low := p \<rparr>)"
  unfolding retested_only_def by (rule exI [of _ "cp_retested_at c"], rule exI [of _ "cp_retest_low c"], simp) blast

lemma retested_only_trans: "retested_only c c' \<Longrightarrow> retested_only c' c'' \<Longrightarrow> retested_only c c''"
  unfolding retested_only_def by (elim exE) (simp, blast)

lemma retested_only_status: "retested_only c c' \<Longrightarrow> cp_status c' = cp_status c"
  by (auto simp: retested_only_def)

definition checkpoint_thesis :: "maturity_checkpoint \<Rightarrow> uuid \<times> checkpoint_key \<times> instant \<times> rat \<times> rat \<times> rat option \<times> rat option \<times> rat option" where
  "checkpoint_thesis c = (cp_checkpoint_id c, checkpoint_key c, cp_reached_at c, cp_entry_price c, cp_invalidation c,
     cp_target c, cp_zone_low c, cp_zone_high c)"

definition checkpoint_evolves :: "maturity_checkpoint \<Rightarrow> maturity_checkpoint \<Rightarrow> bool" where
  "checkpoint_evolves c c' \<longleftrightarrow> checkpoint_thesis c' = checkpoint_thesis c \<and> (cp_status c = CS_CLOSED \<longrightarrow> retested_only c c')"

lemma checkpoint_evolves_refl [simp]: "checkpoint_evolves c c" by (simp add: checkpoint_evolves_def retested_only_simps)

lemma checkpoint_evolves_trans: "checkpoint_evolves c c' \<Longrightarrow> checkpoint_evolves c' c'' \<Longrightarrow> checkpoint_evolves c c''"
  unfolding checkpoint_evolves_def by (metis retested_only_trans retested_only_status)

lemmas checkpoint_thesis_simps = checkpoint_thesis_def checkpoint_key_def

lemma close_leg_open:
  assumes "close_leg l price now status = Inr l'" "hl_status l = LS_OPEN"
  obtains entry gain mfe mae where "hl_entry_price l = Some entry"
    "l' = l \<lparr> hl_status := status, hl_current_price := price, hl_closed_at := Some now, hl_exit_price := Some price,
       hl_gain_loss := Some gain, hl_highest_price := max (hl_highest_price l) price,
       hl_lowest_price := min (hl_lowest_price l) price, hl_mfe := mfe, hl_mae := mae \<rparr>"
    "percent price entry = Inr gain"
  using assms by (auto simp: close_leg_def split: option.splits)

lemma close_leg_keeps:
  assumes "close_leg l price now status = Inr l'" "leg_valid l" "0 < price" "status \<in> terminal_legs" "hl_status l = LS_OPEN"
  shows "leg_valid l'" "leg_evolves l l'" "hl_status l' = status" "hl_exit_price l' = Some price"
proof -
  obtain entry gain mfe mae where l': "l' = l \<lparr> hl_status := status, hl_current_price := price, hl_closed_at := Some now,
      hl_exit_price := Some price, hl_gain_loss := Some gain, hl_highest_price := max (hl_highest_price l) price,
      hl_lowest_price := min (hl_lowest_price l) price, hl_mfe := mfe, hl_mae := mae \<rparr>"
    by (rule close_leg_open [OF assms(1,5)])
  then show "hl_status l' = status" "hl_exit_price l' = Some price" by simp_all
  show "leg_valid l'" using assms(2-5) unfolding l' leg_valid_iff by (auto simp: leg_fields_def positive_def)
  show "leg_evolves l l'" using assms(4,5) unfolding l' by (auto simp: leg_evolves_def)
qed

lemma close_checkpoint_open:
  assumes "close_checkpoint c price now outcome = Inr c'" "cp_status c = CS_OPEN"
  obtains gain mfe mae where
    "c' = c \<lparr> cp_status := CS_CLOSED, cp_current_price := price, cp_closed_at := Some now, cp_exit_price := Some price,
       cp_outcome := Some outcome, cp_gain_loss := Some gain, cp_highest_price := max (cp_highest_price c) price,
       cp_lowest_price := min (cp_lowest_price c) price, cp_mfe := mfe, cp_mae := mae \<rparr>"
    "percent price (cp_entry_price c) = Inr gain"
  using assms by (auto simp: close_checkpoint_def)

lemma zone_error_cong:
  assumes "cp_zone_low c' = cp_zone_low c" "cp_zone_high c' = cp_zone_high c" "cp_trade_side c' = cp_trade_side c"
    "cp_signal_family c' = cp_signal_family c" "cp_entry_price c' = cp_entry_price c" "cp_invalidation c' = cp_invalidation c"
  shows "checkpoint_zone_error c' = checkpoint_zone_error c"
  by (simp only: checkpoint_zone_error_def assms)

lemma close_checkpoint_keeps:
  assumes "close_checkpoint c price now outcome = Inr c'" "checkpoint_valid c" "0 < price" "cp_status c = CS_OPEN"
  shows "checkpoint_valid c'" "checkpoint_evolves c c'" "cp_status c' = CS_CLOSED"
proof -
  obtain gain mfe mae where c': "c' = c \<lparr> cp_status := CS_CLOSED, cp_current_price := price, cp_closed_at := Some now,
      cp_exit_price := Some price, cp_outcome := Some outcome, cp_gain_loss := Some gain,
      cp_highest_price := max (cp_highest_price c) price, cp_lowest_price := min (cp_lowest_price c) price,
      cp_mfe := mfe, cp_mae := mae \<rparr>"
    by (rule close_checkpoint_open [OF assms(1,4)])
  have "checkpoint_zone_error c' = checkpoint_zone_error c" unfolding c' by (rule zone_error_cong) simp_all
  then show "checkpoint_valid c'"
    using assms(2-4) unfolding c' checkpoint_valid_iff checkpoint_fields_def positive_def
    by (simp add: less_max_iff_disj min_le_iff_disj le_max_iff_disj)
  show "checkpoint_evolves c c'" "cp_status c' = CS_CLOSED"
    using assms(4) unfolding c' by (simp_all add: checkpoint_evolves_def checkpoint_thesis_simps)
qed

lemma marked_checkpoint_keeps:
  assumes "marked_checkpoint z c b = Inr c'" "checkpoint_valid c" "valid_bar b" "cp_status c = CS_OPEN"
  shows "checkpoint_valid c'" "checkpoint_thesis c' = checkpoint_thesis c" "cp_status c' = CS_OPEN"
proof -
  obtain mfe mae r15 r30 r60 rc where c': "c' = c \<lparr> cp_current_price := mb_close b,
      cp_highest_price := max (cp_highest_price c) (mb_high b), cp_lowest_price := min (cp_lowest_price c) (mb_low b),
      cp_mfe := mfe, cp_mae := mae, cp_return_15m := r15, cp_return_30m := r30, cp_return_60m := r60, cp_return_close := rc \<rparr>"
    using assms(1) by (auto simp: marked_checkpoint_def Let_def)
  have bar: "0 < mb_close b" "0 < mb_high b" "0 < mb_low b" "mb_low b \<le> mb_high b"
    using assms(3) by (auto simp: valid_bar_iff market_bar_fields_def)
  have "checkpoint_zone_error c' = checkpoint_zone_error c" unfolding c' by (rule zone_error_cong) simp_all
  then show "checkpoint_valid c'"
    using assms(2,4) bar unfolding c' checkpoint_valid_iff checkpoint_fields_def positive_def
    by (simp add: less_max_iff_disj min_le_iff_disj le_max_iff_disj)
  show "checkpoint_thesis c' = checkpoint_thesis c" "cp_status c' = CS_OPEN"
    using assms(4) unfolding c' by (simp_all add: checkpoint_thesis_simps)
qed

lemma checkpoint_prices:
  assumes "checkpoint_valid c"
  shows "0 < cp_invalidation c" "cp_target c = Some p \<Longrightarrow> 0 < p" "cp_zone_low c = Some q \<Longrightarrow> 0 < q" "0 < cp_entry_price c"
  using assms by (auto simp: checkpoint_valid_iff checkpoint_fields_def positive_def)

lemma mark_checkpoint_keeps:
  assumes "mark_checkpoint z b c = Inr c'" "checkpoint_valid c" "valid_bar b"
  shows "checkpoint_valid c'" "checkpoint_evolves c c'"
proof -
  have "checkpoint_valid c' \<and> checkpoint_evolves c c'"
  proof (cases "cp_status c = CS_CLOSED \<or> mb_timestamp b \<le> cp_reached_at c")
    case True
    then show ?thesis using assms(1,2) by (auto simp: mark_checkpoint_def)
  next
    case False
    then have "cp_status c = CS_OPEN" by (cases "cp_status c") simp_all
    obtain m where m: "marked_checkpoint z c b = Inr m"
      and outcome: "c' = m \<or> close_checkpoint m (cp_invalidation c) (mb_timestamp b) LS_INVALIDATED = Inr c' \<or>
        (\<exists>target. cp_target c = Some target \<and> close_checkpoint m target (mb_timestamp b) LS_TARGET_HIT = Inr c')"
      using assms(1) False by (auto simp: mark_checkpoint_def split: if_splits option.splits)
    note marked = marked_checkpoint_keeps [OF m assms(2,3) \<open>cp_status c = CS_OPEN\<close>]
    have "checkpoint_evolves c m" using marked(2) \<open>cp_status c = CS_OPEN\<close> by (simp add: checkpoint_evolves_def)
    with outcome marked show ?thesis
      using close_checkpoint_keeps [OF _ marked(1) _ marked(3)] checkpoint_prices [OF assms(2)] checkpoint_evolves_trans
      by blast
  qed
  then show "checkpoint_valid c'" "checkpoint_evolves c c'" by simp_all
qed

lemma leg_prices:
  assumes "leg_valid l"
  shows "0 < hl_invalidation l" "hl_target l = Some p \<Longrightarrow> 0 < p" "hl_entry_price l = Some q \<Longrightarrow> 0 < q"
  using assms by (auto simp: leg_valid_iff leg_fields_def positive_def)

text \<open>What a bar does to an open leg: the stop comes before the target.\<close>

definition leg_settled :: "market_bar \<Rightarrow> horizon_leg \<Rightarrow> horizon_leg \<Rightarrow> bool" where
  "leg_settled b l l' \<longleftrightarrow>
     (if mb_low b \<le> hl_invalidation l
      then hl_status l' = LS_INVALIDATED \<and> hl_exit_price l' = Some (hl_invalidation l)
      else case hl_target l of
        Some target \<Rightarrow>
          if target \<le> mb_high b then hl_status l' = LS_TARGET_HIT \<and> hl_exit_price l' = Some target
          else hl_status l' = LS_OPEN \<and> hl_current_price l' = mb_close b
      | None \<Rightarrow> hl_status l' = LS_OPEN \<and> hl_current_price l' = mb_close b)"

lemma mark_open_leg_keeps:
  assumes "mark_open_leg l entry b = Inr l'" "leg_valid l" "valid_bar b" "hl_status l = LS_OPEN"
  shows "leg_valid l'" "leg_evolves l l'" "leg_settled b l l'"
proof -
  obtain mfe mae where m: "m = l \<lparr> hl_current_price := mb_close b, hl_highest_price := max (hl_highest_price l) (mb_high b),
      hl_lowest_price := min (hl_lowest_price l) (mb_low b), hl_mfe := mfe, hl_mae := mae \<rparr> \<Longrightarrow>
      (if mb_low b \<le> hl_invalidation l then close_leg m (hl_invalidation l) (mb_timestamp b) LS_INVALIDATED
       else case hl_target l of None \<Rightarrow> Inr m
       | Some target \<Rightarrow> if target \<le> mb_high b then close_leg m target (mb_timestamp b) LS_TARGET_HIT else Inr m) = Inr l'" for m
    using assms(1) by (auto simp: mark_open_leg_def Let_def)
  define m where "m = l \<lparr> hl_current_price := mb_close b, hl_highest_price := max (hl_highest_price l) (mb_high b),
      hl_lowest_price := min (hl_lowest_price l) (mb_low b), hl_mfe := mfe, hl_mae := mae \<rparr>"
  note outcome = m [OF m_def]
  have bar: "0 < mb_close b" "0 < mb_high b" "0 < mb_low b" "mb_low b \<le> mb_high b"
    using assms(3) by (auto simp: valid_bar_iff market_bar_fields_def)
  have valid: "leg_valid m" using assms(2,4) bar unfolding m_def leg_valid_iff by (auto simp: leg_fields_def positive_def)
  have status: "hl_status m = LS_OPEN" "leg_evolves l m" "hl_current_price m = mb_close b"
    using assms(4) by (simp_all add: m_def leg_evolves_def)
  note closing = close_leg_keeps [OF _ valid _ _ status(1)]
  note prices = leg_prices [OF assms(2)]
  have "leg_valid l' \<and> leg_evolves m l' \<and> leg_settled b l l'"
  proof (cases "mb_low b \<le> hl_invalidation l")
    case True
    then show ?thesis using outcome closing [of "hl_invalidation l" "mb_timestamp b" LS_INVALIDATED l'] prices(1)
      by (simp add: leg_settled_def)
  next
    case False
    show ?thesis
    proof (cases "\<exists>target. hl_target l = Some target \<and> target \<le> mb_high b")
      case True
      then obtain target where "hl_target l = Some target" "target \<le> mb_high b" by blast
      with False outcome show ?thesis
        using closing [of target "mb_timestamp b" LS_TARGET_HIT l'] prices(2) by (simp add: leg_settled_def)
    next
      case unreached: False
      with False outcome have "l' = m" by (cases "hl_target l") auto
      moreover have "\<not> target \<le> mb_high b" if "hl_target l = Some target" for target using unreached that by blast
      then have "leg_settled b l m" using False status by (cases "hl_target l") (simp_all add: leg_settled_def)
      ultimately show ?thesis using valid by simp
    qed
  qed
  then show "leg_valid l'" "leg_evolves l l'" "leg_settled b l l'" using leg_evolves_trans [OF status(2)] by simp_all
qed

lemma mark_leg_keeps:
  assumes "mark_leg b l = Inr l'" "leg_valid l" "valid_bar b"
  shows "leg_valid l'" "leg_evolves l l'"
    "hl_status l = LS_OPEN \<and> (\<exists>opened\<in>set_option (hl_opened_at l). opened < mb_timestamp b) \<Longrightarrow> leg_settled b l l'"
    "\<not> (hl_status l = LS_OPEN \<and> (\<exists>opened\<in>set_option (hl_opened_at l). opened < mb_timestamp b)) \<Longrightarrow> l' = l"
proof -
  consider (same) "l' = l" "\<not> (hl_status l = LS_OPEN \<and> (\<exists>opened\<in>set_option (hl_opened_at l). opened < mb_timestamp b))"
    | (marked) entry where "mark_open_leg l entry b = Inr l'" "hl_status l = LS_OPEN"
        "\<exists>opened\<in>set_option (hl_opened_at l). opened < mb_timestamp b"
  proof (cases "hl_opened_at l")
    case None
    then show ?thesis using assms(1) by (intro same) (simp_all add: mark_leg_def)
  next
    case (Some opened)
    show ?thesis
    proof (cases "hl_status l \<noteq> LS_OPEN \<or> mb_timestamp b \<le> opened")
      case True
      with Some show ?thesis using assms(1) by (intro same) (auto simp: mark_leg_def)
    next
      case False
      with Some assms(1) obtain entry where "mark_open_leg l entry b = Inr l'"
        by (cases "hl_entry_price l") (auto simp: mark_leg_def)
      with Some False show ?thesis by (intro marked) auto
    qed
  qed
  then have "leg_valid l' \<and> leg_evolves l l' \<and>
      (if hl_status l = LS_OPEN \<and> (\<exists>opened\<in>set_option (hl_opened_at l). opened < mb_timestamp b) then leg_settled b l l' else l' = l)"
    using mark_open_leg_keeps assms(2,3) by cases auto
  then show "leg_valid l'" "leg_evolves l l'"
    "hl_status l = LS_OPEN \<and> (\<exists>opened\<in>set_option (hl_opened_at l). opened < mb_timestamp b) \<Longrightarrow> leg_settled b l l'"
    "\<not> (hl_status l = LS_OPEN \<and> (\<exists>opened\<in>set_option (hl_opened_at l). opened < mb_timestamp b)) \<Longrightarrow> l' = l"
    by (auto split: if_splits)
qed

end
