(* ===== verification/Opportunity_History.thy ===== *)
theory Opportunity_History
  imports Opportunity_Laws
begin

text \<open>
  How an opportunity may develop: its thesis is fixed, its revision and its peak maturity only grow, its
  legs and checkpoints stay and their outcomes are final. Every building block of the engine develops the
  opportunity and keeps it valid.
\<close>

section \<open>Valid opportunities\<close>

definition opportunity_sources :: "string list" where
  "opportunity_sources = watcher_source # map (\<lambda>k. ''LOCAL_ALERT:'' @ alert_kind_value k)
     [AK_ENTRY_CONFIRMED, AK_HIGH_CONVICTION_BUY, AK_LONG_PORTFOLIO_BUY, AK_PATREON_CAPS_BUY, AK_ENTRY_WATCH]"

definition legs_ok :: "horizon_leg list \<Rightarrow> bool" where
  "legs_ok legs \<longleftrightarrow> (\<forall>l\<in>set legs. leg_valid l \<and> hl_setup_id l = None \<and> hl_expires_at l = None) \<and> distinct (map hl_horizon legs)"

definition checkpoints_ok :: "maturity_checkpoint list \<Rightarrow> bool" where
  "checkpoints_ok cs \<longleftrightarrow> cs \<noteq> [] \<and> (\<forall>c\<in>set cs. checkpoint_valid c) \<and> distinct (map checkpoint_key cs)"

definition cursors_ok :: "source_cursor list \<Rightarrow> bool" where
  "cursors_ok cs \<longleftrightarrow> (\<forall>c\<in>set cs. make_cursor c = Inr c \<and> sc_source c \<in> set opportunity_sources) \<and> distinct (map sc_source cs)"

text \<open>What the contract asks of the fields that change, and of those that do not.\<close>

definition thesis_ok :: "opportunity \<Rightarrow> bool" where
  "thesis_ok x \<longleftrightarrow> identifier_str (op_symbol x) \<and> 0 < op_zone_low x \<and> 0 < op_zone_high x \<and> 0 < op_invalidation x
     \<and> 0 < op_original_price x \<and> is_uuid7 (op_opportunity_id x) \<and> opt_all (\<lambda>w. uuid_version w = Some 7) (op_original_watch_id x)
     \<and> op_signal_references x = [] \<and> opportunity_level_error x = None"

definition state_ok :: "opportunity \<Rightarrow> bool" where
  "state_ok x \<longleftrightarrow> percent_score (op_progress x) \<and> 0 < op_current_price x \<and> 1 \<le> op_revision x
     \<and> op_source_analysis_ids x \<noteq> [] \<and> (\<forall>u\<in>set (op_source_analysis_ids x). is_uuid7 u)
     \<and> (op_status x = EO_CLOSED) = (op_closed_at x \<noteq> None \<and> op_close_reason x \<noteq> None)"

definition opportunity_ok :: "opportunity \<Rightarrow> bool" where
  "opportunity_ok x \<longleftrightarrow> thesis_ok x \<and> state_ok x \<and> legs_ok (op_legs x) \<and> checkpoints_ok (op_checkpoints x)
     \<and> cursors_ok (op_source_cursors x)"

lemma cursors_bounded:
  assumes "cursors_ok cs"
  shows "length cs \<le> 16"
proof -
  have "length cs = card (set (map sc_source cs))"
    using assms unfolding cursors_ok_def by (metis distinct_card length_map)
  also have "\<dots> \<le> card (set opportunity_sources)"
    using assms by (intro card_mono) (auto simp: cursors_ok_def)
  also have "\<dots> \<le> length opportunity_sources" by (rule card_length)
  also have "\<dots> \<le> 16" by (simp add: opportunity_sources_def)
  finally show ?thesis .
qed

lemma opportunity_ok_valid:
  assumes "opportunity_ok x"
  shows "make_opportunity x = Inr x"
proof -
  note parts = assms [unfolded opportunity_ok_def thesis_ok_def state_ok_def legs_ok_def checkpoints_ok_def]
  have fields: "opportunity_fields x" using parts cursors_bounded by (simp add: opportunity_fields_def)
  have cursors: "distinct (map sc_source (op_source_cursors x))" using parts by (simp add: cursors_ok_def)
  show ?thesis unfolding make_opportunity_def guard_Inr check_Inr using parts fields cursors by (simp add: is_uuid7_def)
qed

section \<open>Development\<close>

definition opportunity_thesis where
  "opportunity_thesis x = (op_opportunity_id x, op_trade_side x, op_symbol x, op_original_watch_id x, op_armed_at x,
     op_expires_at x, op_zone_low x, op_zone_high x, op_invalidation x, op_original_price x, op_primary_family x,
     op_signal_references x)"

definition legs_evolve :: "horizon_leg list \<Rightarrow> horizon_leg list \<Rightarrow> bool" where
  "legs_evolve ls ls' \<longleftrightarrow> (\<forall>l\<in>set ls. \<exists>l'\<in>set ls'. leg_evolves l l')"

definition checkpoints_extend :: "maturity_checkpoint list \<Rightarrow> maturity_checkpoint list \<Rightarrow> bool" where
  "checkpoints_extend cs cs' \<longleftrightarrow> length cs \<le> length cs' \<and> list_all2 checkpoint_evolves cs (take (length cs) cs')"

definition develops :: "opportunity \<Rightarrow> opportunity \<Rightarrow> bool" where
  "develops x x' \<longleftrightarrow> opportunity_thesis x' = opportunity_thesis x \<and> op_revision x \<le> op_revision x'
     \<and> maturity_rank (op_peak_maturity x) \<le> maturity_rank (op_peak_maturity x')
     \<and> legs_evolve (op_legs x) (op_legs x') \<and> checkpoints_extend (op_checkpoints x) (op_checkpoints x')"

lemma legs_evolve_refl [simp]: "legs_evolve ls ls"
  unfolding legs_evolve_def by (blast intro: leg_evolves_refl)

lemma legs_evolve_trans: "legs_evolve ls ls' \<Longrightarrow> legs_evolve ls' ls'' \<Longrightarrow> legs_evolve ls ls''"
  unfolding legs_evolve_def by (meson leg_evolves_trans)

lemma legs_evolve_all2: "list_all2 leg_evolves ls ls' \<Longrightarrow> legs_evolve ls ls'"
  unfolding legs_evolve_def by (metis in_set_conv_nth list_all2_conv_all_nth)

lemma checkpoints_extend_all2: "list_all2 checkpoint_evolves cs cs' \<Longrightarrow> checkpoints_extend cs cs'"
  unfolding checkpoints_extend_def by (metis list_all2_lengthD order_refl take_all)

lemma checkpoints_extend_refl [simp]: "checkpoints_extend cs cs"
  by (intro checkpoints_extend_all2 list_all2_refl) simp

lemma checkpoints_extend_append [simp]: "checkpoints_extend cs (cs @ cs')"
  unfolding checkpoints_extend_def by (simp add: list_all2_refl)

lemma checkpoints_extend_trans:
  assumes "checkpoints_extend cs cs'" "checkpoints_extend cs' cs''"
  shows "checkpoints_extend cs cs''"
proof -
  have len: "length cs \<le> length cs'" "length cs' \<le> length cs''"
    and steps: "\<And>i. i < length cs \<Longrightarrow> checkpoint_evolves (cs ! i) (cs' ! i)"
      "\<And>i. i < length cs' \<Longrightarrow> checkpoint_evolves (cs' ! i) (cs'' ! i)"
    using assms by (auto simp: checkpoints_extend_def list_all2_conv_all_nth)
  have "checkpoint_evolves (cs ! i) (cs'' ! i)" if "i < length cs" for i
    using that len steps by (intro checkpoint_evolves_trans [OF steps(1) steps(2)]) simp_all
  then show ?thesis
    using len by (simp add: checkpoints_extend_def list_all2_conv_all_nth)
qed

lemma develops_refl [simp]: "develops x x" by (simp add: develops_def)

lemma develops_trans:
  assumes "develops x x'" "develops x' x''"
  shows "develops x x''"
proof -
  note d = assms [unfolded develops_def]
  show ?thesis unfolding develops_def
  proof (intro conjI)
    show "opportunity_thesis x'' = opportunity_thesis x" using d by argo
    show "op_revision x \<le> op_revision x''" using d by linarith
    show "maturity_rank (op_peak_maturity x) \<le> maturity_rank (op_peak_maturity x'')" using d by linarith
    show "legs_evolve (op_legs x) (op_legs x'')" using d by (blast intro: legs_evolve_trans)
    show "checkpoints_extend (op_checkpoints x) (op_checkpoints x'')" using d by (blast intro: checkpoints_extend_trans)
  qed
qed

lemma thesis_ok_cong: "opportunity_thesis x' = opportunity_thesis x \<Longrightarrow> thesis_ok x' = thesis_ok x"
  by (simp add: opportunity_thesis_def thesis_ok_def opportunity_level_error_def)

lemma opportunity_okI:
  assumes "opportunity_ok x" "opportunity_thesis x' = opportunity_thesis x" "state_ok x'" "legs_ok (op_legs x')"
    "checkpoints_ok (op_checkpoints x')" "cursors_ok (op_source_cursors x')"
  shows "opportunity_ok x'"
  using assms(1,3-) thesis_ok_cong [OF assms(2)] by (simp only: opportunity_ok_def)

text \<open>A step of the engine: the opportunity stays valid, develops and gets a new revision.\<close>

definition sound_step :: "opportunity \<Rightarrow> opportunity \<Rightarrow> bool" where
  "sound_step x x' \<longleftrightarrow> opportunity_ok x' \<and> develops x x' \<and> op_revision x < op_revision x'"

lemma sound_step_trans: "sound_step x x' \<Longrightarrow> opportunity_ok x'' \<Longrightarrow> develops x' x'' \<Longrightarrow> sound_step x x''"
  unfolding sound_step_def by (metis develops_def develops_trans order.strict_trans2)

section \<open>Keyed lists\<close>

lemma dput_absent: "k \<notin> set (dkeys d) \<Longrightarrow> dput k v d = d @ [(k, v)]"
  by (induction d) auto

lemma set_dput_subset: "set (dput k v d) \<subseteq> insert (k, v) (set d)"
  by (induction d) auto

lemma foldl_dput_keys:
  "distinct (map f xs) \<Longrightarrow> foldl (\<lambda>d x. dput (f x) x d) [] xs = map (\<lambda>x. (f x, x)) xs"
proof (induction xs rule: rev_induct)
  case (snoc x xs)
  then have "f x \<notin> set (dkeys (map (\<lambda>x. (f x, x)) xs))" by (auto simp: comp_def)
  with snoc show ?case by (simp add: dput_absent)
qed simp

lemma dvalues_dput_keyed:
  assumes "distinct (map f xs)" "f x = k"
  shows "distinct (map f (dvalues (dput k x (map (\<lambda>x. (f x, x)) xs))))"
    "set (dvalues (dput k x (map (\<lambda>x. (f x, x)) xs))) \<subseteq> insert x (set xs)"
proof -
  define d where "d = dput k x (map (\<lambda>x. (f x, x)) xs)"
  have keyed: "fst p = f (snd p) \<and> snd p \<in> insert x (set xs)" if "p \<in> set d" for p
    using that set_dput_subset [of k x "map (\<lambda>x. (f x, x)) xs"] assms(2) unfolding d_def by auto
  then have "map f (dvalues d) = dkeys d" by simp
  moreover have "dict_wf d" unfolding d_def using assms(1) by (intro dict_wf_dput) (simp add: comp_def)
  ultimately show "distinct (map f (dvalues (dput k x (map (\<lambda>x. (f x, x)) xs))))" unfolding d_def by metis
  show "set (dvalues (dput k x (map (\<lambda>x. (f x, x)) xs))) \<subseteq> insert x (set xs)" using keyed unfolding d_def by auto
qed

section \<open>Cursors and source analyses\<close>

lemma with_source_cursor_keeps:
  assumes "with_source_cursor source t i x = Inr x'" "opportunity_ok x" "source \<in> set opportunity_sources"
  shows "opportunity_ok x'" "develops x x'" "op_revision x' = op_revision x"
proof -
  define c where "c = \<lparr> sc_source = source, sc_event_id = i, sc_occurred_at = t \<rparr>"
  have cursor: "make_cursor c = Inr c"
    using assms(1) by (auto simp: with_source_cursor_def c_def make_cursor_def split: if_splits)
  have cursors: "cursors_ok (op_source_cursors x)" using assms(2) by (simp add: opportunity_ok_def)
  define kept where "kept = dvalues (dput source c (map (\<lambda>c. (sc_source c, c)) (op_source_cursors x)))"
  have x': "x' = x \<lparr> op_source_cursors := kept \<rparr>"
    using assms(1) cursor cursors
    by (simp add: with_source_cursor_def c_def [symmetric] kept_def foldl_dput_keys cursors_ok_def)
  have "sc_source c = source" by (simp add: c_def)
  note keyed = dvalues_dput_keyed [of sc_source "op_source_cursors x" c source, OF _ this, folded kept_def]
  have "distinct (map sc_source (op_source_cursors x))" using cursors by (simp add: cursors_ok_def)
  note keyed = keyed [OF this]
  have "make_cursor d = Inr d \<and> sc_source d \<in> set opportunity_sources" if "d \<in> set kept" for d
  proof (cases "d = c")
    case True
    then show ?thesis using cursor assms(3) by (simp add: c_def)
  next
    case False
    with that keyed(2) have "d \<in> set (op_source_cursors x)" by auto
    with cursors show ?thesis by (simp add: cursors_ok_def)
  qed
  with keyed(1) have "cursors_ok kept" by (simp add: cursors_ok_def)
  then show "opportunity_ok x'" using assms(2) unfolding x'
    by (intro opportunity_okI [OF assms(2)]) (simp_all add: opportunity_ok_def opportunity_thesis_def state_ok_def)
  show "develops x x'" "op_revision x' = op_revision x" unfolding x' by (simp_all add: develops_def opportunity_thesis_def)
qed

lemma bounded_source_ids_bounded: "length (bounded_source_ids xs ys) \<le> max_source_analysis_ids"
  by (simp add: bounded_source_ids_def Let_def max_source_analysis_ids_def)

lemma bounded_source_ids_keeps:
  "xs \<noteq> [] \<Longrightarrow> bounded_source_ids xs ys \<noteq> []" "set (bounded_source_ids xs ys) \<subseteq> set xs \<union> set ys"
proof -
  have "set (fromkeys (xs @ ys)) = set xs \<union> set ys" by simp
  moreover have "hd (fromkeys (xs @ ys)) \<in> set (fromkeys (xs @ ys))" if "fromkeys (xs @ ys) \<noteq> []"
    using that by (rule hd_in_set)
  moreover have "fromkeys (xs @ ys) \<noteq> []" if "xs \<noteq> []" using that by (cases xs) simp_all
  moreover have "fromkeys (xs @ ys) \<noteq> []" if "max_source_analysis_ids < length (fromkeys (xs @ ys))" using that by auto
  ultimately show "xs \<noteq> [] \<Longrightarrow> bounded_source_ids xs ys \<noteq> []"
      "set (bounded_source_ids xs ys) \<subseteq> set xs \<union> set ys"
    unfolding bounded_source_ids_def Let_def
    by (auto dest: in_set_dropD simp del: set_fromkeys)
qed

end
