(* ===== verification/Opportunity_Steps.thy ===== *)
theory Opportunity_Steps
  imports Opportunity_History
begin

text \<open>
  Each building block of the engine keeps an opportunity valid and lets it develop: closing, opening
  horizons, advancing, noting an analysis or a retest, and marking against a bar.
\<close>

section \<open>Lists of legs and checkpoints\<close>

lemma map_result_list_all2:
  assumes "map_result f xs = Inr ys" "\<And>x y. x \<in> set xs \<Longrightarrow> f x = Inr y \<Longrightarrow> P x y"
  shows "list_all2 P xs ys"
  using assms by (induction xs arbitrary: ys) auto

lemma list_all2_back: "list_all2 P xs ys \<Longrightarrow> y \<in> set ys \<Longrightarrow> \<exists>x\<in>set xs. P x y"
  by (induction rule: list_all2_induct) auto

definition leg_kept :: "horizon_leg \<Rightarrow> horizon_leg \<Rightarrow> bool" where
  "leg_kept l l' \<longleftrightarrow> leg_valid l' \<and> leg_evolves l l' \<and> hl_expires_at l' = hl_expires_at l"

lemma leg_keptD:
  assumes "leg_kept l l'"
  shows "leg_valid l'" "hl_setup_id l' = hl_setup_id l" "hl_expires_at l' = hl_expires_at l" "hl_horizon l' = hl_horizon l"
  using assms by (simp_all add: leg_kept_def leg_evolves_def)

definition checkpoint_kept :: "maturity_checkpoint \<Rightarrow> maturity_checkpoint \<Rightarrow> bool" where
  "checkpoint_kept c c' \<longleftrightarrow> checkpoint_valid c' \<and> checkpoint_evolves c c'"

lemma legs_kept:
  assumes "legs_ok ls" "list_all2 leg_kept ls ls'"
  shows "legs_ok ls'" "legs_evolve ls ls'"
proof -
  have "map hl_horizon ls' = map hl_horizon ls"
    using assms(2) by (induction rule: list_all2_induct) (simp_all add: leg_kept_def leg_evolves_def)
  moreover have "leg_valid l' \<and> hl_setup_id l' = None \<and> hl_expires_at l' = None" if mem: "l' \<in> set ls'" for l'
  proof -
    obtain l where "l \<in> set ls" "leg_kept l l'"
      using list_all2_back [OF assms(2) mem] by blast
    moreover have "hl_setup_id l = None \<and> hl_expires_at l = None"
      using assms(1) \<open>l \<in> set ls\<close> unfolding legs_ok_def by blast
    ultimately show ?thesis using leg_keptD by metis
  qed
  ultimately show "legs_ok ls'" using assms(1) by (simp add: legs_ok_def)
  have "list_all2 leg_evolves ls ls'" using assms(2) by (rule list_all2_mono) (simp add: leg_kept_def)
  then show "legs_evolve ls ls'" by (rule legs_evolve_all2)
qed

lemma checkpoints_kept:
  assumes "checkpoints_ok cs" "list_all2 checkpoint_kept cs cs'"
  shows "checkpoints_ok cs'" "checkpoints_extend cs cs'"
proof -
  have "map checkpoint_key cs' = map checkpoint_key cs"
    using assms(2)
    by (induction rule: list_all2_induct) (simp_all add: checkpoint_kept_def checkpoint_evolves_def checkpoint_thesis_def)
  moreover have "checkpoint_valid c'" if "c' \<in> set cs'" for c'
    using list_all2_back [OF assms(2) that] by (auto simp: checkpoint_kept_def)
  ultimately show "checkpoints_ok cs'" using assms by (auto simp: checkpoints_ok_def)
  have "list_all2 checkpoint_evolves cs cs'" using assms(2) by (rule list_all2_mono) (simp add: checkpoint_kept_def)
  then show "checkpoints_extend cs cs'" by (rule checkpoints_extend_all2)
qed

section \<open>Closing\<close>

lemma close_leg_kept:
  assumes "close_leg l price now status = Inr l'" "leg_valid l" "0 < price" "status \<in> terminal_legs" "hl_status l = LS_OPEN"
  shows "leg_kept l l'"
proof -
  obtain entry gain mfe mae where "l' = l \<lparr> hl_status := status, hl_current_price := price, hl_closed_at := Some now,
      hl_exit_price := Some price, hl_gain_loss := Some gain, hl_highest_price := max (hl_highest_price l) price,
      hl_lowest_price := min (hl_lowest_price l) price, hl_mfe := mfe, hl_mae := mae \<rparr>"
    by (rule close_leg_open [OF assms(1,5)])
  then show ?thesis using close_leg_keeps [OF assms] by (simp add: leg_kept_def)
qed

lemma close_open_leg_kept:
  assumes "close_open_leg price now status l = Inr l'" "leg_valid l" "0 < price" "status \<in> terminal_legs"
  shows "leg_kept l l'" "hl_status l' \<noteq> LS_OPEN"
proof -
  have "leg_kept l l' \<and> hl_status l' \<noteq> LS_OPEN"
  proof (cases "hl_status l = LS_OPEN")
    case True
    with assms(1) have closed: "close_leg l price now status = Inr l'" by (simp add: close_open_leg_def)
    show ?thesis using close_leg_kept [OF closed assms(2-4) True] close_leg_keeps(3) [OF closed assms(2-4) True] assms(4) by simp
  next
    case False
    with assms(1,2) show ?thesis by (simp add: close_open_leg_def leg_kept_def)
  qed
  then show "leg_kept l l'" "hl_status l' \<noteq> LS_OPEN" by simp_all
qed

lemma close_open_checkpoint_kept:
  assumes "close_open_checkpoint price now outcome c = Inr c'" "checkpoint_valid c" "0 < price"
  shows "checkpoint_kept c c'" "cp_status c' = CS_CLOSED"
proof -
  have "checkpoint_kept c c' \<and> cp_status c' = CS_CLOSED"
  proof (cases "cp_status c = CS_OPEN")
    case True
    with assms(1) have closed: "close_checkpoint c price now outcome = Inr c'" by (simp add: close_open_checkpoint_def)
    show ?thesis using close_checkpoint_keeps [OF closed assms(2,3) True] by (simp add: checkpoint_kept_def)
  next
    case False
    then have "cp_status c = CS_CLOSED" by (cases "cp_status c") simp_all
    with assms(1,2) False show ?thesis by (simp add: close_open_checkpoint_def checkpoint_kept_def)
  qed
  then show "checkpoint_kept c c'" "cp_status c' = CS_CLOSED" by simp_all
qed

text \<open>A closed opportunity has no open leg and no open checkpoint.\<close>

definition wound_up :: "opportunity \<Rightarrow> bool" where
  "wound_up x \<longleftrightarrow> op_status x = EO_CLOSED \<and> (\<forall>l\<in>set (op_legs x). hl_status l \<noteq> LS_OPEN)
     \<and> (\<forall>c\<in>set (op_checkpoints x). cp_status c = CS_CLOSED)"

lemma close_opportunity_keeps:
  assumes "close_opportunity price now reason leg_status x = Inr x'" "opportunity_ok x" "0 < price"
    "leg_status \<in> terminal_legs"
  shows "opportunity_ok x'" "develops x x'" "op_revision x' = op_revision x + 1" "wound_up x'" "op_close_reason x' = Some reason"
proof -
  obtain legs checkpoints where legs: "map_result (close_open_leg price now leg_status) (op_legs x) = Inr legs"
    and checkpoints: "map_result (close_open_checkpoint price now leg_status) (op_checkpoints x) = Inr checkpoints"
    and x': "x' = x \<lparr> op_status := EO_CLOSED,
                op_current_price := (if op_updated_at x \<le> now then price else op_current_price x),
                op_updated_at := max now (op_updated_at x), op_closed_at := Some now, op_close_reason := Some reason,
                op_revision := op_revision x + 1, op_legs := legs, op_checkpoints := checkpoints \<rparr>"
    using assms(1) by (auto simp: close_opportunity_def)
  have valid: "legs_ok (op_legs x)" "checkpoints_ok (op_checkpoints x)" "cursors_ok (op_source_cursors x)" "state_ok x"
    using assms(2) by (simp_all add: opportunity_ok_def)
  have "list_all2 (\<lambda>l l'. leg_kept l l' \<and> hl_status l' \<noteq> LS_OPEN) (op_legs x) legs"
    using legs valid(1) close_open_leg_kept [OF _ _ assms(3,4)] by (rule_tac map_result_list_all2) (auto simp: legs_ok_def)
  then have kept_legs: "list_all2 leg_kept (op_legs x) legs" and "\<forall>l\<in>set legs. hl_status l \<noteq> LS_OPEN"
    by (auto elim: list_all2_mono dest: list_all2_back)
  have "list_all2 (\<lambda>c c'. checkpoint_kept c c' \<and> cp_status c' = CS_CLOSED) (op_checkpoints x) checkpoints"
    using checkpoints valid(2) close_open_checkpoint_kept [OF _ _ assms(3)]
    by (rule_tac map_result_list_all2) (auto simp: checkpoints_ok_def)
  then have kept: "list_all2 checkpoint_kept (op_checkpoints x) checkpoints" and "\<forall>c\<in>set checkpoints. cp_status c = CS_CLOSED"
    by (auto elim: list_all2_mono dest: list_all2_back)
  show "wound_up x'" unfolding x' wound_up_def
    using \<open>\<forall>l\<in>set legs. hl_status l \<noteq> LS_OPEN\<close> \<open>\<forall>c\<in>set checkpoints. cp_status c = CS_CLOSED\<close> by simp
  show "op_revision x' = op_revision x + 1" "op_close_reason x' = Some reason" by (simp_all add: x')
  show "opportunity_ok x'"
    using legs_kept [OF valid(1) kept_legs] checkpoints_kept [OF valid(2) kept] valid(3,4) assms(3) unfolding x'
    by (intro opportunity_okI [OF assms(2)]) (simp_all add: opportunity_thesis_def state_ok_def)
  show "develops x x'"
    using legs_kept [OF valid(1) kept_legs] checkpoints_kept [OF valid(2) kept] unfolding x'
    by (simp add: develops_def opportunity_thesis_def)
qed

lemma close_horizon_keeps:
  assumes "close_horizon horizon price now status x = Inr (x', hit)" "opportunity_ok x" "0 < price" "status \<in> terminal_legs"
  shows "opportunity_ok x'" "develops x x'" "op_revision x' = op_revision x + 1" "op_status x' = op_status x"
proof -
  obtain legs where legs: "map_result (\<lambda>l. if hl_horizon l = horizon \<and> hl_status l = LS_OPEN
         then close_leg l price now status else Inr l) (op_legs x) = Inr legs"
    and x': "x' = x \<lparr> op_legs := legs, op_current_price := price, op_updated_at := now, op_revision := op_revision x + 1 \<rparr>"
    using assms(1) by (auto simp: close_horizon_def)
  have valid: "legs_ok (op_legs x)" "checkpoints_ok (op_checkpoints x)" "cursors_ok (op_source_cursors x)" "state_ok x"
    using assms(2) by (simp_all add: opportunity_ok_def)
  have kept: "list_all2 leg_kept (op_legs x) legs"
    using legs
  proof (rule map_result_list_all2)
    fix l l' assume "l \<in> set (op_legs x)"
      and l': "(if hl_horizon l = horizon \<and> hl_status l = LS_OPEN then close_leg l price now status else Inr l) = Inr l'"
    then have "leg_valid l" using valid(1) by (simp add: legs_ok_def)
    with l' show "leg_kept l l'" using close_leg_kept [OF _ _ assms(3,4)] by (auto simp: leg_kept_def split: if_splits)
  qed
  show "opportunity_ok x'" using legs_kept [OF valid(1) kept] valid(2-4) assms(3) unfolding x'
    by (intro opportunity_okI [OF assms(2)]) (simp_all add: opportunity_thesis_def state_ok_def)
  show "develops x x'" "op_revision x' = op_revision x + 1" "op_status x' = op_status x"
    using legs_kept [OF valid(1) kept] unfolding x' by (simp_all add: develops_def opportunity_thesis_def)
qed

section \<open>Opening horizons\<close>

definition leg_home :: "analysis_horizon \<Rightarrow> horizon_leg \<Rightarrow> bool" where
  "leg_home h l \<longleftrightarrow> leg_valid l \<and> hl_setup_id l = None \<and> hl_expires_at l = None \<and> hl_horizon l = h"

text \<open>What the handlers guarantee of a request: positive prices, UUIDv7 sources, a stripped setup.\<close>

definition request_ok :: "advance_request \<Rightarrow> bool" where
  "request_ok rq \<longleftrightarrow> 0 < rq_price rq \<and> (\<forall>h p. dget (rq_invalidations rq) h = Some p \<longrightarrow> 0 < p)
     \<and> (\<forall>h p. dget (rq_targets rq) h = Some p \<longrightarrow> 0 < p) \<and> (\<forall>u\<in>set (rq_source_ids rq). is_uuid7 u)
     \<and> map_option strip (rq_setup_id rq) = rq_setup_id rq"

lemma entered_leg_keeps:
  assumes "entered_leg ids rq invalidation h found = Inr l'" "\<forall>l\<in>set_option found. leg_home h l" "request_ok rq"
    "0 < invalidation"
  shows "leg_home h l' \<and> (\<forall>l\<in>set_option found. leg_evolves l l') \<and> hl_status l' \<noteq> LS_WATCHING"
proof -
  obtain l where l: "(case found of Some l \<Rightarrow> Inr l
         | None \<Rightarrow> make_leg (watching_leg (oi_leg ids h) h (rq_price rq) invalidation)) = Inr l"
    and l': "l' = (if hl_status l \<noteq> LS_WATCHING then l
            else l \<lparr> hl_status := LS_OPEN, hl_opened_at := Some (rq_now rq), hl_entry_price := Some (rq_price rq),
                     hl_current_price := rq_price rq, hl_highest_price := rq_price rq, hl_lowest_price := rq_price rq,
                     hl_invalidation := (case dget (rq_invalidations rq) h of None \<Rightarrow> invalidation | Some p \<Rightarrow> p),
                     hl_target := dget (rq_targets rq) h \<rparr>)"
    using assms(1) by (auto simp: entered_leg_def)
  have home: "leg_home h l"
  proof (cases found)
    case None
    with l make_leg_valid [of "watching_leg (oi_leg ids h) h (rq_price rq) invalidation" l] show ?thesis
      by (simp add: leg_home_def watching_leg_def)
  next
    case (Some l0)
    with l assms(2) show ?thesis by simp
  qed
  have evolves: "\<forall>l0\<in>set_option found. leg_evolves l0 l'"
    using l unfolding l' by (cases found) (auto simp: leg_evolves_def)
  show ?thesis
  proof (cases "hl_status l = LS_WATCHING")
    case True
    have "0 < (case dget (rq_invalidations rq) h of None \<Rightarrow> invalidation | Some p \<Rightarrow> p)"
      using assms(3,4) by (auto simp: request_ok_def split: option.splits)
    moreover have "positive (dget (rq_targets rq) h)"
      using assms(3) by (cases "dget (rq_targets rq) h") (auto simp: request_ok_def positive_def)
    ultimately have "leg_valid l'"
      using True home assms(3) unfolding l' leg_home_def leg_valid_iff
      by (simp add: leg_fields_def positive_def request_ok_def)
    with home evolves True show ?thesis unfolding l' by (simp add: leg_home_def)
  next
    case False
    with home evolves show ?thesis unfolding l' by simp
  qed
qed

lemma open_legs_keeps:
  assumes "open_legs enter held hs = Inr ls" "distinct hs" "dict_wf held" "\<forall>p\<in>set held. leg_home (fst p) (snd p)"
    and enter: "\<And>h found l'. enter h found = Inr l' \<Longrightarrow> \<forall>l\<in>set_option found. leg_home h l \<Longrightarrow>
        leg_home h l' \<and> (\<forall>l\<in>set_option found. leg_evolves l l')"
  shows "legs_ok ls \<and> legs_evolve (dvalues held) ls \<and> hl_horizon ` set ls \<subseteq> set hs \<union> set (dkeys held)"
  using assms(1-4)
proof (induction hs arbitrary: held ls)
  case Nil
  have "map hl_horizon (dvalues held) = dkeys held" using Nil.prems(4) by (simp add: leg_home_def)
  then have "distinct (map hl_horizon (dvalues held))" using Nil.prems(3) by metis
  moreover have "hl_horizon ` set (dvalues held) \<subseteq> set (dkeys held)" using Nil.prems(4) by (force simp: leg_home_def)
  ultimately show ?case using Nil by (auto simp: legs_ok_def leg_home_def)
next
  case (Cons h hs)
  obtain l rest where l: "enter h (dget held h) = Inr l" and rest: "open_legs enter (ddel h held) hs = Inr rest"
    and ls: "ls = l # rest"
    using Cons.prems(1) by auto
  have kept: "set (ddel h held) = {p \<in> set held. fst p \<noteq> h}" by (induction held) auto
  have wf: "dict_wf (ddel h held)" using Cons.prems(3) by (rule distinct_delete)
  have IH: "legs_ok rest \<and> legs_evolve (dvalues (ddel h held)) rest
      \<and> hl_horizon ` set rest \<subseteq> set hs \<union> set (dkeys (ddel h held))"
    using Cons.IH [OF rest _ wf] Cons.prems(2,4) kept by simp
  have "\<forall>l\<in>set_option (dget held h). leg_home h l" using Cons.prems(4) by (force dest: map_of_SomeD)
  from enter [OF l this] have home: "leg_home h l" and evolves: "\<forall>l0\<in>set_option (dget held h). leg_evolves l0 l" by simp_all
  have fresh: "h \<notin> hl_horizon ` set rest" using IH Cons.prems(2) kept by force
  have "legs_ok ls" using IH home fresh unfolding ls by (auto simp: legs_ok_def leg_home_def)
  moreover have "\<exists>l'\<in>set ls. leg_evolves l0 l'" if mem: "l0 \<in> set (dvalues held)" for l0
  proof -
    obtain k where k: "(k, l0) \<in> set held" using mem by auto
    show ?thesis
    proof (cases "k = h")
      case True
      with k Cons.prems(3) have "dget held h = Some l0" by simp
      with evolves show ?thesis unfolding ls by simp
    next
      case False
      with k have "l0 \<in> set (dvalues (ddel h held))" unfolding set_map kept by force
      with IH show ?thesis unfolding ls legs_evolve_def by auto
    qed
  qed
  moreover have "hl_horizon ` set ls \<subseteq> set (h # hs) \<union> set (dkeys held)"
    using IH home kept unfolding ls by (auto simp: leg_home_def)
  ultimately show ?case by (simp add: legs_evolve_def)
qed

lemma open_horizons_keeps:
  assumes "open_horizons ids rq invalidation legs = Inr legs'" "legs_ok legs" "request_ok rq" "0 < invalidation"
  shows "legs_ok legs'" "legs_evolve legs legs'"
proof -
  have unscoped: "filter (\<lambda>l. hl_setup_id l = None) legs = legs" "filter (\<lambda>l. hl_setup_id l \<noteq> None) legs = []"
    using assms(2) by (simp_all add: legs_ok_def filter_empty_conv)
  define held where "held = map (\<lambda>l. (hl_horizon l, l)) legs"
  have "foldl (\<lambda>d l. dput (hl_horizon l) l d) [] legs = held"
    using assms(2) unfolding held_def legs_ok_def by (intro foldl_dput_keys) simp
  then have opened: "open_legs (entered_leg ids rq invalidation) held (fromkeys (rq_horizons rq)) = Inr legs'"
    using assms(1) by (simp only: open_horizons_def unscoped) (auto simp: bind_result_Inr)
  have "dict_wf held" "\<forall>p\<in>set held. leg_home (fst p) (snd p)" "dvalues held = legs"
    using assms(2) by (auto simp: held_def legs_ok_def leg_home_def comp_def)
  then have "legs_ok legs' \<and> legs_evolve legs legs'"
    using open_legs_keeps [OF opened] entered_leg_keeps [OF _ _ assms(3,4)] by simp
  then show "legs_ok legs'" "legs_evolve legs legs'" by simp_all
qed

end
