(* ===== verification/Opportunity_Advance.thy ===== *)
theory Opportunity_Advance
  imports Opportunity_Steps Subjects
begin

text \<open>
  Advancing an opportunity, creating one, noting analyses and retests, and marking against a bar: each
  keeps the opportunity valid and develops it.
\<close>

section \<open>Advancing\<close>

lemma new_checkpoint_keeps:
  assumes "new_checkpoint i rq invalidation = Inr c" "map_option strip (rq_setup_id rq) = rq_setup_id rq"
  shows "checkpoint_valid c" "cp_level c = rq_level rq" "cp_signal_family c = rq_family rq" "cp_setup_id c = rq_setup_id rq"
    "cp_status c = CS_OPEN" "cp_entry_price c = rq_price rq" "cp_reached_at c = rq_now rq"
proof -
  note made = make_checkpoint_valid [OF assms(1) [unfolded new_checkpoint_def]]
  show "checkpoint_valid c" by (rule made(2))
  show "cp_level c = rq_level rq" "cp_signal_family c = rq_family rq" "cp_setup_id c = rq_setup_id rq"
    "cp_status c = CS_OPEN" "cp_entry_price c = rq_price rq" "cp_reached_at c = rq_now rq"
    using made(1) assms(2) by simp_all
qed

lemma advance_checkpoints_keeps:
  assumes "advance_checkpoints ids rq x = Inr cs" "checkpoints_ok (op_checkpoints x)"
    "map_option strip (rq_setup_id rq) = rq_setup_id rq"
  shows "checkpoints_ok cs" "checkpoints_extend (op_checkpoints x) cs"
proof -
  consider (same) "cs = op_checkpoints x"
    | (new) c where "new_checkpoint (oi_checkpoint ids) rq (price_or (rq_invalidation rq) (op_invalidation x)) = Inr c"
        "cs = op_checkpoints x @ [c]"
        "\<not> (\<exists>c\<in>set (op_checkpoints x). cp_level c = rq_level rq \<and> cp_signal_family c = rq_family rq
           \<and> cp_setup_id c = rq_setup_id rq)"
    using assms(1) unfolding advance_checkpoints_def Let_def by (auto split: if_splits)
  then have "checkpoints_ok cs \<and> checkpoints_extend (op_checkpoints x) cs"
  proof cases
    case same
    with assms(2) show ?thesis by simp
  next
    case new
    note c = new_checkpoint_keeps [OF new(1) assms(3)]
    have "checkpoint_key c \<notin> checkpoint_key ` set (op_checkpoints x)"
      using new(3) c(2-4) by (auto simp: checkpoint_key_def)
    with assms(2) c(1) show ?thesis unfolding new(2) by (auto simp: checkpoints_ok_def)
  qed
  then show "checkpoints_ok cs" "checkpoints_extend (op_checkpoints x) cs" by simp_all
qed

lemma progress_score: "percent_score (maturity_progress m)"
  by (cases m) (simp_all add: percent_score_def)

lemma advance_open: "op_status x \<noteq> EO_CLOSED \<Longrightarrow> advance_status rq x tracking \<noteq> EO_CLOSED"
  by (simp add: advance_status_def)

lemma advance_opportunity_keeps:
  assumes "advance_opportunity ids rq x = Inr x'" "opportunity_ok x" "request_ok rq" "op_status x \<noteq> EO_CLOSED"
  shows "opportunity_ok x'" "develops x x'" "op_revision x' = op_revision x + 1" "op_status x' \<noteq> EO_CLOSED"
proof -
  define tracking where "tracking \<longleftrightarrow> rq_regress rq \<and> op_status x \<in> {EO_ARMED, EO_IN_ZONE} \<and> rq_level rq \<in> {EM_ARMED, EM_IN_ZONE}"
  define peak where "peak = (if maturity_rank (op_peak_maturity x) < maturity_rank (rq_level rq) then rq_level rq else op_peak_maturity x)"
  obtain cs legs where cs: "advance_checkpoints ids rq x = Inr cs"
    and legs: "(if maturity_rank (op_peak_maturity x) \<le> maturity_rank (rq_level rq) \<and> rq_level rq \<in> buy_levels
             then open_horizons ids rq (op_invalidation x) (op_legs x) else Inr (op_legs x)) = Inr legs"
    and x': "x' = x \<lparr> op_status := advance_status rq x tracking,
                    op_current_maturity := (if tracking \<or> maturity_rank (op_peak_maturity x) \<le> maturity_rank (rq_level rq)
                      then rq_level rq else op_current_maturity x),
                    op_peak_maturity := peak,
                    op_progress := maturity_progress (if tracking then rq_level rq else peak),
                    op_current_price := (if op_updated_at x \<le> rq_now rq then rq_price rq else op_current_price x),
                    op_updated_at := max (rq_now rq) (op_updated_at x), op_revision := op_revision x + 1,
                    op_source_analysis_ids := bounded_source_ids (op_source_analysis_ids x) (rq_source_ids rq),
                    op_legs := legs, op_checkpoints := cs \<rparr>"
    using assms(1) unfolding advance_opportunity_def Let_def tracking_def [symmetric] peak_def [symmetric] by auto
  have valid: "legs_ok (op_legs x)" "checkpoints_ok (op_checkpoints x)" "cursors_ok (op_source_cursors x)" "state_ok x"
    "0 < op_invalidation x"
    using assms(2) by (simp_all add: opportunity_ok_def thesis_ok_def)
  have setup_id: "map_option strip (rq_setup_id rq) = rq_setup_id rq" "0 < rq_price rq" "\<forall>u\<in>set (rq_source_ids rq). is_uuid7 u"
    using assms(3) by (simp_all add: request_ok_def)
  note new_cs = advance_checkpoints_keeps [OF cs valid(2) setup_id(1)]
  have new_legs: "legs_ok legs \<and> legs_evolve (op_legs x) legs"
    using legs open_horizons_keeps [OF _ valid(1) assms(3) valid(5)] valid(1) by (auto split: if_splits)
  have ids: "bounded_source_ids (op_source_analysis_ids x) (rq_source_ids rq) \<noteq> []"
    "\<forall>u\<in>set (bounded_source_ids (op_source_analysis_ids x) (rq_source_ids rq)). is_uuid7 u"
    using valid(4) setup_id(3) bounded_source_ids_keeps [of "op_source_analysis_ids x" "rq_source_ids rq"]
    by (auto simp: state_ok_def)
  have "state_ok x'" using valid(4) ids setup_id(2) assms(4) advance_open [OF assms(4)] unfolding x'
    by (simp add: state_ok_def progress_score)
  then show "opportunity_ok x'" using new_cs new_legs valid(3) unfolding x'
    by (intro opportunity_okI [OF assms(2)]) (simp_all add: opportunity_thesis_def)
  show "develops x x'" using new_cs new_legs unfolding x' by (simp add: develops_def opportunity_thesis_def peak_def)
  show "op_revision x' = op_revision x + 1" "op_status x' \<noteq> EO_CLOSED"
    unfolding x' using advance_open [OF assms(4)] by simp_all
qed

section \<open>Creating\<close>

lemma hex_digit_no_space:
  assumes "0 \<le> d" "d < 16"
  shows "\<not> isspace (hex_digit d)"
proof -
  have "nat d < 16" using assms by simp
  then have "nat d \<in> {..<16}" by simp
  moreover have "\<not> isspace (char_of (48 + nat d)) " "\<not> isspace (char_of (87 + nat d))"
    using \<open>nat d < 16\<close> by (simp_all add: isspace_def code_def)
  ultimately show ?thesis by (simp add: hex_digit_def)
qed

lemma uuid_text_no_space: "\<forall>c\<in>set (uuid_text u). \<not> isspace c"
proof -
  have "\<not> isspace (hex_digit (w mod 16))" for w by (rule hex_digit_no_space) simp_all
  then have "\<forall>c\<in>set (hex_text n v). \<not> isspace c" for n v
    unfolding hex_text_def by auto
  then show ?thesis unfolding uuid_text_def by (auto simp: isspace_def code_def)
qed

lemma strip_watch_setup: "strip (watch_setup t) = watch_setup t"
proof (rule strip_no_space)
  show "\<forall>c\<in>set (watch_setup t). \<not> isspace c"
    unfolding watch_setup_def set_append using uuid_text_no_space by (auto simp: isspace_def code_def)
qed

lemma transition_facts:
  assumes "make_transition t = Inr t'"
  shows "0 < tr_current_price t" "opt_all (\<lambda>p. 0 < p) (tr_entry_invalidation t)" "opt_all (\<lambda>p. 0 < p) (tr_entry_target t)"
    "\<forall>u\<in>set (tr_source_analysis_ids t). is_uuid7 u" "is_uuid7 (tr_transition_id t)"
  using assms by (auto simp: make_transition_def watch_transition_fields_def is_uuid7_def split: if_splits)

lemma same_for_positive:
  "opt_all (\<lambda>p. 0 < p) level \<Longrightarrow> dget (same_for hs level) h = Some p \<Longrightarrow> 0 < p"
proof -
  assume level: "opt_all (\<lambda>p. 0 < p) level" and got: "dget (same_for hs level) h = Some p"
  have "dget (foldl (\<lambda>d h. dput h q d) d hs) h = Some p \<Longrightarrow> p = q \<or> dget d h = Some p" for q d
  proof (induction hs arbitrary: d)
    case (Cons a hs)
    with Cons.IH [of "dput a q d"] show ?case by (auto simp: dict_simps split: if_splits)
  qed simp
  with level got show "0 < p" by (cases level) (force simp: same_for_def)+
qed

lemma watch_request_ok:
  assumes "make_transition t = Inr t'" "map_option strip s = s"
  shows "request_ok (watch_request t level s regress)"
  using transition_facts [OF assms(1)] assms(2) same_for_positive
  by (auto simp: request_ok_def watch_request_def)

lemma new_opportunity_keeps:
  assumes "new_opportunity ids t level = Inr x" "make_transition t = Inr t'"
  shows "opportunity_ok x" "op_revision x = 1" "op_status x \<noteq> EO_CLOSED" "op_peak_maturity x = level" "op_symbol x = tr_symbol t"
proof -
  obtain c l k where c: "new_checkpoint (oi_checkpoint ids) (opening_request t level) (tr_invalidation t) = Inr c"
    and l: "make_leg (watching_leg (oi_leg ids AH_LONG_TERM) AH_LONG_TERM (tr_current_price t) (tr_invalidation t)) = Inr l"
    and k: "make_cursor \<lparr> sc_source = watcher_source, sc_event_id = tr_transition_id t, sc_occurred_at = tr_occurred_at t \<rparr> = Inr k"
    and made: "make_opportunity
         \<lparr> op_opportunity_id = oi_opportunity ids, op_trade_side = TS_LONG, op_symbol = tr_symbol t,
           op_status = (if level = EM_IN_ZONE then EO_IN_ZONE else EO_ARMED), op_current_maturity = level,
           op_peak_maturity = level, op_progress = maturity_progress level,
           op_original_watch_id = Some (tr_watch_id t), op_armed_at = tr_occurred_at t,
           op_updated_at = tr_occurred_at t, op_last_market_bar_at = None, op_expires_at = tr_watch_expires_at t,
           op_closed_at = None, op_close_reason = None, op_zone_low = tr_zone_low t, op_zone_high = tr_zone_high t,
           op_invalidation = tr_invalidation t, op_original_price = tr_current_price t,
           op_current_price = tr_current_price t, op_revision = 1,
           op_source_analysis_ids = tr_source_analysis_ids t, op_primary_family = SF_CORE_ENTRY,
           op_signal_references = [], op_source_cursors = [k], op_latest_analyses = [], op_legs = [l],
           op_checkpoints = [c] \<rparr> = Inr x"
    using assms(1) unfolding new_opportunity_def by auto
  have setup_id: "map_option strip (rq_setup_id (opening_request t level)) = rq_setup_id (opening_request t level)"
    by (simp add: opening_request_def watch_request_def strip_watch_setup)
  note cp = new_checkpoint_keeps [OF c setup_id]
  have leg: "leg_home AH_LONG_TERM l"
    using make_leg_valid [OF l] by (simp add: leg_home_def watching_leg_def)
  have cursor: "make_cursor k = Inr k \<and> sc_source k = watcher_source"
    using k by (auto simp: make_cursor_def split: if_splits)
  note parts = made [unfolded make_opportunity_def guard_Inr check_Inr]
  have x: "x = \<lparr> op_opportunity_id = oi_opportunity ids, op_trade_side = TS_LONG, op_symbol = tr_symbol t,
           op_status = (if level = EM_IN_ZONE then EO_IN_ZONE else EO_ARMED), op_current_maturity = level,
           op_peak_maturity = level, op_progress = maturity_progress level,
           op_original_watch_id = Some (tr_watch_id t), op_armed_at = tr_occurred_at t,
           op_updated_at = tr_occurred_at t, op_last_market_bar_at = None, op_expires_at = tr_watch_expires_at t,
           op_closed_at = None, op_close_reason = None, op_zone_low = tr_zone_low t, op_zone_high = tr_zone_high t,
           op_invalidation = tr_invalidation t, op_original_price = tr_current_price t,
           op_current_price = tr_current_price t, op_revision = 1,
           op_source_analysis_ids = tr_source_analysis_ids t, op_primary_family = SF_CORE_ENTRY,
           op_signal_references = [], op_source_cursors = [k], op_latest_analyses = [], op_legs = [l],
           op_checkpoints = [c] \<rparr>" using parts by simp
  have thesis: "thesis_ok x" using parts unfolding x thesis_ok_def opportunity_fields_def is_uuid7_def by simp
  have state: "state_ok x" using parts unfolding x state_ok_def opportunity_fields_def is_uuid7_def
    by (simp add: progress_score)
  show "opportunity_ok x" unfolding opportunity_ok_def
    using thesis state cp(1) leg cursor
    by (simp add: x legs_ok_def leg_home_def checkpoints_ok_def cursors_ok_def opportunity_sources_def)
  show "op_revision x = 1" "op_status x \<noteq> EO_CLOSED" "op_peak_maturity x = level" "op_symbol x = tr_symbol t"
    by (simp_all add: x)
qed

section \<open>Analyses and retests\<close>

lemma with_analysis_keeps:
  assumes "opportunity_ok x" "0 < price" "is_uuid7 (ar_analysis_id r)"
  shows "opportunity_ok (with_analysis r price now x)" "develops x (with_analysis r price now x)"
    "op_revision (with_analysis r price now x) = op_revision x + 1" "op_status (with_analysis r price now x) = op_status x"
proof -
  have "state_ok x" "legs_ok (op_legs x)" "checkpoints_ok (op_checkpoints x)" "cursors_ok (op_source_cursors x)"
    using assms(1) by (simp_all add: opportunity_ok_def)
  moreover have "bounded_source_ids (op_source_analysis_ids x) [ar_analysis_id r] \<noteq> []"
    "\<forall>u\<in>set (bounded_source_ids (op_source_analysis_ids x) [ar_analysis_id r]). is_uuid7 u"
    using \<open>state_ok x\<close> assms(3) bounded_source_ids_keeps [of "op_source_analysis_ids x" "[ar_analysis_id r]"]
    by (auto simp: state_ok_def)
  ultimately show "opportunity_ok (with_analysis r price now x)"
    using assms(2) by (intro opportunity_okI [OF assms(1)]) (simp_all add: with_analysis_def opportunity_thesis_def state_ok_def)
  show "develops x (with_analysis r price now x)" "op_revision (with_analysis r price now x) = op_revision x + 1"
    "op_status (with_analysis r price now x) = op_status x"
    by (simp_all add: with_analysis_def develops_def opportunity_thesis_def)
qed

lemma set_l2_retest_keeps:
  assumes "opportunity_ok x" "0 < low"
  shows "opportunity_ok (set_l2_retest x anchor t low)" "develops x (set_l2_retest x anchor t low)"
    "op_revision (set_l2_retest x anchor t low) = op_revision x" "op_status (set_l2_retest x anchor t low) = op_status x"
proof -
  define mark :: "maturity_checkpoint \<Rightarrow> maturity_checkpoint" where "mark = (\<lambda>c. if cp_checkpoint_id c = cp_checkpoint_id anchor
      then c \<lparr> cp_retested_at := Some t, cp_retest_low := Some low \<rparr> else c)"
  have valid: "state_ok x" "legs_ok (op_legs x)" "checkpoints_ok (op_checkpoints x)" "cursors_ok (op_source_cursors x)"
    using assms(1) by (simp_all add: opportunity_ok_def)
  have "checkpoint_kept c (mark c)" if "checkpoint_valid c" for c
  proof -
    let ?c = "c \<lparr> cp_retested_at := Some t, cp_retest_low := Some low \<rparr>"
    have "checkpoint_zone_error ?c = checkpoint_zone_error c" by (rule zone_error_cong) simp_all
    with that assms(2) have "checkpoint_valid ?c"
      by (cases "cp_status c") (simp_all add: checkpoint_valid_iff checkpoint_fields_def positive_def)
    moreover have "checkpoint_evolves c ?c"
      by (simp add: checkpoint_evolves_def checkpoint_thesis_simps retested_only_simps)
    ultimately show ?thesis using that by (simp add: checkpoint_kept_def mark_def)
  qed
  then have "list_all2 checkpoint_kept (op_checkpoints x) (map mark (op_checkpoints x))"
    using valid(3) by (auto simp: list_all2_conv_all_nth checkpoints_ok_def)
  note kept = checkpoints_kept [OF valid(3) this]
  show "opportunity_ok (set_l2_retest x anchor t low)"
    using valid kept by (intro opportunity_okI [OF assms(1)])
      (simp_all add: set_l2_retest_def mark_def [symmetric] opportunity_thesis_def state_ok_def)
  show "develops x (set_l2_retest x anchor t low)" "op_revision (set_l2_retest x anchor t low) = op_revision x"
    "op_status (set_l2_retest x anchor t low) = op_status x"
    using kept by (simp_all add: set_l2_retest_def mark_def [symmetric] develops_def opportunity_thesis_def)
qed

lemma record_l2_retest_keeps:
  assumes "record_l2_retest codec x r price now = (x', retested)" "opportunity_ok x" "0 < price"
  shows "opportunity_ok x'" "develops x x'" "op_revision x' = op_revision x" "op_status x' = op_status x"
proof -
  have "x' = x \<or> (\<exists>anchor. x' = set_l2_retest x anchor now price)"
    using assms(1) unfolding record_l2_retest_def Let_def by (auto split: option.splits if_splits)
  then show "opportunity_ok x'" "develops x x'" "op_revision x' = op_revision x" "op_status x' = op_status x"
    using set_l2_retest_keeps [OF assms(2,3)] assms(2) by auto
qed

lemma record_l2_bar_retest_keeps:
  assumes "opportunity_ok x" "valid_bar b"
  shows "opportunity_ok (record_l2_bar_retest x b)" "develops x (record_l2_bar_retest x b)"
proof -
  have "record_l2_bar_retest x b = x \<or> (\<exists>anchor t low. record_l2_bar_retest x b = set_l2_retest x anchor t low \<and> 0 < low)"
  proof (cases "record_l2_bar_retest x b = x")
    case False
    then obtain anchor where anchor: "l2_anchor x = Some anchor" and set: "record_l2_bar_retest x b =
        set_l2_retest x anchor (mb_timestamp b) (max (mb_low b) (the (cp_zone_low anchor)))"
      unfolding record_l2_bar_retest_def by (auto split: option.splits if_splits)
    have "0 < mb_low b" using assms(2) by (simp add: valid_bar_iff market_bar_fields_def)
    then have "0 < max (mb_low b) (the (cp_zone_low anchor))" by (simp add: less_max_iff_disj)
    with set show ?thesis by blast
  qed simp
  then show "opportunity_ok (record_l2_bar_retest x b)" "develops x (record_l2_bar_retest x b)"
    using set_l2_retest_keeps [OF assms(1)] assms(1) by auto
qed

section \<open>Bars\<close>

lemma bar_prices: "valid_bar b \<Longrightarrow> 0 < mb_close b \<and> 0 < mb_low b \<and> 0 < mb_high b"
  by (simp add: valid_bar_iff market_bar_fields_def)

lemma mark_leg_kept:
  assumes "mark_leg b l = Inr l'" "leg_valid l" "valid_bar b"
  shows "leg_kept l l'"
proof -
  have "hl_expires_at l' = hl_expires_at l"
    using assms(1) unfolding mark_leg_def mark_open_leg_def close_leg_def Let_def
    by (auto split: option.splits if_splits)
  then show ?thesis using mark_leg_keeps(1,2) [OF assms] by (simp add: leg_kept_def)
qed

lemma session_closed_leg_kept:
  assumes "session_closed_leg z b l = Inr l'" "leg_valid l" "valid_bar b"
  shows "leg_kept l l'"
proof (cases "is_regular_close z (mb_timestamp b) \<and> hl_horizon l = AH_INTRADAY \<and> hl_status l = LS_OPEN")
  case True
  with assms(1) have "close_leg l (mb_close b) (mb_timestamp b) LS_SESSION_CLOSED = Inr l'" by (simp add: session_closed_leg_def)
  then show ?thesis by (rule close_leg_kept) (use True assms(2) bar_prices [OF assms(3)] in simp_all)
next
  case False
  with assms(1,2) show ?thesis by (auto simp: session_closed_leg_def leg_kept_def)
qed

lemma leg_kept_trans:
  "leg_kept l l' \<Longrightarrow> leg_kept l' l'' \<Longrightarrow> leg_kept l l''"
  unfolding leg_kept_def by (simp add: leg_evolves_trans [of l l' l''])

text \<open>A bar that left the legs and checkpoints evolved leaves the opportunity valid.\<close>

lemma with_parts_keeps:
  assumes "opportunity_ok x" "legs_ok ls" "legs_evolve (op_legs x) ls" "checkpoints_ok cs"
    "checkpoints_extend (op_checkpoints x) cs"
    "opportunity_thesis x' = opportunity_thesis x" "op_peak_maturity x' = op_peak_maturity x"
    "op_source_cursors x' = op_source_cursors x" "op_revision x \<le> op_revision x'" "op_legs x' = ls" "op_checkpoints x' = cs"
    "state_ok x \<Longrightarrow> state_ok x'"
  shows "opportunity_ok x'" "develops x x'"
proof -
  show "opportunity_ok x'"
    using assms(1,2,4,8,10-12) by (intro opportunity_okI [OF assms(1,6)]) (simp_all add: opportunity_ok_def)
  show "develops x x'" using assms(3,5-7,9-11) by (simp add: develops_def)
qed

end
