(* ===== verification/Opportunity_Decisions.thy ===== *)
theory Opportunity_Decisions
  imports Opportunity_Advance
begin

text \<open>
  Every decision of the engine on a valid, active opportunity gives a valid one that develops it under a
  new revision, and the event stored beside it carries the identity of its input and the opportunity saved.
\<close>

section \<open>Steps\<close>

definition announces :: "uuid \<Rightarrow> opportunity_step \<Rightarrow> bool" where
  "announces i p \<longleftrightarrow> (case ps_event p of None \<Rightarrow> \<not> ps_returned p
     | Some e \<Rightarrow> oe_event_id e = i \<and> oe_opportunity e = ps_opportunity p)"

lemma step_with_event_Inr:
  assumes "step_with_event i t reasons returned x = Inr outcome"
  obtains p where "outcome = Some p" "ps_opportunity p = x" "announces i p" "ps_event p \<noteq> None"
  using assms
  by (auto simp: step_with_event_def opportunity_event_of_def make_opportunity_event_def announces_def split: if_splits)

lemma step_without_event_Inr:
  assumes "step_without_event x = Inr outcome"
  obtains p where "outcome = Some p" "ps_opportunity p = x" "\<And>i. announces i p"
  using assms by (auto simp: step_without_event_def announces_def)

text \<open>An active opportunity, and an input stepping it.\<close>

definition sound_outcome :: "uuid \<Rightarrow> opportunity \<Rightarrow> opportunity_step option \<Rightarrow> bool" where
  "sound_outcome i active outcome \<longleftrightarrow>
     (\<forall>p\<in>set_option outcome. sound_step active (ps_opportunity p) \<and> announces i p)"

lemma sound_outcome_None [simp]: "sound_outcome i active None"
  by (simp add: sound_outcome_def)

lemma sound_outcome_event:
  assumes "step_with_event i t reasons returned x = Inr outcome" "sound_step active x"
  shows "sound_outcome i active outcome"
  by (rule step_with_event_Inr [OF assms(1)]) (use assms(2) in \<open>simp add: sound_outcome_def\<close>)

lemma sound_outcome_silent:
  assumes "step_without_event x = Inr outcome" "sound_step active x"
  shows "sound_outcome i active outcome"
  by (rule step_without_event_Inr [OF assms(1)]) (use assms(2) in \<open>simp add: sound_outcome_def\<close>)

lemma sound_stepI: "opportunity_ok x' \<Longrightarrow> develops x x' \<Longrightarrow> op_revision x' = op_revision x + 1 \<Longrightarrow> sound_step x x'"
  by (simp add: sound_step_def)

section \<open>Transitions\<close>

lemma close_from_transition_sound:
  assumes "close_from_transition t reason leg_status label active = Inr outcome" "make_transition t = Inr t'"
    "opportunity_ok active" "leg_status \<in> terminal_legs"
  shows "sound_outcome (tr_transition_id t) active outcome"
proof -
  obtain ended where ended: "close_opportunity (tr_current_price t) (tr_occurred_at t) reason leg_status active = Inr ended"
    and rest: "(if ended = active then Inr None
       else bind_result (with_source_cursor watcher_source (tr_occurred_at t) (tr_transition_id t) ended)
         (step_with_event (tr_transition_id t) (tr_occurred_at t) (label # tr_reasons t) True)) = Inr outcome"
    using assms(1) by (auto simp: close_from_transition_def)
  note ending = close_opportunity_keeps [OF ended assms(3) transition_facts(1) [OF assms(2)] assms(4)]
  then have "ended \<noteq> active" by auto
  with rest obtain x where x: "with_source_cursor watcher_source (tr_occurred_at t) (tr_transition_id t) ended = Inr x"
    and out: "step_with_event (tr_transition_id t) (tr_occurred_at t) (label # tr_reasons t) True x = Inr outcome"
    by auto
  have "watcher_source \<in> set opportunity_sources" by (simp add: opportunity_sources_def)
  note cursor = with_source_cursor_keeps [OF x ending(1) this]
  have "sound_step active x"
    using cursor ending(3) develops_trans [OF ending(2) cursor(2)] by (simp add: sound_step_def)
  with out show ?thesis by (rule sound_outcome_event)
qed

lemma advance_from_transition_sound:
  assumes "advance_from_transition regress ids t active = Inr outcome" "make_transition t = Inr t'"
    "opportunity_ok active" "op_status active \<noteq> EO_CLOSED"
  shows "sound_outcome (tr_transition_id t) active outcome"
proof (cases "outcome = None")
  case False
  then obtain level advanced x where
      advanced: "advance_opportunity ids (watch_request t level (Some (watch_setup t)) regress) active = Inr advanced"
    and x: "with_source_cursor watcher_source (tr_occurred_at t) (tr_transition_id t) advanced = Inr x"
    and out: "step_with_event (tr_transition_id t) (tr_occurred_at t) (''opportunity_advanced'' # tr_reasons t)
       (material_change x active) x = Inr outcome"
    using assms(1) by (auto simp: advance_from_transition_def split: if_splits option.splits)
  have "request_ok (watch_request t level (Some (watch_setup t)) regress)"
    by (rule watch_request_ok [OF assms(2)]) (simp add: strip_watch_setup)
  note advance = advance_opportunity_keeps [OF advanced assms(3) this assms(4)]
  have "watcher_source \<in> set opportunity_sources" by (simp add: opportunity_sources_def)
  note cursor = with_source_cursor_keeps [OF x advance(1) this]
  have "sound_step active x"
    using cursor advance(3) develops_trans [OF advance(2) cursor(2)] by (simp add: sound_step_def)
  with out show ?thesis by (rule sound_outcome_event)
qed simp

lemma transition_step_sound:
  assumes "transition_step regress ids t (Some active) = Inr outcome" "make_transition t = Inr t'"
    "opportunity_ok active" "op_status active \<noteq> EO_CLOSED"
  shows "sound_outcome (tr_transition_id t) active outcome"
  using assms(1) close_from_transition_sound [OF _ assms(2,3)] advance_from_transition_sound [OF _ assms(2-4)]
  by (auto simp: transition_step_def split: if_splits)

lemma transition_step_opens:
  assumes "transition_step regress ids t None = Inr (Some p)" "make_transition t = Inr t'"
  shows "opportunity_ok (ps_opportunity p)" "op_status (ps_opportunity p) \<noteq> EO_CLOSED"
    "op_symbol (ps_opportunity p) = tr_symbol t" "op_opportunity_id (ps_opportunity p) = oi_opportunity ids"
    "announces (tr_transition_id t) p" "ps_event p \<noteq> None"
proof -
  define level where "level = the (watch_level (tr_status t))"
  obtain fresh x where fresh: "new_opportunity ids t level = Inr fresh"
    and x: "(if tr_status t \<in> {EW_EARLY_ENTRY, EW_TRIGGERED}
            then advance_opportunity ids (watch_request t level None False) fresh else Inr fresh) = Inr x"
    and out: "step_with_event (tr_transition_id t) (tr_occurred_at t) (opening_reason (tr_status t) # tr_reasons t) True x
        = Inr (Some p)"
    using assms(1) unfolding transition_step_def open_from_transition_def level_def by (auto simp: Let_def split: if_splits)
  note made = new_opportunity_keeps [OF fresh assms(2)]
  have request: "request_ok (watch_request t level None False)" by (rule watch_request_ok [OF assms(2)]) simp
  have symbols: "op_symbol y = op_symbol z" "op_opportunity_id y = op_opportunity_id z" if "develops z y" for y z
    using that by (simp_all add: develops_def opportunity_thesis_def)
  have id: "op_opportunity_id fresh = oi_opportunity ids"
    using fresh by (auto simp: new_opportunity_def bind_result_Inr make_opportunity_def guard_Inr check_Inr)
  have "x = fresh \<or> advance_opportunity ids (watch_request t level None False) fresh = Inr x"
    using x by (auto split: if_splits)
  then have "opportunity_ok x \<and> op_status x \<noteq> EO_CLOSED \<and> op_symbol x = tr_symbol t \<and> op_opportunity_id x = oi_opportunity ids"
  proof
    assume "advance_opportunity ids (watch_request t level None False) fresh = Inr x"
    note advance = advance_opportunity_keeps [OF this made(1) request made(3)]
    show ?thesis using advance(1,4) symbols [OF advance(2)] made(5) id by simp
  qed (use made id in simp)
  moreover obtain q where "Some p = Some q" "ps_opportunity q = x" "announces (tr_transition_id t) q" "ps_event q \<noteq> None"
    by (rule step_with_event_Inr [OF out])
  ultimately show "opportunity_ok (ps_opportunity p)" "op_status (ps_opportunity p) \<noteq> EO_CLOSED"
    "op_symbol (ps_opportunity p) = tr_symbol t" "op_opportunity_id (ps_opportunity p) = oi_opportunity ids"
    "announces (tr_transition_id t) p" "ps_event p \<noteq> None" by simp_all
qed

section \<open>Analyses\<close>

lemma decimal_value_positive: "decimal_value codec v = Some d \<Longrightarrow> 0 < d"
  by (cases "(codec, v)" rule: decimal_value.cases) (auto split: if_splits option.splits)

lemma metric_decimal_positive: "metric_decimal codec r name = Some d \<Longrightarrow> 0 < d"
  unfolding metric_decimal_def by (rule decimal_value_positive)

lemma price_or_positive: "(\<And>d. p = Some d \<Longrightarrow> 0 < d) \<Longrightarrow> 0 < q \<Longrightarrow> 0 < price_or p q"
  by (auto simp: price_or_def split: option.splits)

lemma find_mem: "find P xs = Some x \<Longrightarrow> x \<in> set xs \<and> P x"
  by (induction xs) (auto split: if_splits)

lemma first_some_mem: "first_some f xs = Some y \<Longrightarrow> \<exists>x\<in>set xs. f x = Some y"
  by (induction xs) (auto split: option.splits)

lemma l2_anchor_valid: "l2_anchor x = Some c \<Longrightarrow> opportunity_ok x \<Longrightarrow> checkpoint_valid c"
  using find_mem [of _ "rev (op_checkpoints x)" c] by (auto simp: l2_anchor_def opportunity_ok_def checkpoints_ok_def)

lemma analysis_price_positive: "opportunity_ok x \<Longrightarrow> 0 < analysis_price codec x r"
  unfolding analysis_price_def
  by (rule price_or_positive) (auto simp: opportunity_ok_def state_ok_def dest: metric_decimal_positive)

lemma analysis_target_above: "analysis_target codec rs price = Some v \<Longrightarrow> price < v"
  unfolding analysis_target_def by (auto dest!: first_some_mem simp: bind_eq_Some_conv split: option.splits if_splits)

lemma l2_reclaim_levels_positive:
  assumes "l2_reclaim_levels codec x r price = Inr (invalidation, target)" "opportunity_ok x" "0 < price"
  shows "0 < invalidation" "opt_all (\<lambda>p. 0 < p) target"
proof -
  obtain anchor where anchor: "l2_anchor x = Some anchor" using assms(1) by (auto simp: l2_reclaim_levels_def split: option.splits)
  define level where "level = price_or (metric_decimal codec r ''invalidation_level'') (cp_invalidation anchor)"
  have levels: "invalidation = (if price \<le> level then cp_invalidation anchor else level)"
    "target = (case analysis_target codec (op_latest_analyses x) price of Some v \<Rightarrow> Some v | None \<Rightarrow> cp_target anchor)"
    using assms(1) unfolding l2_reclaim_levels_def anchor option.case Let_def level_def [symmetric] by simp_all
  note prices = checkpoint_prices [OF l2_anchor_valid [OF anchor assms(2)]]
  have "0 < level" unfolding level_def by (rule price_or_positive) (auto simp: prices(1) dest: metric_decimal_positive)
  then show "0 < invalidation" using prices(1) levels(1) by simp
  show "opt_all (\<lambda>p. 0 < p) target"
    using analysis_target_above [of codec "op_latest_analyses x" price] assms(3) prices(2) unfolding levels(2)
    by (cases "cp_target anchor") (force split: option.splits)+
qed

lemma apply_invalidation_keeps:
  assumes "apply_invalidation active updated r now = Inr (Some (x, reasons))" "opportunity_ok updated"
  shows "opportunity_ok x" "develops updated x"
proof -
  have price: "0 < op_current_price updated" using assms(2) by (simp add: opportunity_ok_def state_ok_def)
  have closing: "opportunity_ok x \<and> develops y x"
    if "close_opportunity (op_current_price updated) now reason status y = Inr x" "opportunity_ok y" "status \<in> terminal_legs"
    for reason status y
    using close_opportunity_keeps(1,2) [OF that(1,2) price that(3)] by simp
  have "opportunity_ok x \<and> develops updated x"
  proof (cases "op_current_price updated \<le> op_invalidation active \<or> long_structure_invalidates active r")
    case True
    with assms(1) have "close_opportunity (op_current_price updated) now CR_ORIGINAL_THESIS_INVALIDATED LS_THESIS_BROKEN updated = Inr x"
      by (auto simp: apply_invalidation_def Let_def)
    then show ?thesis using assms(2) by (rule closing) simp
  next
    case False
    with assms(1) obtain changed hit where
        changed: "close_horizon (ar_horizon r) (op_current_price updated) now LS_INVALIDATED updated = Inr (changed, hit)"
      and x: "x = changed \<or> close_opportunity (op_current_price updated) now CR_ALL_HORIZONS_CLOSED LS_TIME_EXIT changed = Inr x"
      unfolding apply_invalidation_def Let_def by (auto split: if_splits)
    note horizon = close_horizon_keeps [OF changed assms(2) price]
    show ?thesis using x closing [of CR_ALL_HORIZONS_CLOSED LS_TIME_EXIT changed] horizon(1,2) develops_trans [OF horizon(2)]
      by auto
  qed
  then show "opportunity_ok x" "develops updated x" by simp_all
qed

lemma invalidation_step_sound:
  assumes "invalidation_step active updated r now = Inr outcome" "sound_step active updated"
  shows "sound_outcome (ar_analysis_id r) active outcome"
proof -
  have valid: "opportunity_ok updated" using assms(2) by (simp add: sound_step_def)
  obtain z where z: "apply_invalidation active updated r now = Inr z"
    and out: "(case z of None \<Rightarrow> step_without_event updated
       | Some (changed, reasons) \<Rightarrow> step_with_event (ar_analysis_id r) now reasons True changed) = Inr outcome"
    using assms(1) by (auto simp: invalidation_step_def)
  show ?thesis
  proof (cases z)
    case None
    with out assms(2) show ?thesis by (intro sound_outcome_silent) simp_all
  next
    case (Some p)
    then obtain x reasons where p: "z = Some (x, reasons)" by (cases p) simp
    note kept = apply_invalidation_keeps [OF z [unfolded p] valid]
    from out p have "step_with_event (ar_analysis_id r) now reasons True x = Inr outcome" by simp
    then show ?thesis by (rule sound_outcome_event) (rule sound_step_trans [OF assms(2) kept])
  qed
qed

lemma analysis_step_sound:
  assumes "analysis_step codec ids r now active = Inr outcome" "valid_analysis r" "opportunity_ok active"
    "op_status active \<noteq> EO_CLOSED"
  shows "sound_outcome (ar_analysis_id r) active outcome"
proof (cases "analysis_outdated active r")
  case True
  with assms(1) show ?thesis by (simp add: analysis_step_def)
next
  case False
  define price where "price = analysis_price codec active r"
  define updated where "updated = with_analysis r price now active"
  have positive_price: "0 < price" unfolding price_def by (rule analysis_price_positive [OF assms(3)])
  note updating = with_analysis_keeps [OF assms(3) positive_price valid_analysis_facts(2) [OF assms(2)], of now, folded updated_def]
  have step: "sound_step active updated" by (rule sound_stepI [OF updating(1-3)])
  obtain noted retested where noted: "record_l2_retest codec updated r price now = (noted, retested)" by fastforce
  note noting = record_l2_retest_keeps [OF noted updating(1) positive_price]
  have noted_step: "sound_step active noted" by (rule sound_step_trans [OF step noting(1,2)])
  show ?thesis
  proof (cases "ar_horizon r = AH_INTRADAY \<and> retested \<and> l2_reclaim_confirmed codec noted r price")
    case True
    with False assms(1) obtain invalidation target x where
        levels: "l2_reclaim_levels codec noted r price = Inr (invalidation, target)"
      and x: "advance_opportunity ids (reclaim_request r price now invalidation target) noted = Inr x"
      and out: "step_with_event (ar_analysis_id r) now reclaim_reasons True x = Inr outcome"
      by (auto simp: analysis_step_def Let_def noted price_def [symmetric] updated_def [symmetric])
    note positive_levels = l2_reclaim_levels_positive [OF levels noting(1) positive_price]
    have "0 < p" if "dget (same_for hs target) h = Some p \<or> dget (same_for hs (Some invalidation)) h = Some p" for hs h p
      using that same_for_positive [OF positive_levels(2)] same_for_positive [of "Some invalidation" hs h p] positive_levels(1)
      by auto
    then have "request_ok (reclaim_request r price now invalidation target)"
      using positive_price valid_analysis_facts(2) [OF assms(2)]
      unfolding request_ok_def reclaim_request_def advance_request.simps by auto
    note advance = advance_opportunity_keeps [OF x noting(1) this]
    have "op_status noted \<noteq> EO_CLOSED" using noting(4) updating(4) assms(4) by simp
    note advance = advance [OF this]
    show ?thesis by (rule sound_outcome_event [OF out sound_step_trans [OF noted_step advance(1,2)]])
  next
    case unconfirmed: False
    have "analysis_step codec ids r now active = (if ar_horizon r \<noteq> AH_INTRADAY then invalidation_step active updated r now
        else invalidation_step active noted r now)"
      using False unconfirmed
      by (auto simp: analysis_step_def Let_def noted price_def [symmetric] updated_def [symmetric])
    with assms(1) consider "invalidation_step active updated r now = Inr outcome" | "invalidation_step active noted r now = Inr outcome"
      by (cases "ar_horizon r = AH_INTRADAY") simp_all
    then show ?thesis
    proof cases
      case 1
      from this step show ?thesis by (rule invalidation_step_sound)
    next
      case 2
      from this noted_step show ?thesis by (rule invalidation_step_sound)
    qed
  qed
qed

end
