(* ===== verification/Opportunity_Marks.thy ===== *)
theory Opportunity_Marks
  imports Opportunity_Decisions
begin

text \<open>
  The decisions over alerts, market bars and the periodic reconciliation: what they keep, as those over
  transitions and analyses, and what a bar that reaches the invalidation or a session's end settles.
\<close>

section \<open>Alerts\<close>

text \<open>
  The contract of an alert leaves the version of its component identifiers open; the engines that publish
  alerts take them from analyses, whose identifiers are UUIDv7.
\<close>

definition alert_ok :: "local_alert \<Rightarrow> bool" where
  "alert_ok a \<longleftrightarrow> make_local_alert a = Inr a \<and> (\<forall>u\<in>set (al_component_analysis_ids a). is_uuid7 u)"

lemma alert_price_positive: "alert_price codec a = Some p \<Longrightarrow> 0 < p"
  unfolding alert_price_def
  by (auto split: option.splits dest!: first_some_mem decimal_value_positive metric_decimal_positive simp: bind_eq_Some_conv)

lemma alert_horizon_level_positive: "alert_horizon_level codec a h names = Some p \<Longrightarrow> 0 < p"
  unfolding alert_horizon_level_def Let_def by (auto dest!: first_some_mem decimal_value_positive)

lemma alert_invalidations_positive:
  assumes "dget (alert_invalidations codec a x) h = Some p" "0 < op_invalidation x"
  shows "0 < p"
proof -
  define level where "level = (\<lambda>h. price_or (alert_horizon_level codec a h
         [''invalidation'', ''invalidation_level'', ''structural_invalidation'']) (op_invalidation x))"
  have positive_level: "0 < level h" for h
    unfolding level_def by (rule price_or_positive) (auto simp: assms(2) dest: alert_horizon_level_positive)
  have "dget (foldl (\<lambda>d h. dput h (level h) d) d hs) h = Some p \<Longrightarrow> 0 < p \<or> dget d h = Some p" for d hs
  proof (induction hs arbitrary: d)
    case (Cons k hs)
    with Cons.IH [of "dput k (level k) d"] show ?case
      using positive_level by (auto simp: dict_simps split: if_splits)
  qed simp
  from this [of "[]"] assms(1) show ?thesis by (simp add: alert_invalidations_def level_def)
qed

lemma alert_targets_above:
  assumes "dget (alert_targets codec a price) h = Some p"
  shows "price < p"
proof -
  define level where "level = (\<lambda>h. alert_horizon_level codec a h [''objective'', ''target_2r'', ''objective_level'', ''take_profit''])"
  have "dget (foldl (\<lambda>d h. case level h of None \<Rightarrow> d | Some v \<Rightarrow> if price < v then dput h v d else d) d hs) h = Some p
      \<Longrightarrow> price < p \<or> dget d h = Some p" for d hs
  proof (induction hs arbitrary: d)
    case (Cons k hs)
    show ?case
      using Cons.prems Cons.IH [of "case level k of None \<Rightarrow> d | Some v \<Rightarrow> if price < v then dput k v d else d"]
      by (auto simp: dict_simps split: if_splits option.splits)
  qed simp
  from this [of "[]"] assms show ?thesis by (simp add: alert_targets_def level_def)
qed

lemma alert_request_ok:
  assumes "alert_ok a" "opportunity_ok x" "0 < price"
  shows "request_ok (alert_request codec a level price x)"
proof -
  have "0 < op_invalidation x" using assms(2) by (simp add: opportunity_ok_def thesis_ok_def)
  then have "0 < p" if "dget (alert_invalidations codec a x) h = Some p \<or> dget (alert_targets codec a price) h = Some p" for h p
    using that alert_invalidations_positive alert_targets_above [of codec a price h p] assms(3) by auto
  then show ?thesis using assms(1,3) unfolding request_ok_def alert_request_def Let_def alert_ok_def by auto
qed

lemma alert_source_known: "alert_maturity a = Some level \<Longrightarrow> alert_source a \<in> set opportunity_sources"
  unfolding alert_maturity_def alert_source_def opportunity_sources_def Let_def by (auto split: if_splits)

lemma ingest_alert_step_sound:
  assumes "ingest_alert_step codec ids a level (Some active) = Inr outcome" "alert_ok a" "alert_maturity a = Some level"
    "opportunity_ok active" "op_status active \<noteq> EO_CLOSED"
  shows "sound_outcome (al_alert_id a) active outcome"
proof (cases "is_new_source_event active (alert_source a) (al_created_at a) (al_alert_id a)")
  case False
  with assms(1) show ?thesis by (simp add: ingest_alert_step_def)
next
  case True
  define price where "price = price_or (alert_price codec a) (op_current_price active)"
  have price: "0 < price" unfolding price_def
    by (rule price_or_positive) (use assms(4) in \<open>auto simp: opportunity_ok_def state_ok_def dest: alert_price_positive\<close>)
  obtain advanced x reasons returned where
      advanced: "advance_opportunity ids (alert_request codec a level price active) active = Inr advanced"
    and x: "with_source_cursor (alert_source a) (al_created_at a) (al_alert_id a) advanced = Inr x"
    and out: "step_with_event (al_alert_id a) (al_created_at a) reasons returned x = Inr outcome"
    using True assms(1) by (auto simp: ingest_alert_step_def Let_def price_def)
  note advance = advance_opportunity_keeps [OF advanced assms(4) alert_request_ok [OF assms(2,4) price] assms(5)]
  note cursor = with_source_cursor_keeps [OF x advance(1) alert_source_known [OF assms(3)]]
  have "sound_step active x"
    using cursor advance(3) develops_trans [OF advance(2) cursor(2)] by (simp add: sound_step_def)
  with out show ?thesis by (rule sound_outcome_event)
qed

section \<open>Bars\<close>

lemma session_closed_legs:
  assumes "map_result (session_closed_leg z b) legs = Inr settled" "legs_ok legs" "valid_bar b"
  shows "legs_ok settled" "legs_evolve legs settled"
proof -
  have "list_all2 leg_kept legs settled"
    using assms(1) by (rule map_result_list_all2) (use assms(2,3) session_closed_leg_kept in \<open>auto simp: legs_ok_def\<close>)
  then show "legs_ok settled" "legs_evolve legs settled" using legs_kept [OF assms(2)] by simp_all
qed

lemma settle_bar_sound:
  assumes "settle_bar z ids b legs cs reasons active = Inr outcome" "opportunity_ok active" "valid_bar b"
    "legs_ok legs" "legs_evolve (op_legs active) legs" "checkpoints_ok cs" "checkpoints_extend (op_checkpoints active) cs"
  shows "sound_outcome (oi_event ids) active outcome"
proof -
  obtain settled where settled: "map_result (session_closed_leg z b) legs = Inr settled"
    and out: "(let updated = marked_by_bar b settled cs active; reasons' = reasons @ session_reasons z b legs in
       if all_opened_terminal settled
       then bind_result (close_opportunity (mb_close b) (mb_timestamp b) CR_ALL_HORIZONS_CLOSED LS_TIME_EXIT updated)
         (step_with_event (oi_event ids) (mb_timestamp b) (reasons' @ [''all_horizons_closed'']) True)
       else if reasons' = [] then step_without_event updated
       else step_with_event (oi_event ids) (mb_timestamp b) reasons' True updated) = Inr outcome"
    using assms(1) by (auto simp: settle_bar_def)
  note session = session_closed_legs [OF settled assms(4,3)]
  define updated where "updated = marked_by_bar b settled cs active"
  have "opportunity_ok updated" "develops active updated"
    using with_parts_keeps [OF assms(2) session(1) legs_evolve_trans [OF assms(5) session(2)] assms(6,7), of updated]
      bar_prices [OF assms(3)]
    by (simp_all add: updated_def marked_by_bar_def opportunity_thesis_def state_ok_def)
  then have step: "sound_step active updated"
    by (simp add: sound_step_def updated_def marked_by_bar_def)
  consider (all) x where "close_opportunity (mb_close b) (mb_timestamp b) CR_ALL_HORIZONS_CLOSED LS_TIME_EXIT updated = Inr x"
      "step_with_event (oi_event ids) (mb_timestamp b) ((reasons @ session_reasons z b legs) @ [''all_horizons_closed'']) True x
        = Inr outcome"
    | (silent) "step_without_event updated = Inr outcome"
    | (event) "step_with_event (oi_event ids) (mb_timestamp b) (reasons @ session_reasons z b legs) True updated = Inr outcome"
    using out unfolding Let_def updated_def [symmetric] by (auto split: if_splits)
  then show ?thesis
  proof cases
    case all
    note ending = close_opportunity_keeps [OF all(1) \<open>opportunity_ok updated\<close>]
    have "sound_step active x" by (rule sound_step_trans [OF step]) (use ending bar_prices [OF assms(3)] in auto)
    with all(2) show ?thesis by (rule sound_outcome_event)
  next
    case silent
    from this step show ?thesis by (rule sound_outcome_silent)
  next
    case event
    from this step show ?thesis by (rule sound_outcome_event)
  qed
qed

lemma bar_step_sound:
  assumes "bar_step z ids b active = Inr outcome" "opportunity_ok active" "valid_bar b"
  shows "sound_outcome (oi_event ids) active outcome"
proof (cases "bar_applies active b")
  case False
  with assms(1) show ?thesis by (simp add: bar_step_def)
next
  case True
  obtain marked legs leg_texts checkpoint_texts where marked: "map_result (mark_checkpoint z b) (op_checkpoints active) = Inr marked"
    and legs: "map_result (mark_leg b) (op_legs active) = Inr legs"
    and out: "(if mb_low b \<le> op_invalidation active
             then bind_result (close_opportunity (op_invalidation active) (mb_timestamp b) CR_ORIGINAL_THESIS_INVALIDATED
                 LS_THESIS_BROKEN (active \<lparr> op_checkpoints := op_checkpoints (record_l2_bar_retest (active \<lparr> op_checkpoints := marked \<rparr>) b),
                   op_legs := legs, op_last_market_bar_at := Some (mb_timestamp b) \<rparr>))
               (step_with_event (oi_event ids) (mb_timestamp b) [''original_invalidation_breached''] True)
             else settle_bar z ids b legs (op_checkpoints (record_l2_bar_retest (active \<lparr> op_checkpoints := marked \<rparr>) b))
               (leg_texts @ checkpoint_texts) active) = Inr outcome"
    using True assms(1) unfolding bar_step_def Let_def by auto
  have valid: "legs_ok (op_legs active)" "checkpoints_ok (op_checkpoints active)" "0 < op_invalidation active"
    using assms(2) by (simp_all add: opportunity_ok_def thesis_ok_def)
  have "list_all2 leg_kept (op_legs active) legs"
    using legs by (rule map_result_list_all2) (use valid(1) mark_leg_kept [OF _ _ assms(3)] in \<open>auto simp: legs_ok_def\<close>)
  note legs_marked = legs_kept [OF valid(1) this]
  have "list_all2 checkpoint_kept (op_checkpoints active) marked"
    using marked by (rule map_result_list_all2)
      (use valid(2) mark_checkpoint_keeps [OF _ _ assms(3)] in \<open>auto simp: checkpoints_ok_def checkpoint_kept_def\<close>)
  note cs_marked = checkpoints_kept [OF valid(2) this]
  define x1 where "x1 = active \<lparr> op_checkpoints := marked \<rparr>"
  have x1: "opportunity_ok x1" "develops active x1"
    using with_parts_keeps [OF assms(2) valid(1) legs_evolve_refl cs_marked, of x1]
    by (simp_all add: x1_def opportunity_thesis_def state_ok_def)
  note retest = record_l2_bar_retest_keeps [OF x1(1) assms(3)]
  define cs where "cs = op_checkpoints (record_l2_bar_retest x1 b)"
  have cs: "checkpoints_ok cs" "checkpoints_extend (op_checkpoints active) cs"
    using retest develops_trans [OF x1(2) retest(2)] by (simp_all add: cs_def opportunity_ok_def develops_def)
  define x2 where "x2 = active \<lparr> op_checkpoints := cs, op_legs := legs, op_last_market_bar_at := Some (mb_timestamp b) \<rparr>"
  have x2: "opportunity_ok x2" "develops active x2"
    using with_parts_keeps [OF assms(2) legs_marked cs, of x2] by (simp_all add: x2_def opportunity_thesis_def state_ok_def)
  show ?thesis
  proof (cases "mb_low b \<le> op_invalidation active")
    case True
    then obtain x where x: "close_opportunity (op_invalidation active) (mb_timestamp b) CR_ORIGINAL_THESIS_INVALIDATED
        LS_THESIS_BROKEN x2 = Inr x"
      and event: "step_with_event (oi_event ids) (mb_timestamp b) [''original_invalidation_breached''] True x = Inr outcome"
      using out unfolding x1_def [symmetric] cs_def [symmetric] x2_def [symmetric] by auto
    have terminal: "LS_THESIS_BROKEN \<in> terminal_legs" by simp
    note ending = close_opportunity_keeps [OF x x2(1) valid(3) terminal]
    have "sound_step active x"
      using ending(1,3) develops_trans [OF x2(2) ending(2)] by (simp add: sound_step_def x2_def)
    with event show ?thesis by (rule sound_outcome_event)
  next
    case False
    then have "settle_bar z ids b legs cs (leg_texts @ checkpoint_texts) active = Inr outcome"
      using out unfolding x1_def [symmetric] cs_def [symmetric] by simp
    then show ?thesis using assms(2,3) legs_marked cs by (rule settle_bar_sound)
  qed
qed

lemma reference_bar_step_sound:
  assumes "reference_bar_step b active = Inr outcome" "opportunity_ok active" "valid_bar b"
  shows "sound_outcome i active outcome"
proof (cases "bar_applies active b")
  case False
  with assms(1) show ?thesis by (simp add: reference_bar_step_def)
next
  case True
  define mark :: "horizon_leg \<Rightarrow> horizon_leg" where
    "mark = (\<lambda>l. if hl_status l \<in> {LS_WATCHING, LS_OPEN} then l \<lparr> hl_current_price := mb_close b \<rparr> else l)"
  define mark_c :: "maturity_checkpoint \<Rightarrow> maturity_checkpoint" where
    "mark_c = (\<lambda>c. if cp_status c = CS_OPEN then c \<lparr> cp_current_price := mb_close b \<rparr> else c)"
  have valid: "legs_ok (op_legs active)" "checkpoints_ok (op_checkpoints active)"
    using assms(2) by (simp_all add: opportunity_ok_def)
  note price = bar_prices [OF assms(3)]
  have "leg_kept l (mark l)" if "leg_valid l" for l
    using that price unfolding leg_kept_def mark_def leg_valid_iff leg_fields_def leg_evolves_def
    by (cases "hl_status l") simp_all
  then have "list_all2 leg_kept (op_legs active) (map mark (op_legs active))"
    using valid(1) by (auto simp: list_all2_conv_all_nth legs_ok_def)
  note legs = legs_kept [OF valid(1) this]
  have "checkpoint_kept c (mark_c c)" if "checkpoint_valid c" for c
  proof (cases "cp_status c")
    case CS_OPEN
    have "checkpoint_zone_error (c \<lparr> cp_current_price := mb_close b \<rparr>) = checkpoint_zone_error c"
      by (rule zone_error_cong) simp_all
    with that CS_OPEN price show ?thesis
      by (simp add: checkpoint_kept_def mark_c_def checkpoint_valid_iff checkpoint_fields_def checkpoint_evolves_def
          checkpoint_thesis_simps)
  qed (use that in \<open>simp add: checkpoint_kept_def mark_c_def\<close>)
  then have "list_all2 checkpoint_kept (op_checkpoints active) (map mark_c (op_checkpoints active))"
    using valid(2) by (auto simp: list_all2_conv_all_nth checkpoints_ok_def)
  note cs = checkpoints_kept [OF valid(2) this]
  define x where "x = marked_by_bar b (map mark (op_legs active)) (map mark_c (op_checkpoints active)) active"
  have "opportunity_ok x" "develops active x"
    using with_parts_keeps [OF assms(2) legs cs, of x] price
    by (simp_all add: x_def marked_by_bar_def opportunity_thesis_def state_ok_def)
  then have "sound_step active x" by (simp add: sound_step_def x_def marked_by_bar_def)
  moreover have "step_without_event x = Inr outcome"
    using True assms(1) by (simp add: reference_bar_step_def x_def mark_def mark_c_def)
  ultimately show ?thesis by (simp add: sound_outcome_silent)
qed

section \<open>Reconciliation\<close>

lemma reconcile_step_sound:
  assumes "reconcile_step ids now symbols active = Inr outcome" "opportunity_ok active"
  shows "sound_outcome (oi_event ids) active outcome"
    "\<forall>p\<in>set_option outcome. wound_up (ps_opportunity p)"
    "outcome = None \<Longrightarrow> now < op_expires_at active \<and> op_symbol active \<in> set (map norm_symbol symbols)"
proof -
  have price: "0 < op_current_price active" using assms(2) by (simp add: opportunity_ok_def state_ok_def)
  have "sound_outcome (oi_event ids) active outcome \<and> (\<forall>p\<in>set_option outcome. wound_up (ps_opportunity p)) \<and> outcome \<noteq> None"
    if x: "close_opportunity (op_current_price active) now reason status active = Inr x"
      and out: "step_with_event (oi_event ids) now reasons True x = Inr outcome" and status: "status \<in> terminal_legs"
    for reason status x reasons
  proof -
    note ending = close_opportunity_keeps [OF x assms(2) price status]
    obtain p where "outcome = Some p" "ps_opportunity p = x" by (rule step_with_event_Inr [OF out])
    with ending sound_outcome_event [OF out sound_stepI [OF ending(1-3)]] show ?thesis by simp
  qed
  note ending = this
  consider (expired) x where "close_opportunity (op_current_price active) now CR_EXPIRED LS_EXPIRED active = Inr x"
      "step_with_event (oi_event ids) now [''opportunity_expired''] True x = Inr outcome"
    | (removed) x where "close_opportunity (op_current_price active) now CR_UNIVERSE_REMOVED LS_TIME_EXIT active = Inr x"
      "step_with_event (oi_event ids) now [''symbol_removed_from_universe''] True x = Inr outcome"
    | (kept) "outcome = None" "now < op_expires_at active" "op_symbol active \<in> set (map norm_symbol symbols)"
    using assms(1) unfolding reconcile_step_def by (auto split: if_splits)
  then have "sound_outcome (oi_event ids) active outcome \<and> (\<forall>p\<in>set_option outcome. wound_up (ps_opportunity p))
      \<and> (outcome = None \<longrightarrow> now < op_expires_at active \<and> op_symbol active \<in> set (map norm_symbol symbols))"
  proof cases
    case expired
    from ending [OF this] show ?thesis by auto
  next
    case removed
    from ending [OF this] show ?thesis by auto
  qed simp
  then show "sound_outcome (oi_event ids) active outcome" "\<forall>p\<in>set_option outcome. wound_up (ps_opportunity p)"
    "outcome = None \<Longrightarrow> now < op_expires_at active \<and> op_symbol active \<in> set (map norm_symbol symbols)" by simp_all
qed

end
