(* ===== verification/Opportunity_Properties.thy ===== *)
theory Opportunity_Properties
  imports Opportunity_Marks
begin

text \<open>
  Any run of the engine's handlers over a store that meets the port's contract: every opportunity held
  passes its contract, a symbol has at most one that is not closed, each develops, and a closed one is
  never touched again.
\<close>

section \<open>What a store holds\<close>

definition all_valid :: "(uuid \<rightharpoonup> opportunity) \<Rightarrow> bool" where
  "all_valid view \<longleftrightarrow> (\<forall>i x. view i = Some x \<longrightarrow> opportunity_ok x \<and> norm_symbol (op_symbol x) = op_symbol x)"

definition one_live :: "(uuid \<rightharpoonup> opportunity) \<Rightarrow> bool" where
  "one_live view \<longleftrightarrow> (\<forall>i j x y. view i = Some x \<and> view j = Some y \<and> op_symbol x = op_symbol y
     \<and> op_status x \<noteq> EO_CLOSED \<and> op_status y \<noteq> EO_CLOSED \<longrightarrow> i = j)"

definition view_develops :: "(uuid \<rightharpoonup> opportunity) \<Rightarrow> (uuid \<rightharpoonup> opportunity) \<Rightarrow> bool" where
  "view_develops view view' \<longleftrightarrow> (\<forall>i x. view i = Some x \<longrightarrow>
     (\<exists>x'. view' i = Some x' \<and> develops x x' \<and> (op_status x = EO_CLOSED \<longrightarrow> x' = x)))"

lemma view_develops_refl [simp]: "view_develops view view"
  by (simp add: view_develops_def)

lemma view_develops_trans: "view_develops a b \<Longrightarrow> view_develops b c \<Longrightarrow> view_develops a c"
  unfolding view_develops_def using develops_trans by (metis (no_types))

lemma view_develops_put:
  "view i = Some x \<Longrightarrow> develops x x' \<Longrightarrow> op_status x \<noteq> EO_CLOSED \<Longrightarrow> view_develops view (view(i \<mapsto> x'))"
  by (auto simp: view_develops_def)

lemma view_develops_new: "view i = None \<Longrightarrow> view_develops view (view(i \<mapsto> x))"
  by (auto simp: view_develops_def)

text \<open>The inputs of the engine, as their contracts leave them.\<close>

inductive handles :: "'s opportunity_port \<Rightarrow> ('s \<Rightarrow> uuid \<rightharpoonup> opportunity) \<Rightarrow> 's \<Rightarrow> 's \<Rightarrow> bool" for port view where
  by_transition: "ingest_transition port regress ids t s = Inr (events, s') \<Longrightarrow> make_transition t = Inr t' \<Longrightarrow>
    norm_symbol (tr_symbol t) = tr_symbol t \<Longrightarrow> view s (oi_opportunity ids) = None \<Longrightarrow> handles port view s s'"
| by_analysis: "ingest_analysis port codec ids r now s = Inr (events, s') \<Longrightarrow> valid_analysis r \<Longrightarrow> handles port view s s'"
| by_alert: "ingest_alert port codec ids a s = Inr (events, s') \<Longrightarrow> alert_ok a \<Longrightarrow> handles port view s s'"
| by_bar: "ingest_bar port z extended_hours ids b s = Inr (events, s') \<Longrightarrow> valid_bar b \<Longrightarrow> handles port view s s'"
| by_reference: "ingest_reference_bar port b s = Inr (events, s') \<Longrightarrow> valid_bar b \<Longrightarrow> handles port view s s'"
| by_reconcile: "reconcile port each now symbols s = (outcome, s') \<Longrightarrow> handles port view s s'"

section \<open>The handlers keep it\<close>

context opportunity_store
begin

lemma commit_known:
  assumes "invar s" "all_valid (tracked s)" "one_live (tracked s)"
    and active: "tracked s (op_opportunity_id active) = Some active" "op_status active \<noteq> EO_CLOSED"
    and sound: "sound_outcome i active outcome" and run: "commit_step port s outcome = Inr (events, s')"
  shows "invar s' \<and> all_valid (tracked s') \<and> one_live (tracked s') \<and> view_develops (tracked s) (tracked s') \<and>
    (\<forall>j. j \<noteq> op_opportunity_id active \<longrightarrow> tracked s' j = tracked s j)"
proof (cases outcome)
  case None
  with run assms(1-3) show ?thesis by (simp add: commit_step_def)
next
  case (Some p)
  define x where "x = ps_opportunity p"
  have save: "os_save port x (ps_event p) s = Inr s'" using run by (auto simp: commit_step_def Some x_def bind_result_Inr)
  have x: "opportunity_ok x" "develops active x" using sound by (simp_all add: sound_outcome_def sound_step_def Some x_def)
  then have same: "op_opportunity_id x = op_opportunity_id active" "op_symbol x = op_symbol active"
    by (simp_all add: develops_def opportunity_thesis_def)
  have view: "tracked s' = (tracked s)(op_opportunity_id active \<mapsto> x)" "invar s'"
    using saved [OF assms(1) save] by (simp_all add: same)
  have "all_valid (tracked s')" using assms(2) active(1) x(1) same(2) unfolding view all_valid_def by simp
  moreover have "one_live (tracked s')"
    using assms(3) active same(2) unfolding view one_live_def by (simp split: if_splits) metis
  moreover have "view_develops (tracked s) (tracked s')" unfolding view using view_develops_put active x(2) by blast
  ultimately show ?thesis using view by simp
qed

lemma commit_new:
  assumes "invar s" "all_valid (tracked s)" "one_live (tracked s)" "os_load_active port s symbol = None"
    and new: "opportunity_ok (ps_opportunity p)" "op_symbol (ps_opportunity p) = symbol" "norm_symbol symbol = symbol"
      "tracked s (op_opportunity_id (ps_opportunity p)) = None"
    and run: "commit_step port s (Some p) = Inr (events, s')"
  shows "invar s' \<and> all_valid (tracked s') \<and> one_live (tracked s') \<and> view_develops (tracked s) (tracked s')"
proof -
  define x where "x = ps_opportunity p"
  have save: "os_save port x (ps_event p) s = Inr s'" using run by (auto simp: commit_step_def x_def bind_result_Inr)
  have view: "tracked s' = (tracked s)(op_opportunity_id x \<mapsto> x)" "invar s'" using saved [OF assms(1) save] by simp_all
  have closed_rest: "op_status y = EO_CLOSED" if "tracked s j = Some y" "op_symbol y = op_symbol x" for j y
    using no_active [OF assms(1,4) that(1)] that(2) new(2,3) by (simp add: x_def)
  have "all_valid (tracked s')" using assms(2) new(1-3) unfolding view all_valid_def by (simp add: x_def)
  moreover have "one_live (tracked s')"
    using assms(3) closed_rest unfolding view one_live_def by (auto split: if_splits)
  ultimately show ?thesis using view new(4) view_develops_new by (simp add: x_def)
qed

lemma handles_active:
  assumes "invar s" "all_valid (tracked s)" "one_live (tracked s)" "os_load_active port s symbol = Some active"
    and "opportunity_ok active \<Longrightarrow> op_status active \<noteq> EO_CLOSED \<Longrightarrow> sound_outcome i active outcome"
    and "commit_step port s outcome = Inr (events, s')"
  shows "invar s' \<and> all_valid (tracked s') \<and> one_live (tracked s') \<and> view_develops (tracked s) (tracked s')"
proof -
  note active = active_found [OF assms(1,4)]
  then have "opportunity_ok active" using assms(2) unfolding all_valid_def by blast
  with active assms(5) have "sound_outcome i active outcome" by blast
  from commit_known [OF assms(1-3) _ _ this assms(6)] active show ?thesis by blast
qed

lemma reconcile_each_keeps:
  assumes "reconcile_each port ids now symbols xs events s = (outcome, s')" "invar s" "all_valid (tracked s)" "one_live (tracked s)"
    and "\<forall>x\<in>set xs. tracked s (op_opportunity_id x) = Some x \<and> op_status x \<noteq> EO_CLOSED" "distinct (map op_opportunity_id xs)"
  shows "invar s' \<and> all_valid (tracked s') \<and> one_live (tracked s') \<and> view_develops (tracked s) (tracked s')"
  using assms
proof (induction xs arbitrary: events s)
  case (Cons x xs)
  show ?case
  proof (cases "bind_result (reconcile_step (ids x) now symbols x) (commit_step port s)")
    case (Inl e)
    with Cons.prems show ?thesis by simp
  next
    case (Inr p)
    obtain returned s1 where p: "p = (returned, s1)" by (cases p)
    obtain step where step: "reconcile_step (ids x) now symbols x = Inr step" "commit_step port s step = Inr (returned, s1)"
      using Inr by (auto simp: p bind_result_Inr)
    have x: "tracked s (op_opportunity_id x) = Some x" "op_status x \<noteq> EO_CLOSED" using Cons.prems(5) by simp_all
    then have "opportunity_ok x" using Cons.prems(3) unfolding all_valid_def by blast
    from commit_known [OF Cons.prems(2-4) x reconcile_step_sound(1) [OF step(1) this] step(2)]
    have one: "invar s1" "all_valid (tracked s1)" "one_live (tracked s1)" "view_develops (tracked s) (tracked s1)"
      "\<forall>j. j \<noteq> op_opportunity_id x \<longrightarrow> tracked s1 j = tracked s j" by blast+
    have rest: "reconcile_each port ids now symbols xs (events @ returned) s1 = (outcome, s')"
      using Cons.prems(1) Inr by (simp add: p)
    have "\<forall>y\<in>set xs. tracked s1 (op_opportunity_id y) = Some y \<and> op_status y \<noteq> EO_CLOSED"
      using Cons.prems(5,6) one(5) by (auto simp: image_iff)
    from Cons.IH [OF rest one(1-3) this] Cons.prems(6) one(4) show ?thesis using view_develops_trans by auto
  qed
qed simp

lemma handles_keeps:
  assumes "handles port tracked s s'" "invar s" "all_valid (tracked s)" "one_live (tracked s)"
  shows "invar s' \<and> all_valid (tracked s') \<and> one_live (tracked s') \<and> view_develops (tracked s) (tracked s')"
  using assms(1)
proof (cases rule: handles.cases)
  case (by_transition regress ids t events t')
  show ?thesis
  proof (cases "os_event_seen port s (tr_transition_id t)")
    case True
    with by_transition assms show ?thesis by (simp add: ingest_transition_def)
  next
    case False
    obtain outcome where out: "transition_step regress ids t (os_load_active port s (tr_symbol t)) = Inr outcome"
      "commit_step port s outcome = Inr (events, s')"
      using by_transition(1) False by (auto simp: ingest_transition_def bind_result_Inr)
    show ?thesis
    proof (cases "os_load_active port s (tr_symbol t)")
      case (Some active)
      note step = out(1) [unfolded Some]
      show ?thesis by (rule handles_active [OF assms(2-4) Some transition_step_sound [OF step by_transition(2)] out(2)])
    next
      case none: None
      show ?thesis
      proof (cases outcome)
        case None
        with out(2) assms show ?thesis by (simp add: commit_step_def)
      next
        case (Some p)
        note opens = transition_step_opens [OF out(1) [unfolded none Some] by_transition(2)]
        show ?thesis
          by (rule commit_new [OF assms(2-4) none opens(1,3) by_transition(3) _ out(2) [unfolded Some]])
            (simp add: opens(4) by_transition(4))
      qed
    qed
  qed
next
  case (by_analysis codec ids r now events)
  show ?thesis
  proof (cases "os_load_active port s (ar_symbol r)")
    case (Some active)
    show ?thesis
    proof (cases "os_event_seen port s (ar_analysis_id r)")
      case False
      then obtain outcome where out: "analysis_step codec ids r now active = Inr outcome" "commit_step port s outcome = Inr (events, s')"
        using by_analysis(1) Some by (auto simp: ingest_analysis_def bind_result_Inr)
      show ?thesis by (rule handles_active [OF assms(2-4) Some analysis_step_sound [OF out(1) by_analysis(2)] out(2)])
    qed (use by_analysis Some assms in \<open>simp add: ingest_analysis_def\<close>)
  qed (use by_analysis assms in \<open>simp add: ingest_analysis_def\<close>)
next
  case (by_alert codec ids a events)
  show ?thesis
  proof (cases "alert_maturity a = None \<or> os_event_seen port s (al_alert_id a)")
    case True
    with by_alert assms show ?thesis by (auto simp: ingest_alert_def split: option.splits)
  next
    case False
    then obtain level where level: "alert_maturity a = Some level" by auto
    obtain outcome where out: "ingest_alert_step codec ids a level (os_load_active port s (al_symbol a)) = Inr outcome"
      "commit_step port s outcome = Inr (events, s')"
      using by_alert(1) False level by (auto simp: ingest_alert_def bind_result_Inr)
    show ?thesis
    proof (cases "os_load_active port s (al_symbol a)")
      case None
      with out assms show ?thesis by (simp add: ingest_alert_step_def commit_step_def)
    next
      case (Some active)
      note step = out(1) [unfolded Some]
      show ?thesis by (rule handles_active [OF assms(2-4) Some ingest_alert_step_sound [OF step by_alert(2) level] out(2)])
    qed
  qed
next
  case (by_bar z extended_hours ids b events)
  show ?thesis
  proof (cases "os_load_active port s (mb_symbol b)")
    case None
    with by_bar assms show ?thesis by (simp add: ingest_bar_def split: if_splits)
  next
    case (Some active)
    then consider "s' = s" | outcome where "bar_step z ids b active = Inr outcome" "commit_step port s outcome = Inr (events, s')"
      using by_bar(1) by (auto simp: ingest_bar_def bind_result_Inr split: if_splits)
    then show ?thesis
    proof cases
      case (2 outcome)
      show ?thesis by (rule handles_active [OF assms(2-4) Some bar_step_sound [OF 2(1) _ by_bar(2)] 2(2)])
    qed (use assms in simp)
  qed
next
  case (by_reference b events)
  show ?thesis
  proof (cases "os_load_active port s (mb_symbol b)")
    case None
    with by_reference assms show ?thesis by (simp add: ingest_reference_bar_def split: if_splits)
  next
    case (Some active)
    then consider "s' = s" | outcome where "reference_bar_step b active = Inr outcome" "commit_step port s outcome = Inr (events, s')"
      using by_reference(1) by (auto simp: ingest_reference_bar_def bind_result_Inr split: if_splits)
    then show ?thesis
    proof cases
      case (2 outcome)
      show ?thesis by (rule handles_active [OF assms(2-4) Some reference_bar_step_sound [OF 2(1) _ by_reference(2)] 2(2)])
    qed (use assms in simp)
  qed
next
  case (by_reconcile ids now symbols outcome)
  show ?thesis
    by (rule reconcile_each_keeps [OF by_reconcile [unfolded reconcile_def] assms(2-4) _ listed_once [OF assms(2)]])
      (use listed [OF assms(2)] in blast)
qed

lemma run_keeps:
  assumes "(handles port tracked)\<^sup>*\<^sup>* s s'" "invar s" "all_valid (tracked s)" "one_live (tracked s)"
  shows "invar s' \<and> all_valid (tracked s') \<and> one_live (tracked s') \<and> view_develops (tracked s) (tracked s')"
  using assms
proof (induction rule: rtranclp_induct)
  case (step s1 s2)
  then show ?case using handles_keeps [OF step(2)] view_develops_trans by blast
qed simp

end

section \<open>The in-memory engine\<close>

text \<open>
  From an empty store, whatever valid inputs arrive in whatever order: every opportunity passes its
  contract, a symbol has at most one that is not closed, and along the run an opportunity keeps its thesis,
  its outcomes and its revision order, and nothing changes once it is closed.
\<close>

abbreviation memory_run :: "opportunity_memory \<Rightarrow> opportunity_memory \<Rightarrow> bool" where
  "memory_run \<equiv> (handles opportunity_memory_port (\<lambda>m. dget (om_opportunities m)))\<^sup>*\<^sup>*"

theorem opportunity_run:
  assumes "memory_run empty_opportunities m" "memory_run m m'"
  shows "(\<forall>i x. dget (om_opportunities m) i = Some x \<longrightarrow> make_opportunity x = Inr x \<and> op_opportunity_id x = i \<and>
      (\<exists>x'. dget (om_opportunities m') i = Some x' \<and> develops x x' \<and> (op_status x = EO_CLOSED \<longrightarrow> x' = x))) \<and>
    (\<forall>i j x y. dget (om_opportunities m) i = Some x \<and> dget (om_opportunities m) j = Some y \<and> op_symbol x = op_symbol y \<and>
      op_status x \<noteq> EO_CLOSED \<and> op_status y \<noteq> EO_CLOSED \<longrightarrow> i = j)"
proof -
  let ?view = "\<lambda>m. dget (om_opportunities m)"
  have empty: "all_valid (?view empty_opportunities)" "one_live (?view empty_opportunities)"
    by (simp_all add: all_valid_def one_live_def empty_opportunities_def)
  from opportunity_memory.run_keeps [OF assms(1) opportunities_empty empty]
  have m: "opportunities_wf m" "all_valid (?view m)" "one_live (?view m)" by blast+
  from opportunity_memory.run_keeps [OF assms(2) m] have "view_develops (?view m) (?view m')" by blast
  with m opportunities_key [OF m(1)] opportunity_ok_valid show ?thesis
    unfolding all_valid_def one_live_def view_develops_def by blast
qed

end
