(* ===== verification/Spec2Isabelle.thy ===== *)
theory Spec2Isabelle
  imports Subjects Strategy_Runtime Event_Bus Bus_Maintenance History_Service Aggregator_Laws Bar_Series
    Watch_Properties Audit_Laws Outbox_Laws Alert_Properties Alert_Checkpoint Fusion_Properties Opportunity_Properties
begin

text \<open>
  A verification library for the market analysis system under src/app: a Python monorepo in which small
  services exchange validated contracts over an event bus, evaluate strategies made of isolated rules, keep
  a history of market bars, and follow entry theses per symbol. The library models its deterministic core
  as functions and step relations and proves what makes each part correct. It never models an order: the
  program only analyses and notifies.

  The program. A contract (app/contracts) is a frozen model whose constructor validates its fields.
  Market data arrives as historical bars (app/alpaca_market_data), which app/market_history_engine keeps
  synchronized in a table (app/integration/market_bar_repository.py), and as minute bars, which
  app/integration aggregates and keeps in bounded series. Events travel on subjects of a NATS-like bus
  (app/event_bus). A strategy specification is compiled against a snapshot of the rule registry
  (app/rule_registry, app/strategy_runtime) into a plan, executed rule by rule in child processes, and
  recorded as a decision trace. The entry watcher (app/entry_watcher) turns a stream of analyses of a
  symbol into the lifecycle of a watch, the alert engine (app/alert_engine) turns it into alerts for a
  human, and signal fusion (app/signal_fusion_engine) weighs the assessments of several engines into one
  state per symbol. Watch transitions, alerts and fusion transitions become entry signals
  (app/integration/entry_signal_adapter.py). The opportunity engine (app/entry_opportunity_engine) follows
  one paper opportunity per symbol through watch transitions, analyses, alerts and bars until it closes.

  Conventions. A class with data is a record, an enumeration a datatype, a constructor with validation a
  function to a result (\<open>Inl\<close> an error of \<open>py_error\<close>, \<open>Inr\<close> a
  value), and every raise of the modelled code is
  a branch. State is passed and returned explicitly; where an exception leaves a partial effect behind, the
  state is returned beside the error. Python integers are \<open>int\<close>; instants and durations are integer
  microseconds; \<open>Decimal\<close> is a rational, with the default context's rounding to 28 digits written out (Decimals);
  a dictionary is an association list in insertion order. Code outside src/app (SHA-256, time zones, the
  HTTP provider, the operating system, rule packs, ISO texts, random identifiers) is a parameter.

  Theories and the code they model, in import order:
    \<^item> Prelude, Decimals: results, strings, dictionaries, grouping; decimal arithmetic.
    \<^item> Enums, Identifiers, Canonical, Subjects: app/contracts/enums.py, _base.py, app/common/ids.py,
      canonical.py, app/event_bus/subjects.py and the subject builders of app/contracts.
    \<^item> Rule_Contracts, Strategy_Graph: the contracts of rules, strategies and traces; the cycle check.
    \<^item> Rule_Registry, Topological_Order, Strategy_Compiler, Rule_Runner, Strategy_Runtime: registration,
      snapshots, execution order, compilation, the subprocess runner and the execution of a plan.
    \<^item> Event_Bus, Bus_Maintenance: the in-memory bus, cut at the suspension points of the event loop into a
      step relation in which publications, subscriptions and single steps of each delivery interleave, and
      the maintenance of its JetStream counterpart.
    \<^item> Market_Session, Bar_Normalizer, Bar_Download, Bar_Store, Market_History, History_Service: bars and
      sessions, the wire format, the paged download, the table, and the synchronization service with its laws.
    \<^item> Bar_Aggregator, Aggregator_Laws, Bar_Series: aggregation of bars and the bounded series.
    \<^item> Watch_Contracts, Decimal_Text, Watch_Store, Watch_Rules, Entry_Watcher, Watch_Laws, Watch_Properties:
      the entry watcher, its store port, its confirmation rules, and its guarantees.
    \<^item> Audit_Log, Audit_Laws: the append-only audit trail of app/audit_engine and its crash recovery.
    \<^item> Outbox, Outbox_Laws: the transactional outbox (app/persistence/repositories.py) and its relay
      (app/integration/outbox_relay.py), as one drain and, cut at its transactions and publications, as the
      step of a worker; any number of workers with crashes is a step relation over it.
    \<^item> Alert_Contracts, Alert_Engine, Alert_Confluence, Alert_Continuation: the alert engine of app/alert_engine,
      versions 1 (engine.py), 2 (v2.py, confirmed.py), 3 and 3.1 (v3.py, v31.py, state.py), whose state records
      extend each other as the classes do; Alert_Laws, Alert_Gates: runs over inputs and the locale of their
      shared gate; Alert_Restart, Alert_Demo, Alert_Properties, Alert_Checkpoint: the guarantees.
    \<^item> Fusion_Contracts, Signal_Fusion: the assessments signal fusion reads and writes, and its engine in
      versions 0.3 to 0.5; Entry_Signals: the entry signal contract and its adapters; Fusion_Runtime: the
      process around the engine (app/integration/signal_fusion_composition.py) with its handlers as tasks
      that interleave at every publication; Decimal_Facts, Fusion_Laws, Fusion_Chain, Fusion_Demo,
      Fusion_Properties: facts about rounded decimals, the laws, the chain of transitions, the guarantees.
    \<^item> Opportunity_Contracts, Opportunity_Rules, Opportunity_Store, Opportunity_Engine: the contracts of paper
      opportunities (app/contracts/entry_opportunity.py), the store, and the engine in version 1, each handler
      a decision followed by one save; Opportunity_Laws, Opportunity_History, Opportunity_Steps,
      Opportunity_Advance, Opportunity_Decisions, Opportunity_Marks, Opportunity_Properties: what every
      building block, every decision and finally any run of the handlers keeps.

  Interfaces. The locale \<open>string_enum\<close> is interpreted for every enumeration; \<open>bar_repository\<close> (what the history
  service needs of the table) by the table model; \<open>entry_watch_store\<close> (what the watcher needs of a store) by
  the in-memory store; \<open>trigger_rules\<close> (what a version's confirmation implies) by the versions of the watcher;
  \<open>gated_engine\<close> (what one ingestion of an alert engine may emit and remember) by versions 1, 2 and 3;
  \<open>fusion_engine\<close> (all the fusion process asks of its engine) by versions 0.3, 0.4 and 0.5;
  \<open>opportunity_store\<close> (what the opportunity engine needs of its store) by the in-memory store.
  The watcher's lifecycle is proved once for every store that meets the contract.

  What the groups of lemmas show. Compiler: an order exists for exactly the accepted specifications and is
  the stable list schedule; plans bind the registrations fixed by the snapshot. Runtime: which failures of
  a worker become an ERROR result and which exceptions escape, steps run exactly when the policies allow
  it, exactly the confirmed accepted primary runs are eligible. Bus: every subscriber is given exactly what
  it is owed under every interleaving, no event twice with deduplication, and settlement after join, on the
  default asynchronous bus; the calls of a synchronous bus are modelled without theorems. History: what synchronization
  may write, which symbols it fetches, how long bars are kept. Aggregation: emitted bars are aggregates of
  bars of one bucket, streaming statistics equal the batch result. Watcher: one active watch per symbol,
  legal lifecycle, confirmed triggers, cooldown, monotone context. Audit: what was acknowledged in any life
  of appends, restarts and crashes survives the next crash, appends are idempotent, and an append that fails
  midway spoils its file for every later start. Outbox: a published row was accepted, and every other row is
  offered again until a drain publishes it, under every interleaving; a drain as a refinement of the steps, bounded retry delays. Alerts:
  cooldown unless the severity rises, distinct keys, no silence without a cooldown, what a buy or a swing
  continuation rests on, and what a checkpoint keeps. Fusion: outputs the contract accepts, what a confirmed
  entry rests on, how far the later versions move a score, the chain of published transitions without
  overlapping evaluations and its loss with them. Signals: which watch transitions become one. Opportunities:
  every one held passes its contract, a symbol has at most one that is not closed, each only develops (thesis
  fixed, outcomes final), and a closed one is never touched again.

  Bounds and fuel. The loops of the compiler (\<open>kahn\<close>, the depth-first search) carry a bound on their
  iterations; the theorems that use them prove that the bound suffices for every input, so \<open>OutOfFuel\<close> is never
  returned. The waiting loops of the runner read a finite list of observations, and a run that ends is one
  whose list decides it; the paging loop of the maintenance is a \<open>partial_function\<close>, since it ends only with
  a short page; the download is bounded by the client's own page limit.

  Not modelled. Finite decimals only: NaN, infinities and exponent limits are left out, and a metric holding
  one is outside the theorems. Text is ASCII. Canonical JSON covers JSON-shaped values. The database is what
  its documentation says: a transaction is atomic, \<open>Numeric(28, 8)\<close> rounds to eight decimals and refuses
  what does not fit. The retry delay of the outbox is computed exactly, where the code goes through a
  float of seconds. Network, database, process and file I/O (the NATS bus, SQL,
  HTTP, multiprocessing, dashboards, the command line) is left out, as is the shared cache process behind
  some in-memory stores; coroutines that do not interleave with shared state run as functions. The later
  versions of the entry watcher, the alert engine and the opportunity engine and the other engines are
  listed with the components as not modelled yet.
\<close>

end
